(* ===== verification/Prelude.thy ===== *)
theory Prelude
  imports
    Complex_Main
    "HOL-Library.Word"
    "HOL-Library.Signed_Division"
    "HOL-Library.Multiset"
begin

text \<open>
  The shared vocabulary of the development: the machine integers of the Go sources, Go's truncating
  integer division, the collections of facts that the component theories extend, and the generic
  lemmas on lists, maps and words that more than one component uses.

  Reading guide for the types. Go's fixed-width integers are words (\<open>u8\<close> to \<open>u64\<close>; signed ones
  have the same carrier and are read with \<open>sint\<close>). Go's \<open>int\<close> (64 bits on the server) is the
  unbounded \<open>int\<close> of HOL in the game logic, whose quantities (coordinates, hit points, ticks, stack
  sizes) are bounded by configuration far below \<open>2^63\<close>; where a computation can wrap at a width
  that matters (wire encoding, identifiers, token buckets) the words are kept. A Go \<open>map\<close> is a
  partial function; where the code iterates over a map, the iteration order is an explicit list,
  because Go leaves it unspecified.
\<close>

unbundle bit_operations_syntax

subsection \<open>Machine integers\<close>

type_synonym u8 = "8 word"
type_synonym u16 = "16 word"
type_synonym u32 = "32 word"
type_synonym u64 = "64 word"
type_synonym byte_seq = "u8 list"

text \<open>
  Go's \<open>/\<close> and \<open>%\<close> on signed integers truncate towards zero. All divisors in the modelled code are
  non-zero constants, so the panic on a zero divisor does not arise.
\<close>

definition go_div :: "int \<Rightarrow> int \<Rightarrow> int" where
  "go_div a b = a sdiv b"

lemma go_div_nonneg [simp]: "0 \<le> a \<Longrightarrow> 0 < b \<Longrightarrow> go_div a b = a div b"
  by (cases "a = 0") (simp_all add: go_div_def signed_divide_int_def)

lemma go_div_neg: "0 \<le> a \<Longrightarrow> 0 < b \<Longrightarrow> go_div (- a) b = - (a div b)"
  by (cases "a = 0") (simp_all add: go_div_def signed_divide_int_def)

lemma go_div_mono: "a \<le> a' \<Longrightarrow> 0 < b \<Longrightarrow> go_div a b \<le> go_div a' b"
proof -
  assume le: "a \<le> a'" and b: "0 < b"
  consider "0 \<le> a" | "a < 0" "0 \<le> a'" | "a < 0" "a' < 0" by linarith
  then show ?thesis
  proof cases
    case 1
    with le b show ?thesis by (simp add: zdiv_mono1)
  next
    case 2
    then have "go_div a b = - ((- a) div b)" and "go_div a' b = a' div b"
      using b go_div_neg [of "- a" b] by simp_all
    moreover have "0 \<le> (- a) div b" and "0 \<le> a' div b"
      using 2 b by (simp_all add: pos_imp_zdiv_nonneg_iff)
    ultimately show ?thesis by linarith
  next
    case 3
    then have "go_div a b = - ((- a) div b)" and "go_div a' b = - ((- a') div b)"
      using b go_div_neg [of "- a" b] go_div_neg [of "- a'" b] by simp_all
    moreover have "(- a') div b \<le> (- a) div b"
      using le b by (intro zdiv_mono1) simp_all
    ultimately show ?thesis by linarith
  qed
qed

lemma go_div_nonneg_iff: "0 < b \<Longrightarrow> 0 \<le> a \<Longrightarrow> 0 \<le> go_div a b"
  by (simp add: pos_imp_zdiv_nonneg_iff)

lemma go_div_le: "0 \<le> a \<Longrightarrow> 1 \<le> b \<Longrightarrow> go_div a b \<le> a"
  using zdiv_mono2 [of a 1 b] by (simp add: go_div_nonneg)

lemma u32_less_succ: "g < 2 ^ 32 - 1 \<Longrightarrow> g < g + (1 :: u32)"
  by (simp add: word_less_nat_alt unat_word_ariths)

lemma u64_succ_less: "n < 2 ^ 32 - 1 \<Longrightarrow> n + (1 :: u64) < 2 ^ 32 \<and> n < n + 1 \<and> n + 1 \<noteq> 0"
  by (auto simp: word_less_nat_alt unat_word_ariths word_unat_eq_iff)

subsection \<open>Lists\<close>

lemma nth_append_single:
  "i < Suc (length xs) \<Longrightarrow> (xs @ [x]) ! i = (if i = length xs then x else xs ! i)"
  by (simp add: nth_append)

text \<open>Removal from a slice by moving its last element into the gap.\<close>

definition swap_remove :: "nat \<Rightarrow> 'a list \<Rightarrow> 'a list" where
  "swap_remove i xs = take (length xs - 1) (xs[i := xs ! (length xs - 1)])"

lemma length_swap_remove [simp]: "length (swap_remove i xs) = length xs - 1"
  by (simp add: swap_remove_def)

lemma nth_swap_remove:
  "k < length xs - 1 \<Longrightarrow> swap_remove i xs ! k = (if k = i then xs ! (length xs - 1) else xs ! k)"
  by (simp add: swap_remove_def nth_list_update)

lemma zip_swap_remove:
  "length xs = length ys \<Longrightarrow> i < length xs \<Longrightarrow>
   zip (swap_remove i xs) (swap_remove i ys) = swap_remove i (zip xs ys)"
  by (rule nth_equalityI) (auto simp: nth_swap_remove)

lemma distinct_swap_remove: "distinct xs \<Longrightarrow> distinct (swap_remove i xs)"
  by (auto simp: distinct_conv_nth nth_swap_remove)

lemma set_swap_remove:
  assumes "distinct xs" and "i < length xs"
  shows "set (swap_remove i xs) = set xs - {xs ! i}"
proof -
  let ?n = "length xs - 1"
  have "x \<in> set (swap_remove i xs) \<longleftrightarrow> x \<in> set xs - {xs ! i}" for x
  proof
    assume "x \<in> set (swap_remove i xs)"
    then obtain k where k: "k < ?n" "x = swap_remove i xs ! k" by (auto simp: in_set_conv_nth)
    with assms show "x \<in> set xs - {xs ! i}"
      by (cases "k = i") (auto simp: nth_swap_remove nth_eq_iff_index_eq)
  next
    assume x: "x \<in> set xs - {xs ! i}"
    then obtain k where k: "k < length xs" "x = xs ! k" by (auto simp: in_set_conv_nth)
    with x have ki: "k \<noteq> i" by auto
    define j where "j = (if k = ?n then i else k)"
    with k ki assms(2) have "j < ?n" and "swap_remove i xs ! j = x"
      by (auto simp: nth_swap_remove split: if_splits)
    then show "x \<in> set (swap_remove i xs)"
      by (metis length_swap_remove nth_mem)
  qed
  then show ?thesis by blast
qed

lemma map_of_zip_update_nth:
  "length xs = length ys \<Longrightarrow> distinct xs \<Longrightarrow> k < length xs \<Longrightarrow>
   map_of (zip xs (ys[k := v])) = (map_of (zip xs ys))(xs ! k \<mapsto> v)"
proof (induction xs ys arbitrary: k rule: list_induct2)
  case Nil
  then show ?case by simp
next
  case (Cons x xs y ys)
  then show ?case
    by (cases k) (auto simp: fun_eq_iff)
qed

lemma map_of_removed:
  assumes "distinct (map fst xs)" "distinct (map fst ys)" and "set ys = set xs - {(a, b)}"
    and "(a, b) \<in> set xs"
  shows "map_of ys = (map_of xs)(a := None)"
proof (rule ext)
  fix x
  have key: "v = b" if "(a, v) \<in> set xs" for v
    using assms(1) that assms(4) by (rule eq_key_imp_eq_value)
  have ys: "map_of ys x = Some v \<longleftrightarrow> (x, v) \<in> set ys" for v
    using assms(2) by (simp only: map_of_eq_Some_iff)
  have xs: "map_of xs x = Some v \<longleftrightarrow> (x, v) \<in> set xs" for v
    using assms(1) by (simp only: map_of_eq_Some_iff)
  show "map_of ys x = ((map_of xs)(a := None)) x"
  proof (cases "x = a")
    case True
    with ys key assms(3) have "map_of ys x \<noteq> Some v" for v by auto
    with True show ?thesis by (cases "map_of ys x") auto
  next
    case False
    then have "map_of ys x = Some v \<longleftrightarrow> map_of xs x = Some v" for v
      unfolding xs ys assms(3) by simp
    then have "map_of ys x = map_of xs x"
      by (metis option.exhaust)
    with False show ?thesis by simp
  qed
qed

lemma map_of_middle:
  "k \<notin> fst ` set xs \<Longrightarrow> k \<notin> fst ` set ys \<Longrightarrow>
   map_of (xs @ ys) = (map_of (xs @ (k, v) # ys))(k := None)"
  by (induction xs) (auto simp: fun_eq_iff map_of_eq_None_iff intro: sym)

subsection \<open>Maps\<close>

lemma inj_on_insert_new: "inj_on f A \<Longrightarrow> (\<And>x. x \<in> A \<Longrightarrow> f x \<noteq> f e) \<Longrightarrow> inj_on f (insert e A)"
  unfolding inj_on_def by (metis insert_iff)

end
