(* ===== verification/Timer.thy ===== *)
theory Timer
  imports Prelude
begin

text \<open>
  \<open>server/peakgo/timer/timer.go\<close>. \<open>TickTimer\<close> counts game ticks; \<open>WallTimer\<close> holds a deadline, here in
  nanoseconds with 0 for Go's zero time, and takes the current time as an argument where the code
  calls \<open>time.Now\<close>. The floating-point \<open>Progress\<close> and the formatting method \<open>String\<close> are left out.
\<close>

subsection \<open>TickTimer\<close>

record TickTimer =
  Cur :: int
  Cooldown :: int

definition NewTickTimer :: "int \<Rightarrow> TickTimer" where
  "NewTickTimer cooldown = \<lparr>Cur = 0, Cooldown = (if cooldown < 1 then 1 else cooldown)\<rparr>"

definition timer_Advance :: "TickTimer \<Rightarrow> TickTimer" where
  "timer_Advance t = t\<lparr>Cur := Cur t + 1\<rparr>"

definition timer_Ready :: "TickTimer \<Rightarrow> bool" where
  "timer_Ready t \<longleftrightarrow> Cur t \<ge> Cooldown t"

definition AdvanceAndCheck :: "TickTimer \<Rightarrow> bool \<times> TickTimer" where
  "AdvanceAndCheck t = (let t' = t\<lparr>Cur := Cur t + 1\<rparr> in (Cur t' \<ge> Cooldown t', t'))"

definition timer_Tick :: "TickTimer \<Rightarrow> bool \<times> TickTimer" where
  "timer_Tick t =
     (let t' = t\<lparr>Cur := Cur t + 1\<rparr>
      in if Cur t' < Cooldown t' then (False, t') else (True, t'\<lparr>Cur := 0\<rparr>))"

definition timer_Reset :: "TickTimer \<Rightarrow> TickTimer" where
  "timer_Reset t = t\<lparr>Cur := 0\<rparr>"

definition SetCooldown :: "int \<Rightarrow> TickTimer \<Rightarrow> TickTimer" where
  "SetCooldown cooldown t = t\<lparr>Cooldown := (if cooldown < 1 then 1 else cooldown)\<rparr>"

definition GetCooldown :: "TickTimer \<Rightarrow> int" where
  "GetCooldown t = Cooldown t"

definition Elapsed :: "TickTimer \<Rightarrow> int" where
  "Elapsed t = Cur t"

definition timer_Remaining :: "TickTimer \<Rightarrow> int" where
  "timer_Remaining t = (let r = Cooldown t - Cur t in if r \<le> 0 then 0 else r)"

text \<open>Every constructor and setter keeps the cooldown positive and the counter non-negative.\<close>

definition timer_ok :: "TickTimer \<Rightarrow> bool" where
  "timer_ok t \<longleftrightarrow> 1 \<le> Cooldown t \<and> 0 \<le> Cur t"

lemma timer_ok_ops [simp]:
  "timer_ok (NewTickTimer c)"
  "timer_ok t \<Longrightarrow> timer_ok (timer_Advance t)"
  "timer_ok t \<Longrightarrow> timer_ok (timer_Reset t)"
  "timer_ok t \<Longrightarrow> timer_ok (SetCooldown c t)"
  "timer_ok t \<Longrightarrow> timer_ok (snd (timer_Tick t))"
  "timer_ok t \<Longrightarrow> timer_ok (snd (AdvanceAndCheck t))"
  by (auto simp: timer_ok_def NewTickTimer_def timer_Advance_def timer_Reset_def SetCooldown_def
      timer_Tick_def AdvanceAndCheck_def Let_def)

lemma Remaining_Ready: "timer_Remaining t = 0 \<longleftrightarrow> timer_Ready t"
  by (auto simp: timer_Remaining_def timer_Ready_def Let_def)

lemma Remaining_Advance: "timer_ok t \<Longrightarrow> timer_Remaining (timer_Advance t) = max 0 (timer_Remaining t - 1)"
  by (auto simp: timer_Remaining_def timer_Advance_def Let_def)

text \<open>\<open>n\<close> calls of \<open>Tick\<close>: how often it fired, and the timer afterwards.\<close>

fun tick_n :: "nat \<Rightarrow> TickTimer \<Rightarrow> nat \<times> TickTimer" where
  "tick_n 0 t = (0, t)"
| "tick_n (Suc n) t =
     (case tick_n n t of (k, t') \<Rightarrow> case timer_Tick t' of (b, t'') \<Rightarrow> (if b then Suc k else k, t''))"

lemma tick_n_exact:
  assumes "1 \<le> Cooldown t" and "0 \<le> Cur t" and "Cur t < Cooldown t"
  shows "int (fst (tick_n n t)) = (Cur t + int n) div Cooldown t \<and>
         Cur (snd (tick_n n t)) = (Cur t + int n) mod Cooldown t \<and> Cooldown (snd (tick_n n t)) = Cooldown t"
proof (induction n)
  case 0
  with assms show ?case by simp
next
  case (Suc n)
  let ?c = "Cooldown t" and ?x = "Cur t + int n"
  obtain k t' where k: "tick_n n t = (k, t')" by force
  with Suc have t': "int k = ?x div ?c" "Cur t' = ?x mod ?c" "Cooldown t' = ?c" by auto
  have pos: "0 < ?c" using assms by simp
  have split: "?x = ?c * (?x div ?c) + ?x mod ?c" by simp
  show ?case
  proof (cases "?x mod ?c + 1 < ?c")
    case True
    have "?x + 1 = (?x mod ?c + 1) + ?c * (?x div ?c)" using split by linarith
    moreover have "0 \<le> ?x mod ?c" using pos by simp
    ultimately have "(?x + 1) div ?c = ?x div ?c" and "(?x + 1) mod ?c = ?x mod ?c + 1"
      using True pos by (simp_all only: div_mult_self2 mod_mult_self2) simp_all
    with True t' k show ?thesis by (simp add: timer_Tick_def Let_def algebra_simps)
  next
    case False
    moreover have "?x mod ?c < ?c" using pos by simp
    ultimately have eq: "?x mod ?c + 1 = ?c" by linarith
    have "?c * (?x div ?c + 1) = ?c * (?x div ?c) + ?c" by (simp add: distrib_left)
    with eq split have "?x + 1 = ?c * (?x div ?c + 1)" by linarith
    then have "(?x + 1) div ?c = ?x div ?c + 1" and "(?x + 1) mod ?c = 0" using pos by simp_all
    with False t' k eq show ?thesis by (simp add: timer_Tick_def Let_def algebra_simps)
  qed
qed

subsection \<open>WallTimer\<close>

record WallTimer =
  ExpiresAtTime :: int

definition NewWallTimer :: "int \<Rightarrow> int \<Rightarrow> WallTimer" where
  "NewWallTimer now d = \<lparr>ExpiresAtTime = now + d\<rparr>"

definition NewWallTimerAt :: "int \<Rightarrow> WallTimer" where
  "NewWallTimerAt t = \<lparr>ExpiresAtTime = t\<rparr>"

definition wall_IsZero :: "WallTimer \<Rightarrow> bool" where
  "wall_IsZero w \<longleftrightarrow> ExpiresAtTime w = 0"

definition DoneAt :: "int \<Rightarrow> WallTimer \<Rightarrow> bool" where
  "DoneAt now w \<longleftrightarrow> \<not> now < ExpiresAtTime w"

definition wall_Remaining :: "int \<Rightarrow> WallTimer \<Rightarrow> int" where
  "wall_Remaining now w = (let r = ExpiresAtTime w - now in if r < 0 then 0 else r)"

definition ExpiredDuration :: "int \<Rightarrow> WallTimer \<Rightarrow> int" where
  "ExpiredDuration now w =
     (if wall_IsZero w then 0 else let r = now - ExpiresAtTime w in if r < 0 then 0 else r)"

definition Refresh :: "int \<Rightarrow> int \<Rightarrow> WallTimer \<Rightarrow> WallTimer" where
  "Refresh now d w = w\<lparr>ExpiresAtTime := now + d\<rparr>"

definition ExtendFrom :: "int \<Rightarrow> WallTimer \<Rightarrow> WallTimer" where
  "ExtendFrom d w = w\<lparr>ExpiresAtTime := ExpiresAtTime w + d\<rparr>"

lemma wall_Remaining_Done: "wall_Remaining now w = 0 \<longleftrightarrow> DoneAt now w"
  by (auto simp: wall_Remaining_def DoneAt_def Let_def)

lemma wall_Remaining_Extend: "0 \<le> d \<Longrightarrow> \<not> DoneAt now w \<Longrightarrow> wall_Remaining now (ExtendFrom d w) = wall_Remaining now w + d"
  by (auto simp: wall_Remaining_def DoneAt_def ExtendFrom_def Let_def)

subsection \<open>Properties\<close>

text \<open>
  A timer made by \<open>NewTickTimer\<close> and ticked \<open>n\<close> times with \<open>Tick\<close> has fired exactly
  \<open>n / cooldown\<close> times, a cooldown below 1 counting as 1: it never drifts.
\<close>

theorem Tick_fires_exactly:
  "int (fst (tick_n n (NewTickTimer c))) = int n div max 1 c \<and>
   Elapsed (snd (tick_n n (NewTickTimer c))) = int n mod max 1 c"
  using tick_n_exact [of "NewTickTimer c" n] by (auto simp: NewTickTimer_def Elapsed_def max_def)

end
