(* ===== verification/Fsm.thy ===== *)
theory Fsm
  imports Timer
begin

text \<open>
  The generic state machine of \<open>server/peakgo/fsm/fsm.go\<close>: definitions built from transition rules,
  instances with guard hooks, and the state-timeout wrapper. Hooks are pure guards here, functions of
  the two states and the event; Go's nil definition is \<open>None\<close>.
\<close>

subsection \<open>Definitions\<close>

type_synonym ('s, 'e) hook = "'s \<Rightarrow> 's \<Rightarrow> 'e \<Rightarrow> bool"

record ('s, 'e) TransitionRule =
  From :: 's
  Event :: 'e
  To :: 's

record ('s, 'e) FSMDef =
  transitions :: "'s \<rightharpoonup> 'e \<rightharpoonup> 's"
  onEnter :: "'s \<Rightarrow> ('s, 'e) hook list"
  onExit :: "'s \<Rightarrow> ('s, 'e) hook list"
  initial_state :: 's

text \<open>The rule loop of \<open>NewFSMDef\<close>; \<open>None\<close> is the panic on a duplicate transition.\<close>

fun add_rules :: "('s, 'e) TransitionRule list \<Rightarrow> ('s \<rightharpoonup> 'e \<rightharpoonup> 's) \<Rightarrow> ('s \<rightharpoonup> 'e \<rightharpoonup> 's) option" where
  "add_rules [] tr = Some tr"
| "add_rules (r # rs) tr =
     (let tr1 = (case tr (From r) of None \<Rightarrow> tr(From r \<mapsto> Map.empty) | Some _ \<Rightarrow> tr);
          row = the (tr1 (From r))
      in case row (Event r) of
           Some _ \<Rightarrow> None
         | None \<Rightarrow> add_rules rs (tr1(From r \<mapsto> row(Event r \<mapsto> To r))))"

definition NewFSMDef :: "'s \<Rightarrow> ('s, 'e) TransitionRule list \<Rightarrow> ('s, 'e) FSMDef option" where
  "NewFSMDef init rules = map_option
     (\<lambda>tr. \<lparr>transitions = tr, onEnter = (\<lambda>_. []), onExit = (\<lambda>_. []), initial_state = init\<rparr>)
     (add_rules rules Map.empty)"

definition OnEnter :: "'s \<Rightarrow> ('s, 'e) hook \<Rightarrow> ('s, 'e) FSMDef \<Rightarrow> ('s, 'e) FSMDef" where
  "OnEnter st h d = d\<lparr>onEnter := (onEnter d)(st := onEnter d st @ [h])\<rparr>"

definition OnExit :: "'s \<Rightarrow> ('s, 'e) hook \<Rightarrow> ('s, 'e) FSMDef \<Rightarrow> ('s, 'e) FSMDef" where
  "OnExit st h d = d\<lparr>onExit := (onExit d)(st := onExit d st @ [h])\<rparr>"

text \<open>The transition graph of a definition, as one partial function.\<close>

definition next_state :: "('s, 'e) FSMDef \<Rightarrow> 's \<Rightarrow> 'e \<Rightarrow> 's option" where
  "next_state d s e = (case transitions d s of None \<Rightarrow> None | Some row \<Rightarrow> row e)"

subsection \<open>Instances\<close>

record ('s, 'e) FSM =
  Def :: "('s, 'e) FSMDef option"
  Current :: 's
  Ticker :: TickTimer

definition zero_timer :: TickTimer where
  "zero_timer = \<lparr>Cur = 0, Cooldown = 0\<rparr>"

text \<open>\<open>zero\<close> is Go's zero value of the state type.\<close>

definition NewFSM :: "'s \<Rightarrow> ('s, 'e) FSMDef option \<Rightarrow> ('s, 'e) FSM" where
  "NewFSM zero d = (case d of
     None \<Rightarrow> \<lparr>Def = None, Current = zero, Ticker = zero_timer\<rparr>
   | Some def \<Rightarrow> \<lparr>Def = Some def, Current = initial_state def, Ticker = zero_timer\<rparr>)"

definition fsm_Is :: "('s, 'e) FSM \<Rightarrow> 's \<Rightarrow> bool" where
  "fsm_Is f s \<longleftrightarrow> (case Def f of None \<Rightarrow> False | Some _ \<Rightarrow> Current f = s)"

definition fsm_Can :: "('s, 'e) FSM \<Rightarrow> 'e \<Rightarrow> bool" where
  "fsm_Can f e \<longleftrightarrow> (case Def f of None \<Rightarrow> False
     | Some def \<Rightarrow> (case transitions def (Current f) of None \<Rightarrow> False | Some row \<Rightarrow> row e \<noteq> None))"

text \<open>\<open>Send\<close>. On success it returns the state it left (\<open>oldState\<close>), not the state it entered.\<close>

definition fsm_Send :: "('s, 'e) FSM \<Rightarrow> 'e \<Rightarrow> ('s \<times> bool) \<times> ('s, 'e) FSM" where
  "fsm_Send f e = (case Def f of
     None \<Rightarrow> ((Current f, False), f)
   | Some def \<Rightarrow> (case transitions def (Current f) of
       None \<Rightarrow> ((Current f, False), f)
     | Some row \<Rightarrow> (case row e of
         None \<Rightarrow> ((Current f, False), f)
       | Some target \<Rightarrow>
           if \<not> list_all (\<lambda>h. h (Current f) target e) (onExit def (Current f)) then ((Current f, False), f)
           else if \<not> list_all (\<lambda>h. h (Current f) target e) (onEnter def target) then ((Current f, False), f)
           else let oldState = Current f
                in ((oldState, True), f\<lparr>Current := target, Ticker := timer_Reset (Ticker f)\<rparr>))))"

text \<open>\<open>Force\<close> passes Go's zero event \<open>ev0\<close> to the hooks.\<close>

definition fsm_Force :: "'e \<Rightarrow> 's \<Rightarrow> ('s, 'e) FSM \<Rightarrow> ('s, 'e) FSM" where
  "fsm_Force ev0 st f = (case Def f of
     None \<Rightarrow> f\<lparr>Current := st\<rparr>
   | Some def \<Rightarrow>
       if \<not> list_all (\<lambda>h. h (Current f) st ev0) (onExit def (Current f)) then f
       else if \<not> list_all (\<lambda>h. h (Current f) st ev0) (onEnter def st) then f
       else f\<lparr>Current := st, Ticker := timer_Reset (Ticker f)\<rparr>)"

definition fsm_Reset :: "('s, 'e) FSM \<Rightarrow> ('s, 'e) FSM" where
  "fsm_Reset f = (case Def f of None \<Rightarrow> f
     | Some def \<Rightarrow> f\<lparr>Current := initial_state def, Ticker := timer_Reset (Ticker f)\<rparr>)"

subsection \<open>State timeouts\<close>

record ('s, 'e) StateTimer =
  st_FSM :: "('s, 'e) FSM"
  Timeouts :: "('s \<rightharpoonup> int) option"
  TimeoutEvent :: 'e

definition NewStateTimer :: "'s \<Rightarrow> ('s, 'e) FSMDef option \<Rightarrow> ('s \<rightharpoonup> int) option \<Rightarrow> 'e \<Rightarrow> ('s, 'e) StateTimer" where
  "NewStateTimer zero d timeouts ev = \<lparr>st_FSM = NewFSM zero d, Timeouts = timeouts, TimeoutEvent = ev\<rparr>"

definition StateTimer_Tick :: "('s, 'e) StateTimer \<Rightarrow> bool \<times> ('s, 'e) StateTimer" where
  "StateTimer_Tick st = (case Timeouts st of
     None \<Rightarrow> (False, st)
   | Some ts \<Rightarrow> (case ts (Current (st_FSM st)) of
       None \<Rightarrow> (False, st)
     | Some timeout \<Rightarrow>
         let f = st_FSM st;
             tk = (if GetCooldown (Ticker f) \<noteq> timeout then SetCooldown timeout (Ticker f) else Ticker f);
             (fired, tk') = timer_Tick tk;
             f' = f\<lparr>Ticker := tk'\<rparr>
         in if fired
            then (case fsm_Send f' (TimeoutEvent st) of ((_, ok), f'') \<Rightarrow> (ok, st\<lparr>st_FSM := f''\<rparr>))
            else (False, st\<lparr>st_FSM := f'\<rparr>)))"


subsection \<open>The transition graph is the rule list\<close>

definition rule_key :: "('s, 'e) TransitionRule \<Rightarrow> 's \<times> 'e" where
  "rule_key r = (From r, Event r)"

definition lookup2 :: "('s \<rightharpoonup> 'e \<rightharpoonup> 's) \<Rightarrow> 's \<times> 'e \<Rightarrow> 's option" where
  "lookup2 tr k = (case tr (fst k) of None \<Rightarrow> None | Some row \<Rightarrow> row (snd k))"

text \<open>One iteration of the loop, seen through the two-level lookup.\<close>

definition put_rule :: "('s, 'e) TransitionRule \<Rightarrow> ('s \<rightharpoonup> 'e \<rightharpoonup> 's) \<Rightarrow> 's \<rightharpoonup> 'e \<rightharpoonup> 's" where
  "put_rule r tr = tr(From r \<mapsto> (case tr (From r) of None \<Rightarrow> Map.empty | Some row \<Rightarrow> row)(Event r \<mapsto> To r))"

lemma add_rules_step:
  "add_rules (r # rs) tr = (if lookup2 tr (rule_key r) \<noteq> None then None else add_rules rs (put_rule r tr))"
  by (auto simp: Let_def lookup2_def rule_key_def put_rule_def split: option.splits)

lemma lookup2_empty [simp]: "lookup2 Map.empty k = None"
  by (simp add: lookup2_def)

lemma lookup2_put: "lookup2 (put_rule r tr) k = (if k = rule_key r then Some (To r) else lookup2 tr k)"
  by (cases k) (auto simp: lookup2_def put_rule_def rule_key_def split: option.splits)

lemma add_rules_None:
  "add_rules rs tr = None \<longleftrightarrow>
     \<not> distinct (map rule_key rs) \<or> (\<exists>r \<in> set rs. lookup2 tr (rule_key r) \<noteq> None)"
proof (induction rs arbitrary: tr)
  case (Cons a rs)
  have clash: "(\<exists>r \<in> set rs. lookup2 (put_rule a tr) (rule_key r) \<noteq> None) \<longleftrightarrow>
      rule_key a \<in> rule_key ` set rs \<or> (\<exists>r \<in> set rs. lookup2 tr (rule_key r) \<noteq> None)"
    by (auto simp: lookup2_put) (metis image_eqI)
  show ?case
    unfolding add_rules_step using Cons.IH [of "put_rule a tr", unfolded clash] by auto
qed simp

lemma add_rules_Some:
  "add_rules rs tr = Some tr' \<Longrightarrow>
   lookup2 tr' k = (case map_of (map (\<lambda>r. (rule_key r, To r)) rs) k of Some t \<Rightarrow> Some t | None \<Rightarrow> lookup2 tr k)"
proof (induction rs arbitrary: tr)
  case (Cons a rs)
  from Cons.prems have step: "add_rules rs (put_rule a tr) = Some tr'" and free: "lookup2 tr (rule_key a) = None"
    unfolding add_rules_step by (auto split: if_splits)
  have "add_rules rs (put_rule a tr) \<noteq> None" using step by simp
  then have "rule_key a \<notin> rule_key ` set rs"
    unfolding add_rules_None by (auto simp: lookup2_put)
  then have "map_of (map (\<lambda>r. (rule_key r, To r)) rs) (rule_key a) = None"
    by (simp add: map_of_eq_None_iff image_image)
  with Cons.IH [OF step] show ?case by (auto simp: lookup2_put split: option.splits)
qed simp

lemma next_state_lookup2: "next_state d s e = lookup2 (transitions d) (s, e)"
  by (simp add: next_state_def lookup2_def cong: option.case_cong)

lemma NewFSMDef_None: "NewFSMDef init rules = None \<longleftrightarrow> \<not> distinct (map rule_key rules)"
  by (simp add: NewFSMDef_def add_rules_None)

lemma NewFSMDef_Some:
  assumes "NewFSMDef init rules = Some d"
  shows "initial_state d = init \<and> onEnter d = (\<lambda>_. []) \<and> onExit d = (\<lambda>_. []) \<and>
         next_state d s e = map_of (map (\<lambda>r. (rule_key r, To r)) rules) (s, e)"
proof -
  from assms obtain tr where tr: "add_rules rules Map.empty = Some tr" "transitions d = tr"
    and rest: "initial_state d = init" "onEnter d = (\<lambda>_. [])" "onExit d = (\<lambda>_. [])"
    by (auto simp: NewFSMDef_def)
  from add_rules_Some [OF tr(1)] tr(2) rest show ?thesis
    by (auto simp: next_state_lookup2 split: option.splits)
qed

subsection \<open>What Send does\<close>

definition guards_pass :: "('s, 'e) FSMDef \<Rightarrow> 's \<Rightarrow> 's \<Rightarrow> 'e \<Rightarrow> bool" where
  "guards_pass d s t e \<longleftrightarrow> list_all (\<lambda>h. h s t e) (onExit d s @ onEnter d t)"

lemma fsm_Send_cases:
  "fsm_Send f e = (case Def f of None \<Rightarrow> ((Current f, False), f)
     | Some d \<Rightarrow> (case next_state d (Current f) e of
         None \<Rightarrow> ((Current f, False), f)
       | Some t \<Rightarrow> if guards_pass d (Current f) t e
           then ((Current f, True), f\<lparr>Current := t, Ticker := timer_Reset (Ticker f)\<rparr>)
           else ((Current f, False), f)))"
  by (auto simp: fsm_Send_def next_state_def guards_pass_def Let_def split: option.splits)

lemma fsm_Can_iff: "fsm_Can f e \<longleftrightarrow> (\<exists>d t. Def f = Some d \<and> next_state d (Current f) e = Some t)"
  by (auto simp: fsm_Can_def next_state_def split: option.splits)

lemma fsm_Send_Def [simp]: "Def (snd (fsm_Send f e)) = Def f"
  by (auto simp: fsm_Send_cases split: option.splits)

lemma fsm_Send_returns_old: "fst (fst (fsm_Send f e)) = Current f"
  by (auto simp: fsm_Send_cases split: option.splits)

subsection \<open>Timeouts\<close>

lemma StateTimer_idle_step:
  assumes t: "Timeouts st = Some ts" "ts (Current (st_FSM st)) = Some n" and n: "1 \<le> n"
    and cur: "0 \<le> Cur (Ticker (st_FSM st))" "Cur (Ticker (st_FSM st)) + 1 < n"
  shows "StateTimer_Tick st = (False, st\<lparr>st_FSM := (st_FSM st)\<lparr>Ticker :=
     \<lparr>Cur = Cur (Ticker (st_FSM st)) + 1, Cooldown = n\<rparr>\<rparr>\<rparr>)"
  using assms by (auto simp: StateTimer_Tick_def Let_def GetCooldown_def SetCooldown_def timer_Tick_def)

lemma StateTimer_fire_step:
  assumes t: "Timeouts st = Some ts" "ts (Current (st_FSM st)) = Some n" and n: "1 \<le> n"
    and cur: "Cur (Ticker (st_FSM st)) + 1 = n"
    and d: "Def (st_FSM st) = Some d" "next_state d (Current (st_FSM st)) (TimeoutEvent st) = Some s'"
    and g: "guards_pass d (Current (st_FSM st)) s' (TimeoutEvent st)"
  shows "fst (StateTimer_Tick st) \<and> Current (st_FSM (snd (StateTimer_Tick st))) = s' \<and>
    Cur (Ticker (st_FSM (snd (StateTimer_Tick st)))) = 0"
  using assms by (auto simp: StateTimer_Tick_def Let_def GetCooldown_def SetCooldown_def timer_Tick_def fsm_Send_cases
      timer_Reset_def)

fun st_ticks :: "nat \<Rightarrow> ('s, 'e) StateTimer \<Rightarrow> ('s, 'e) StateTimer" where
  "st_ticks 0 st = st"
| "st_ticks (Suc k) st = snd (StateTimer_Tick (st_ticks k st))"

lemma st_ticks_idle:
  assumes t: "Timeouts st = Some ts" "ts (Current (st_FSM st)) = Some n" and n: "1 \<le> n"
    and z: "Cur (Ticker (st_FSM st)) = 0"
  shows "int k < n \<Longrightarrow> Timeouts (st_ticks k st) = Some ts \<and> Current (st_FSM (st_ticks k st)) = Current (st_FSM st) \<and>
    Cur (Ticker (st_FSM (st_ticks k st))) = int k \<and> Def (st_FSM (st_ticks k st)) = Def (st_FSM st) \<and>
    TimeoutEvent (st_ticks k st) = TimeoutEvent st"
proof (induction k)
  case (Suc k)
  then have ih: "Timeouts (st_ticks k st) = Some ts" "Current (st_FSM (st_ticks k st)) = Current (st_FSM st)"
    "Cur (Ticker (st_FSM (st_ticks k st))) = int k" "Def (st_FSM (st_ticks k st)) = Def (st_FSM st)"
    "TimeoutEvent (st_ticks k st) = TimeoutEvent st" by auto
  have "ts (Current (st_FSM (st_ticks k st))) = Some n" using ih t by simp
  from StateTimer_idle_step [OF ih(1) this n] ih Suc.prems show ?case by simp
qed (use t z in simp)

subsection \<open>Properties\<close>

text \<open>
  \<open>NewFSMDef\<close> panics exactly when two rules share a state and an event; otherwise the transition graph
  of the definition is the rule list: an event leads to the state of its rule and to nothing else.
\<close>

theorem NewFSMDef_graph:
  "case NewFSMDef init rules of
     None \<Rightarrow> \<not> distinct (map rule_key rules)
   | Some d \<Rightarrow> distinct (map rule_key rules) \<and> initial_state d = init \<and>
       (\<forall>s e. next_state d s e = map_of (map (\<lambda>r. ((From r, Event r), To r)) rules) (s, e))"
  using NewFSMDef_None [of init rules] NewFSMDef_Some [of init rules]
  by (auto simp: rule_key_def split: option.split)

text \<open>
  A state with a timeout of \<open>n\<close> ticks whose timeout event is allowed is left by the \<open>n\<close>-th call of
  \<open>Tick\<close> after it was entered and by no earlier one, and the timer then starts again at zero.
\<close>

theorem StateTimer_times_out:
  assumes "Timeouts st = Some ts" and "ts (Current (st_FSM st)) = Some (int n)" and "1 \<le> n"
    and "Cur (Ticker (st_FSM st)) = 0"
    and "Def (st_FSM st) = Some d" and "next_state d (Current (st_FSM st)) (TimeoutEvent st) = Some s'"
    and "guards_pass d (Current (st_FSM st)) s' (TimeoutEvent st)"
  shows "(\<forall>k < n. Current (st_FSM (st_ticks k st)) = Current (st_FSM st)) \<and>
    Current (st_FSM (st_ticks n st)) = s' \<and> Cur (Ticker (st_FSM (st_ticks n st))) = 0"
proof (intro conjI allI impI)
  have n: "1 \<le> int n" using assms(3) by simp
  show "Current (st_FSM (st_ticks k st)) = Current (st_FSM st)" if "k < n" for k
    using st_ticks_idle [OF assms(1,2) n assms(4), of k] that by simp
  obtain k where k: "n = Suc k" using assms(3) by (cases n) auto
  from st_ticks_idle [OF assms(1,2) n assms(4), of k] k have
    ih: "Timeouts (st_ticks k st) = Some ts" "Current (st_FSM (st_ticks k st)) = Current (st_FSM st)"
      "Cur (Ticker (st_FSM (st_ticks k st))) = int k" "Def (st_FSM (st_ticks k st)) = Def (st_FSM st)"
      "TimeoutEvent (st_ticks k st) = TimeoutEvent st" by auto
  have fire: "Current (st_FSM (snd (StateTimer_Tick (st_ticks k st)))) = s' \<and>
      Cur (Ticker (st_FSM (snd (StateTimer_Tick (st_ticks k st))))) = 0"
    using StateTimer_fire_step [of "st_ticks k st" ts "int n" d s'] ih assms n k by simp
  then show "Current (st_FSM (st_ticks n st)) = s'" and "Cur (Ticker (st_FSM (st_ticks n st))) = 0"
    by (simp_all add: k)
qed

theorem StateTimer_times_out_witness:
  "case NewFSMDef False [\<lparr>From = False, Event = (), To = True\<rparr>] of None \<Rightarrow> False
   | Some d \<Rightarrow> Current (st_FSM (st_ticks 3 (NewStateTimer False (Some d) (Some [False \<mapsto> 3]) ())))"
proof -
  let ?rules = "[\<lparr>From = False, Event = (), To = True\<rparr>]"
  obtain d where d: "NewFSMDef False ?rules = Some d" by (simp add: NewFSMDef_def)
  note g = NewFSMDef_Some [OF d]
  let ?st = "NewStateTimer False (Some d) (Some [False \<mapsto> 3]) ()"
  have "Current (st_FSM (st_ticks 3 ?st)) = True"
    using StateTimer_times_out [of ?st "[False \<mapsto> 3]" 3 d True] g
    by (simp add: NewStateTimer_def NewFSM_def zero_timer_def guards_pass_def rule_key_def)
  with d show ?thesis by simp
qed

end
