(* ===== verification/Codec.thy ===== *)
theory Codec
  imports Prelude
begin

text \<open>
  \<open>server/peakgo/codec/codec.go\<close>: big-endian fields. A reader applied to a slice that is too short panics;
  that is \<open>None\<close>. Signed fields have the carrier of the unsigned ones (the conversions between \<open>int32\<close> and
  \<open>uint32\<close> keep the bits). A Go string is the sequence of its bytes. \<open>encoding/binary\<close>'s big-endian
  functions are modelled by their definition; the \<open>float32\<close> pair passes bits through and is left out.
\<close>

subsection \<open>Bytes of a word\<close>

text \<open>The \<open>n\<close> low bytes of a word, most significant first, and back.\<close>

fun be :: "nat \<Rightarrow> u64 \<Rightarrow> byte_seq" where
  "be 0 v = []"
| "be (Suc n) v = be n (drop_bit 8 v) @ [ucast v]"

fun unbe_acc :: "u64 \<Rightarrow> byte_seq \<Rightarrow> u64" where
  "unbe_acc acc [] = acc"
| "unbe_acc acc (b # bs) = unbe_acc (push_bit 8 acc OR ucast b) bs"

definition unbe :: "byte_seq \<Rightarrow> u64" where
  "unbe bs = unbe_acc 0 bs"

lemma length_be [simp]: "length (be n v) = n"
  by (induction n v rule: be.induct) auto

lemma unbe_acc_append: "unbe_acc acc (bs @ cs) = unbe_acc (unbe_acc acc bs) cs"
  by (induction acc bs rule: unbe_acc.induct) auto

lemma join_byte: "push_bit 8 (take_bit m (drop_bit 8 v)) OR ucast (ucast v :: u8) = take_bit (m + 8) (v :: u64)"
  by (rule bit_eqI) (auto simp: bit_simps)

lemma unbe_be: "unbe (be n v) = take_bit (8 * n) v"
proof (induction n v rule: be.induct)
  case (2 n v)
  then show ?case
    by (simp add: unbe_def unbe_acc_append join_byte algebra_simps)
qed (simp add: unbe_def)

definition u16_be :: "u16 \<Rightarrow> byte_seq" where
  "u16_be v = be 2 (ucast v)"

definition u32_be :: "u32 \<Rightarrow> byte_seq" where
  "u32_be v = be 4 (ucast v)"

lemma length_field [simp]: "length (u16_be v) = 2" "length (u32_be w) = 4"
  by (simp_all add: u16_be_def u32_be_def)

subsection \<open>Readers\<close>

definition ReadUint8 :: "byte_seq \<Rightarrow> u8 option" where
  "ReadUint8 b = (if length b < 1 then None else Some (b ! 0))"

definition ReadUint16 :: "byte_seq \<Rightarrow> u16 option" where
  "ReadUint16 b = (if length b < 2 then None else Some (ucast (unbe (take 2 b))))"

definition ReadUint32 :: "byte_seq \<Rightarrow> u32 option" where
  "ReadUint32 b = (if length b < 4 then None else Some (ucast (unbe (take 4 b))))"

definition ReadUint64 :: "byte_seq \<Rightarrow> u64 option" where
  "ReadUint64 b = (if length b < 8 then None else Some (unbe (take 8 b)))"

definition ReadStringLen16 :: "byte_seq \<Rightarrow> byte_seq option" where
  "ReadStringLen16 payload =
     (if length payload < 2 then None
      else let n = unat (the (ReadUint16 payload))
           in if length payload < 2 + n then None else Some (take n (drop 2 payload)))"

subsection \<open>Writers\<close>

text \<open>Copy bytes into a slice at an offset; the callers' slices are long enough.\<close>

definition put :: "nat \<Rightarrow> byte_seq \<Rightarrow> byte_seq \<Rightarrow> byte_seq" where
  "put off bs dst = take off dst @ bs @ drop (off + length bs) dst"

lemma length_put [simp]: "off + length bs \<le> length dst \<Longrightarrow> length (put off bs dst) = length dst"
  by (simp add: put_def)

definition WriteUint8 :: "byte_seq \<Rightarrow> u8 \<Rightarrow> byte_seq option" where
  "WriteUint8 dst v = (if length dst < 1 then None else Some (put 0 [v] dst))"

definition WriteUint16 :: "byte_seq \<Rightarrow> u16 \<Rightarrow> byte_seq option" where
  "WriteUint16 dst v = (if length dst < 2 then None else Some (put 0 (u16_be v) dst))"

definition WriteUint32 :: "byte_seq \<Rightarrow> u32 \<Rightarrow> byte_seq option" where
  "WriteUint32 dst v = (if length dst < 4 then None else Some (put 0 (u32_be v) dst))"

definition WriteUint64 :: "byte_seq \<Rightarrow> u64 \<Rightarrow> byte_seq option" where
  "WriteUint64 dst v = (if length dst < 8 then None else Some (put 0 (be 8 v) dst))"

subsection \<open>Reading back\<close>

lemma ucast_take: "take_bit 16 (ucast v) = (ucast (v :: u16) :: u64)" "take_bit 32 (ucast w) = (ucast (w :: u32) :: u64)"
  by (rule bit_eqI, auto simp: bit_simps dest: bit_imp_le_length)+

lemma ucast_ucast_field: "ucast (ucast v :: u64) = (v :: u16)" "ucast (ucast w :: u64) = (w :: u32)"
  by (rule bit_eqI, auto simp: bit_simps)+

lemma take_bit_u64: "take_bit 64 (x :: u64) = x"
  by (rule bit_eqI) (auto simp: bit_simps)

text \<open>A field read from where it was written, whatever follows.\<close>

lemma Read_fields [simp]:
  "ReadUint8 (b # r) = Some b"
  "ReadUint16 (u16_be v @ r) = Some v"
  "ReadUint32 (u32_be w @ r) = Some w"
  "ReadUint64 (be 8 x @ r) = Some x"
  by (simp_all add: ReadUint8_def ReadUint16_def ReadUint32_def ReadUint64_def u16_be_def u32_be_def unbe_be ucast_take
      ucast_ucast_field take_bit_u64)

lemma Read_field_end [simp]:
  "ReadUint16 (u16_be v) = Some v" "ReadUint32 (u32_be w) = Some w" "ReadUint64 (be 8 x) = Some x"
  using Read_fields(2) [of v "[]"] Read_fields(3) [of w "[]"] Read_fields(4) [of x "[]"] by simp_all

lemma put_zero: "put 0 bs dst = bs @ drop (length bs) dst"
  by (simp add: put_def)

lemma Write_Read:
  "WriteUint16 dst v = Some d1 \<Longrightarrow> ReadUint16 d1 = Some v \<and> length d1 = length dst"
  "WriteUint32 dst w = Some d2 \<Longrightarrow> ReadUint32 d2 = Some w \<and> length d2 = length dst"
  "WriteUint64 dst x = Some d3 \<Longrightarrow> ReadUint64 d3 = Some x \<and> length d3 = length dst"
  by (auto simp: WriteUint16_def WriteUint32_def WriteUint64_def put_zero split: if_splits)

lemma ReadStringLen16_back:
  "length str < 2 ^ 16 \<Longrightarrow> ReadStringLen16 (u16_be (of_nat (length str)) @ str @ r) = Some str"
  by (simp add: ReadStringLen16_def Let_def unat_of_nat take_bit_eq_mod)

subsection \<open>Composite payloads\<close>

record MovePayload =
  mp_X :: u32
  mp_Z :: u32

definition ReadMovePayload :: "byte_seq \<Rightarrow> MovePayload option" where
  "ReadMovePayload payload =
     (if length payload \<noteq> 8 then None
      else Some \<lparr>mp_X = the (ReadUint32 (take 4 payload)), mp_Z = the (ReadUint32 (take 4 (drop 4 payload)))\<rparr>)"

definition ReadAttackPayload :: "byte_seq \<Rightarrow> u64 option" where
  "ReadAttackPayload payload = (if length payload \<noteq> 8 then None else ReadUint64 (take 8 payload))"

lemma ReadMovePayload_back: "ReadMovePayload (u32_be x @ u32_be z) = Some \<lparr>mp_X = x, mp_Z = z\<rparr>"
  by (simp add: ReadMovePayload_def)

lemma ReadAttackPayload_back: "ReadAttackPayload (be 8 t) = Some t"
  by (simp add: ReadAttackPayload_def)

end
