(* ===== verification/Wire.thy ===== *)
theory Wire
  imports Codec
begin

text \<open>
  \<open>server/peakgo/broadcast/broadcast.go\<close>: the packets the server sends. Each packet has a \<open>Build\<close> function,
  which fills a fresh slice, and a \<open>Write\<close> function, which fills a reused buffer; the assignments both make
  are one \<open>fill\<close> function here, a list of writes at offsets. A reused buffer is given by the bytes of its
  backing array up to its capacity, which hold whatever an earlier packet left there.
\<close>

subsection \<open>Buffers\<close>

type_synonym field_write = "nat \<times> byte_seq"

definition write_fields :: "field_write list \<Rightarrow> byte_seq \<Rightarrow> byte_seq" where
  "write_fields ws dst = fold (\<lambda>(off, bs). put off bs) ws dst"

definition make_slice :: "nat \<Rightarrow> byte_seq" where
  "make_slice n = replicate n 0"

text \<open>\<open>dst[:needed]\<close> when the capacity allows it, a fresh slice otherwise.\<close>

definition reslice :: "nat \<Rightarrow> byte_seq \<Rightarrow> byte_seq" where
  "reslice needed dst = (if length dst \<ge> needed then take needed dst else make_slice needed)"

lemma length_slices [simp]: "length (make_slice n) = n" "length (reslice n dst) = n"
  by (simp_all add: make_slice_def reslice_def)

text \<open>Writes that start at \<open>n\<close> and leave no gap.\<close>

fun contiguous :: "nat \<Rightarrow> field_write list \<Rightarrow> bool" where
  "contiguous n [] \<longleftrightarrow> True"
| "contiguous n ((off, bs) # ws) \<longleftrightarrow> off = n \<and> contiguous (n + length bs) ws"

definition field_bytes :: "field_write list \<Rightarrow> byte_seq" where
  "field_bytes ws = concat (map snd ws)"

lemma write_fields_contiguous:
  "contiguous n ws \<Longrightarrow> n + length (field_bytes ws) \<le> length dst \<Longrightarrow>
   write_fields ws dst = take n dst @ field_bytes ws @ drop (n + length (field_bytes ws)) dst"
proof (induction n ws arbitrary: dst rule: contiguous.induct)
  case (2 n off bs ws)
  then have off: "off = n" and len: "n + length bs \<le> length dst"
    and rest: "contiguous (n + length bs) ws" by (auto simp: field_bytes_def)
  have "write_fields ((off, bs) # ws) dst = write_fields ws (put n bs dst)"
    by (simp add: write_fields_def off)
  also have "\<dots> = take (n + length bs) (put n bs dst) @ field_bytes ws @
      drop (n + length bs + length (field_bytes ws)) (put n bs dst)"
    using 2 len by (intro 2) (auto simp: field_bytes_def)
  also have "take (n + length bs) (put n bs dst) = take n dst @ bs"
    using len by (simp add: put_def)
  also have "drop (n + length bs + length (field_bytes ws)) (put n bs dst) =
      drop (n + length (field_bytes ((off, bs) # ws))) dst"
    using len by (simp add: put_def field_bytes_def ac_simps)
  finally show ?case by (simp add: field_bytes_def)
qed (simp add: write_fields_def field_bytes_def)

lemma fill_exact:
  "contiguous 0 ws \<Longrightarrow> length (field_bytes ws) = length dst \<Longrightarrow> write_fields ws dst = field_bytes ws"
  using write_fields_contiguous [of 0 ws dst] by simp

subsection \<open>Opcodes\<close>

definition OpcodeSuccess :: u8 where "OpcodeSuccess = 0x01"
definition OpcodeSpawnEntity :: u8 where "OpcodeSpawnEntity = 0x10"
definition OpcodeDespawnEntity :: u8 where "OpcodeDespawnEntity = 0x11"
definition OpcodePositionSync :: u8 where "OpcodePositionSync = 0x12"
definition OpcodeStatsSync :: u8 where "OpcodeStatsSync = 0x13"
definition OpcodeCombatHit :: u8 where "OpcodeCombatHit = 0x14"
definition OpcodeChat :: u8 where "OpcodeChat = 0x15"
definition OpcodeNotice :: u8 where "OpcodeNotice = 0x16"
definition OpcodeHeartbeat :: u8 where "OpcodeHeartbeat = 0x17"
definition OpcodeError :: u8 where "OpcodeError = 0xFF"

lemmas opcode_defs = OpcodeSuccess_def OpcodeSpawnEntity_def OpcodeDespawnEntity_def OpcodePositionSync_def
  OpcodeStatsSync_def OpcodeCombatHit_def OpcodeChat_def OpcodeNotice_def OpcodeHeartbeat_def OpcodeError_def

text \<open>The three header bytes: the length of opcode and payload, and the opcode.\<close>

definition header :: "nat \<Rightarrow> u8 \<Rightarrow> field_write list" where
  "header payloadLen opcode = [(0, u16_be (of_nat (1 + payloadLen))), (2, [opcode])]"

subsection \<open>Generic framing\<close>

definition fill_frame :: "u8 \<Rightarrow> byte_seq \<Rightarrow> byte_seq \<Rightarrow> byte_seq" where
  "fill_frame opcode payload =
     write_fields (header (length payload) opcode @ (if length payload > 0 then [(3, payload)] else []))"

definition Frame :: "u8 \<Rightarrow> byte_seq \<Rightarrow> byte_seq" where
  "Frame opcode payload = fill_frame opcode payload (make_slice (2 + 1 + length payload))"

definition FrameInto :: "byte_seq \<Rightarrow> u8 \<Rightarrow> byte_seq \<Rightarrow> byte_seq" where
  "FrameInto dst opcode payload = fill_frame opcode payload (reslice (2 + 1 + length payload) dst)"

definition frame_spec :: "u8 \<Rightarrow> byte_seq \<Rightarrow> byte_seq" where
  "frame_spec opcode payload = u16_be (of_nat (1 + length payload)) @ opcode # payload"

lemma fill_frame_spec: "length dst = 3 + length payload \<Longrightarrow> fill_frame opcode payload dst = frame_spec opcode payload"
  unfolding fill_frame_def
  by (subst fill_exact) (auto simp: header_def field_bytes_def frame_spec_def)

lemma Frame_spec: "Frame opcode payload = frame_spec opcode payload" "FrameInto dst opcode payload = frame_spec opcode payload"
  by (simp_all add: Frame_def FrameInto_def fill_frame_spec)

subsection \<open>Typed packets\<close>

definition fill_Error :: "u16 \<Rightarrow> byte_seq \<Rightarrow> byte_seq \<Rightarrow> byte_seq" where
  "fill_Error errorCode message = write_fields (header (2 + 2 + length message) OpcodeError @ [(3, u16_be errorCode),
     (5, u16_be (of_nat (length message))),
     (7, message)])"

definition BuildError :: "u16 \<Rightarrow> byte_seq \<Rightarrow> byte_seq" where
  "BuildError errorCode message = fill_Error errorCode message (make_slice (3 + (2 + 2 + length message)))"

definition WriteError :: "byte_seq \<Rightarrow> u16 \<Rightarrow> byte_seq \<Rightarrow> byte_seq" where
  "WriteError dst errorCode message = fill_Error errorCode message (reslice (3 + (2 + 2 + length message)) dst)"

lemma Error_spec:
  "BuildError errorCode message = frame_spec OpcodeError (u16_be errorCode @ u16_be (of_nat (length message)) @ message)" "WriteError dst errorCode message = frame_spec OpcodeError (u16_be errorCode @ u16_be (of_nat (length message)) @ message)"
  unfolding BuildError_def WriteError_def fill_Error_def
  by (subst fill_exact; simp add: header_def field_bytes_def frame_spec_def)+

definition fill_Success :: "byte_seq \<Rightarrow> byte_seq \<Rightarrow> byte_seq" where
  "fill_Success message = write_fields (header (2 + length message) OpcodeSuccess @ [(3, u16_be (of_nat (length message))),
     (5, message)])"

definition BuildSuccess :: "byte_seq \<Rightarrow> byte_seq" where
  "BuildSuccess message = fill_Success message (make_slice (3 + (2 + length message)))"

definition WriteSuccess :: "byte_seq \<Rightarrow> byte_seq \<Rightarrow> byte_seq" where
  "WriteSuccess dst message = fill_Success message (reslice (3 + (2 + length message)) dst)"

lemma Success_spec:
  "BuildSuccess message = frame_spec OpcodeSuccess (u16_be (of_nat (length message)) @ message)" "WriteSuccess dst message = frame_spec OpcodeSuccess (u16_be (of_nat (length message)) @ message)"
  unfolding BuildSuccess_def WriteSuccess_def fill_Success_def
  by (subst fill_exact; simp add: header_def field_bytes_def frame_spec_def)+

definition fill_SuccessWithEntityID :: "u64 \<Rightarrow> byte_seq \<Rightarrow> byte_seq \<Rightarrow> byte_seq" where
  "fill_SuccessWithEntityID entityID message = write_fields (header (8 + 2 + length message) OpcodeSuccess @ [(3, be 8 entityID),
     (11, u16_be (of_nat (length message))),
     (13, message)])"

definition BuildSuccessWithEntityID :: "u64 \<Rightarrow> byte_seq \<Rightarrow> byte_seq" where
  "BuildSuccessWithEntityID entityID message = fill_SuccessWithEntityID entityID message (make_slice (3 + (8 + 2 + length message)))"

definition WriteSuccessWithEntityID :: "byte_seq \<Rightarrow> u64 \<Rightarrow> byte_seq \<Rightarrow> byte_seq" where
  "WriteSuccessWithEntityID dst entityID message = fill_SuccessWithEntityID entityID message (reslice (3 + (8 + 2 + length message)) dst)"

lemma SuccessWithEntityID_spec:
  "BuildSuccessWithEntityID entityID message = frame_spec OpcodeSuccess (be 8 entityID @ u16_be (of_nat (length message)) @ message)" "WriteSuccessWithEntityID dst entityID message = frame_spec OpcodeSuccess (be 8 entityID @ u16_be (of_nat (length message)) @ message)"
  unfolding BuildSuccessWithEntityID_def WriteSuccessWithEntityID_def fill_SuccessWithEntityID_def
  by (subst fill_exact; simp add: header_def field_bytes_def frame_spec_def)+

record SpawnPayload =
  spw_EntityID :: u64
  spw_Type :: u8
  spw_MapID :: u32
  spw_X :: u32
  spw_Z :: u32
  spw_Name :: byte_seq

definition fill_SpawnEntity :: "SpawnPayload \<Rightarrow> byte_seq \<Rightarrow> byte_seq" where
  "fill_SpawnEntity p = write_fields (header (22 + length (spw_Name p)) OpcodeSpawnEntity @ [(3, be 8 (spw_EntityID p)),
     (11, [spw_Type p]),
     (12, u32_be (spw_MapID p)),
     (16, u32_be (spw_X p)),
     (20, u32_be (spw_Z p)),
     (24, [of_nat (length (spw_Name p))]),
     (25, spw_Name p)])"

definition BuildSpawnEntity :: "SpawnPayload \<Rightarrow> byte_seq" where
  "BuildSpawnEntity p = fill_SpawnEntity p (make_slice (3 + (22 + length (spw_Name p))))"

definition WriteSpawnEntity :: "byte_seq \<Rightarrow> SpawnPayload \<Rightarrow> byte_seq" where
  "WriteSpawnEntity dst p = fill_SpawnEntity p (reslice (3 + (22 + length (spw_Name p))) dst)"

lemma SpawnEntity_spec:
  "BuildSpawnEntity p = frame_spec OpcodeSpawnEntity (be 8 (spw_EntityID p) @ spw_Type p # u32_be (spw_MapID p) @ u32_be (spw_X p) @
     u32_be (spw_Z p) @ of_nat (length (spw_Name p)) # spw_Name p)" "WriteSpawnEntity dst p = frame_spec OpcodeSpawnEntity (be 8 (spw_EntityID p) @ spw_Type p # u32_be (spw_MapID p) @ u32_be (spw_X p) @
     u32_be (spw_Z p) @ of_nat (length (spw_Name p)) # spw_Name p)"
  unfolding BuildSpawnEntity_def WriteSpawnEntity_def fill_SpawnEntity_def
  by (subst fill_exact; simp add: header_def field_bytes_def frame_spec_def)+

definition fill_DespawnEntity :: "u64 \<Rightarrow> byte_seq \<Rightarrow> byte_seq" where
  "fill_DespawnEntity entityID = write_fields (header (8) OpcodeDespawnEntity @ [(3, be 8 entityID)])"

definition BuildDespawnEntity :: "u64 \<Rightarrow> byte_seq" where
  "BuildDespawnEntity entityID = fill_DespawnEntity entityID (make_slice (3 + (8)))"

definition WriteDespawnEntity :: "byte_seq \<Rightarrow> u64 \<Rightarrow> byte_seq" where
  "WriteDespawnEntity dst entityID = fill_DespawnEntity entityID (reslice (3 + (8)) dst)"

lemma DespawnEntity_spec:
  "BuildDespawnEntity entityID = frame_spec OpcodeDespawnEntity (be 8 entityID)" "WriteDespawnEntity dst entityID = frame_spec OpcodeDespawnEntity (be 8 entityID)"
  unfolding BuildDespawnEntity_def WriteDespawnEntity_def fill_DespawnEntity_def
  by (subst fill_exact; simp add: header_def field_bytes_def frame_spec_def)+

record PositionSyncPayload =
  ps_EntityID :: u64
  ps_X :: u32
  ps_Z :: u32

definition fill_PositionSync :: "PositionSyncPayload \<Rightarrow> byte_seq \<Rightarrow> byte_seq" where
  "fill_PositionSync p = write_fields (header (16) OpcodePositionSync @ [(3, be 8 (ps_EntityID p)),
     (11, u32_be (ps_X p)),
     (15, u32_be (ps_Z p))])"

definition BuildPositionSync :: "PositionSyncPayload \<Rightarrow> byte_seq" where
  "BuildPositionSync p = fill_PositionSync p (make_slice (3 + (16)))"

definition WritePositionSync :: "byte_seq \<Rightarrow> PositionSyncPayload \<Rightarrow> byte_seq" where
  "WritePositionSync dst p = fill_PositionSync p (reslice (3 + (16)) dst)"

lemma PositionSync_spec:
  "BuildPositionSync p = frame_spec OpcodePositionSync (be 8 (ps_EntityID p) @ u32_be (ps_X p) @ u32_be (ps_Z p))" "WritePositionSync dst p = frame_spec OpcodePositionSync (be 8 (ps_EntityID p) @ u32_be (ps_X p) @ u32_be (ps_Z p))"
  unfolding BuildPositionSync_def WritePositionSync_def fill_PositionSync_def
  by (subst fill_exact; simp add: header_def field_bytes_def frame_spec_def)+

text \<open>Two \<open>int32\<close>s in one 64-bit store: the first one is the high half.\<close>

definition pack32 :: "u32 \<Rightarrow> u32 \<Rightarrow> u64" where
  "pack32 hi lo = push_bit 32 (ucast hi) OR ucast lo"

lemma be_pack32: "be 8 (pack32 hi lo) = u32_be hi @ u32_be lo"
proof -
  have lo: "take_bit 32 (pack32 hi lo) = ucast lo" and hi: "drop_bit 32 (pack32 hi lo) = ucast hi"
    unfolding pack32_def by (rule bit_eqI, auto simp: bit_simps dest: bit_imp_le_length)+
  have "be 8 v = be 4 (drop_bit 32 v) @ be 4 (take_bit 32 v)" for v
    by (simp add: eval_nat_numeral) (auto intro!: bit_eqI simp: bit_simps)
  then show ?thesis by (simp add: lo hi u32_be_def)
qed

record StatsSyncPayload =
  ss_EntityID :: u64
  ss_HP :: u32
  ss_MaxHP :: u32
  ss_MP :: u32
  ss_MaxMP :: u32
  ss_Dam :: u32
  ss_Level :: u32
  ss_Defense :: u32
  ss_MagicDefense :: u32
  ss_MagicAttack :: u32
  ss_HitRate :: u32
  ss_DodgeRate :: u32
  ss_CritRate :: u32

definition fill_StatsSync :: "StatsSyncPayload \<Rightarrow> byte_seq \<Rightarrow> byte_seq" where
  "fill_StatsSync p = write_fields (header (56) OpcodeStatsSync @ [(3, be 8 (ss_EntityID p)),
     (11, be 8 (pack32 (ss_HP p) (ss_MaxHP p))),
     (19, be 8 (pack32 (ss_MP p) (ss_MaxMP p))),
     (27, be 8 (pack32 (ss_Dam p) (ss_Level p))),
     (35, be 8 (pack32 (ss_Defense p) (ss_MagicDefense p))),
     (43, be 8 (pack32 (ss_MagicAttack p) (ss_HitRate p))),
     (51, be 8 (pack32 (ss_DodgeRate p) (ss_CritRate p)))])"

definition BuildStatsSync :: "StatsSyncPayload \<Rightarrow> byte_seq" where
  "BuildStatsSync p = fill_StatsSync p (make_slice (3 + (56)))"

definition WriteStatsSync :: "byte_seq \<Rightarrow> StatsSyncPayload \<Rightarrow> byte_seq" where
  "WriteStatsSync dst p = fill_StatsSync p (reslice (3 + (56)) dst)"

lemma StatsSync_spec:
  "BuildStatsSync p = frame_spec OpcodeStatsSync (be 8 (ss_EntityID p) @ u32_be (ss_HP p) @ u32_be (ss_MaxHP p) @
     u32_be (ss_MP p) @ u32_be (ss_MaxMP p) @
     u32_be (ss_Dam p) @ u32_be (ss_Level p) @
     u32_be (ss_Defense p) @ u32_be (ss_MagicDefense p) @
     u32_be (ss_MagicAttack p) @ u32_be (ss_HitRate p) @
     u32_be (ss_DodgeRate p) @ u32_be (ss_CritRate p))" "WriteStatsSync dst p = frame_spec OpcodeStatsSync (be 8 (ss_EntityID p) @ u32_be (ss_HP p) @ u32_be (ss_MaxHP p) @
     u32_be (ss_MP p) @ u32_be (ss_MaxMP p) @
     u32_be (ss_Dam p) @ u32_be (ss_Level p) @
     u32_be (ss_Defense p) @ u32_be (ss_MagicDefense p) @
     u32_be (ss_MagicAttack p) @ u32_be (ss_HitRate p) @
     u32_be (ss_DodgeRate p) @ u32_be (ss_CritRate p))"
  unfolding BuildStatsSync_def WriteStatsSync_def fill_StatsSync_def
  by (subst fill_exact; simp add: header_def field_bytes_def frame_spec_def be_pack32)+

record ChatPayload =
  ch_Channel :: u8
  ch_SenderName :: byte_seq
  ch_Message :: byte_seq

lemma u16_pair: "u16_be (push_bit 8 (ucast a) OR ucast b) = [a, b]"
proof -
  have "be 2 v = [ucast (drop_bit 8 v), ucast v]" for v by (simp add: numeral_2_eq_2)
  moreover have "ucast (drop_bit 8 (ucast (push_bit 8 (ucast a) OR ucast b :: u16) :: u64)) = a"
    and "ucast (ucast (push_bit 8 (ucast a) OR ucast b :: u16) :: u64) = b"
    by (rule bit_eqI, auto simp: bit_simps dest: bit_imp_le_length)+
  ultimately show ?thesis by (simp add: u16_be_def)
qed

definition fill_ChatMessage :: "ChatPayload \<Rightarrow> byte_seq \<Rightarrow> byte_seq" where
  "fill_ChatMessage p = write_fields (header (4 + length (ch_SenderName p) + length (ch_Message p)) OpcodeChat @ [(3, u16_be (push_bit 8 (ucast (ch_Channel p)) OR ucast (of_nat (length (ch_SenderName p)) :: u8))),
     (5, ch_SenderName p),
     (5 + length (ch_SenderName p), u16_be (of_nat (length (ch_Message p)))),
     (5 + length (ch_SenderName p) + 2, ch_Message p)])"

definition BuildChatMessage :: "ChatPayload \<Rightarrow> byte_seq" where
  "BuildChatMessage p = fill_ChatMessage p (make_slice (3 + (4 + length (ch_SenderName p) + length (ch_Message p))))"

definition WriteChatMessage :: "byte_seq \<Rightarrow> ChatPayload \<Rightarrow> byte_seq" where
  "WriteChatMessage dst p = fill_ChatMessage p (reslice (3 + (4 + length (ch_SenderName p) + length (ch_Message p))) dst)"

lemma ChatMessage_spec:
  "BuildChatMessage p = frame_spec OpcodeChat (ch_Channel p # of_nat (length (ch_SenderName p)) # ch_SenderName p @
     u16_be (of_nat (length (ch_Message p))) @ ch_Message p)" "WriteChatMessage dst p = frame_spec OpcodeChat (ch_Channel p # of_nat (length (ch_SenderName p)) # ch_SenderName p @
     u16_be (of_nat (length (ch_Message p))) @ ch_Message p)"
  unfolding BuildChatMessage_def WriteChatMessage_def fill_ChatMessage_def
  by (subst fill_exact; simp add: header_def field_bytes_def frame_spec_def u16_pair)+

record CombatHitPayload =
  ht_AttackerID :: u64
  ht_TargetID :: u64
  ht_Damage :: u32
  ht_TargetHP :: u32
  ht_Killed :: u8

definition fill_CombatHit :: "CombatHitPayload \<Rightarrow> byte_seq \<Rightarrow> byte_seq" where
  "fill_CombatHit p = write_fields (header (25) OpcodeCombatHit @ [(3, be 8 (ht_AttackerID p)),
     (11, be 8 (ht_TargetID p)),
     (19, u32_be (ht_Damage p)),
     (23, u32_be (ht_TargetHP p)),
     (27, [ht_Killed p])])"

definition BuildCombatHit :: "CombatHitPayload \<Rightarrow> byte_seq" where
  "BuildCombatHit p = fill_CombatHit p (make_slice (3 + (25)))"

definition WriteCombatHit :: "byte_seq \<Rightarrow> CombatHitPayload \<Rightarrow> byte_seq" where
  "WriteCombatHit dst p = fill_CombatHit p (reslice (3 + (25)) dst)"

lemma CombatHit_spec:
  "BuildCombatHit p = frame_spec OpcodeCombatHit (be 8 (ht_AttackerID p) @ be 8 (ht_TargetID p) @ u32_be (ht_Damage p) @ u32_be (ht_TargetHP p) @ [ht_Killed p])" "WriteCombatHit dst p = frame_spec OpcodeCombatHit (be 8 (ht_AttackerID p) @ be 8 (ht_TargetID p) @ u32_be (ht_Damage p) @ u32_be (ht_TargetHP p) @ [ht_Killed p])"
  unfolding BuildCombatHit_def WriteCombatHit_def fill_CombatHit_def
  by (subst fill_exact; simp add: header_def field_bytes_def frame_spec_def)+

definition fill_Notice :: "byte_seq \<Rightarrow> byte_seq \<Rightarrow> byte_seq" where
  "fill_Notice message = write_fields (header (length message) OpcodeNotice @ [(3, message)])"

definition BuildNotice :: "byte_seq \<Rightarrow> byte_seq" where
  "BuildNotice message = fill_Notice message (make_slice (3 + (length message)))"

definition WriteNotice :: "byte_seq \<Rightarrow> byte_seq \<Rightarrow> byte_seq" where
  "WriteNotice dst message = fill_Notice message (reslice (3 + (length message)) dst)"

lemma Notice_spec:
  "BuildNotice message = frame_spec OpcodeNotice (message)" "WriteNotice dst message = frame_spec OpcodeNotice (message)"
  unfolding BuildNotice_def WriteNotice_def fill_Notice_def
  by (subst fill_exact; simp add: header_def field_bytes_def frame_spec_def)+

end
