(* ===== verification/Netio.thy ===== *)
theory Netio
  imports Wire
begin

text \<open>
  \<open>server/peakgo/netio/packet.go\<close>, and the reading side of \<open>server/network/router.go\<close>. A connection is the
  sequence of the bytes that will still arrive before it ends; how the bytes are split over \<open>Read\<close> calls
  does not show, because both readers go through \<open>io.ReadFull\<close>. Deadlines and buffer pools are left out.
\<close>

subsection \<open>Reading\<close>

datatype net_error = ErrEmptyPacket | ErrPacketTooLarge | ErrUnexpectedEOF

definition MaxPacketSize :: u16 where
  "MaxPacketSize = 4096"

definition ReadHeader :: "byte_seq \<Rightarrow> net_error + u16 \<times> byte_seq" where
  "ReadHeader conn =
     (if length conn < 2 then Inl ErrUnexpectedEOF
      else Inr (the (ReadUint16 (take 2 conn)), drop 2 conn))"

definition ReadPayload :: "byte_seq \<Rightarrow> u16 \<Rightarrow> net_error + byte_seq \<times> byte_seq" where
  "ReadPayload conn n =
     (if n = 0 then Inl ErrEmptyPacket
      else if n > MaxPacketSize then Inl ErrPacketTooLarge
      else if length conn < unat n then Inl ErrUnexpectedEOF
      else Inr (take (unat n) conn, drop (unat n) conn))"

text \<open>
  The loop of \<open>HandleClient\<close>: opcode and payload of every packet that arrives before the connection ends or
  a reading error closes it. A zero length is skipped. \<open>allow\<close> is the answer of the rate limiter to the
  packet that is read next.
\<close>

function client_loop :: "bool list \<Rightarrow> byte_seq \<Rightarrow> (u8 \<times> byte_seq) list" where
  "client_loop allow conn =
     (case ReadHeader conn of
        Inl _ \<Rightarrow> []
      | Inr (n, conn1) \<Rightarrow>
          if n = 0 then client_loop allow conn1
          else (case ReadPayload conn1 n of
              Inl _ \<Rightarrow> []
            | Inr (buf, conn2) \<Rightarrow>
                if allow \<noteq> [] \<and> \<not> hd allow then client_loop (tl allow) conn2
                else (hd buf, tl buf) # client_loop (tl allow) conn2))"
  by pat_completeness auto

termination
  by (relation "measure (\<lambda>(_, conn). length conn)")
     (auto simp: ReadHeader_def ReadPayload_def split: if_splits)

declare client_loop.simps [simp del]

subsection \<open>Writing\<close>

text \<open>
  \<open>WritePacket\<close> with the outcomes of its \<open>conn.Write\<close> calls: a number of bytes taken, or an error. The result
  is what reached the connection and whether there was no error.
\<close>

fun WritePacket :: "nat option list \<Rightarrow> byte_seq \<Rightarrow> byte_seq \<times> bool" where
  "WritePacket _ [] = ([], True)"
| "WritePacket [] (b # data) = ([], False)"
| "WritePacket (None # outs) (b # data) = ([], False)"
| "WritePacket (Some n # outs) (b # data) =
     (case WritePacket outs (drop n (b # data)) of (w, ok) \<Rightarrow> (take n (b # data) @ w, ok))"

lemma WritePacket_prefix:
  "WritePacket outs data = (w, ok) \<Longrightarrow> (\<exists>r. data = w @ r) \<and> (ok \<longrightarrow> w = data)"
proof (induction outs data arbitrary: w ok rule: WritePacket.induct)
  case (4 n outs b data)
  obtain w' ok' where w': "WritePacket outs (drop n (b # data)) = (w', ok')" by force
  from 4(1) [OF w'] have "\<exists>r. drop n (b # data) = w' @ r" "ok' \<longrightarrow> w' = drop n (b # data)" by auto
  moreover from 4(2) w' have "w = take n (b # data) @ w'" "ok = ok'" by auto
  ultimately show ?case by (metis append.assoc append_take_drop_id)
qed auto

subsection \<open>Dispatch\<close>

text \<open>
  \<open>HandleBinaryPacket\<close>: the first four bytes of a payload of four or more are taken as a trace hint, whatever
  they are; a shorter payload is left alone. The result is the hint and the payload the handler sees.
\<close>

definition split_trace :: "byte_seq \<Rightarrow> u32 option \<times> byte_seq" where
  "split_trace payload =
     (if length payload \<ge> 4 then (ReadUint32 (take 4 payload), drop 4 payload) else (None, payload))"

definition DispatchPacket :: "(u8 \<rightharpoonup> (byte_seq \<Rightarrow> 'w \<Rightarrow> 'w)) \<Rightarrow> u8 \<Rightarrow> byte_seq \<Rightarrow> 'w \<Rightarrow> bool \<times> 'w" where
  "DispatchPacket handlers opcode payload w =
     (case handlers opcode of Some h \<Rightarrow> (True, h payload w) | None \<Rightarrow> (False, w))"

definition HandleBinaryPacket :: "(u8 \<rightharpoonup> (byte_seq \<Rightarrow> 'w \<Rightarrow> 'w)) \<Rightarrow> (u8 \<Rightarrow> 'w \<Rightarrow> 'w) \<Rightarrow> u8 \<Rightarrow> byte_seq \<Rightarrow> 'w \<Rightarrow> 'w" where
  "HandleBinaryPacket handlers unknown opcode payload w =
     (case DispatchPacket handlers opcode (snd (split_trace payload)) w of
        (True, w') \<Rightarrow> w' | (False, w') \<Rightarrow> unknown opcode w')"

lemma split_trace_hint: "split_trace (u32_be hint @ payload) = (Some hint, payload)"
  by (simp add: split_trace_def)

text \<open>Without a hint, an attack packet loses half of its target.\<close>

lemma attack_without_hint: "ReadAttackPayload (snd (split_trace (be 8 target))) = None"
  by (simp add: split_trace_def ReadAttackPayload_def)

lemma move_without_hint: "ReadMovePayload (snd (split_trace (u32_be x @ u32_be z))) = None"
  by (simp add: split_trace_def ReadMovePayload_def)

subsection \<open>Streams of frames\<close>

lemma Read_frame:
  assumes "length payload < 4096"
  obtains n where "n \<noteq> 0" and "ReadHeader (frame_spec op payload @ rest) = Inr (n, op # payload @ rest)"
    and "ReadPayload (op # payload @ rest) n = Inr (op # payload, rest)"
proof -
  let ?n = "of_nat (1 + length payload) :: u16"
  have n: "unat ?n = 1 + length payload" "?n \<noteq> 0" "\<not> MaxPacketSize < ?n"
    using assms by (simp_all add: MaxPacketSize_def unat_of_nat word_less_nat_alt take_bit_eq_mod word_unat_eq_iff
        del: of_nat_Suc of_nat_add)
  have "ReadHeader (frame_spec op payload @ rest) = Inr (?n, op # payload @ rest)"
    by (simp add: ReadHeader_def frame_spec_def)
  moreover have "ReadPayload (op # payload @ rest) ?n = Inr (op # payload, rest)"
    using n by (simp add: ReadPayload_def del: of_nat_Suc of_nat_add)
  ultimately show ?thesis using n(2) that by blast
qed

lemma client_loop_frame:
  assumes "length payload < 4096"
  shows "client_loop allow (frame_spec op payload @ rest) =
    (if allow \<noteq> [] \<and> \<not> hd allow then client_loop (tl allow) rest
     else (op, payload) # client_loop (tl allow) rest)"
proof -
  from Read_frame [OF assms] obtain n where "n \<noteq> 0" "ReadHeader (frame_spec op payload @ rest) = Inr (n, op # payload @ rest)"
    "ReadPayload (op # payload @ rest) n = Inr (op # payload, rest)" by blast
  then show ?thesis by (subst client_loop.simps) simp
qed

lemma client_loop_end: "client_loop allow [] = []"
  by (subst client_loop.simps) (simp add: ReadHeader_def)

lemma client_loop_frames:
  "\<forall>(op, payload) \<in> set packets. length payload < 4096 \<Longrightarrow>
   client_loop [] (concat (map (\<lambda>(op, payload). frame_spec op payload) packets)) = packets"
  by (induction packets) (auto simp: client_loop_end client_loop_frame)

subsection \<open>Properties\<close>

lemma framed_stream:
  assumes "\<forall>(dst, op, payload) \<in> set packets. length payload < 4096"
  shows "client_loop [] (concat (map (\<lambda>(dst, op, payload). FrameInto dst op payload) packets)) = map snd packets"
proof -
  have "concat (map (\<lambda>(dst, op, payload). FrameInto dst op payload) packets) =
      concat (map (\<lambda>(op, payload). frame_spec op payload) (map snd packets))"
    by (induction packets) (auto simp: Frame_spec)
  moreover have "\<forall>(op, payload) \<in> set (map snd packets). length payload < 4096" using assms by fastforce
  ultimately show ?thesis by (simp only: client_loop_frames)
qed

text \<open>
  C32 Framing: a stream of framed packets is read back as exactly the packets that were framed, in order,
  whatever reused buffers they were built in, when no payload reaches 4096 bytes and the rate limiter
  lets them pass; the reader stays in step to the end of the stream.
\<close>

theorem frames_roundtrip:
  assumes "\<forall>(dst, op, payload) \<in> set packets. length payload < 4096"
  shows "client_loop [] (concat (map (\<lambda>(dst, op, payload). FrameInto dst op payload) packets)) = map snd packets"
  using assms by (rule framed_stream)

theorem frames_roundtrip_witness:
  "client_loop [] (FrameInto [9, 9] 5 [1, 2] @ FrameInto [] 7 []) = [(5, [1, 2]), (7, [])]"
  using frames_roundtrip [of "[([9, 9], 5, [1, 2]), ([], 7, [])]"] by simp

text \<open>
  Every typed packet carries its fields in the documented order, big-endian, after a length that counts
  opcode and payload, and a packet written into a reused buffer is the packet built from scratch: no byte
  of an earlier packet survives.
\<close>

theorem packets_layout:
  "BuildSpawnEntity sp = WriteSpawnEntity dst sp \<and> BuildStatsSync st = WriteStatsSync dst st \<and>
   BuildPositionSync ps = WritePositionSync dst ps \<and> BuildCombatHit ht = WriteCombatHit dst ht \<and>
   BuildChatMessage ch = WriteChatMessage dst ch \<and> BuildNotice m = WriteNotice dst m \<and>
   BuildError c m = WriteError dst c m \<and> BuildSuccessWithEntityID e m = WriteSuccessWithEntityID dst e m \<and>
   BuildDespawnEntity e = WriteDespawnEntity dst e \<and>
   BuildSpawnEntity sp = frame_spec OpcodeSpawnEntity (be 8 (spw_EntityID sp) @ spw_Type sp # u32_be (spw_MapID sp) @
     u32_be (spw_X sp) @ u32_be (spw_Z sp) @ of_nat (length (spw_Name sp)) # spw_Name sp) \<and>
   BuildStatsSync st = frame_spec OpcodeStatsSync (be 8 (ss_EntityID st) @ u32_be (ss_HP st) @ u32_be (ss_MaxHP st) @
     u32_be (ss_MP st) @ u32_be (ss_MaxMP st) @ u32_be (ss_Dam st) @ u32_be (ss_Level st) @
     u32_be (ss_Defense st) @ u32_be (ss_MagicDefense st) @ u32_be (ss_MagicAttack st) @
     u32_be (ss_HitRate st) @ u32_be (ss_DodgeRate st) @ u32_be (ss_CritRate st)) \<and>
   BuildPositionSync ps = frame_spec OpcodePositionSync (be 8 (ps_EntityID ps) @ u32_be (ps_X ps) @ u32_be (ps_Z ps)) \<and>
   BuildCombatHit ht = frame_spec OpcodeCombatHit (be 8 (ht_AttackerID ht) @ be 8 (ht_TargetID ht) @
     u32_be (ht_Damage ht) @ u32_be (ht_TargetHP ht) @ [ht_Killed ht])"
  by (simp add: SpawnEntity_spec StatsSync_spec PositionSync_spec CombatHit_spec ChatMessage_spec Notice_spec
      Error_spec SuccessWithEntityID_spec DespawnEntity_spec)

text \<open>
  The trace hint is not optional: an attack or a move packet sent without one, although its payload has the
  documented eight bytes, is rejected for its length, and one sent with a hint is decoded exactly.
\<close>

theorem trace_hint_required:
  "ReadAttackPayload (snd (split_trace (be 8 target))) = None \<and>
   ReadMovePayload (snd (split_trace (u32_be x @ u32_be z))) = None \<and>
   ReadAttackPayload (snd (split_trace (u32_be hint @ be 8 target))) = Some target \<and>
   ReadMovePayload (snd (split_trace (u32_be hint @ u32_be x @ u32_be z))) = Some \<lparr>mp_X = x, mp_Z = z\<rparr>"
  using attack_without_hint [of target] move_without_hint [of x z]
  by (simp only: split_trace_hint snd_conv ReadAttackPayload_back ReadMovePayload_back simp_thms)

text \<open>A name of 256 bytes or more does not fit the length byte of a spawn packet.\<close>

lemma spawn_name_wraps: "length (spw_Name p) = 256 \<Longrightarrow> BuildSpawnEntity p ! 24 = 0"
  by (simp add: SpawnEntity_spec frame_spec_def nth_append)

end
