(* ===== verification/Ratelimit.thy ===== *)
theory Ratelimit
  imports Prelude
begin

text \<open>
  \<open>server/peakgo/ratelimit/ratelimit.go\<close>: the token bucket of a connection. The code updates a bucket with
  compare-and-swap loops, so that a call of \<open>Allow\<close> is up to three atomic actions: it claims the ticks since
  the last refill, adds their tokens, and takes a token. Each action is a definition, \<open>Allow\<close> is their
  composition, and \<open>bucket_step\<close> lets the actions of any number of callers interleave. Tokens are 32-bit
  signed words, ticks 64-bit unsigned ones, as in the code; the refill rate is an argument
  (\<open>RateLimitRefillPerTick\<close> of the configuration).
\<close>

subsection \<open>A bucket\<close>

record TokenBucket =
  tb_tokens :: "32 word"
  tb_maxTokens :: "32 word"
  tb_refillTick :: u64

definition NewTokenBucket :: "32 word \<Rightarrow> TokenBucket" where
  "NewTokenBucket maxTokens = \<lparr>tb_tokens = maxTokens, tb_maxTokens = maxTokens, tb_refillTick = 0\<rparr>"

definition claim_ticks :: "u64 \<Rightarrow> TokenBucket \<Rightarrow> u64 option \<times> TokenBucket" where
  "claim_ticks currentTick tb =
     (if currentTick \<le> tb_refillTick tb then (None, tb)
      else (Some (currentTick - tb_refillTick tb), tb\<lparr>tb_refillTick := currentTick\<rparr>))"

definition refill_amount :: "32 word \<Rightarrow> 32 word \<Rightarrow> u64 \<Rightarrow> 32 word" where
  "refill_amount cfgRefill maxTokens elapsed =
     (let refillPerTick = (if sint cfgRefill \<le> 0 then 1 else cfgRefill)
      in if elapsed \<ge> scast maxTokens div scast refillPerTick then maxTokens
         else ucast elapsed * refillPerTick)"

definition add_tokens :: "32 word \<Rightarrow> u64 \<Rightarrow> TokenBucket \<Rightarrow> TokenBucket" where
  "add_tokens cfgRefill elapsed tb =
     (let newTokens = tb_tokens tb + refill_amount cfgRefill (tb_maxTokens tb) elapsed
      in tb\<lparr>tb_tokens := (if sint newTokens > sint (tb_maxTokens tb) then tb_maxTokens tb else newTokens)\<rparr>)"

definition take_token :: "TokenBucket \<Rightarrow> bool \<times> TokenBucket" where
  "take_token tb = (if sint (tb_tokens tb) < 1 then (False, tb) else (True, tb\<lparr>tb_tokens := tb_tokens tb - 1\<rparr>))"

definition bucket_Allow :: "32 word \<Rightarrow> u64 \<Rightarrow> TokenBucket \<Rightarrow> bool \<times> TokenBucket" where
  "bucket_Allow cfgRefill currentTick tb =
     (case claim_ticks currentTick tb of
        (None, tb1) \<Rightarrow> take_token tb1
      | (Some elapsed, tb1) \<Rightarrow> take_token (if elapsed > 0 then add_tokens cfgRefill elapsed tb1 else tb1))"

subsection \<open>The limiter\<close>

type_synonym 'c RateLimiter = "'c \<rightharpoonup> TokenBucket"

definition RegisterConnection :: "32 word \<Rightarrow> 'c \<Rightarrow> 'c RateLimiter \<Rightarrow> 'c RateLimiter" where
  "RegisterConnection cfgMax conn rl = rl(conn \<mapsto> NewTokenBucket cfgMax)"

definition UnregisterConnection :: "'c \<Rightarrow> 'c RateLimiter \<Rightarrow> 'c RateLimiter" where
  "UnregisterConnection conn rl = rl(conn := None)"

definition Allow :: "32 word \<Rightarrow> 'c \<Rightarrow> u64 \<Rightarrow> 'c RateLimiter \<Rightarrow> bool \<times> 'c RateLimiter" where
  "Allow cfgRefill conn currentTick rl =
     (case rl conn of
        None \<Rightarrow> (True, rl)
      | Some tb \<Rightarrow> (case bucket_Allow cfgRefill currentTick tb of (b, tb') \<Rightarrow> (b, rl(conn \<mapsto> tb'))))"

definition Reset_connection :: "32 word \<Rightarrow> 'c \<Rightarrow> 'c RateLimiter \<Rightarrow> 'c RateLimiter" where
  "Reset_connection cfgMax conn rl =
     (case rl conn of None \<Rightarrow> rl
      | Some tb \<Rightarrow> rl(conn \<mapsto> tb\<lparr>tb_tokens := cfgMax, tb_refillTick := 0\<rparr>))"

subsection \<open>Well-formed buckets\<close>

text \<open>Below \<open>2^30\<close> tokens no addition overflows.\<close>

definition bucket_ok :: "32 word \<Rightarrow> TokenBucket \<Rightarrow> bool" where
  "bucket_ok r tb \<longleftrightarrow> 0 < unat r \<and> unat r < 2 ^ 30 \<and> unat (tb_maxTokens tb) < 2 ^ 30 \<and>
     unat (tb_tokens tb) \<le> unat (tb_maxTokens tb)"

lemma sint_small: "unat (w :: 32 word) < 2 ^ 31 \<Longrightarrow> sint w = int (unat w)"
proof -
  assume w: "unat w < 2 ^ 31"
  have u: "uint w = int (unat w)" by simp
  have lt: "int (unat w) < 2 ^ 31" using w by (metis of_nat_less_iff of_nat_numeral of_nat_power)
  have "signed_take_bit 31 (int (unat w)) = int (unat w)"
    by (rule signed_take_bit_int_eq_self) (rule order_trans [of _ 0], simp, simp, rule lt)
  then show ?thesis by (simp only: sint_uint u) simp
qed

lemma scast_small: "unat (w :: 32 word) < 2 ^ 31 \<Longrightarrow> unat (scast w :: u64) = unat w"
proof -
  assume w: "unat w < 2 ^ 31"
  have "int (unat w) < 2 ^ 31" using w by (metis of_nat_less_iff of_nat_numeral of_nat_power)
  also have "(2 :: int) ^ 31 \<le> 2 ^ 64" by simp
  finally have lt: "int (unat w) < 2 ^ 64" .
  have "(scast w :: u64) = word_of_int (int (unat w))" by (simp only: scast_eq sint_small [OF w])
  then have "uint (scast w :: u64) = take_bit 64 (int (unat w))" by (simp only: uint_word_of_int_eq) simp
  also have "\<dots> = int (unat w)" by (rule take_bit_int_eq_self) (simp, rule lt)
  finally show ?thesis by (simp only: unat_eq_nat_uint nat_int)
qed

lemma refill_bound:
  assumes r: "0 < unat r" "unat r < 2 ^ 30" and m: "unat m < 2 ^ 30" and d: "unat r dvd unat m"
  shows "unat (refill_amount r m elapsed) = min (unat m) (unat r * unat elapsed)"
proof -
  have "sint r = int (unat r)" using r by (intro sint_small) simp
  with r(1) have pos: "\<not> sint r \<le> 0" by linarith
  from d obtain k where k: "unat m = unat r * k" by (auto simp: dvd_def)
  have "unat (scast m div scast r :: u64) = k"
    using r m k by (simp add: unat_div_distrib scast_small)
  then have cmp: "elapsed \<ge> scast m div scast r \<longleftrightarrow> k \<le> unat elapsed"
    by (simp add: word_le_nat_alt)
  show ?thesis
  proof (cases "k \<le> unat elapsed")
    case True
    then have "unat m \<le> unat r * unat elapsed" using k by simp
    with True pos cmp show ?thesis by (simp add: refill_amount_def Let_def)
  next
    case False
    then have lt: "unat r * unat elapsed < unat m" using k r(1) by simp
    have "unat elapsed \<le> unat r * unat elapsed" using r(1) by simp
    with lt m have e: "unat elapsed < 2 ^ 30" by linarith
    have u: "unat (ucast elapsed :: 32 word) = unat elapsed"
      using e by (simp add: unsigned_ucast_eq take_bit_eq_mod)
    have "unat (ucast elapsed :: 32 word) * unat r < 2 ^ LENGTH(32)"
      unfolding u using lt m by (simp add: mult.commute)
    then have "unat (ucast elapsed * r) = unat r * unat elapsed"
      by (metis unat_mult_lem u mult.commute)
    with False pos cmp lt show ?thesis by (simp add: refill_amount_def Let_def)
  qed
qed

subsection \<open>Interleaved callers\<close>

text \<open>
  A bucket, the elapsed ticks that some caller has claimed and not yet added, and the packets allowed so far.
\<close>

record BucketRun =
  br_bucket :: TokenBucket
  br_pending :: "u64 list"
  br_allowed :: nat

inductive bucket_step :: "32 word \<Rightarrow> BucketRun \<Rightarrow> BucketRun \<Rightarrow> bool" for r where
  claim: "claim_ticks t (br_bucket s) = (Some e, tb) \<Longrightarrow>
    bucket_step r s (s\<lparr>br_bucket := tb, br_pending := e # br_pending s\<rparr>)"
| add: "br_pending s = xs @ e # ys \<Longrightarrow>
    bucket_step r s (s\<lparr>br_bucket := add_tokens r e (br_bucket s), br_pending := xs @ ys\<rparr>)"
| take: "take_token (br_bucket s) = (b, tb) \<Longrightarrow>
    bucket_step r s (s\<lparr>br_bucket := tb, br_allowed := (if b then Suc (br_allowed s) else br_allowed s)\<rparr>)"

inductive_cases bucket_stepE: "bucket_step r s s'"

inductive bucket_steps :: "32 word \<Rightarrow> BucketRun \<Rightarrow> BucketRun \<Rightarrow> bool" for r where
  refl: "bucket_steps r s s"
| step: "bucket_steps r s s' \<Longrightarrow> bucket_step r s' s'' \<Longrightarrow> bucket_steps r s s''"

text \<open>Tokens spent, tokens left and tokens owed never exceed the initial ones and the ticks claimed.\<close>

definition credit :: "nat \<Rightarrow> BucketRun \<Rightarrow> nat" where
  "credit r s = br_allowed s + unat (tb_tokens (br_bucket s)) + r * sum_list (map unat (br_pending s))"

definition run_ok :: "32 word \<Rightarrow> BucketRun \<Rightarrow> bool" where
  "run_ok r s \<longleftrightarrow> bucket_ok r (br_bucket s) \<and> unat r dvd unat (tb_maxTokens (br_bucket s))"

lemma add_tokens_small:
  assumes ok: "bucket_ok r tb" and d: "unat r dvd unat (tb_maxTokens tb)"
  shows "unat (tb_tokens (add_tokens r e tb)) \<le> unat (tb_maxTokens tb)"
    and "unat (tb_tokens (add_tokens r e tb)) \<le> unat (tb_tokens tb) + unat r * unat e"
    and "tb_maxTokens (add_tokens r e tb) = tb_maxTokens tb" "tb_refillTick (add_tokens r e tb) = tb_refillTick tb"
proof -
  let ?m = "tb_maxTokens tb" and ?a = "refill_amount r (tb_maxTokens tb) e" and ?t = "tb_tokens tb"
  from ok have b: "0 < unat r" "unat r < 2 ^ 30" "unat ?m < 2 ^ 30" "unat ?t \<le> unat ?m"
    by (auto simp: bucket_ok_def)
  have a: "unat ?a = min (unat ?m) (unat r * unat e)" using refill_bound [OF b(1-3) d] .
  have "unat ?t + unat ?a < 2 ^ LENGTH(32)" using a b by simp
  then have s: "unat (?t + ?a) = unat ?t + unat ?a" by (metis unat_add_lem)
  then have "unat (?t + ?a) < 2 ^ 31" using a b by simp
  moreover have "unat ?m < 2 ^ 31" using b by simp
  ultimately have cmp: "sint (?t + ?a) > sint ?m \<longleftrightarrow> unat ?m < unat ?t + unat ?a"
    unfolding sint_small s [symmetric] by (simp only: sint_small of_nat_less_iff)
  show "unat (tb_tokens (add_tokens r e tb)) \<le> unat ?m"
    and "unat (tb_tokens (add_tokens r e tb)) \<le> unat ?t + unat r * unat e"
    using s a cmp by (auto simp: add_tokens_def Let_def)
  show "tb_maxTokens (add_tokens r e tb) = ?m" "tb_refillTick (add_tokens r e tb) = tb_refillTick tb"
    by (simp_all add: add_tokens_def Let_def)
qed

lemma take_token_cases:
  assumes "bucket_ok r tb" and "take_token tb = (b, tb')"
  shows "tb_maxTokens tb' = tb_maxTokens tb \<and> tb_refillTick tb' = tb_refillTick tb \<and>
    unat (tb_tokens tb) = unat (tb_tokens tb') + (if b then 1 else 0)"
proof -
  from assms(1) have "unat (tb_tokens tb) < 2 ^ 31" by (simp add: bucket_ok_def)
  then have "sint (tb_tokens tb) = int (unat (tb_tokens tb))" by (rule sint_small)
  then have pos: "sint (tb_tokens tb) < 1 \<longleftrightarrow> unat (tb_tokens tb) < 1" by linarith
  have "unat (tb_tokens tb - 1) = unat (tb_tokens tb) - 1" if "\<not> unat (tb_tokens tb) < 1"
    using that by (simp add: unat_sub word_le_nat_alt)
  with assms(2) pos show ?thesis by (auto simp: take_token_def split: if_splits)
qed

lemma bucket_step_credit:
  assumes "bucket_step r s s'" and "run_ok r s"
  shows "run_ok r s' \<and> tb_maxTokens (br_bucket s') = tb_maxTokens (br_bucket s) \<and>
    tb_refillTick (br_bucket s) \<le> tb_refillTick (br_bucket s') \<and>
    credit (unat r) s' \<le> credit (unat r) s + unat r * (unat (tb_refillTick (br_bucket s')) - unat (tb_refillTick (br_bucket s)))"
  using assms(1)
proof (cases rule: bucket_step.cases)
  case (claim t e tb)
  then have lt: "tb_refillTick (br_bucket s) < t" and e: "e = t - tb_refillTick (br_bucket s)"
    and tb: "tb = (br_bucket s)\<lparr>tb_refillTick := t\<rparr>" by (auto simp: claim_ticks_def split: if_splits)
  have "unat e = unat t - unat (tb_refillTick (br_bucket s))"
    unfolding e using lt by (intro unat_sub) simp
  with claim lt tb assms(2) show ?thesis
    by (simp add: run_ok_def bucket_ok_def credit_def algebra_simps)
next
  case (add xs e ys)
  from assms(2) have ok: "bucket_ok r (br_bucket s)" "unat r dvd unat (tb_maxTokens (br_bucket s))"
    by (auto simp: run_ok_def)
  note a = add_tokens_small [OF ok, of e]
  with add ok show ?thesis
    by (simp add: run_ok_def bucket_ok_def credit_def algebra_simps)
next
  case (take b tb)
  from assms(2) have ok: "bucket_ok r (br_bucket s)" by (simp add: run_ok_def)
  from take_token_cases [OF ok take(2)] take assms(2) show ?thesis
    by (auto simp: run_ok_def bucket_ok_def credit_def)
qed

lemma bucket_steps_credit:
  "bucket_steps r s s' \<Longrightarrow> run_ok r s \<Longrightarrow>
   run_ok r s' \<and> tb_maxTokens (br_bucket s') = tb_maxTokens (br_bucket s) \<and>
   tb_refillTick (br_bucket s) \<le> tb_refillTick (br_bucket s') \<and>
   credit (unat r) s' \<le> credit (unat r) s + unat r * (unat (tb_refillTick (br_bucket s')) - unat (tb_refillTick (br_bucket s)))"
proof (induction rule: bucket_steps.induct)
  case (step s s' s'')
  then have ih: "run_ok r s'" "tb_maxTokens (br_bucket s') = tb_maxTokens (br_bucket s)"
      "tb_refillTick (br_bucket s) \<le> tb_refillTick (br_bucket s')"
      "credit (unat r) s' \<le> credit (unat r) s + unat r * (unat (tb_refillTick (br_bucket s')) - unat (tb_refillTick (br_bucket s)))"
    by auto
  note st = bucket_step_credit [OF step(2) ih(1)]
  let ?a = "unat (tb_refillTick (br_bucket s))" and ?b = "unat (tb_refillTick (br_bucket s'))"
    and ?c = "unat (tb_refillTick (br_bucket s''))"
  have "?a \<le> ?b" "?b \<le> ?c" using ih(3) st by (auto simp: word_le_nat_alt)
  then have "(?b - ?a) + (?c - ?b) = ?c - ?a" by simp
  then have "unat r * (?b - ?a) + unat r * (?c - ?b) = unat r * (?c - ?a)"
    by (metis distrib_left)
  with ih st show ?case by (auto intro: order_trans)
qed auto

text \<open>A call of \<open>Allow\<close> is a sequence of these actions.\<close>

lemma bucket_Allow_steps:
  assumes "bucket_Allow r t (br_bucket s) = (b, tb)" and "br_pending s = []"
  shows "bucket_steps r s \<lparr>br_bucket = tb, br_pending = [], br_allowed = (if b then Suc (br_allowed s) else br_allowed s)\<rparr>"
proof -
  obtain c tb1 where c: "claim_ticks t (br_bucket s) = (c, tb1)" by force
  have tk: "bucket_step r x \<lparr>br_bucket = tb, br_pending = br_pending x, br_allowed = (if b then Suc (br_allowed x) else br_allowed x)\<rparr>"
    if "take_token (br_bucket x) = (b, tb)" for x :: BucketRun
    using bucket_step.take [OF that, of r] by (cases x) simp
  show ?thesis
  proof (cases c)
    case None
    with c assms tk [of s] show ?thesis
      by (auto simp: bucket_Allow_def claim_ticks_def split: if_splits
          intro: bucket_steps.step [OF bucket_steps.refl])
  next
    case (Some e)
    with c have pos: "e > 0" by (auto simp: claim_ticks_def word_gt_0 split: if_splits)
    let ?s1 = "s\<lparr>br_bucket := tb1, br_pending := [e]\<rparr>"
    let ?s2 = "?s1\<lparr>br_bucket := add_tokens r e tb1, br_pending := []\<rparr>"
    have "bucket_step r s ?s1" using bucket_step.claim [of t s e tb1 r] c Some assms(2) by simp
    moreover have "bucket_step r ?s1 ?s2" using bucket_step.add [of ?s1 "[]" e "[]" r] by simp
    moreover have "take_token (br_bucket ?s2) = (b, tb)" using assms c Some pos by (simp add: bucket_Allow_def)
    from tk [OF this] have "bucket_step r ?s2
        \<lparr>br_bucket = tb, br_pending = [], br_allowed = (if b then Suc (br_allowed s) else br_allowed s)\<rparr>" by (cases b) simp_all
    ultimately show ?thesis by (blast intro: bucket_steps.intros)
  qed
qed

subsection \<open>Properties\<close>

text \<open>
  C29 Whatever the number of concurrent callers and however their atomic actions interleave, a bucket of
  \<open>m\<close> tokens, refilled by \<open>r\<close> per tick where \<open>r\<close> divides \<open>m\<close>, allows at most \<open>m + r * n\<close> packets while its
  tick counter advances by \<open>n\<close>, never holds more than \<open>m\<close> tokens and never goes below zero.
\<close>

theorem rate_bound:
  assumes "bucket_steps r \<lparr>br_bucket = tb, br_pending = [], br_allowed = 0\<rparr> s"
    and "bucket_ok r tb" and "unat r dvd unat (tb_maxTokens tb)"
  shows "br_allowed s \<le> unat (tb_maxTokens tb) + unat r * (unat (tb_refillTick (br_bucket s)) - unat (tb_refillTick tb)) \<and>
    unat (tb_tokens (br_bucket s)) \<le> unat (tb_maxTokens tb) \<and> 0 \<le> sint (tb_tokens (br_bucket s))"
proof -
  from bucket_steps_credit [OF assms(1)] assms(2,3)
  have c: "bucket_ok r (br_bucket s)" "tb_maxTokens (br_bucket s) = tb_maxTokens tb"
    "credit (unat r) s \<le> unat (tb_tokens tb) + unat r * (unat (tb_refillTick (br_bucket s)) - unat (tb_refillTick tb))"
    by (simp_all add: run_ok_def credit_def)
  have "sint (tb_tokens (br_bucket s)) = int (unat (tb_tokens (br_bucket s)))"
    using c(1) by (intro sint_small) (simp add: bucket_ok_def)
  then have "0 \<le> sint (tb_tokens (br_bucket s))" by linarith
  moreover have "br_allowed s \<le> credit (unat r) s" by (simp add: credit_def)
  moreover have "unat (tb_tokens tb) \<le> unat (tb_maxTokens tb)" using assms(2) by (simp add: bucket_ok_def)
  moreover have "unat (tb_tokens (br_bucket s)) \<le> unat (tb_maxTokens (br_bucket s))" using c(1) by (simp add: bucket_ok_def)
  ultimately show ?thesis using c(2,3) by (intro conjI) (linarith, metis, assumption)
qed

text \<open>The configured rate, 2 tokens per tick in a bucket of 60.\<close>

theorem rate_bound_witness:
  "unat (tb_tokens (snd (bucket_Allow 2 7 (NewTokenBucket 60)))) \<le> 60"
proof -
  obtain b tb where a: "bucket_Allow 2 7 (NewTokenBucket 60) = (b, tb)" by force
  let ?s = "\<lparr>br_bucket = NewTokenBucket 60, br_pending = [], br_allowed = 0\<rparr>"
  from bucket_Allow_steps [of 2 7 ?s b tb] a
  have "bucket_steps 2 ?s \<lparr>br_bucket = tb, br_pending = [], br_allowed = (if b then Suc 0 else 0)\<rparr>" by (cases b) simp_all
  from rate_bound [OF this] a show ?thesis by (simp add: NewTokenBucket_def bucket_ok_def)
qed

text \<open>When the rate does not divide the size, the code rounds the refill up to a full bucket too early.\<close>

lemma refill_rounds_up: "refill_amount 4 10 2 = 10"
  by (simp add: refill_amount_def Let_def)

end
