(* ===== verification/Rng.thy ===== *)
theory Rng
  imports Prelude
begin

text \<open>
  \<open>server/peakgo/rng/rng.go\<close>: random numbers. The generator is a parameter of the model, an infinite supply of
  raw draws of which each call takes one; \<open>Intn n\<close> reduces it into \<open>[0, n)\<close>, so every sequence of results the
  code can see is the result of some supply. Every modelled call has a positive bound, so that the panic of
  \<open>Intn\<close> on others does not arise. The pool of generators is not state, and \<open>Float64\<close> is not used by the
  modelled code.
\<close>

type_synonym draws = "nat \<Rightarrow> nat"

definition Intn :: "int \<Rightarrow> draws \<Rightarrow> int \<times> draws" where
  "Intn n r = (int (r 0) mod n, \<lambda>i. r (Suc i))"

definition IntnRange :: "int \<Rightarrow> int \<Rightarrow> draws \<Rightarrow> int \<times> draws" where
  "IntnRange lo hi r = (case Intn (hi - lo) r of (v, r') \<Rightarrow> (lo + v, r'))"

lemma Intn_bounds: "0 < n \<Longrightarrow> Intn n r = (v, r') \<Longrightarrow> 0 \<le> v \<and> v < n"
  by (auto simp: Intn_def)

lemma IntnRange_bounds: "lo < hi \<Longrightarrow> IntnRange lo hi r = (v, r') \<Longrightarrow> lo \<le> v \<and> v < hi"
  using Intn_bounds [of "hi - lo" r] by (auto simp: IntnRange_def split: prod.splits)

text \<open>Every value in range is the result of some supply.\<close>

lemma Intn_every: "0 \<le> v \<Longrightarrow> v < n \<Longrightarrow> Intn n (\<lambda>_. nat v) = (v, \<lambda>_. nat v)"
  by (simp add: Intn_def)

end
