(* ===== verification/Combat.thy ===== *)
theory Combat
  imports Rng
begin

text \<open>
  \<open>server/peakgo/combat/combat.go\<close>: the damage formulas. Division truncates towards zero as in Go. A modifier's
  default value is Go's zero value; \<open>DisableRngForTesting\<close> is an argument.
\<close>

subsection \<open>Data\<close>

record Stats =
  cs_Level :: int
  cs_MaxHP :: int
  cs_CurrentHP :: int
  cs_MaxMP :: int
  cs_CurrentMP :: int
  cs_Attack :: int
  cs_MagicAttack :: int
  cs_Defense :: int
  cs_MagicDefense :: int
  cs_HitRate :: int
  cs_DodgeRate :: int
  cs_CritRate :: int
  cs_CritDamage :: int

definition NewStats :: "int \<Rightarrow> Stats" where
  "NewStats level =
     (let baseHP = 100 + (level - 1) * 25; baseMP = 50 + (level - 1) * 10
      in \<lparr>cs_Level = level, cs_MaxHP = baseHP, cs_CurrentHP = baseHP, cs_MaxMP = baseMP, cs_CurrentMP = baseMP,
          cs_Attack = 10 + level * 2, cs_MagicAttack = 10 + level * 2, cs_Defense = 5 + level,
          cs_MagicDefense = 5 + level, cs_HitRate = 850, cs_DodgeRate = 50, cs_CritRate = 50, cs_CritDamage = 1500\<rparr>)"

datatype DamageType = DamagePhysical | DamageMagical | DamagePure

datatype Element = ElementNone | ElementFire | ElementWater | ElementWind | ElementEarth | ElementLight | ElementDark

definition element_code :: "Element \<Rightarrow> nat" where
  "element_code e = (case e of ElementNone \<Rightarrow> 0 | ElementFire \<Rightarrow> 1 | ElementWater \<Rightarrow> 2 | ElementWind \<Rightarrow> 3
     | ElementEarth \<Rightarrow> 4 | ElementLight \<Rightarrow> 5 | ElementDark \<Rightarrow> 6)"

definition elementEffectiveness :: "int list list" where
  "elementEffectiveness =
    [[1000, 1000, 1000, 1000, 1000, 1000, 1000],
     [1000, 500, 2000, 500, 1000, 1000, 1000],
     [1000, 500, 500, 2000, 1000, 1000, 1000],
     [1000, 2000, 500, 500, 1000, 1000, 1000],
     [1000, 1000, 1000, 1000, 500, 1000, 2000],
     [1000, 1000, 1000, 1000, 2000, 1000, 2000],
     [1000, 1000, 1000, 1000, 500, 500, 1000]]"

definition GetElementEffectiveness :: "Element \<Rightarrow> Element \<Rightarrow> int" where
  "GetElementEffectiveness attacker defender = elementEffectiveness ! element_code attacker ! element_code defender"

record DamageModifiers =
  dm_IsCrit :: bool
  dm_IsGuaranteed :: bool
  dm_DamageType :: DamageType
  dm_Element :: Element
  dm_DefenderElement :: Element
  dm_SkillMultiplier :: int

text \<open>The modifiers of an ordinary attack, as \<open>AttackSystem\<close> sets them.\<close>

definition plain_attack :: DamageModifiers where
  "plain_attack = \<lparr>dm_IsCrit = False, dm_IsGuaranteed = False, dm_DamageType = DamagePhysical,
     dm_Element = ElementNone, dm_DefenderElement = ElementNone, dm_SkillMultiplier = 0\<rparr>"

record CombatRoll =
  cr_Hit :: bool
  cr_Dodged :: bool
  cr_IsCrit :: bool
  cr_DamageDealt :: int
  cr_RawDamage :: int
  cr_Mitigated :: int
  cr_ElementMulti :: int

definition no_result :: CombatRoll where
  "no_result = \<lparr>cr_Hit = False, cr_Dodged = False, cr_IsCrit = False, cr_DamageDealt = 0, cr_RawDamage = 0,
     cr_Mitigated = 0, cr_ElementMulti = 0\<rparr>"

subsection \<open>Resolution\<close>

text \<open>The hit check both formulas share: whether the attack is dodged, with the chance already computed.\<close>

definition dodge_check :: "bool \<Rightarrow> DamageModifiers \<Rightarrow> int \<Rightarrow> draws \<Rightarrow> bool \<times> draws" where
  "dodge_check disableRng mods chance0 r =
     (if \<not> dm_IsGuaranteed mods \<and> \<not> disableRng then
        let c1 = (if chance0 < 100 then 100 else chance0);
            hitChance = (if c1 > 995 then 995 else c1)
        in (case Intn 1000 r of (roll, r') \<Rightarrow> (roll \<ge> hitChance, r'))
      else (False, r))"

definition crit_check :: "bool \<Rightarrow> DamageModifiers \<Rightarrow> int \<Rightarrow> draws \<Rightarrow> bool \<times> draws" where
  "crit_check disableRng mods critRate r =
     (if \<not> dm_IsCrit mods \<and> \<not> disableRng then
        (case Intn 1000 r of (critRoll, r') \<Rightarrow> (critRoll < critRate, r'))
      else (dm_IsCrit mods, r))"

definition raw_damage :: "int \<Rightarrow> DamageModifiers \<Rightarrow> int" where
  "raw_damage attack mods =
     (let skillMulti = (if dm_SkillMultiplier mods \<le> 0 then 1000 else dm_SkillMultiplier mods);
          d = go_div (attack * skillMulti) 1000
      in if d < 1 then 1 else d)"

text \<open>From raw damage and mitigation to the damage dealt.\<close>

definition finish_damage :: "int \<Rightarrow> int \<Rightarrow> int \<Rightarrow> DamageModifiers \<Rightarrow> bool \<Rightarrow> CombatRoll" where
  "finish_damage raw mitigated0 critDamage mods isCrit =
     (let mitigated = (if mitigated0 > raw then raw else mitigated0);
          afterDef = raw - mitigated;
          elementMulti = GetElementEffectiveness (dm_Element mods) (dm_DefenderElement mods);
          e = go_div (afterDef * elementMulti) 1000;
          afterElement = (if e < 1 then 1 else e);
          d = (if isCrit then go_div (afterElement * critDamage) 1000 else afterElement)
      in \<lparr>cr_Hit = True, cr_Dodged = False, cr_IsCrit = isCrit, cr_DamageDealt = (if d < 1 then 1 else d),
          cr_RawDamage = raw, cr_Mitigated = mitigated, cr_ElementMulti = elementMulti\<rparr>)"

definition ResolvePhysical :: "bool \<Rightarrow> Stats \<Rightarrow> Stats \<Rightarrow> DamageModifiers \<Rightarrow> draws \<Rightarrow> CombatRoll \<times> draws" where
  "ResolvePhysical disableRng attacker defender mods r =
     (case dodge_check disableRng mods (cs_HitRate attacker - cs_DodgeRate defender) r of
        (True, r1) \<Rightarrow> (no_result\<lparr>cr_Dodged := True\<rparr>, r1)
      | (False, r1) \<Rightarrow>
          (case crit_check disableRng mods (cs_CritRate attacker) r1 of (isCrit, r2) \<Rightarrow>
             (finish_damage (raw_damage (cs_Attack attacker) mods) (go_div (cs_Defense defender * 50) 100)
                (cs_CritDamage attacker) mods isCrit, r2)))"

definition ResolveMagical :: "bool \<Rightarrow> Stats \<Rightarrow> Stats \<Rightarrow> DamageModifiers \<Rightarrow> draws \<Rightarrow> CombatRoll \<times> draws" where
  "ResolveMagical disableRng attacker defender mods r =
     (case dodge_check disableRng mods (cs_HitRate attacker + 50 - go_div (cs_DodgeRate defender) 2) r of
        (True, r1) \<Rightarrow> (no_result\<lparr>cr_Dodged := True\<rparr>, r1)
      | (False, r1) \<Rightarrow>
          (case crit_check disableRng mods (go_div (cs_CritRate attacker) 2) r1 of (isCrit, r2) \<Rightarrow>
             (finish_damage (raw_damage (cs_MagicAttack attacker) mods) (go_div (cs_MagicDefense defender * 75) 100)
                (cs_CritDamage attacker) mods isCrit, r2)))"

definition ResolvePure :: "Stats \<Rightarrow> DamageModifiers \<Rightarrow> CombatRoll" where
  "ResolvePure attacker mods =
     (let raw = raw_damage (cs_Attack attacker) mods;
          elementMulti = GetElementEffectiveness (dm_Element mods) ElementNone;
          d = go_div (raw * elementMulti) 1000
      in no_result\<lparr>cr_Hit := True, cr_RawDamage := raw, cr_ElementMulti := elementMulti,
          cr_DamageDealt := (if d < 1 then 1 else d)\<rparr>)"

subsection \<open>Damage over time and healing\<close>

record DoTInstance =
  dot_DamagePerTick :: int
  dot_RemainingTicks :: int
  dot_TotalTicks :: int
  dot_Element :: Element
  dot_SourceEntityID :: u64

definition DoT_Tick :: "DoTInstance \<Rightarrow> int \<times> DoTInstance" where
  "DoT_Tick d = (if dot_RemainingTicks d \<le> 0 then (0, d)
     else (dot_DamagePerTick d, d\<lparr>dot_RemainingTicks := dot_RemainingTicks d - 1\<rparr>))"

definition DoT_Expired :: "DoTInstance \<Rightarrow> bool" where
  "DoT_Expired d \<longleftrightarrow> dot_RemainingTicks d \<le> 0"

record HealResult =
  heal_Amount :: int
  heal_Overheal :: int
  heal_IsCrit :: bool

definition CalculateHealing :: "int \<Rightarrow> int \<Rightarrow> int \<Rightarrow> bool \<Rightarrow> draws \<Rightarrow> HealResult \<times> draws" where
  "CalculateHealing sourceLevel baseHeal skillMulti0 canCrit r =
     (let skillMulti = (if skillMulti0 \<le> 0 then 1000 else skillMulti0);
          h = go_div (baseHeal * skillMulti) 1000;
          heal = (if h < 1 then 1 else h)
      in if canCrit then
           (case Intn 1000 r of (roll, r') \<Rightarrow>
              (if roll < 50 then (\<lparr>heal_Amount = go_div (heal * 1500) 1000, heal_Overheal = 0, heal_IsCrit = True\<rparr>, r')
               else (\<lparr>heal_Amount = heal, heal_Overheal = 0, heal_IsCrit = False\<rparr>, r')))
         else (\<lparr>heal_Amount = heal, heal_Overheal = 0, heal_IsCrit = False\<rparr>, r))"

definition ApplyHealing :: "int \<Rightarrow> int \<Rightarrow> HealResult \<Rightarrow> int \<times> int" where
  "ApplyHealing currentHP maxHP heal =
     (let newHP = currentHP + heal_Amount heal
      in if newHP > maxHP then (maxHP, newHP - maxHP) else (newHP, 0))"

subsection \<open>Lemmas\<close>

lemma element_range: "GetElementEffectiveness a b \<in> {500, 1000, 2000}"
  by (cases a; cases b) (simp_all add: GetElementEffectiveness_def elementEffectiveness_def element_code_def)

lemma element_pos [simp]: "0 < GetElementEffectiveness a b" "GetElementEffectiveness a b \<le> 2000"
  using element_range [of a b] by auto

lemma raw_damage_pos [simp]: "1 \<le> raw_damage attack mods"
  by (simp add: raw_damage_def Let_def)

lemma raw_damage_mono: "a \<le> b \<Longrightarrow> raw_damage a mods \<le> raw_damage b mods"
proof -
  assume ab: "a \<le> b"
  define m where "m = (if dm_SkillMultiplier mods \<le> 0 then 1000 else dm_SkillMultiplier mods)"
  have "go_div (a * m) 1000 \<le> go_div (b * m) 1000"
    using ab by (intro go_div_mono mult_right_mono) (auto simp: m_def)
  then show ?thesis by (simp add: raw_damage_def Let_def flip: m_def)
qed

lemma finish_damage_pos: "1 \<le> cr_DamageDealt (finish_damage raw mit cd mods c)"
  by (simp add: finish_damage_def Let_def)

text \<open>
  More raw damage, less mitigation, a stronger and likelier critical hit: at least as much damage, when a
  critical hit is not weaker than an ordinary one.
\<close>

lemma finish_damage_eq:
  "cr_DamageDealt (finish_damage raw mit cd mods c) =
     (let a = max 1 (go_div ((raw - min raw mit) * GetElementEffectiveness (dm_Element mods) (dm_DefenderElement mods)) 1000)
      in max 1 (if c then go_div (a * cd) 1000 else a))"
proof -
  have "(if y > x then x else y) = min x y" for x y :: int by (auto simp: min_def)
  moreover have "(if (z :: int) < 1 then 1 else z) = max 1 z" for z by (auto simp: max_def)
  ultimately show ?thesis by (simp only: finish_damage_def Let_def CombatRoll.simps)
qed

lemma finish_damage_mono:
  assumes "raw \<le> raw'" and "mit' \<le> mit" and "cd \<le> cd'" and "1000 \<le> cd'" and "c \<longrightarrow> c'"
  shows "cr_DamageDealt (finish_damage raw mit cd mods c) \<le> cr_DamageDealt (finish_damage raw' mit' cd' mods c')"
proof -
  let ?m = "GetElementEffectiveness (dm_Element mods) (dm_DefenderElement mods)"
  define a where "a = max 1 (go_div ((raw - min raw mit) * ?m) 1000)"
  define b where "b = max 1 (go_div ((raw' - min raw' mit') * ?m) 1000)"
  have "raw - min raw mit \<le> raw' - min raw' mit'" using assms(1,2) by (auto simp: min_def)
  then have "go_div ((raw - min raw mit) * ?m) 1000 \<le> go_div ((raw' - min raw' mit') * ?m) 1000"
    using less_imp_le [OF element_pos(1) [of "dm_Element mods" "dm_DefenderElement mods"]]
    by (intro go_div_mono mult_right_mono) auto
  then have ab: "a \<le> b" and one: "1 \<le> a" "1 \<le> b" unfolding a_def b_def by (auto simp: max_def)
  have "a * cd \<le> a * cd'" using assms(3) one by (intro mult_left_mono) auto
  also have "\<dots> \<le> b * cd'" using ab assms(4) by (intro mult_right_mono) auto
  finally have crit: "go_div (a * cd) 1000 \<le> go_div (b * cd') 1000" by (intro go_div_mono) auto
  have "go_div (b * 1000) 1000 \<le> go_div (b * cd') 1000"
    using assms(4) one by (intro go_div_mono mult_left_mono) auto
  then have "b \<le> go_div (b * cd') 1000" using one by simp
  then show ?thesis
    using crit ab assms(5) unfolding finish_damage_eq Let_def a_def [symmetric] b_def [symmetric]
    by (cases c; cases c') (simp_all add: max.coboundedI2)
qed

lemma crit_check_mono:
  "c \<le> c' \<Longrightarrow> crit_check b mods c r = (x, r1) \<Longrightarrow> crit_check b mods c' r = (y, r2) \<Longrightarrow> (x \<longrightarrow> y) \<and> r1 = r2"
  by (auto simp: crit_check_def split: if_splits prod.splits)

lemma dodge_check_mono:
  "c \<le> c' \<Longrightarrow> dodge_check b mods c r = (x, r1) \<Longrightarrow> dodge_check b mods c' r = (y, r2) \<Longrightarrow> (y \<longrightarrow> x) \<and> r1 = r2"
  by (auto simp: dodge_check_def Let_def split: if_splits prod.splits)

lemma resolve_mono:
  assumes "dodge_check b mods h r = (x, r1)" and "dodge_check b mods h' r = (y, r1')" and "h \<le> h'"
    and "crit_check b mods k r1 = (c, r2)" and "crit_check b mods k' r1' = (c', r2')" and "k \<le> k'"
    and "raw \<le> raw'" and "mit' \<le> mit" and "cd \<le> cd'" and "1000 \<le> cd'"
  shows "(if x then 0 else cr_DamageDealt (finish_damage raw mit cd mods c)) \<le>
    (if y then 0 else cr_DamageDealt (finish_damage raw' mit' cd' mods c'))"
proof -
  from dodge_check_mono [OF assms(3,1,2)] have d: "y \<longrightarrow> x" "r1 = r1'" by auto
  from crit_check_mono [OF assms(6,4)] assms(5) d have "c \<longrightarrow> c'" by auto
  from finish_damage_mono [OF assms(7-10) this] finish_damage_pos [of raw' mit' cd' mods c'] d show ?thesis by auto
qed

lemma ResolvePhysical_damage:
  assumes "dodge_check b mods (cs_HitRate a - cs_DodgeRate d) r = (x, r1)"
    and "crit_check b mods (cs_CritRate a) r1 = (c, r2)"
  shows "cr_DamageDealt (fst (ResolvePhysical b a d mods r)) = (if x then 0 else
    cr_DamageDealt (finish_damage (raw_damage (cs_Attack a) mods) (go_div (cs_Defense d * 50) 100) (cs_CritDamage a) mods c))"
  using assms by (simp add: ResolvePhysical_def no_result_def)

lemma ResolveMagical_damage:
  assumes "dodge_check b mods (cs_HitRate a + 50 - go_div (cs_DodgeRate d) 2) r = (x, r1)"
    and "crit_check b mods (go_div (cs_CritRate a) 2) r1 = (c, r2)"
  shows "cr_DamageDealt (fst (ResolveMagical b a d mods r)) = (if x then 0 else
    cr_DamageDealt (finish_damage (raw_damage (cs_MagicAttack a) mods) (go_div (cs_MagicDefense d * 75) 100) (cs_CritDamage a) mods c))"
  using assms by (simp add: ResolveMagical_def no_result_def)

text \<open>A dot deals its damage as many times as it has ticks.\<close>

fun dot_run :: "nat \<Rightarrow> DoTInstance \<Rightarrow> int" where
  "dot_run 0 d = 0"
| "dot_run (Suc n) d = (case DoT_Tick d of (x, d') \<Rightarrow> x + dot_run n d')"

lemma dot_run_total: "dot_run n d = dot_DamagePerTick d * min (int n) (max 0 (dot_RemainingTicks d))"
proof (induction n arbitrary: d)
  case (Suc n)
  then show ?case by (auto simp: DoT_Tick_def min_def max_def algebra_simps)
qed simp

lemma ApplyHealing_exact:
  "ApplyHealing hp m h = (hp', over) \<Longrightarrow> hp' \<le> m \<and> hp' + over = hp + heal_Amount h \<and> 0 \<le> over"
  by (auto simp: ApplyHealing_def Let_def split: if_splits)

subsection \<open>Properties\<close>

text \<open>
  C35 An attack that is not guaranteed hits exactly when its roll is below the hit chance clamped to 10 and
  99.5 percent; a dodge deals nothing, and a hit at least one point, of which the defence never takes more
  than the raw damage.
\<close>

theorem ResolvePhysical_sound:
  assumes "ResolvePhysical False a d mods r = (res, r')" and "\<not> dm_IsGuaranteed mods"
  shows "(cr_Hit res \<longleftrightarrow> int (r 0) mod 1000 < min 995 (max 100 (cs_HitRate a - cs_DodgeRate d))) \<and>
    cr_Dodged res = (\<not> cr_Hit res) \<and> (if cr_Hit res then 1 \<le> cr_DamageDealt res else cr_DamageDealt res = 0) \<and>
    cr_Mitigated res \<le> cr_RawDamage res"
proof -
  let ?c = "cs_HitRate a - cs_DodgeRate d"
  obtain x r1 where x: "dodge_check False mods ?c r = (x, r1)" by force
  then have hit: "x = (\<not> int (r 0) mod 1000 < min 995 (max 100 ?c))"
    using assms(2) by (auto simp: dodge_check_def Intn_def Let_def min_def max_def split: if_splits)
  obtain k r2 where k: "crit_check False mods (cs_CritRate a) r1 = (k, r2)" by force
  show ?thesis
  proof (cases x)
    case True
    with assms(1) x hit show ?thesis by (simp add: ResolvePhysical_def no_result_def) auto
  next
    case False
    with assms(1) x k have "res = finish_damage (raw_damage (cs_Attack a) mods) (go_div (cs_Defense d * 50) 100)
        (cs_CritDamage a) mods k" by (simp add: ResolvePhysical_def)
    with False hit show ?thesis by (simp add: finish_damage_def Let_def)
  qed
qed

theorem ResolvePhysical_sound_witness:
  "cr_DamageDealt (fst (ResolvePhysical False (NewStats 1) (NewStats 1)
     plain_attack (\<lambda>_. 900))) = 0"
proof -
  obtain res r' where e: "ResolvePhysical False (NewStats 1) (NewStats 1) plain_attack (\<lambda>_. 900) = (res, r')" by force
  from ResolvePhysical_sound [OF e] e show ?thesis by (auto simp: NewStats_def plain_attack_def split: if_splits)
qed

text \<open>
  Better statistics never hurt: with the same rolls, an attacker at least as strong in attack, hit rate,
  critical rate and critical damage, against a defender no stronger in defence and evasion, deals at least
  as much damage, physical or magical, when its critical hits are not weaker than ordinary ones.
\<close>

theorem damage_monotone:
  assumes "cs_HitRate a \<le> cs_HitRate a'" and "cs_CritRate a \<le> cs_CritRate a'"
    and "cs_Attack a \<le> cs_Attack a'" and "cs_MagicAttack a \<le> cs_MagicAttack a'"
    and "cs_CritDamage a \<le> cs_CritDamage a'" and "1000 \<le> cs_CritDamage a'"
    and "cs_DodgeRate d' \<le> cs_DodgeRate d" and "cs_Defense d' \<le> cs_Defense d"
    and "cs_MagicDefense d' \<le> cs_MagicDefense d"
  shows "cr_DamageDealt (fst (ResolvePhysical b a d mods r)) \<le> cr_DamageDealt (fst (ResolvePhysical b a' d' mods r)) \<and>
    cr_DamageDealt (fst (ResolveMagical b a d mods r)) \<le> cr_DamageDealt (fst (ResolveMagical b a' d' mods r))"
proof
  obtain x r1 where x: "dodge_check b mods (cs_HitRate a - cs_DodgeRate d) r = (x, r1)" by force
  obtain y s1 where y: "dodge_check b mods (cs_HitRate a' - cs_DodgeRate d') r = (y, s1)" by force
  obtain c r2 where c: "crit_check b mods (cs_CritRate a) r1 = (c, r2)" by force
  obtain k s2 where k: "crit_check b mods (cs_CritRate a') s1 = (k, s2)" by force
  show "cr_DamageDealt (fst (ResolvePhysical b a d mods r)) \<le> cr_DamageDealt (fst (ResolvePhysical b a' d' mods r))"
    unfolding ResolvePhysical_damage [OF x c] ResolvePhysical_damage [OF y k]
    by (rule resolve_mono [OF x y _ c k]) (use assms in \<open>auto intro!: raw_damage_mono go_div_mono\<close>)
next
  have half: "go_div (cs_DodgeRate d') 2 \<le> go_div (cs_DodgeRate d) 2" "go_div (cs_CritRate a) 2 \<le> go_div (cs_CritRate a') 2"
    using assms by (auto intro: go_div_mono)
  obtain x r1 where x: "dodge_check b mods (cs_HitRate a + 50 - go_div (cs_DodgeRate d) 2) r = (x, r1)" by force
  obtain y s1 where y: "dodge_check b mods (cs_HitRate a' + 50 - go_div (cs_DodgeRate d') 2) r = (y, s1)" by force
  obtain c r2 where c: "crit_check b mods (go_div (cs_CritRate a) 2) r1 = (c, r2)" by force
  obtain k s2 where k: "crit_check b mods (go_div (cs_CritRate a') 2) s1 = (k, s2)" by force
  show "cr_DamageDealt (fst (ResolveMagical b a d mods r)) \<le> cr_DamageDealt (fst (ResolveMagical b a' d' mods r))"
    unfolding ResolveMagical_damage [OF x c] ResolveMagical_damage [OF y k]
    by (rule resolve_mono [OF x y _ c k]) (use assms half in \<open>auto intro!: raw_damage_mono go_div_mono\<close>)
qed

theorem damage_monotone_witness:
  "cr_DamageDealt (fst (ResolvePhysical True ((NewStats 3)\<lparr>cs_Attack := 5\<rparr>) (NewStats 1) plain_attack (\<lambda>_. 7))) \<le>
   cr_DamageDealt (fst (ResolvePhysical True (NewStats 3) (NewStats 1) plain_attack (\<lambda>_. 7)))"
  using damage_monotone [of "(NewStats 3)\<lparr>cs_Attack := 5\<rparr>" "NewStats 3" "NewStats 1" "NewStats 1" True plain_attack "\<lambda>_. 7"]
  by (simp add: NewStats_def)

end
