(* ===== verification/Ecs_Store.thy ===== *)
theory Ecs_Store
  imports Prelude
begin

text \<open>
  The component store of \<open>server/ecs/ecs.go\<close>: generational entity identifiers, the paged sparse
  array, and the sparse set \<open>ComponentStore[T]\<close> with \<open>Set\<close>, \<open>Get\<close>, \<open>Delete\<close>, \<open>Range\<close> and
  \<open>RangeMutate\<close>. The store's mutex is held for the whole of each operation, so an operation is one
  atomic step on the state. The contract the rest of the server relies on is the locale
  \<open>component_store\<close>: a store is a map from entities to values, as long as no two entities with
  the same 32-bit index are stored at once. The sparse set is shown to satisfy it.
\<close>

subsection \<open>Generational entity identifiers\<close>

type_synonym entity = u64

definition EntityIndex :: "entity \<Rightarrow> u32" where
  "EntityIndex e = ucast e"

definition EntityGeneration :: "entity \<Rightarrow> u32" where
  "EntityGeneration e = ucast (drop_bit 32 e)"

definition InvalidEntity :: entity where
  "InvalidEntity = 0"

text \<open>The expression \<open>Entity(idx) | (Entity(gen) << 32)\<close> of \<open>PopRecycledEntityID\<close> and \<open>NewEntity\<close>.\<close>

definition mk_entity :: "u32 \<Rightarrow> u32 \<Rightarrow> entity" where
  "mk_entity idx gen = ucast idx OR push_bit 32 (ucast gen)"

lemma EntityIndex_mk [simp]: "EntityIndex (mk_entity i g) = i"
  unfolding EntityIndex_def mk_entity_def
  by (rule bit_word_eqI) (auto simp: bit_simps)

lemma EntityGeneration_mk [simp]: "EntityGeneration (mk_entity i g) = g"
  unfolding EntityGeneration_def mk_entity_def
  by (rule bit_word_eqI) (auto simp: bit_simps dest: bit_imp_le_length)

lemma mk_entity_parts [simp]: "mk_entity (EntityIndex x) (EntityGeneration x) = x"
  unfolding EntityIndex_def EntityGeneration_def mk_entity_def
  by (rule bit_word_eqI) (auto simp: bit_simps)

lemma mk_entity_eq_iff [simp]: "mk_entity i g = mk_entity i' g' \<longleftrightarrow> i = i' \<and> g = g'"
  by (metis EntityIndex_mk EntityGeneration_mk)

lemma entity_eqI: "EntityIndex x = EntityIndex y \<Longrightarrow> EntityGeneration x = EntityGeneration y \<Longrightarrow> x = y"
  by (metis mk_entity_parts)

subsection \<open>The paged sparse array\<close>

text \<open>
  \<open>sparse [][]int32\<close>: a page is \<open>nil\<close> (\<open>None\<close>) until an index in it is first stored. A slot holds
  0 for "not present" and a dense position plus one otherwise. Dense positions stay below \<open>2^31\<close>
  (a store of that size would need tens of gigabytes), so the slots are natural numbers.
\<close>

type_synonym sparse_pages = "nat list option list"

definition chunkSize :: nat where
  "chunkSize = 1024"

definition page_of :: "u32 \<Rightarrow> nat" where
  "page_of i = unat i div chunkSize"

definition offset_of :: "u32 \<Rightarrow> nat" where
  "offset_of i = unat i mod chunkSize"

definition sparse_get :: "sparse_pages \<Rightarrow> u32 \<Rightarrow> nat" where
  "sparse_get sp i =
     (if page_of i \<ge> length sp then 0
      else case sp ! page_of i of None \<Rightarrow> 0 | Some page \<Rightarrow> page ! offset_of i)"

text \<open>The first half of \<open>Set\<close>: grow the page table up to the page of \<open>i\<close>, and allocate that page.\<close>

definition sparse_ensure :: "sparse_pages \<Rightarrow> u32 \<Rightarrow> sparse_pages" where
  "sparse_ensure sp i =
     (let p = page_of i;
          sp' = (if p \<ge> length sp then sp @ replicate (p + 1 - length sp) None else sp)
      in case sp' ! p of None \<Rightarrow> sp'[p := Some (replicate chunkSize 0)] | Some _ \<Rightarrow> sp')"

text \<open>An assignment \<open>sparse[page][offset] = n\<close> to a page that exists.\<close>

definition sparse_put :: "sparse_pages \<Rightarrow> u32 \<Rightarrow> nat \<Rightarrow> sparse_pages" where
  "sparse_put sp i n = sp[page_of i := map_option (\<lambda>page. page[offset_of i := n]) (sp ! page_of i)]"

definition has_page :: "sparse_pages \<Rightarrow> u32 \<Rightarrow> bool" where
  "has_page sp i \<longleftrightarrow> page_of i < length sp \<and> sp ! page_of i \<noteq> None"

definition pages_ok :: "sparse_pages \<Rightarrow> bool" where
  "pages_ok sp \<longleftrightarrow> (\<forall>page. Some page \<in> set sp \<longrightarrow> length page = chunkSize)"

lemma chunkSize_pos [simp]: "0 < chunkSize"
  by (simp add: chunkSize_def)

lemma offset_less [simp]: "offset_of i < chunkSize"
  by (simp add: offset_of_def)

lemma page_offset_inj: "page_of i = page_of j \<Longrightarrow> offset_of i = offset_of j \<Longrightarrow> i = j"
  unfolding page_of_def offset_of_def by (metis div_mult_mod_eq word_unat_eq_iff)

lemma pages_okD: "pages_ok sp \<Longrightarrow> p < length sp \<Longrightarrow> sp ! p = Some page \<Longrightarrow> length page = chunkSize"
  unfolding pages_ok_def by (metis nth_mem)

lemma pages_ok_update:
  "pages_ok sp \<Longrightarrow> (\<And>pg. q = Some pg \<Longrightarrow> length pg = chunkSize) \<Longrightarrow> pages_ok (sp[p := q])"
  unfolding pages_ok_def by (auto dest!: set_update_subset_insert [THEN subsetD])

lemma pages_ok_ensure: "pages_ok sp \<Longrightarrow> pages_ok (sparse_ensure sp i)"
proof -
  assume ok: "pages_ok sp"
  let ?sp = "if page_of i \<ge> length sp then sp @ replicate (page_of i + 1 - length sp) None else sp"
  from ok have "pages_ok ?sp" by (auto simp: pages_ok_def)
  then show ?thesis
    by (auto simp: sparse_ensure_def Let_def intro!: pages_ok_update split: option.split)
qed

lemma pages_ok_put: "pages_ok sp \<Longrightarrow> page_of i < length sp \<Longrightarrow> pages_ok (sparse_put sp i n)"
  unfolding sparse_put_def by (rule pages_ok_update) (auto dest: pages_okD)

lemma pages_ok_put_page [intro]: "pages_ok sp \<Longrightarrow> has_page sp i \<Longrightarrow> pages_ok (sparse_put sp i n)"
  by (simp add: has_page_def pages_ok_put)

lemma has_page_ensure [simp]: "has_page (sparse_ensure sp i) i"
  by (auto simp: has_page_def sparse_ensure_def Let_def nth_append split: option.splits)

lemma has_page_ensure_mono: "has_page sp j \<Longrightarrow> has_page (sparse_ensure sp i) j"
  by (auto simp: has_page_def sparse_ensure_def Let_def nth_append nth_list_update split: option.splits)

lemma has_page_put [simp]: "has_page (sparse_put sp i n) j = has_page sp j"
  by (cases "page_of i = page_of j") (auto simp: has_page_def sparse_put_def nth_list_update)

lemma sparse_get_ensure [simp]: "sparse_get (sparse_ensure sp i) j = sparse_get sp j"
  by (auto simp: sparse_get_def sparse_ensure_def Let_def nth_append nth_list_update
      split: option.splits)

lemma sparse_get_put:
  assumes "pages_ok sp" and "has_page sp i"
  shows "sparse_get (sparse_put sp i n) j = (if j = i then n else sparse_get sp j)"
proof (cases "page_of j = page_of i")
  case True
  from assms(2) obtain page where page: "page_of i < length sp" "sp ! page_of i = Some page"
    by (auto simp: has_page_def)
  with assms(1) have "length page = chunkSize" by (blast dest: pages_okD)
  with page True show ?thesis
    by (auto simp: sparse_get_def sparse_put_def nth_list_update dest: page_offset_inj)
next
  case False
  then show ?thesis
    by (auto simp: sparse_get_def sparse_put_def nth_list_update split: option.split)
qed

lemma sparse_get_has_page: "sparse_get sp i \<noteq> 0 \<Longrightarrow> has_page sp i"
  by (auto simp: sparse_get_def has_page_def split: if_splits option.splits)

subsection \<open>ComponentStore: Set, Get, Delete\<close>

record 'a store =
  dense :: "entity list"
  sparse :: sparse_pages
  vals :: "'a list"

definition empty_store :: "'a store" where
  "empty_store = \<lparr>dense = [], sparse = [], vals = []\<rparr>"

text \<open>The test \<open>idx != 0 && idx-1 < len(s.dense) && s.dense[idx-1] == id\<close> that all three share.\<close>

definition slot_hit :: "'a store \<Rightarrow> nat \<Rightarrow> entity \<Rightarrow> bool" where
  "slot_hit s idx e \<longleftrightarrow> idx \<noteq> 0 \<and> idx - 1 < length (dense s) \<and> dense s ! (idx - 1) = e"

definition store_get :: "'a store \<Rightarrow> entity \<Rightarrow> 'a option" where
  "store_get s e =
     (let idx = sparse_get (sparse s) (EntityIndex e)
      in if slot_hit s idx e then Some (vals s ! (idx - 1)) else None)"

definition store_set :: "entity \<Rightarrow> 'a \<Rightarrow> 'a store \<Rightarrow> 'a store" where
  "store_set e v s =
     (let i = EntityIndex e;
          sp = sparse_ensure (sparse s) i;
          idx = sparse_get sp i
      in if slot_hit s idx e
         then s\<lparr>sparse := sp, vals := (vals s)[idx - 1 := v]\<rparr>
         else s\<lparr>sparse := sparse_put sp i (length (dense s) + 1),
                dense := dense s @ [e],
                vals := vals s @ [v]\<rparr>)"

text \<open>
  \<open>Delete\<close> moves the last entry into the gap. Its two slot assignments go to pages that exist: under
  the invariant below both slots are non-zero (lemma \<open>sparse_get_has_page\<close>).
\<close>

definition store_delete :: "entity \<Rightarrow> 'a store \<Rightarrow> 'a store" where
  "store_delete e s =
     (let i = EntityIndex e;
          idx = sparse_get (sparse s) i
      in if \<not> slot_hit s idx e then s
         else let actualIdx = idx - 1;
                  lastIdx = length (dense s) - 1;
                  s1 = (if actualIdx \<noteq> lastIdx
                        then let lastEntity = dense s ! lastIdx
                             in s\<lparr>dense := (dense s)[actualIdx := lastEntity],
                                  vals := (vals s)[actualIdx := vals s ! lastIdx],
                                  sparse := sparse_put (sparse s) (EntityIndex lastEntity) (actualIdx + 1)\<rparr>
                        else s)
              in s1\<lparr>sparse := sparse_put (sparse s1) i 0,
                    dense := take lastIdx (dense s1),
                    vals := take lastIdx (vals s1)\<rparr>)"

definition store_ok :: "'a store \<Rightarrow> bool" where
  "store_ok s \<longleftrightarrow>
     length (vals s) = length (dense s) \<and> pages_ok (sparse s) \<and>
     (\<forall>k < length (dense s). sparse_get (sparse s) (EntityIndex (dense s ! k)) = Suc k)"

text \<open>
  An entity may enter a store when no other entity of the same index is in it: the generation
  discipline of \<open>NewEntity\<close> and \<open>RemoveEntity\<close> that the code states in comments.
\<close>

definition fits :: "entity set \<Rightarrow> entity \<Rightarrow> bool" where
  "fits K e \<longleftrightarrow> (\<forall>k \<in> K. EntityIndex k = EntityIndex e \<longrightarrow> k = e)"

lemma store_ok_empty [simp]: "store_ok empty_store"
  by (simp add: store_ok_def empty_store_def pages_ok_def)

lemma store_okD:
  assumes "store_ok s"
  shows "length (vals s) = length (dense s)" "pages_ok (sparse s)"
    and "k < length (dense s) \<Longrightarrow> sparse_get (sparse s) (EntityIndex (dense s ! k)) = Suc k"
  using assms by (auto simp: store_ok_def)

lemma dense_index_inj:
  "store_ok s \<Longrightarrow> j < length (dense s) \<Longrightarrow> k < length (dense s) \<Longrightarrow>
   EntityIndex (dense s ! j) = EntityIndex (dense s ! k) \<Longrightarrow> j = k"
  by (metis nat.inject store_okD(3))

lemma dense_distinct: "store_ok s \<Longrightarrow> distinct (dense s)"
  by (auto simp: distinct_conv_nth dest: dense_index_inj)

lemma slot_hit_dense: "store_ok s \<Longrightarrow> k < length (dense s) \<Longrightarrow> slot_hit s (sparse_get (sparse s) (EntityIndex (dense s ! k))) (dense s ! k)"
  by (simp add: slot_hit_def store_okD(3))

lemma store_get_map_of: "store_ok s \<Longrightarrow> store_get s = map_of (zip (dense s) (vals s))"
proof (rule ext)
  fix e
  assume ok: "store_ok s"
  note len = store_okD(1) [OF ok]
  show "store_get s e = map_of (zip (dense s) (vals s)) e"
  proof (cases "e \<in> set (dense s)")
    case True
    then obtain k where k: "k < length (dense s)" "dense s ! k = e" by (auto simp: in_set_conv_nth)
    with ok have "store_get s e = Some (vals s ! k)"
      by (auto simp: store_get_def slot_hit_def store_okD(3) [OF ok k(1), unfolded k(2)])
    moreover have "map_of (zip (dense s) (vals s)) e = Some (vals s ! k)"
      using k len dense_distinct [OF ok]
      by (intro map_of_is_SomeI) (auto simp: in_set_zip intro!: exI [of _ k])
    ultimately show ?thesis by simp
  next
    case False
    then have "\<not> slot_hit s (sparse_get (sparse s) (EntityIndex e)) e"
      by (auto simp: slot_hit_def dest: nth_mem)
    then have "store_get s e = None" by (simp add: store_get_def)
    moreover have "map_of (zip (dense s) (vals s)) e = None"
      using False len by (simp add: map_of_zip_is_None)
    ultimately show ?thesis by simp
  qed
qed

lemma dom_store_get: "store_ok s \<Longrightarrow> dom (store_get s) = set (dense s)"
  by (simp add: store_get_map_of store_okD(1))

lemma index_inj_on_dom: "store_ok s \<Longrightarrow> inj_on EntityIndex (dom (store_get s))"
  by (auto simp: inj_on_def dom_store_get in_set_conv_nth dest: dense_index_inj)

subsection \<open>The sparse set is a map\<close>

lemma store_set_hit:
  assumes ok: "store_ok s" and hit: "e \<in> set (dense s)"
  shows "store_ok (store_set e v s) \<and> store_get (store_set e v s) = (store_get s)(e \<mapsto> v)"
proof -
  from hit obtain k where k: "k < length (dense s)" "dense s ! k = e" by (auto simp: in_set_conv_nth)
  from ok k have slot: "sparse_get (sparse s) (EntityIndex e) = Suc k" by (auto dest: store_okD(3))
  define s' where "s' = s\<lparr>sparse := sparse_ensure (sparse s) (EntityIndex e), vals := (vals s)[k := v]\<rparr>"
  have eq: "store_set e v s = s'"
    using slot k by (simp add: store_set_def slot_hit_def s'_def Let_def)
  have ok': "store_ok s'"
    using ok by (auto simp: s'_def store_ok_def intro: pages_ok_ensure)
  have "store_get s' = map_of (zip (dense s) ((vals s)[k := v]))"
    using store_get_map_of [OF ok'] by (simp add: s'_def)
  also have "\<dots> = (map_of (zip (dense s) (vals s)))(e \<mapsto> v)"
    using map_of_zip_update_nth [of "dense s" "vals s" k v] dense_distinct [OF ok] k store_okD(1) [OF ok]
    by simp
  finally show ?thesis
    using ok' eq store_get_map_of [OF ok] by simp
qed

lemma store_set_miss:
  assumes ok: "store_ok s" and miss: "e \<notin> set (dense s)" and fit: "fits (set (dense s)) e"
  shows "store_ok (store_set e v s) \<and> store_get (store_set e v s) = (store_get s)(e \<mapsto> v)"
proof -
  let ?i = "EntityIndex e"
  define sp where "sp = sparse_put (sparse_ensure (sparse s) ?i) ?i (length (dense s) + 1)"
  define s' where "s' = s\<lparr>sparse := sp, dense := dense s @ [e], vals := vals s @ [v]\<rparr>"
  have "\<not> slot_hit s (sparse_get (sparse s) ?i) e"
    using miss nth_mem by (fastforce simp: slot_hit_def)
  then have eq: "store_set e v s = s'"
    by (simp add: store_set_def s'_def sp_def Let_def)
  have pages: "pages_ok (sparse_ensure (sparse s) ?i)"
    using store_okD(2) [OF ok] by (rule pages_ok_ensure)
  have at: "sparse_get sp j = (if j = ?i then Suc (length (dense s)) else sparse_get (sparse s) j)" for j
    unfolding sp_def using sparse_get_put [OF pages has_page_ensure] by simp
  have other: "EntityIndex (dense s ! k) \<noteq> ?i" if "k < length (dense s)" for k
    using that fit miss nth_mem [OF that] by (auto simp: fits_def)
  have ok': "store_ok s'"
    unfolding store_ok_def
  proof (intro conjI allI impI)
    show "length (vals s') = length (dense s')" using store_okD(1) [OF ok] by (simp add: s'_def)
    show "pages_ok (sparse s')"
      unfolding s'_def sp_def using pages by (simp add: pages_ok_put_page)
    fix k assume "k < length (dense s')"
    then show "sparse_get (sparse s') (EntityIndex (dense s' ! k)) = Suc k"
      using at other store_okD(3) [OF ok] by (auto simp: s'_def nth_append less_Suc_eq)
  qed
  have "store_get s' = map_of (zip (dense s @ [e]) (vals s @ [v]))"
    using store_get_map_of [OF ok'] by (simp add: s'_def)
  also have "\<dots> = (map_of (zip (dense s) (vals s)))(e \<mapsto> v)"
  proof -
    have "map_of (zip (dense s) (vals s)) e = None"
      using miss store_okD(1) [OF ok] by (simp add: map_of_zip_is_None)
    then have "[e \<mapsto> v] ++ map_of (zip (dense s) (vals s)) = (map_of (zip (dense s) (vals s)))(e \<mapsto> v)"
      by (auto simp: fun_eq_iff map_add_def split: option.split)
    then show ?thesis using store_okD(1) [OF ok] by simp
  qed
  finally show ?thesis
    using ok' eq store_get_map_of [OF ok] by simp
qed

lemma store_set_refines:
  assumes "store_ok s" and "fits (dom (store_get s)) e"
  shows "store_ok (store_set e v s)" and "store_get (store_set e v s) = (store_get s)(e \<mapsto> v)"
  using assms store_set_hit [of s e v] store_set_miss [of s e v] dom_store_get [of s] by metis+

lemma store_delete_miss:
  "store_ok s \<Longrightarrow> e \<notin> set (dense s) \<Longrightarrow> store_delete e s = s"
  using nth_mem by (fastforce simp: store_delete_def slot_hit_def Let_def)

lemma store_delete_hit:
  assumes ok: "store_ok s" and k: "k < length (dense s)" and e: "dense s ! k = e"
  shows "store_ok (store_delete e s)" and "dense (store_delete e s) = swap_remove k (dense s)"
    and "vals (store_delete e s) = swap_remove k (vals s)"
proof -
  let ?i = "EntityIndex e" and ?n = "length (dense s) - 1"
  define le where "le = dense s ! ?n"
  define sp1 where "sp1 = (if k \<noteq> ?n then sparse_put (sparse s) (EntityIndex le) (k + 1) else sparse s)"
  define s' where "s' = s\<lparr>sparse := sparse_put sp1 ?i 0, dense := swap_remove k (dense s),
                         vals := swap_remove k (vals s)\<rparr>"
  note len = store_okD(1) [OF ok] and pages = store_okD(2) [OF ok] and slots = store_okD(3) [OF ok]
  have slot: "sparse_get (sparse s) ?i = Suc k" using slots [OF k] e by simp
  have eq: "store_delete e s = s'"
    using slot k e len
    by (auto simp: store_delete_def slot_hit_def s'_def sp1_def le_def swap_remove_def Let_def)
  have nlt: "?n < length (dense s)" using k by simp
  have page_le: "has_page (sparse s) (EntityIndex le)" and page_i: "has_page (sparse s) ?i"
    using slots [OF nlt] slot by (auto simp: le_def intro!: sparse_get_has_page)
  then have pages1: "pages_ok sp1" and page1: "has_page sp1 ?i"
    using pages by (auto simp: sp1_def)
  have at: "sparse_get (sparse_put sp1 ?i 0) j =
      (if j = ?i then 0 else if k \<noteq> ?n \<and> j = EntityIndex le then Suc k else sparse_get (sparse s) j)" for j
    unfolding sparse_get_put [OF pages1 page1] by (simp add: sp1_def sparse_get_put [OF pages page_le])
  have "sparse_get (sparse s') (EntityIndex (dense s' ! m)) = Suc m" if "m < length (dense s')" for m
  proof -
    from that have m: "m < ?n" by (simp add: s'_def)
    then have at_m: "dense s' ! m = (if m = k then le else dense s ! m)"
      by (simp add: s'_def nth_swap_remove le_def)
    show ?thesis
    proof (cases "m = k")
      case True
      with m have "EntityIndex le \<noteq> ?i"
        using dense_index_inj [OF ok nlt k] e by (auto simp: le_def)
      with True m at at_m show ?thesis by (simp add: s'_def)
    next
      case False
      have ml: "m < length (dense s)" and mn: "m \<noteq> ?n" using m by linarith+
      have "EntityIndex (dense s ! m) \<noteq> ?i" "EntityIndex (dense s ! m) \<noteq> EntityIndex le"
        using dense_index_inj [OF ok ml k] dense_index_inj [OF ok ml nlt] False mn e by (auto simp: le_def)
      with False m at at_m slots [OF ml] show ?thesis by (simp add: s'_def)
    qed
  qed
  moreover have "pages_ok (sparse s')"
    using pages1 page1 by (auto simp: s'_def)
  ultimately show "store_ok (store_delete e s)"
    using len by (simp add: eq store_ok_def) (simp add: s'_def)
  show "dense (store_delete e s) = swap_remove k (dense s)" and "vals (store_delete e s) = swap_remove k (vals s)"
    by (simp_all add: eq s'_def)
qed

lemma store_delete_refines:
  assumes ok: "store_ok s"
  shows "store_ok (store_delete e s)" and "store_get (store_delete e s) = (store_get s)(e := None)"
proof -
  have "store_ok (store_delete e s) \<and> store_get (store_delete e s) = (store_get s)(e := None)"
  proof (cases "e \<in> set (dense s)")
    case False
    then show ?thesis
      using store_delete_miss [OF ok False] ok dom_store_get [OF ok] by (auto simp: fun_eq_iff domIff)
  next
    case True
    then obtain k where k: "k < length (dense s)" "dense s ! k = e" by (auto simp: in_set_conv_nth)
    let ?xs = "zip (dense s) (vals s)"
    note del = store_delete_hit [OF ok k] and len = store_okD(1) [OF ok]
    have zip': "zip (dense (store_delete e s)) (vals (store_delete e s)) = swap_remove k ?xs"
      using del len k(1) by (simp add: zip_swap_remove)
    have dist: "distinct (map fst ?xs)" using dense_distinct [OF ok] len by simp
    have "store_get (store_delete e s) = map_of (swap_remove k ?xs)"
      using store_get_map_of [OF del(1)] zip' by simp
    also have "\<dots> = (map_of ?xs)(e := None)"
    proof (rule map_of_removed [where b = "vals s ! k", OF dist])
      show "distinct (map fst (swap_remove k ?xs))"
        using dense_distinct [OF del(1)] store_okD(1) [OF del(1)] by (simp flip: zip')
      show "set (swap_remove k ?xs) = set ?xs - {(e, vals s ! k)}"
        using set_swap_remove [OF distinct_zipI1, of "dense s" k "vals s"] dense_distinct [OF ok] k len by simp
      show "(e, vals s ! k) \<in> set ?xs" using k len by (auto simp: in_set_zip)
    qed
    finally show ?thesis using del(1) store_get_map_of [OF ok] by simp
  qed
  then show "store_ok (store_delete e s)" and "store_get (store_delete e s) = (store_get s)(e := None)"
    by auto
qed

subsection \<open>The contract of a component store\<close>

datatype 'v store_op = Put entity 'v | Del entity

fun run_ops :: "(entity \<Rightarrow> 'v \<Rightarrow> 's \<Rightarrow> 's) \<Rightarrow> (entity \<Rightarrow> 's \<Rightarrow> 's) \<Rightarrow> 'v store_op list \<Rightarrow> 's \<Rightarrow> 's" where
  "run_ops put del [] s = s"
| "run_ops put del (Put e v # ops) s = run_ops put del ops (put e v s)"
| "run_ops put del (Del e # ops) s = run_ops put del ops (del e s)"

fun ops_map :: "'v store_op list \<Rightarrow> (entity \<rightharpoonup> 'v) \<Rightarrow> (entity \<rightharpoonup> 'v)" where
  "ops_map [] m = m"
| "ops_map (Put e v # ops) m = ops_map ops (m(e \<mapsto> v))"
| "ops_map (Del e # ops) m = ops_map ops (m(e := None))"

fun ops_legal :: "(entity \<rightharpoonup> 'v) \<Rightarrow> 'v store_op list \<Rightarrow> bool" where
  "ops_legal m [] = True"
| "ops_legal m (Put e v # ops) = (fits (dom m) e \<and> ops_legal (m(e \<mapsto> v)) ops)"
| "ops_legal m (Del e # ops) = ops_legal (m(e := None)) ops"

text \<open>
  What the systems of the server use of a store: looking up what was stored, frame conditions for all
  other entities, and that the index discipline makes every operation legal. \<open>get\<close> is the
  abstraction to a map.
\<close>

locale component_store =
  fixes get :: "'s \<Rightarrow> entity \<Rightarrow> 'v option"
    and put :: "entity \<Rightarrow> 'v \<Rightarrow> 's \<Rightarrow> 's"
    and del :: "entity \<Rightarrow> 's \<Rightarrow> 's"
    and ok :: "'s \<Rightarrow> bool"
  assumes get_put: "ok s \<Longrightarrow> fits (dom (get s)) e \<Longrightarrow> get (put e v s) = (get s)(e \<mapsto> v)"
    and ok_put: "ok s \<Longrightarrow> fits (dom (get s)) e \<Longrightarrow> ok (put e v s)"
    and get_del: "ok s \<Longrightarrow> get (del e s) = (get s)(e := None)"
    and ok_del: "ok s \<Longrightarrow> ok (del e s)"
    and index_inj: "ok s \<Longrightarrow> inj_on EntityIndex (dom (get s))"
begin

lemma fits_stored: "ok s \<Longrightarrow> get s e = Some v \<Longrightarrow> fits (dom (get s)) e"
  using index_inj [of s] by (auto simp: fits_def inj_on_def)

text \<open>Copy, modify, overwrite: the write policy the code prescribes for all systems.\<close>

lemma overwrite:
  assumes "ok s" and "get s e = Some v"
  shows "ok (put e v' s)" and "get (put e v' s) = (get s)(e \<mapsto> v')"
    and "dom (get (put e v' s)) = dom (get s)"
  using assms fits_stored [OF assms] by (auto simp: get_put ok_put)

text \<open>A sequence of legal operations on the store is the same sequence on the map.\<close>

lemma run_refines:
  assumes "ok s" and "ops_legal (get s) ops"
  shows "ok (run_ops put del ops s)" and "get (run_ops put del ops s) = ops_map ops (get s)"
  using assms by (induction ops "get s" arbitrary: s rule: ops_map.induct)
    (auto simp: get_put ok_put get_del ok_del)

end

interpretation cstore: component_store store_get store_set store_delete store_ok
  by unfold_locales (simp_all add: store_set_refines store_delete_refines index_inj_on_dom)

subsection \<open>Properties\<close>

text \<open>
  C3 Any sequence of \<open>Set\<close> and \<open>Delete\<close> on an empty store in which no entity is set while another
  generation of its index is stored leaves a store whose \<open>Get\<close> is the map the sequence describes, and
  whose sparse array, dense array and values agree.
\<close>

theorem store_sequences_refine:
  assumes "ops_legal Map.empty ops"
  shows "store_get (run_ops store_set store_delete ops empty_store) = ops_map ops Map.empty \<and>
    store_ok (run_ops store_set store_delete ops empty_store)"
proof -
  have emp: "store_get empty_store = Map.empty"
    by (simp add: fun_eq_iff store_get_def empty_store_def sparse_get_def slot_hit_def)
  from cstore.run_refines [OF store_ok_empty, of ops] assms show ?thesis by (simp add: emp)
qed

theorem store_sequences_refine_witness:
  "store_get (run_ops store_set store_delete
     [Put (mk_entity 3 1) ''a'', Put (mk_entity 5 1) ''b'', Del (mk_entity 3 1), Put (mk_entity 3 2) ''c''] empty_store) =
   [mk_entity 5 1 \<mapsto> ''b'', mk_entity 3 2 \<mapsto> ''c'']"
  using store_sequences_refine
    [of "[Put (mk_entity 3 1) ''a'', Put (mk_entity 5 1) ''b'', Del (mk_entity 3 1), Put (mk_entity 3 2) ''c'']"]
  by (simp add: fits_def fun_upd_twist fun_eq_iff)

text \<open>
  The discipline is needed: storing a second generation of an index leaves the first one unreachable
  in the dense array.
\<close>

lemma stale_set_loses_entity:
  "store_get (store_set (mk_entity 3 2) ''new'' (store_set (mk_entity 3 1) ''old'' empty_store)) (mk_entity 3 1) = None"
  by (simp add: store_get_def store_set_def slot_hit_def empty_store_def sparse_get_def sparse_ensure_def sparse_put_def
      page_of_def offset_of_def chunkSize_def Let_def nth_append)

end
