(* ===== verification/Ecs_Ids.thy ===== *)
theory Ecs_Ids
  imports Ecs_Store
begin

text \<open>
  Identifier allocation of \<open>server/ecs/ecs.go\<close>: the counter of a registry, the freelist of destroyed
  entities, and the loops \<open>Range\<close> and \<open>RangeMutate\<close> over a store. The steps of an allocator whose
  clients free only live entities form the relation \<open>id_reach\<close>; in every reachable state an
  allocated identifier is one that was never issued before and fits a store of the live entities.
  The last section shows what happens when an entity is freed twice, which \<open>RemoveEntity\<close> allows.
\<close>

subsection \<open>NewEntity and the freelist\<close>

record id_state =
  nextID :: u64
  recycled :: "entity list"

definition init_ids :: id_state where
  "init_ids = \<lparr>nextID = 0, recycled = []\<rparr>"

definition recycleEntityID :: "entity \<Rightarrow> id_state \<Rightarrow> id_state" where
  "recycleEntityID e s = s\<lparr>recycled := recycled s @ [e]\<rparr>"

definition PopRecycledEntityID :: "id_state \<Rightarrow> entity \<times> id_state" where
  "PopRecycledEntityID s =
     (if length (recycled s) = 0 then (0, s)
      else let last = length (recycled s) - 1;
               e = recycled s ! last;
               s' = s\<lparr>recycled := take last (recycled s)\<rparr>;
               gen = EntityGeneration e + 1;
               idx = EntityIndex e
           in (mk_entity idx gen, s'))"

definition NewEntity :: "id_state \<Rightarrow> entity \<times> id_state" where
  "NewEntity s =
     (let (r, s1) = PopRecycledEntityID s
      in if r \<noteq> 0 then (r, s1)
         else let index = nextID s1 + 1
              in (index OR push_bit 32 1, s1\<lparr>nextID := index\<rparr>))"

definition RecycledEntityCount :: "id_state \<Rightarrow> nat" where
  "RecycledEntityCount s = length (recycled s)"

text \<open>\<open>World.AllocateEntityID\<close> (\<open>server/world/partition.go\<close>): the same freelist, a second counter.\<close>

definition AllocateEntityID :: "id_state \<Rightarrow> entity \<times> id_state" where
  "AllocateEntityID s =
     (let (r, s1) = PopRecycledEntityID s
      in if r \<noteq> 0 then (r, s1) else (nextID s1 + 1, s1\<lparr>nextID := nextID s1 + 1\<rparr>))"

lemma Pop_empty: "recycled s = [] \<Longrightarrow> PopRecycledEntityID s = (0, s)"
  by (simp add: PopRecycledEntityID_def)

lemma Pop_snoc: "recycled s = xs @ [e] \<Longrightarrow>
  PopRecycledEntityID s = (mk_entity (EntityIndex e) (EntityGeneration e + 1), s\<lparr>recycled := xs\<rparr>)"
  by (simp add: PopRecycledEntityID_def)

lemma mk_entity_zero: "mk_entity i g = 0 \<longleftrightarrow> i = 0 \<and> g = 0"
  by (metis EntityGeneration_def EntityGeneration_mk EntityIndex_def EntityIndex_mk drop_bit_of_0
      mk_entity_eq_iff mk_entity_parts unsigned_0)

text \<open>A fresh identifier has generation 1, as long as the counter is below \<open>2^32\<close>.\<close>

lemma ucast_u32_id: "idx < 2 ^ 32 \<Longrightarrow> ucast (ucast (idx :: u64) :: u32) = idx"
proof -
  assume "idx < 2 ^ 32"
  then have "uint idx < 2 ^ 32" by (simp add: word_less_def)
  then have "uint (ucast (ucast idx :: u32) :: u64) = uint idx"
    by (simp add: unsigned_ucast_eq unsigned_take_bit_eq take_bit_int_eq_self)
  then show ?thesis by (simp only: word_uint_eq_iff)
qed

lemma fresh_entity: "idx < 2 ^ 32 \<Longrightarrow> idx OR push_bit 32 1 = mk_entity (ucast (idx :: u64)) 1"
  by (simp add: mk_entity_def ucast_u32_id)

subsection \<open>Identifiers are never issued twice\<close>

text \<open>
  The allocator with the discipline its clients should follow: only live entities are freed. \<open>L\<close> is
  the set of live entities and \<open>I\<close> the set of all identifiers issued so far. The counters are below
  their limits: \<open>2^32 - 1\<close> fresh identifiers, and \<open>2^32 - 2\<close> reuses of one index.
\<close>

definition ids_room :: "id_state \<Rightarrow> bool" where
  "ids_room s \<longleftrightarrow> nextID s < 2 ^ 32 - 1 \<and> (\<forall>r \<in> set (recycled s). EntityGeneration r < 2 ^ 32 - 1)"

inductive id_reach :: "id_state \<Rightarrow> entity set \<Rightarrow> entity set \<Rightarrow> bool" where
  start: "id_reach init_ids {} {}"
| alloc: "id_reach s L I \<Longrightarrow> ids_room s \<Longrightarrow> NewEntity s = (e, s') \<Longrightarrow> id_reach s' (insert e L) (insert e I)"
| free: "id_reach s L I \<Longrightarrow> e \<in> L \<Longrightarrow> id_reach (recycleEntityID e s) (L - {e}) I"

inductive_cases id_reach_startE: "id_reach s {} {}"

text \<open>
  The invariant: the entities that hold an index (live, or waiting in the freelist) have distinct
  indices between 1 and the counter, and every identifier ever issued is at most as old as the holder
  of its index.
\<close>

definition ids_inv :: "id_state \<Rightarrow> entity set \<Rightarrow> entity set \<Rightarrow> bool" where
  "ids_inv s L I \<longleftrightarrow>
     inj_on EntityIndex (L \<union> set (recycled s)) \<and> distinct (recycled s) \<and> L \<inter> set (recycled s) = {} \<and>
     L \<union> set (recycled s) \<subseteq> I \<and>
     nextID s < 2 ^ 32 \<and>
     (\<forall>x \<in> I. EntityIndex x \<noteq> 0 \<and> (ucast (EntityIndex x) :: u64) \<le> nextID s \<and>
        (\<exists>h \<in> L \<union> set (recycled s). EntityIndex h = EntityIndex x \<and> EntityGeneration x \<le> EntityGeneration h))"

lemma NewEntity_fresh:
  assumes "recycled s = []" and "nextID s < 2 ^ 32 - 1"
  shows "NewEntity s = (mk_entity (ucast (nextID s + 1)) 1, s\<lparr>nextID := nextID s + 1\<rparr>)"
proof -
  have "nextID s + 1 < 2 ^ 32" using u64_succ_less [OF assms(2)] by blast
  with assms(1) show ?thesis
    by (simp add: NewEntity_def Pop_empty Let_def fresh_entity del: push_bit_of_1)
qed

lemma NewEntity_recycled:
  assumes "recycled s = xs @ [r]" and "EntityIndex r \<noteq> 0"
  shows "NewEntity s = (mk_entity (EntityIndex r) (EntityGeneration r + 1), s\<lparr>recycled := xs\<rparr>)"
  using assms by (simp add: NewEntity_def Pop_snoc [OF assms(1)] mk_entity_zero)

lemma ids_inv_init: "ids_inv init_ids {} {}"
  by (simp add: ids_inv_def init_ids_def)

lemma ids_inv_free: "ids_inv s L I \<Longrightarrow> e \<in> L \<Longrightarrow> ids_inv (recycleEntityID e s) (L - {e}) I"
proof -
  assume inv: "ids_inv s L I" and e: "e \<in> L"
  have "L - {e} \<union> set (recycled (recycleEntityID e s)) = L \<union> set (recycled s)"
    using e by (auto simp: recycleEntityID_def)
  with inv e show ?thesis
    by (auto simp: ids_inv_def recycleEntityID_def)
qed

lemma ids_inv_fresh:
  assumes inv: "ids_inv s L I" and emp: "recycled s = []" and room: "nextID s < 2 ^ 32 - 1"
  defines "e \<equiv> mk_entity (ucast (nextID s + 1)) 1"
  shows "ids_inv (s\<lparr>nextID := nextID s + 1\<rparr>) (insert e L) (insert e I) \<and> e \<notin> I \<and> fits L e \<and> EntityIndex e \<noteq> 0"
proof -
  let ?n = "nextID s + 1"
  have n: "?n < 2 ^ 32" "nextID s < ?n" "?n \<noteq> 0" using u64_succ_less [OF room] by blast+
  have up: "(ucast (ucast ?n :: u32) :: u64) = ?n"
    using n(1) by (rule ucast_u32_id)
  have idx: "EntityIndex e = ucast ?n" by (simp add: e_def)
  have ne0: "EntityIndex e \<noteq> 0" using up n(3) idx by (metis unsigned_0)
  have inj: "inj_on EntityIndex L" and LI: "L \<subseteq> I"
    and dom: "\<And>x. x \<in> I \<Longrightarrow> EntityIndex x \<noteq> 0 \<and> (ucast (EntityIndex x) :: u64) \<le> nextID s"
    and hold: "\<And>x. x \<in> I \<Longrightarrow> \<exists>h \<in> L. EntityIndex h = EntityIndex x \<and> EntityGeneration x \<le> EntityGeneration h"
    using inv emp by (auto simp: ids_inv_def)
  have other: "EntityIndex x \<noteq> EntityIndex e" if "x \<in> I" for x
    using dom [OF that] idx up n(2) by auto
  have new: "e \<notin> I" using other by blast
  have dom': "EntityIndex x \<noteq> 0 \<and> (ucast (EntityIndex x) :: u64) \<le> ?n" if "x \<in> insert e I" for x
    using that dom [of x] ne0 up idx n(2) by auto
  have inj': "inj_on EntityIndex (insert e L)"
    using inj other LI by (intro inj_on_insert_new) auto
  have "ids_inv (s\<lparr>nextID := ?n\<rparr>) (insert e L) (insert e I)"
    unfolding ids_inv_def using inj' LI dom' n(1) hold emp by auto
  then show ?thesis using new other LI ne0 by (auto simp: fits_def)
qed

lemma ids_inv_recycled:
  assumes inv: "ids_inv s L I" and rs: "recycled s = xs @ [r]" and room: "EntityGeneration r < 2 ^ 32 - 1"
  defines "e \<equiv> mk_entity (EntityIndex r) (EntityGeneration r + 1)"
  shows "ids_inv (s\<lparr>recycled := xs\<rparr>) (insert e L) (insert e I) \<and> e \<notin> I \<and> fits L e \<and> EntityIndex e \<noteq> 0"
proof -
  let ?H = "L \<union> set (recycled s)" and ?H' = "insert e L \<union> set xs"
  have inj: "inj_on EntityIndex ?H" and dist: "distinct (recycled s)" and dis: "L \<inter> set (recycled s) = {}"
    and sub: "?H \<subseteq> I" and dom: "\<And>x. x \<in> I \<Longrightarrow> EntityIndex x \<noteq> 0 \<and> (ucast (EntityIndex x) :: u64) \<le> nextID s"
    and hold: "\<And>x. x \<in> I \<Longrightarrow> \<exists>h \<in> ?H. EntityIndex h = EntityIndex x \<and> EntityGeneration x \<le> EntityGeneration h"
    using inv by (auto simp: ids_inv_def)
  have r: "r \<in> ?H" "r \<in> I" using rs sub by auto
  have gt: "EntityGeneration r < EntityGeneration e" and idx: "EntityIndex e = EntityIndex r"
    using u32_less_succ [OF room] by (simp_all add: e_def)
  have holder: "h = r" if "h \<in> ?H" "EntityIndex h = EntityIndex r" for h
    using inj that r(1) by (auto dest: inj_onD)
  have new: "e \<notin> I"
  proof
    assume "e \<in> I"
    then obtain h where "h \<in> ?H" "EntityIndex h = EntityIndex e" "EntityGeneration e \<le> EntityGeneration h"
      using hold by blast
    with holder idx gt show False by (metis linorder_not_le)
  qed
  have H: "?H = insert r (L \<union> set xs)" and rx: "r \<notin> L \<union> set xs" using rs dist dis by auto
  have neq: "EntityIndex h \<noteq> EntityIndex e" if "h \<in> L \<union> set xs" for h
    using that holder [of h] rx H idx by auto
  have inj': "inj_on EntityIndex ?H'"
  proof -
    have "inj_on EntityIndex (insert e (L \<union> set xs))"
      using inj_on_subset [OF inj, of "L \<union> set xs"] neq H by (intro inj_on_insert_new) auto
    then show ?thesis by simp
  qed
  have hold': "\<exists>h \<in> ?H'. EntityIndex h = EntityIndex x \<and> EntityGeneration x \<le> EntityGeneration h"
    if "x \<in> insert e I" for x
  proof (cases "x = e")
    case False
    with that obtain h where h: "h \<in> ?H" "EntityIndex h = EntityIndex x" "EntityGeneration x \<le> EntityGeneration h"
      using hold by blast
    then show ?thesis using H idx gt by (cases "h = r") auto
  qed simp
  have "ids_inv (s\<lparr>recycled := xs\<rparr>) (insert e L) (insert e I)"
    unfolding ids_inv_def
    using inj' hold' dist dis rs sub dom r new idx inv by (auto simp: ids_inv_def)
  moreover have "fits L e" using neq by (auto simp: fits_def)
  ultimately show ?thesis using new dom r idx by auto
qed

lemma NewEntity_step:
  assumes inv: "ids_inv s L I" and room: "ids_room s" and new: "NewEntity s = (e, s')"
  shows "ids_inv s' (insert e L) (insert e I) \<and> e \<notin> I \<and> fits L e \<and> EntityIndex e \<noteq> 0"
proof (cases "recycled s" rule: rev_cases)
  case Nil
  with room new NewEntity_fresh [OF Nil] ids_inv_fresh [OF inv Nil] show ?thesis
    by (auto simp: ids_room_def)
next
  case (snoc xs r)
  with inv have "EntityIndex r \<noteq> 0" by (auto simp: ids_inv_def)
  with snoc room new NewEntity_recycled [OF snoc] ids_inv_recycled [OF inv snoc] show ?thesis
    by (auto simp: ids_room_def)
qed

lemma id_reach_inv: "id_reach s L I \<Longrightarrow> ids_inv s L I"
proof (induction rule: id_reach.induct)
  case start
  show ?case by (rule ids_inv_init)
next
  case (alloc s L I e s')
  then show ?case using NewEntity_step by blast
next
  case (free s L I e)
  then show ?case by (blast intro: ids_inv_free)
qed

text \<open>
  C4 If every freed identifier was live when it was freed (\<open>id_reach\<close>) and neither the 32-bit counter nor a
  generation is exhausted (\<open>ids_room\<close>), \<open>NewEntity\<close> returns an identifier that was never issued before, is not the
  invalid one, and whose index no live entity has, whatever allocations and frees came before. The allocator does not
  enforce the first condition and its callers do not always keep it: see \<open>double_free_duplicates\<close>, \<open>Items.pickup_race_duplicates\<close>,
  \<open>World_Maps.transfer_exact\<close> and \<open>Accounts.boot_collision\<close>.
\<close>

theorem NewEntity_unique:
  assumes "id_reach s L I" and "ids_room s" and "NewEntity s = (e, s')"
  shows "e \<notin> I \<and> fits L e \<and> e \<noteq> InvalidEntity"
  using NewEntity_step [OF id_reach_inv [OF assms(1)] assms(2,3)]
  by (auto simp: InvalidEntity_def EntityIndex_def)

theorem NewEntity_unique_witness:
  "fst (NewEntity (snd (NewEntity init_ids))) \<notin> {fst (NewEntity init_ids)}"
proof -
  obtain e s where n: "NewEntity init_ids = (e, s)" by force
  have room: "ids_room init_ids" by (simp add: ids_room_def init_ids_def)
  have r: "id_reach s {e} {e}" using id_reach.alloc [OF id_reach.start room n] by simp
  have "s = init_ids\<lparr>nextID := 1\<rparr>"
    using n NewEntity_fresh [of init_ids] by (simp add: init_ids_def)
  then have "ids_room s" by (simp add: ids_room_def init_ids_def)
  obtain e' s' where n': "NewEntity s = (e', s')" by force
  from NewEntity_unique [OF r \<open>ids_room s\<close> n'] n n' show ?thesis by simp
qed

subsection \<open>Freeing twice\<close>

text \<open>
  \<open>recycleEntityID\<close> does not look whether the identifier is in the freelist already, and
  \<open>RemoveEntity\<close> calls it for any argument. After a double free two allocations in a row return the
  same identifier.
\<close>

lemma double_free_duplicates:
  assumes "EntityIndex e \<noteq> 0"
  shows "fst (NewEntity (recycleEntityID e (recycleEntityID e s))) =
         fst (NewEntity (snd (NewEntity (recycleEntityID e (recycleEntityID e s)))))"
  using assms NewEntity_recycled [of "recycleEntityID e (recycleEntityID e s)" "recycled s @ [e]" e]
    NewEntity_recycled [of "recycleEntityID e s" "recycled s" e]
  by (simp add: recycleEntityID_def)

subsection \<open>Iteration\<close>

text \<open>
  \<open>Range\<close> walks the dense array under the read lock; the callback, a state transformer here, returns
  whether to go on. \<open>RangeMutate\<close> walks a snapshot of the dense array and looks each entity up again,
  in the state \<open>w\<close> the callbacks have produced, through the selector \<open>sel\<close> of this store.
\<close>

fun range_loop :: "(entity \<Rightarrow> 'a \<Rightarrow> 'w \<Rightarrow> bool \<times> 'w) \<Rightarrow> (entity \<times> 'a) list \<Rightarrow> 'w \<Rightarrow> 'w" where
  "range_loop f [] w = w"
| "range_loop f ((e, v) # es) w =
     (case f e v w of (go, w') \<Rightarrow> if \<not> go then w' else range_loop f es w')"

definition store_range :: "(entity \<Rightarrow> 'a \<Rightarrow> 'w \<Rightarrow> bool \<times> 'w) \<Rightarrow> 'a store \<Rightarrow> 'w \<Rightarrow> 'w" where
  "store_range f s = range_loop f (zip (dense s) (vals s))"

fun mutate_loop :: "('w \<Rightarrow> 'a store) \<Rightarrow> (entity \<Rightarrow> 'w \<Rightarrow> bool \<times> 'w) \<Rightarrow> entity list \<Rightarrow> 'w \<Rightarrow> 'w" where
  "mutate_loop sel f [] w = w"
| "mutate_loop sel f (e # es) w =
     (case store_get (sel w) e of
        None \<Rightarrow> mutate_loop sel f es w
      | Some _ \<Rightarrow> (case f e w of (go, w') \<Rightarrow> if \<not> go then w' else mutate_loop sel f es w'))"

definition store_range_mutate :: "('w \<Rightarrow> 'a store) \<Rightarrow> (entity \<Rightarrow> 'w \<Rightarrow> bool \<times> 'w) \<Rightarrow> 'w \<Rightarrow> 'w" where
  "store_range_mutate sel f w = (let count = length (dense (sel w))
     in if count = 0 then w else mutate_loop sel f (dense (sel w)) w)"

text \<open>The entries \<open>Range\<close> passes to its callback are exactly the stored ones, each once.\<close>

definition entries :: "'a store \<Rightarrow> (entity \<times> 'a) list" where
  "entries s = zip (dense s) (vals s)"

lemma set_entries: "store_ok s \<Longrightarrow> set (entries s) = {(e, v). store_get s e = Some v}"
  using dense_distinct [of s] store_okD(1) [of s]
  by (auto simp: entries_def store_get_map_of map_of_eq_Some_iff)

lemma distinct_entries: "store_ok s \<Longrightarrow> distinct (map fst (entries s))"
  using dense_distinct [of s] store_okD(1) [of s] by (simp add: entries_def)

lemma range_loop_fold:
  "(\<And>e v w. fst (f e v w)) \<Longrightarrow> range_loop f es w = fold (\<lambda>(e, v) w. snd (f e v w)) es w"
  by (induction es arbitrary: w) (auto split: prod.split, metis fst_conv)

lemma store_range_collects:
  fixes s :: "'a store"
  shows "store_range (\<lambda>e v acc. (True, acc @ [(e, v)])) s [] = entries s"
proof -
  have "range_loop (\<lambda>e v acc. (True, acc @ [(e, v)])) es acc = acc @ es"
    for es :: "(entity \<times> 'a) list" and acc
    by (induction es arbitrary: acc) auto
  then show ?thesis by (simp add: store_range_def entries_def)
qed

text \<open>An invariant of the callbacks is an invariant of the loop, and the callback sees live entities only.\<close>

lemma mutate_loop_invariant:
  assumes "P w" and "\<And>e w v. P w \<Longrightarrow> e \<in> set es \<Longrightarrow> store_get (sel w) e = Some v \<Longrightarrow> P (snd (f e w))"
  shows "P (mutate_loop sel f es w)"
  using assms
proof (induction es arbitrary: w)
  case (Cons a es)
  then have "store_get (sel w) a = Some v \<Longrightarrow> P (snd (f a w))" for v by auto
  moreover have "P w' \<Longrightarrow> P (mutate_loop sel f es w')" for w'
    using Cons.prems(2) by (intro Cons.IH) auto
  ultimately show ?case using Cons.prems(1) by (auto split: option.split prod.split)
qed simp

lemma range_loop_invariant:
  assumes "P w" and "\<And>e v w. P w \<Longrightarrow> (e, v) \<in> set es \<Longrightarrow> P (snd (f e v w))"
  shows "P (range_loop f es w)"
  using assms
proof (induction es arbitrary: w)
  case (Cons a es)
  obtain e v where a: "a = (e, v)" by force
  from Cons.prems a have "P (snd (f e v w))" by auto
  moreover have "P w' \<Longrightarrow> P (range_loop f es w')" for w'
    using Cons.prems(2) by (intro Cons.IH) auto
  ultimately show ?case using a by (auto split: prod.split)
qed simp

end
