(* ===== verification/Gmath.thy ===== *)
theory Gmath
  imports Prelude
begin

text \<open>
  \<open>server/peakgo/gmath/gmath.go\<close>: integer geometry on the (X, Z) grid. Coordinates are Go \<open>int\<close>s that stay
  far below \<open>2^31\<close>, so the squares do not overflow and the arithmetic is that of \<open>int\<close>.
\<close>

definition Abs :: "int \<Rightarrow> int" where
  "Abs v = (if v < 0 then - v else v)"

definition DistanceSq :: "int \<Rightarrow> int \<Rightarrow> int \<Rightarrow> int \<Rightarrow> int" where
  "DistanceSq ax az bx bz = (let dx = ax - bx; dz = az - bz in dx * dx + dz * dz)"

definition ManhattanDistance :: "int \<Rightarrow> int \<Rightarrow> int \<Rightarrow> int \<Rightarrow> int" where
  "ManhattanDistance ax az bx bz = Abs (ax - bx) + Abs (az - bz)"

definition InRangeInt :: "int \<Rightarrow> int \<Rightarrow> int \<Rightarrow> int \<Rightarrow> int \<Rightarrow> bool" where
  "InRangeInt ax az bx bz radius \<longleftrightarrow> DistanceSq ax az bx bz \<le> radius * radius"

definition InBounds :: "int \<Rightarrow> int \<Rightarrow> int \<Rightarrow> int \<Rightarrow> bool" where
  "InBounds x z lo hi \<longleftrightarrow> x \<ge> lo \<and> x \<le> hi \<and> z \<ge> lo \<and> z \<le> hi"

definition Clamp :: "int \<Rightarrow> int \<Rightarrow> int \<Rightarrow> int" where
  "Clamp v lo hi = (if v < lo then lo else if v > hi then hi else v)"

definition ClampPos :: "int \<Rightarrow> int \<Rightarrow> int \<Rightarrow> int \<Rightarrow> int \<times> int" where
  "ClampPos x z lo hi = (Clamp x lo hi, Clamp z lo hi)"

lemma Abs_eq [simp]: "Abs v = \<bar>v\<bar>"
  by (simp add: Abs_def)

lemma DistanceSq_sym: "DistanceSq ax az bx bz = DistanceSq bx bz ax az"
  by (simp add: DistanceSq_def Let_def algebra_simps)

lemma DistanceSq_nonneg [simp]: "0 \<le> DistanceSq ax az bx bz"
  by (simp add: DistanceSq_def Let_def)

lemma DistanceSq_zero_iff: "DistanceSq ax az bx bz = 0 \<longleftrightarrow> ax = bx \<and> az = bz"
  by (simp add: DistanceSq_def Let_def sum_squares_eq_zero_iff)

lemma DistanceSq_self [simp]: "DistanceSq x z x z = 0"
  by (simp add: DistanceSq_def)

lemma DistanceSq_axis:
  "(ax - bx) * (ax - bx) \<le> DistanceSq ax az bx bz" "(az - bz) * (az - bz) \<le> DistanceSq ax az bx bz"
  by (simp_all add: DistanceSq_def Let_def)

lemma Clamp_bounds: "lo \<le> hi \<Longrightarrow> lo \<le> Clamp v lo hi \<and> Clamp v lo hi \<le> hi"
  by (simp add: Clamp_def)

lemma Clamp_in: "lo \<le> v \<Longrightarrow> v \<le> hi \<Longrightarrow> Clamp v lo hi = v"
  by (simp add: Clamp_def)

lemma ClampPos_InBounds: "lo \<le> hi \<Longrightarrow> ClampPos x z lo hi = (x', z') \<Longrightarrow> InBounds x' z' lo hi"
  using Clamp_bounds [of lo hi x] Clamp_bounds [of lo hi z] by (simp add: ClampPos_def InBounds_def)

end
