(* ===== verification/Ecs_Position.thy ===== *)
theory Ecs_Position
  imports Ecs_Store Gmath
begin

text \<open>
  The entity categories and the position component of \<open>server/ecs/ecs.go\<close>.
\<close>

subsection \<open>Entity types\<close>

datatype EntityType = EntityAny | EntityPlayer | EntityMonster | EntityGroundItem

definition WireType :: "EntityType \<Rightarrow> u8" where
  "WireType t = (case t of EntityPlayer \<Rightarrow> 0 | EntityMonster \<Rightarrow> 1 | EntityGroundItem \<Rightarrow> 2 | EntityAny \<Rightarrow> 0)"

definition EntityType_String :: "EntityType \<Rightarrow> string" where
  "EntityType_String t = (case t of EntityPlayer \<Rightarrow> ''player'' | EntityMonster \<Rightarrow> ''monster''
     | EntityGroundItem \<Rightarrow> ''ground_item'' | EntityAny \<Rightarrow> '''')"

lemma WireType_inj: "inj_on WireType (- {EntityAny})"
  by (auto simp: inj_on_def WireType_def split: EntityType.splits)

instantiation EntityType :: linorder
begin

definition less_eq_EntityType :: "EntityType \<Rightarrow> EntityType \<Rightarrow> bool" where
  "less_eq_EntityType a b \<longleftrightarrow> (case a of EntityAny \<Rightarrow> True
     | EntityPlayer \<Rightarrow> b \<noteq> EntityAny
     | EntityMonster \<Rightarrow> b = EntityMonster \<or> b = EntityGroundItem
     | EntityGroundItem \<Rightarrow> b = EntityGroundItem)"

definition less_EntityType :: "EntityType \<Rightarrow> EntityType \<Rightarrow> bool" where
  "less_EntityType a b \<longleftrightarrow> a \<le> b \<and> a \<noteq> b"

instance
  by standard (auto simp: less_eq_EntityType_def less_EntityType_def split: EntityType.splits)

end

subsection \<open>Positions\<close>

record PositionComponent =
  MapID :: int
  PosX :: int
  PosZ :: int

definition pos_dist :: "PositionComponent \<Rightarrow> PositionComponent \<Rightarrow> int" where
  "pos_dist a b = DistanceSq (PosX a) (PosZ a) (PosX b) (PosZ b)"

lemma pos_dist_sym: "pos_dist a b = pos_dist b a"
  by (simp add: pos_dist_def DistanceSq_sym)

lemma pos_dist_nonneg [simp]: "0 \<le> pos_dist a b"
  by (simp add: pos_dist_def)

end
