(* ===== verification/Anticheat.thy ===== *)
theory Anticheat
  imports Ecs_Position
begin

text \<open>
  \<open>server/peakgo/anticheat/anticheat.go\<close>: the per-connection validator. The \<open>float64\<close> range of
  \<open>ValidateAction\<close> is an exact real.
\<close>

subsection \<open>State and operations\<close>

definition seqWindowSize :: nat where
  "seqWindowSize = 32"

record Validator =
  lastMoveTick :: u64
  lastMoveMapID :: int
  lastMoveX :: int
  lastMoveZ :: int
  seqWindow :: "u32 list"
  seqHead :: nat
  violationCount :: int

definition zero_validator :: Validator where
  "zero_validator = \<lparr>lastMoveTick = 0, lastMoveMapID = 0, lastMoveX = 0, lastMoveZ = 0,
     seqWindow = replicate seqWindowSize 0, seqHead = 0, violationCount = 0\<rparr>"

definition ValidateMovement ::
  "PositionComponent \<Rightarrow> PositionComponent \<Rightarrow> int \<Rightarrow> u64 \<Rightarrow> Validator \<Rightarrow> bool \<times> Validator" where
  "ValidateMovement pos newPos maxDistance currentTick v =
     (if \<not> InRangeInt (PosX pos) (PosZ pos) (PosX newPos) (PosZ newPos) maxDistance then (False, v)
      else (True, v\<lparr>lastMoveTick := currentTick, lastMoveMapID := MapID newPos,
                    lastMoveX := PosX newPos, lastMoveZ := PosZ newPos\<rparr>))"

definition ValidateSequence :: "u32 \<Rightarrow> Validator \<Rightarrow> bool \<times> Validator" where
  "ValidateSequence s v =
     (if s = 0 then (True, v)
      else if list_ex (\<lambda>i. seqWindow v ! i = s) [0..<seqWindowSize] then (False, v)
      else (True, v\<lparr>seqWindow := (seqWindow v)[seqHead v := s], seqHead := (seqHead v + 1) mod seqWindowSize\<rparr>))"

definition ValidateMapAction :: "PositionComponent \<Rightarrow> PositionComponent \<Rightarrow> bool" where
  "ValidateMapAction entityPos targetPos \<longleftrightarrow> MapID entityPos = MapID targetPos"

definition RecordViolation :: "Validator \<Rightarrow> Validator" where
  "RecordViolation v = v\<lparr>violationCount := violationCount v + 1\<rparr>"

definition Validator_Reset :: "Validator \<Rightarrow> Validator" where
  "Validator_Reset v = v\<lparr>lastMoveTick := 0, lastMoveMapID := 0, lastMoveX := 0, lastMoveZ := 0,
     seqHead := 0, violationCount := 0, seqWindow := map (\<lambda>_. 0) (seqWindow v)\<rparr>"

subsection \<open>The replay window\<close>

text \<open>
  \<open>hist\<close> is the sequence of accepted non-zero numbers, newest first. The circular buffer holds the
  last 32 of them: slot \<open>(seqHead - 1 - k) mod 32\<close> holds the \<open>k\<close>-th newest.
\<close>

definition window_ok :: "Validator \<Rightarrow> u32 list \<Rightarrow> bool" where
  "window_ok v hist \<longleftrightarrow> length (seqWindow v) = seqWindowSize \<and> seqHead v < seqWindowSize \<and>
     (\<forall>k < seqWindowSize. seqWindow v ! ((seqHead v + (seqWindowSize - 1 - k)) mod seqWindowSize) =
        (if k < length hist then hist ! k else 0)) \<and>
     (\<forall>x \<in> set hist. x \<noteq> 0)"

lemma window_zero: "window_ok zero_validator []"
  by (auto simp: window_ok_def zero_validator_def seqWindowSize_def)

lemma wrap32: "x < 64 \<Longrightarrow> x mod 32 = (if x < 32 then x else x - (32 :: nat))"
  by (simp add: le_mod_geq)

text \<open>Every slot is the slot of exactly one age.\<close>

lemma slot_surj:
  "i < seqWindowSize \<Longrightarrow> h < seqWindowSize \<Longrightarrow>
   \<exists>k < seqWindowSize. i = (h + (seqWindowSize - 1 - k)) mod seqWindowSize"
  by (rule exI [of _ "if i < h then h - 1 - i else h + 31 - i"])
     (auto simp: seqWindowSize_def wrap32)

lemma window_contents:
  assumes "window_ok v hist"
  shows "(\<exists>i < seqWindowSize. seqWindow v ! i = s) \<longleftrightarrow>
     (\<exists>k < seqWindowSize. s = (if k < length hist then hist ! k else 0))"
proof
  assume "\<exists>i < seqWindowSize. seqWindow v ! i = s"
  then obtain i where i: "i < seqWindowSize" "seqWindow v ! i = s" by blast
  with slot_surj [OF i(1), of "seqHead v"] assms obtain k where
    "k < seqWindowSize" "i = (seqHead v + (seqWindowSize - 1 - k)) mod seqWindowSize"
    by (auto simp: window_ok_def)
  with i assms show "\<exists>k < seqWindowSize. s = (if k < length hist then hist ! k else 0)"
    by (auto simp: window_ok_def)
next
  assume "\<exists>k < seqWindowSize. s = (if k < length hist then hist ! k else 0)"
  then obtain k where k: "k < seqWindowSize" "s = (if k < length hist then hist ! k else 0)" by blast
  then have "seqWindow v ! ((seqHead v + (seqWindowSize - 1 - k)) mod seqWindowSize) = s"
    using assms by (simp add: window_ok_def)
  then show "\<exists>i < seqWindowSize. seqWindow v ! i = s"
    by (intro exI [of _ "(seqHead v + (seqWindowSize - 1 - k)) mod seqWindowSize"]) (simp add: seqWindowSize_def)
qed

lemma window_member:
  "window_ok v hist \<Longrightarrow> s \<noteq> 0 \<Longrightarrow>
   list_ex (\<lambda>i. seqWindow v ! i = s) [0..<seqWindowSize] \<longleftrightarrow> s \<in> set (take seqWindowSize hist)"
proof -
  assume ok: "window_ok v hist" and s: "s \<noteq> 0"
  have "list_ex (\<lambda>i. seqWindow v ! i = s) [0..<seqWindowSize] \<longleftrightarrow> (\<exists>i < seqWindowSize. seqWindow v ! i = s)"
    by (auto simp: list_ex_iff)
  also have "\<dots> \<longleftrightarrow> (\<exists>k < seqWindowSize. k < length hist \<and> hist ! k = s)"
    unfolding window_contents [OF ok] using s by (metis (full_types))
  also have "\<dots> \<longleftrightarrow> s \<in> set (take seqWindowSize hist)"
    by (auto simp: in_set_conv_nth)
  finally show ?thesis .
qed

lemma window_push:
  assumes ok: "window_ok v hist" and s: "s \<noteq> 0"
  shows "window_ok (v\<lparr>seqWindow := (seqWindow v)[seqHead v := s], seqHead := (seqHead v + 1) mod seqWindowSize\<rparr>) (s # hist)"
proof -
  let ?h = "seqHead v" and ?W = "seqWindowSize"
  have W: "?W = 32" by (simp add: seqWindowSize_def)
  from ok have len: "length (seqWindow v) = ?W" and h: "?h < ?W" by (auto simp: window_ok_def)
  have "(seqWindow v)[?h := s] ! (((?h + 1) mod ?W + (?W - 1 - k)) mod ?W) =
      (if k < length (s # hist) then (s # hist) ! k else 0)" if k: "k < ?W" for k
  proof (cases k)
    case 0
    have "((?h + 1) mod ?W + (?W - 1)) mod ?W = ?h" using h unfolding W by (auto simp: wrap32)
    with 0 len h show ?thesis by simp
  next
    case (Suc j)
    have eq: "((?h + 1) mod ?W + (?W - 1 - k)) mod ?W = (?h + (?W - 1 - j)) mod ?W"
      using Suc k h unfolding W by (auto simp: wrap32)
    have "(?h + (?W - 1 - j)) mod ?W \<noteq> ?h" using Suc k h unfolding W by (auto simp: wrap32)
    with ok Suc k show ?thesis unfolding eq by (simp add: window_ok_def)
  qed
  with ok s len show ?thesis by (simp add: window_ok_def W)
qed

text \<open>A run of the check over a list of incoming numbers: the verdicts and the final state.\<close>

fun run_seq :: "u32 list \<Rightarrow> Validator \<Rightarrow> bool list \<times> Validator" where
  "run_seq [] v = ([], v)"
| "run_seq (s # ss) v =
     (case ValidateSequence s v of (b, v') \<Rightarrow> case run_seq ss v' of (bs, v'') \<Rightarrow> (b # bs, v''))"

text \<open>The specification: a non-zero number is accepted unless it is one of the last 32 accepted ones.\<close>

fun spec_seq :: "u32 list \<Rightarrow> u32 list \<Rightarrow> bool list" where
  "spec_seq [] hist = []"
| "spec_seq (s # ss) hist =
     (if s = 0 then True # spec_seq ss hist
      else if s \<in> set (take seqWindowSize hist) then False # spec_seq ss hist
      else True # spec_seq ss (s # hist))"

lemma run_seq_spec: "window_ok v hist \<Longrightarrow> fst (run_seq ss v) = spec_seq ss hist"
proof (induction ss arbitrary: v hist)
  case (Cons s ss)
  then show ?case
    using window_member [OF Cons.prems, of s] window_push [OF Cons.prems, of s]
    by (auto simp: ValidateSequence_def split: prod.split)
       (metis fst_conv Cons.IH)+
qed simp

subsection \<open>Properties\<close>

text \<open>
  From a fresh validator, the verdicts on any packet sequence are those of the specification "reject a
  non-zero number exactly when it is among the last 32 accepted ones".
\<close>

theorem ValidateSequence_refines: "fst (run_seq ss zero_validator) = spec_seq ss []"
  by (rule run_seq_spec [OF window_zero])

text \<open>A number seen more than 32 accepted packets ago is accepted again.\<close>

lemma old_replay_accepted:
  "fst (run_seq ([7] @ map word_of_nat [100..<132] @ [7]) zero_validator) = replicate 34 True"
  by code_simp

text \<open>
  The speed check looks at one packet at a time: the tick is stored and never compared, so any number of
  moves within \<open>maxDistance\<close> passes in one tick.
\<close>

lemma ValidateMovement_memoryless:
  "fst (ValidateMovement a b d t v) = fst (ValidateMovement a b d t' v')"
  by (simp add: ValidateMovement_def)

end
