(* ===== verification/Connwriter.thy ===== *)
theory Connwriter
  imports Prelude
begin

text \<open>
  \<open>server/peakgo/connwriter/connwriter.go\<close>: the outbound queue of a connection. The game tick calls
  \<open>Send\<close>, which never blocks; a goroutine drains the queue into the socket. The goroutine's loop body
  and the atomic steps of the callers are the steps of a transition relation; which of them runs next is free.
  A frame is a byte list, the shutdown sentinel is \<open>None\<close>. The socket is a parameter: \<open>write_ok\<close> says
  whether \<open>netio.WritePacket\<close> succeeded in the step. The global counters of all writers are left out.
\<close>

subsection \<open>State\<close>

text \<open>
  \<open>w_admitted\<close> and \<open>w_uncounted\<close> count the callers inside \<open>Send\<close>: those who have seen the writer open and not yet
  tried the channel, and those whose frame is in the channel and who have not yet incremented \<open>sent\<close>.
\<close>

datatype drain_phase = Draining | Discarding | Exited

record Writer =
  queue :: "byte_seq option list"
  queue_cap :: nat
  w_closed :: bool
  conn_open :: bool
  drops :: nat
  sent :: nat
  w_admitted :: nat
  w_uncounted :: nat
  phase :: drain_phase
  written :: "byte_seq list"

text \<open>A writer the pool makes, and \<open>New\<close> over a writer \<open>old\<close> from the pool: only a queue of another capacity is replaced.\<close>

definition pool_writer :: Writer where
  "pool_writer = \<lparr>queue = [], queue_cap = 256, w_closed = False, conn_open = False, drops = 0, sent = 0,
     w_admitted = 0, w_uncounted = 0, phase = Exited, written = []\<rparr>"

definition NewFrom :: "Writer \<Rightarrow> int \<Rightarrow> Writer" where
  "NewFrom old queueSize =
     (let n = (if queueSize < 1 then 256 else nat queueSize)
      in old\<lparr>queue := (if queue_cap old \<noteq> n then [] else queue old), queue_cap := n, w_closed := False,
             conn_open := True, phase := Draining, written := []\<rparr>)"

text \<open>Nothing in the server calls \<open>Release\<close>, so its writers are made by the pool.\<close>

definition NewWriter :: "int \<Rightarrow> Writer" where
  "NewWriter queueSize = NewFrom pool_writer queueSize"

subsection \<open>Operations\<close>

text \<open>The atomic steps of \<open>Send\<close>: the check of the flag, the channel, the counter.\<close>

definition Send_check :: "Writer \<Rightarrow> bool \<times> Writer" where
  "Send_check w = (if w_closed w then (False, w) else (True, w\<lparr>w_admitted := w_admitted w + 1\<rparr>))"

definition Send_enqueue :: "byte_seq \<Rightarrow> Writer \<Rightarrow> bool \<times> Writer" where
  "Send_enqueue frame w =
     (let w1 = w\<lparr>w_admitted := w_admitted w - 1\<rparr>
      in if length (queue w1) < queue_cap w1
         then (True, w1\<lparr>queue := queue w1 @ [Some frame], w_uncounted := w_uncounted w1 + 1\<rparr>)
         else (False, w1\<lparr>drops := drops w1 + 1\<rparr>))"

definition Send_count :: "Writer \<Rightarrow> Writer" where
  "Send_count w = w\<lparr>sent := sent w + 1, w_uncounted := w_uncounted w - 1\<rparr>"

text \<open>A call of \<open>Send\<close> that nobody interrupts.\<close>

definition Send :: "byte_seq \<Rightarrow> Writer \<Rightarrow> bool \<times> Writer" where
  "Send frame w = (case Send_check w of
     (False, w1) \<Rightarrow> (False, w1)
   | (True, w1) \<Rightarrow> (case Send_enqueue frame w1 of
       (False, w2) \<Rightarrow> (False, w2)
     | (True, w2) \<Rightarrow> (True, Send_count w2)))"

text \<open>
  \<open>Close\<close> in two parts: the compare-and-swap with the socket close, and the blocking channel send of the
  sentinel, which is enabled only while the queue has room.
\<close>

definition Close_begin :: "Writer \<Rightarrow> bool \<times> Writer" where
  "Close_begin w = (if w_closed w then (False, w) else (True, w\<lparr>w_closed := True, conn_open := False\<rparr>))"

definition Close_send :: "Writer \<Rightarrow> Writer option" where
  "Close_send w = (if length (queue w) < queue_cap w then Some (w\<lparr>queue := queue w @ [None]\<rparr>) else None)"

definition QueueLen :: "Writer \<Rightarrow> nat" where
  "QueueLen w = length (queue w)"

text \<open>
  One iteration of \<open>drain\<close>: a frame is taken and written; the sentinel or a failed write ends the first loop,
  and the second loop throws away what it finds until the queue is empty.
\<close>

definition drain_step :: "bool \<Rightarrow> Writer \<Rightarrow> Writer option" where
  "drain_step write_ok w =
     (case phase w of Exited \<Rightarrow> None
      | Discarding \<Rightarrow> (case queue w of
          [] \<Rightarrow> Some (w\<lparr>phase := Exited\<rparr>)
        | _ # q \<Rightarrow> Some (w\<lparr>queue := q\<rparr>))
      | Draining \<Rightarrow> (case queue w of
          [] \<Rightarrow> None
        | None # q \<Rightarrow> Some (w\<lparr>queue := q, phase := Discarding\<rparr>)
        | Some f # q \<Rightarrow>
            if write_ok \<and> conn_open w then Some (w\<lparr>queue := q, written := written w @ [f]\<rparr>)
            else Some (w\<lparr>queue := q, conn_open := False, phase := Discarding\<rparr>)))"

text \<open>
  A whole call of \<open>Close\<close> that no sender interrupts: if the queue is full it waits for the goroutine, which takes a frame, fails to write it
  to the closed socket and so makes room, which a waiting sender on a Go channel gets at once. \<open>None\<close> is a call that waits for ever.
\<close>

definition Close :: "Writer \<Rightarrow> Writer option" where
  "Close w =
     (if w_closed w then Some w
      else let w1 = snd (Close_begin w)
           in case Close_send w1 of Some w2 \<Rightarrow> Some w2 | None \<Rightarrow> Option.bind (drain_step False w1) Close_send)"

text \<open>
  The steps of everybody, with the frame a step puts into the channel, if it does.
\<close>

inductive writer_step :: "Writer \<Rightarrow> byte_seq list \<Rightarrow> Writer \<Rightarrow> bool" where
  check: "writer_step w [] (snd (Send_check w))"
| enqueue: "0 < w_admitted w \<Longrightarrow> Send_enqueue f w = (True, w') \<Longrightarrow> writer_step w [f] w'"
| drop: "0 < w_admitted w \<Longrightarrow> Send_enqueue f w = (False, w') \<Longrightarrow> writer_step w [] w'"
| count: "0 < w_uncounted w \<Longrightarrow> writer_step w [] (Send_count w)"
| close_begin: "writer_step w [] (snd (Close_begin w))"
| close_send: "w_closed w \<Longrightarrow> Close_send w = Some w' \<Longrightarrow> writer_step w [] w'"
| drain: "drain_step ok w = Some w' \<Longrightarrow> writer_step w [] w'"

inductive_cases writer_stepE: "writer_step w fs w'"

inductive writer_steps :: "Writer \<Rightarrow> byte_seq list \<Rightarrow> Writer \<Rightarrow> bool" where
  refl: "writer_steps w [] w"
| step: "writer_steps w fs w' \<Longrightarrow> writer_step w' gs w'' \<Longrightarrow> writer_steps w (fs @ gs) w''"

subsection \<open>Lemmas\<close>

definition frames_of :: "byte_seq option list \<Rightarrow> byte_seq list" where
  "frames_of q = map the (filter (\<lambda>x. x \<noteq> None) q)"

lemma frames_of_simps [simp]:
  "frames_of [] = []" "frames_of (Some f # q) = f # frames_of q" "frames_of (None # q) = frames_of q"
  "frames_of (q @ r) = frames_of q @ frames_of r"
  by (simp_all add: frames_of_def)

named_theorems writer_defs "definitions of the writer's steps"

declare Send_check_def [writer_defs] Send_enqueue_def [writer_defs] Send_count_def [writer_defs]
  Close_begin_def [writer_defs] Close_send_def [writer_defs] drain_step_def [writer_defs]

text \<open>
  The invariant of a run in which the frames \<open>acc\<close> have been put into the channel: what has been written is a prefix of
  them; while the loop runs, the queue holds the rest; and the counter lags behind by the callers who still have to count.
\<close>

definition delivers :: "nat \<Rightarrow> byte_seq list \<Rightarrow> Writer \<Rightarrow> bool" where
  "delivers before acc w \<longleftrightarrow> length (queue w) \<le> queue_cap w \<and> (\<exists>rest. acc = written w @ rest) \<and>
     (phase w = Draining \<longrightarrow> written w @ frames_of (queue w) = acc) \<and> sent w + w_uncounted w = before + length acc"

lemma delivers_step: "writer_step w gs w' \<Longrightarrow> delivers before acc w \<Longrightarrow> delivers before (acc @ gs) w'"
  by (erule writer_stepE)
     (auto simp: delivers_def writer_defs Let_def split: if_splits drain_phase.splits list.splits option.splits)

lemma delivers_steps: "writer_steps w fs w' \<Longrightarrow> delivers before acc w \<Longrightarrow> delivers before (acc @ fs) w'"
proof (induction rule: writer_steps.induct)
  case (step w fs w' gs w'')
  then show ?case using delivers_step [of w' gs w'' before "acc @ fs"] by simp
qed simp

lemma delivers_New:
  "queue old = [] \<Longrightarrow> w_uncounted old = 0 \<Longrightarrow> delivers (sent old) [] (NewFrom old n)"
  by (simp add: delivers_def NewFrom_def Let_def)

text \<open>An uninterrupted \<open>Send\<close> is a run, and it is accepted exactly while the writer is open and the queue has room.\<close>

lemma Send_run: "writer_steps w (if fst (Send f w) then [f] else []) (snd (Send f w))"
proof (cases "w_closed w")
  case True
  then show ?thesis by (simp add: Send_def Send_check_def writer_steps.refl)
next
  case False
  let ?w1 = "w\<lparr>w_admitted := w_admitted w + 1\<rparr>"
  have s1: "writer_steps w [] ?w1"
    using writer_steps.step [OF writer_steps.refl writer_step.check, of w] False by (simp add: Send_check_def)
  obtain ok w2 where e: "Send_enqueue f ?w1 = (ok, w2)" by force
  show ?thesis
  proof (cases ok)
    case True
    have "writer_steps w [f] w2" using writer_steps.step [OF s1 writer_step.enqueue] e True by simp
    moreover have "0 < w_uncounted w2" using e True by (auto simp: Send_enqueue_def Let_def split: if_splits)
    ultimately have "writer_steps w [f] (Send_count w2)"
      using writer_steps.step [OF _ writer_step.count] by fastforce
    then show ?thesis using False e True by (simp add: Send_def Send_check_def)
  next
    case drop: False
    have "writer_steps w [] w2" using writer_steps.step [OF s1 writer_step.drop] e drop by fastforce
    then show ?thesis using False e drop by (simp add: Send_def Send_check_def)
  qed
qed

lemma Send_accepts: "fst (Send f w) \<longleftrightarrow> \<not> w_closed w \<and> length (queue w) < queue_cap w"
  by (simp add: Send_def Send_check_def Send_enqueue_def Let_def)

text \<open>Once the loop has ended, nothing leaves the queue, and a full queue stays full.\<close>

definition stuck :: "Writer \<Rightarrow> bool" where
  "stuck w \<longleftrightarrow> phase w = Exited \<and> length (queue w) \<ge> queue_cap w"

lemma stuck_step: "writer_step w fs w' \<Longrightarrow> stuck w \<Longrightarrow> stuck w' \<and> Close_send w' = None"
  by (erule writer_stepE)
     (auto simp: stuck_def writer_defs Let_def split: if_splits drain_phase.splits list.splits option.splits)

lemma stuck_steps: "writer_steps w fs w' \<Longrightarrow> stuck w \<Longrightarrow> stuck w' \<and> Close_send w' = None"
proof (induction rule: writer_steps.induct)
  case (refl w)
  then show ?case by (simp add: Close_send_def stuck_def)
next
  case (step w fs w' gs w'')
  then show ?case using stuck_step by blast
qed

text \<open>\<open>Close\<close> waits for ever exactly on an open writer that is stuck, and then no step of anybody helps.\<close>

lemma Close_blocks:
  assumes "0 < queue_cap w" and "length (queue w) \<le> queue_cap w"
  shows "Close w = None \<longleftrightarrow> \<not> w_closed w \<and> stuck w"
proof -
  have "drain_step False (w\<lparr>w_closed := True, conn_open := False\<rparr>) = None \<longleftrightarrow> phase w = Exited \<or> phase w = Draining \<and> queue w = []"
    by (auto simp: drain_step_def split: drain_phase.split list.split option.split)
  moreover have "Close_send w' \<noteq> None"
    if "drain_step False (w\<lparr>w_closed := True, conn_open := False\<rparr>) = Some w'" for w'
    using that assms by (auto simp: drain_step_def Close_send_def split: drain_phase.splits list.splits option.splits)
  ultimately show ?thesis
    using assms by (auto simp: Close_def Close_begin_def Close_send_def stuck_def Let_def bind_eq_None_conv split: option.splits)
qed

subsection \<open>Properties\<close>

text \<open>
  C28 Whatever the interleaving of the callers' checks, channel sends and counter increments with the drain loop, starting
  from a recycled writer with an empty queue: the queue is within its capacity; the frames written to the socket
  are the first of the accepted frames, in the order of acceptance; while the loop runs, the queue holds exactly
  the others in order, so none is lost, duplicated or reordered; and the counter has grown by the accepted frames
  of the callers that have returned.
\<close>

theorem writer_no_loss:
  assumes "writer_steps (NewFrom old n) accepted w" and "queue old = []" and "w_uncounted old = 0"
  shows "QueueLen w \<le> queue_cap w \<and> written w = take (length (written w)) accepted \<and>
    (phase w = Draining \<longrightarrow> frames_of (queue w) = drop (length (written w)) accepted) \<and>
    sent w + w_uncounted w = sent old + length accepted"
proof -
  have "delivers (sent old) accepted w"
    using delivers_steps [OF assms(1) delivers_New [OF assms(2,3)]] by simp
  then show ?thesis by (auto simp: delivers_def QueueLen_def)
qed

theorem writer_no_loss_witness:
  "\<exists>w. writer_steps (NewWriter 2) [[1], [2]] w \<and> written w = [[1]] \<and> frames_of (queue w) = [[2]] \<and> sent w = 2"
proof -
  let ?a = "snd (Send [1] (NewWriter 2))"
  let ?b = "snd (Send [2] ?a)"
  let ?w = "?b\<lparr>queue := [Some [2]], written := [[1]]\<rparr>"
  have ok: "fst (Send [1] (NewWriter 2))" "fst (Send [2] ?a)"
    by (simp_all add: Send_def NewWriter_def NewFrom_def pool_writer_def writer_defs)
  have "writer_steps (NewWriter 2) ([] @ [[1]]) ?a" using Send_run [of "NewWriter 2" "[1]"] ok(1) by simp
  moreover have "writer_steps w fs w' \<Longrightarrow> fst (Send f w') \<Longrightarrow> writer_steps w (fs @ [f]) (snd (Send f w'))" for w fs w' f
  proof -
    assume run: "writer_steps w fs w'" and acc: "fst (Send f w')"
    have "writer_steps w' gs w'' \<Longrightarrow> writer_steps w fs w' \<Longrightarrow> writer_steps w (fs @ gs) w''" for gs w''
      by (induction rule: writer_steps.induct) (auto intro: writer_steps.step simp flip: append_assoc)
    then show ?thesis using Send_run [of w' f] run acc by simp
  qed
  ultimately have "writer_steps (NewWriter 2) [[1], [2]] ?b" using ok(2) by fastforce
  moreover have "drain_step True ?b = Some ?w"
    by (simp add: Send_def NewWriter_def NewFrom_def pool_writer_def writer_defs)
  ultimately have run: "writer_steps (NewFrom pool_writer 2) [[1], [2]] ?w"
    using writer_steps.step [OF _ writer_step.drain, of "NewWriter 2" "[[1], [2]]"] by (fastforce simp: NewWriter_def)
  from writer_no_loss [OF run] show ?thesis using run
    by (intro exI [of _ ?w]) (simp add: NewWriter_def pool_writer_def Send_def NewFrom_def writer_defs)
qed

text \<open>
  A write error ends the drain loop without marking the writer closed: \<open>Send\<close> goes on accepting frames
  until the queue is full, and then \<open>Close\<close> can never deliver its sentinel, whatever happens next. The
  caller of \<open>Close\<close> blocks for ever.
\<close>

definition broken_writer :: Writer where
  "broken_writer = (NewWriter 1)\<lparr>queue := [Some [1]], conn_open := False, phase := Exited, sent := 2\<rparr>"

lemma broken_reached: "writer_steps (NewWriter 1) [[1], [1]] broken_writer"
proof -
  let ?w0 = "NewWriter 1"
  let ?w1 = "?w0\<lparr>w_admitted := 1\<rparr>"
  let ?w2 = "?w0\<lparr>queue := [Some [1]], w_uncounted := 1\<rparr>"
  let ?w3 = "?w0\<lparr>queue := [Some [1]], sent := 1\<rparr>"
  let ?w4 = "?w0\<lparr>conn_open := False, phase := Discarding, sent := 1\<rparr>"
  let ?w5 = "?w4\<lparr>phase := Exited\<rparr>"
  let ?w6 = "?w5\<lparr>w_admitted := 1\<rparr>"
  let ?w7 = "?w5\<lparr>queue := [Some [1]], w_uncounted := 1\<rparr>"
  note d = NewWriter_def NewFrom_def pool_writer_def writer_defs broken_writer_def
  have "writer_step ?w0 [] ?w1" using writer_step.check [of ?w0] by (simp add: d)
  from writer_steps.step [OF writer_steps.refl this] have "writer_steps ?w0 [] ?w1" by simp
  moreover have "writer_step ?w1 [[1]] ?w2" by (intro writer_step.enqueue) (simp_all add: d)
  ultimately have "writer_steps ?w0 [[1]] ?w2" using writer_steps.step by fastforce
  moreover have "writer_step ?w2 [] ?w3" using writer_step.count [of ?w2] by (simp add: d)
  ultimately have "writer_steps ?w0 [[1]] ?w3" using writer_steps.step by fastforce
  moreover have "writer_step ?w3 [] ?w4" by (intro writer_step.drain [of False]) (simp add: d)
  ultimately have "writer_steps ?w0 [[1]] ?w4" using writer_steps.step by fastforce
  moreover have "writer_step ?w4 [] ?w5" by (intro writer_step.drain [of False]) (simp add: d)
  ultimately have "writer_steps ?w0 [[1]] ?w5" using writer_steps.step by fastforce
  moreover have "writer_step ?w5 [] ?w6" using writer_step.check [of ?w5] by (simp add: d)
  ultimately have "writer_steps ?w0 [[1]] ?w6" using writer_steps.step by fastforce
  moreover have "writer_step ?w6 [[1]] ?w7" by (intro writer_step.enqueue) (simp_all add: d)
  ultimately have "writer_steps ?w0 [[1], [1]] ?w7" using writer_steps.step by fastforce
  moreover have "writer_step ?w7 [] broken_writer" using writer_step.count [of ?w7] by (simp add: d numeral_2_eq_2)
  ultimately show ?thesis using writer_steps.step by fastforce
qed

theorem Close_blocks_after_write_error:
  "\<exists>w fs. writer_steps (NewWriter 1) fs w \<and> \<not> w_closed w \<and> sent w = 2 \<and> written w = [] \<and> Close w = None \<and>
       (\<forall>gs w'. writer_steps w gs w' \<longrightarrow> Close_send w' = None)"
proof -
  have b: "stuck broken_writer" "\<not> w_closed broken_writer" "sent broken_writer = 2" "written broken_writer = []"
    "0 < queue_cap broken_writer" "length (queue broken_writer) \<le> queue_cap broken_writer"
    by (simp_all add: stuck_def broken_writer_def NewWriter_def NewFrom_def pool_writer_def)
  then have "Close broken_writer = None" by (simp add: Close_blocks)
  with b stuck_steps broken_reached show ?thesis by blast
qed

theorem Close_blocks_after_write_error_witness:
  "\<exists>w. \<not> w_closed w \<and> sent w = 2 \<and> Close_send w = None \<and> Close_send (snd (Close_begin w)) = None"
proof -
  obtain w where w: "\<not> w_closed w" "sent w = 2" "\<forall>gs w'. writer_steps w gs w' \<longrightarrow> Close_send w' = None"
    using Close_blocks_after_write_error by blast
  then have "Close_send w = None" "Close_send (snd (Close_begin w)) = None"
    using writer_steps.refl writer_steps.step [OF writer_steps.refl writer_step.close_begin] by blast+
  with w show ?thesis by blast
qed

text \<open>
  A writer that is closed after a write error keeps its sentinel in the queue. Recycled as documented, its next drain loop
  takes the sentinel and stops writing at once.
\<close>

lemma recycled_exits:
  assumes "phase w = Exited" and "queue w = []" and "\<not> w_closed w" and "queue_cap w = 256"
  shows "\<exists>w'. Close w = Some w' \<and> drain_step ok (NewFrom w' 256) = Some ((NewFrom w' 256)\<lparr>queue := [], phase := Discarding\<rparr>)"
  using assms by (simp add: Close_def Close_begin_def Close_send_def NewFrom_def drain_step_def)

end
