(* ===== verification/Heap_Order.thy ===== *)
theory Heap_Order
  imports Prelude
begin

text \<open>
  Binary heaps in arrays, as the hand-written heaps of the server use them (\<open>peakgo/threat\<close>,
  \<open>peakgo/astar\<close>): position \<open>c\<close> has the parent \<open>(c - 1) / 2\<close>. The lemmas are about the function
  from positions to keys, so that they apply to a heap of indices into another array.
\<close>

subsection \<open>Exchanging two cells\<close>

definition exchange :: "nat \<Rightarrow> nat \<Rightarrow> 'a list \<Rightarrow> 'a list" where
  "exchange i j xs = xs[i := xs ! j, j := xs ! i]"

lemma length_exchange [simp]: "length (exchange i j xs) = length xs"
  by (simp add: exchange_def)

lemma nth_exchange:
  "i < length xs \<Longrightarrow> j < length xs \<Longrightarrow>
   exchange i j xs ! k = (if k = i then xs ! j else if k = j then xs ! i else xs ! k)"
  by (simp add: exchange_def nth_list_update)

lemma mset_exchange [simp]: "i < length xs \<Longrightarrow> j < length xs \<Longrightarrow> mset (exchange i j xs) = mset xs"
  by (simp add: exchange_def mset_swap)

lemma take_exchange: "i < n \<Longrightarrow> j < n \<Longrightarrow> n \<le> length xs \<Longrightarrow> take n (exchange i j xs) = exchange i j (take n xs)"
  by (simp add: exchange_def take_update_swap)

lemma drop_exchange: "i < n \<Longrightarrow> j < n \<Longrightarrow> drop n (exchange i j xs) = drop n xs"
  by (simp add: exchange_def)

subsection \<open>The heap property, with one position excepted\<close>

definition parent :: "nat \<Rightarrow> nat" where
  "parent c = (c - 1) div 2"

text \<open>The subtrees rooted at positions from \<open>k\<close> on are heaps.\<close>

definition heap_from :: "(nat \<Rightarrow> 'k::linorder) \<Rightarrow> nat \<Rightarrow> nat \<Rightarrow> bool" where
  "heap_from f n k \<longleftrightarrow> (\<forall>c. 0 < c \<and> c < n \<and> k \<le> parent c \<longrightarrow> f c \<le> f (parent c))"

definition heap_except :: "(nat \<Rightarrow> 'k::linorder) \<Rightarrow> nat \<Rightarrow> nat \<Rightarrow> nat \<Rightarrow> bool" where
  "heap_except f n k i \<longleftrightarrow>
     (\<forall>c. 0 < c \<and> c < n \<and> k \<le> parent c \<and> parent c \<noteq> i \<longrightarrow> f c \<le> f (parent c)) \<and>
     (\<forall>c. 0 < c \<and> c < n \<and> parent c = i \<and> 0 < i \<and> k \<le> parent i \<longrightarrow> f c \<le> f (parent i))"

lemma children: "0 < c \<Longrightarrow> parent c = i \<longleftrightarrow> c = 2 * i + 1 \<or> c = 2 * i + 2"
  by (auto simp: parent_def)

lemma parent_less: "0 < c \<Longrightarrow> parent c < c"
  by (auto simp: parent_def)

lemma heap_except_exit:
  assumes "heap_except f n k i"
    and "2 * i + 1 < n \<Longrightarrow> f (2 * i + 1) \<le> f i" and "2 * i + 2 < n \<Longrightarrow> f (2 * i + 2) \<le> f i"
  shows "heap_from f n k"
  unfolding heap_from_def
proof (intro allI impI)
  fix c assume c: "0 < c \<and> c < n \<and> k \<le> parent c"
  show "f c \<le> f (parent c)"
  proof (cases "parent c = i")
    case True
    with c children [of c i] assms(2,3) show ?thesis by auto
  next
    case False
    with c assms(1) show ?thesis by (auto simp: heap_except_def)
  qed
qed

lemma heap_except_sink:
  assumes ex: "heap_except f n k i" and k: "k \<le> i"
    and m: "0 < m" "parent m = i" "m < n" and gt: "f i \<le> f m"
    and best: "\<And>c. 0 < c \<Longrightarrow> parent c = i \<Longrightarrow> c < n \<Longrightarrow> f c \<le> f m"
  shows "heap_except (f(i := f m, m := f i)) n k m"
proof -
  have im: "i < m" using m parent_less by blast
  have up: "f m \<le> f (parent i)" if "0 < i" "k \<le> parent i"
    using ex m that unfolding heap_except_def by blast
  let ?g = "f(i := f m, m := f i)"
  have one: "?g c \<le> ?g (parent c)" if c: "0 < c" "c < n" "k \<le> parent c" "parent c \<noteq> m" for c
  proof (cases "c = i")
    case True
    then have "parent c \<noteq> i" and "parent c \<noteq> m" using c parent_less [of c] im by auto
    with True im c up show ?thesis by auto
  next
    case ci: False
    show ?thesis
    proof (cases "c = m")
      case True
      with m im gt show ?thesis by auto
    next
      case False
      then show ?thesis
        using ci c best [of c] ex im unfolding heap_except_def by (cases "parent c = i") auto
    qed
  qed
  have two: "?g c \<le> ?g (parent m)" if c: "0 < c" "c < n" "parent c = m" for c
  proof -
    have "c \<noteq> i" "c \<noteq> m" using c parent_less [of c] im by auto
    moreover have "f c \<le> f (parent c)"
      using ex c k im unfolding heap_except_def by (metis nat_less_le order.trans less_imp_le)
    ultimately show ?thesis using c m by auto
  qed
  from one two show ?thesis unfolding heap_except_def by blast
qed

lemma heap_from_Suc: "heap_from f n (Suc k) \<Longrightarrow> heap_except f n k k"
  unfolding heap_from_def heap_except_def by (auto dest: parent_less simp: Suc_le_eq)

lemma heap_from_leaves: "n \<le> 2 * k + 1 \<Longrightarrow> heap_from f n k"
  unfolding heap_from_def parent_def by auto

lemma heap_root_max:
  assumes "heap_from f n 0" and "c < n"
  shows "f c \<le> f 0"
  using assms(2)
proof (induction c rule: less_induct)
  case (less c)
  show ?case
  proof (cases "c = 0")
    case False
    then have "parent c < c" by (simp add: parent_less)
    with less False assms(1) have "f c \<le> f (parent c)" "f (parent c) \<le> f 0"
      by (auto simp: heap_from_def)
    then show ?thesis by simp
  qed simp
qed

end
