(* ===== verification/Threat.thy ===== *)
theory Threat
  imports Heap_Order
begin

text \<open>
  \<open>server/peakgo/threat/threat.go\<close>: the aggro table of a monster. The table keeps its entries in
  insertion order and an array of 64 entry indices that \<open>sort\<close> rebuilds into a max-heap after every
  change. Threat values are Go \<open>int64\<close>, unbounded here: the wrap-around past \<open>2^63\<close> is left out. An
  operation that would index the heap array out of range panics, which is \<open>None\<close>. A table is a value here, so the
  theory is about a table whose entries no other table shares. The constructors take the recycled struct and
  the slice that the pools gave; \<open>Clear\<close> drops the entries. That it also puts the address of the table's own
  field into the pool, and what a later constructor makes of it, is the subject of \<open>Threat_Pools\<close>.
\<close>

subsection \<open>Data\<close>

definition MaxPlayers :: nat where
  "MaxPlayers = 64"

definition DefaultThreatDecay :: int where
  "DefaultThreatDecay = 20"

record ThreatEntry =
  PlayerID :: u64
  Threat :: int

record ThreatTable =
  tt_entries :: "ThreatEntry list"
  decayRate :: int
  totalThreat :: int
  heapSize :: nat
  tt_heap :: "nat list"

text \<open>\<open>old\<close> is the struct from \<open>tablePool\<close>, \<open>es\<close> what the pointer from \<open>entryPool\<close> points to.\<close>

definition NewThreatTableFrom :: "ThreatTable \<Rightarrow> ThreatEntry list \<Rightarrow> ThreatTable" where
  "NewThreatTableFrom old es = old\<lparr>tt_entries := es, decayRate := DefaultThreatDecay, totalThreat := 0, heapSize := 0\<rparr>"

definition NewThreatTableWithDecayFrom :: "ThreatTable \<Rightarrow> ThreatEntry list \<Rightarrow> int \<Rightarrow> ThreatTable" where
  "NewThreatTableWithDecayFrom old es rate = old\<lparr>tt_entries := es, decayRate := rate, totalThreat := 0, heapSize := 0\<rparr>"

text \<open>What the factories of the pools make, and the constructors over it.\<close>

definition pool_table :: ThreatTable where
  "pool_table = \<lparr>tt_entries = [], decayRate = DefaultThreatDecay, totalThreat = 0, heapSize = 0,
     tt_heap = replicate MaxPlayers 0\<rparr>"

definition NewThreatTable :: ThreatTable where
  "NewThreatTable = NewThreatTableFrom pool_table []"

definition NewThreatTableWithDecay :: "int \<Rightarrow> ThreatTable" where
  "NewThreatTableWithDecay rate = NewThreatTableWithDecayFrom pool_table [] rate"

subsection \<open>The heap\<close>

text \<open>The key at a heap position: \<open>t.entries[t.heap[i]].Threat\<close>.\<close>

definition heap_key :: "ThreatEntry list \<Rightarrow> nat list \<Rightarrow> nat \<Rightarrow> int" where
  "heap_key es h i = Threat (es ! (h ! i))"

definition largest_of :: "ThreatEntry list \<Rightarrow> nat list \<Rightarrow> nat \<Rightarrow> nat" where
  "largest_of es h i =
     (let n = length es; left = 2 * i + 1; right = 2 * i + 2;
          l1 = (if left < n \<and> heap_key es h left > heap_key es h i then left else i)
      in if right < n \<and> heap_key es h right > heap_key es h l1 then right else l1)"

lemma largest_of_cases:
  "largest_of es h i = i \<or> (largest_of es h i < length es \<and>
    (largest_of es h i = 2 * i + 1 \<or> largest_of es h i = 2 * i + 2))"
  by (auto simp: largest_of_def Let_def)

function down :: "ThreatEntry list \<Rightarrow> nat list \<Rightarrow> nat \<Rightarrow> nat list" where
  "down es h i =
     (let largest = largest_of es h i
      in if largest = i then h else down es (exchange i largest h) largest)"
  by pat_completeness auto
termination
proof (relation "measure (\<lambda>(es, h, i). length es - i)")
  fix es :: "ThreatEntry list" and h :: "nat list" and i largest :: nat
  assume "largest = largest_of es h i" and "largest \<noteq> i"
  with largest_of_cases [of es h i]
  show "((es, exchange i largest h, largest), es, h, i) \<in> measure (\<lambda>(es, h, i). length es - i)"
    by auto
qed simp

declare down.simps [simp del]

function up :: "ThreatEntry list \<Rightarrow> nat list \<Rightarrow> nat \<Rightarrow> nat list" where
  "up es h i =
     (if i > 0
      then let par = (i - 1) div 2
           in if heap_key es h par \<ge> heap_key es h i then h else up es (exchange par i h) par
      else h)"
  by pat_completeness auto
termination by (relation "measure (\<lambda>(es, h, i). i)") auto

declare up.simps [simp del]

definition fixSort :: "nat \<Rightarrow> ThreatTable \<Rightarrow> ThreatTable" where
  "fixSort i t = t\<lparr>tt_heap :=
     (if i > 0 \<and> heap_key (tt_entries t) (tt_heap t) ((i - 1) div 2) < heap_key (tt_entries t) (tt_heap t) i
      then up (tt_entries t) (tt_heap t) i else down (tt_entries t) (tt_heap t) i)\<rparr>"

text \<open>The second loop of \<open>sort\<close>, from \<open>(heapSize - 1) / 2\<close> down to 0.\<close>

primrec build_heap :: "ThreatEntry list \<Rightarrow> nat list \<Rightarrow> nat \<Rightarrow> nat list" where
  "build_heap es h 0 = down es h 0"
| "build_heap es h (Suc i) = build_heap es (down es h (Suc i)) i"

definition threat_sort :: "ThreatTable \<Rightarrow> ThreatTable option" where
  "threat_sort t =
     (let n = length (tt_entries t)
      in if n > MaxPlayers then None
         else let h = [0..<n] @ drop n (tt_heap t)
              in Some (t\<lparr>heapSize := n, tt_heap := build_heap (tt_entries t) h ((n - 1) div 2)\<rparr>))"

subsection \<open>Operations\<close>

text \<open>The search loops over \<open>t.entries\<close>: the index of the first entry of the player.\<close>

fun find_player :: "u64 \<Rightarrow> ThreatEntry list \<Rightarrow> nat option" where
  "find_player p [] = None"
| "find_player p (e # es) = (if PlayerID e = p then Some 0 else map_option Suc (find_player p es))"

definition bump :: "nat \<Rightarrow> int \<Rightarrow> ThreatEntry list \<Rightarrow> ThreatEntry list" where
  "bump i v es = es[i := (es ! i)\<lparr>Threat := v\<rparr>]"

definition threat_Add :: "u64 \<Rightarrow> int \<Rightarrow> ThreatTable \<Rightarrow> ThreatTable option" where
  "threat_Add p amount t =
     (if length (tt_entries t) \<ge> MaxPlayers then Some t
      else case find_player p (tt_entries t) of
        Some i \<Rightarrow> threat_sort (t\<lparr>tt_entries := bump i (Threat (tt_entries t ! i) + amount) (tt_entries t),
                                   totalThreat := totalThreat t + amount\<rparr>)
      | None \<Rightarrow> threat_sort (t\<lparr>tt_entries := tt_entries t @ [\<lparr>PlayerID = p, Threat = amount\<rparr>],
                                 totalThreat := totalThreat t + amount\<rparr>))"

definition threat_Set :: "u64 \<Rightarrow> int \<Rightarrow> ThreatTable \<Rightarrow> ThreatTable option" where
  "threat_Set p amount t =
     (case find_player p (tt_entries t) of
        Some i \<Rightarrow> let diff = amount - Threat (tt_entries t ! i)
          in threat_sort (t\<lparr>tt_entries := bump i amount (tt_entries t), totalThreat := totalThreat t + diff\<rparr>)
      | None \<Rightarrow> threat_sort (t\<lparr>tt_entries := tt_entries t @ [\<lparr>PlayerID = p, Threat = amount\<rparr>],
                                 totalThreat := totalThreat t + amount\<rparr>))"

definition threat_Top :: "ThreatTable \<Rightarrow> u64 \<times> int" where
  "threat_Top t =
     (if length (tt_entries t) = 0 then (0, 0)
      else let e = tt_entries t ! (tt_heap t ! 0) in (PlayerID e, Threat e))"

definition threat_TopN :: "int \<Rightarrow> ThreatTable \<Rightarrow> ThreatEntry list option" where
  "threat_TopN n t =
     (let m = (if n > int (length (tt_entries t)) then int (length (tt_entries t)) else n)
      in if m < 0 then None else Some (map (\<lambda>i. tt_entries t ! (tt_heap t ! i)) [0..<nat m]))"

definition threat_Remove :: "u64 \<Rightarrow> ThreatTable \<Rightarrow> ThreatTable option" where
  "threat_Remove p t =
     (case find_player p (tt_entries t) of
        Some i \<Rightarrow> threat_sort (t\<lparr>tt_entries := take i (tt_entries t) @ drop (i + 1) (tt_entries t),
                                   totalThreat := totalThreat t - Threat (tt_entries t ! i)\<rparr>)
      | None \<Rightarrow> Some t)"

definition threat_Clear :: "ThreatTable \<Rightarrow> ThreatTable" where
  "threat_Clear t = t\<lparr>tt_entries := [], totalThreat := 0\<rparr>"

definition threat_Len :: "ThreatTable \<Rightarrow> nat" where
  "threat_Len t = length (tt_entries t)"

definition threat_Total :: "ThreatTable \<Rightarrow> int" where
  "threat_Total t = totalThreat t"

definition threat_Get :: "u64 \<Rightarrow> ThreatTable \<Rightarrow> int" where
  "threat_Get p t = (case find_player p (tt_entries t) of Some i \<Rightarrow> Threat (tt_entries t ! i) | None \<Rightarrow> 0)"

definition decay_entry :: "int \<Rightarrow> ThreatEntry \<Rightarrow> ThreatEntry" where
  "decay_entry rate e = e\<lparr>Threat := Threat e - go_div (Threat e * rate) 1000\<rparr>"

definition threat_Decay :: "ThreatTable \<Rightarrow> ThreatTable option" where
  "threat_Decay t =
     (let es = map (decay_entry (decayRate t)) (tt_entries t)
      in threat_sort (t\<lparr>tt_entries := es, totalThreat := fold (\<lambda>e acc. acc + Threat e) es 0\<rparr>))"

definition threat_SetDecayRate :: "int \<Rightarrow> ThreatTable \<Rightarrow> ThreatTable" where
  "threat_SetDecayRate rate t = (if rate < 500 \<or> rate > 1000 then t else t\<lparr>decayRate := rate\<rparr>)"

definition threat_Taunt :: "u64 \<Rightarrow> int \<Rightarrow> ThreatTable \<Rightarrow> ThreatTable option" where
  "threat_Taunt p multiplier t =
     (if length (tt_entries t) = 0 then Some t
      else let topThreat = Threat (tt_entries t ! (tt_heap t ! 0));
               newThreat = go_div ((topThreat + 1) * multiplier) 1000
           in threat_Add p newThreat t)"

definition threat_Transfer :: "u64 \<Rightarrow> u64 \<Rightarrow> int \<Rightarrow> ThreatTable \<Rightarrow> ThreatTable option" where
  "threat_Transfer fromID toID percentage t =
     (let fromThreat = (case find_player fromID (tt_entries t) of
                          Some i \<Rightarrow> Threat (tt_entries t ! i) | None \<Rightarrow> 0)
      in if fromThreat = 0 then Some t
         else let transferAmount = go_div (fromThreat * percentage) 1000
              in Option.bind (threat_Add toID transferAmount t) (threat_Add fromID (- transferAmount)))"

definition threat_ResetWipe :: "u64 \<Rightarrow> ThreatTable \<Rightarrow> ThreatTable option" where
  "threat_ResetWipe p t =
     (case find_player p (tt_entries t) of
        Some i \<Rightarrow> threat_sort (t\<lparr>tt_entries := bump i 0 (tt_entries t),
                                   totalThreat := totalThreat t - Threat (tt_entries t ! i)\<rparr>)
      | None \<Rightarrow> Some t)"

definition threat_FullWipe :: "ThreatTable \<Rightarrow> ThreatTable" where
  "threat_FullWipe t = threat_Clear t"

subsection \<open>The heap loops establish the heap property\<close>

lemma heap_key_exchange:
  "i < length h \<Longrightarrow> j < length h \<Longrightarrow>
   heap_key es (exchange i j h) = (heap_key es h)(i := heap_key es h j, j := heap_key es h i)"
  by (auto simp: fun_eq_iff heap_key_def nth_exchange)

lemma largest_of_self: "heap_key es h i \<le> heap_key es h (largest_of es h i)"
  by (auto simp: largest_of_def Let_def)

lemma largest_of_max:
  "2 * i + 1 < length es \<Longrightarrow> heap_key es h (2 * i + 1) \<le> heap_key es h (largest_of es h i)"
  "2 * i + 2 < length es \<Longrightarrow> heap_key es h (2 * i + 2) \<le> heap_key es h (largest_of es h i)"
  by (auto simp: largest_of_def Let_def)

lemma down_stop: "largest_of es h i = i \<Longrightarrow> down es h i = h"
  by (subst down.simps) simp

lemma down_step:
  "largest_of es h i \<noteq> i \<Longrightarrow> down es h i = down es (exchange i (largest_of es h i) h) (largest_of es h i)"
  by (subst down.simps) (simp add: Let_def)

lemma down_perm:
  "length es \<le> length h \<Longrightarrow>
   length (down es h i) = length h \<and> mset (take (length es) (down es h i)) = mset (take (length es) h) \<and>
   drop (length es) (down es h i) = drop (length es) h"
proof (induction es h i rule: down.induct)
  case (1 es h i)
  let ?m = "largest_of es h i"
  show ?case
  proof (cases "?m = i")
    case True
    then show ?thesis by (simp add: down_stop)
  next
    case False
    with largest_of_cases [of es h i] have m: "?m < length es" "i < length es" by auto
    from False have step: "down es h i = down es (exchange i ?m h) ?m" by (rule down_step)
    show ?thesis
      using 1 False m unfolding step by (simp add: take_exchange drop_exchange)
  qed
qed

lemma down_heap:
  "length es \<le> length h \<Longrightarrow> k \<le> i \<Longrightarrow> heap_except (heap_key es h) (length es) k i \<Longrightarrow>
   heap_from (heap_key es (down es h i)) (length es) k"
proof (induction es h i rule: down.induct)
  case (1 es h i)
  let ?m = "largest_of es h i"
  show ?case
  proof (cases "?m = i")
    case True
    then have "down es h i = h" by (rule down_stop)
    moreover have "heap_from (heap_key es h) (length es) k"
      using 1(4) largest_of_max [of i es h] True by (intro heap_except_exit) auto
    ultimately show ?thesis by simp
  next
    case False
    with largest_of_cases [of es h i] have m: "?m < length es" "i < ?m" "?m = 2 * i + 1 \<or> ?m = 2 * i + 2"
      by auto
    from False have step: "down es h i = down es (exchange i ?m h) ?m" by (rule down_step)
    have best: "heap_key es h c \<le> heap_key es h ?m" if "0 < c" "parent c = i" "c < length es" for c
      using that children [of c i] largest_of_max [of i es h] by auto
    have "heap_except ((heap_key es h)(i := heap_key es h ?m, ?m := heap_key es h i)) (length es) k ?m"
      using 1(3,4) m children [of ?m i] best largest_of_self
      by (intro heap_except_sink) auto
    then have "heap_except (heap_key es (exchange i ?m h)) (length es) k ?m"
      using m 1(2) by (simp add: heap_key_exchange)
    with 1(1) [OF refl False] 1(2,3) m(2) show ?thesis unfolding step by simp
  qed
qed

lemma build_heap_ok:
  "length es \<le> length h \<Longrightarrow> heap_except (heap_key es h) (length es) i i \<Longrightarrow>
   length (build_heap es h i) = length h \<and>
   mset (take (length es) (build_heap es h i)) = mset (take (length es) h) \<and>
   heap_from (heap_key es (build_heap es h i)) (length es) 0"
proof (induction i arbitrary: h)
  case 0
  then show ?case using down_perm [of es h 0] down_heap [of es h 0 0] by simp
next
  case (Suc i)
  let ?h = "down es h (Suc i)"
  have "heap_from (heap_key es ?h) (length es) (Suc i)"
    using Suc.prems by (intro down_heap) auto
  then have "heap_except (heap_key es ?h) (length es) i i" by (rule heap_from_Suc)
  with Suc.IH [of ?h] Suc.prems down_perm [of es h "Suc i"] show ?case by simp
qed

definition heap_ok :: "ThreatTable \<Rightarrow> bool" where
  "heap_ok t \<longleftrightarrow> length (tt_heap t) = MaxPlayers \<and>
     mset (take (length (tt_entries t)) (tt_heap t)) = mset [0..<length (tt_entries t)] \<and>
     heap_from (heap_key (tt_entries t) (tt_heap t)) (length (tt_entries t)) 0"

lemma threat_sort_some:
  assumes "length (tt_entries t) \<le> MaxPlayers" and "length (tt_heap t) = MaxPlayers"
  obtains h where "threat_sort t = Some (t\<lparr>heapSize := length (tt_entries t), tt_heap := h\<rparr>)"
    and "heap_ok (t\<lparr>heapSize := length (tt_entries t), tt_heap := h\<rparr>)"
proof -
  let ?es = "tt_entries t"
  let ?n = "length ?es"
  let ?h0 = "[0..<?n] @ drop ?n (tt_heap t)"
  define h where "h = build_heap ?es ?h0 ((?n - 1) div 2)"
  have len: "?n \<le> length ?h0" by simp
  have "heap_from (heap_key ?es ?h0) ?n (Suc ((?n - 1) div 2))"
    by (intro heap_from_leaves) presburger
  then have "heap_except (heap_key ?es ?h0) ?n ((?n - 1) div 2) ((?n - 1) div 2)"
    by (rule heap_from_Suc)
  from build_heap_ok [OF len this] assms
  have "heap_ok (t\<lparr>heapSize := ?n, tt_heap := h\<rparr>)"
    by (simp add: heap_ok_def h_def)
  moreover have "threat_sort t = Some (t\<lparr>heapSize := ?n, tt_heap := h\<rparr>)"
    using assms(1) by (simp add: threat_sort_def Let_def h_def)
  ultimately show thesis using that by blast
qed

subsection \<open>The table as a map, and the invariant\<close>

definition threat_of :: "ThreatTable \<Rightarrow> u64 \<rightharpoonup> int" where
  "threat_of t = map_of (map (\<lambda>e. (PlayerID e, Threat e)) (tt_entries t))"

definition threat_ok :: "ThreatTable \<Rightarrow> bool" where
  "threat_ok t \<longleftrightarrow> heap_ok t \<and> length (tt_entries t) \<le> MaxPlayers \<and>
     distinct (map PlayerID (tt_entries t)) \<and> totalThreat t = sum_list (map Threat (tt_entries t))"

lemma find_player_Some: "find_player p es = Some i \<Longrightarrow> i < length es \<and> PlayerID (es ! i) = p"
  by (induction es arbitrary: i) (auto split: if_splits)

lemma find_player_None: "find_player p es = None \<longleftrightarrow> p \<notin> PlayerID ` set es"
  by (induction es) auto

lemma find_player_map:
  "map_of (map (\<lambda>e. (PlayerID e, Threat e)) es) p =
     (case find_player p es of None \<Rightarrow> None | Some i \<Rightarrow> Some (Threat (es ! i)))"
  by (induction es) (auto split: option.split)

lemma threat_Get_of: "threat_Get p t = (case threat_of t p of None \<Rightarrow> 0 | Some v \<Rightarrow> v)"
  by (simp add: threat_Get_def threat_of_def find_player_map split: option.split)

lemma length_bump [simp]: "length (bump i v es) = length es"
  by (simp add: bump_def)

lemma ids_bump [simp]: "i < length es \<Longrightarrow> map PlayerID (bump i v es) = map PlayerID es"
  by (simp add: bump_def map_update list_update_same_conv)

lemma sum_bump:
  "i < length es \<Longrightarrow> sum_list (map Threat (bump i v es)) = sum_list (map Threat es) + (v - Threat (es ! i))"
proof (induction es arbitrary: i)
  case (Cons e es)
  then show ?case by (cases i) (auto simp: bump_def)
qed simp

lemma map_bump:
  assumes "distinct (map PlayerID es)" and "i < length es"
  shows "map_of (map (\<lambda>e. (PlayerID e, Threat e)) (bump i v es)) =
         (map_of (map (\<lambda>e. (PlayerID e, Threat e)) es))(PlayerID (es ! i) \<mapsto> v)"
proof -
  have z: "map (\<lambda>e. (PlayerID e, Threat e)) xs = zip (map PlayerID xs) (map Threat xs)" for xs
    by (simp add: zip_map_map zip_same_conv_map)
  have "map Threat (bump i v es) = (map Threat es)[i := v]"
    by (simp add: bump_def map_update)
  with assms show ?thesis
    unfolding z by (simp add: map_of_zip_update_nth)
qed

text \<open>Every mutation ends in \<open>sort\<close>; its effect on a table with new entries and a new total.\<close>

lemma sort_step:
  assumes "threat_ok t" and "length es \<le> MaxPlayers" and "distinct (map PlayerID es)"
    and "tot = sum_list (map Threat es)"
  obtains t' where "threat_sort (t\<lparr>tt_entries := es, totalThreat := tot\<rparr>) = Some t'" and "threat_ok t'"
    and "tt_entries t' = es" and "decayRate t' = decayRate t"
proof -
  let ?t = "t\<lparr>tt_entries := es, totalThreat := tot\<rparr>"
  from assms have "length (tt_entries ?t) \<le> MaxPlayers" "length (tt_heap ?t) = MaxPlayers"
    by (auto simp: threat_ok_def heap_ok_def)
  from threat_sort_some [OF this] obtain h where
    h: "threat_sort ?t = Some (?t\<lparr>heapSize := length (tt_entries ?t), tt_heap := h\<rparr>)"
      "heap_ok (?t\<lparr>heapSize := length (tt_entries ?t), tt_heap := h\<rparr>)" by blast
  from h(2) assms have "threat_ok (?t\<lparr>heapSize := length (tt_entries ?t), tt_heap := h\<rparr>)"
    unfolding threat_ok_def by simp
  with h(1) show thesis using that by simp
qed

text \<open>One functional description per operation: it does not panic, keeps the invariant, and updates the map.\<close>

definition steps_to :: "ThreatTable option \<Rightarrow> (u64 \<rightharpoonup> int) \<Rightarrow> bool" where
  "steps_to r m \<longleftrightarrow> (\<exists>t'. r = Some t' \<and> threat_ok t' \<and> threat_of t' = m)"

definition table_full :: "ThreatTable \<Rightarrow> bool" where
  "table_full t \<longleftrightarrow> length (tt_entries t) \<ge> MaxPlayers"

lemma threat_of_None_iff: "threat_of t p = None \<longleftrightarrow> find_player p (tt_entries t) = None"
  by (simp add: threat_of_def find_player_map split: option.split)

lemma steps_sort:
  assumes "threat_ok t" and "length es \<le> MaxPlayers" and "distinct (map PlayerID es)"
    and "tot = sum_list (map Threat es)"
    and "map_of (map (\<lambda>e. (PlayerID e, Threat e)) es) = m"
  shows "steps_to (threat_sort (t\<lparr>tt_entries := es, totalThreat := tot\<rparr>)) m"
proof -
  from sort_step [OF assms(1-4)] obtain t' where
    "threat_sort (t\<lparr>tt_entries := es, totalThreat := tot\<rparr>) = Some t'" "threat_ok t'" "tt_entries t' = es"
    by blast
  with assms(5) show ?thesis by (simp add: steps_to_def threat_of_def)
qed

lemma steps_bump:
  assumes ok: "threat_ok t" and f: "find_player p (tt_entries t) = Some i"
    and tot: "tot = totalThreat t + (v - Threat (tt_entries t ! i))"
  shows "steps_to (threat_sort (t\<lparr>tt_entries := bump i v (tt_entries t), totalThreat := tot\<rparr>))
     ((threat_of t)(p \<mapsto> v))"
proof (rule steps_sort [OF ok])
  from f have i: "i < length (tt_entries t)" "PlayerID (tt_entries t ! i) = p"
    by (auto dest: find_player_Some)
  from ok have t: "distinct (map PlayerID (tt_entries t))" "length (tt_entries t) \<le> MaxPlayers"
    "totalThreat t = sum_list (map Threat (tt_entries t))" by (simp_all add: threat_ok_def)
  show "length (bump i v (tt_entries t)) \<le> MaxPlayers" using t by simp
  show "distinct (map PlayerID (bump i v (tt_entries t)))" using t i by simp
  show "tot = sum_list (map Threat (bump i v (tt_entries t)))" using t i tot by (simp add: sum_bump)
  show "map_of (map (\<lambda>e. (PlayerID e, Threat e)) (bump i v (tt_entries t))) = (threat_of t)(p \<mapsto> v)"
    using map_bump [OF t(1) i(1)] i(2) by (simp add: threat_of_def)
qed

lemma steps_append:
  assumes ok: "threat_ok t" and f: "find_player p (tt_entries t) = None" and room: "\<not> table_full t"
  shows "steps_to (threat_sort (t\<lparr>tt_entries := tt_entries t @ [\<lparr>PlayerID = p, Threat = a\<rparr>],
                                  totalThreat := totalThreat t + a\<rparr>))
     ((threat_of t)(p \<mapsto> a))"
proof (rule steps_sort [OF ok])
  let ?es = "tt_entries t @ [\<lparr>PlayerID = p, Threat = a\<rparr>]"
  from ok f room show "length ?es \<le> MaxPlayers" and "distinct (map PlayerID ?es)"
    and "totalThreat t + a = sum_list (map Threat ?es)"
    by (auto simp: threat_ok_def table_full_def find_player_None)
  show "map_of (map (\<lambda>e. (PlayerID e, Threat e)) ?es) = (threat_of t)(p \<mapsto> a)"
    using f by (auto simp: fun_eq_iff threat_of_def find_player_map map_add_def split: option.split)
qed

lemma Add_steps:
  assumes "threat_ok t"
  shows "steps_to (threat_Add p a t) (if table_full t then threat_of t else (threat_of t)(p \<mapsto> threat_Get p t + a))"
proof (cases "table_full t")
  case True
  with assms show ?thesis by (simp add: threat_Add_def table_full_def steps_to_def)
next
  case False
  show ?thesis
  proof (cases "find_player p (tt_entries t)")
    case None
    with False steps_append [OF assms None False, of a] show ?thesis
      by (simp add: threat_Add_def table_full_def threat_Get_def)
  next
    case (Some i)
    have "totalThreat t + a = totalThreat t + (Threat (tt_entries t ! i) + a - Threat (tt_entries t ! i))" by simp
    from steps_bump [OF assms Some this] False Some show ?thesis
      by (simp add: threat_Add_def table_full_def threat_Get_def)
  qed
qed

lemma Set_steps:
  assumes "threat_ok t" and "table_full t \<Longrightarrow> threat_of t p \<noteq> None"
  shows "steps_to (threat_Set p a t) ((threat_of t)(p \<mapsto> a))"
proof (cases "find_player p (tt_entries t)")
  case None
  with assms(2) have "\<not> table_full t" by (auto simp: threat_of_None_iff)
  from steps_append [OF assms(1) None this] None show ?thesis by (simp add: threat_Set_def)
next
  case (Some i)
  from steps_bump [OF assms(1) Some refl] Some show ?thesis by (simp add: threat_Set_def Let_def)
qed

text \<open>\<open>Set\<close> has no guard against a full table: the 65th entry indexes past the heap array.\<close>

lemma Set_panics:
  assumes "threat_ok t" and "table_full t" and "threat_of t p = None"
  shows "threat_Set p a t = None"
  using assms by (simp add: threat_Set_def threat_of_None_iff threat_sort_def table_full_def Let_def)

lemma Remove_steps:
  assumes ok: "threat_ok t"
  shows "steps_to (threat_Remove p t) ((threat_of t)(p := None))"
proof (cases "find_player p (tt_entries t)")
  case None
  then have "(threat_of t)(p := None) = threat_of t"
    using threat_of_None_iff [of t p] by (simp add: fun_upd_idem)
  with None ok show ?thesis by (simp add: threat_Remove_def steps_to_def)
next
  case (Some i)
  let ?es = "tt_entries t" and ?es' = "take i (tt_entries t) @ drop (i + 1) (tt_entries t)"
  from Some have i: "i < length ?es" "PlayerID (?es ! i) = p" by (auto dest: find_player_Some)
  then have split: "?es = take i ?es @ ?es ! i # drop (i + 1) ?es" by (simp add: id_take_nth_drop)
  from ok have d: "distinct (map PlayerID ?es)" and s: "totalThreat t = sum_list (map Threat ?es)"
    by (auto simp: threat_ok_def)
  have "distinct (map PlayerID (take i ?es @ ?es ! i # drop (i + 1) ?es))" using d split by metis
  with i(2) have d': "distinct (map PlayerID ?es')" and pn: "p \<notin> PlayerID ` set ?es'" by auto
  have "totalThreat t = sum_list (map Threat (take i ?es @ ?es ! i # drop (i + 1) ?es))" using s split by metis
  then have s': "totalThreat t - Threat (?es ! i) = sum_list (map Threat ?es')" by simp
  have "threat_of t = map_of (map (\<lambda>e. (PlayerID e, Threat e)) (take i ?es @ ?es ! i # drop (i + 1) ?es))"
    unfolding threat_of_def using split by metis
  moreover have "p \<notin> fst ` set (map (\<lambda>e. (PlayerID e, Threat e)) (take i ?es))"
    and "p \<notin> fst ` set (map (\<lambda>e. (PlayerID e, Threat e)) (drop (i + 1) ?es))"
    using pn by (auto simp: image_image)
  ultimately have m: "map_of (map (\<lambda>e. (PlayerID e, Threat e)) ?es') = (threat_of t)(p := None)"
    using i(2) map_of_middle [of p "map (\<lambda>e. (PlayerID e, Threat e)) (take i ?es)"
        "map (\<lambda>e. (PlayerID e, Threat e)) (drop (i + 1) ?es)" "Threat (?es ! i)"] by simp
  have "length ?es' \<le> MaxPlayers" using ok i by (auto simp: threat_ok_def)
  from steps_sort [OF ok this d' s' m] Some show ?thesis by (simp add: threat_Remove_def)
qed

lemma Clear_steps: "threat_ok t \<Longrightarrow> threat_ok (threat_Clear t) \<and> threat_of (threat_Clear t) = Map.empty"
  by (auto simp: threat_ok_def heap_ok_def threat_Clear_def threat_of_def heap_from_def)

lemma NewFrom_ok:
  assumes "length (tt_heap old) = MaxPlayers"
  shows "threat_ok (NewThreatTableFrom old [])" and "threat_ok (NewThreatTableWithDecayFrom old [] r)"
  using assms by (auto simp: threat_ok_def heap_ok_def NewThreatTableFrom_def NewThreatTableWithDecayFrom_def heap_from_def)

lemma New_ok: "threat_ok NewThreatTable" "threat_ok (NewThreatTableWithDecay r)"
  using NewFrom_ok [of pool_table] by (simp_all add: NewThreatTable_def NewThreatTableWithDecay_def pool_table_def)

lemma ResetWipe_steps:
  assumes "threat_ok t"
  shows "steps_to (threat_ResetWipe p t) (if threat_of t p = None then threat_of t else (threat_of t)(p \<mapsto> 0))"
proof (cases "find_player p (tt_entries t)")
  case None
  with assms show ?thesis by (simp add: threat_ResetWipe_def threat_of_None_iff steps_to_def)
next
  case (Some i)
  have "totalThreat t - Threat (tt_entries t ! i) = totalThreat t + (0 - Threat (tt_entries t ! i))" by simp
  from steps_bump [OF assms Some this] Some show ?thesis
    using threat_of_None_iff [of t p] by (auto simp: threat_ResetWipe_def)
qed

subsection \<open>Top\<close>

lemma Top_max:
  assumes ok: "threat_ok t" and ne: "threat_of t \<noteq> Map.empty"
  obtains p v where "threat_Top t = (p, v)" and "threat_of t p = Some v"
    and "\<And>q w. threat_of t q = Some w \<Longrightarrow> w \<le> v"
proof -
  let ?es = "tt_entries t" and ?h = "tt_heap t"
  let ?n = "length ?es" and ?e = "?es ! (?h ! 0)"
  have pos: "0 < ?n" using ne by (auto simp: threat_of_def)
  from ok have len: "length ?h = MaxPlayers" "?n \<le> MaxPlayers"
    and perm: "mset (take ?n ?h) = mset [0..<?n]"
    and hp: "heap_from (heap_key ?es ?h) ?n 0" and d: "distinct (map PlayerID ?es)"
    by (simp_all add: threat_ok_def heap_ok_def)
  have cells: "set (take ?n ?h) = {0..<?n}" using mset_eq_setD [OF perm] by simp
  have "?h ! 0 \<in> set (take ?n ?h)" using pos len by (metis length_take min.absorb2 nth_mem nth_take)
  then have h0: "?h ! 0 < ?n" using cells by simp
  have top: "threat_Top t = (PlayerID ?e, Threat ?e)" using pos by (simp add: threat_Top_def Let_def)
  have keyed: "map_of (map (\<lambda>e. (PlayerID e, Threat e)) ?es) (PlayerID ?e) = Some (Threat ?e)"
    using d h0 by (intro map_of_is_SomeI) (auto simp: comp_def)
  have max: "w \<le> Threat ?e" if w: "threat_of t q = Some w" for q w
  proof -
    from w have "(q, w) \<in> set (map (\<lambda>e. (PlayerID e, Threat e)) ?es)"
      unfolding threat_of_def by (rule map_of_SomeD)
    then obtain i where i: "i < ?n" "w = Threat (?es ! i)" by (auto simp: in_set_conv_nth)
    with cells have "i \<in> set (take ?n ?h)" by auto
    then obtain c where c: "c < ?n" "?h ! c = i" using len by (auto simp: in_set_conv_nth)
    with heap_root_max [OF hp c(1)] i show ?thesis by (simp add: heap_key_def)
  qed
  from that [OF top] keyed max show thesis by (simp add: threat_of_def)
qed

lemma Top_value:
  "threat_ok t \<Longrightarrow> threat_of t p = Some v \<Longrightarrow> (\<And>q w. threat_of t q = Some w \<Longrightarrow> q \<noteq> p \<Longrightarrow> w < v) \<Longrightarrow>
   threat_Top t = (p, v)"
  by (rule Top_max [of t]) (auto, metis linorder_not_le option.inject, metis linorder_not_le option.inject)

subsection \<open>Decay, taunt, transfer\<close>

definition decay_value :: "int \<Rightarrow> int \<Rightarrow> int" where
  "decay_value rate v = v - go_div (v * rate) 1000"

lemma Decay_steps:
  assumes ok: "threat_ok t"
  shows "steps_to (threat_Decay t) (map_option (decay_value (decayRate t)) \<circ> threat_of t)"
proof -
  let ?es = "map (decay_entry (decayRate t)) (tt_entries t)"
  have ids: "map PlayerID ?es = map PlayerID (tt_entries t)"
    by (simp add: decay_entry_def)
  have "fold (\<lambda>e acc. acc + Threat e) es a = a + sum_list (map Threat es)" for es a
    by (induction es arbitrary: a) auto
  from this [of ?es 0] have tot: "fold (\<lambda>e acc. acc + Threat e) ?es 0 = sum_list (map Threat ?es)"
    by (simp only: add_0)
  have "map_of (map (\<lambda>e. (PlayerID e, Threat e)) (map (decay_entry r) es)) =
      map_option (decay_value r) \<circ> map_of (map (\<lambda>e. (PlayerID e, Threat e)) es)" for r es
    by (induction es) (auto simp: fun_eq_iff decay_entry_def decay_value_def)
  then have m: "map_of (map (\<lambda>e. (PlayerID e, Threat e)) ?es) = map_option (decay_value (decayRate t)) \<circ> threat_of t"
    by (simp add: threat_of_def)
  have "length ?es \<le> MaxPlayers" "distinct (map PlayerID ?es)"
    using ok unfolding threat_ok_def by (simp, simp only: ids)
  from steps_sort [OF ok this tot m] show ?thesis by (simp add: threat_Decay_def Let_def)
qed

lemma decay_bounds: "0 \<le> v \<Longrightarrow> 0 \<le> r \<Longrightarrow> r \<le> 1000 \<Longrightarrow> 0 \<le> decay_value r v \<and> decay_value r v \<le> v"
proof -
  assume "0 \<le> v" "0 \<le> r" "r \<le> 1000"
  moreover from this have "v * r \<le> v * 1000" and "0 \<le> v * r" by (simp_all add: mult_left_mono)
  ultimately show ?thesis by (simp add: decay_value_def pos_imp_zdiv_nonneg_iff) 
qed

lemma decay_mono: "0 \<le> v \<Longrightarrow> v \<le> w \<Longrightarrow> 0 \<le> r \<Longrightarrow> r \<le> 1000 \<Longrightarrow> decay_value r v \<le> decay_value r w"
proof -
  assume a: "0 \<le> v" "v \<le> w" "0 \<le> r" "r \<le> 1000"
  have "w * r = v * r + (w - v) * r" by (simp add: algebra_simps)
  also have "\<dots> \<le> v * r + (w - v) * 1000" using a mult_left_mono [of r 1000 "w - v"] by simp
  finally have "w * r div 1000 \<le> (v * r + (w - v) * 1000) div 1000" by (rule zdiv_mono1) simp
  also have "\<dots> = v * r div 1000 + (w - v)" by simp
  finally show ?thesis using a by (simp add: decay_value_def)
qed

lemma threat_sort_keeps:
  "threat_sort t = Some t' \<Longrightarrow>
   tt_entries t' = tt_entries t \<and> totalThreat t' = totalThreat t \<and> decayRate t' = decayRate t"
  by (auto simp: threat_sort_def Let_def split: if_splits)

lemma Add_total:
  assumes "\<not> table_full t" and "threat_Add p a t = Some t'"
  shows "totalThreat t' = totalThreat t + a \<and>
    length (tt_entries t') = length (tt_entries t) + (if threat_of t p = None then 1 else 0)"
  using assms
  by (auto simp: threat_Add_def table_full_def threat_of_None_iff split: option.splits
      dest!: threat_sort_keeps)

lemma steps_toE:
  assumes "steps_to r m"
  obtains t' where "r = Some t'" and "threat_ok t'" and "threat_of t' = m"
  using assms unfolding steps_to_def by blast

lemma Taunt_tops:
  assumes ok: "threat_ok t" and room: "\<not> table_full t" and ne: "threat_of t \<noteq> Map.empty"
    and nn: "\<And>q w. threat_of t q = Some w \<Longrightarrow> 0 \<le> w" and m: "1000 \<le> m"
  shows "\<exists>t'. threat_Taunt p m t = Some t' \<and> threat_ok t' \<and> fst (threat_Top t') = p"
proof -
  obtain q v where top: "threat_Top t = (q, v)" "threat_of t q = Some v"
    and max: "\<And>r w. threat_of t r = Some w \<Longrightarrow> w \<le> v"
    using Top_max [OF ok ne] by blast
  from ne have len: "tt_entries t \<noteq> []" by (auto simp: threat_of_def)
  with top have hv: "Threat (tt_entries t ! (tt_heap t ! 0)) = v" by (simp add: threat_Top_def Let_def)
  let ?a = "go_div ((v + 1) * m) 1000"
  have v: "0 \<le> v" using nn top by blast
  have "(v + 1) * 1000 \<le> (v + 1) * m" using v m by (intro mult_left_mono) auto
  then have "(v + 1) * 1000 div 1000 \<le> (v + 1) * m div 1000" by (intro zdiv_mono1) auto
  then have a: "v + 1 \<le> ?a" using v m by simp
  have taunt: "threat_Taunt p m t = threat_Add p ?a t" using len hv by (simp add: threat_Taunt_def Let_def)
  from Add_steps [OF ok, of p ?a] room obtain t' where
    t': "threat_Add p ?a t = Some t'" "threat_ok t'" "threat_of t' = (threat_of t)(p \<mapsto> threat_Get p t + ?a)"
    by (auto elim: steps_toE)
  have g: "0 \<le> threat_Get p t" using nn by (auto simp: threat_Get_of split: option.split)
  have "threat_Top t' = (p, threat_Get p t + ?a)"
  proof (rule Top_value [OF t'(2)])
    show "threat_of t' p = Some (threat_Get p t + ?a)" using t' by simp
    show "w < threat_Get p t + ?a" if "threat_of t' r = Some w" "r \<noteq> p" for r w
    proof -
      from that t'(3) max have "w \<le> v" by auto
      with a g show ?thesis by linarith
    qed
  qed
  with t' taunt show ?thesis by simp
qed

lemma Transfer_total:
  assumes ok: "threat_ok t" and room: "length (tt_entries t) + 1 < MaxPlayers"
  shows "\<exists>t'. threat_Transfer p q pct t = Some t' \<and> threat_ok t' \<and> totalThreat t' = totalThreat t"
proof (cases "threat_Get p t = 0")
  case True
  with ok show ?thesis by (auto simp: threat_Transfer_def Let_def threat_Get_def)
next
  case False
  let ?a = "go_div (threat_Get p t * pct) 1000"
  have nf: "\<not> table_full t" using room by (simp add: table_full_def)
  with Add_steps [OF ok, of q ?a] obtain t1 where t1: "threat_Add q ?a t = Some t1" "threat_ok t1"
    by (auto elim: steps_toE)
  from Add_total [OF nf t1(1)] room have nf1: "\<not> table_full t1" and tot1: "totalThreat t1 = totalThreat t + ?a"
    by (auto simp: table_full_def split: if_splits)
  with Add_steps [OF t1(2), of p "- ?a"] obtain t2 where t2: "threat_Add p (- ?a) t1 = Some t2" "threat_ok t2"
    by (auto elim: steps_toE)
  from Add_total [OF nf1 t2(1)] tot1 have "totalThreat t2 = totalThreat t" by simp
  moreover have "threat_Transfer p q pct t = Some t2"
    using False t1 t2 by (simp add: threat_Transfer_def threat_Get_def [symmetric] Let_def)
  ultimately show ?thesis using t2 by blast
qed

text \<open>
  With 63 entries a transfer to a new player fills the table, and the second \<open>Add\<close>, which takes the
  threat from the source, is dropped: the total grows.
\<close>

lemma Transfer_creates_threat:
  assumes ok: "threat_ok t" and len: "length (tt_entries t) + 1 = MaxPlayers"
    and q: "threat_of t q = None" and p: "threat_Get p t \<noteq> 0"
  shows "\<exists>t'. threat_Transfer p q pct t = Some t' \<and>
           totalThreat t' = totalThreat t + go_div (threat_Get p t * pct) 1000"
proof -
  let ?a = "go_div (threat_Get p t * pct) 1000"
  have nf: "\<not> table_full t" using len by (simp add: table_full_def)
  with Add_steps [OF ok, of q ?a] obtain t1 where t1: "threat_Add q ?a t = Some t1" "threat_ok t1"
    by (auto elim: steps_toE)
  from Add_total [OF nf t1(1)] len q have "table_full t1" and tot1: "totalThreat t1 = totalThreat t + ?a"
    by (auto simp: table_full_def)
  then have "threat_Add p (- ?a) t1 = Some t1" by (simp add: threat_Add_def table_full_def)
  with p t1 tot1 show ?thesis
    by (simp add: threat_Transfer_def threat_Get_def [symmetric] Let_def)
qed

subsection \<open>The interface the monster AI relies on\<close>

locale aggro_table =
  fixes top :: "'t \<Rightarrow> u64 \<times> int"
    and view :: "'t \<Rightarrow> u64 \<rightharpoonup> int"
    and ok :: "'t \<Rightarrow> bool"
    and remove :: "u64 \<Rightarrow> 't \<Rightarrow> 't option"
    and decay :: "'t \<Rightarrow> 't option"
  assumes top_law: "ok t \<Longrightarrow> view t \<noteq> Map.empty \<Longrightarrow>
      view t (fst (top t)) = Some (snd (top t)) \<and> (\<forall>q w. view t q = Some w \<longrightarrow> w \<le> snd (top t))"
    and remove_law: "ok t \<Longrightarrow> \<exists>t'. remove p t = Some t' \<and> ok t' \<and> view t' = (view t)(p := None)"
    and decay_law: "ok t \<Longrightarrow> \<exists>t'. decay t = Some t' \<and> ok t' \<and> dom (view t') = dom (view t)"
begin

lemma removed_not_top:
  assumes "ok t" and "remove p t = Some t'" and "view t' \<noteq> Map.empty"
  shows "fst (top t') \<noteq> p"
proof -
  from remove_law [OF assms(1), of p] assms(2) have t': "ok t'" "view t' = (view t)(p := None)" by auto
  from top_law [OF t'(1) assms(3)] t'(2) show ?thesis by (auto split: if_splits)
qed

lemma positive_top:
  assumes "ok t" and "view t q = Some w" and "0 < w"
  shows "0 < snd (top t)"
proof -
  from assms(2) have "view t \<noteq> Map.empty" by auto
  from top_law [OF assms(1) this] assms(2,3) show ?thesis by fastforce
qed

lemma decay_keeps_players:
  assumes "ok t" and "decay t = Some t'" and "view t \<noteq> Map.empty"
  shows "view t (fst (top t')) \<noteq> None"
proof -
  from decay_law [OF assms(1)] assms(2) have t': "ok t'" "dom (view t') = dom (view t)" by auto
  with assms(3) have "view t' \<noteq> Map.empty" by (metis dom_eq_empty_conv)
  from top_law [OF t'(1) this] t'(2) show ?thesis by (metis domI domIff)
qed

end

interpretation aggro: aggro_table threat_Top threat_of threat_ok threat_Remove threat_Decay
proof unfold_locales
  fix t :: ThreatTable and p
  show "threat_of t (fst (threat_Top t)) = Some (snd (threat_Top t)) \<and>
      (\<forall>q w. threat_of t q = Some w \<longrightarrow> w \<le> snd (threat_Top t))"
    if "threat_ok t" "threat_of t \<noteq> Map.empty"
    using that by (rule Top_max) auto
  show "\<exists>t'. threat_Remove p t = Some t' \<and> threat_ok t' \<and> threat_of t' = (threat_of t)(p := None)"
    if "threat_ok t"
    using Remove_steps [OF that] unfolding steps_to_def .
  show "\<exists>t'. threat_Decay t = Some t' \<and> threat_ok t' \<and> dom (threat_of t') = dom (threat_of t)"
    if "threat_ok t"
    using Decay_steps [OF that] unfolding steps_to_def by (auto simp: dom_def)
qed

subsection \<open>Properties\<close>

text \<open>
  The operations that change a table, as data, so that a property can speak of any sequence of them.
\<close>

datatype threat_op =
    TAdd u64 int
  | TSet u64 int
  | TRemove u64
  | TDecay
  | TTaunt u64 int
  | TTransfer u64 u64 int
  | TResetWipe u64
  | TFullWipe
  | TSetDecayRate int

primrec apply_threat :: "threat_op \<Rightarrow> ThreatTable \<Rightarrow> ThreatTable option" where
  "apply_threat (TAdd p a) t = threat_Add p a t"
| "apply_threat (TSet p a) t = threat_Set p a t"
| "apply_threat (TRemove p) t = threat_Remove p t"
| "apply_threat TDecay t = threat_Decay t"
| "apply_threat (TTaunt p m) t = threat_Taunt p m t"
| "apply_threat (TTransfer p q c) t = threat_Transfer p q c t"
| "apply_threat (TResetWipe p) t = threat_ResetWipe p t"
| "apply_threat TFullWipe t = Some (threat_FullWipe t)"
| "apply_threat (TSetDecayRate r) t = Some (threat_SetDecayRate r t)"

primrec run_threat :: "threat_op list \<Rightarrow> ThreatTable \<Rightarrow> ThreatTable option" where
  "run_threat [] t = Some t"
| "run_threat (x # xs) t = Option.bind (apply_threat x t) (run_threat xs)"

primrec is_TSet :: "threat_op \<Rightarrow> bool" where
  "is_TSet (TAdd p a) = False"
| "is_TSet (TSet p a) = True"
| "is_TSet (TRemove p) = False"
| "is_TSet TDecay = False"
| "is_TSet (TTaunt p m) = False"
| "is_TSet (TTransfer p q c) = False"
| "is_TSet (TResetWipe p) = False"
| "is_TSet TFullWipe = False"
| "is_TSet (TSetDecayRate r) = False"

lemma steps_ok: "steps_to r m \<Longrightarrow> \<exists>t'. r = Some t' \<and> threat_ok t'"
  by (auto simp: steps_to_def)

lemma SetDecayRate_ok: "threat_ok t \<Longrightarrow> threat_ok (threat_SetDecayRate r t)"
  by (auto simp: threat_SetDecayRate_def threat_ok_def heap_ok_def)

lemma Taunt_ok: "threat_ok t \<Longrightarrow> \<exists>t'. threat_Taunt p m t = Some t' \<and> threat_ok t'"
  using steps_ok [OF Add_steps [of t p]] by (simp add: threat_Taunt_def Let_def)

lemma Transfer_ok:
  assumes ok: "threat_ok t"
  shows "\<exists>t'. threat_Transfer p q c t = Some t' \<and> threat_ok t'"
proof -
  let ?a = "go_div (threat_Get p t * c) 1000"
  from steps_ok [OF Add_steps [OF ok, of q ?a]] obtain t1 where t1: "threat_Add q ?a t = Some t1" "threat_ok t1"
    by blast
  from steps_ok [OF Add_steps [OF t1(2), of p "- ?a"]] t1 ok show ?thesis
    by (simp add: threat_Transfer_def threat_Get_def [symmetric] Let_def)
qed

lemma apply_threat_ok:
  "threat_ok t \<Longrightarrow> \<not> is_TSet x \<Longrightarrow> \<exists>t'. apply_threat x t = Some t' \<and> threat_ok t'"
  by (cases x)
     (simp_all add: steps_ok [OF Add_steps] steps_ok [OF Remove_steps] steps_ok [OF Decay_steps] Taunt_ok
       Transfer_ok steps_ok [OF ResetWipe_steps] threat_FullWipe_def Clear_steps SetDecayRate_ok)

text \<open>
  C23 No sequence of threat operations other than \<open>Set\<close>, started on a table that the constructor made of any
  recycled struct with an empty slice of its own, panics, and after it the cached total is the sum of the entries,
  players are distinct, at most 64 are tracked, and \<open>Top\<close> is an entry of maximal threat.
\<close>

theorem threat_sequences_safe:
  assumes "list_all (\<lambda>x. \<not> is_TSet x) xs" and "length (tt_heap old) = MaxPlayers"
  shows "\<exists>t'. run_threat xs (NewThreatTableWithDecayFrom old [] r) = Some t' \<and>
     threat_Total t' = sum_list (map Threat (tt_entries t')) \<and> distinct (map PlayerID (tt_entries t')) \<and>
     threat_Len t' \<le> MaxPlayers \<and>
     (tt_entries t' \<noteq> [] \<longrightarrow> snd (threat_Top t') = Max (Threat ` set (tt_entries t')))"
proof -
  have "\<exists>t'. run_threat xs t = Some t' \<and> threat_ok t'" if "threat_ok t" for t
    using assms(1) that
  proof (induction xs arbitrary: t)
    case (Cons x xs)
    then show ?case using apply_threat_ok [of t x] by fastforce
  qed simp
  then obtain t' where run: "run_threat xs (NewThreatTableWithDecayFrom old [] r) = Some t'" and ok: "threat_ok t'"
    using NewFrom_ok(2) [OF assms(2)] by blast
  have "snd (threat_Top t') = Max (Threat ` set (tt_entries t'))" if "tt_entries t' \<noteq> []"
  proof -
    have d: "distinct (map PlayerID (tt_entries t'))" using ok by (simp add: threat_ok_def)
    have lookup: "threat_of t' (PlayerID e) = Some (Threat e)" if "e \<in> set (tt_entries t')" for e
      unfolding threat_of_def using d that by (intro map_of_is_SomeI) (auto simp: comp_def)
    from that have "threat_of t' \<noteq> Map.empty" by (auto simp: threat_of_def)
    from aggro.top_law [OF ok this]
    have top: "threat_of t' (fst (threat_Top t')) = Some (snd (threat_Top t'))"
      and max: "\<forall>q w. threat_of t' q = Some w \<longrightarrow> w \<le> snd (threat_Top t')" by auto
    from top have "snd (threat_Top t') \<in> Threat ` set (tt_entries t')"
      unfolding threat_of_def by (auto dest!: map_of_SomeD)
    with max lookup show ?thesis by (intro Max_eqI [symmetric]) auto
  qed
  with run ok show ?thesis by (auto simp: threat_ok_def threat_Total_def threat_Len_def)
qed

theorem threat_sequences_safe_witness:
  "\<exists>t'. run_threat [TAdd 7 100, TAdd 9 30, TTaunt 9 2000, TTransfer 7 3 500, TDecay, TRemove 7]
        (NewThreatTableWithDecay 20) = Some t' \<and>
     threat_Total t' = sum_list (map Threat (tt_entries t')) \<and> distinct (map PlayerID (tt_entries t')) \<and>
     threat_Len t' \<le> MaxPlayers \<and>
     (tt_entries t' \<noteq> [] \<longrightarrow> snd (threat_Top t') = Max (Threat ` set (tt_entries t')))"
  unfolding NewThreatTableWithDecay_def by (rule threat_sequences_safe) (simp_all add: pool_table_def)

text \<open>
  C24 On a well-formed table that is not full, each mutation succeeds and acts on the player-to-threat map
  as documented: \<open>Add\<close> increments one player, \<open>Remove\<close> deletes one, \<open>ResetWipe\<close> zeroes a known one,
  \<open>Decay\<close> applies the decay rate to all, and a taunt of at least 1000 per mille on a table without
  negative threat puts the taunting player on top.
\<close>

theorem threat_ops_refine:
  assumes ok: "threat_ok t" and room: "\<not> table_full t"
  shows "steps_to (threat_Add p a t) ((threat_of t)(p \<mapsto> threat_Get p t + a)) \<and>
    steps_to (threat_Set p a t) ((threat_of t)(p \<mapsto> a)) \<and>
    steps_to (threat_Remove p t) ((threat_of t)(p := None)) \<and>
    steps_to (threat_Decay t) (map_option (decay_value (decayRate t)) \<circ> threat_of t) \<and>
    steps_to (threat_ResetWipe p t) (if threat_of t p = None then threat_of t else (threat_of t)(p \<mapsto> 0)) \<and>
    (tt_entries t \<noteq> [] \<and> (\<forall>e \<in> set (tt_entries t). 0 \<le> Threat e) \<and> 1000 \<le> m \<longrightarrow>
       map_option (fst \<circ> threat_Top) (threat_Taunt p m t) = Some p)"
proof (intro conjI impI)
  assume a: "tt_entries t \<noteq> [] \<and> (\<forall>e \<in> set (tt_entries t). 0 \<le> Threat e) \<and> 1000 \<le> m"
  then have "threat_of t \<noteq> Map.empty" by (auto simp: threat_of_def)
  moreover have "0 \<le> w" if "threat_of t q = Some w" for q w
    using that a unfolding threat_of_def by (auto dest!: map_of_SomeD)
  ultimately show "map_option (fst \<circ> threat_Top) (threat_Taunt p m t) = Some p"
    using Taunt_tops [OF ok room, of m p] a by fastforce
qed (use Add_steps [OF ok, of p a] Set_steps [OF ok, of p a] Remove_steps [OF ok, of p] Decay_steps [OF ok]
       ResetWipe_steps [OF ok, of p] room in simp_all)

theorem threat_ops_refine_witness:
  "steps_to (threat_Add 5 10 NewThreatTable) ((threat_of NewThreatTable)(5 \<mapsto> threat_Get 5 NewThreatTable + 10))"
  using threat_ops_refine [OF New_ok(1), of 5 10 0] by (simp add: table_full_def NewThreatTable_def NewThreatTableFrom_def pool_table_def MaxPlayers_def)

end
