(* ===== verification/Astar.thy ===== *)
theory Astar
  imports Heap_Order Gmath
begin

text \<open>
  \<open>server/peakgo/astar/astar.go\<close>: A* on the 8-connected grid. The package-level node cache of 512 slots is
  part of the state record (a caller holds it alone while it searches), the open list is the binary heap
  of node indices with its position table, of which the live prefix is kept. Coordinates and costs are
  \<open>int32\<close> in the code; grid coordinates are at most 1000 and path costs at most \<open>14 * 512\<close>, so the
  model uses \<open>int\<close>.
\<close>

subsection \<open>Data\<close>

definition MaxPathNodes :: nat where
  "MaxPathNodes = 512"

definition costStraight :: int where
  "costStraight = 10"

definition costDiagonal :: int where
  "costDiagonal = 14"

record Node =
  nodeX :: int
  nodeZ :: int
  nodeG :: int
  nodeH :: int
  nodeParent :: int
  nodeClosed :: bool
  nodeOpen :: bool

definition zero_node :: Node where
  "zero_node = \<lparr>nodeX = 0, nodeZ = 0, nodeG = 0, nodeH = 0, nodeParent = 0, nodeClosed = False, nodeOpen = False\<rparr>"

record PathResult =
  path_Found :: bool
  path_Len :: nat
  path_Points :: "(int \<times> int) list"

definition zero_path :: PathResult where
  "zero_path = \<lparr>path_Found = False, path_Len = 0, path_Points = replicate MaxPathNodes (0, 0)\<rparr>"

text \<open>\<open>PathCache\<close> with the shared \<open>cache\<close> array; \<open>open_nodes\<close> is \<open>openList.nodes[0..len)\<close>.\<close>

record PathCache =
  cache :: "Node list"
  nodeCount :: nat
  open_nodes :: "nat list"
  open_indices :: "nat \<Rightarrow> int"

definition NewPathCache :: PathCache where
  "NewPathCache = \<lparr>cache = replicate MaxPathNodes zero_node, nodeCount = 0, open_nodes = [], open_indices = (\<lambda>_. -1)\<rparr>"

text \<open>The indices array is cleared for the 512 node slots only; no other node index exists.\<close>

definition heap_reset :: "PathCache \<Rightarrow> PathCache" where
  "heap_reset pc = pc\<lparr>open_nodes := [], open_indices := (\<lambda>i. if i < MaxPathNodes then -1 else open_indices pc i)\<rparr>"

definition PathCache_Reset :: "PathCache \<Rightarrow> PathCache" where
  "PathCache_Reset pc = heap_reset (pc\<lparr>cache := replicate (nodeCount pc) zero_node @ drop (nodeCount pc) (cache pc),
     nodeCount := 0\<rparr>)"

subsection \<open>The open list\<close>

definition node_at :: "PathCache \<Rightarrow> nat \<Rightarrow> Node" where
  "node_at pc i = cache pc ! i"

definition set_node :: "nat \<Rightarrow> (Node \<Rightarrow> Node) \<Rightarrow> PathCache \<Rightarrow> PathCache" where
  "set_node i f pc = pc\<lparr>cache := (cache pc)[i := f (cache pc ! i)]\<rparr>"

definition heap_less :: "PathCache \<Rightarrow> nat \<Rightarrow> nat \<Rightarrow> bool" where
  "heap_less pc i j =
     (let a = node_at pc (open_nodes pc ! i); b = node_at pc (open_nodes pc ! j);
          fa = nodeG a + nodeH a; fb = nodeG b + nodeH b
      in if fa \<noteq> fb then fa < fb else nodeH a < nodeH b)"

text \<open>Exchange two heap cells and record their new positions.\<close>

definition heap_swap :: "nat \<Rightarrow> nat \<Rightarrow> PathCache \<Rightarrow> PathCache" where
  "heap_swap i j pc =
     (let ns = exchange i j (open_nodes pc)
      in pc\<lparr>open_nodes := ns, open_indices := (open_indices pc)(ns ! i := int i, ns ! j := int j)\<rparr>)"

function heap_up :: "nat \<Rightarrow> PathCache \<Rightarrow> PathCache" where
  "heap_up pos pc =
     (if pos > 0
      then let par = (pos - 1) div 2
           in if \<not> heap_less pc pos par then pc else heap_up par (heap_swap pos par pc)
      else pc)"
  by pat_completeness auto
termination by (relation "measure fst") auto

declare heap_up.simps [simp del]

function heap_down :: "nat \<Rightarrow> PathCache \<Rightarrow> PathCache" where
  "heap_down pos pc =
     (let n = length (open_nodes pc); left = 2 * pos + 1
      in if left \<ge> n then pc
         else let right = left + 1; smallest = (if right < n \<and> heap_less pc right left then right else left)
              in if heap_less pc pos smallest then pc
                 else heap_down smallest (heap_swap pos smallest pc))"
  by pat_completeness auto
termination
  by (relation "measure (\<lambda>(pos, pc). length (open_nodes pc) - pos)")
     (auto simp: heap_swap_def Let_def split: if_splits)

declare heap_down.simps [simp del]

definition heap_push :: "nat \<Rightarrow> PathCache \<Rightarrow> PathCache" where
  "heap_push idx pc =
     (if nodeOpen (node_at pc idx) then pc
      else let pc1 = set_node idx (\<lambda>nd. nd\<lparr>nodeOpen := True\<rparr>) pc;
               pos = length (open_nodes pc1);
               pc2 = pc1\<lparr>open_nodes := open_nodes pc1 @ [idx], open_indices := (open_indices pc1)(idx := int pos)\<rparr>
           in heap_up pos pc2)"

definition heap_pop :: "PathCache \<Rightarrow> (nat \<times> PathCache) option" where
  "heap_pop pc =
     (if open_nodes pc = [] then None
      else let idx = open_nodes pc ! 0;
               pc1 = set_node idx (\<lambda>nd. nd\<lparr>nodeOpen := False\<rparr>) pc;
               n = length (open_nodes pc) - 1;
               pc2 = (if n > 0
                      then let root = open_nodes pc1 ! n
                           in heap_down 0 (pc1\<lparr>open_nodes := (take n (open_nodes pc1))[0 := root],
                                               open_indices := (open_indices pc1)(root := 0)\<rparr>)
                      else pc1\<lparr>open_nodes := []\<rparr>)
           in Some (idx, pc2\<lparr>open_indices := (open_indices pc2)(idx := -1)\<rparr>))"

definition heap_fix :: "nat \<Rightarrow> PathCache \<Rightarrow> PathCache" where
  "heap_fix pos pc = heap_down pos (heap_up pos pc)"

subsection \<open>Nodes\<close>

definition allocNode :: "int \<Rightarrow> int \<Rightarrow> PathCache \<Rightarrow> nat option \<times> PathCache" where
  "allocNode x z pc =
     (if nodeCount pc \<ge> MaxPathNodes then (None, pc)
      else let idx = nodeCount pc
           in (Some idx, set_node idx (\<lambda>nd. nd\<lparr>nodeX := x, nodeZ := z, nodeParent := -1, nodeClosed := False,
                 nodeOpen := False\<rparr>) (pc\<lparr>nodeCount := idx + 1\<rparr>)))"

definition nodeIndex :: "int \<Rightarrow> int \<Rightarrow> PathCache \<Rightarrow> nat option" where
  "nodeIndex x z pc =
     List.find (\<lambda>i. nodeX (node_at pc i) = x \<and> nodeZ (node_at pc i) = z) [0..<nodeCount pc]"

definition heuristicOctile :: "int \<Rightarrow> int \<Rightarrow> int \<Rightarrow> int \<Rightarrow> int" where
  "heuristicOctile ax az bx bz =
     (let dx = Abs (ax - bx); dz = Abs (az - bz)
      in if dx > dz then costDiagonal * dz + costStraight * (dx - dz)
         else costDiagonal * dx + costStraight * (dz - dx))"

subsection \<open>The search\<close>

type_synonym IsWalkable = "int \<Rightarrow> int \<Rightarrow> bool"

definition neighbors :: "(int \<times> int) list" where
  "neighbors = [(0, -1), (0, 1), (-1, 0), (1, 0), (-1, -1), (1, -1), (-1, 1), (1, 1)]"

definition neighborCosts :: "int list" where
  "neighborCosts = [costStraight, costStraight, costStraight, costStraight,
                    costDiagonal, costDiagonal, costDiagonal, costDiagonal]"

text \<open>The body of the neighbour loop; every \<open>continue\<close> leaves the state as it is at that point.\<close>

definition expand :: "IsWalkable \<Rightarrow> int \<Rightarrow> int \<Rightarrow> nat \<Rightarrow> (int \<times> int) \<times> int \<Rightarrow> PathCache \<Rightarrow> PathCache" where
  "expand walk ex ez cur nb pc =
     (case nb of ((dx, dz), cost) \<Rightarrow>
        let cx = nodeX (node_at pc cur); cz = nodeZ (node_at pc cur); nx = cx + dx; nz = cz + dz
        in if nx < 0 \<or> nx > 100 \<or> nz < 0 \<or> nz > 100 then pc
           else if dx \<noteq> 0 \<and> dz \<noteq> 0 \<and> (\<not> walk (cx + dx) cz \<or> \<not> walk cx (cz + dz)) then pc
           else if \<not> walk nx nz then pc
           else (case (case nodeIndex nx nz pc of Some i \<Rightarrow> (Some i, pc) | None \<Rightarrow> allocNode nx nz pc) of
               (None, pc1) \<Rightarrow> pc1
             | (Some nbr, pc1) \<Rightarrow>
                 if nodeClosed (node_at pc1 nbr) then pc1
                 else let tentG = nodeG (node_at pc1 cur) + cost
                      in if \<not> nodeOpen (node_at pc1 nbr) \<or> tentG < nodeG (node_at pc1 nbr)
                         then let pc2 = set_node nbr (\<lambda>nd. nd\<lparr>nodeParent := int cur, nodeG := tentG,
                                          nodeH := heuristicOctile nx nz ex ez\<rparr>) pc1
                              in if \<not> nodeOpen (node_at pc2 nbr) then heap_push nbr pc2
                                 else (let pos = open_indices pc2 nbr
                                       in if pos \<ge> 0 then heap_fix (nat pos) pc2 else pc2)
                         else pc1))"

definition expand_all :: "IsWalkable \<Rightarrow> int \<Rightarrow> int \<Rightarrow> nat \<Rightarrow> PathCache \<Rightarrow> PathCache" where
  "expand_all walk ex ez cur pc = fold (expand walk ex ez cur) (zip neighbors neighborCosts) pc"

text \<open>The backward walk of \<open>reconstructPath\<close>, which the code itself cuts off at 512 nodes.\<close>

function walk_back :: "PathCache \<Rightarrow> int \<Rightarrow> nat list \<Rightarrow> nat list" where
  "walk_back pc idx buf =
     (if idx \<ge> 0
      then if length buf + 1 > MaxPathNodes then buf
           else walk_back pc (nodeParent (node_at pc (nat idx))) (buf @ [nat idx])
      else buf)"
  by pat_completeness auto
termination by (relation "measure (\<lambda>(pc, idx, buf). MaxPathNodes - length buf)") auto

declare walk_back.simps [simp del]

definition reconstructPath :: "PathCache \<Rightarrow> nat \<Rightarrow> PathResult" where
  "reconstructPath pc endIdx =
     (let buf = walk_back pc (int endIdx) []; len = length buf;
          pts = map (\<lambda>i. (nodeX (node_at pc i), nodeZ (node_at pc i))) (rev buf)
      in \<lparr>path_Found = True, path_Len = len, path_Points = pts @ replicate (MaxPathNodes - len) (0, 0)\<rparr>)"

function search :: "IsWalkable \<Rightarrow> int \<Rightarrow> int \<Rightarrow> nat \<Rightarrow> nat \<Rightarrow> PathCache \<Rightarrow> PathResult \<times> PathCache" where
  "search walk ex ez maxNodes expanded pc =
     (case heap_pop pc of
        None \<Rightarrow> (zero_path, pc)
      | Some (cur, pc1) \<Rightarrow>
          let pc2 = set_node cur (\<lambda>nd. nd\<lparr>nodeClosed := True\<rparr>) pc1
          in if expanded + 1 > maxNodes then (zero_path, pc2)
             else if nodeX (node_at pc2 cur) = ex \<and> nodeZ (node_at pc2 cur) = ez
             then (reconstructPath pc2 cur, pc2)
             else search walk ex ez maxNodes (expanded + 1) (expand_all walk ex ez cur pc2))"
  by pat_completeness auto
termination by (relation "measure (\<lambda>(walk, ex, ez, maxNodes, expanded, pc). maxNodes - expanded)") auto

declare search.simps [simp del]

definition findPath :: "int \<Rightarrow> int \<Rightarrow> int \<Rightarrow> int \<Rightarrow> IsWalkable \<Rightarrow> int \<Rightarrow> PathCache \<Rightarrow> PathResult \<times> PathCache" where
  "findPath sx sz ex ez walk maxNodes pc =
     (if sx = ex \<and> sz = ez
      then (zero_path\<lparr>path_Found := True, path_Len := 1, path_Points := (path_Points zero_path)[0 := (sx, sz)]\<rparr>, pc)
      else if \<not> walk sx sz \<or> \<not> walk ex ez then (zero_path, pc)
      else let m = (if maxNodes \<le> 0 \<or> maxNodes > int MaxPathNodes then MaxPathNodes else nat maxNodes);
               pc0 = PathCache_Reset pc
           in (case allocNode sx sz pc0 of
                 (None, pc1) \<Rightarrow> (zero_path, pc1)
               | (Some startIdx, pc1) \<Rightarrow>
                   let pc2 = set_node startIdx (\<lambda>nd. nd\<lparr>nodeH := heuristicOctile sx sz ex ez\<rparr>) pc1
                   in search walk ex ez m 0 (heap_push startIdx pc2)))"

text \<open>\<open>FindPath\<close> starts from a fresh \<open>PathCache\<close> over whatever the shared cache array holds.\<close>

definition FindPath :: "int \<Rightarrow> int \<Rightarrow> int \<Rightarrow> int \<Rightarrow> IsWalkable \<Rightarrow> int \<Rightarrow> Node list \<Rightarrow> PathResult" where
  "FindPath sx sz ex ez walk maxNodes nodes =
     fst (findPath sx sz ex ez walk maxNodes (heap_reset (NewPathCache\<lparr>cache := nodes\<rparr>)))"

definition FindPathWithCache :: "PathCache \<Rightarrow> int \<Rightarrow> int \<Rightarrow> int \<Rightarrow> int \<Rightarrow> IsWalkable \<Rightarrow> int \<Rightarrow> PathResult \<times> PathCache" where
  "FindPathWithCache pc sx sz ex ez walk maxNodes = findPath sx sz ex ez walk maxNodes (PathCache_Reset pc)"

subsection \<open>The open list keeps its nodes and its position table\<close>

definition idx_ok :: "PathCache \<Rightarrow> bool" where
  "idx_ok pc \<longleftrightarrow> distinct (open_nodes pc) \<and>
     (\<forall>k < length (open_nodes pc). open_indices pc (open_nodes pc ! k) = int k)"

text \<open>\<open>same_nodes pc pc'\<close>: the node cache is untouched and the open list is a permutation.\<close>

definition same_nodes :: "PathCache \<Rightarrow> PathCache \<Rightarrow> bool" where
  "same_nodes pc pc' \<longleftrightarrow> cache pc' = cache pc \<and> nodeCount pc' = nodeCount pc \<and>
     mset (open_nodes pc') = mset (open_nodes pc)"

lemma same_nodes_refl [simp]: "same_nodes pc pc"
  by (simp add: same_nodes_def)

lemma same_nodes_trans: "same_nodes a b \<Longrightarrow> same_nodes b c \<Longrightarrow> same_nodes a c"
  by (simp add: same_nodes_def)

lemma same_nodes_length: "same_nodes a b \<Longrightarrow> length (open_nodes b) = length (open_nodes a)"
  unfolding same_nodes_def by (metis size_mset)

lemma same_nodes_set: "same_nodes a b \<Longrightarrow> set (open_nodes b) = set (open_nodes a)"
  unfolding same_nodes_def by (metis mset_eq_setD)

lemma heap_swap_ok:
  assumes "i \<noteq> j" and "i < length (open_nodes pc)" and "j < length (open_nodes pc)" and "idx_ok pc"
  shows "same_nodes pc (heap_swap i j pc) \<and> idx_ok (heap_swap i j pc)"
proof
  let ?ns = "open_nodes pc"
  show "same_nodes pc (heap_swap i j pc)"
    using assms by (simp add: same_nodes_def heap_swap_def Let_def)
  have d: "distinct ?ns" and ix: "\<And>k. k < length ?ns \<Longrightarrow> open_indices pc (?ns ! k) = int k"
    using assms(4) by (auto simp: idx_ok_def)
  have "mset (exchange i j ?ns) = mset ?ns" using assms by simp
  then have d': "distinct (exchange i j ?ns)" using d by (metis mset_eq_imp_distinct_iff)
  have "((open_indices pc)(?ns ! j := int i, ?ns ! i := int j)) (exchange i j ?ns ! k) = int k"
    if "k < length ?ns" for k
    using that assms(1-3) ix [OF that] nth_eq_iff_index_eq [OF d] by (auto simp: nth_exchange)
  with d' assms show "idx_ok (heap_swap i j pc)"
    by (simp add: idx_ok_def heap_swap_def Let_def nth_exchange)
qed

lemma heap_up_ok:
  "pos < length (open_nodes pc) \<Longrightarrow> idx_ok pc \<Longrightarrow> same_nodes pc (heap_up pos pc) \<and> idx_ok (heap_up pos pc)"
proof (induction pos pc rule: heap_up.induct)
  case (1 pos pc)
  let ?par = "(pos - 1) div 2"
  show ?case
  proof (cases "pos > 0 \<and> heap_less pc pos ?par")
    case False
    then have "heap_up pos pc = pc" by (subst heap_up.simps) (auto simp: Let_def)
    with 1 show ?thesis by simp
  next
    case True
    then have step: "heap_up pos pc = heap_up ?par (heap_swap pos ?par pc)"
      by (subst heap_up.simps) (simp add: Let_def)
    from True have par: "?par < pos" by linarith
    with 1(2,3) heap_swap_ok [of pos ?par pc] have
      sw: "same_nodes pc (heap_swap pos ?par pc)" "idx_ok (heap_swap pos ?par pc)" by auto
    from 1(1) [OF _ refl] True sw same_nodes_length [OF sw(1)] par 1(2)
    have "same_nodes (heap_swap pos ?par pc) (heap_up ?par (heap_swap pos ?par pc)) \<and>
        idx_ok (heap_up ?par (heap_swap pos ?par pc))" by auto
    with sw step show ?thesis by (auto intro: same_nodes_trans)
  qed
qed

lemma heap_down_ok:
  "idx_ok pc \<Longrightarrow> same_nodes pc (heap_down pos pc) \<and> idx_ok (heap_down pos pc)"
proof (induction pos pc rule: heap_down.induct)
  case (1 pos pc)
  let ?n = "length (open_nodes pc)" and ?l = "2 * pos + 1"
  let ?s = "if ?l + 1 < ?n \<and> heap_less pc (?l + 1) ?l then ?l + 1 else ?l"
  show ?case
  proof (cases "?l \<ge> ?n \<or> heap_less pc pos ?s")
    case True
    then have "heap_down pos pc = pc" by (subst heap_down.simps) (auto simp: Let_def)
    with 1 show ?thesis by simp
  next
    case False
    have "heap_down pos pc = (if ?l \<ge> ?n then pc else if heap_less pc pos ?s then pc
        else heap_down ?s (heap_swap pos ?s pc))"
      by (subst heap_down.simps) (simp only: Let_def)
    with False have step: "heap_down pos pc = heap_down ?s (heap_swap pos ?s pc)"
      by (simp only: de_Morgan_disj if_False)
    from False have s: "?s < ?n" "pos < ?n" "pos \<noteq> ?s" by auto
    with 1(2) heap_swap_ok [of pos ?s pc] have
      sw: "same_nodes pc (heap_swap pos ?s pc)" "idx_ok (heap_swap pos ?s pc)" by auto
    have "same_nodes (heap_swap pos ?s pc) (heap_down ?s (heap_swap pos ?s pc)) \<and>
        idx_ok (heap_down ?s (heap_swap pos ?s pc))"
      using 1(1) [OF refl refl _ refl refl _ sw(2)] False by auto
    with sw step show ?thesis by (auto intro: same_nodes_trans)
  qed
qed

lemma heap_fix_ok:
  "pos < length (open_nodes pc) \<Longrightarrow> idx_ok pc \<Longrightarrow> same_nodes pc (heap_fix pos pc) \<and> idx_ok (heap_fix pos pc)"
  unfolding heap_fix_def using heap_up_ok [of pos pc] heap_down_ok [of "heap_up pos pc" pos]
  by (blast intro: same_nodes_trans)

subsection \<open>The invariant of the search\<close>

definition pos_of :: "PathCache \<Rightarrow> nat \<Rightarrow> int \<times> int" where
  "pos_of pc i = (nodeX (node_at pc i), nodeZ (node_at pc i))"

text \<open>One step of a path: to a walkable neighbour on the board, never cutting a corner.\<close>

definition legal_step :: "IsWalkable \<Rightarrow> int \<times> int \<Rightarrow> int \<times> int \<Rightarrow> bool" where
  "legal_step walk a b \<longleftrightarrow>
     a \<noteq> b \<and> \<bar>fst b - fst a\<bar> \<le> 1 \<and> \<bar>snd b - snd a\<bar> \<le> 1 \<and>
     InBounds (fst b) (snd b) 0 100 \<and> walk (fst b) (snd b) \<and>
     (fst a \<noteq> fst b \<and> snd a \<noteq> snd b \<longrightarrow> walk (fst b) (snd a) \<and> walk (fst a) (snd b))"

text \<open>
  \<open>cl\<close> is the list of closed nodes in the order they were closed. Every node but the start has a parent
  that was closed before it, so following parents ends at the start. Node \<open>e\<close> is exempt: it is the
  node just allocated, which gets its parent a few lines later (0 when there is none).
\<close>

definition nodes_inv :: "IsWalkable \<Rightarrow> int \<times> int \<Rightarrow> nat \<Rightarrow> PathCache \<Rightarrow> nat list \<Rightarrow> bool" where
  "nodes_inv walk start e pc cl \<longleftrightarrow>
     length (cache pc) = MaxPathNodes \<and> 0 < nodeCount pc \<and> nodeCount pc \<le> MaxPathNodes \<and>
     distinct cl \<and> set cl \<subseteq> {..<nodeCount pc} \<and>
     (\<forall>i < nodeCount pc. nodeClosed (node_at pc i) \<longleftrightarrow> i \<in> set cl) \<and>
     pos_of pc 0 = start \<and> nodeParent (node_at pc 0) = -1 \<and>
     (\<forall>i < nodeCount pc. i \<noteq> 0 \<and> i \<noteq> e \<longrightarrow>
        (\<exists>p \<in> set cl. nodeParent (node_at pc i) = int p \<and> legal_step walk (pos_of pc p) (pos_of pc i))) \<and>
     (\<forall>k < length cl. cl ! k \<noteq> 0 \<longrightarrow> (\<exists>p \<in> set (take k cl). nodeParent (node_at pc (cl ! k)) = int p))"

definition open_inv :: "PathCache \<Rightarrow> nat list \<Rightarrow> bool" where
  "open_inv pc cl \<longleftrightarrow> idx_ok pc \<and>
     set (open_nodes pc) = {i. i < nodeCount pc \<and> nodeOpen (node_at pc i)} \<and>
     set (open_nodes pc) \<inter> set cl = {} \<and>
     (if cl = [] then open_nodes pc = [0] else 0 \<in> set cl)"

lemma node_at_set [simp]:
  "i < length (cache pc) \<Longrightarrow> node_at (set_node i f pc) j = (if j = i then f (node_at pc i) else node_at pc j)"
  by (auto simp: node_at_def set_node_def nth_list_update)

lemma set_node_fields [simp]:
  "length (cache (set_node i f pc)) = length (cache pc)" "nodeCount (set_node i f pc) = nodeCount pc"
  "open_nodes (set_node i f pc) = open_nodes pc" "open_indices (set_node i f pc) = open_indices pc"
  by (simp_all add: set_node_def)

lemma node_at_cong: "cache pc' = cache pc \<Longrightarrow> node_at pc' = node_at pc"
  by (simp add: fun_eq_iff node_at_def)

lemma pos_of_cong: "cache pc' = cache pc \<Longrightarrow> pos_of pc' = pos_of pc"
  by (simp add: fun_eq_iff pos_of_def node_at_def)

lemma nodes_inv_cong:
  assumes "cache pc' = cache pc" and "nodeCount pc' = nodeCount pc"
  shows "nodes_inv walk start e pc' cl = nodes_inv walk start e pc cl"
  unfolding nodes_inv_def using assms node_at_cong [OF assms(1)] pos_of_cong [OF assms(1)] by simp

lemma open_inv_same:
  "open_inv pc cl \<Longrightarrow> same_nodes pc pc' \<Longrightarrow> idx_ok pc' \<Longrightarrow> cl \<noteq> [] \<Longrightarrow> open_inv pc' cl"
  unfolding open_inv_def using same_nodes_set [of pc pc'] node_at_cong [of pc' pc]
  by (auto simp: same_nodes_def)

lemma nodes_inv_same:
  "nodes_inv walk start e pc cl \<Longrightarrow> same_nodes pc pc' \<Longrightarrow> nodes_inv walk start e pc' cl"
  using nodes_inv_cong [of pc' pc] by (simp add: same_nodes_def)

text \<open>Changing G, H or the open flag of a node does not matter to \<open>nodes_inv\<close>.\<close>

lemma nodes_inv_set_node:
  assumes "nodes_inv walk start e pc cl" and "i < nodeCount pc"
    and "nodeX (f (node_at pc i)) = nodeX (node_at pc i)" "nodeZ (f (node_at pc i)) = nodeZ (node_at pc i)"
    and "nodeClosed (f (node_at pc i)) = nodeClosed (node_at pc i)"
    and "nodeParent (f (node_at pc i)) = nodeParent (node_at pc i)"
  shows "nodes_inv walk start e (set_node i f pc) cl"
proof -
  have len: "i < length (cache pc)" using assms(1,2) by (simp add: nodes_inv_def)
  have pos: "pos_of (set_node i f pc) = pos_of pc"
    using len assms(3,4) by (simp add: fun_eq_iff pos_of_def)
  have par: "nodeParent (node_at (set_node i f pc) j) = nodeParent (node_at pc j)"
    and cls: "nodeClosed (node_at (set_node i f pc) j) = nodeClosed (node_at pc j)" for j
    using len assms(5,6) by simp_all
  show ?thesis using assms(1) unfolding nodes_inv_def pos par cls by simp
qed

subsection \<open>Push and pop\<close>

lemma swap_remove_root:
  "0 < n \<Longrightarrow> n = length xs - 1 \<Longrightarrow> (take n xs)[0 := xs ! n] = swap_remove 0 xs"
  by (simp add: swap_remove_def take_update_swap)

lemma heap_push_ok:
  assumes ok: "idx_ok pc" and new: "idx \<notin> set (open_nodes pc)" "\<not> nodeOpen (node_at pc idx)"
  shows "cache (heap_push idx pc) = cache (set_node idx (\<lambda>nd. nd\<lparr>nodeOpen := True\<rparr>) pc) \<and>
    nodeCount (heap_push idx pc) = nodeCount pc \<and> idx_ok (heap_push idx pc) \<and>
    set (open_nodes (heap_push idx pc)) = insert idx (set (open_nodes pc)) \<and>
    (open_nodes pc = [] \<longrightarrow> open_nodes (heap_push idx pc) = [idx])"
proof -
  let ?pc1 = "set_node idx (\<lambda>nd. nd\<lparr>nodeOpen := True\<rparr>) pc"
  let ?pos = "length (open_nodes pc)"
  let ?pc2 = "?pc1\<lparr>open_nodes := open_nodes pc @ [idx], open_indices := (open_indices pc)(idx := int ?pos)\<rparr>"
  have push: "heap_push idx pc = heap_up ?pos ?pc2" using new(2) by (simp add: heap_push_def Let_def)
  have "idx_ok ?pc2"
    using ok new(1) by (auto simp: idx_ok_def nth_append in_set_conv_nth)
  then have up: "same_nodes ?pc2 (heap_up ?pos ?pc2)" "idx_ok (heap_up ?pos ?pc2)"
    using heap_up_ok [of ?pos ?pc2] by simp_all
  have "open_nodes (heap_up ?pos ?pc2) = [idx]" if "open_nodes pc = []"
    using that by (subst heap_up.simps) simp
  with up same_nodes_set [OF up(1)] show ?thesis
    unfolding push by (auto simp: same_nodes_def)
qed

lemma heap_pop_ok:
  assumes ok: "idx_ok pc" and pop: "heap_pop pc = Some (cur, pc')"
  shows "open_nodes pc \<noteq> [] \<and> cur = hd (open_nodes pc) \<and>
    cache pc' = cache (set_node cur (\<lambda>nd. nd\<lparr>nodeOpen := False\<rparr>) pc) \<and>
    nodeCount pc' = nodeCount pc \<and> idx_ok pc' \<and> set (open_nodes pc') = set (open_nodes pc) - {cur}"
proof -
  let ?ns = "open_nodes pc"
  let ?n = "length ?ns - 1"
  let ?pc1 = "set_node cur (\<lambda>nd. nd\<lparr>nodeOpen := False\<rparr>) pc"
  from pop have ne: "?ns \<noteq> []" and cur: "cur = ?ns ! 0"
    by (auto simp: heap_pop_def Let_def split: if_splits)
  have d: "distinct ?ns" and ix: "\<And>k. k < length ?ns \<Longrightarrow> open_indices pc (?ns ! k) = int k"
    using ok by (auto simp: idx_ok_def)
  define pcd where "pcd = (if ?n > 0 then
      heap_down 0 (?pc1\<lparr>open_nodes := (take ?n ?ns)[0 := ?ns ! ?n], open_indices := (open_indices pc)(?ns ! ?n := 0)\<rparr>)
      else ?pc1\<lparr>open_nodes := []\<rparr>)"
  have pc': "pc' = pcd\<lparr>open_indices := (open_indices pcd)(cur := -1)\<rparr>"
    using pop ne unfolding heap_pop_def pcd_def by (auto simp: Let_def split: if_splits)
  have main: "cache pcd = cache ?pc1 \<and> nodeCount pcd = nodeCount pc \<and> idx_ok pcd \<and> set (open_nodes pcd) = set ?ns - {cur}"
  proof (cases "?n > 0")
    case False
    obtain x xs where "?ns = x # xs" using ne by (cases ?ns) auto
    with False cur have "?ns = [cur]" by simp
    with False show ?thesis by (simp add: pcd_def idx_ok_def)
  next
    case True
    let ?q = "?pc1\<lparr>open_nodes := swap_remove 0 ?ns, open_indices := (open_indices pc)(?ns ! ?n := 0)\<rparr>"
    have "idx_ok ?q"
      unfolding idx_ok_def
    proof (intro conjI allI impI)
      show "distinct (open_nodes ?q)"
        using d by (simp add: distinct_swap_remove)
      fix k assume "k < length (open_nodes ?q)"
      then show "open_indices ?q (open_nodes ?q ! k) = int k"
        using ix [of k] nth_eq_iff_index_eq [OF d, of k ?n] by (auto simp: nth_swap_remove)
    qed
    from heap_down_ok [OF this] have dn: "same_nodes ?q (heap_down 0 ?q)" "idx_ok (heap_down 0 ?q)" by auto
    have "pcd = heap_down 0 ?q" using True by (simp add: pcd_def swap_remove_root)
    with dn same_nodes_set [OF dn(1)] show ?thesis
      using set_swap_remove [OF d, of 0] ne cur by (auto simp: same_nodes_def)
  qed
  have "idx_ok pc'"
    using main unfolding pc' idx_ok_def by (auto simp: in_set_conv_nth set_eq_iff)
  with main ne cur show ?thesis unfolding pc' by (simp add: hd_conv_nth)
qed

subsection \<open>The invariant is kept\<close>

lemma open_inv_keep:
  assumes "open_inv pc cl" and "nodes_inv walk start e pc cl" and "cl \<noteq> []" and "i < nodeCount pc"
    and "nodeOpen (f (node_at pc i)) = nodeOpen (node_at pc i)"
  shows "open_inv (set_node i f pc) cl"
proof -
  have len: "i < length (cache pc)" using assms(2,4) by (simp add: nodes_inv_def)
  then have "nodeOpen (node_at (set_node i f pc) j) = nodeOpen (node_at pc j)" for j
    using assms(5) by simp
  then show ?thesis using assms(1,3) unfolding open_inv_def idx_ok_def by auto
qed

lemma push_inv:
  assumes no: "nodes_inv walk start e pc cl" and op: "open_inv pc cl" and cl: "cl \<noteq> []"
    and i: "i < nodeCount pc" "i \<notin> set cl" "\<not> nodeOpen (node_at pc i)"
  shows "nodes_inv walk start e (heap_push i pc) cl \<and> open_inv (heap_push i pc) cl"
proof -
  let ?q = "set_node i (\<lambda>nd. nd\<lparr>nodeOpen := True\<rparr>) pc"
  have len: "i < length (cache pc)" using no i by (simp add: nodes_inv_def)
  have notin: "i \<notin> set (open_nodes pc)" and ix: "idx_ok pc" using op i by (auto simp: open_inv_def)
  from heap_push_ok [OF ix notin i(3)] have
    pu: "cache (heap_push i pc) = cache ?q" "nodeCount (heap_push i pc) = nodeCount ?q" "idx_ok (heap_push i pc)"
      "set (open_nodes (heap_push i pc)) = insert i (set (open_nodes pc))" by auto
  have "nodes_inv walk start e ?q cl" by (rule nodes_inv_set_node [OF no i(1)]) simp_all
  then have "nodes_inv walk start e (heap_push i pc) cl"
    using nodes_inv_cong [OF pu(1,2)] by simp
  moreover have "open_inv (heap_push i pc) cl"
    unfolding open_inv_def pu(4) node_at_cong [OF pu(1)] pu(2)
    using pu(3) op i cl len by (auto simp: open_inv_def split: if_splits)
  ultimately show ?thesis by blast
qed

lemma pop_inv:
  assumes no: "nodes_inv walk start 0 pc cl" and op: "open_inv pc cl"
    and pop: "heap_pop pc = Some (cur, pc1)"
  defines "pc2 \<equiv> set_node cur (\<lambda>nd. nd\<lparr>nodeClosed := True\<rparr>) pc1"
  shows "nodes_inv walk start 0 pc2 (cl @ [cur]) \<and> open_inv pc2 (cl @ [cur]) \<and> cur < nodeCount pc"
proof -
  have ix: "idx_ok pc" using op by (simp add: open_inv_def)
  let ?q = "set_node cur (\<lambda>nd. nd\<lparr>nodeOpen := False\<rparr>) pc"
  from heap_pop_ok [OF ix pop] have ne: "open_nodes pc \<noteq> []" and hd: "cur = hd (open_nodes pc)"
    and c1: "cache pc1 = cache ?q" "nodeCount pc1 = nodeCount ?q" and ix1: "idx_ok pc1"
    and s1: "set (open_nodes pc1) = set (open_nodes pc) - {cur}" by auto
  have cur: "cur < nodeCount pc" "cur \<notin> set cl" "nodeOpen (node_at pc cur)"
    using op ne hd hd_in_set [OF ne] by (auto simp: open_inv_def)
  have lens: "nodeCount pc \<le> length (cache pc)" using no by (simp add: nodes_inv_def)
  have len: "cur < length (cache pc)" "cur < length (cache pc1)" using cur lens c1(1) by auto
  have at: "node_at pc2 j = (if j = cur then (node_at pc j)\<lparr>nodeOpen := False, nodeClosed := True\<rparr> else node_at pc j)" for j
    using len node_at_cong [OF c1(1)] by (simp add: pc2_def)
  have pos: "pos_of pc2 = pos_of pc" by (simp add: fun_eq_iff pos_of_def at)
  have par: "nodeParent (node_at pc2 j) = nodeParent (node_at pc j)" for j by (simp add: at)
  have cnt: "nodeCount pc2 = nodeCount pc" "length (cache pc2) = length (cache pc)"
    using c1 by (simp_all add: pc2_def)
  have start0: "cur = 0 \<or> (\<exists>p \<in> set cl. nodeParent (node_at pc cur) = int p)"
    using no cur(1) unfolding nodes_inv_def by blast
  have zero: "cl = [] \<Longrightarrow> cur = 0" using op hd by (simp add: open_inv_def)
  have "nodes_inv walk start 0 pc2 (cl @ [cur])"
    unfolding nodes_inv_def pos par cnt
  proof (intro conjI)
    show "\<forall>i < nodeCount pc. nodeClosed (node_at pc2 i) \<longleftrightarrow> i \<in> set (cl @ [cur])"
      using no by (auto simp: nodes_inv_def at)
    show "\<forall>i < nodeCount pc. i \<noteq> 0 \<and> i \<noteq> 0 \<longrightarrow> (\<exists>p \<in> set (cl @ [cur]). nodeParent (node_at pc i) = int p \<and>
        legal_step walk (pos_of pc p) (pos_of pc i))"
      using no unfolding nodes_inv_def by fastforce
    show "\<forall>k < length (cl @ [cur]). (cl @ [cur]) ! k \<noteq> 0 \<longrightarrow>
        (\<exists>p \<in> set (take k (cl @ [cur])). nodeParent (node_at pc ((cl @ [cur]) ! k)) = int p)"
      using no start0 unfolding nodes_inv_def by (auto simp: nth_append less_Suc_eq)
  qed (use no cur in \<open>auto simp: nodes_inv_def\<close>)
  moreover have "open_inv pc2 (cl @ [cur])"
  proof -
    have "set (open_nodes pc2) = set (open_nodes pc) - {cur}" using s1 by (simp add: pc2_def)
    moreover have "idx_ok pc2" using ix1 by (simp add: pc2_def idx_ok_def)
    ultimately show ?thesis
      using op zero unfolding open_inv_def cnt by (auto simp: at split: if_splits)
  qed
  ultimately show ?thesis using cur by blast
qed

lemma alloc_inv:
  assumes no: "nodes_inv walk start 0 pc cl" and op: "open_inv pc cl" and cl: "cl \<noteq> []"
    and al: "allocNode x z pc = (Some i, pc')"
  shows "nodes_inv walk start i pc' cl \<and> open_inv pc' cl \<and> i < nodeCount pc' \<and> i \<notin> set cl \<and>
    \<not> nodeOpen (node_at pc' i) \<and> pos_of pc' i = (x, z) \<and> i \<noteq> 0 \<and> (\<forall>j < nodeCount pc. node_at pc' j = node_at pc j)"
proof -
  from al have i: "i = nodeCount pc" "nodeCount pc < MaxPathNodes"
    by (auto simp: allocNode_def Let_def split: if_splits)
  have len: "length (cache pc) = MaxPathNodes" using no by (simp add: nodes_inv_def)
  define f where "f = (\<lambda>nd :: Node. nd\<lparr>nodeX := x, nodeZ := z, nodeParent := -1, nodeClosed := False, nodeOpen := False\<rparr>)"
  have pc': "pc' = set_node i f (pc\<lparr>nodeCount := Suc i\<rparr>)"
    using al i by (auto simp: allocNode_def Let_def f_def)
  have at: "node_at pc' j = (if j = i then f (node_at pc i) else node_at pc j)" for j
    using i len by (simp add: pc') (simp add: node_at_def)
  have pos: "pos_of pc' j = (if j = i then (x, z) else pos_of pc j)" for j
    by (simp add: pos_of_def at f_def)
  have cnt: "nodeCount pc' = Suc i" "length (cache pc') = MaxPathNodes" using len by (simp_all add: pc')
  have onl: "open_nodes pc' = open_nodes pc" "open_indices pc' = open_indices pc" by (simp_all add: pc')
  have opn: "nodeOpen (node_at pc' j) = (j \<noteq> i \<and> nodeOpen (node_at pc j))" for j by (simp add: at f_def)
  have cli: "\<And>j. j \<in> set cl \<Longrightarrow> j < i" using no i by (auto simp: nodes_inv_def)
  have i0: "i \<noteq> 0" using no i by (auto simp: nodes_inv_def)
  have "nodes_inv walk start i pc' cl"
    unfolding nodes_inv_def cnt
  proof (intro conjI)
    show "\<forall>j < Suc i. nodeClosed (node_at pc' j) \<longleftrightarrow> j \<in> set cl"
      using no cli i by (auto simp: nodes_inv_def at f_def less_Suc_eq)
    show "\<forall>j < Suc i. j \<noteq> 0 \<and> j \<noteq> i \<longrightarrow> (\<exists>p \<in> set cl. nodeParent (node_at pc' j) = int p \<and>
        legal_step walk (pos_of pc' p) (pos_of pc' j))"
    proof (intro allI impI)
      fix j assume j: "j < Suc i" "j \<noteq> 0 \<and> j \<noteq> i"
      then obtain p where "p \<in> set cl" "nodeParent (node_at pc j) = int p" "legal_step walk (pos_of pc p) (pos_of pc j)"
        using no i unfolding nodes_inv_def by (metis less_SucE)
      with j cli [of p] show "\<exists>p \<in> set cl. nodeParent (node_at pc' j) = int p \<and>
        legal_step walk (pos_of pc' p) (pos_of pc' j)" by (intro bexI [of _ p]) (auto simp: at pos)
    qed
    show "\<forall>k < length cl. cl ! k \<noteq> 0 \<longrightarrow> (\<exists>p \<in> set (take k cl). nodeParent (node_at pc' (cl ! k)) = int p)"
    proof (intro allI impI)
      fix k assume k: "k < length cl" "cl ! k \<noteq> 0"
      then have "cl ! k \<noteq> i" using cli [of "cl ! k"] by auto
      with k no show "\<exists>p \<in> set (take k cl). nodeParent (node_at pc' (cl ! k)) = int p"
        by (auto simp: nodes_inv_def at)
    qed
  qed (use no i0 i in \<open>auto simp: nodes_inv_def at pos less_Suc_eq\<close>)
  moreover have "open_inv pc' cl"
    using op cl i unfolding open_inv_def idx_ok_def cnt onl opn by (auto simp: less_Suc_eq)
  moreover have "i \<notin> set cl" using cli by blast
  ultimately show ?thesis using i0 i by (auto simp: at pos cnt f_def)
qed

text \<open>Linking an unclosed node to the node being expanded.\<close>

lemma link_inv:
  assumes no: "nodes_inv walk start e pc cl" and e: "e = 0 \<or> e = i"
    and i: "i < nodeCount pc" "i \<notin> set cl" "i \<noteq> 0" and cur: "cur \<in> set cl"
    and step: "legal_step walk (pos_of pc cur) (pos_of pc i)"
  shows "nodes_inv walk start 0 (set_node i (\<lambda>nd. nd\<lparr>nodeParent := int cur, nodeG := g, nodeH := h\<rparr>) pc) cl"
proof -
  let ?q = "set_node i (\<lambda>nd. nd\<lparr>nodeParent := int cur, nodeG := g, nodeH := h\<rparr>) pc"
  have len: "i < length (cache pc)" using no i by (simp add: nodes_inv_def)
  have pos: "pos_of ?q = pos_of pc" using len by (simp add: fun_eq_iff pos_of_def)
  have cls: "nodeClosed (node_at ?q j) = nodeClosed (node_at pc j)" for j using len by simp
  have par: "nodeParent (node_at ?q j) = (if j = i then int cur else nodeParent (node_at pc j))" for j
    using len by simp
  have "\<forall>j < nodeCount pc. j \<noteq> 0 \<and> j \<noteq> 0 \<longrightarrow> (\<exists>p \<in> set cl. nodeParent (node_at ?q j) = int p \<and>
      legal_step walk (pos_of pc p) (pos_of pc j))"
    using no e cur step unfolding nodes_inv_def par by auto
  moreover have "\<forall>k < length cl. cl ! k \<noteq> 0 \<longrightarrow> (\<exists>p \<in> set (take k cl). nodeParent (node_at ?q (cl ! k)) = int p)"
  proof (intro allI impI)
    fix k assume k: "k < length cl" "cl ! k \<noteq> 0"
    with i have "cl ! k \<noteq> i" by auto
    with k no show "\<exists>p \<in> set (take k cl). nodeParent (node_at ?q (cl ! k)) = int p"
      unfolding par by (auto simp: nodes_inv_def)
  qed
  ultimately show ?thesis
    using no i unfolding nodes_inv_def pos cls by (simp add: par)
qed

text \<open>The last part of the neighbour loop, once the neighbour's node is known.\<close>

definition relax :: "int \<Rightarrow> int \<Rightarrow> nat \<Rightarrow> int \<Rightarrow> int \<Rightarrow> int \<Rightarrow> nat \<Rightarrow> PathCache \<Rightarrow> PathCache" where
  "relax ex ez cur cost nx nz nbr pc1 =
     (if nodeClosed (node_at pc1 nbr) then pc1
      else let tentG = nodeG (node_at pc1 cur) + cost
           in if \<not> nodeOpen (node_at pc1 nbr) \<or> tentG < nodeG (node_at pc1 nbr)
              then let pc2 = set_node nbr (\<lambda>nd. nd\<lparr>nodeParent := int cur, nodeG := tentG,
                               nodeH := heuristicOctile nx nz ex ez\<rparr>) pc1
                   in if \<not> nodeOpen (node_at pc2 nbr) then heap_push nbr pc2
                      else (let pos = open_indices pc2 nbr
                            in if pos \<ge> 0 then heap_fix (nat pos) pc2 else pc2)
              else pc1)"

lemma relax_inv:
  assumes no: "nodes_inv walk start e pc cl" and op: "open_inv pc cl" and e: "e = 0 \<or> (e = i \<and> \<not> nodeOpen (node_at pc i) \<and> i \<notin> set cl)"
    and i: "i < nodeCount pc" and cur: "cur \<in> set cl"
    and step: "legal_step walk (pos_of pc cur) (pos_of pc i)"
  shows "nodes_inv walk start 0 (relax ex ez cur cost nx nz i pc) cl \<and> open_inv (relax ex ez cur cost nx nz i pc) cl"
proof -
  have cl: "cl \<noteq> []" using cur by auto
  have closed_iff: "nodeClosed (node_at pc i) \<longleftrightarrow> i \<in> set cl" using no i by (simp add: nodes_inv_def)
  have zero: "0 \<in> set cl" using op cl by (simp add: open_inv_def)
  have len: "i < length (cache pc)" using no i by (simp add: nodes_inv_def)
  let ?g = "nodeG (node_at pc cur) + cost" and ?h = "heuristicOctile nx nz ex ez"
  let ?q = "set_node i (\<lambda>nd. nd\<lparr>nodeParent := int cur, nodeG := ?g, nodeH := ?h\<rparr>) pc"
  consider (skip) "i \<in> set cl \<or> (nodeOpen (node_at pc i) \<and> \<not> ?g < nodeG (node_at pc i))"
    | (fresh) "i \<notin> set cl" "\<not> nodeOpen (node_at pc i)"
    | (better) "i \<notin> set cl" "nodeOpen (node_at pc i)" "?g < nodeG (node_at pc i)" by blast
  then show ?thesis
  proof cases
    case skip
    then have "relax ex ez cur cost nx nz i pc = pc"
      unfolding relax_def Let_def using closed_iff by presburger
    moreover have "e = 0" using skip e by auto
    ultimately show ?thesis using no op by simp
  next
    case fresh
    have i0: "i \<noteq> 0" using zero fresh(1) by metis
    have "nodes_inv walk start 0 ?q cl" using e by (intro link_inv [OF no _ i fresh(1) i0 cur step]) blast
    then have "nodes_inv walk start 0 (heap_push i ?q) cl \<and> open_inv (heap_push i ?q) cl"
      using i fresh len by (intro push_inv [OF _ open_inv_keep [OF op no cl i] cl]) simp_all
    moreover have "relax ex ez cur cost nx nz i pc = heap_push i ?q"
      using fresh closed_iff len by (simp add: relax_def Let_def)
    ultimately show ?thesis by simp
  next
    case better
    have i0: "i \<noteq> 0" using zero better(1) by metis
    have q1: "nodes_inv walk start 0 ?q cl" using e by (intro link_inv [OF no _ i better(1) i0 cur step]) blast
    have q2: "open_inv ?q cl" by (rule open_inv_keep [OF op no cl i]) simp
    have "i \<in> set (open_nodes ?q)" using op better(2) i by (simp add: open_inv_def)
    then obtain k where k: "k < length (open_nodes ?q)" "open_nodes ?q ! k = i" by (metis in_set_conv_nth)
    from q2 have "idx_ok ?q" by (simp add: open_inv_def)
    then have "open_indices ?q (open_nodes ?q ! k) = int k" using k(1) by (simp only: idx_ok_def)
    then have ix: "open_indices ?q i = int k" by (simp only: k(2))
    have "nodeOpen (node_at ?q i)" using better(2) len by simp
    with ix have "relax ex ez cur cost nx nz i pc = heap_fix k ?q"
      unfolding relax_def Let_def using better closed_iff
      by (simp only: simp_thms if_True if_False of_nat_0_le_iff nat_int)
    moreover have "idx_ok ?q" using q2 by (simp add: open_inv_def)
    ultimately show ?thesis
      using heap_fix_ok [OF k(1)] nodes_inv_same [OF q1] open_inv_same [OF q2 _ _ cl] by metis
  qed
qed

lemma expand_relax:
  "expand walk ex ez cur ((dx, dz), cost) pc =
     (let cx = nodeX (node_at pc cur); cz = nodeZ (node_at pc cur); nx = cx + dx; nz = cz + dz
      in if nx < 0 \<or> nx > 100 \<or> nz < 0 \<or> nz > 100 then pc
         else if dx \<noteq> 0 \<and> dz \<noteq> 0 \<and> (\<not> walk (cx + dx) cz \<or> \<not> walk cx (cz + dz)) then pc
         else if \<not> walk nx nz then pc
         else (case nodeIndex nx nz pc of
                 Some i \<Rightarrow> relax ex ez cur cost nx nz i pc
               | None \<Rightarrow> (case allocNode nx nz pc of
                    (None, pc1) \<Rightarrow> pc1 | (Some i, pc1) \<Rightarrow> relax ex ez cur cost nx nz i pc1)))"
  unfolding expand_def relax_def Let_def prod.case by (cases "nodeIndex (nodeX (node_at pc cur) + dx) (nodeZ (node_at pc cur) + dz) pc")
    (simp_all only: option.case prod.case)

lemma expand_inv:
  assumes no: "nodes_inv walk start 0 pc cl" and op: "open_inv pc cl" and cur: "cur \<in> set cl"
    and nb: "\<bar>dx\<bar> \<le> 1" "\<bar>dz\<bar> \<le> 1" "dx \<noteq> 0 \<or> dz \<noteq> 0"
  shows "nodes_inv walk start 0 (expand walk ex ez cur ((dx, dz), cost) pc) cl \<and>
    open_inv (expand walk ex ez cur ((dx, dz), cost) pc) cl"
proof -
  define cx cz where "cx = nodeX (node_at pc cur)" and "cz = nodeZ (node_at pc cur)"
  have curpos: "pos_of pc cur = (cx, cz)" by (simp add: pos_of_def cx_def cz_def)
  have cl: "cl \<noteq> []" using cur by auto
  have curlt: "cur < nodeCount pc" using no cur by (auto simp: nodes_inv_def)
  show ?thesis
  proof (cases "InBounds (cx + dx) (cz + dz) 0 100 \<and> walk (cx + dx) (cz + dz) \<and>
      (dx \<noteq> 0 \<and> dz \<noteq> 0 \<longrightarrow> walk (cx + dx) cz \<and> walk cx (cz + dz))")
    case False
    then have "expand walk ex ez cur ((dx, dz), cost) pc = pc"
      unfolding expand_relax Let_def cx_def [symmetric] cz_def [symmetric] by (auto simp: InBounds_def)
    with no op show ?thesis by simp
  next
    case True
    then have step: "legal_step walk (cx, cz) (cx + dx, cz + dz)"
      using nb by (auto simp: legal_step_def)
    from True have ex: "expand walk ex ez cur ((dx, dz), cost) pc =
        (case nodeIndex (cx + dx) (cz + dz) pc of
           Some i \<Rightarrow> relax ex ez cur cost (cx + dx) (cz + dz) i pc
         | None \<Rightarrow> (case allocNode (cx + dx) (cz + dz) pc of
              (None, pc1) \<Rightarrow> pc1 | (Some i, pc1) \<Rightarrow> relax ex ez cur cost (cx + dx) (cz + dz) i pc1))"
      unfolding expand_relax Let_def cx_def [symmetric] cz_def [symmetric] by (auto simp: InBounds_def)
    show ?thesis
    proof (cases "nodeIndex (cx + dx) (cz + dz) pc")
      case (Some i)
      then have i: "i < nodeCount pc" "pos_of pc i = (cx + dx, cz + dz)"
        by (auto simp: nodeIndex_def find_Some_iff pos_of_def)
      have "expand walk ex ez cur ((dx, dz), cost) pc = relax ex ez cur cost (cx + dx) (cz + dz) i pc"
        using ex Some by simp
      with relax_inv [OF no op _ i(1) cur] i(2) curpos step show ?thesis by simp
    next
      case None
      obtain r pc1 where al: "allocNode (cx + dx) (cz + dz) pc = (r, pc1)" by force
      show ?thesis
      proof (cases r)
        case None
        with al have "pc1 = pc" by (auto simp: allocNode_def Let_def split: if_splits)
        with ex \<open>nodeIndex (cx + dx) (cz + dz) pc = None\<close> al None no op show ?thesis by simp
      next
        case (Some i)
        from alloc_inv [OF no op cl al [unfolded Some]] have
          a: "nodes_inv walk start i pc1 cl" "open_inv pc1 cl" "i < nodeCount pc1" "i \<notin> set cl"
            "\<not> nodeOpen (node_at pc1 i)" "pos_of pc1 i = (cx + dx, cz + dz)"
            "\<forall>j < nodeCount pc. node_at pc1 j = node_at pc j" by auto
        have "pos_of pc1 cur = (cx, cz)" using a(7) curlt curpos by (simp add: pos_of_def)
        with a step have "legal_step walk (pos_of pc1 cur) (pos_of pc1 i)" by simp
        moreover have "expand walk ex ez cur ((dx, dz), cost) pc = relax ex ez cur cost (cx + dx) (cz + dz) i pc1"
          using ex \<open>nodeIndex (cx + dx) (cz + dz) pc = None\<close> al Some by simp
        ultimately show ?thesis using relax_inv [OF a(1,2) _ a(3) cur] a(4,5) by simp
      qed
    qed
  qed
qed

lemma expand_all_inv:
  assumes "nodes_inv walk start 0 pc cl" and "open_inv pc cl" and "cur \<in> set cl"
  shows "nodes_inv walk start 0 (expand_all walk ex ez cur pc) cl \<and> open_inv (expand_all walk ex ez cur pc) cl"
proof -
  have "nodes_inv walk start 0 (fold (expand walk ex ez cur) nbs pc) cl \<and> open_inv (fold (expand walk ex ez cur) nbs pc) cl"
    if "\<forall>((dx, dz), c) \<in> set nbs. \<bar>dx\<bar> \<le> 1 \<and> \<bar>dz\<bar> \<le> 1 \<and> (dx \<noteq> 0 \<or> dz \<noteq> 0)" for nbs
    using that assms(1,2)
  proof (induction nbs arbitrary: pc)
    case (Cons nb nbs)
    obtain dx dz c where nb: "nb = ((dx, dz), c)" by (metis surj_pair)
    with Cons.prems(1) have "\<bar>dx\<bar> \<le> 1" "\<bar>dz\<bar> \<le> 1" "dx \<noteq> 0 \<or> dz \<noteq> 0" by auto
    from expand_inv [OF Cons.prems(2,3) assms(3) this] Cons nb show ?case by auto
  qed simp
  moreover have "\<forall>((dx, dz), c) \<in> set (zip neighbors neighborCosts). \<bar>dx\<bar> \<le> 1 \<and> \<bar>dz\<bar> \<le> 1 \<and> (dx \<noteq> 0 \<or> dz \<noteq> 0)"
    by (simp add: neighbors_def neighborCosts_def)
  ultimately show ?thesis unfolding expand_all_def by blast
qed

subsection \<open>The path is sound\<close>

definition back_link :: "IsWalkable \<Rightarrow> PathCache \<Rightarrow> nat \<Rightarrow> nat \<Rightarrow> bool" where
  "back_link walk pc a b \<longleftrightarrow> legal_step walk (pos_of pc b) (pos_of pc a)"

lemma length_closed: "nodes_inv walk start e pc cl \<Longrightarrow> length cl \<le> MaxPathNodes"
proof -
  assume inv: "nodes_inv walk start e pc cl"
  then have "length cl = card (set cl)" by (simp add: nodes_inv_def distinct_card)
  also have "\<dots> \<le> card {..<nodeCount pc}" using inv by (intro card_mono) (auto simp: nodes_inv_def)
  finally show ?thesis using inv by (simp add: nodes_inv_def)
qed

lemma walk_back_chain:
  assumes inv: "nodes_inv walk start 0 pc cl" and "k < length cl" and "length buf + k < MaxPathNodes"
  shows "\<exists>ch. walk_back pc (int (cl ! k)) buf = buf @ ch \<and> ch \<noteq> [] \<and> hd ch = cl ! k \<and> last ch = 0 \<and>
     length ch \<le> k + 1 \<and> successively (back_link walk pc) ch"
  using assms(2,3)
proof (induction k arbitrary: buf rule: less_induct)
  case (less k)
  have unroll: "walk_back pc (int (cl ! k)) buf = walk_back pc (nodeParent (node_at pc (cl ! k))) (buf @ [cl ! k])"
    using less.prems by (subst walk_back.simps) simp
  show ?case
  proof (cases "cl ! k = 0")
    case True
    with inv have "nodeParent (node_at pc (cl ! k)) = -1" by (simp add: nodes_inv_def)
    then have "walk_back pc (int (cl ! k)) buf = buf @ [cl ! k]"
      unfolding unroll by (subst walk_back.simps) simp
    with True show ?thesis by (intro exI [of _ "[cl ! k]"]) simp
  next
    case False
    have k: "cl ! k < nodeCount pc" using inv nth_mem [OF less.prems(1)] by (auto simp: nodes_inv_def)
    from inv less.prems False obtain p where p: "p \<in> set (take k cl)" "nodeParent (node_at pc (cl ! k)) = int p"
      by (auto simp: nodes_inv_def)
    from inv k False obtain p' where "nodeParent (node_at pc (cl ! k)) = int p'" "legal_step walk (pos_of pc p') (pos_of pc (cl ! k))"
      by (auto simp: nodes_inv_def)
    with p have link: "back_link walk pc (cl ! k) p" by (simp add: back_link_def)
    from p(1) obtain j where j: "j < k" "cl ! j = p" by (auto simp: in_set_conv_nth)
    with less.IH [OF j(1), of "buf @ [cl ! k]"] less.prems obtain ch where
      ch: "walk_back pc (int (cl ! j)) (buf @ [cl ! k]) = (buf @ [cl ! k]) @ ch" "ch \<noteq> []" "hd ch = cl ! j"
        "last ch = 0" "length ch \<le> j + 1" "successively (back_link walk pc) ch" by auto
    have "walk_back pc (int (cl ! k)) buf = buf @ (cl ! k # ch)"
      using ch(1) j(2) unfolding unroll p(2) by simp
    moreover have "successively (back_link walk pc) (cl ! k # ch)"
      using ch link j(2) by (simp add: successively_Cons)
    ultimately show ?thesis using ch j by (intro exI [of _ "cl ! k # ch"]) auto
  qed
qed

text \<open>What a caller may rely on: \<open>pts\<close> leads from \<open>a\<close> to \<open>b\<close> by legal steps.\<close>

definition legal_path :: "IsWalkable \<Rightarrow> int \<times> int \<Rightarrow> int \<times> int \<Rightarrow> (int \<times> int) list \<Rightarrow> bool" where
  "legal_path walk a b pts \<longleftrightarrow> pts \<noteq> [] \<and> hd pts = a \<and> last pts = b \<and> successively (legal_step walk) pts"

definition sound_result :: "IsWalkable \<Rightarrow> int \<times> int \<Rightarrow> int \<times> int \<Rightarrow> PathResult \<Rightarrow> bool" where
  "sound_result walk a b r \<longleftrightarrow> length (path_Points r) = MaxPathNodes \<and>
     (path_Found r \<longrightarrow> 0 < path_Len r \<and> path_Len r \<le> MaxPathNodes \<and>
        legal_path walk a b (take (path_Len r) (path_Points r)))"

lemma sound_zero [simp]: "sound_result walk a b zero_path"
  by (simp add: sound_result_def zero_path_def)

lemma reconstruct_sound:
  assumes inv: "nodes_inv walk start 0 pc (cl @ [cur])" and goal: "pos_of pc cur = goal"
  shows "sound_result walk start goal (reconstructPath pc cur)"
proof -
  let ?cl = "cl @ [cur]"
  have "length cl < MaxPathNodes" using length_closed [OF inv] by simp
  with walk_back_chain [OF inv, of "length cl" "[]"] obtain ch where
    ch: "walk_back pc (int cur) [] = ch" "ch \<noteq> []" "hd ch = cur" "last ch = 0" "length ch \<le> length cl + 1"
      "successively (back_link walk pc) ch" by auto
  let ?pts = "map (pos_of pc) (rev ch)"
  have res: "reconstructPath pc cur = \<lparr>path_Found = True, path_Len = length ch,
      path_Points = ?pts @ replicate (MaxPathNodes - length ch) (0, 0)\<rparr>"
    by (simp add: reconstructPath_def ch(1) Let_def pos_of_def)
  have len: "length ch \<le> MaxPathNodes" using ch(5) length_closed [OF inv] by simp
  have "pos_of pc 0 = start" using inv by (simp add: nodes_inv_def)
  then have "legal_path walk start goal ?pts"
    using ch goal by (simp add: legal_path_def hd_map hd_rev last_map last_rev successively_map back_link_def [abs_def]
        successively_rev)
  with len ch(2) show ?thesis by (simp add: sound_result_def res)
qed

definition cache_ok :: "PathCache \<Rightarrow> bool" where
  "cache_ok pc \<longleftrightarrow> length (cache pc) = MaxPathNodes \<and> nodeCount pc \<le> MaxPathNodes"

lemma nodes_inv_cache: "nodes_inv walk start e pc cl \<Longrightarrow> cache_ok pc"
  by (simp add: nodes_inv_def cache_ok_def)

text \<open>The result of a search is sound, and the cache it leaves behind is fit for the next one.\<close>

lemma search_inv:
  "nodes_inv walk start 0 pc cl \<Longrightarrow> open_inv pc cl \<Longrightarrow>
   sound_result walk start (ex, ez) (fst (search walk ex ez m n pc)) \<and> cache_ok (snd (search walk ex ez m n pc))"
proof (induction walk ex ez m n pc arbitrary: cl rule: search.induct)
  case (1 walk ex ez m n pc)
  show ?case
  proof (cases "heap_pop pc")
    case None
    with nodes_inv_cache [OF 1(2)] show ?thesis by (simp add: search.simps [of walk ex ez m n pc])
  next
    case (Some r)
    obtain cur pc1 where r: "r = (cur, pc1)" by force
    let ?pc2 = "set_node cur (\<lambda>nd. nd\<lparr>nodeClosed := True\<rparr>) pc1"
    from pop_inv [OF 1(2,3) Some [unfolded r]] have
      inv2: "nodes_inv walk start 0 ?pc2 (cl @ [cur])" "open_inv ?pc2 (cl @ [cur])" by auto
    have unroll: "search walk ex ez m n pc =
        (if n + 1 > m then (zero_path, ?pc2)
         else if nodeX (node_at ?pc2 cur) = ex \<and> nodeZ (node_at ?pc2 cur) = ez then (reconstructPath ?pc2 cur, ?pc2)
         else search walk ex ez m (n + 1) (expand_all walk ex ez cur ?pc2))"
      by (subst search.simps) (simp add: Some r Let_def)
    have next_inv: "nodes_inv walk start 0 (expand_all walk ex ez cur ?pc2) (cl @ [cur]) \<and>
        open_inv (expand_all walk ex ez cur ?pc2) (cl @ [cur])"
      by (rule expand_all_inv [OF inv2]) simp
    have "sound_result walk start (ex, ez) (reconstructPath ?pc2 cur)"
      if "nodeX (node_at ?pc2 cur) = ex \<and> nodeZ (node_at ?pc2 cur) = ez"
      using reconstruct_sound [OF inv2(1)] that by (simp add: pos_of_def)
    then show ?thesis
      unfolding unroll using nodes_inv_cache [OF inv2(1)] 1(1) [OF Some r [symmetric] refl _ _ conjunct1 [OF next_inv] conjunct2 [OF next_inv]]
      by auto
  qed
qed

lemma cache_ok_reset: "cache_ok pc \<Longrightarrow> cache_ok (PathCache_Reset pc)"
  by (simp add: cache_ok_def PathCache_Reset_def heap_reset_def)

lemma cache_ok_new: "cache_ok NewPathCache"
  by (simp add: cache_ok_def NewPathCache_def)

lemma MaxPathNodes_pos [simp]: "0 < MaxPathNodes"
  by (simp add: MaxPathNodes_def)

lemma start_inv:
  assumes ok: "cache_ok pc"
  shows "\<exists>pc1. allocNode sx sz (PathCache_Reset pc) = (Some 0, pc1) \<and>
    (let pc3 = heap_push 0 (set_node 0 (\<lambda>nd. nd\<lparr>nodeH := h\<rparr>) pc1)
     in nodes_inv walk (sx, sz) 0 pc3 [] \<and> open_inv pc3 [])"
proof -
  let ?r = "PathCache_Reset pc"
  have r: "nodeCount ?r = 0" "open_nodes ?r = []" "length (cache ?r) = MaxPathNodes"
    using cache_ok_reset [OF ok] by (simp_all add: cache_ok_def PathCache_Reset_def heap_reset_def)
  define f where "f = (\<lambda>nd :: Node. nd\<lparr>nodeX := sx, nodeZ := sz, nodeParent := -1, nodeClosed := False, nodeOpen := False\<rparr>)"
  define pc1 where "pc1 = set_node 0 f (?r\<lparr>nodeCount := 1\<rparr>)"
  define pc2 where "pc2 = set_node 0 (\<lambda>nd. nd\<lparr>nodeH := h\<rparr>) pc1"
  have al: "allocNode sx sz ?r = (Some 0, pc1)"
    using r MaxPathNodes_pos by (simp add: allocNode_def Let_def pc1_def f_def)
  have at2: "node_at pc2 0 = (f (node_at ?r 0))\<lparr>nodeH := h\<rparr>"
    using r MaxPathNodes_pos by (simp add: pc2_def pc1_def) (simp add: node_at_def)
  have pc2: "nodeCount pc2 = 1" "open_nodes pc2 = []" "length (cache pc2) = MaxPathNodes"
    using r by (simp_all add: pc2_def pc1_def)
  have "idx_ok pc2" by (simp add: idx_ok_def pc2)
  moreover have "\<not> nodeOpen (node_at pc2 0)" by (simp add: at2 f_def)
  ultimately have pu: "cache (heap_push 0 pc2) = cache (set_node 0 (\<lambda>nd. nd\<lparr>nodeOpen := True\<rparr>) pc2)"
    "nodeCount (heap_push 0 pc2) = 1" "idx_ok (heap_push 0 pc2)" "open_nodes (heap_push 0 pc2) = [0]"
    using heap_push_ok [of pc2 0] pc2 by simp_all
  have at3: "node_at (heap_push 0 pc2) 0 = (node_at pc2 0)\<lparr>nodeOpen := True\<rparr>"
    using pc2(3) MaxPathNodes_pos by (simp add: node_at_cong [OF pu(1)])
  have "nodes_inv walk (sx, sz) 0 (heap_push 0 pc2) []"
    using pu pc2 MaxPathNodes_pos by (simp add: nodes_inv_def pos_of_def at3 at2 f_def Suc_leI)
  moreover have "open_inv (heap_push 0 pc2) []"
    using pu by (auto simp: open_inv_def at3)
  ultimately show ?thesis using al by (simp add: Let_def pc2_def)
qed

lemma findPath_sound_result:
  assumes ok: "cache_ok pc"
  shows "sound_result walk (sx, sz) (ex, ez) (fst (findPath sx sz ex ez walk m pc))"
proof (cases "sx = ex \<and> sz = ez")
  case True
  then show ?thesis
    using MaxPathNodes_pos
    by (simp add: findPath_def sound_result_def zero_path_def legal_path_def take_Suc Suc_leI
        hd_conv_nth last_conv_nth del: MaxPathNodes_pos)
next
  case False
  obtain pc1 where al: "allocNode sx sz (PathCache_Reset pc) = (Some 0, pc1)"
    and inv: "nodes_inv walk (sx, sz) 0 (heap_push 0 (set_node 0 (\<lambda>nd. nd\<lparr>nodeH := heuristicOctile sx sz ex ez\<rparr>) pc1)) []"
      "open_inv (heap_push 0 (set_node 0 (\<lambda>nd. nd\<lparr>nodeH := heuristicOctile sx sz ex ez\<rparr>) pc1)) []"
    using start_inv [OF ok, of sx sz "heuristicOctile sx sz ex ez" walk] by (auto simp: Let_def)
  from False search_inv [OF inv] show ?thesis
    by (auto simp: findPath_def Let_def al)
qed

lemma findPath_cache_ok:
  assumes ok: "cache_ok pc"
  shows "cache_ok (snd (findPath sx sz ex ez walk m pc))"
proof -
  obtain pc1 where al: "allocNode sx sz (PathCache_Reset pc) = (Some 0, pc1)"
    and inv: "nodes_inv walk (sx, sz) 0 (heap_push 0 (set_node 0 (\<lambda>nd. nd\<lparr>nodeH := heuristicOctile sx sz ex ez\<rparr>) pc1)) []"
      "open_inv (heap_push 0 (set_node 0 (\<lambda>nd. nd\<lparr>nodeH := heuristicOctile sx sz ex ez\<rparr>) pc1)) []"
    using start_inv [OF ok, of sx sz "heuristicOctile sx sz ex ez" walk] by (auto simp: Let_def)
  from search_inv [OF inv] ok show ?thesis by (auto simp: findPath_def Let_def al)
qed

subsection \<open>Cost of a path\<close>

definition step_cost :: "int \<times> int \<Rightarrow> int \<times> int \<Rightarrow> int" where
  "step_cost a b = (if fst a \<noteq> fst b \<and> snd a \<noteq> snd b then costDiagonal else costStraight)"

fun path_cost :: "(int \<times> int) list \<Rightarrow> int" where
  "path_cost (a # b # ps) = step_cost a b + path_cost (b # ps)"
| "path_cost ps = 0"

lemma octile_max: "heuristicOctile ax az bx bz = 10 * max \<bar>ax - bx\<bar> \<bar>az - bz\<bar> + 4 * min \<bar>ax - bx\<bar> \<bar>az - bz\<bar>"
  by (simp add: heuristicOctile_def Let_def costDiagonal_def costStraight_def max_def min_def)

lemma octile_consistent:
  assumes "legal_step walk a b"
  shows "heuristicOctile (fst a) (snd a) gx gz \<le> step_cost a b + heuristicOctile (fst b) (snd b) gx gz"
proof -
  obtain ax az bx bz where ab: "a = (ax, az)" "b = (bx, bz)" by force
  with assms have d: "\<bar>bx - ax\<bar> \<le> 1" "\<bar>bz - az\<bar> \<le> 1" "ax \<noteq> bx \<or> az \<noteq> bz"
    by (auto simp: legal_step_def)
  have c: "step_cost a b = (if ax \<noteq> bx \<and> az \<noteq> bz then 14 else 10)"
    by (simp add: ab step_cost_def costDiagonal_def costStraight_def)
  have x: "\<bar>ax - gx\<bar> \<le> \<bar>bx - gx\<bar> + \<bar>bx - ax\<bar>" and z: "\<bar>az - gz\<bar> \<le> \<bar>bz - gz\<bar> + \<bar>bz - az\<bar>" by linarith+
  show ?thesis
    unfolding octile_max ab fst_conv snd_conv c [unfolded ab]
    using d x z by (cases "ax = bx"; cases "az = bz") (auto simp: max_def min_def)
qed

subsection \<open>Properties\<close>

text \<open>
  C21 Whatever the walkability of the map and the node budget, a path that \<open>FindPathWithCache\<close> reports as
  found has between 1 and 512 waypoints, starts at the start, ends at the goal, and every step goes to an
  adjacent walkable cell of the board without cutting a corner.
\<close>

theorem FindPathWithCache_sound:
  assumes "cache_ok pc" and "FindPathWithCache pc sx sz ex ez walk m = (r, pc')" and "path_Found r"
  shows "0 < path_Len r \<and> path_Len r \<le> MaxPathNodes \<and> length (path_Points r) = MaxPathNodes \<and>
    legal_path walk (sx, sz) (ex, ez) (take (path_Len r) (path_Points r))"
  using findPath_sound_result [OF cache_ok_reset [OF assms(1)], of walk sx sz ex ez m] assms(2,3)
  by (simp add: FindPathWithCache_def sound_result_def)

text \<open>
  The octile heuristic is admissible, as the code's comment claims: for cells \<open>a\<close> and \<open>b\<close> it never
  exceeds the cost of a legal path between them, and along one legal step it drops by at most the cost
  of the step.
\<close>

theorem heuristicOctile_admissible:
  assumes "legal_path walk a b pts"
  shows "heuristicOctile (fst a) (snd a) (fst b) (snd b) \<le> path_cost pts \<and>
    (\<forall>g c. legal_step walk a c \<longrightarrow>
       heuristicOctile (fst a) (snd a) (fst g) (snd g) \<le> step_cost a c + heuristicOctile (fst c) (snd c) (fst g) (snd g))"
proof
  have "heuristicOctile (fst (hd pts)) (snd (hd pts)) (fst (last pts)) (snd (last pts)) \<le> path_cost pts"
    if "pts \<noteq> []" "successively (legal_step walk) pts" for pts
    using that
  proof (induction pts rule: path_cost.induct)
    case (1 a b ps)
    then have "legal_step walk a b" by simp
    from octile_consistent [OF this, of "fst (last (b # ps))" "snd (last (b # ps))"] 1 show ?case by simp
  qed (auto simp: octile_max)
  with assms show "heuristicOctile (fst a) (snd a) (fst b) (snd b) \<le> path_cost pts"
    by (auto simp: legal_path_def)
qed (use octile_consistent in blast)

theorem heuristicOctile_admissible_witness:
  "heuristicOctile 0 0 2 1 \<le> path_cost [(0, 0), (1, 1), (2, 1)]"
  using heuristicOctile_admissible [of "\<lambda>_ _. True" "(0, 0)" "(2, 1)" "[(0, 0), (1, 1), (2, 1)]"]
  by (simp add: legal_path_def legal_step_def InBounds_def)

text \<open>A wall at (1, 0) forces a detour around its end.\<close>

definition walled :: IsWalkable where
  "walled x z \<longleftrightarrow> \<not> (x = 1 \<and> z = 0)"

lemma walled_found: "path_Found (fst (FindPathWithCache NewPathCache 0 0 2 0 walled 0))"
  by code_simp

theorem FindPathWithCache_sound_witness:
  "let r = fst (FindPathWithCache NewPathCache 0 0 2 0 walled 0)
   in path_Found r \<and> legal_path walled (0, 0) (2, 0) (take (path_Len r) (path_Points r))"
  using FindPathWithCache_sound [OF cache_ok_new prod.collapse [symmetric] walled_found] walled_found
  by (simp add: Let_def)

end
