(* ===== verification/Ecs_Components.thy ===== *)
theory Ecs_Components
  imports Ecs_Ids Anticheat Connwriter Threat Astar Timer
begin

text \<open>
  The components of \<open>server/ecs/ecs.go\<close>. Pointers inside a component (threat table, validator, writer) are
  reached through the component only, so they are part of its value here; writing one through the pointer
  is a \<open>Set\<close> of the component. \<open>PathCache\<close> of the AI component is never read and is left out. A Go
  \<open>map\<close> is a partial function; a nil map is the empty one (only \<open>RemoveEntity\<close> stores nil, just before it
  deletes the component).
\<close>

subsection \<open>Components\<close>

record ConnectionComponent =
  has_conn :: bool
  conn_validator :: "Validator option"
  conn_writer :: "Writer option"

record MetadataComponent =
  meta_Name :: string
  meta_Type :: EntityType

record StatsComponent =
  st_Level :: int
  st_XP :: u64
  st_HP :: int
  st_MaxHP :: int
  st_MP :: int
  st_MaxMP :: int
  st_Dam :: int
  st_Attack :: int
  st_MagicAttack :: int
  st_Defense :: int
  st_MagicDefense :: int
  st_HitRate :: int
  st_DodgeRate :: int
  st_CritRate :: int
  st_CritDamage :: int

record ItemTemplateComponent =
  TemplateID :: u64

datatype AIState =
  AIStateIdle | AIStateRoaming | AIStateChasing | AIStateAttacking | AIStateReturning | AIStateTransferring

definition AIState_String :: "AIState \<Rightarrow> string" where
  "AIState_String s = (case s of AIStateIdle \<Rightarrow> ''Idle'' | AIStateRoaming \<Rightarrow> ''Roaming''
     | AIStateChasing \<Rightarrow> ''Chasing'' | AIStateAttacking \<Rightarrow> ''Attacking''
     | AIStateReturning \<Rightarrow> ''Returning'' | AIStateTransferring \<Rightarrow> ''Transferring'')"

record AIComponent =
  ai_State :: AIState
  ai_TargetID :: entity
  ai_SpawnX :: int
  ai_SpawnZ :: int
  ai_SpawnRadius :: int
  ai_AggroRadius :: real
  ai_LeashRadius :: int
  ai_MeleeRange :: int
  ai_AttackTimer :: TickTimer
  ai_IdleTimer :: TickTimer
  ai_PathTimer :: TickTimer
  ai_RoamTargetX :: int
  ai_RoamTargetZ :: int
  ai_ThreatTable :: "ThreatTable option"
  ai_CurrentPath :: PathResult
  ai_PathFollowIdx :: int
  ai_PathGoalX :: int
  ai_PathGoalZ :: int
  ai_PathMapID :: int

type_synonym item_bag = "u64 \<rightharpoonup> int"

record InventoryComponent =
  Items :: item_bag

record LifetimeComponent =
  SpawnedTick :: u64
  Duration :: u64

record ActiveEffect =
  eff_Type :: string
  eff_Value :: int
  eff_DurationTicks :: int
  eff_DoTTickAccum :: int

record EffectsComponent =
  ActiveList :: "ActiveEffect list"

record EquipmentComponent =
  WeaponID :: u64
  ArmorID :: u64

record PartyComponent =
  LeaderID :: entity
  TeamName :: string
  MemberIDs :: "entity list"

record PartyMemberComponent =
  PartyID :: entity

text \<open>\<open>Clone\<close> of a component with value semantics is the identity on contents.\<close>

definition Inventory_Clone :: "InventoryComponent \<Rightarrow> InventoryComponent" where
  "Inventory_Clone c = \<lparr>Items = (\<lambda>k. Items c k)\<rparr>"

definition Effects_Clone :: "EffectsComponent \<Rightarrow> EffectsComponent" where
  "Effects_Clone c = \<lparr>ActiveList = [] @ ActiveList c\<rparr>"

definition Party_Clone :: "PartyComponent \<Rightarrow> PartyComponent" where
  "Party_Clone c = \<lparr>LeaderID = LeaderID c, TeamName = TeamName c, MemberIDs = [] @ MemberIDs c\<rparr>"

lemma clones [simp]: "Inventory_Clone c = c" "Effects_Clone d = d" "Party_Clone p = p"
  by (simp_all add: Inventory_Clone_def Effects_Clone_def Party_Clone_def)

subsection \<open>The registry\<close>

record Registry =
  reg_nextID :: u64
  positions :: "PositionComponent store"
  conns :: "ConnectionComponent store"
  metadata :: "MetadataComponent store"
  stats :: "StatsComponent store"
  ai :: "AIComponent store"
  inventories :: "InventoryComponent store"
  lifetimes :: "LifetimeComponent store"
  itemTemplates :: "ItemTemplateComponent store"
  equipment :: "EquipmentComponent store"
  parties :: "PartyComponent store"
  partyMembers :: "PartyMemberComponent store"
  effects :: "EffectsComponent store"

definition NewRegistry :: Registry where
  "NewRegistry = \<lparr>reg_nextID = 0, positions = empty_store, conns = empty_store, metadata = empty_store,
     stats = empty_store, ai = empty_store, inventories = empty_store, lifetimes = empty_store,
     itemTemplates = empty_store, equipment = empty_store, parties = empty_store,
     partyMembers = empty_store, effects = empty_store\<rparr>"

text \<open>Every store is well formed.\<close>

definition registry_ok :: "Registry \<Rightarrow> bool" where
  "registry_ok r \<longleftrightarrow> store_ok (positions r) \<and> store_ok (conns r) \<and> store_ok (metadata r) \<and>
     store_ok (stats r) \<and> store_ok (ai r) \<and> store_ok (inventories r) \<and> store_ok (lifetimes r) \<and>
     store_ok (itemTemplates r) \<and> store_ok (equipment r) \<and> store_ok (parties r) \<and>
     store_ok (partyMembers r) \<and> store_ok (effects r)"

text \<open>The entities that have some component.\<close>

definition registered :: "Registry \<Rightarrow> entity set" where
  "registered r = set (dense (positions r)) \<union> set (dense (conns r)) \<union> set (dense (metadata r)) \<union>
     set (dense (stats r)) \<union> set (dense (ai r)) \<union> set (dense (inventories r)) \<union> set (dense (lifetimes r)) \<union>
     set (dense (itemTemplates r)) \<union> set (dense (equipment r)) \<union> set (dense (parties r)) \<union>
     set (dense (partyMembers r)) \<union> set (dense (effects r))"

subsection \<open>A concrete monster, for the examples\<close>

definition slime_pos :: PositionComponent where
  "slime_pos = \<lparr>MapID = 1, PosX = 2, PosZ = 2\<rparr>"

definition slime_stats :: StatsComponent where
  "slime_stats = \<lparr>st_Level = 1, st_XP = 0, st_HP = 9, st_MaxHP = 9, st_MP = 0, st_MaxMP = 0, st_Dam = 1,
       st_Attack = 1, st_MagicAttack = 0, st_Defense = 0, st_MagicDefense = 0, st_HitRate = 0, st_DodgeRate = 0,
       st_CritRate = 0, st_CritDamage = 0\<rparr>"

end
