(* ===== verification/Ecs_Registry.thy ===== *)
theory Ecs_Registry
  imports Ecs_Components
begin

text \<open>
  The \<open>Registry\<close> operations of \<open>server/ecs/ecs.go\<close>: the typed accessors, \<open>NewEntity\<close> and
  \<open>RemoveEntity\<close> with the freelist that all registries share, and the combined queries. A query's
  callback may change the stores it does not iterate over, so the loop state carries the registry.
\<close>

subsection \<open>Accessors\<close>

definition SetPosition :: "entity \<Rightarrow> PositionComponent \<Rightarrow> Registry \<Rightarrow> Registry" where
  "SetPosition e v r = r\<lparr>positions := store_set e v (positions r)\<rparr>"

definition GetPosition :: "Registry \<Rightarrow> entity \<Rightarrow> PositionComponent option" where
  "GetPosition r e = store_get (positions r) e"

definition SetConnection :: "entity \<Rightarrow> ConnectionComponent \<Rightarrow> Registry \<Rightarrow> Registry" where
  "SetConnection e v r = r\<lparr>conns := store_set e v (conns r)\<rparr>"

definition GetConnection :: "Registry \<Rightarrow> entity \<Rightarrow> ConnectionComponent option" where
  "GetConnection r e = store_get (conns r) e"

definition SetMetadata :: "entity \<Rightarrow> MetadataComponent \<Rightarrow> Registry \<Rightarrow> Registry" where
  "SetMetadata e v r = r\<lparr>metadata := store_set e v (metadata r)\<rparr>"

definition GetMetadata :: "Registry \<Rightarrow> entity \<Rightarrow> MetadataComponent option" where
  "GetMetadata r e = store_get (metadata r) e"

definition SetStats :: "entity \<Rightarrow> StatsComponent \<Rightarrow> Registry \<Rightarrow> Registry" where
  "SetStats e v r = r\<lparr>stats := store_set e v (stats r)\<rparr>"

definition GetStats :: "Registry \<Rightarrow> entity \<Rightarrow> StatsComponent option" where
  "GetStats r e = store_get (stats r) e"

definition SetAI :: "entity \<Rightarrow> AIComponent \<Rightarrow> Registry \<Rightarrow> Registry" where
  "SetAI e v r = r\<lparr>ai := store_set e v (ai r)\<rparr>"

definition GetAI :: "Registry \<Rightarrow> entity \<Rightarrow> AIComponent option" where
  "GetAI r e = store_get (ai r) e"

definition SetInventory :: "entity \<Rightarrow> InventoryComponent \<Rightarrow> Registry \<Rightarrow> Registry" where
  "SetInventory e v r = r\<lparr>inventories := store_set e v (inventories r)\<rparr>"

definition GetInventory :: "Registry \<Rightarrow> entity \<Rightarrow> InventoryComponent option" where
  "GetInventory r e = store_get (inventories r) e"

definition SetLifetime :: "entity \<Rightarrow> LifetimeComponent \<Rightarrow> Registry \<Rightarrow> Registry" where
  "SetLifetime e v r = r\<lparr>lifetimes := store_set e v (lifetimes r)\<rparr>"

definition GetLifetime :: "Registry \<Rightarrow> entity \<Rightarrow> LifetimeComponent option" where
  "GetLifetime r e = store_get (lifetimes r) e"

definition SetItemTemplate :: "entity \<Rightarrow> ItemTemplateComponent \<Rightarrow> Registry \<Rightarrow> Registry" where
  "SetItemTemplate e v r = r\<lparr>itemTemplates := store_set e v (itemTemplates r)\<rparr>"

definition GetItemTemplate :: "Registry \<Rightarrow> entity \<Rightarrow> ItemTemplateComponent option" where
  "GetItemTemplate r e = store_get (itemTemplates r) e"

definition SetEquipment :: "entity \<Rightarrow> EquipmentComponent \<Rightarrow> Registry \<Rightarrow> Registry" where
  "SetEquipment e v r = r\<lparr>equipment := store_set e v (equipment r)\<rparr>"

definition GetEquipment :: "Registry \<Rightarrow> entity \<Rightarrow> EquipmentComponent option" where
  "GetEquipment r e = store_get (equipment r) e"

definition SetParty :: "entity \<Rightarrow> PartyComponent \<Rightarrow> Registry \<Rightarrow> Registry" where
  "SetParty e v r = r\<lparr>parties := store_set e v (parties r)\<rparr>"

definition GetParty :: "Registry \<Rightarrow> entity \<Rightarrow> PartyComponent option" where
  "GetParty r e = store_get (parties r) e"

definition SetPartyMember :: "entity \<Rightarrow> PartyMemberComponent \<Rightarrow> Registry \<Rightarrow> Registry" where
  "SetPartyMember e v r = r\<lparr>partyMembers := store_set e v (partyMembers r)\<rparr>"

definition GetPartyMember :: "Registry \<Rightarrow> entity \<Rightarrow> PartyMemberComponent option" where
  "GetPartyMember r e = store_get (partyMembers r) e"

definition SetEffects :: "entity \<Rightarrow> EffectsComponent \<Rightarrow> Registry \<Rightarrow> Registry" where
  "SetEffects e v r = r\<lparr>effects := store_set e v (effects r)\<rparr>"

definition GetEffects :: "Registry \<Rightarrow> entity \<Rightarrow> EffectsComponent option" where
  "GetEffects r e = store_get (effects r) e"

definition DeleteAI :: "entity \<Rightarrow> Registry \<Rightarrow> Registry" where
  "DeleteAI e r = r\<lparr>ai := store_delete e (ai r)\<rparr>"

definition DeleteEffects :: "entity \<Rightarrow> Registry \<Rightarrow> Registry" where
  "DeleteEffects e r = r\<lparr>effects := store_delete e (effects r)\<rparr>"

definition DeleteParty :: "entity \<Rightarrow> Registry \<Rightarrow> Registry" where
  "DeleteParty e r = r\<lparr>parties := store_delete e (parties r)\<rparr>"

definition DeletePartyMember :: "entity \<Rightarrow> Registry \<Rightarrow> Registry" where
  "DeletePartyMember e r = r\<lparr>partyMembers := store_delete e (partyMembers r)\<rparr>"

definition RangeConnections :: "(entity \<Rightarrow> ConnectionComponent \<Rightarrow> 'w \<Rightarrow> bool \<times> 'w) \<Rightarrow> Registry \<Rightarrow> 'w \<Rightarrow> 'w" where
  "RangeConnections f r = store_range f (conns r)"

definition RangeMetadata :: "(entity \<Rightarrow> MetadataComponent \<Rightarrow> 'w \<Rightarrow> bool \<times> 'w) \<Rightarrow> Registry \<Rightarrow> 'w \<Rightarrow> 'w" where
  "RangeMetadata f r = store_range f (metadata r)"

definition RangeAI :: "(entity \<Rightarrow> AIComponent \<Rightarrow> 'w \<Rightarrow> bool \<times> 'w) \<Rightarrow> Registry \<Rightarrow> 'w \<Rightarrow> 'w" where
  "RangeAI f r = store_range f (ai r)"

definition RangePartyMembers :: "(entity \<Rightarrow> PartyMemberComponent \<Rightarrow> 'w \<Rightarrow> bool \<times> 'w) \<Rightarrow> Registry \<Rightarrow> 'w \<Rightarrow> 'w" where
  "RangePartyMembers f r = store_range f (partyMembers r)"

definition RangeEffects :: "(entity \<Rightarrow> EffectsComponent \<Rightarrow> 'w \<Rightarrow> bool \<times> 'w) \<Rightarrow> Registry \<Rightarrow> 'w \<Rightarrow> 'w" where
  "RangeEffects f r = store_range f (effects r)"

named_theorems accessor_defs "definitions of the registry accessors"

declare
  SetPosition_def [accessor_defs]
  GetPosition_def [accessor_defs]
  SetConnection_def [accessor_defs]
  GetConnection_def [accessor_defs]
  SetMetadata_def [accessor_defs]
  GetMetadata_def [accessor_defs]
  SetStats_def [accessor_defs]
  GetStats_def [accessor_defs]
  SetAI_def [accessor_defs]
  GetAI_def [accessor_defs]
  SetInventory_def [accessor_defs]
  GetInventory_def [accessor_defs]
  SetLifetime_def [accessor_defs]
  GetLifetime_def [accessor_defs]
  SetItemTemplate_def [accessor_defs]
  GetItemTemplate_def [accessor_defs]
  SetEquipment_def [accessor_defs]
  GetEquipment_def [accessor_defs]
  SetParty_def [accessor_defs]
  GetParty_def [accessor_defs]
  SetPartyMember_def [accessor_defs]
  GetPartyMember_def [accessor_defs]
  SetEffects_def [accessor_defs]
  GetEffects_def [accessor_defs]
  DeleteAI_def [accessor_defs]
  DeleteEffects_def [accessor_defs]
  DeleteParty_def [accessor_defs]
  DeletePartyMember_def [accessor_defs]

subsection \<open>Entities\<close>

definition reg_NewEntity :: "Registry \<Rightarrow> entity list \<Rightarrow> entity \<times> Registry \<times> entity list" where
  "reg_NewEntity r freelist =
     (case NewEntity \<lparr>nextID = reg_nextID r, recycled = freelist\<rparr> of
        (e, s) \<Rightarrow> (e, r\<lparr>reg_nextID := nextID s\<rparr>, recycled s))"

definition SetNextID :: "u64 \<Rightarrow> Registry \<Rightarrow> Registry" where
  "SetNextID v r = r\<lparr>reg_nextID := v\<rparr>"

definition TotalEntityIDs :: "Registry \<Rightarrow> u64" where
  "TotalEntityIDs r = reg_nextID r"

text \<open>The cleanup part of \<open>RemoveEntity\<close>: pooled and heap-backed fields are emptied before deletion.\<close>

definition cleanup_components :: "entity \<Rightarrow> Registry \<Rightarrow> Registry" where
  "cleanup_components e r0 =
     (let r1 = (case GetAI r0 e of None \<Rightarrow> r0
                | Some c \<Rightarrow> SetAI e (c\<lparr>ai_ThreatTable := None, ai_CurrentPath := zero_path, ai_PathFollowIdx := -1\<rparr>) r0);
          r2 = (case GetEffects r1 e of None \<Rightarrow> r1 | Some c \<Rightarrow> SetEffects e (c\<lparr>ActiveList := []\<rparr>) r1);
          r3 = (case GetInventory r2 e of None \<Rightarrow> r2 | Some c \<Rightarrow> SetInventory e (c\<lparr>Items := Map.empty\<rparr>) r2)
      in (case GetParty r3 e of None \<Rightarrow> r3 | Some c \<Rightarrow> SetParty e (c\<lparr>MemberIDs := []\<rparr>) r3))"

definition delete_components :: "entity \<Rightarrow> Registry \<Rightarrow> Registry" where
  "delete_components e r = r\<lparr>positions := store_delete e (positions r),
     conns := store_delete e (conns r), metadata := store_delete e (metadata r), stats := store_delete e (stats r),
     ai := store_delete e (ai r), inventories := store_delete e (inventories r), lifetimes := store_delete e (lifetimes r),
     itemTemplates := store_delete e (itemTemplates r), equipment := store_delete e (equipment r), parties := store_delete e (parties r),
     partyMembers := store_delete e (partyMembers r), effects := store_delete e (effects r)\<rparr>"

definition RemoveEntity :: "entity \<Rightarrow> Registry \<Rightarrow> entity list \<Rightarrow> Registry \<times> entity list" where
  "RemoveEntity e r freelist = (delete_components e (cleanup_components e r), freelist @ [e])"

subsection \<open>Combined queries\<close>

definition QueryPositionStats ::
  "('w \<Rightarrow> Registry) \<Rightarrow> (entity \<Rightarrow> PositionComponent \<Rightarrow> StatsComponent \<Rightarrow> 'w \<Rightarrow> bool \<times> 'w) \<Rightarrow> 'w \<Rightarrow> 'w" where
  "QueryPositionStats sel f w = store_range
     (\<lambda>e pos w. case GetStats (sel w) e of Some st \<Rightarrow> f e pos st w | None \<Rightarrow> (True, w)) (positions (sel w)) w"

definition QueryPositionAI ::
  "('w \<Rightarrow> Registry) \<Rightarrow> (entity \<Rightarrow> AIComponent \<Rightarrow> PositionComponent \<Rightarrow> StatsComponent \<Rightarrow> 'w \<Rightarrow> bool \<times> 'w) \<Rightarrow> 'w \<Rightarrow> 'w" where
  "QueryPositionAI sel f w = store_range
     (\<lambda>e a w. case GetPosition (sel w) e of None \<Rightarrow> (True, w)
        | Some pos \<Rightarrow> (case GetStats (sel w) e of None \<Rightarrow> (True, w) | Some st \<Rightarrow> f e a pos st w)) (ai (sel w)) w"

definition QueryMonsterCombat ::
  "('w \<Rightarrow> Registry) \<Rightarrow> (entity \<Rightarrow> AIComponent \<Rightarrow> PositionComponent \<Rightarrow> StatsComponent \<Rightarrow> 'w \<Rightarrow> bool \<times> 'w) \<Rightarrow> 'w \<Rightarrow> 'w" where
  "QueryMonsterCombat sel f w = store_range
     (\<lambda>e a w. case GetPosition (sel w) e of None \<Rightarrow> (True, w)
        | Some pos \<Rightarrow> (case GetStats (sel w) e of None \<Rightarrow> (True, w) | Some st \<Rightarrow> f e a pos st w)) (ai (sel w)) w"

definition QueryPositionMetadata ::
  "('w \<Rightarrow> Registry) \<Rightarrow> (entity \<Rightarrow> MetadataComponent \<Rightarrow> PositionComponent \<Rightarrow> 'w \<Rightarrow> bool \<times> 'w) \<Rightarrow> 'w \<Rightarrow> 'w" where
  "QueryPositionMetadata sel f w = store_range
     (\<lambda>e m w. case GetPosition (sel w) e of None \<Rightarrow> (True, w) | Some pos \<Rightarrow> f e m pos w) (metadata (sel w)) w"

definition GetAllEntities :: "Registry \<Rightarrow> entity list" where
  "GetAllEntities r = RangeMetadata (\<lambda>e _ acc. (True, acc @ [e])) r []"

record EntitySnapshot =
  snap_ID :: entity
  snap_Meta :: MetadataComponent
  snap_Pos :: "PositionComponent option"
  snap_Stats :: "StatsComponent option"

definition GetSnapshot :: "Registry \<Rightarrow> entity \<Rightarrow> EntitySnapshot option" where
  "GetSnapshot r e = (case GetMetadata r e of None \<Rightarrow> None
     | Some m \<Rightarrow> Some \<lparr>snap_ID = e, snap_Meta = m, snap_Pos = GetPosition r e, snap_Stats = GetStats r e\<rparr>)"

definition RangeSnapshots :: "('w \<Rightarrow> Registry) \<Rightarrow> (EntitySnapshot \<Rightarrow> 'w \<Rightarrow> bool \<times> 'w) \<Rightarrow> 'w \<Rightarrow> 'w" where
  "RangeSnapshots sel f w = store_range
     (\<lambda>e m w. f \<lparr>snap_ID = e, snap_Meta = m, snap_Pos = GetPosition (sel w) e, snap_Stats = GetStats (sel w) e\<rparr> w)
     (metadata (sel w)) w"

subsection \<open>Removal\<close>

text \<open>
  The invariant of a registry between operations: the stores are well formed and the entities in them
  have distinct indices, so that any of them may enter any store.
\<close>

definition registry_inv :: "Registry \<Rightarrow> bool" where
  "registry_inv r \<longleftrightarrow> registry_ok r \<and> inj_on EntityIndex (registered r)"

lemma registry_ok_NewRegistry [simp]: "registry_ok NewRegistry"
  by (simp add: registry_ok_def NewRegistry_def)

lemma registry_inv_NewRegistry [simp]: "registry_inv NewRegistry"
  using registry_ok_NewRegistry
  by (simp add: registry_inv_def registered_def) (simp add: NewRegistry_def empty_store_def)

text \<open>An update of a stored component is always legal.\<close>

lemma overwrite_store:
  "store_ok s \<Longrightarrow> store_get s e = Some v \<Longrightarrow>
   store_ok (store_set e v' s) \<and> store_get (store_set e v' s) = (store_get s)(e \<mapsto> v')"
  by (simp add: cstore.overwrite)

lemma delete_store [simp]:
  "store_ok s \<Longrightarrow> store_ok (store_delete e s)"
  "store_ok s \<Longrightarrow> store_get (store_delete e s) = (store_get s)(e := None)"
  by (simp_all add: store_delete_refines)

lemma dense_dom: "store_ok s \<Longrightarrow> set (dense s) = dom (store_get s)"
  by (simp add: dom_store_get)

lemma cleanup_ok: "registry_ok r \<Longrightarrow> registry_ok (cleanup_components e r)"
  unfolding cleanup_components_def Let_def registry_ok_def
  by (simp add: accessor_defs overwrite_store split: option.split)

text \<open>For another entity, and for the stores the cleanup does not touch, nothing changes.\<close>

lemma cleanup_get:
  assumes "registry_ok r"
  shows "(store_get (positions (cleanup_components e r)))(e := None) = (store_get (positions r))(e := None)"
    and "(store_get (conns (cleanup_components e r)))(e := None) = (store_get (conns r))(e := None)"
    and "(store_get (metadata (cleanup_components e r)))(e := None) = (store_get (metadata r))(e := None)"
    and "(store_get (stats (cleanup_components e r)))(e := None) = (store_get (stats r))(e := None)"
    and "(store_get (ai (cleanup_components e r)))(e := None) = (store_get (ai r))(e := None)"
    and "(store_get (inventories (cleanup_components e r)))(e := None) = (store_get (inventories r))(e := None)"
    and "(store_get (lifetimes (cleanup_components e r)))(e := None) = (store_get (lifetimes r))(e := None)"
    and "(store_get (itemTemplates (cleanup_components e r)))(e := None) = (store_get (itemTemplates r))(e := None)"
    and "(store_get (equipment (cleanup_components e r)))(e := None) = (store_get (equipment r))(e := None)"
    and "(store_get (parties (cleanup_components e r)))(e := None) = (store_get (parties r))(e := None)"
    and "(store_get (partyMembers (cleanup_components e r)))(e := None) = (store_get (partyMembers r))(e := None)"
    and "(store_get (effects (cleanup_components e r)))(e := None) = (store_get (effects r))(e := None)"
  using assms unfolding cleanup_components_def Let_def registry_ok_def
  by (simp_all add: accessor_defs overwrite_store split: option.split)

text \<open>What is left of a registry for an entity: its twelve components.\<close>

definition same_components :: "entity \<Rightarrow> Registry \<Rightarrow> Registry \<Rightarrow> bool" where
  "same_components x r r' \<longleftrightarrow> GetPosition r' x = GetPosition r x \<and>
     GetConnection r' x = GetConnection r x \<and>
     GetMetadata r' x = GetMetadata r x \<and>
     GetStats r' x = GetStats r x \<and>
     GetAI r' x = GetAI r x \<and>
     GetInventory r' x = GetInventory r x \<and>
     GetLifetime r' x = GetLifetime r x \<and>
     GetItemTemplate r' x = GetItemTemplate r x \<and>
     GetEquipment r' x = GetEquipment r x \<and>
     GetParty r' x = GetParty r x \<and>
     GetPartyMember r' x = GetPartyMember r x \<and>
     GetEffects r' x = GetEffects r x"

definition no_components :: "entity \<Rightarrow> Registry \<Rightarrow> bool" where
  "no_components x r \<longleftrightarrow> GetPosition r x = None \<and>
     GetConnection r x = None \<and>
     GetMetadata r x = None \<and>
     GetStats r x = None \<and>
     GetAI r x = None \<and>
     GetInventory r x = None \<and>
     GetLifetime r x = None \<and>
     GetItemTemplate r x = None \<and>
     GetEquipment r x = None \<and>
     GetParty r x = None \<and>
     GetPartyMember r x = None \<and>
     GetEffects r x = None"

lemma RemoveEntity_effect:
  assumes ok: "registry_ok r" and rem: "RemoveEntity e r fl = (r', fl')"
  shows "registry_ok r' \<and> no_components e r' \<and> (\<forall>x. x \<noteq> e \<longrightarrow> same_components x r r') \<and>
    reg_nextID r' = reg_nextID r \<and> fl' = fl @ [e]"
proof -
  let ?c = "cleanup_components e r"
  from rem have r': "r' = delete_components e ?c" and fl': "fl' = fl @ [e]" by (auto simp: RemoveEntity_def)
  have okc: "registry_ok ?c" using ok by (rule cleanup_ok)
  have ok': "registry_ok r'" using okc unfolding r' delete_components_def registry_ok_def by simp
  have get: "store_get (positions r') = (store_get (positions r))(e := None)"
      "store_get (conns r') = (store_get (conns r))(e := None)"
      "store_get (metadata r') = (store_get (metadata r))(e := None)"
      "store_get (stats r') = (store_get (stats r))(e := None)"
      "store_get (ai r') = (store_get (ai r))(e := None)"
      "store_get (inventories r') = (store_get (inventories r))(e := None)"
      "store_get (lifetimes r') = (store_get (lifetimes r))(e := None)"
      "store_get (itemTemplates r') = (store_get (itemTemplates r))(e := None)"
      "store_get (equipment r') = (store_get (equipment r))(e := None)"
      "store_get (parties r') = (store_get (parties r))(e := None)"
      "store_get (partyMembers r') = (store_get (partyMembers r))(e := None)"
      "store_get (effects r') = (store_get (effects r))(e := None)"
    using okc cleanup_get [OF ok, of e] unfolding r' delete_components_def registry_ok_def by simp_all
  have "reg_nextID r' = reg_nextID r"
    unfolding r' delete_components_def cleanup_components_def Let_def
    by (simp add: accessor_defs split: option.split)
  with ok' fl' get show ?thesis
    by (simp add: no_components_def same_components_def accessor_defs)
qed

lemma registered_dom:
  "registry_ok r \<Longrightarrow> x \<in> registered r \<longleftrightarrow> \<not> no_components x r"
  unfolding registered_def registry_ok_def no_components_def
  by (simp add: dense_dom accessor_defs dom_def)

lemma RemoveEntity_inv:
  assumes "registry_inv r" and "RemoveEntity e r fl = (r', fl')"
  shows "registry_inv r' \<and> registered r' = registered r - {e}"
proof -
  have ok: "registry_ok r" and inj: "inj_on EntityIndex (registered r)" using assms(1) by (auto simp: registry_inv_def)
  from RemoveEntity_effect [OF ok assms(2)] have ok': "registry_ok r'" and none: "no_components e r'"
    and same: "\<And>x. x \<noteq> e \<Longrightarrow> same_components x r r'" by auto
  have "x \<in> registered r' \<longleftrightarrow> x \<in> registered r - {e}" for x
    using none same [of x] registered_dom [OF ok', of x] registered_dom [OF ok, of x]
    by (cases "x = e") (auto simp: no_components_def same_components_def)
  then have eq: "registered r' = registered r - {e}" by blast
  moreover have "inj_on EntityIndex (registered r')" using inj unfolding eq by (rule inj_on_diff)
  ultimately show ?thesis using ok' by (simp add: registry_inv_def)
qed

subsection \<open>What a Set does\<close>

text \<open>Setting one component leaves the other eleven stores alone.\<close>

lemma set_frame [simp]:
  "GetConnection (SetPosition e vPosition r) = GetConnection r"
  "GetMetadata (SetPosition e vPosition r) = GetMetadata r"
  "GetStats (SetPosition e vPosition r) = GetStats r"
  "GetAI (SetPosition e vPosition r) = GetAI r"
  "GetInventory (SetPosition e vPosition r) = GetInventory r"
  "GetLifetime (SetPosition e vPosition r) = GetLifetime r"
  "GetItemTemplate (SetPosition e vPosition r) = GetItemTemplate r"
  "GetEquipment (SetPosition e vPosition r) = GetEquipment r"
  "GetParty (SetPosition e vPosition r) = GetParty r"
  "GetPartyMember (SetPosition e vPosition r) = GetPartyMember r"
  "GetEffects (SetPosition e vPosition r) = GetEffects r"
  "GetPosition (SetConnection e vConnection r) = GetPosition r"
  "GetMetadata (SetConnection e vConnection r) = GetMetadata r"
  "GetStats (SetConnection e vConnection r) = GetStats r"
  "GetAI (SetConnection e vConnection r) = GetAI r"
  "GetInventory (SetConnection e vConnection r) = GetInventory r"
  "GetLifetime (SetConnection e vConnection r) = GetLifetime r"
  "GetItemTemplate (SetConnection e vConnection r) = GetItemTemplate r"
  "GetEquipment (SetConnection e vConnection r) = GetEquipment r"
  "GetParty (SetConnection e vConnection r) = GetParty r"
  "GetPartyMember (SetConnection e vConnection r) = GetPartyMember r"
  "GetEffects (SetConnection e vConnection r) = GetEffects r"
  "GetPosition (SetMetadata e vMetadata r) = GetPosition r"
  "GetConnection (SetMetadata e vMetadata r) = GetConnection r"
  "GetStats (SetMetadata e vMetadata r) = GetStats r"
  "GetAI (SetMetadata e vMetadata r) = GetAI r"
  "GetInventory (SetMetadata e vMetadata r) = GetInventory r"
  "GetLifetime (SetMetadata e vMetadata r) = GetLifetime r"
  "GetItemTemplate (SetMetadata e vMetadata r) = GetItemTemplate r"
  "GetEquipment (SetMetadata e vMetadata r) = GetEquipment r"
  "GetParty (SetMetadata e vMetadata r) = GetParty r"
  "GetPartyMember (SetMetadata e vMetadata r) = GetPartyMember r"
  "GetEffects (SetMetadata e vMetadata r) = GetEffects r"
  "GetPosition (SetStats e vStats r) = GetPosition r"
  "GetConnection (SetStats e vStats r) = GetConnection r"
  "GetMetadata (SetStats e vStats r) = GetMetadata r"
  "GetAI (SetStats e vStats r) = GetAI r"
  "GetInventory (SetStats e vStats r) = GetInventory r"
  "GetLifetime (SetStats e vStats r) = GetLifetime r"
  "GetItemTemplate (SetStats e vStats r) = GetItemTemplate r"
  "GetEquipment (SetStats e vStats r) = GetEquipment r"
  "GetParty (SetStats e vStats r) = GetParty r"
  "GetPartyMember (SetStats e vStats r) = GetPartyMember r"
  "GetEffects (SetStats e vStats r) = GetEffects r"
  "GetPosition (SetAI e vAI r) = GetPosition r"
  "GetConnection (SetAI e vAI r) = GetConnection r"
  "GetMetadata (SetAI e vAI r) = GetMetadata r"
  "GetStats (SetAI e vAI r) = GetStats r"
  "GetInventory (SetAI e vAI r) = GetInventory r"
  "GetLifetime (SetAI e vAI r) = GetLifetime r"
  "GetItemTemplate (SetAI e vAI r) = GetItemTemplate r"
  "GetEquipment (SetAI e vAI r) = GetEquipment r"
  "GetParty (SetAI e vAI r) = GetParty r"
  "GetPartyMember (SetAI e vAI r) = GetPartyMember r"
  "GetEffects (SetAI e vAI r) = GetEffects r"
  "GetPosition (SetInventory e vInventory r) = GetPosition r"
  "GetConnection (SetInventory e vInventory r) = GetConnection r"
  "GetMetadata (SetInventory e vInventory r) = GetMetadata r"
  "GetStats (SetInventory e vInventory r) = GetStats r"
  "GetAI (SetInventory e vInventory r) = GetAI r"
  "GetLifetime (SetInventory e vInventory r) = GetLifetime r"
  "GetItemTemplate (SetInventory e vInventory r) = GetItemTemplate r"
  "GetEquipment (SetInventory e vInventory r) = GetEquipment r"
  "GetParty (SetInventory e vInventory r) = GetParty r"
  "GetPartyMember (SetInventory e vInventory r) = GetPartyMember r"
  "GetEffects (SetInventory e vInventory r) = GetEffects r"
  "GetPosition (SetLifetime e vLifetime r) = GetPosition r"
  "GetConnection (SetLifetime e vLifetime r) = GetConnection r"
  "GetMetadata (SetLifetime e vLifetime r) = GetMetadata r"
  "GetStats (SetLifetime e vLifetime r) = GetStats r"
  "GetAI (SetLifetime e vLifetime r) = GetAI r"
  "GetInventory (SetLifetime e vLifetime r) = GetInventory r"
  "GetItemTemplate (SetLifetime e vLifetime r) = GetItemTemplate r"
  "GetEquipment (SetLifetime e vLifetime r) = GetEquipment r"
  "GetParty (SetLifetime e vLifetime r) = GetParty r"
  "GetPartyMember (SetLifetime e vLifetime r) = GetPartyMember r"
  "GetEffects (SetLifetime e vLifetime r) = GetEffects r"
  "GetPosition (SetItemTemplate e vItemTemplate r) = GetPosition r"
  "GetConnection (SetItemTemplate e vItemTemplate r) = GetConnection r"
  "GetMetadata (SetItemTemplate e vItemTemplate r) = GetMetadata r"
  "GetStats (SetItemTemplate e vItemTemplate r) = GetStats r"
  "GetAI (SetItemTemplate e vItemTemplate r) = GetAI r"
  "GetInventory (SetItemTemplate e vItemTemplate r) = GetInventory r"
  "GetLifetime (SetItemTemplate e vItemTemplate r) = GetLifetime r"
  "GetEquipment (SetItemTemplate e vItemTemplate r) = GetEquipment r"
  "GetParty (SetItemTemplate e vItemTemplate r) = GetParty r"
  "GetPartyMember (SetItemTemplate e vItemTemplate r) = GetPartyMember r"
  "GetEffects (SetItemTemplate e vItemTemplate r) = GetEffects r"
  "GetPosition (SetEquipment e vEquipment r) = GetPosition r"
  "GetConnection (SetEquipment e vEquipment r) = GetConnection r"
  "GetMetadata (SetEquipment e vEquipment r) = GetMetadata r"
  "GetStats (SetEquipment e vEquipment r) = GetStats r"
  "GetAI (SetEquipment e vEquipment r) = GetAI r"
  "GetInventory (SetEquipment e vEquipment r) = GetInventory r"
  "GetLifetime (SetEquipment e vEquipment r) = GetLifetime r"
  "GetItemTemplate (SetEquipment e vEquipment r) = GetItemTemplate r"
  "GetParty (SetEquipment e vEquipment r) = GetParty r"
  "GetPartyMember (SetEquipment e vEquipment r) = GetPartyMember r"
  "GetEffects (SetEquipment e vEquipment r) = GetEffects r"
  "GetPosition (SetParty e vParty r) = GetPosition r"
  "GetConnection (SetParty e vParty r) = GetConnection r"
  "GetMetadata (SetParty e vParty r) = GetMetadata r"
  "GetStats (SetParty e vParty r) = GetStats r"
  "GetAI (SetParty e vParty r) = GetAI r"
  "GetInventory (SetParty e vParty r) = GetInventory r"
  "GetLifetime (SetParty e vParty r) = GetLifetime r"
  "GetItemTemplate (SetParty e vParty r) = GetItemTemplate r"
  "GetEquipment (SetParty e vParty r) = GetEquipment r"
  "GetPartyMember (SetParty e vParty r) = GetPartyMember r"
  "GetEffects (SetParty e vParty r) = GetEffects r"
  "GetPosition (SetPartyMember e vPartyMember r) = GetPosition r"
  "GetConnection (SetPartyMember e vPartyMember r) = GetConnection r"
  "GetMetadata (SetPartyMember e vPartyMember r) = GetMetadata r"
  "GetStats (SetPartyMember e vPartyMember r) = GetStats r"
  "GetAI (SetPartyMember e vPartyMember r) = GetAI r"
  "GetInventory (SetPartyMember e vPartyMember r) = GetInventory r"
  "GetLifetime (SetPartyMember e vPartyMember r) = GetLifetime r"
  "GetItemTemplate (SetPartyMember e vPartyMember r) = GetItemTemplate r"
  "GetEquipment (SetPartyMember e vPartyMember r) = GetEquipment r"
  "GetParty (SetPartyMember e vPartyMember r) = GetParty r"
  "GetEffects (SetPartyMember e vPartyMember r) = GetEffects r"
  "GetPosition (SetEffects e vEffects r) = GetPosition r"
  "GetConnection (SetEffects e vEffects r) = GetConnection r"
  "GetMetadata (SetEffects e vEffects r) = GetMetadata r"
  "GetStats (SetEffects e vEffects r) = GetStats r"
  "GetAI (SetEffects e vEffects r) = GetAI r"
  "GetInventory (SetEffects e vEffects r) = GetInventory r"
  "GetLifetime (SetEffects e vEffects r) = GetLifetime r"
  "GetItemTemplate (SetEffects e vEffects r) = GetItemTemplate r"
  "GetEquipment (SetEffects e vEffects r) = GetEquipment r"
  "GetParty (SetEffects e vEffects r) = GetParty r"
  "GetPartyMember (SetEffects e vEffects r) = GetPartyMember r"
  by (simp_all add: accessor_defs fun_eq_iff)

lemma fits_registered: "inj_on EntityIndex (insert e A) \<Longrightarrow> K \<subseteq> A \<Longrightarrow> fits K e"
  by (auto simp: fits_def inj_on_def)

lemma registry_okD:
  assumes "registry_ok r"
  shows "store_ok (positions r)"
    and "store_ok (conns r)"
    and "store_ok (metadata r)"
    and "store_ok (stats r)"
    and "store_ok (ai r)"
    and "store_ok (inventories r)"
    and "store_ok (lifetimes r)"
    and "store_ok (itemTemplates r)"
    and "store_ok (equipment r)"
    and "store_ok (parties r)"
    and "store_ok (partyMembers r)"
    and "store_ok (effects r)"
  using assms by (simp_all add: registry_ok_def)

lemma registered_stores:
  assumes "registry_ok r"
  shows "dom (store_get (positions r)) \<subseteq> registered r"
    and "dom (store_get (conns r)) \<subseteq> registered r"
    and "dom (store_get (metadata r)) \<subseteq> registered r"
    and "dom (store_get (stats r)) \<subseteq> registered r"
    and "dom (store_get (ai r)) \<subseteq> registered r"
    and "dom (store_get (inventories r)) \<subseteq> registered r"
    and "dom (store_get (lifetimes r)) \<subseteq> registered r"
    and "dom (store_get (itemTemplates r)) \<subseteq> registered r"
    and "dom (store_get (equipment r)) \<subseteq> registered r"
    and "dom (store_get (parties r)) \<subseteq> registered r"
    and "dom (store_get (partyMembers r)) \<subseteq> registered r"
    and "dom (store_get (effects r)) \<subseteq> registered r"
  using assms by (auto simp: registered_def registry_ok_def dense_dom [symmetric])

lemma dense_set_store:
  "store_ok s \<Longrightarrow> fits (dom (store_get s)) e \<Longrightarrow> set (dense (store_set e v s)) = insert e (set (dense s))"
  by (simp add: dense_dom store_set_refines)

lemma SetPosition_inv:
  assumes inv: "registry_inv r" and fresh: "inj_on EntityIndex (insert e (registered r))"
  shows "registry_inv (SetPosition e v r)" and "GetPosition (SetPosition e v r) = (GetPosition r)(e \<mapsto> v)"
    and "registered (SetPosition e v r) = insert e (registered r)"
proof -
  have ok: "registry_ok r" using inv by (simp add: registry_inv_def)
  have fit: "fits (dom (store_get (positions r))) e" using fresh registered_stores [OF ok] by (intro fits_registered)
  note st = store_set_refines [OF _ fit] dense_set_store [OF _ fit] registry_okD [OF ok]
  show reg: "registered (SetPosition e v r) = insert e (registered r)"
    using st by (simp add: registered_def accessor_defs insert_commute Un_insert_left Un_insert_right)
  show "registry_inv (SetPosition e v r)"
    using ok fresh st unfolding registry_inv_def reg by (simp add: registry_ok_def accessor_defs)
  show "GetPosition (SetPosition e v r) = (GetPosition r)(e \<mapsto> v)"
    using st by (simp add: accessor_defs fun_eq_iff)
qed

lemma SetConnection_inv:
  assumes inv: "registry_inv r" and fresh: "inj_on EntityIndex (insert e (registered r))"
  shows "registry_inv (SetConnection e v r)" and "GetConnection (SetConnection e v r) = (GetConnection r)(e \<mapsto> v)"
    and "registered (SetConnection e v r) = insert e (registered r)"
proof -
  have ok: "registry_ok r" using inv by (simp add: registry_inv_def)
  have fit: "fits (dom (store_get (conns r))) e" using fresh registered_stores [OF ok] by (intro fits_registered)
  note st = store_set_refines [OF _ fit] dense_set_store [OF _ fit] registry_okD [OF ok]
  show reg: "registered (SetConnection e v r) = insert e (registered r)"
    using st by (simp add: registered_def accessor_defs insert_commute Un_insert_left Un_insert_right)
  show "registry_inv (SetConnection e v r)"
    using ok fresh st unfolding registry_inv_def reg by (simp add: registry_ok_def accessor_defs)
  show "GetConnection (SetConnection e v r) = (GetConnection r)(e \<mapsto> v)"
    using st by (simp add: accessor_defs fun_eq_iff)
qed

lemma SetMetadata_inv:
  assumes inv: "registry_inv r" and fresh: "inj_on EntityIndex (insert e (registered r))"
  shows "registry_inv (SetMetadata e v r)" and "GetMetadata (SetMetadata e v r) = (GetMetadata r)(e \<mapsto> v)"
    and "registered (SetMetadata e v r) = insert e (registered r)"
proof -
  have ok: "registry_ok r" using inv by (simp add: registry_inv_def)
  have fit: "fits (dom (store_get (metadata r))) e" using fresh registered_stores [OF ok] by (intro fits_registered)
  note st = store_set_refines [OF _ fit] dense_set_store [OF _ fit] registry_okD [OF ok]
  show reg: "registered (SetMetadata e v r) = insert e (registered r)"
    using st by (simp add: registered_def accessor_defs insert_commute Un_insert_left Un_insert_right)
  show "registry_inv (SetMetadata e v r)"
    using ok fresh st unfolding registry_inv_def reg by (simp add: registry_ok_def accessor_defs)
  show "GetMetadata (SetMetadata e v r) = (GetMetadata r)(e \<mapsto> v)"
    using st by (simp add: accessor_defs fun_eq_iff)
qed

lemma SetStats_inv:
  assumes inv: "registry_inv r" and fresh: "inj_on EntityIndex (insert e (registered r))"
  shows "registry_inv (SetStats e v r)" and "GetStats (SetStats e v r) = (GetStats r)(e \<mapsto> v)"
    and "registered (SetStats e v r) = insert e (registered r)"
proof -
  have ok: "registry_ok r" using inv by (simp add: registry_inv_def)
  have fit: "fits (dom (store_get (stats r))) e" using fresh registered_stores [OF ok] by (intro fits_registered)
  note st = store_set_refines [OF _ fit] dense_set_store [OF _ fit] registry_okD [OF ok]
  show reg: "registered (SetStats e v r) = insert e (registered r)"
    using st by (simp add: registered_def accessor_defs insert_commute Un_insert_left Un_insert_right)
  show "registry_inv (SetStats e v r)"
    using ok fresh st unfolding registry_inv_def reg by (simp add: registry_ok_def accessor_defs)
  show "GetStats (SetStats e v r) = (GetStats r)(e \<mapsto> v)"
    using st by (simp add: accessor_defs fun_eq_iff)
qed

lemma SetAI_inv:
  assumes inv: "registry_inv r" and fresh: "inj_on EntityIndex (insert e (registered r))"
  shows "registry_inv (SetAI e v r)" and "GetAI (SetAI e v r) = (GetAI r)(e \<mapsto> v)"
    and "registered (SetAI e v r) = insert e (registered r)"
proof -
  have ok: "registry_ok r" using inv by (simp add: registry_inv_def)
  have fit: "fits (dom (store_get (ai r))) e" using fresh registered_stores [OF ok] by (intro fits_registered)
  note st = store_set_refines [OF _ fit] dense_set_store [OF _ fit] registry_okD [OF ok]
  show reg: "registered (SetAI e v r) = insert e (registered r)"
    using st by (simp add: registered_def accessor_defs insert_commute Un_insert_left Un_insert_right)
  show "registry_inv (SetAI e v r)"
    using ok fresh st unfolding registry_inv_def reg by (simp add: registry_ok_def accessor_defs)
  show "GetAI (SetAI e v r) = (GetAI r)(e \<mapsto> v)"
    using st by (simp add: accessor_defs fun_eq_iff)
qed

lemma SetInventory_inv:
  assumes inv: "registry_inv r" and fresh: "inj_on EntityIndex (insert e (registered r))"
  shows "registry_inv (SetInventory e v r)" and "GetInventory (SetInventory e v r) = (GetInventory r)(e \<mapsto> v)"
    and "registered (SetInventory e v r) = insert e (registered r)"
proof -
  have ok: "registry_ok r" using inv by (simp add: registry_inv_def)
  have fit: "fits (dom (store_get (inventories r))) e" using fresh registered_stores [OF ok] by (intro fits_registered)
  note st = store_set_refines [OF _ fit] dense_set_store [OF _ fit] registry_okD [OF ok]
  show reg: "registered (SetInventory e v r) = insert e (registered r)"
    using st by (simp add: registered_def accessor_defs insert_commute Un_insert_left Un_insert_right)
  show "registry_inv (SetInventory e v r)"
    using ok fresh st unfolding registry_inv_def reg by (simp add: registry_ok_def accessor_defs)
  show "GetInventory (SetInventory e v r) = (GetInventory r)(e \<mapsto> v)"
    using st by (simp add: accessor_defs fun_eq_iff)
qed

lemma SetLifetime_inv:
  assumes inv: "registry_inv r" and fresh: "inj_on EntityIndex (insert e (registered r))"
  shows "registry_inv (SetLifetime e v r)" and "GetLifetime (SetLifetime e v r) = (GetLifetime r)(e \<mapsto> v)"
    and "registered (SetLifetime e v r) = insert e (registered r)"
proof -
  have ok: "registry_ok r" using inv by (simp add: registry_inv_def)
  have fit: "fits (dom (store_get (lifetimes r))) e" using fresh registered_stores [OF ok] by (intro fits_registered)
  note st = store_set_refines [OF _ fit] dense_set_store [OF _ fit] registry_okD [OF ok]
  show reg: "registered (SetLifetime e v r) = insert e (registered r)"
    using st by (simp add: registered_def accessor_defs insert_commute Un_insert_left Un_insert_right)
  show "registry_inv (SetLifetime e v r)"
    using ok fresh st unfolding registry_inv_def reg by (simp add: registry_ok_def accessor_defs)
  show "GetLifetime (SetLifetime e v r) = (GetLifetime r)(e \<mapsto> v)"
    using st by (simp add: accessor_defs fun_eq_iff)
qed

lemma SetItemTemplate_inv:
  assumes inv: "registry_inv r" and fresh: "inj_on EntityIndex (insert e (registered r))"
  shows "registry_inv (SetItemTemplate e v r)" and "GetItemTemplate (SetItemTemplate e v r) = (GetItemTemplate r)(e \<mapsto> v)"
    and "registered (SetItemTemplate e v r) = insert e (registered r)"
proof -
  have ok: "registry_ok r" using inv by (simp add: registry_inv_def)
  have fit: "fits (dom (store_get (itemTemplates r))) e" using fresh registered_stores [OF ok] by (intro fits_registered)
  note st = store_set_refines [OF _ fit] dense_set_store [OF _ fit] registry_okD [OF ok]
  show reg: "registered (SetItemTemplate e v r) = insert e (registered r)"
    using st by (simp add: registered_def accessor_defs insert_commute Un_insert_left Un_insert_right)
  show "registry_inv (SetItemTemplate e v r)"
    using ok fresh st unfolding registry_inv_def reg by (simp add: registry_ok_def accessor_defs)
  show "GetItemTemplate (SetItemTemplate e v r) = (GetItemTemplate r)(e \<mapsto> v)"
    using st by (simp add: accessor_defs fun_eq_iff)
qed

lemma SetEquipment_inv:
  assumes inv: "registry_inv r" and fresh: "inj_on EntityIndex (insert e (registered r))"
  shows "registry_inv (SetEquipment e v r)" and "GetEquipment (SetEquipment e v r) = (GetEquipment r)(e \<mapsto> v)"
    and "registered (SetEquipment e v r) = insert e (registered r)"
proof -
  have ok: "registry_ok r" using inv by (simp add: registry_inv_def)
  have fit: "fits (dom (store_get (equipment r))) e" using fresh registered_stores [OF ok] by (intro fits_registered)
  note st = store_set_refines [OF _ fit] dense_set_store [OF _ fit] registry_okD [OF ok]
  show reg: "registered (SetEquipment e v r) = insert e (registered r)"
    using st by (simp add: registered_def accessor_defs insert_commute Un_insert_left Un_insert_right)
  show "registry_inv (SetEquipment e v r)"
    using ok fresh st unfolding registry_inv_def reg by (simp add: registry_ok_def accessor_defs)
  show "GetEquipment (SetEquipment e v r) = (GetEquipment r)(e \<mapsto> v)"
    using st by (simp add: accessor_defs fun_eq_iff)
qed

lemma SetParty_inv:
  assumes inv: "registry_inv r" and fresh: "inj_on EntityIndex (insert e (registered r))"
  shows "registry_inv (SetParty e v r)" and "GetParty (SetParty e v r) = (GetParty r)(e \<mapsto> v)"
    and "registered (SetParty e v r) = insert e (registered r)"
proof -
  have ok: "registry_ok r" using inv by (simp add: registry_inv_def)
  have fit: "fits (dom (store_get (parties r))) e" using fresh registered_stores [OF ok] by (intro fits_registered)
  note st = store_set_refines [OF _ fit] dense_set_store [OF _ fit] registry_okD [OF ok]
  show reg: "registered (SetParty e v r) = insert e (registered r)"
    using st by (simp add: registered_def accessor_defs insert_commute Un_insert_left Un_insert_right)
  show "registry_inv (SetParty e v r)"
    using ok fresh st unfolding registry_inv_def reg by (simp add: registry_ok_def accessor_defs)
  show "GetParty (SetParty e v r) = (GetParty r)(e \<mapsto> v)"
    using st by (simp add: accessor_defs fun_eq_iff)
qed

lemma SetPartyMember_inv:
  assumes inv: "registry_inv r" and fresh: "inj_on EntityIndex (insert e (registered r))"
  shows "registry_inv (SetPartyMember e v r)" and "GetPartyMember (SetPartyMember e v r) = (GetPartyMember r)(e \<mapsto> v)"
    and "registered (SetPartyMember e v r) = insert e (registered r)"
proof -
  have ok: "registry_ok r" using inv by (simp add: registry_inv_def)
  have fit: "fits (dom (store_get (partyMembers r))) e" using fresh registered_stores [OF ok] by (intro fits_registered)
  note st = store_set_refines [OF _ fit] dense_set_store [OF _ fit] registry_okD [OF ok]
  show reg: "registered (SetPartyMember e v r) = insert e (registered r)"
    using st by (simp add: registered_def accessor_defs insert_commute Un_insert_left Un_insert_right)
  show "registry_inv (SetPartyMember e v r)"
    using ok fresh st unfolding registry_inv_def reg by (simp add: registry_ok_def accessor_defs)
  show "GetPartyMember (SetPartyMember e v r) = (GetPartyMember r)(e \<mapsto> v)"
    using st by (simp add: accessor_defs fun_eq_iff)
qed

lemma SetEffects_inv:
  assumes inv: "registry_inv r" and fresh: "inj_on EntityIndex (insert e (registered r))"
  shows "registry_inv (SetEffects e v r)" and "GetEffects (SetEffects e v r) = (GetEffects r)(e \<mapsto> v)"
    and "registered (SetEffects e v r) = insert e (registered r)"
proof -
  have ok: "registry_ok r" using inv by (simp add: registry_inv_def)
  have fit: "fits (dom (store_get (effects r))) e" using fresh registered_stores [OF ok] by (intro fits_registered)
  note st = store_set_refines [OF _ fit] dense_set_store [OF _ fit] registry_okD [OF ok]
  show reg: "registered (SetEffects e v r) = insert e (registered r)"
    using st by (simp add: registered_def accessor_defs insert_commute Un_insert_left Un_insert_right)
  show "registry_inv (SetEffects e v r)"
    using ok fresh st unfolding registry_inv_def reg by (simp add: registry_ok_def accessor_defs)
  show "GetEffects (SetEffects e v r) = (GetEffects r)(e \<mapsto> v)"
    using st by (simp add: accessor_defs fun_eq_iff)
qed

text \<open>Overwriting a component of a registered entity is always legal.\<close>

lemma registered_insert: "registry_inv r \<Longrightarrow> e \<in> registered r \<Longrightarrow> inj_on EntityIndex (insert e (registered r))"
  by (simp add: registry_inv_def insert_absorb)

text \<open>A new identifier touches no component.\<close>

lemma reg_NewEntity_frame:
  assumes "reg_NewEntity r fl = (e, r', fl')"
  shows "GetPosition r' = GetPosition r"
    and "GetConnection r' = GetConnection r"
    and "GetMetadata r' = GetMetadata r"
    and "GetStats r' = GetStats r"
    and "GetAI r' = GetAI r"
    and "GetInventory r' = GetInventory r"
    and "GetLifetime r' = GetLifetime r"
    and "GetItemTemplate r' = GetItemTemplate r"
    and "GetEquipment r' = GetEquipment r"
    and "GetParty r' = GetParty r"
    and "GetPartyMember r' = GetPartyMember r"
    and "GetEffects r' = GetEffects r"
    and "registered r' = registered r" and "registry_inv r' = registry_inv r"
proof -
  obtain n where "r' = r\<lparr>reg_nextID := n\<rparr>" using assms by (auto simp: reg_NewEntity_def split: prod.splits)
  then show "GetPosition r' = GetPosition r"
    and "GetConnection r' = GetConnection r"
    and "GetMetadata r' = GetMetadata r"
    and "GetStats r' = GetStats r"
    and "GetAI r' = GetAI r"
    and "GetInventory r' = GetInventory r"
    and "GetLifetime r' = GetLifetime r"
    and "GetItemTemplate r' = GetItemTemplate r"
    and "GetEquipment r' = GetEquipment r"
    and "GetParty r' = GetParty r"
    and "GetPartyMember r' = GetPartyMember r"
    and "GetEffects r' = GetEffects r"
    and "registered r' = registered r" and "registry_inv r' = registry_inv r"
    by (simp_all add: fun_eq_iff accessor_defs registered_def registry_inv_def registry_ok_def)
qed

text \<open>Setting a component of an entity that is already registered.\<close>

lemma Set_known [simp]:
  assumes "registry_inv r" and "e \<in> registered r"
  shows "registry_inv (SetPosition e vPosition r)"
    and "GetPosition (SetPosition e vPosition r) = (GetPosition r)(e \<mapsto> vPosition)"
    and "registered (SetPosition e vPosition r) = registered r"
    and "registry_inv (SetConnection e vConnection r)"
    and "GetConnection (SetConnection e vConnection r) = (GetConnection r)(e \<mapsto> vConnection)"
    and "registered (SetConnection e vConnection r) = registered r"
    and "registry_inv (SetMetadata e vMetadata r)"
    and "GetMetadata (SetMetadata e vMetadata r) = (GetMetadata r)(e \<mapsto> vMetadata)"
    and "registered (SetMetadata e vMetadata r) = registered r"
    and "registry_inv (SetStats e vStats r)"
    and "GetStats (SetStats e vStats r) = (GetStats r)(e \<mapsto> vStats)"
    and "registered (SetStats e vStats r) = registered r"
    and "registry_inv (SetAI e vAI r)"
    and "GetAI (SetAI e vAI r) = (GetAI r)(e \<mapsto> vAI)"
    and "registered (SetAI e vAI r) = registered r"
    and "registry_inv (SetInventory e vInventory r)"
    and "GetInventory (SetInventory e vInventory r) = (GetInventory r)(e \<mapsto> vInventory)"
    and "registered (SetInventory e vInventory r) = registered r"
    and "registry_inv (SetLifetime e vLifetime r)"
    and "GetLifetime (SetLifetime e vLifetime r) = (GetLifetime r)(e \<mapsto> vLifetime)"
    and "registered (SetLifetime e vLifetime r) = registered r"
    and "registry_inv (SetItemTemplate e vItemTemplate r)"
    and "GetItemTemplate (SetItemTemplate e vItemTemplate r) = (GetItemTemplate r)(e \<mapsto> vItemTemplate)"
    and "registered (SetItemTemplate e vItemTemplate r) = registered r"
    and "registry_inv (SetEquipment e vEquipment r)"
    and "GetEquipment (SetEquipment e vEquipment r) = (GetEquipment r)(e \<mapsto> vEquipment)"
    and "registered (SetEquipment e vEquipment r) = registered r"
    and "registry_inv (SetParty e vParty r)"
    and "GetParty (SetParty e vParty r) = (GetParty r)(e \<mapsto> vParty)"
    and "registered (SetParty e vParty r) = registered r"
    and "registry_inv (SetPartyMember e vPartyMember r)"
    and "GetPartyMember (SetPartyMember e vPartyMember r) = (GetPartyMember r)(e \<mapsto> vPartyMember)"
    and "registered (SetPartyMember e vPartyMember r) = registered r"
    and "registry_inv (SetEffects e vEffects r)"
    and "GetEffects (SetEffects e vEffects r) = (GetEffects r)(e \<mapsto> vEffects)"
    and "registered (SetEffects e vEffects r) = registered r"
  using SetPosition_inv [OF assms(1) registered_insert [OF assms]]
    SetConnection_inv [OF assms(1) registered_insert [OF assms]]
    SetMetadata_inv [OF assms(1) registered_insert [OF assms]]
    SetStats_inv [OF assms(1) registered_insert [OF assms]]
    SetAI_inv [OF assms(1) registered_insert [OF assms]]
    SetInventory_inv [OF assms(1) registered_insert [OF assms]]
    SetLifetime_inv [OF assms(1) registered_insert [OF assms]]
    SetItemTemplate_inv [OF assms(1) registered_insert [OF assms]]
    SetEquipment_inv [OF assms(1) registered_insert [OF assms]]
    SetParty_inv [OF assms(1) registered_insert [OF assms]]
    SetPartyMember_inv [OF assms(1) registered_insert [OF assms]]
    SetEffects_inv [OF assms(1) registered_insert [OF assms]]
  by (simp_all add: insert_absorb [OF assms(2)])

lemma Get_registered:
  assumes "registry_inv r"
  shows "GetPosition r e = Some vPosition \<Longrightarrow> e \<in> registered r"
    and "GetConnection r e = Some vConnection \<Longrightarrow> e \<in> registered r"
    and "GetMetadata r e = Some vMetadata \<Longrightarrow> e \<in> registered r"
    and "GetStats r e = Some vStats \<Longrightarrow> e \<in> registered r"
    and "GetAI r e = Some vAI \<Longrightarrow> e \<in> registered r"
    and "GetInventory r e = Some vInventory \<Longrightarrow> e \<in> registered r"
    and "GetLifetime r e = Some vLifetime \<Longrightarrow> e \<in> registered r"
    and "GetItemTemplate r e = Some vItemTemplate \<Longrightarrow> e \<in> registered r"
    and "GetEquipment r e = Some vEquipment \<Longrightarrow> e \<in> registered r"
    and "GetParty r e = Some vParty \<Longrightarrow> e \<in> registered r"
    and "GetPartyMember r e = Some vPartyMember \<Longrightarrow> e \<in> registered r"
    and "GetEffects r e = Some vEffects \<Longrightarrow> e \<in> registered r"
  using registered_stores [of r] assms by (auto simp: accessor_defs registry_inv_def)

subsection \<open>Properties\<close>

text \<open>
  C2 \<open>RemoveEntity\<close> on a well-formed registry removes all twelve components of the entity and queues its
  identifier for reuse exactly once; no component of another entity changes, the identifier counter stays,
  and the registry is well formed again.
\<close>

theorem RemoveEntity_exact:
  assumes "registry_inv r" and "RemoveEntity e r fl = (r', fl')"
  shows "no_components e r' \<and> (\<forall>x. x \<noteq> e \<longrightarrow> same_components x r r') \<and> registry_inv r' \<and>
    registered r' = registered r - {e} \<and> TotalEntityIDs r' = TotalEntityIDs r \<and> fl' = fl @ [e]"
  using RemoveEntity_inv [OF assms] RemoveEntity_effect [OF _ assms(2)] assms(1)
  unfolding registry_inv_def TotalEntityIDs_def by blast

theorem RemoveEntity_exact_witness:
  "no_components 7 (fst (RemoveEntity 7 (SetStats 7 slime_stats (SetPosition 7 slime_pos NewRegistry)) []))"
proof -
  have emp: "registered NewRegistry = {}" by (simp add: registered_def NewRegistry_def empty_store_def)
  have one: "inj_on EntityIndex (insert 7 (registered NewRegistry))" by (simp add: emp)
  note p = SetPosition_inv [OF registry_inv_NewRegistry one, of slime_pos]
  have "inj_on EntityIndex (insert 7 (registered (SetPosition 7 slime_pos NewRegistry)))" using p(3) emp by simp
  note s = SetStats_inv [OF p(1) this, of slime_stats]
  obtain r' fl' where "RemoveEntity 7 (SetStats 7 slime_stats (SetPosition 7 slime_pos NewRegistry)) [] = (r', fl')" by force
  from RemoveEntity_exact [OF s(1) this] this show ?thesis by simp
qed

end
