(* ===== verification/Trade.thy ===== *)
theory Trade
  imports Ecs_Registry "HOL-Library.AList"
begin

text \<open>
  \<open>server/game/trade.go\<close>: two-player trades. Every operation holds the registry's mutex from its first to its
  last access, so it is one atomic step. An offer's map is an association list with distinct keys, whose order
  stands for the iteration order. A reply constructor stands for one message of the code; \<open>TradePanic\<close> is the
  nil dereference of a session that is bound but missing. The notices sent to players are returned.
\<close>

subsection \<open>Bags\<close>

text \<open>A Go map read at a missing key gives zero.\<close>

definition bag_get :: "item_bag \<Rightarrow> u64 \<Rightarrow> int" where
  "bag_get m k = (case m k of None \<Rightarrow> 0 | Some n \<Rightarrow> n)"

definition bag_take :: "u64 \<times> int \<Rightarrow> item_bag \<Rightarrow> item_bag" where
  "bag_take kq m = (case kq of (k, q) \<Rightarrow>
     (let v = bag_get m k - q in if v = 0 then m(k := None) else m(k \<mapsto> v)))"

definition bag_put :: "u64 \<times> int \<Rightarrow> item_bag \<Rightarrow> item_bag" where
  "bag_put kq m = (case kq of (k, q) \<Rightarrow> m(k \<mapsto> bag_get m k + q))"

type_synonym offer_items = "(u64 \<times> int) list"

definition offered :: "offer_items \<Rightarrow> u64 \<Rightarrow> int" where
  "offered xs k = (case map_of xs k of None \<Rightarrow> 0 | Some n \<Rightarrow> n)"

subsection \<open>State\<close>

record TradeOffer =
  to_PlayerID :: entity
  to_IsLocked :: bool
  to_ItemIDs :: offer_items

record TradeSession =
  SessionID :: entity
  OfferA :: TradeOffer
  OfferB :: TradeOffer

record TradeSystemRegistry =
  sessions :: "entity \<rightharpoonup> TradeSession"
  bindings :: "entity \<rightharpoonup> entity"

definition NewTradeRegistry :: TradeSystemRegistry where
  "NewTradeRegistry = \<lparr>sessions = Map.empty, bindings = Map.empty\<rparr>"

datatype trade_reply =
  TradeWithSelf | TradeNoTarget | TradeBusySelf | TradeBusyTarget | TradeOpened
| TradeBadQuantity | TradeNoSession | TradeOfferLocked | TradeNoInventory | TradeInsufficient | TradeOffered
| TradeAlreadyLocked | TradeLocked | TradeBadInventories | TradeAInsufficient | TradeBInsufficient | TradeCompleted
| TradeCancelled | TradeMissing | TradePanic

datatype trade_notice = NoticeOpened entity | NoticeOffered u64 int | NoticeLocked | NoticeCompleted | NoticeCancelled

type_synonym notices = "(entity \<times> trade_notice) list"

subsection \<open>Operations\<close>

definition InitializeTradeSession ::
  "entity \<Rightarrow> entity \<Rightarrow> TradeSystemRegistry \<Rightarrow> Registry \<Rightarrow> entity list \<Rightarrow>
   (trade_reply \<times> bool) \<times> TradeSystemRegistry \<times> Registry \<times> entity list \<times> notices" where
  "InitializeTradeSession playerA playerB tr r fl =
     (if playerA = playerB then ((TradeWithSelf, False), tr, r, fl, [])
      else case GetMetadata r playerB of
        None \<Rightarrow> ((TradeNoTarget, False), tr, r, fl, [])
      | Some _ \<Rightarrow>
          if bindings tr playerA \<noteq> None then ((TradeBusySelf, False), tr, r, fl, [])
          else if bindings tr playerB \<noteq> None then ((TradeBusyTarget, False), tr, r, fl, [])
          else (case reg_NewEntity r fl of (sid, r', fl') \<Rightarrow>
            let session = \<lparr>SessionID = sid,
                  OfferA = \<lparr>to_PlayerID = playerA, to_IsLocked = False, to_ItemIDs = []\<rparr>,
                  OfferB = \<lparr>to_PlayerID = playerB, to_IsLocked = False, to_ItemIDs = []\<rparr>\<rparr>
            in ((TradeOpened, True),
                tr\<lparr>sessions := (sessions tr)(sid \<mapsto> session), bindings := (bindings tr)(playerA \<mapsto> sid, playerB \<mapsto> sid)\<rparr>,
                r', fl', [(playerB, NoticeOpened playerA)])))"

definition is_sideA :: "entity \<Rightarrow> TradeSession \<Rightarrow> bool" where
  "is_sideA p s \<longleftrightarrow> to_PlayerID (OfferA s) = p"

definition my_offer :: "entity \<Rightarrow> TradeSession \<Rightarrow> TradeOffer" where
  "my_offer p s = (if is_sideA p s then OfferA s else OfferB s)"

definition other_offer :: "entity \<Rightarrow> TradeSession \<Rightarrow> TradeOffer" where
  "other_offer p s = (if is_sideA p s then OfferB s else OfferA s)"

definition put_offer :: "entity \<Rightarrow> TradeOffer \<Rightarrow> TradeSession \<Rightarrow> TradeSession" where
  "put_offer p off s = (if is_sideA p s then s\<lparr>OfferA := off\<rparr> else s\<lparr>OfferB := off\<rparr>)"

definition OfferItemToTrade ::
  "entity \<Rightarrow> u64 \<Rightarrow> int \<Rightarrow> TradeSystemRegistry \<Rightarrow> Registry \<Rightarrow> (trade_reply \<times> bool) \<times> TradeSystemRegistry \<times> notices" where
  "OfferItemToTrade p itemID qty tr r =
     (if qty \<le> 0 then ((TradeBadQuantity, False), tr, [])
      else case bindings tr p of
        None \<Rightarrow> ((TradeNoSession, False), tr, [])
      | Some sid \<Rightarrow> (case sessions tr sid of
          None \<Rightarrow> ((TradePanic, False), tr, [])
        | Some s \<Rightarrow>
            let off = my_offer p s
            in if to_IsLocked off then ((TradeOfferLocked, False), tr, [])
               else (case GetInventory r p of
                 None \<Rightarrow> ((TradeNoInventory, False), tr, [])
               | Some bag \<Rightarrow>
                   let total = offered (to_ItemIDs off) itemID + qty
                   in if bag_get (Items bag) itemID < total then ((TradeInsufficient, False), tr, [])
                      else ((TradeOffered, True),
                            tr\<lparr>sessions := (sessions tr)(sid \<mapsto>
                                 put_offer p (off\<lparr>to_ItemIDs := AList.update itemID total (to_ItemIDs off)\<rparr>) s)\<rparr>,
                            [(to_PlayerID (other_offer p s), NoticeOffered itemID qty)]))))"

definition cancelTradeSessionLocked ::
  "entity \<Rightarrow> TradeSystemRegistry \<Rightarrow> (trade_reply \<times> bool) \<times> TradeSystemRegistry \<times> notices" where
  "cancelTradeSessionLocked p tr =
     (case bindings tr p of
        None \<Rightarrow> ((TradeNoSession, False), tr, [])
      | Some sid \<Rightarrow> (case sessions tr sid of
          None \<Rightarrow> ((TradePanic, False), tr, [])
        | Some s \<Rightarrow>
            let pA = to_PlayerID (OfferA s); pB = to_PlayerID (OfferB s)
            in ((TradeCancelled, True),
                tr\<lparr>bindings := (bindings tr)(pA := None, pB := None), sessions := (sessions tr)(sid := None)\<rparr>,
                [(if pA \<noteq> p then pA else pB, NoticeCancelled)])))"

definition CancelTradeSession ::
  "entity \<Rightarrow> TradeSystemRegistry \<Rightarrow> (trade_reply \<times> bool) \<times> TradeSystemRegistry \<times> notices" where
  "CancelTradeSession p tr = cancelTradeSessionLocked p tr"

definition covers :: "item_bag \<Rightarrow> offer_items \<Rightarrow> bool" where
  "covers m xs \<longleftrightarrow> list_all (\<lambda>(k, q). \<not> bag_get m k < q) xs"

definition executeSwapLocked ::
  "entity \<Rightarrow> TradeSystemRegistry \<Rightarrow> Registry \<Rightarrow> (trade_reply \<times> bool) \<times> TradeSystemRegistry \<times> Registry \<times> notices" where
  "executeSwapLocked sid tr r =
     (case sessions tr sid of
        None \<Rightarrow> ((TradeMissing, False), tr, r, [])
      | Some s \<Rightarrow>
          let pA = to_PlayerID (OfferA s); pB = to_PlayerID (OfferB s);
              offA = to_ItemIDs (OfferA s); offB = to_ItemIDs (OfferB s);
              abort = (\<lambda>reply. case cancelTradeSessionLocked pA tr of (_, tr', ns) \<Rightarrow> ((reply, False), tr', r, ns))
          in (case (GetInventory r pA, GetInventory r pB) of
                (Some invA, Some invB) \<Rightarrow>
                  if \<not> covers (Items invA) offA then abort TradeAInsufficient
                  else if \<not> covers (Items invB) offB then abort TradeBInsufficient
                  else
                    let itemsA = fold bag_put offB (fold bag_take offA (Items invA));
                        itemsB = fold bag_put offA (fold bag_take offB (Items invB));
                        r' = SetInventory pB \<lparr>Items = itemsB\<rparr> (SetInventory pA \<lparr>Items = itemsA\<rparr> r)
                    in ((TradeCompleted, True),
                        tr\<lparr>bindings := (bindings tr)(pA := None, pB := None), sessions := (sessions tr)(sid := None)\<rparr>,
                        r', [(pA, NoticeCompleted), (pB, NoticeCompleted)])
              | _ \<Rightarrow> abort TradeBadInventories))"

definition ExecuteAtomicTradeSwap ::
  "entity \<Rightarrow> TradeSystemRegistry \<Rightarrow> Registry \<Rightarrow> (trade_reply \<times> bool) \<times> TradeSystemRegistry \<times> Registry \<times> notices" where
  "ExecuteAtomicTradeSwap sid tr r = executeSwapLocked sid tr r"

definition LockTradeStage ::
  "entity \<Rightarrow> TradeSystemRegistry \<Rightarrow> Registry \<Rightarrow> (trade_reply \<times> bool) \<times> TradeSystemRegistry \<times> Registry \<times> notices" where
  "LockTradeStage p tr r =
     (case bindings tr p of
        None \<Rightarrow> ((TradeNoSession, False), tr, r, [])
      | Some sid \<Rightarrow> (case sessions tr sid of
          None \<Rightarrow> ((TradePanic, False), tr, r, [])
        | Some s \<Rightarrow>
            if to_IsLocked (my_offer p s) then ((TradeAlreadyLocked, False), tr, r, [])
            else
              let s' = put_offer p ((my_offer p s)\<lparr>to_IsLocked := True\<rparr>) s;
                  tr' = tr\<lparr>sessions := (sessions tr)(sid \<mapsto> s')\<rparr>
              in if to_IsLocked (other_offer p s) then executeSwapLocked sid tr' r
                 else ((TradeLocked, True), tr', r, [(to_PlayerID (other_offer p s), NoticeLocked)])))"

subsection \<open>The swap, item by item\<close>

lemma bag_get_take: "bag_get (bag_take (k, q) m) j = bag_get m j - (if j = k then q else 0)"
  by (auto simp: bag_get_def bag_take_def Let_def split: option.splits)

lemma bag_get_put: "bag_get (bag_put (k, q) m) j = bag_get m j + (if j = k then q else 0)"
  by (auto simp: bag_get_def bag_put_def)

lemma offered_Cons: "offered ((k, q) # xs) j = (if j = k then q else offered xs j)"
  by (simp add: offered_def)

lemma offered_none: "k \<notin> fst ` set xs \<Longrightarrow> offered xs k = 0"
  by (simp add: offered_def map_of_eq_None_iff [THEN iffD2])

lemma bag_get_takes: "distinct (map fst xs) \<Longrightarrow> bag_get (fold bag_take xs m) j = bag_get m j - offered xs j"
proof (induction xs arbitrary: m)
  case (Cons x xs)
  obtain k q where x: "x = (k, q)" by force
  with Cons.prems have "offered xs k = 0" by (simp add: offered_none)
  with Cons x show ?case by (simp add: bag_get_take offered_Cons)
qed (simp add: offered_def)

lemma bag_get_puts: "distinct (map fst xs) \<Longrightarrow> bag_get (fold bag_put xs m) j = bag_get m j + offered xs j"
proof (induction xs arbitrary: m)
  case (Cons x xs)
  obtain k q where x: "x = (k, q)" by force
  with Cons.prems have "offered xs k = 0" by (simp add: offered_none)
  with Cons x show ?case by (simp add: bag_get_put offered_Cons)
qed (simp add: offered_def)

lemma covers_offered: "covers m xs \<Longrightarrow> 0 \<le> bag_get m k \<Longrightarrow> offered xs k \<le> bag_get m k"
  by (auto simp: covers_def offered_def list_all_iff split: option.splits dest!: map_of_SomeD)

lemma offered_update: "offered (AList.update k v xs) j = (if j = k then v else offered xs j)"
  by (simp add: offered_def update_conv')

subsection \<open>The invariant\<close>

definition offer_ok :: "TradeOffer \<Rightarrow> bool" where
  "offer_ok off \<longleftrightarrow> distinct (map fst (to_ItemIDs off)) \<and> (\<forall>(k, q) \<in> set (to_ItemIDs off). 0 < q)"

text \<open>
  Every session is bound by exactly its two different players. Between operations not both of its offers are
  locked, because the second lock ends the session.
\<close>

definition trade_inv :: "TradeSystemRegistry \<Rightarrow> bool" where
  "trade_inv tr \<longleftrightarrow>
     (\<forall>sid s. sessions tr sid = Some s \<longrightarrow> SessionID s = sid \<and> to_PlayerID (OfferA s) \<noteq> to_PlayerID (OfferB s) \<and>
        bindings tr (to_PlayerID (OfferA s)) = Some sid \<and> bindings tr (to_PlayerID (OfferB s)) = Some sid \<and>
        offer_ok (OfferA s) \<and> offer_ok (OfferB s)) \<and>
     (\<forall>p sid. bindings tr p = Some sid \<longrightarrow> (\<exists>s. sessions tr sid = Some s \<and>
        (p = to_PlayerID (OfferA s) \<or> p = to_PlayerID (OfferB s))))"

definition half_open :: "TradeSystemRegistry \<Rightarrow> bool" where
  "half_open tr \<longleftrightarrow> (\<forall>sid s. sessions tr sid = Some s \<longrightarrow> \<not> (to_IsLocked (OfferA s) \<and> to_IsLocked (OfferB s)))"

lemma trade_inv_New: "trade_inv NewTradeRegistry \<and> half_open NewTradeRegistry"
  by (simp add: trade_inv_def half_open_def NewTradeRegistry_def)

lemma trade_inv_session:
  assumes "trade_inv tr" and "sessions tr sid = Some s"
  shows "SessionID s = sid" and "to_PlayerID (OfferA s) \<noteq> to_PlayerID (OfferB s)"
    and "bindings tr (to_PlayerID (OfferA s)) = Some sid" and "bindings tr (to_PlayerID (OfferB s)) = Some sid"
    and "offer_ok (OfferA s)" and "offer_ok (OfferB s)"
  using assms unfolding trade_inv_def by blast+

lemma trade_inv_binding:
  assumes "trade_inv tr" and "bindings tr p = Some sid"
  obtains s where "sessions tr sid = Some s" and "p = to_PlayerID (OfferA s) \<or> p = to_PlayerID (OfferB s)"
  using assms unfolding trade_inv_def by blast

text \<open>Ending a session.\<close>

definition end_session :: "entity \<Rightarrow> TradeSession \<Rightarrow> TradeSystemRegistry \<Rightarrow> TradeSystemRegistry" where
  "end_session sid s tr = tr\<lparr>bindings := (bindings tr)(to_PlayerID (OfferA s) := None, to_PlayerID (OfferB s) := None),
     sessions := (sessions tr)(sid := None)\<rparr>"

lemma end_session_inv:
  assumes inv: "trade_inv tr" and s: "sessions tr sid = Some s"
  shows "trade_inv (end_session sid s tr)"
proof -
  note S = trade_inv_session [OF inv s]
  have apart: "to_PlayerID (OfferA x) \<notin> {to_PlayerID (OfferA s), to_PlayerID (OfferB s)} \<and>
      to_PlayerID (OfferB x) \<notin> {to_PlayerID (OfferA s), to_PlayerID (OfferB s)}"
    if "sessions tr y = Some x" "y \<noteq> sid" for x y
    using trade_inv_session(3,4) [OF inv that(1)] S(3,4) that(2) by auto
  show ?thesis
    unfolding trade_inv_def
  proof (intro conjI allI impI)
    fix y x assume "sessions (end_session sid s tr) y = Some x"
    then have x: "sessions tr y = Some x" "y \<noteq> sid" by (auto simp: end_session_def split: if_splits)
    note X = trade_inv_session [OF inv x(1)] apart [OF x]
    show "SessionID x = y" and "to_PlayerID (OfferA x) \<noteq> to_PlayerID (OfferB x)"
      and "bindings (end_session sid s tr) (to_PlayerID (OfferA x)) = Some y"
      and "bindings (end_session sid s tr) (to_PlayerID (OfferB x)) = Some y"
      and "offer_ok (OfferA x)" and "offer_ok (OfferB x)"
      using X by (auto simp: end_session_def)
  next
    fix p y assume "bindings (end_session sid s tr) p = Some y"
    then have p: "bindings tr p = Some y" "p \<noteq> to_PlayerID (OfferA s)" "p \<noteq> to_PlayerID (OfferB s)"
      by (auto simp: end_session_def split: if_splits)
    from trade_inv_binding [OF inv p(1)] obtain x where
      x: "sessions tr y = Some x" "p = to_PlayerID (OfferA x) \<or> p = to_PlayerID (OfferB x)" by blast
    with p s have "y \<noteq> sid" by auto
    with x show "\<exists>x. sessions (end_session sid s tr) y = Some x \<and> (p = to_PlayerID (OfferA x) \<or> p = to_PlayerID (OfferB x))"
      by (auto simp: end_session_def)
  qed
qed

text \<open>Changing a session without changing its players.\<close>

lemma put_session_inv:
  assumes inv: "trade_inv tr" and s: "sessions tr sid = Some s"
    and same: "SessionID s' = sid" "to_PlayerID (OfferA s') = to_PlayerID (OfferA s)" "to_PlayerID (OfferB s') = to_PlayerID (OfferB s)"
    and ok: "offer_ok (OfferA s')" "offer_ok (OfferB s')"
  shows "trade_inv (tr\<lparr>sessions := (sessions tr)(sid \<mapsto> s')\<rparr>)"
  unfolding trade_inv_def
proof (intro conjI allI impI)
  note S = trade_inv_session [OF inv s]
  fix y x assume "sessions (tr\<lparr>sessions := (sessions tr)(sid \<mapsto> s')\<rparr>) y = Some x"
  then have "(y = sid \<and> x = s') \<or> sessions tr y = Some x" by (auto split: if_splits)
  then show "SessionID x = y" and "to_PlayerID (OfferA x) \<noteq> to_PlayerID (OfferB x)"
    and "bindings (tr\<lparr>sessions := (sessions tr)(sid \<mapsto> s')\<rparr>) (to_PlayerID (OfferA x)) = Some y"
    and "bindings (tr\<lparr>sessions := (sessions tr)(sid \<mapsto> s')\<rparr>) (to_PlayerID (OfferB x)) = Some y"
    and "offer_ok (OfferA x)" and "offer_ok (OfferB x)"
    using trade_inv_session [OF inv, of y x] S same ok by auto
next
  fix p y assume "bindings (tr\<lparr>sessions := (sessions tr)(sid \<mapsto> s')\<rparr>) p = Some y"
  then have "bindings tr p = Some y" by simp
  from trade_inv_binding [OF inv this] obtain x where
    x: "sessions tr y = Some x" "p = to_PlayerID (OfferA x) \<or> p = to_PlayerID (OfferB x)" by blast
  show "\<exists>x. sessions (tr\<lparr>sessions := (sessions tr)(sid \<mapsto> s')\<rparr>) y = Some x \<and> (p = to_PlayerID (OfferA x) \<or> p = to_PlayerID (OfferB x))"
    using x s same by (cases "y = sid") auto
qed

subsection \<open>What each operation does\<close>

lemma cancel_ends:
  assumes inv: "trade_inv tr" and b: "bindings tr p = Some sid" and s: "sessions tr sid = Some s"
  shows "\<exists>ns. cancelTradeSessionLocked p tr = ((TradeCancelled, True), end_session sid s tr, ns)"
  using b s by (simp add: cancelTradeSessionLocked_def end_session_def Let_def)

lemma end_session_half: "half_open tr \<Longrightarrow> half_open (end_session sid s tr)"
  by (auto simp: half_open_def end_session_def split: if_splits)

lemma cancel_ok:
  assumes "trade_inv tr" and "half_open tr" and "cancelTradeSessionLocked p tr = ((reply, b), tr', ns)"
  shows "trade_inv tr' \<and> half_open tr' \<and> reply \<noteq> TradePanic"
proof (cases "bindings tr p")
  case None
  with assms show ?thesis by (auto simp: cancelTradeSessionLocked_def)
next
  case (Some sid)
  from trade_inv_binding [OF assms(1) Some] obtain s where s: "sessions tr sid = Some s" by blast
  from cancel_ends [OF assms(1) Some s] assms(3) have "tr' = end_session sid s tr" "reply = TradeCancelled" by auto
  with end_session_inv [OF assms(1) s] end_session_half [OF assms(2)] show ?thesis by simp
qed

text \<open>What a completed swap does to the inventories.\<close>

definition inv_count :: "Registry \<Rightarrow> entity \<Rightarrow> u64 \<Rightarrow> int" where
  "inv_count r e k = (case GetInventory r e of None \<Rightarrow> 0 | Some bag \<Rightarrow> bag_get (Items bag) k)"

definition swapped :: "TradeSession \<Rightarrow> Registry \<Rightarrow> Registry \<Rightarrow> bool" where
  "swapped s r r' \<longleftrightarrow>
     (let pA = to_PlayerID (OfferA s); pB = to_PlayerID (OfferB s);
          offA = offered (to_ItemIDs (OfferA s)); offB = offered (to_ItemIDs (OfferB s))
      in (\<forall>k. inv_count r' pA k = inv_count r pA k - offA k + offB k \<and>
              inv_count r' pB k = inv_count r pB k - offB k + offA k) \<and>
         (\<forall>e. e \<noteq> pA \<longrightarrow> e \<noteq> pB \<longrightarrow> GetInventory r' e = GetInventory r e))"

lemma executeSwap_cases:
  assumes inv: "trade_inv tr" and s: "sessions tr sid = Some s" and reg: "registry_inv r"
    and ex: "executeSwapLocked sid tr r = ((reply, b), tr', r', ns)"
  shows "tr' = end_session sid s tr \<and> reply \<noteq> TradePanic \<and> registry_inv r' \<and> registered r' = registered r \<and>
    (if b then swapped s r r' \<and> (\<forall>k. (\<forall>e. 0 \<le> inv_count r e k) \<longrightarrow> (\<forall>e. 0 \<le> inv_count r' e k)) else r' = r)"
proof -
  let ?pA = "to_PlayerID (OfferA s)" and ?pB = "to_PlayerID (OfferB s)"
    and ?offA = "to_ItemIDs (OfferA s)" and ?offB = "to_ItemIDs (OfferB s)"
  note S = trade_inv_session [OF inv s]
  obtain ns' where can: "cancelTradeSessionLocked ?pA tr = ((TradeCancelled, True), end_session sid s tr, ns')"
    using cancel_ends [OF inv S(3) s] by blast
  note exec = ex [unfolded executeSwapLocked_def Let_def s option.case can prod.case]
  show ?thesis
  proof (cases "GetInventory r ?pA")
    case None
    with exec show ?thesis using reg by auto
  next
    case (Some invA)
    note A = this
    show ?thesis
    proof (cases "GetInventory r ?pB")
      case None
      with exec A show ?thesis using reg by auto
    next
      case (Some invB)
      show ?thesis
      proof (cases "covers (Items invA) ?offA \<and> covers (Items invB) ?offB")
        case False
        with exec A Some reg show ?thesis by (auto split: if_splits)
      next
        case True
        let ?itemsA = "fold bag_put ?offB (fold bag_take ?offA (Items invA))"
        let ?itemsB = "fold bag_put ?offA (fold bag_take ?offB (Items invB))"
        from True exec A Some have r': "r' = SetInventory ?pB \<lparr>Items = ?itemsB\<rparr> (SetInventory ?pA \<lparr>Items = ?itemsA\<rparr> r)"
          and tr': "tr' = end_session sid s tr" and b: "b" "reply = TradeCompleted"
          by (auto simp: end_session_def)
        have mem: "?pA \<in> registered r" "?pB \<in> registered r" using Get_registered(6) [OF reg] A Some by auto
        then have inv': "registry_inv r'" "registered r' = registered r"
          and get: "GetInventory r' = (GetInventory r)(?pA \<mapsto> \<lparr>Items = ?itemsA\<rparr>, ?pB \<mapsto> \<lparr>Items = ?itemsB\<rparr>)"
          unfolding r' using reg by simp_all
        have dist: "distinct (map fst ?offA)" "distinct (map fst ?offB)" using S(5,6) by (auto simp: offer_ok_def)
        have cnt: "inv_count r' ?pA k = inv_count r ?pA k - offered ?offA k + offered ?offB k"
          "inv_count r' ?pB k = inv_count r ?pB k - offered ?offB k + offered ?offA k" for k
          using A Some S(2) dist by (simp_all add: inv_count_def get bag_get_puts bag_get_takes)
        have "swapped s r r'" unfolding swapped_def Let_def using cnt get by simp
        moreover have "0 \<le> inv_count r' e k" if nn: "\<forall>e. 0 \<le> inv_count r e k" for e k
        proof -
          have pos: "0 \<le> offered ?offA k" "0 \<le> offered ?offB k"
            using S(5,6) by (auto simp: offer_ok_def offered_def split: option.splits dest!: map_of_SomeD)
          have "0 \<le> bag_get (Items invA) k" "0 \<le> bag_get (Items invB) k"
            using nn [rule_format, of ?pA] nn [rule_format, of ?pB] A Some by (simp_all add: inv_count_def)
          then have "offered ?offA k \<le> inv_count r ?pA k" "offered ?offB k \<le> inv_count r ?pB k"
            using True A Some covers_offered by (simp_all add: inv_count_def)
          with cnt [of k] pos nn get show ?thesis
            by (cases "e = ?pA"; cases "e = ?pB") (simp_all add: inv_count_def)
        qed
        ultimately show ?thesis using b tr' inv' by simp
      qed
    qed
  qed
qed

lemma my_offer_ok:
  assumes "trade_inv tr" and "sessions tr sid = Some s"
  shows "offer_ok (my_offer p s)" and "offer_ok (other_offer p s)"
  using trade_inv_session [OF assms] by (auto simp: my_offer_def other_offer_def)

text \<open>Replacing the own offer of a session by a well-formed one of the same player.\<close>

lemma put_offer_inv:
  assumes "trade_inv tr" and "sessions tr sid = Some s"
    and "to_PlayerID off = to_PlayerID (my_offer p s)" and "offer_ok off"
  shows "trade_inv (tr\<lparr>sessions := (sessions tr)(sid \<mapsto> put_offer p off s)\<rparr>)"
  using trade_inv_session [OF assms(1,2)] assms(3,4)
  by (intro put_session_inv [OF assms(1,2)]) (auto simp: put_offer_def my_offer_def)

lemma offer_ok_update:
  "offer_ok off \<Longrightarrow> 0 < v \<Longrightarrow> offer_ok (off\<lparr>to_ItemIDs := AList.update k v (to_ItemIDs off)\<rparr>)"
proof -
  assume ok: "offer_ok off" and v: "0 < v"
  then have "distinct (map fst (AList.update k v (to_ItemIDs off)))" by (auto simp: offer_ok_def distinct_update)
  moreover have "q = v \<or> (j, q) \<in> set xs" if "(j, q) \<in> set (AList.update k v xs)" for j q xs
    using that by (induction xs) (auto split: if_splits)
  ultimately show ?thesis using ok v by (fastforce simp: offer_ok_def)
qed

lemma Initialize_ok:
  assumes inv: "trade_inv tr" and half: "half_open tr" and fresh: "sessions tr (fst (reg_NewEntity r fl)) = None"
    and op: "InitializeTradeSession a b tr r fl = ((reply, ok), tr', r', fl', ns)"
  shows "trade_inv tr' \<and> half_open tr' \<and> reply \<noteq> TradePanic \<and> GetInventory r' = GetInventory r \<and>
    registered r' = registered r \<and> (registry_inv r \<longrightarrow> registry_inv r')"
proof (cases "reply = TradeOpened")
  case False
  with op inv half show ?thesis
    by (auto simp: InitializeTradeSession_def Let_def split: if_splits option.splits prod.splits)
next
  case True
  obtain sid r1 fl1 where new: "reg_NewEntity r fl = (sid, r1, fl1)" by (metis surj_pair)
  let ?s = "\<lparr>SessionID = sid, OfferA = \<lparr>to_PlayerID = a, to_IsLocked = False, to_ItemIDs = []\<rparr>,
      OfferB = \<lparr>to_PlayerID = b, to_IsLocked = False, to_ItemIDs = []\<rparr>\<rparr>"
  from op True new have ab: "a \<noteq> b" "bindings tr a = None" "bindings tr b = None" and r': "r' = r1"
    and tr': "tr' = tr\<lparr>sessions := (sessions tr)(sid \<mapsto> ?s), bindings := (bindings tr)(a \<mapsto> sid, b \<mapsto> sid)\<rparr>"
    by (auto simp: InitializeTradeSession_def Let_def split: if_splits option.splits)
  have sid: "sessions tr sid = None" using fresh new by simp
  have free: "to_PlayerID (OfferA x) \<notin> {a, b} \<and> to_PlayerID (OfferB x) \<notin> {a, b} \<and> y \<noteq> sid"
    if "sessions tr y = Some x" for x y
    using trade_inv_session(3,4) [OF inv that] ab sid that by auto
  have "trade_inv tr'"
    unfolding trade_inv_def
  proof (intro conjI allI impI)
    fix y x assume "sessions tr' y = Some x"
    then have "y = sid \<and> x = ?s \<or> y \<noteq> sid \<and> sessions tr y = Some x" by (auto simp: tr' split: if_splits)
    then show "SessionID x = y" and "to_PlayerID (OfferA x) \<noteq> to_PlayerID (OfferB x)"
      and "bindings tr' (to_PlayerID (OfferA x)) = Some y" and "bindings tr' (to_PlayerID (OfferB x)) = Some y"
      and "offer_ok (OfferA x)" and "offer_ok (OfferB x)"
      using trade_inv_session [OF inv, of y x] free [of y x] ab by (auto simp: tr' offer_ok_def)
  next
    fix p y assume "bindings tr' p = Some y"
    show "\<exists>x. sessions tr' y = Some x \<and> (p = to_PlayerID (OfferA x) \<or> p = to_PlayerID (OfferB x))"
    proof (cases "p = a \<or> p = b")
      case True
      with \<open>bindings tr' p = Some y\<close> have "y = sid" by (auto simp: tr' split: if_splits)
      with True show ?thesis by (auto simp: tr')
    next
      case False
      with \<open>bindings tr' p = Some y\<close> have "bindings tr p = Some y" by (simp add: tr')
      from trade_inv_binding [OF inv this] obtain x where
        x: "sessions tr y = Some x" "p = to_PlayerID (OfferA x) \<or> p = to_PlayerID (OfferB x)" by blast
      with sid have "y \<noteq> sid" by auto
      with x show ?thesis by (auto simp: tr')
    qed
  qed
  moreover have "half_open tr'" using half by (auto simp: half_open_def tr')
  ultimately show ?thesis using True r' reg_NewEntity_frame [OF new] by simp
qed

lemma Offer_ok:
  assumes inv: "trade_inv tr" and half: "half_open tr" and op: "OfferItemToTrade p k q tr r = ((reply, ok), tr', ns)"
  shows "trade_inv tr' \<and> half_open tr' \<and> reply \<noteq> TradePanic"
proof (cases "q \<le> 0 \<or> bindings tr p = None")
  case True
  with op have "tr' = tr \<and> reply \<in> {TradeBadQuantity, TradeNoSession}"
    by (cases "q \<le> 0") (auto simp: OfferItemToTrade_def)
  with inv half show ?thesis by auto
next
  case False
  then obtain sid where b: "bindings tr p = Some sid" and q: "0 < q" by auto
  from trade_inv_binding [OF inv b] obtain s where s: "sessions tr sid = Some s" by blast
  let ?off = "my_offer p s"
  let ?new = "?off\<lparr>to_ItemIDs := AList.update k (offered (to_ItemIDs ?off) k + q) (to_ItemIDs ?off)\<rparr>"
  note ok = my_offer_ok [OF inv s, of p]
  have "0 \<le> offered (to_ItemIDs ?off) k"
    using ok(1) by (auto simp: offer_ok_def offered_def split: option.splits dest!: map_of_SomeD)
  then have new: "offer_ok ?new" using q ok(1) by (intro offer_ok_update) auto
  have "trade_inv (tr\<lparr>sessions := (sessions tr)(sid \<mapsto> put_offer p ?new s)\<rparr>)"
    by (rule put_offer_inv [OF inv s _ new]) simp
  moreover have "half_open (tr\<lparr>sessions := (sessions tr)(sid \<mapsto> put_offer p ?new s)\<rparr>)"
    using half s by (auto simp: half_open_def put_offer_def my_offer_def)
  ultimately show ?thesis
    using op inv half s b q by (auto simp: OfferItemToTrade_def Let_def split: if_splits option.splits)
qed

lemma Lock_ok:
  assumes inv: "trade_inv tr" and half: "half_open tr" and reg: "registry_inv r"
    and op: "LockTradeStage p tr r = ((reply, ok), tr', r', ns)"
  shows "trade_inv tr' \<and> half_open tr' \<and> reply \<noteq> TradePanic \<and>
    (r' = r \<or> (\<exists>sid s. sessions tr sid = Some s \<and> bindings tr p = Some sid \<and> to_IsLocked (other_offer p s) \<and> ok \<and>
       bindings tr' (to_PlayerID (OfferA s)) = None \<and> bindings tr' (to_PlayerID (OfferB s)) = None \<and> registry_inv r' \<and> registered r' = registered r \<and> swapped s r r' \<and>
       (\<forall>k. (\<forall>e. 0 \<le> inv_count r e k) \<longrightarrow> (\<forall>e. 0 \<le> inv_count r' e k))))"
proof (cases "bindings tr p")
  case None
  with op inv half show ?thesis by (auto simp: LockTradeStage_def)
next
  case (Some sid)
  from trade_inv_binding [OF inv Some] obtain s where s: "sessions tr sid = Some s" by blast
  let ?s' = "put_offer p ((my_offer p s)\<lparr>to_IsLocked := True\<rparr>) s"
  let ?tr1 = "tr\<lparr>sessions := (sessions tr)(sid \<mapsto> ?s')\<rparr>"
  show ?thesis
  proof (cases "to_IsLocked (my_offer p s)")
    case True
    with op inv half s Some show ?thesis by (auto simp: LockTradeStage_def)
  next
    case False
    have inv1: "trade_inv ?tr1" using my_offer_ok [OF inv s, of p] by (intro put_offer_inv [OF inv s]) (simp_all add: offer_ok_def)
    have same: "swapped ?s' r r1 = swapped s r r1" for r1
      by (simp add: swapped_def put_offer_def my_offer_def Let_def)
    show ?thesis
    proof (cases "to_IsLocked (other_offer p s)")
      case True
      with op False s Some have ex: "executeSwapLocked sid ?tr1 r = ((reply, ok), tr', r', ns)"
        by (simp add: LockTradeStage_def Let_def)
      have s1: "sessions ?tr1 sid = Some ?s'" by simp
      note E = executeSwap_cases [OF inv1 s1 reg ex]
      have "half_open (end_session sid ?s' ?tr1)"
        using half by (auto simp: half_open_def end_session_def split: if_splits)
      moreover have "bindings (end_session sid ?s' ?tr1) (to_PlayerID (OfferA s)) = None"
        "bindings (end_session sid ?s' ?tr1) (to_PlayerID (OfferB s)) = None"
        by (simp_all add: end_session_def put_offer_def my_offer_def)
      ultimately show ?thesis using E end_session_inv [OF inv1 s1] same s Some True by (cases ok) auto
    next
      case other: False
      with op False s Some have "tr' = ?tr1" "r' = r" "reply = TradeLocked" by (simp_all add: LockTradeStage_def Let_def)
      moreover have "half_open ?tr1"
        using half other s by (auto simp: half_open_def put_offer_def my_offer_def other_offer_def)
      ultimately show ?thesis using inv1 by simp
    qed
  qed
qed

subsection \<open>Any sequence of operations\<close>

record TradeWorld =
  tw_trades :: TradeSystemRegistry
  tw_reg :: Registry
  tw_free :: "entity list"

text \<open>
  One operation, with its reply. A new session gets an identifier that no open session has
  (\<open>NewEntity\<close> does not reissue one). \<open>ExecuteAtomicTradeSwap\<close>, which completes a session whatever its locks,
  is exported by the code but called by no handler; it is not a step.
\<close>

inductive trade_step :: "TradeWorld \<Rightarrow> trade_reply \<Rightarrow> TradeWorld \<Rightarrow> bool" where
  init: "sessions (tw_trades w) (fst (reg_NewEntity (tw_reg w) (tw_free w))) = None \<Longrightarrow>
    InitializeTradeSession a b (tw_trades w) (tw_reg w) (tw_free w) = ((reply, ok), tr', r', fl', ns) \<Longrightarrow>
    trade_step w reply \<lparr>tw_trades = tr', tw_reg = r', tw_free = fl'\<rparr>"
| offer: "OfferItemToTrade p k q (tw_trades w) (tw_reg w) = ((reply, ok), tr', ns) \<Longrightarrow>
    trade_step w reply (w\<lparr>tw_trades := tr'\<rparr>)"
| lock: "LockTradeStage p (tw_trades w) (tw_reg w) = ((reply, ok), tr', r', ns) \<Longrightarrow>
    trade_step w reply (w\<lparr>tw_trades := tr', tw_reg := r'\<rparr>)"
| cancel: "CancelTradeSession p (tw_trades w) = ((reply, ok), tr', ns) \<Longrightarrow>
    trade_step w reply (w\<lparr>tw_trades := tr'\<rparr>)"

inductive trade_steps :: "TradeWorld \<Rightarrow> trade_reply list \<Rightarrow> TradeWorld \<Rightarrow> bool" where
  refl: "trade_steps w [] w"
| step: "trade_steps w rs w' \<Longrightarrow> trade_step w' reply w'' \<Longrightarrow> trade_steps w (rs @ [reply]) w''"

definition world_ok :: "TradeWorld \<Rightarrow> bool" where
  "world_ok w \<longleftrightarrow> trade_inv (tw_trades w) \<and> half_open (tw_trades w) \<and> registry_inv (tw_reg w)"

definition items_total :: "Registry \<Rightarrow> u64 \<Rightarrow> int" where
  "items_total r k = (\<Sum>e \<in> registered r. inv_count r e k)"

lemma finite_registered [simp]: "finite (registered r)"
  by (simp add: registered_def)

lemma inv_count_registered: "registry_inv r \<Longrightarrow> e \<notin> registered r \<Longrightarrow> inv_count r e k = 0"
  using Get_registered(6) [of r e] by (cases "GetInventory r e") (auto simp: inv_count_def)

lemma swapped_total:
  assumes "swapped s r r'" and "registered r' = registered r" and "registry_inv r" and "registry_inv r'"
    and ne: "to_PlayerID (OfferA s) \<noteq> to_PlayerID (OfferB s)"
  shows "items_total r' k = items_total r k"
proof -
  let ?A = "to_PlayerID (OfferA s)" and ?B = "to_PlayerID (OfferB s)"
  let ?S = "registered r \<union> {?A, ?B}"
  have total: "items_total x k = (\<Sum>e \<in> ?S. inv_count x e k)" if "x = r \<or> x = r'" for x
    unfolding items_total_def using that assms(2-4) inv_count_registered [of x]
    by (intro sum.mono_neutral_left) auto
  have split: "(\<Sum>e \<in> ?S. inv_count x e k) = (\<Sum>e \<in> ?S - {?A, ?B}. inv_count x e k) + (inv_count x ?A k + inv_count x ?B k)" for x
    using ne by (subst sum.subset_diff [of "{?A, ?B}"]) auto
  have "(\<Sum>e \<in> ?S - {?A, ?B}. inv_count r' e k) = (\<Sum>e \<in> ?S - {?A, ?B}. inv_count r e k)"
    using assms(1) by (intro sum.cong) (auto simp: swapped_def inv_count_def Let_def)
  moreover have "inv_count r' ?A k + inv_count r' ?B k = inv_count r ?A k + inv_count r ?B k"
    using assms(1) by (simp add: swapped_def Let_def)
  ultimately show ?thesis using total split by simp
qed

lemma trade_step_ok:
  assumes "trade_step w reply w'" and ok: "world_ok w"
  shows "world_ok w' \<and> reply \<noteq> TradePanic \<and> items_total (tw_reg w') = items_total (tw_reg w) \<and>
    ((\<forall>e k. 0 \<le> inv_count (tw_reg w) e k) \<longrightarrow> (\<forall>e k. 0 \<le> inv_count (tw_reg w') e k))"
  using assms(1)
proof (cases rule: trade_step.cases)
  case (init a b ok' tr' r' fl' ns)
  from ok have "trade_inv (tw_trades w)" "half_open (tw_trades w)" by (auto simp: world_ok_def)
  note I = Initialize_ok [OF this init(2,3)]
  then have "inv_count r' = inv_count (tw_reg w)" by (simp add: inv_count_def fun_eq_iff)
  with I init(1) ok show ?thesis by (auto simp: world_ok_def items_total_def)
next
  case (offer p k q ok' tr' ns)
  from ok have "trade_inv (tw_trades w)" "half_open (tw_trades w)" by (auto simp: world_ok_def)
  from Offer_ok [OF this offer(2)] offer(1) ok show ?thesis by (auto simp: world_ok_def)
next
  case (lock p ok' tr' r' ns)
  from ok have inv: "trade_inv (tw_trades w)" "half_open (tw_trades w)" "registry_inv (tw_reg w)" by (auto simp: world_ok_def)
  note L = Lock_ok [OF inv lock(2)]
  show ?thesis
  proof (cases "r' = tw_reg w")
    case True
    with L lock(1) inv show ?thesis by (auto simp: world_ok_def)
  next
    case False
    with L obtain sid s where s: "sessions (tw_trades w) sid = Some s" "registry_inv r'" "registered r' = registered (tw_reg w)"
      "swapped s (tw_reg w) r'" "\<forall>k. (\<forall>e. 0 \<le> inv_count (tw_reg w) e k) \<longrightarrow> (\<forall>e. 0 \<le> inv_count r' e k)" by blast
    from swapped_total [OF s(4,3) inv(3) s(2) trade_inv_session(2) [OF inv(1) s(1)]]
    have "items_total r' = items_total (tw_reg w)" by (simp add: fun_eq_iff)
    with L lock(1) s show ?thesis by (auto simp: world_ok_def)
  qed
next
  case (cancel p ok' tr' ns)
  from ok have "trade_inv (tw_trades w)" "half_open (tw_trades w)" by (auto simp: world_ok_def)
  from cancel_ok [OF this cancel(2) [unfolded CancelTradeSession_def]] cancel(1) ok show ?thesis by (auto simp: world_ok_def)
qed

lemma trade_steps_ok:
  "trade_steps w rs w' \<Longrightarrow> world_ok w \<Longrightarrow>
   world_ok w' \<and> TradePanic \<notin> set rs \<and> items_total (tw_reg w') = items_total (tw_reg w) \<and>
   ((\<forall>e k. 0 \<le> inv_count (tw_reg w) e k) \<longrightarrow> (\<forall>e k. 0 \<le> inv_count (tw_reg w') e k))"
proof (induction rule: trade_steps.induct)
  case (step w rs w' reply w'')
  then have ih: "world_ok w'" "TradePanic \<notin> set rs" "items_total (tw_reg w') = items_total (tw_reg w)"
    "(\<forall>e k. 0 \<le> inv_count (tw_reg w) e k) \<longrightarrow> (\<forall>e k. 0 \<le> inv_count (tw_reg w') e k)" by blast+
  from trade_step_ok [OF step(2) ih(1)] ih show ?case by auto
qed simp

subsection \<open>Two players, for the examples\<close>

text \<open>Player 1 has one item 101 and offers it; player 2 has nothing and has locked.\<close>

definition duo :: Registry where
  "duo = SetMetadata 2 \<lparr>meta_Name = ''Ann'', meta_Type = EntityPlayer\<rparr>
     (SetInventory 2 \<lparr>Items = Map.empty\<rparr> (SetInventory 1 \<lparr>Items = [101 \<mapsto> 1]\<rparr> NewRegistry))"

definition duo_session :: TradeSession where
  "duo_session = \<lparr>SessionID = 9, OfferA = \<lparr>to_PlayerID = 1, to_IsLocked = False, to_ItemIDs = [(101, 1)]\<rparr>,
     OfferB = \<lparr>to_PlayerID = 2, to_IsLocked = True, to_ItemIDs = []\<rparr>\<rparr>"

definition duo_trades :: TradeSystemRegistry where
  "duo_trades = \<lparr>sessions = [9 \<mapsto> duo_session], bindings = [1 \<mapsto> 9, 2 \<mapsto> 9]\<rparr>"

lemma duo_trades_ok: "trade_inv duo_trades" "half_open duo_trades"
  by (auto simp: trade_inv_def half_open_def duo_trades_def duo_session_def offer_ok_def split: if_splits)

lemma duo:
  "registry_inv duo" "GetInventory duo = [1 \<mapsto> \<lparr>Items = [101 \<mapsto> 1]\<rparr>, 2 \<mapsto> \<lparr>Items = Map.empty\<rparr>]"
  "GetMetadata duo 2 \<noteq> None" "\<forall>e k. 0 \<le> inv_count duo e k"
proof -
  let ?r1 = "SetInventory 1 \<lparr>Items = [101 \<mapsto> 1]\<rparr> NewRegistry"
  have emp: "registered NewRegistry = {}" "GetInventory NewRegistry = Map.empty"
    by (auto simp: registered_def NewRegistry_def empty_store_def accessor_defs store_get_def slot_hit_def Let_def fun_eq_iff)
  have idx: "EntityIndex 1 = 1" "EntityIndex 2 = 2" by (simp_all add: EntityIndex_def)
  have "inj_on EntityIndex (insert 1 (registered NewRegistry))" by (simp add: emp)
  note r1 = SetInventory_inv [OF registry_inv_NewRegistry this, of "\<lparr>Items = [101 \<mapsto> 1]\<rparr>"]
  have "inj_on EntityIndex (insert 2 (registered ?r1))" using r1(3) emp idx by simp
  note r2 = SetInventory_inv [OF r1(1) this, of "\<lparr>Items = Map.empty\<rparr>"]
  have mem: "2 \<in> registered (SetInventory 2 \<lparr>Items = Map.empty\<rparr> ?r1)" using r2(3) by simp
  show "registry_inv duo" unfolding duo_def using r2(1) mem by simp
  show g: "GetInventory duo = [1 \<mapsto> \<lparr>Items = [101 \<mapsto> 1]\<rparr>, 2 \<mapsto> \<lparr>Items = Map.empty\<rparr>]"
    unfolding duo_def using r1(2) r2(2) emp by simp
  show "GetMetadata duo 2 \<noteq> None" unfolding duo_def using r2(1) mem by simp
  show "\<forall>e k. 0 \<le> inv_count duo e k" by (simp add: inv_count_def g bag_get_def)
qed

lemma duo_swap: "GetInventory (SetInventory 2 b (SetInventory 1 a duo)) 1 = Some a"
proof -
  have mem: "1 \<in> registered duo" "2 \<in> registered duo"
    using Get_registered(6) [OF duo(1), of 1] Get_registered(6) [OF duo(1), of 2] by (simp_all add: duo(2))
  then show ?thesis using duo(1) by simp
qed

subsection \<open>Properties\<close>

text \<open>
  C11 Trades conserve items: whatever sequence of opening, offering, locking and cancelling by any players
  follows from no open trade, the number of each item in all bags together never changes, no count becomes
  negative, and no operation runs into a missing session.
\<close>

theorem trade_conserves_items:
  assumes "registry_inv r" and "\<forall>e k. 0 \<le> inv_count r e k"
    and "trade_steps \<lparr>tw_trades = NewTradeRegistry, tw_reg = r, tw_free = fl\<rparr> rs w"
  shows "items_total (tw_reg w) = items_total r \<and> (\<forall>e k. 0 \<le> inv_count (tw_reg w) e k) \<and>
    TradePanic \<notin> set rs"
proof -
  have "world_ok \<lparr>tw_trades = NewTradeRegistry, tw_reg = r, tw_free = fl\<rparr>"
    using assms(1) trade_inv_New by (simp add: world_ok_def)
  from trade_steps_ok [OF assms(3) this] assms(2) show ?thesis by simp
qed

theorem trade_conserves_items_witness:
  "\<exists>w. trade_steps \<lparr>tw_trades = NewTradeRegistry, tw_reg = duo, tw_free = []\<rparr> [TradeOpened] w \<and>
     items_total (tw_reg w) 101 = items_total duo 101"
proof -
  let ?w = "\<lparr>tw_trades = NewTradeRegistry, tw_reg = duo, tw_free = []\<rparr>"
  obtain sid r' fl' where new: "reg_NewEntity duo [] = (sid, r', fl')" by (metis surj_pair)
  obtain tr' ns where op: "InitializeTradeSession 1 2 NewTradeRegistry duo [] = ((TradeOpened, True), tr', r', fl', ns)"
    using new duo(3) by (auto simp: InitializeTradeSession_def NewTradeRegistry_def)
  have "trade_step ?w TradeOpened \<lparr>tw_trades = tr', tw_reg = r', tw_free = fl'\<rparr>"
    by (rule trade_step.init [of ?w 1 2 _ True]) (use op in \<open>simp_all add: NewTradeRegistry_def\<close>)
  from trade_steps.step [OF trade_steps.refl this]
  have st: "trade_steps ?w [TradeOpened] \<lparr>tw_trades = tr', tw_reg = r', tw_free = fl'\<rparr>" by simp
  from trade_conserves_items [OF duo(1) duo(4) st] st show ?thesis by metis
qed

text \<open>
  C12 Items change hands only when both players have locked their offers: an operation that changes any bag is
  the lock of the second player, it ends the session, and it moves to each player exactly what the other had
  offered.
\<close>

theorem swap_needs_both_locks:
  assumes "trade_inv tr" and "half_open tr" and "registry_inv r"
    and "LockTradeStage p tr r = ((reply, ok), tr', r', ns)" and "r' \<noteq> r"
  shows "\<exists>sid s. bindings tr p = Some sid \<and> sessions tr sid = Some s \<and> to_IsLocked (other_offer p s) \<and>
    bindings tr' (to_PlayerID (OfferA s)) = None \<and> bindings tr' (to_PlayerID (OfferB s)) = None \<and>
    (\<forall>k. inv_count r' (to_PlayerID (OfferA s)) k = inv_count r (to_PlayerID (OfferA s)) k
           - offered (to_ItemIDs (OfferA s)) k + offered (to_ItemIDs (OfferB s)) k \<and>
         inv_count r' (to_PlayerID (OfferB s)) k = inv_count r (to_PlayerID (OfferB s)) k
           - offered (to_ItemIDs (OfferB s)) k + offered (to_ItemIDs (OfferA s)) k) \<and>
    (\<forall>e. e \<noteq> to_PlayerID (OfferA s) \<longrightarrow> e \<noteq> to_PlayerID (OfferB s) \<longrightarrow> GetInventory r' e = GetInventory r e)"
  using Lock_ok [OF assms(1-4)] assms(5) unfolding swapped_def Let_def by blast

theorem swap_needs_both_locks_witness:
  "case LockTradeStage 1 duo_trades duo of (_, _, r', _) \<Rightarrow> inv_count r' 2 101 = 1"
proof -
  obtain reply ok tr' r' ns where op: "LockTradeStage 1 duo_trades duo = ((reply, ok), tr', r', ns)"
    by (metis surj_pair)
  have ex: "LockTradeStage 1 duo_trades duo = executeSwapLocked 9 (duo_trades\<lparr>sessions := (sessions duo_trades)(9 \<mapsto>
      duo_session\<lparr>OfferA := (OfferA duo_session)\<lparr>to_IsLocked := True\<rparr>\<rparr>)\<rparr>) duo"
    by (simp add: LockTradeStage_def duo_trades_def duo_session_def my_offer_def other_offer_def is_sideA_def put_offer_def Let_def)
  have "GetInventory r' 1 \<noteq> GetInventory duo 1"
    using op unfolding ex using duo_swap by (auto simp: executeSwapLocked_def duo_trades_def duo_session_def Let_def duo
        covers_def bag_get_def bag_take_def bag_put_def map_upd_nonempty [THEN not_sym])
  then have ne: "r' \<noteq> duo" by auto
  have "\<exists>sid s. bindings duo_trades 1 = Some sid \<and> sessions duo_trades sid = Some s \<and>
      inv_count r' (to_PlayerID (OfferB s)) 101 = inv_count duo (to_PlayerID (OfferB s)) 101
        - offered (to_ItemIDs (OfferB s)) 101 + offered (to_ItemIDs (OfferA s)) 101"
    using swap_needs_both_locks [OF duo_trades_ok(1,2) duo(1) op ne] by blast
  then have "inv_count r' 2 101 = 1"
    by (auto simp: duo_trades_def duo_session_def offered_def inv_count_def bag_get_def duo)
  with op show ?thesis by simp
qed

end
