(* ===== verification/Ecs_Alloc.thy ===== *)
theory Ecs_Alloc
  imports Ecs_Registry
begin

text \<open>
  The registry together with the identifiers it has issued, from \<open>server/ecs/ecs.go\<close>. Game code allocates an
  identifier and then sets its components one by one, so between the two the entity is live but has no
  component. The invariant \<open>alloc_ok\<close> follows the live entities; every legal use of the registry keeps it.
\<close>

definition alloc_ok :: "Registry \<Rightarrow> entity list \<Rightarrow> entity set \<Rightarrow> entity set \<Rightarrow> bool" where
  "alloc_ok r fl L I \<longleftrightarrow> registry_inv r \<and> registered r \<subseteq> L \<and> ids_inv \<lparr>nextID = reg_nextID r, recycled = fl\<rparr> L I"

definition alloc_room :: "Registry \<Rightarrow> entity list \<Rightarrow> bool" where
  "alloc_room r fl \<longleftrightarrow> ids_room \<lparr>nextID = reg_nextID r, recycled = fl\<rparr>"

lemma alloc_ok_New: "alloc_ok NewRegistry [] {} {}"
  using ids_inv_init by (simp add: alloc_ok_def registered_def init_ids_def)
    (simp add: NewRegistry_def empty_store_def)

lemma alloc_okD:
  assumes "alloc_ok r fl L I"
  shows "registry_inv r" and "registered r \<subseteq> L" and "inj_on EntityIndex L" and "L \<subseteq> I"
  using assms by (auto simp: alloc_ok_def ids_inv_def intro: inj_on_subset)

lemma alloc_live_insert:
  assumes "alloc_ok r fl L I" and "e \<in> L"
  shows "inj_on EntityIndex (insert e (registered r))"
  by (rule inj_on_subset [OF alloc_okD(3) [OF assms(1)]]) (use alloc_okD(2) [OF assms(1)] assms(2) in simp)

lemma alloc_nonzero: "alloc_ok r fl L I \<Longrightarrow> e \<in> I \<Longrightarrow> e \<noteq> 0"
  by (auto simp: alloc_ok_def ids_inv_def EntityIndex_def)

lemma unregistered_no_components: "registry_inv r \<Longrightarrow> e \<notin> registered r \<Longrightarrow> no_components e r"
  using registered_dom by (auto simp: registry_inv_def)

text \<open>Allocation returns an identifier that was never issued and has no component.\<close>

lemma alloc_NewEntity:
  assumes ok: "alloc_ok r fl L I" and room: "alloc_room r fl" and new: "reg_NewEntity r fl = (e, r', fl')"
  shows "alloc_ok r' fl' (insert e L) (insert e I)" and "e \<notin> I" and "e \<noteq> 0" and "no_components e r'"
    and "\<And>x. same_components x r r'" and "registered r' = registered r"
proof -
  let ?s = "\<lparr>nextID = reg_nextID r, recycled = fl\<rparr>"
  obtain s' where s': "NewEntity ?s = (e, s')" "r' = r\<lparr>reg_nextID := nextID s'\<rparr>" "fl' = recycled s'"
    using new by (auto simp: reg_NewEntity_def split: prod.splits)
  have st: "ids_inv s' (insert e L) (insert e I) \<and> e \<notin> I \<and> fits L e \<and> EntityIndex e \<noteq> 0"
    using NewEntity_step [OF _ _ s'(1)] ok room by (auto simp: alloc_ok_def alloc_room_def)
  note fr = reg_NewEntity_frame [OF new]
  show "alloc_ok r' fl' (insert e L) (insert e I)"
    using ok st fr(13,14) s'(2,3) by (cases s') (auto simp: alloc_ok_def)
  show "e \<notin> I" "e \<noteq> 0" using st by (auto simp: EntityIndex_def)
  show "registered r' = registered r" by (rule fr)
  show "\<And>x. same_components x r r'" using fr(1-12) by (simp add: same_components_def)
  have "e \<notin> registered r'" using alloc_okD [OF ok] \<open>e \<notin> I\<close> fr(13) by auto
  then show "no_components e r'"
    using unregistered_no_components [of r'] alloc_okD(1) [OF ok] fr(14) by simp
qed

text \<open>Setting a component of a live entity.\<close>

lemma reg_nextID_Set [simp]:
  "reg_nextID (SetPosition e vPosition r) = reg_nextID r"
  "reg_nextID (SetConnection e vConnection r) = reg_nextID r"
  "reg_nextID (SetMetadata e vMetadata r) = reg_nextID r"
  "reg_nextID (SetStats e vStats r) = reg_nextID r"
  "reg_nextID (SetAI e vAI r) = reg_nextID r"
  "reg_nextID (SetInventory e vInventory r) = reg_nextID r"
  "reg_nextID (SetLifetime e vLifetime r) = reg_nextID r"
  "reg_nextID (SetItemTemplate e vItemTemplate r) = reg_nextID r"
  "reg_nextID (SetEquipment e vEquipment r) = reg_nextID r"
  "reg_nextID (SetParty e vParty r) = reg_nextID r"
  "reg_nextID (SetPartyMember e vPartyMember r) = reg_nextID r"
  "reg_nextID (SetEffects e vEffects r) = reg_nextID r"
  "reg_nextID (DeleteAI e r) = reg_nextID r"
  "reg_nextID (DeleteEffects e r) = reg_nextID r"
  "reg_nextID (DeleteParty e r) = reg_nextID r"
  "reg_nextID (DeletePartyMember e r) = reg_nextID r"
  by (simp_all add: accessor_defs)

lemma Set_live:
  assumes "alloc_ok r fl L I" and "e \<in> L"
  shows "alloc_ok (SetPosition e vPosition r) fl L I"
    and "GetPosition (SetPosition e vPosition r) = (GetPosition r)(e \<mapsto> vPosition)"
    and "alloc_ok (SetConnection e vConnection r) fl L I"
    and "GetConnection (SetConnection e vConnection r) = (GetConnection r)(e \<mapsto> vConnection)"
    and "alloc_ok (SetMetadata e vMetadata r) fl L I"
    and "GetMetadata (SetMetadata e vMetadata r) = (GetMetadata r)(e \<mapsto> vMetadata)"
    and "alloc_ok (SetStats e vStats r) fl L I"
    and "GetStats (SetStats e vStats r) = (GetStats r)(e \<mapsto> vStats)"
    and "alloc_ok (SetAI e vAI r) fl L I"
    and "GetAI (SetAI e vAI r) = (GetAI r)(e \<mapsto> vAI)"
    and "alloc_ok (SetInventory e vInventory r) fl L I"
    and "GetInventory (SetInventory e vInventory r) = (GetInventory r)(e \<mapsto> vInventory)"
    and "alloc_ok (SetLifetime e vLifetime r) fl L I"
    and "GetLifetime (SetLifetime e vLifetime r) = (GetLifetime r)(e \<mapsto> vLifetime)"
    and "alloc_ok (SetItemTemplate e vItemTemplate r) fl L I"
    and "GetItemTemplate (SetItemTemplate e vItemTemplate r) = (GetItemTemplate r)(e \<mapsto> vItemTemplate)"
    and "alloc_ok (SetEquipment e vEquipment r) fl L I"
    and "GetEquipment (SetEquipment e vEquipment r) = (GetEquipment r)(e \<mapsto> vEquipment)"
    and "alloc_ok (SetParty e vParty r) fl L I"
    and "GetParty (SetParty e vParty r) = (GetParty r)(e \<mapsto> vParty)"
    and "alloc_ok (SetPartyMember e vPartyMember r) fl L I"
    and "GetPartyMember (SetPartyMember e vPartyMember r) = (GetPartyMember r)(e \<mapsto> vPartyMember)"
    and "alloc_ok (SetEffects e vEffects r) fl L I"
    and "GetEffects (SetEffects e vEffects r) = (GetEffects r)(e \<mapsto> vEffects)"
proof -
  note S = alloc_okD [OF assms(1)] and F = alloc_live_insert [OF assms]
  note inv = SetPosition_inv [OF S(1) F]
    SetConnection_inv [OF S(1) F]
    SetMetadata_inv [OF S(1) F]
    SetStats_inv [OF S(1) F]
    SetAI_inv [OF S(1) F]
    SetInventory_inv [OF S(1) F]
    SetLifetime_inv [OF S(1) F]
    SetItemTemplate_inv [OF S(1) F]
    SetEquipment_inv [OF S(1) F]
    SetParty_inv [OF S(1) F]
    SetPartyMember_inv [OF S(1) F]
    SetEffects_inv [OF S(1) F]
  show "alloc_ok (SetPosition e vPosition r) fl L I"
    using assms S inv by (simp add: alloc_ok_def)
  show "GetPosition (SetPosition e vPosition r) = (GetPosition r)(e \<mapsto> vPosition)"
    by (rule inv)
  show "alloc_ok (SetConnection e vConnection r) fl L I"
    using assms S inv by (simp add: alloc_ok_def)
  show "GetConnection (SetConnection e vConnection r) = (GetConnection r)(e \<mapsto> vConnection)"
    by (rule inv)
  show "alloc_ok (SetMetadata e vMetadata r) fl L I"
    using assms S inv by (simp add: alloc_ok_def)
  show "GetMetadata (SetMetadata e vMetadata r) = (GetMetadata r)(e \<mapsto> vMetadata)"
    by (rule inv)
  show "alloc_ok (SetStats e vStats r) fl L I"
    using assms S inv by (simp add: alloc_ok_def)
  show "GetStats (SetStats e vStats r) = (GetStats r)(e \<mapsto> vStats)"
    by (rule inv)
  show "alloc_ok (SetAI e vAI r) fl L I"
    using assms S inv by (simp add: alloc_ok_def)
  show "GetAI (SetAI e vAI r) = (GetAI r)(e \<mapsto> vAI)"
    by (rule inv)
  show "alloc_ok (SetInventory e vInventory r) fl L I"
    using assms S inv by (simp add: alloc_ok_def)
  show "GetInventory (SetInventory e vInventory r) = (GetInventory r)(e \<mapsto> vInventory)"
    by (rule inv)
  show "alloc_ok (SetLifetime e vLifetime r) fl L I"
    using assms S inv by (simp add: alloc_ok_def)
  show "GetLifetime (SetLifetime e vLifetime r) = (GetLifetime r)(e \<mapsto> vLifetime)"
    by (rule inv)
  show "alloc_ok (SetItemTemplate e vItemTemplate r) fl L I"
    using assms S inv by (simp add: alloc_ok_def)
  show "GetItemTemplate (SetItemTemplate e vItemTemplate r) = (GetItemTemplate r)(e \<mapsto> vItemTemplate)"
    by (rule inv)
  show "alloc_ok (SetEquipment e vEquipment r) fl L I"
    using assms S inv by (simp add: alloc_ok_def)
  show "GetEquipment (SetEquipment e vEquipment r) = (GetEquipment r)(e \<mapsto> vEquipment)"
    by (rule inv)
  show "alloc_ok (SetParty e vParty r) fl L I"
    using assms S inv by (simp add: alloc_ok_def)
  show "GetParty (SetParty e vParty r) = (GetParty r)(e \<mapsto> vParty)"
    by (rule inv)
  show "alloc_ok (SetPartyMember e vPartyMember r) fl L I"
    using assms S inv by (simp add: alloc_ok_def)
  show "GetPartyMember (SetPartyMember e vPartyMember r) = (GetPartyMember r)(e \<mapsto> vPartyMember)"
    by (rule inv)
  show "alloc_ok (SetEffects e vEffects r) fl L I"
    using assms S inv by (simp add: alloc_ok_def)
  show "GetEffects (SetEffects e vEffects r) = (GetEffects r)(e \<mapsto> vEffects)"
    by (rule inv)
qed

text \<open>Deleting a party or a membership, and removing an entity.\<close>

lemma Delete_party:
  assumes "alloc_ok r fl L I"
  shows "alloc_ok (DeleteParty e r) fl L I" and "GetParty (DeleteParty e r) = (GetParty r)(e := None)"
    and "alloc_ok (DeletePartyMember e r) fl L I"
    and "GetPartyMember (DeletePartyMember e r) = (GetPartyMember r)(e := None)"
    and "GetPartyMember (DeleteParty e r) = GetPartyMember r"
    and "GetParty (DeletePartyMember e r) = GetParty r"
proof -
  have inv: "registry_inv r" and sub: "registered r \<subseteq> L" using assms by (rule alloc_okD)+
  then have ok: "registry_ok r" by (simp add: registry_inv_def)
  note st = delete_store [OF registry_okD(10) [OF ok]] delete_store [OF registry_okD(11) [OF ok]]
  show get: "GetParty (DeleteParty e r) = (GetParty r)(e := None)"
    "GetPartyMember (DeletePartyMember e r) = (GetPartyMember r)(e := None)"
    "GetPartyMember (DeleteParty e r) = GetPartyMember r" "GetParty (DeletePartyMember e r) = GetParty r"
    using st by (simp_all add: accessor_defs fun_eq_iff)
  have ok': "registry_ok (DeleteParty e r)" "registry_ok (DeletePartyMember e r)"
    using ok st by (simp_all add: registry_ok_def accessor_defs)
  have "registered (DeleteParty e r) \<subseteq> registered r" "registered (DeletePartyMember e r) \<subseteq> registered r"
    using st registry_okD(10,11) [OF ok]
    by (auto simp: registered_def accessor_defs dense_dom split: if_splits)
  with ok' inv sub assms show "alloc_ok (DeleteParty e r) fl L I" "alloc_ok (DeletePartyMember e r) fl L I"
    by (auto simp: alloc_ok_def registry_inv_def intro: inj_on_subset)
qed

lemma alloc_RemoveEntity:
  assumes ok: "alloc_ok r fl L I" and e: "e \<in> L" and rem: "RemoveEntity e r fl = (r', fl')"
  shows "alloc_ok r' fl' (L - {e}) I" and "no_components e r'" and "\<And>x. x \<noteq> e \<Longrightarrow> same_components x r r'"
proof -
  have inv: "registry_inv r" using ok by (rule alloc_okD)
  note R = RemoveEntity_inv [OF inv rem] RemoveEntity_effect [OF _ rem]
  have eff: "no_components e r'" "\<And>x. x \<noteq> e \<Longrightarrow> same_components x r r'" "reg_nextID r' = reg_nextID r" "fl' = fl @ [e]"
    using R(2) inv by (auto simp: registry_inv_def)
  show "no_components e r'" "\<And>x. x \<noteq> e \<Longrightarrow> same_components x r r'" by (rule eff)+
  have "ids_inv (recycleEntityID e \<lparr>nextID = reg_nextID r, recycled = fl\<rparr>) (L - {e}) I"
    using ok e by (intro ids_inv_free) (auto simp: alloc_ok_def)
  with R(1) eff(3,4) ok show "alloc_ok r' fl' (L - {e}) I"
    by (auto simp: alloc_ok_def recycleEntityID_def)
qed

subsection \<open>Small registries, for the examples\<close>

lemma New_empty [simp]:
  "registered NewRegistry = {}"
  "GetPosition NewRegistry = Map.empty"
  "GetConnection NewRegistry = Map.empty"
  "GetMetadata NewRegistry = Map.empty"
  "GetStats NewRegistry = Map.empty"
  "GetAI NewRegistry = Map.empty"
  "GetInventory NewRegistry = Map.empty"
  "GetLifetime NewRegistry = Map.empty"
  "GetItemTemplate NewRegistry = Map.empty"
  "GetEquipment NewRegistry = Map.empty"
  "GetParty NewRegistry = Map.empty"
  "GetPartyMember NewRegistry = Map.empty"
  "GetEffects NewRegistry = Map.empty"
proof -
  show emp: "registered NewRegistry = {}" using alloc_ok_New by (simp add: alloc_ok_def)
  have "no_components e NewRegistry" for e using unregistered_no_components [OF registry_inv_NewRegistry, of e] emp by simp
  then show "GetPosition NewRegistry = Map.empty"
    "GetConnection NewRegistry = Map.empty"
    "GetMetadata NewRegistry = Map.empty"
    "GetStats NewRegistry = Map.empty"
    "GetAI NewRegistry = Map.empty"
    "GetInventory NewRegistry = Map.empty"
    "GetLifetime NewRegistry = Map.empty"
    "GetItemTemplate NewRegistry = Map.empty"
    "GetEquipment NewRegistry = Map.empty"
    "GetParty NewRegistry = Map.empty"
    "GetPartyMember NewRegistry = Map.empty"
    "GetEffects NewRegistry = Map.empty"
    by (simp_all add: no_components_def fun_eq_iff)
qed

text \<open>The first component of an entity whose index is free.\<close>

definition index_free :: "entity \<Rightarrow> Registry \<Rightarrow> bool" where
  "index_free e r \<longleftrightarrow> EntityIndex e \<notin> EntityIndex ` registered r"

lemma Set_free:
  assumes "registry_inv r" and "index_free e r"
  shows "registry_inv (SetPosition e vPosition r)" and "registered (SetPosition e vPosition r) = insert e (registered r)"
    and "GetPosition (SetPosition e vPosition r) = (GetPosition r)(e \<mapsto> vPosition)"
    and "registry_inv (SetConnection e vConnection r)" and "registered (SetConnection e vConnection r) = insert e (registered r)"
    and "GetConnection (SetConnection e vConnection r) = (GetConnection r)(e \<mapsto> vConnection)"
    and "registry_inv (SetMetadata e vMetadata r)" and "registered (SetMetadata e vMetadata r) = insert e (registered r)"
    and "GetMetadata (SetMetadata e vMetadata r) = (GetMetadata r)(e \<mapsto> vMetadata)"
    and "registry_inv (SetStats e vStats r)" and "registered (SetStats e vStats r) = insert e (registered r)"
    and "GetStats (SetStats e vStats r) = (GetStats r)(e \<mapsto> vStats)"
    and "registry_inv (SetAI e vAI r)" and "registered (SetAI e vAI r) = insert e (registered r)"
    and "GetAI (SetAI e vAI r) = (GetAI r)(e \<mapsto> vAI)"
    and "registry_inv (SetInventory e vInventory r)" and "registered (SetInventory e vInventory r) = insert e (registered r)"
    and "GetInventory (SetInventory e vInventory r) = (GetInventory r)(e \<mapsto> vInventory)"
    and "registry_inv (SetLifetime e vLifetime r)" and "registered (SetLifetime e vLifetime r) = insert e (registered r)"
    and "GetLifetime (SetLifetime e vLifetime r) = (GetLifetime r)(e \<mapsto> vLifetime)"
    and "registry_inv (SetItemTemplate e vItemTemplate r)" and "registered (SetItemTemplate e vItemTemplate r) = insert e (registered r)"
    and "GetItemTemplate (SetItemTemplate e vItemTemplate r) = (GetItemTemplate r)(e \<mapsto> vItemTemplate)"
    and "registry_inv (SetEquipment e vEquipment r)" and "registered (SetEquipment e vEquipment r) = insert e (registered r)"
    and "GetEquipment (SetEquipment e vEquipment r) = (GetEquipment r)(e \<mapsto> vEquipment)"
    and "registry_inv (SetParty e vParty r)" and "registered (SetParty e vParty r) = insert e (registered r)"
    and "GetParty (SetParty e vParty r) = (GetParty r)(e \<mapsto> vParty)"
    and "registry_inv (SetPartyMember e vPartyMember r)" and "registered (SetPartyMember e vPartyMember r) = insert e (registered r)"
    and "GetPartyMember (SetPartyMember e vPartyMember r) = (GetPartyMember r)(e \<mapsto> vPartyMember)"
    and "registry_inv (SetEffects e vEffects r)" and "registered (SetEffects e vEffects r) = insert e (registered r)"
    and "GetEffects (SetEffects e vEffects r) = (GetEffects r)(e \<mapsto> vEffects)"
proof -
  have "inj_on EntityIndex (insert e (registered r))"
    using assms by (auto simp: registry_inv_def index_free_def intro: inj_on_insert_new)
  note inv = SetPosition_inv [OF assms(1) this]
    SetConnection_inv [OF assms(1) this]
    SetMetadata_inv [OF assms(1) this]
    SetStats_inv [OF assms(1) this]
    SetAI_inv [OF assms(1) this]
    SetInventory_inv [OF assms(1) this]
    SetLifetime_inv [OF assms(1) this]
    SetItemTemplate_inv [OF assms(1) this]
    SetEquipment_inv [OF assms(1) this]
    SetParty_inv [OF assms(1) this]
    SetPartyMember_inv [OF assms(1) this]
    SetEffects_inv [OF assms(1) this]
  show "registry_inv (SetPosition e vPosition r)" and "registered (SetPosition e vPosition r) = insert e (registered r)"
    and "GetPosition (SetPosition e vPosition r) = (GetPosition r)(e \<mapsto> vPosition)"
    by (rule inv)+
  show "registry_inv (SetConnection e vConnection r)" and "registered (SetConnection e vConnection r) = insert e (registered r)"
    and "GetConnection (SetConnection e vConnection r) = (GetConnection r)(e \<mapsto> vConnection)"
    by (rule inv)+
  show "registry_inv (SetMetadata e vMetadata r)" and "registered (SetMetadata e vMetadata r) = insert e (registered r)"
    and "GetMetadata (SetMetadata e vMetadata r) = (GetMetadata r)(e \<mapsto> vMetadata)"
    by (rule inv)+
  show "registry_inv (SetStats e vStats r)" and "registered (SetStats e vStats r) = insert e (registered r)"
    and "GetStats (SetStats e vStats r) = (GetStats r)(e \<mapsto> vStats)"
    by (rule inv)+
  show "registry_inv (SetAI e vAI r)" and "registered (SetAI e vAI r) = insert e (registered r)"
    and "GetAI (SetAI e vAI r) = (GetAI r)(e \<mapsto> vAI)"
    by (rule inv)+
  show "registry_inv (SetInventory e vInventory r)" and "registered (SetInventory e vInventory r) = insert e (registered r)"
    and "GetInventory (SetInventory e vInventory r) = (GetInventory r)(e \<mapsto> vInventory)"
    by (rule inv)+
  show "registry_inv (SetLifetime e vLifetime r)" and "registered (SetLifetime e vLifetime r) = insert e (registered r)"
    and "GetLifetime (SetLifetime e vLifetime r) = (GetLifetime r)(e \<mapsto> vLifetime)"
    by (rule inv)+
  show "registry_inv (SetItemTemplate e vItemTemplate r)" and "registered (SetItemTemplate e vItemTemplate r) = insert e (registered r)"
    and "GetItemTemplate (SetItemTemplate e vItemTemplate r) = (GetItemTemplate r)(e \<mapsto> vItemTemplate)"
    by (rule inv)+
  show "registry_inv (SetEquipment e vEquipment r)" and "registered (SetEquipment e vEquipment r) = insert e (registered r)"
    and "GetEquipment (SetEquipment e vEquipment r) = (GetEquipment r)(e \<mapsto> vEquipment)"
    by (rule inv)+
  show "registry_inv (SetParty e vParty r)" and "registered (SetParty e vParty r) = insert e (registered r)"
    and "GetParty (SetParty e vParty r) = (GetParty r)(e \<mapsto> vParty)"
    by (rule inv)+
  show "registry_inv (SetPartyMember e vPartyMember r)" and "registered (SetPartyMember e vPartyMember r) = insert e (registered r)"
    and "GetPartyMember (SetPartyMember e vPartyMember r) = (GetPartyMember r)(e \<mapsto> vPartyMember)"
    by (rule inv)+
  show "registry_inv (SetEffects e vEffects r)" and "registered (SetEffects e vEffects r) = insert e (registered r)"
    and "GetEffects (SetEffects e vEffects r) = (GetEffects r)(e \<mapsto> vEffects)"
    by (rule inv)+
qed

end
