(* ===== verification/Party.thy ===== *)
theory Party
  imports Ecs_Alloc
begin

text \<open>
  \<open>server/game/party.go\<close> and \<open>server/game/party_invite.go\<close>: parties, kept as a component of a party entity
  (the roster) and a component of each member (the party's identifier), and the cache of open invitations.
  A reply constructor stands for one message of the code, a notice for one message sent to another player.
  The operations are modelled as atomic steps; \<open>TryAddMemberToParty\<close>, whose comment claims atomicity, is also
  split at its two registry accesses.
\<close>

subsection \<open>Names and messages\<close>

datatype shown_name = EntityNo entity | Named string

definition shown :: "Registry \<Rightarrow> entity \<Rightarrow> shown_name" where
  "shown r e = (case GetMetadata r e of
     Some m \<Rightarrow> if meta_Name m \<noteq> '''' then Named (meta_Name m) else EntityNo e | None \<Rightarrow> EntityNo e)"

datatype party_reply =
  InPartyAlready | PartyCreated string
| NotInParty | PartyNotFound | NotLeader | PartyFull | TargetNotFound | TargetInParty | InviteSent shown_name
| NoInvite | InviteMismatch | PartyGone | JoinerInParty | PartyNowFull | Joined string

datatype party_notice =
  InvitedBy shown_name string | MemberJoined shown_name string nat | MemberLeft shown_name shown_name nat

type_synonym party_notices = "(entity \<times> party_notice) list"

subsection \<open>Parties\<close>

definition maxPartySize :: nat where "maxPartySize = 4"

definition CreatePartySystem :: "entity \<Rightarrow> string \<Rightarrow> Registry \<Rightarrow> entity list \<Rightarrow> party_reply \<times> Registry \<times> entity list" where
  "CreatePartySystem leader name r fl =
     (if GetPartyMember r leader \<noteq> None then (InPartyAlready, r, fl)
      else case reg_NewEntity r fl of (pid, r1, fl1) \<Rightarrow>
        (PartyCreated name,
         SetPartyMember leader \<lparr>PartyID = pid\<rparr> (SetParty pid \<lparr>LeaderID = leader, TeamName = name, MemberIDs = [leader]\<rparr> r1),
         fl1))"

definition BroadcastToParty :: "Registry \<Rightarrow> entity \<Rightarrow> party_notice \<Rightarrow> party_notices" where
  "BroadcastToParty r pid n = (case GetParty r pid of None \<Rightarrow> [] | Some c \<Rightarrow> map (\<lambda>m. (m, n)) (MemberIDs c))"

definition GetPlayerPartyID :: "Registry \<Rightarrow> entity \<Rightarrow> entity" where
  "GetPlayerPartyID r p = (case GetPartyMember r p of None \<Rightarrow> 0 | Some pm \<Rightarrow> PartyID pm)"

text \<open>The read and the write of \<open>TryAddMemberToParty\<close>.\<close>

definition try_read :: "Registry \<Rightarrow> entity \<Rightarrow> PartyComponent option" where
  "try_read r pid = (case GetParty r pid of None \<Rightarrow> None
     | Some c \<Rightarrow> if length (MemberIDs c) \<ge> maxPartySize then None else Some (Party_Clone c))"

definition try_write :: "entity \<Rightarrow> entity \<Rightarrow> PartyComponent \<Rightarrow> Registry \<Rightarrow> Registry" where
  "try_write pid p c r = SetPartyMember p \<lparr>PartyID = pid\<rparr> (SetParty pid (c\<lparr>MemberIDs := MemberIDs c @ [p]\<rparr>) r)"

definition TryAddMemberToParty :: "entity \<Rightarrow> entity \<Rightarrow> Registry \<Rightarrow> bool \<times> Registry" where
  "TryAddMemberToParty pid p r = (case try_read r pid of None \<Rightarrow> (False, r) | Some c \<Rightarrow> (True, try_write pid p c r))"

definition AddMemberToParty :: "entity \<Rightarrow> entity \<Rightarrow> Registry \<Rightarrow> Registry" where
  "AddMemberToParty pid p r = (case GetParty r pid of None \<Rightarrow> r
     | Some c0 \<Rightarrow> let c = Party_Clone c0
         in SetPartyMember p \<lparr>PartyID = pid\<rparr> (SetParty pid (c\<lparr>MemberIDs := MemberIDs c @ [p]\<rparr>) r))"

definition RemovePlayerFromParty :: "entity \<Rightarrow> Registry \<Rightarrow> Registry \<times> party_notices" where
  "RemovePlayerFromParty p r = (case GetPartyMember r p of
     None \<Rightarrow> (r, [])
   | Some pm \<Rightarrow> let pid = PartyID pm in (case GetParty r pid of
       None \<Rightarrow> (DeletePartyMember p r, [])
     | Some c0 \<Rightarrow>
         let rest = filter (\<lambda>m. m \<noteq> p) (MemberIDs c0);
             c = (Party_Clone c0)\<lparr>MemberIDs := rest\<rparr>;
             r1 = DeletePartyMember p r
         in if length rest = 0 then (DeleteParty pid r1, [])
            else let c' = (if p = LeaderID c then c\<lparr>LeaderID := hd rest\<rparr> else c);
                     r2 = SetParty pid c' r1
                 in (r2, BroadcastToParty r2 pid (MemberLeft (shown r2 p) (shown r2 (LeaderID c')) (length rest)))))"

definition GetPartyMemberIDs :: "Registry \<Rightarrow> entity \<Rightarrow> entity list" where
  "GetPartyMemberIDs r pid = (case GetParty r pid of None \<Rightarrow> [] | Some c \<Rightarrow> MemberIDs c)"

subsection \<open>Invitations\<close>

record InviteRecord =
  inv_PartyID :: entity
  ExpiresAt :: u64

type_synonym InviteCache = "entity \<rightharpoonup> InviteRecord"

definition invite_Store :: "entity \<Rightarrow> InviteRecord \<Rightarrow> InviteCache \<Rightarrow> InviteCache" where
  "invite_Store target rec ic = ic(target \<mapsto> rec)"

definition invite_Take :: "u64 \<Rightarrow> entity \<Rightarrow> InviteCache \<Rightarrow> InviteRecord option \<times> InviteCache" where
  "invite_Take now target ic = (case ic target of None \<Rightarrow> (None, ic)
     | Some rec \<Rightarrow> (if now \<ge> ExpiresAt rec then None else Some rec, ic(target := None)))"

definition PurgeExpired :: "u64 \<Rightarrow> InviteCache \<Rightarrow> InviteCache" where
  "PurgeExpired now ic = (\<lambda>p. case ic p of None \<Rightarrow> None | Some rec \<Rightarrow> if now \<ge> ExpiresAt rec then None else Some rec)"

definition SendPartyInviteSystem ::
  "u64 \<Rightarrow> entity \<Rightarrow> entity \<Rightarrow> Registry \<Rightarrow> InviteCache \<Rightarrow> (party_reply \<times> bool) \<times> InviteCache \<times> party_notices" where
  "SendPartyInviteSystem now inviter target r ic =
     (let pid = GetPlayerPartyID r inviter
      in if pid = 0 then ((NotInParty, False), ic, [])
         else (case GetParty r pid of
           None \<Rightarrow> ((PartyNotFound, False), ic, [])
         | Some c \<Rightarrow>
             if LeaderID c \<noteq> inviter then ((NotLeader, False), ic, [])
             else if length (MemberIDs c) \<ge> maxPartySize then ((PartyFull, False), ic, [])
             else if GetMetadata r target = None then ((TargetNotFound, False), ic, [])
             else if GetPlayerPartyID r target \<noteq> 0 then ((TargetInParty, False), ic, [])
             else ((InviteSent (shown r inviter), True),
                   invite_Store target \<lparr>inv_PartyID = pid, ExpiresAt = now + 120\<rparr> ic,
                   [(target, InvitedBy (shown r inviter) (TeamName c))])))"

definition AcceptPartyInviteSystem ::
  "u64 \<Rightarrow> entity \<Rightarrow> entity \<Rightarrow> Registry \<Rightarrow> InviteCache \<Rightarrow>
   (party_reply \<times> bool) \<times> Registry \<times> InviteCache \<times> party_notices" where
  "AcceptPartyInviteSystem now p target r ic =
     (case invite_Take now p ic of
        (None, ic1) \<Rightarrow> ((NoInvite, False), r, ic1, [])
      | (Some rec, ic1) \<Rightarrow>
          if inv_PartyID rec \<noteq> target then ((InviteMismatch, False), r, ic1, [])
          else (case GetParty r target of
            None \<Rightarrow> ((PartyGone, False), r, ic1, [])
          | Some c \<Rightarrow>
              if GetPlayerPartyID r p \<noteq> 0 then ((JoinerInParty, False), r, ic1, [])
              else (case TryAddMemberToParty target p r of
                (False, r1) \<Rightarrow> ((PartyNowFull, False), r1, ic1, [])
              | (True, r1) \<Rightarrow> ((Joined (TeamName c), True), r1, ic1,
                  BroadcastToParty r1 target (MemberJoined (shown r1 p) (TeamName c) (length (GetPartyMemberIDs r1 target)))))))"

subsection \<open>The roster invariant\<close>

text \<open>
  Over the two component tables as maps: a party has between one and four different members, its leader is one
  of them, and being on a roster and having the membership component are the same thing.
\<close>

definition roster_ok :: "(entity \<rightharpoonup> PartyComponent) \<Rightarrow> (entity \<rightharpoonup> PartyMemberComponent) \<Rightarrow> bool" where
  "roster_ok P M \<longleftrightarrow>
     (\<forall>pid c. P pid = Some c \<longrightarrow> pid \<noteq> 0 \<and> distinct (MemberIDs c) \<and> length (MemberIDs c) \<le> maxPartySize \<and>
        LeaderID c \<in> set (MemberIDs c)) \<and>
     (\<forall>m pid. M m = Some \<lparr>PartyID = pid\<rparr> \<longleftrightarrow> (\<exists>c. P pid = Some c \<and> m \<in> set (MemberIDs c)))"

definition party_inv :: "Registry \<Rightarrow> bool" where
  "party_inv r \<longleftrightarrow> roster_ok (GetParty r) (GetPartyMember r)"

lemma roster_party:
  assumes "roster_ok P M" and "P pid = Some c"
  shows "pid \<noteq> 0" and "distinct (MemberIDs c)" and "length (MemberIDs c) \<le> maxPartySize" and "LeaderID c \<in> set (MemberIDs c)"
  using assms unfolding roster_ok_def by blast+

lemma roster_member: "roster_ok P M \<Longrightarrow> M m = Some \<lparr>PartyID = pid\<rparr> \<longleftrightarrow> (\<exists>c. P pid = Some c \<and> m \<in> set (MemberIDs c))"
  unfolding roster_ok_def by blast

lemma roster_empty: "roster_ok Map.empty Map.empty"
  by (simp add: roster_ok_def)

text \<open>A member belongs to one party only.\<close>

lemma roster_unique:
  assumes "roster_ok P M" and "P a = Some c" and "P b = Some d" and "m \<in> set (MemberIDs c)" and "m \<in> set (MemberIDs d)"
  shows "a = b"
proof -
  have "M m = Some \<lparr>PartyID = a\<rparr>" "M m = Some \<lparr>PartyID = b\<rparr>"
    using roster_member [OF assms(1)] assms(2-5) by blast+
  then show ?thesis by simp
qed

lemma roster_create:
  assumes R: "roster_ok P M" and "M l = None" and "P pid = None" and "pid \<noteq> 0"
  shows "roster_ok (P(pid \<mapsto> \<lparr>LeaderID = l, TeamName = n, MemberIDs = [l]\<rparr>)) (M(l \<mapsto> \<lparr>PartyID = pid\<rparr>))"
proof -
  have "\<And>q c. P q = Some c \<Longrightarrow> l \<notin> set (MemberIDs c)" using roster_member [OF R, of l] assms(2) by auto
  moreover have "\<And>m. M m \<noteq> Some \<lparr>PartyID = pid\<rparr>" using roster_member [OF R] assms(3) by auto
  ultimately show ?thesis
    using R assms(4) unfolding roster_ok_def by (auto simp: maxPartySize_def)
qed

lemma roster_join:
  assumes R: "roster_ok P M" and c: "P pid = Some c" and len: "length (MemberIDs c) < maxPartySize" and p: "M p = None"
  shows "roster_ok (P(pid \<mapsto> c\<lparr>MemberIDs := MemberIDs c @ [p]\<rparr>)) (M(p \<mapsto> \<lparr>PartyID = pid\<rparr>))"
proof -
  have new: "p \<notin> set (MemberIDs d)" if "P q = Some d" for q d using roster_member [OF R, of p] p that by auto
  show ?thesis
    unfolding roster_ok_def
  proof (intro conjI allI)
    fix q d
    show "(P(pid \<mapsto> c\<lparr>MemberIDs := MemberIDs c @ [p]\<rparr>)) q = Some d \<longrightarrow> q \<noteq> 0 \<and> distinct (MemberIDs d) \<and>
        length (MemberIDs d) \<le> maxPartySize \<and> LeaderID d \<in> set (MemberIDs d)"
      using roster_party [OF R, of q] roster_party [OF R c] new [OF c] len by (auto simp: Suc_le_eq)
    fix m
    show "(M(p \<mapsto> \<lparr>PartyID = pid\<rparr>)) m = Some \<lparr>PartyID = q\<rparr> \<longleftrightarrow>
        (\<exists>d. (P(pid \<mapsto> c\<lparr>MemberIDs := MemberIDs c @ [p]\<rparr>)) q = Some d \<and> m \<in> set (MemberIDs d))"
      using roster_member [OF R, of m q] new c by auto
  qed
qed

text \<open>Leaving: the last member takes the party with it; otherwise the first of the rest may become leader.\<close>

lemma roster_leave_last:
  assumes R: "roster_ok P M" and c: "P pid = Some c" and p: "M p = Some \<lparr>PartyID = pid\<rparr>"
    and last: "filter (\<lambda>m. m \<noteq> p) (MemberIDs c) = []"
  shows "roster_ok (P(pid := None)) (M(p := None))"
proof -
  have only: "set (MemberIDs c) \<subseteq> {p}" using last by (auto simp: filter_empty_conv)
  have other: "p \<notin> set (MemberIDs d)" if "P q = Some d" "q \<noteq> pid" for q d
    using roster_unique [OF R that(1) c, of p] roster_member [OF R, of p pid] p c that(2) by auto
  have gone: "M m \<noteq> Some \<lparr>PartyID = pid\<rparr>" if "m \<noteq> p" for m
    using roster_member [OF R, of m pid] only c that by auto
  show ?thesis
    unfolding roster_ok_def
  proof (intro conjI allI)
    fix q d
    show "(P(pid := None)) q = Some d \<longrightarrow> q \<noteq> 0 \<and> distinct (MemberIDs d) \<and> length (MemberIDs d) \<le> maxPartySize \<and>
        LeaderID d \<in> set (MemberIDs d)"
      using roster_party [OF R, of q] by simp
    fix m
    show "(M(p := None)) m = Some \<lparr>PartyID = q\<rparr> \<longleftrightarrow> (\<exists>d. (P(pid := None)) q = Some d \<and> m \<in> set (MemberIDs d))"
      using roster_member [OF R, of m q] other gone by (cases "m = p") auto
  qed
qed

lemma roster_leave:
  assumes R: "roster_ok P M" and c: "P pid = Some c" and p: "M p = Some \<lparr>PartyID = pid\<rparr>"
    and rest: "filter (\<lambda>m. m \<noteq> p) (MemberIDs c) = rest" "rest \<noteq> []"
    and l: "l = (if p = LeaderID c then hd rest else LeaderID c)"
    and d: "LeaderID d = l" "MemberIDs d = rest"
  shows "roster_ok (P(pid \<mapsto> d)) (M(p := None))"
proof -
  have set: "set rest = set (MemberIDs c) - {p}" "distinct rest" "length rest \<le> maxPartySize"
    using roster_party [OF R c] unfolding rest(1) [symmetric] by (auto intro: order_trans [OF length_filter_le])
  have lead: "l \<in> set rest"
  proof (cases "p = LeaderID c")
    case True
    with l have "l = hd rest" by simp
    with rest(2) show ?thesis by simp
  next
    case False
    with l have "l = LeaderID c" by simp
    with False set(1) roster_party(4) [OF R c] show ?thesis by simp
  qed
  have other: "p \<notin> set (MemberIDs e)" if "P q = Some e" "q \<noteq> pid" for q e
    using roster_unique [OF R that(1) c, of p] roster_member [OF R, of p pid] p c that(2) by auto
  show ?thesis
    unfolding roster_ok_def
  proof (intro conjI allI)
    fix q e
    show "(P(pid \<mapsto> d)) q = Some e \<longrightarrow> q \<noteq> 0 \<and> distinct (MemberIDs e) \<and> length (MemberIDs e) \<le> maxPartySize \<and>
        LeaderID e \<in> set (MemberIDs e)"
      using roster_party [OF R, of q] roster_party(1) [OF R c] set lead d by auto
    fix m
    show "(M(p := None)) m = Some \<lparr>PartyID = q\<rparr> \<longleftrightarrow> (\<exists>e. (P(pid \<mapsto> d)) q = Some e \<and> m \<in> set (MemberIDs e))"
      using roster_member [OF R, of m q] other c set d by (cases "m = p") auto
  qed
qed

subsection \<open>The operations keep it\<close>

definition party_ok :: "Registry \<Rightarrow> entity list \<Rightarrow> entity set \<Rightarrow> entity set \<Rightarrow> bool" where
  "party_ok r fl L I \<longleftrightarrow> alloc_ok r fl L I \<and> party_inv r"

lemma party_ok_New: "party_ok NewRegistry [] {} {}"
proof -
  have "GetParty NewRegistry = Map.empty" "GetPartyMember NewRegistry = Map.empty"
    using registered_dom [of NewRegistry] alloc_ok_New
    by (auto simp: fun_eq_iff no_components_def alloc_ok_def)
  then show ?thesis using alloc_ok_New roster_empty by (simp add: party_ok_def party_inv_def)
qed

lemma party_ok_live:
  assumes "party_ok r fl L I"
  shows "GetParty r e = Some c \<Longrightarrow> e \<in> L" and "GetPartyMember r e = Some pm \<Longrightarrow> e \<in> L"
    and "GetMetadata r e = Some m \<Longrightarrow> e \<in> L"
  using assms Get_registered [OF alloc_okD(1), of r fl L I e] alloc_okD(2) [of r fl L I] by (auto simp: party_ok_def)

lemma Create_ok:
  assumes ok: "party_ok r fl L I" and live: "l \<in> L" and room: "alloc_room r fl"
    and create: "CreatePartySystem l n r fl = (reply, r', fl')"
  shows "\<exists>L' I'. party_ok r' fl' L' I' \<and> L \<subseteq> L'"
proof (cases "GetPartyMember r l")
  case None
  obtain pid r1 fl1 where new: "reg_NewEntity r fl = (pid, r1, fl1)" by (metis surj_pair)
  let ?c = "\<lparr>LeaderID = l, TeamName = n, MemberIDs = [l]\<rparr>"
  have eq: "r' = SetPartyMember l \<lparr>PartyID = pid\<rparr> (SetParty pid ?c r1)" "fl' = fl1"
    using create None new by (auto simp: CreatePartySystem_def)
  have al: "alloc_ok r fl L I" and inv: "party_inv r" using ok by (auto simp: party_ok_def)
  note N = alloc_NewEntity [OF al room new]
  note S = Set_live(19,20) [OF N(1), of pid ?c]
  have same: "GetParty r1 = GetParty r" "GetPartyMember r1 = GetPartyMember r" and fresh: "GetParty r pid = None"
    using N(4,5) by (auto simp: same_components_def no_components_def fun_eq_iff)
  have a1: "alloc_ok (SetParty pid ?c r1) fl1 (insert pid L) (insert pid I)" using S by simp
  have "party_inv r'"
    unfolding party_inv_def eq using S(2) Set_live(22) [OF a1, of l] live same
    using roster_create [OF inv [unfolded party_inv_def] None fresh N(3)] by simp
  moreover have "alloc_ok r' fl' (insert pid L) (insert pid I)" unfolding eq using Set_live(21) [OF a1, of l] live by simp
  ultimately show ?thesis unfolding party_ok_def by blast
qed (use create ok in \<open>auto simp: CreatePartySystem_def\<close>)

lemma try_write_ok:
  assumes ok: "party_ok r fl L I" and c: "GetParty r pid = Some c" and len: "length (MemberIDs c) < maxPartySize"
    and p: "p \<in> L" "GetPartyMember r p = None"
  shows "party_ok (try_write pid p c r) fl L I"
proof -
  let ?c = "c\<lparr>MemberIDs := MemberIDs c @ [p]\<rparr>"
  have al: "alloc_ok r fl L I" and inv: "party_inv r" using ok by (auto simp: party_ok_def)
  note S = Set_live(19,20) [OF al party_ok_live(1) [OF ok c], of ?c]
  have "alloc_ok (try_write pid p c r) fl L I"
    unfolding try_write_def by (rule Set_live(21) [OF S(1) p(1)])
  moreover have "party_inv (try_write pid p c r)"
    unfolding party_inv_def try_write_def
    using S(2) Set_live(22) [OF S(1) p(1)] roster_join [OF inv [unfolded party_inv_def] c len p(2)] by simp
  ultimately show ?thesis by (simp add: party_ok_def)
qed

lemma TryAdd_ok:
  assumes "party_ok r fl L I" and "p \<in> L" and "GetPartyMember r p = None" and "TryAddMemberToParty pid p r = (b, r')"
  shows "party_ok r' fl L I \<and> (b \<longleftrightarrow> (\<exists>c. GetParty r pid = Some c \<and> length (MemberIDs c) < maxPartySize))"
proof (cases "try_read r pid")
  case (Some c)
  then have "GetParty r pid = Some c" "length (MemberIDs c) < maxPartySize"
    by (auto simp: try_read_def split: option.splits if_splits)
  with try_write_ok [OF assms(1) this assms(2,3)] assms(4) Some show ?thesis by (auto simp: TryAddMemberToParty_def)
next
  case None
  with assms(1,4) show ?thesis by (auto simp: TryAddMemberToParty_def try_read_def split: option.splits if_splits)
qed

lemma member_zero:
  assumes "party_inv r"
  shows "GetPlayerPartyID r p = 0 \<longleftrightarrow> GetPartyMember r p = None"
proof (cases "GetPartyMember r p")
  case (Some pm)
  obtain pid where pm: "pm = \<lparr>PartyID = pid\<rparr>" by (cases pm)
  with Some assms obtain c where "GetParty r pid = Some c"
    using roster_member [of "GetParty r" "GetPartyMember r" p pid] by (auto simp: party_inv_def)
  with roster_party(1) assms have "pid \<noteq> 0" unfolding party_inv_def by blast
  with Some pm show ?thesis by (simp add: GetPlayerPartyID_def)
qed (simp add: GetPlayerPartyID_def)

lemma Accept_ok:
  assumes ok: "party_ok r fl L I" and live: "p \<in> L"
    and acc: "AcceptPartyInviteSystem now p target r ic = ((reply, b), r', ic', ns)"
  shows "party_ok r' fl L I"
proof (cases "r' = r")
  case False
  have inv: "party_inv r" using ok by (simp add: party_ok_def)
  from acc False have "GetPlayerPartyID r p = 0" and "\<exists>b. TryAddMemberToParty target p r = (b, r')"
    by (auto simp: AcceptPartyInviteSystem_def split: prod.splits option.splits if_splits bool.splits)
  with TryAdd_ok [OF ok live] member_zero [OF inv] show ?thesis by blast
qed (use ok in simp)

lemma Leave_ok:
  assumes ok: "party_ok r fl L I" and leave: "RemovePlayerFromParty p r = (r', ns)"
  shows "party_ok r' fl L I \<and> GetPartyMember r' p = None \<and> (\<forall>c. c \<in> ran (GetParty r') \<longrightarrow> p \<notin> set (MemberIDs c))"
proof -
  have al: "alloc_ok r fl L I" and inv: "roster_ok (GetParty r) (GetPartyMember r)"
    using ok by (auto simp: party_ok_def party_inv_def)
  have main: "party_ok r' fl L I \<and> GetPartyMember r' p = None"
  proof (cases "GetPartyMember r p")
    case (Some pm)
    obtain pid where pm: "pm = \<lparr>PartyID = pid\<rparr>" by (cases pm)
    then obtain c where c: "GetParty r pid = Some c" using roster_member [OF inv, of p pid] Some by auto
    note D = Delete_party [OF al]
    let ?r1 = "DeletePartyMember p r" and ?rest = "filter (\<lambda>m. m \<noteq> p) (MemberIDs c)"
    have M: "GetPartyMember r p = Some \<lparr>PartyID = pid\<rparr>" using Some pm by simp
    show ?thesis
    proof (cases "?rest = []")
      case True
      then have "r' = DeleteParty pid ?r1" using leave Some pm c by (auto simp: RemovePlayerFromParty_def Let_def)
      then show ?thesis
        using Delete_party [OF D(3)] D roster_leave_last [OF inv c M True] by (simp add: party_ok_def party_inv_def)
    next
      case False
      define c' where "c' = (if p = LeaderID c then c\<lparr>MemberIDs := ?rest, LeaderID := hd ?rest\<rparr> else c\<lparr>MemberIDs := ?rest\<rparr>)"
      have r': "r' = SetParty pid c' ?r1"
        using leave Some pm c False by (auto simp: RemovePlayerFromParty_def Let_def c'_def)
      have d: "LeaderID c' = (if p = LeaderID c then hd ?rest else LeaderID c)" "MemberIDs c' = ?rest"
        by (simp_all add: c'_def)
      note S = Set_live(19,20) [OF D(3) party_ok_live(1) [OF ok c], where vParty = c']
      show ?thesis
        using S D roster_leave [OF inv c M HOL.refl False HOL.refl d] unfolding r' by (simp add: party_ok_def party_inv_def)
    qed
  qed (use leave ok in \<open>auto simp: RemovePlayerFromParty_def\<close>)
  have "p \<notin> set (MemberIDs c)" if "GetParty r' q = Some c" for q c
    using main roster_member [of "GetParty r'" "GetPartyMember r'" p q] that by (auto simp: party_ok_def party_inv_def)
  with main show ?thesis by (auto simp: ran_def)
qed

subsection \<open>Parties over time\<close>

record PartyWorld =
  pw_reg :: Registry
  pw_free :: "entity list"
  pw_invites :: InviteCache

definition NewPartyWorld :: PartyWorld where
  "NewPartyWorld = \<lparr>pw_reg = NewRegistry, pw_free = [], pw_invites = Map.empty\<rparr>"

text \<open>
  One step of some player, at any tick: an entity enters the game, a player in the game creates a party, invites,
  accepts, or leaves the game as the disconnect handler does it, or the invitations are purged.
\<close>

inductive party_step :: "PartyWorld \<Rightarrow> PartyWorld \<Rightarrow> bool" where
  enter: "alloc_room (pw_reg w) (pw_free w) \<Longrightarrow> reg_NewEntity (pw_reg w) (pw_free w) = (e, r, fl) \<Longrightarrow>
    party_step w (w\<lparr>pw_reg := SetMetadata e m r, pw_free := fl\<rparr>)"
| create: "alloc_room (pw_reg w) (pw_free w) \<Longrightarrow> GetMetadata (pw_reg w) l \<noteq> None \<Longrightarrow>
    CreatePartySystem l n (pw_reg w) (pw_free w) = (reply, r, fl) \<Longrightarrow> party_step w (w\<lparr>pw_reg := r, pw_free := fl\<rparr>)"
| invite: "SendPartyInviteSystem now a b (pw_reg w) (pw_invites w) = (reply, ic, ns) \<Longrightarrow> party_step w (w\<lparr>pw_invites := ic\<rparr>)"
| accept: "GetMetadata (pw_reg w) p \<noteq> None \<Longrightarrow>
    AcceptPartyInviteSystem now p target (pw_reg w) (pw_invites w) = (reply, r, ic, ns) \<Longrightarrow>
    party_step w (w\<lparr>pw_reg := r, pw_invites := ic\<rparr>)"
| leave: "GetMetadata (pw_reg w) p \<noteq> None \<Longrightarrow> GetParty (pw_reg w) p = None \<Longrightarrow>
    RemovePlayerFromParty p (pw_reg w) = (r1, ns) \<Longrightarrow> RemoveEntity p r1 (pw_free w) = (r2, fl) \<Longrightarrow>
    party_step w (w\<lparr>pw_reg := r2, pw_free := fl\<rparr>)"
| purge: "party_step w (w\<lparr>pw_invites := PurgeExpired now (pw_invites w)\<rparr>)"

inductive party_steps :: "PartyWorld \<Rightarrow> PartyWorld \<Rightarrow> bool" where
  none: "party_steps w w"
| more: "party_steps w w' \<Longrightarrow> party_step w' w'' \<Longrightarrow> party_steps w w''"

definition pw_ok :: "PartyWorld \<Rightarrow> bool" where
  "pw_ok w \<longleftrightarrow> (\<exists>L I. party_ok (pw_reg w) (pw_free w) L I)"

lemma player_enter_ok:
  assumes ok: "party_ok r fl L I" and room: "alloc_room r fl" and new: "reg_NewEntity r fl = (e, r1, fl1)"
  shows "party_ok (SetMetadata e m r1) fl1 (insert e L) (insert e I)"
proof -
  have al: "alloc_ok r fl L I" using ok by (simp add: party_ok_def)
  note N = alloc_NewEntity [OF al room new]
  have "GetParty r1 = GetParty r" "GetPartyMember r1 = GetPartyMember r"
    using N(5) by (auto simp: same_components_def fun_eq_iff)
  with ok Set_live(5) [OF N(1), of e] show ?thesis by (simp add: party_ok_def party_inv_def)
qed

lemma Leave_dom:
  assumes ok: "party_ok r fl L I" and leave: "RemovePlayerFromParty p r = (r1, ns)"
  shows "dom (GetParty r1) \<subseteq> dom (GetParty r)"
proof (cases "GetPartyMember r p")
  case (Some pm)
  have D: "GetParty (DeletePartyMember p r) = GetParty r"
    using Delete_party(6) ok by (auto simp: party_ok_def)
  show ?thesis
  proof (cases "GetParty r (PartyID pm)")
    case (Some d)
    have al': "alloc_ok (DeletePartyMember p r) fl L I" using Delete_party(3) ok by (auto simp: party_ok_def)
    have "GetParty (DeleteParty (PartyID pm) (DeletePartyMember p r)) = (GetParty r)(PartyID pm := None)"
      using Delete_party(2) [OF al'] D by simp
    moreover have "GetParty (SetParty (PartyID pm) x (DeletePartyMember p r)) = (GetParty r)(PartyID pm \<mapsto> x)" for x
      using Set_live(20) [OF al' party_ok_live(1) [OF ok Some]] D by simp
    ultimately show ?thesis
      using leave \<open>GetPartyMember r p = Some pm\<close> Some
      by (auto simp: RemovePlayerFromParty_def Let_def split: if_splits)
  qed (use leave Some D in \<open>auto simp: RemovePlayerFromParty_def\<close>)
qed (use leave in \<open>auto simp: RemovePlayerFromParty_def\<close>)

lemma leave_game_ok:
  assumes ok: "party_ok r fl L I" and p: "p \<in> L" and np: "GetParty r p = None"
    and leave: "RemovePlayerFromParty p r = (r1, ns)" and rem: "RemoveEntity p r1 fl = (r2, fl2)"
  shows "party_ok r2 fl2 (L - {p}) I"
proof -
  note l = Leave_ok [OF ok leave]
  have al: "alloc_ok r1 fl L I" and R: "roster_ok (GetParty r1) (GetPartyMember r1)"
    using l by (auto simp: party_ok_def party_inv_def)
  note rm = alloc_RemoveEntity [OF al p rem]
  have np1: "GetParty r1 p = None"
  proof (rule ccontr)
    assume "GetParty r1 p \<noteq> None"
    then obtain c where c: "GetParty r1 p = Some c" by blast
    with Leave_dom [OF ok leave] np show False by auto
  qed
  have "GetParty r2 x = GetParty r1 x \<and> GetPartyMember r2 x = GetPartyMember r1 x" for x
    using rm(2) rm(3) [of x] np1 l by (cases "x = p") (auto simp: no_components_def same_components_def)
  then have "GetParty r2 = GetParty r1" "GetPartyMember r2 = GetPartyMember r1" by (simp_all add: fun_eq_iff)
  with R rm(1) show ?thesis by (simp add: party_ok_def party_inv_def)
qed

lemma party_step_ok:
  assumes "party_step w w'" and "pw_ok w"
  shows "pw_ok w'"
proof -
  obtain L I where ok: "party_ok (pw_reg w) (pw_free w) L I" using assms(2) by (auto simp: pw_ok_def)
  from assms(1) show ?thesis
  proof (cases rule: party_step.cases)
    case (enter e r fl m)
    with player_enter_ok [OF ok] show ?thesis by (auto simp: pw_ok_def)
  next
    case (create l n reply r fl)
    with Create_ok [OF ok _ create(2) create(4)] party_ok_live(3) [OF ok] show ?thesis by (auto simp: pw_ok_def)
  next
    case (accept p now target reply r ic ns)
    obtain rep b where rep: "reply = (rep, b)" by force
    from accept(2) party_ok_live(3) [OF ok] have "p \<in> L" by auto
    from Accept_ok [OF ok this accept(3) [unfolded rep]] accept(1) show ?thesis by (auto simp: pw_ok_def)
  next
    case (leave p r1 ns r2 fl)
    from leave(2) party_ok_live(3) [OF ok] have "p \<in> L" by auto
    from leave_game_ok [OF ok this leave(3-5)] leave(1) show ?thesis by (auto simp: pw_ok_def)
  qed (use assms(2) in \<open>auto simp: pw_ok_def\<close>)
qed

lemma party_steps_ok: "party_steps w w' \<Longrightarrow> pw_ok w \<Longrightarrow> pw_ok w'"
  by (induction rule: party_steps.induct) (blast intro: party_step_ok)+

subsection \<open>Properties\<close>

text \<open>
  C13 Parties are consistent: after any sequence of entering, creating, inviting, accepting at any time and
  leaving the game, every party has between one and four different members with its leader among them, and a
  player's party identifier is that of the one party whose roster has the player, or zero.
\<close>

theorem parties_consistent:
  assumes "party_steps NewPartyWorld w"
  shows "(\<forall>pid c. GetParty (pw_reg w) pid = Some c \<longrightarrow> MemberIDs c \<noteq> [] \<and> length (MemberIDs c) \<le> 4 \<and>
      distinct (MemberIDs c) \<and> LeaderID c \<in> set (MemberIDs c)) \<and>
    (\<forall>p pid. pid \<noteq> 0 \<longrightarrow> GetPlayerPartyID (pw_reg w) p = pid \<longleftrightarrow> p \<in> set (GetPartyMemberIDs (pw_reg w) pid))"
proof -
  have "pw_ok NewPartyWorld" using party_ok_New by (auto simp: pw_ok_def NewPartyWorld_def)
  from party_steps_ok [OF assms this] have R: "roster_ok (GetParty (pw_reg w)) (GetPartyMember (pw_reg w))"
    by (auto simp: pw_ok_def party_ok_def party_inv_def)
  have "GetPlayerPartyID (pw_reg w) p = pid \<longleftrightarrow> p \<in> set (GetPartyMemberIDs (pw_reg w) pid)" if "pid \<noteq> 0" for p pid
  proof -
    have "GetPlayerPartyID (pw_reg w) p = pid \<longleftrightarrow> GetPartyMember (pw_reg w) p = Some \<lparr>PartyID = pid\<rparr>"
      using that by (auto simp: GetPlayerPartyID_def split: option.splits)
    then show ?thesis
      using roster_member [OF R] by (auto simp: GetPartyMemberIDs_def split: option.splits)
  qed
  moreover have "MemberIDs c \<noteq> [] \<and> length (MemberIDs c) \<le> 4 \<and> distinct (MemberIDs c) \<and> LeaderID c \<in> set (MemberIDs c)"
    if "GetParty (pw_reg w) pid = Some c" for pid c
    using roster_party [OF R that] by (auto simp: maxPartySize_def)
  ultimately show ?thesis by blast
qed

text \<open>A player who enters and creates a party.\<close>

lemma new_room: "alloc_room NewRegistry []"
  by (simp add: alloc_room_def ids_room_def NewRegistry_def)

lemma NewRegistry_first: "reg_NewEntity NewRegistry [] = (mk_entity 1 1, NewRegistry\<lparr>reg_nextID := 1\<rparr>, [])"
  using NewEntity_fresh [of "\<lparr>nextID = 0, recycled = []\<rparr>"]
  by (simp add: reg_NewEntity_def NewRegistry_def)

lemma party_of_one:
  "\<exists>w pid c. party_steps NewPartyWorld w \<and> pid \<noteq> 0 \<and> GetParty (pw_reg w) pid = Some c \<and> GetPlayerPartyID (pw_reg w) (mk_entity 1 1) = pid"
proof -
  let ?p = "mk_entity 1 1"
  let ?r1 = "SetMetadata ?p \<lparr>meta_Name = ''Ann'', meta_Type = EntityPlayer\<rparr> (NewRegistry\<lparr>reg_nextID := 1\<rparr>)"
  have "party_step NewPartyWorld (NewPartyWorld\<lparr>pw_reg := ?r1, pw_free := []\<rparr>)"
    using party_step.enter [of NewPartyWorld ?p "NewRegistry\<lparr>reg_nextID := 1\<rparr>" "[]"] NewRegistry_first new_room
    by (simp add: NewPartyWorld_def)
  from party_steps.more [OF party_steps.none this]
  have s1: "party_steps NewPartyWorld \<lparr>pw_reg = ?r1, pw_free = [], pw_invites = Map.empty\<rparr>" by (simp add: NewPartyWorld_def)
  have al0: "alloc_ok (NewRegistry\<lparr>reg_nextID := 1\<rparr>) [] {?p} {?p}"
    using alloc_NewEntity(1) [OF alloc_ok_New new_room NewRegistry_first] by simp
  note al = Set_live(5,6) [OF al0, of ?p]
  have meta: "GetMetadata ?r1 ?p \<noteq> None" using al(2) by simp
  have none: "GetPartyMember ?r1 ?p = None"
    using alloc_NewEntity(4) [OF alloc_ok_New new_room NewRegistry_first] by (simp add: no_components_def)
  have room: "alloc_room ?r1 []" by (simp add: alloc_room_def ids_room_def)
  obtain pid r2 fl2 where new: "reg_NewEntity ?r1 [] = (pid, r2, fl2)" by (metis surj_pair)
  note N = alloc_NewEntity [OF al(1) room new]
  let ?c = "\<lparr>LeaderID = ?p, TeamName = ''A'', MemberIDs = [?p]\<rparr>"
  let ?r3 = "SetPartyMember ?p \<lparr>PartyID = pid\<rparr> (SetParty pid ?c r2)"
  have "CreatePartySystem ?p ''A'' ?r1 [] = (PartyCreated ''A'', ?r3, fl2)"
    using none new by (simp add: CreatePartySystem_def)
  then have "party_step \<lparr>pw_reg = ?r1, pw_free = [], pw_invites = Map.empty\<rparr> \<lparr>pw_reg = ?r3, pw_free = fl2, pw_invites = Map.empty\<rparr>"
    using room meta party_step.create [of "\<lparr>pw_reg = ?r1, pw_free = [], pw_invites = Map.empty\<rparr>" ?p "''A''" _ ?r3 fl2] by simp
  from party_steps.more [OF s1 this] have s2: "party_steps NewPartyWorld \<lparr>pw_reg = ?r3, pw_free = fl2, pw_invites = Map.empty\<rparr>" .
  have a3: "alloc_ok (SetParty pid ?c r2) fl2 (insert pid {?p}) (insert pid {?p})" using Set_live(19) [OF N(1)] by simp
  have "GetPlayerPartyID ?r3 ?p = pid" using Set_live(22) [OF a3, of ?p] by (simp add: GetPlayerPartyID_def)
  moreover have "GetParty ?r3 pid = Some ?c" using Set_live(20) [OF N(1), of pid ?c] by simp
  ultimately show ?thesis using N(3) s2
    by (intro exI [of _ "\<lparr>pw_reg = ?r3, pw_free = fl2, pw_invites = Map.empty\<rparr>"] exI [of _ pid] exI [of _ ?c]) simp
qed

theorem parties_consistent_witness:
  "\<exists>w pid. party_steps NewPartyWorld w \<and> pid \<noteq> 0 \<and> mk_entity 1 1 \<in> set (GetPartyMemberIDs (pw_reg w) pid)"
proof -
  obtain w pid where w: "party_steps NewPartyWorld w" "pid \<noteq> 0" "GetPlayerPartyID (pw_reg w) (mk_entity 1 1) = pid"
    using party_of_one by blast
  with parties_consistent [OF w(1)] show ?thesis by blast
qed

text \<open>
  The join that is documented as atomic is not: if two players read the roster before either writes it,
  the second write drops the first player from the roster, whose membership component still names the party.
\<close>

theorem TryAdd_race_loses_member:
  assumes "registry_inv r" and "party_inv r" and "try_read r pid = Some c"
    and "p \<in> registered r" and "q \<in> registered r" and "p \<noteq> q" and "GetPartyMember r p = None"
  shows "let r' = try_write pid q c (try_write pid p c r)
    in GetPlayerPartyID r' p = pid \<and> p \<notin> set (GetPartyMemberIDs r' pid) \<and> q \<in> set (GetPartyMemberIDs r' pid)"
proof -
  have c: "GetParty r pid = Some c" using assms(3) by (auto simp: try_read_def split: option.splits if_splits)
  have "p \<notin> set (MemberIDs c)"
    using roster_member [of "GetParty r" "GetPartyMember r" p pid] assms(2,7) c by (auto simp: party_inv_def)
  moreover have "pid \<in> registered r" using Get_registered(10) [OF assms(1) c] .
  ultimately show ?thesis
    using assms(1,4-6) by (simp add: try_write_def GetPlayerPartyID_def GetPartyMemberIDs_def)
qed

text \<open>Player 1 leads party 9; players 2 and 3 accept at the same time.\<close>

definition trio :: Registry where
  "trio = SetMetadata 3 \<lparr>meta_Name = ''Cid'', meta_Type = EntityPlayer\<rparr>
     (SetMetadata 2 \<lparr>meta_Name = ''Bob'', meta_Type = EntityPlayer\<rparr>
     (SetPartyMember 1 \<lparr>PartyID = 9\<rparr> (SetParty 9 \<lparr>LeaderID = 1, TeamName = ''A'', MemberIDs = [1]\<rparr> NewRegistry)))"

lemma trio:
  "registry_inv trio" "registered trio = {1, 2, 3, 9}" "GetPartyMember trio = [1 \<mapsto> \<lparr>PartyID = 9\<rparr>]"
  "GetParty trio = [9 \<mapsto> \<lparr>LeaderID = 1, TeamName = ''A'', MemberIDs = [1]\<rparr>]"
proof -
  have idx: "EntityIndex 1 = 1" "EntityIndex 2 = 2" "EntityIndex 3 = 3" "EntityIndex 9 = 9" by (simp_all add: EntityIndex_def)
  define r9 where "r9 = SetParty 9 \<lparr>LeaderID = 1, TeamName = ''A'', MemberIDs = [1]\<rparr> NewRegistry"
  have "index_free 9 NewRegistry" by (simp add: index_free_def)
  note S9 = Set_free(28-30) [OF registry_inv_NewRegistry this, of "\<lparr>LeaderID = 1, TeamName = ''A'', MemberIDs = [1]\<rparr>", folded r9_def]
  define r1 where "r1 = SetPartyMember 1 \<lparr>PartyID = 9\<rparr> r9"
  have "index_free 1 r9" using S9(2) by (simp add: index_free_def idx)
  note S1 = Set_free(31-33) [OF S9(1) this, of "\<lparr>PartyID = 9\<rparr>", folded r1_def]
  define r2 where "r2 = SetMetadata 2 \<lparr>meta_Name = ''Bob'', meta_Type = EntityPlayer\<rparr> r1"
  have "index_free 2 r1" using S1(2) S9(2) by (simp add: index_free_def idx)
  note S2 = Set_free(7-9) [OF S1(1) this, of "\<lparr>meta_Name = ''Bob'', meta_Type = EntityPlayer\<rparr>", folded r2_def]
  have "index_free 3 r2" using S2(2) S1(2) S9(2) by (simp add: index_free_def idx)
  note S3 = Set_free(7-9) [OF S2(1) this, of "\<lparr>meta_Name = ''Cid'', meta_Type = EntityPlayer\<rparr>"]
  have T: "trio = SetMetadata 3 \<lparr>meta_Name = ''Cid'', meta_Type = EntityPlayer\<rparr> r2"
    by (simp add: trio_def r2_def r1_def r9_def)
  show "registry_inv trio" "registered trio = {1, 2, 3, 9}" using S3 S2 S1 S9 unfolding T by auto
  show "GetPartyMember trio = [1 \<mapsto> \<lparr>PartyID = 9\<rparr>]"
    "GetParty trio = [9 \<mapsto> \<lparr>LeaderID = 1, TeamName = ''A'', MemberIDs = [1]\<rparr>]"
    using S9(3) S1(3) by (simp_all add: T r2_def r1_def r9_def)
qed

theorem TryAdd_race_loses_member_witness:
  "\<exists>c. try_read trio 9 = Some c \<and> 2 \<notin> set (GetPartyMemberIDs (try_write 9 3 c (try_write 9 2 c trio)) 9)"
proof -
  let ?c = "\<lparr>LeaderID = 1, TeamName = ''A'', MemberIDs = [1]\<rparr>"
  have read: "try_read trio 9 = Some ?c" by (simp add: try_read_def trio maxPartySize_def)
  have "party_inv trio" by (auto simp: party_inv_def roster_ok_def trio maxPartySize_def)
  from TryAdd_race_loses_member [OF trio(1) this read, of 2 3] read show ?thesis by (auto simp: trio Let_def)
qed

end
