(* ===== verification/Loot.thy ===== *)
theory Loot
  imports Rng
begin

text \<open>
  \<open>server/peakgo/loot/loot.go\<close> and \<open>server/game/loot.go\<close>: weighted loot tables. The random draws are those of the
  supply; the scratch buffers and the pool of result slices are memory, not state. A custom condition is a
  function of the entry and the context. \<open>LootDropItem\<close> has its chance in per mille, which is what the code
  converts it to before it uses it.
\<close>

subsection \<open>Tables\<close>

record DropEntry =
  de_ItemID :: u64
  Weight :: int
  MinQty :: int
  MaxQty :: int
  RequiredLevel :: int
  Chance :: int

record Drop =
  drop_ItemID :: u64
  Qty :: int

record DropContext =
  KillerLevel :: int
  KillerClass :: int
  PartySize :: int
  IsBoss :: bool
  WorldLevel :: int

type_synonym ConditionFunc = "DropEntry \<Rightarrow> DropContext \<Rightarrow> bool"

record LootTable =
  lt_entries :: "DropEntry list"
  totalWeight :: int
  baseChance :: int
  customCond :: "ConditionFunc option"

definition NewLootTable :: "DropEntry list \<Rightarrow> int \<Rightarrow> LootTable" where
  "NewLootTable es chance = \<lparr>lt_entries = es, totalWeight = foldl (\<lambda>w e. w + Weight e) 0 es, baseChance = chance, customCond = None\<rparr>"

definition WithCondition :: "ConditionFunc \<Rightarrow> LootTable \<Rightarrow> LootTable" where
  "WithCondition c lt = lt\<lparr>customCond := Some c\<rparr>"

definition loot_Clone :: "LootTable \<Rightarrow> LootTable" where
  "loot_Clone lt = \<lparr>lt_entries = lt_entries lt, totalWeight = totalWeight lt, baseChance = baseChance lt, customCond = None\<rparr>"

definition no_drop :: Drop where
  "no_drop = \<lparr>drop_ItemID = 0, Qty = 0\<rparr>"

subsection \<open>Rolling\<close>

text \<open>One entry passes the filter; only an entry with a chance of its own draws.\<close>

definition entry_passes :: "LootTable \<Rightarrow> DropContext \<Rightarrow> DropEntry \<Rightarrow> draws \<Rightarrow> bool \<times> draws" where
  "entry_passes lt ctx e rs =
     (if RequiredLevel e > 0 \<and> KillerLevel ctx < RequiredLevel e then (False, rs)
      else if (case customCond lt of None \<Rightarrow> False | Some c \<Rightarrow> \<not> c e ctx) then (False, rs)
      else if Chance e > 0 \<and> Chance e < 1000
        then (case Intn 1000 rs of (v, rs') \<Rightarrow> (\<not> v \<ge> Chance e, rs'))
      else (True, rs))"

fun eligible :: "LootTable \<Rightarrow> DropContext \<Rightarrow> DropEntry list \<Rightarrow> draws \<Rightarrow> DropEntry list \<times> draws" where
  "eligible lt ctx [] rs = ([], rs)"
| "eligible lt ctx (e # es) rs = (case entry_passes lt ctx e rs of (b, rs1) \<Rightarrow>
     (case eligible lt ctx es rs1 of (xs, rs2) \<Rightarrow> (if b then e # xs else xs, rs2)))"

fun pick :: "int \<Rightarrow> int \<Rightarrow> DropEntry list \<Rightarrow> DropEntry option" where
  "pick roll cumulative [] = None"
| "pick roll cumulative (e # es) =
     (let c = cumulative + Weight e in if roll < c then Some e else pick roll c es)"

definition quantity :: "DropEntry \<Rightarrow> draws \<Rightarrow> int \<times> draws" where
  "quantity e rs = (if MaxQty e > MinQty e
     then (case Intn (MaxQty e - MinQty e + 1) rs of (v, rs') \<Rightarrow> (MinQty e + v, rs')) else (MinQty e, rs))"

definition rollSingle :: "LootTable \<Rightarrow> DropContext \<Rightarrow> draws \<Rightarrow> Drop \<times> draws" where
  "rollSingle lt ctx rs =
     (if totalWeight lt \<le> 0 then (no_drop, rs)
      else (case eligible lt ctx (lt_entries lt) rs of (es, rs1) \<Rightarrow>
        let w = foldl (\<lambda>w e. w + Weight e) 0 es
        in if es = [] \<or> w \<le> 0 then (no_drop, rs1)
           else (case Intn w rs1 of (roll, rs2) \<Rightarrow>
             (case pick roll 0 es of None \<Rightarrow> (no_drop, rs2)
              | Some e \<Rightarrow> (case quantity e rs2 of (q, rs3) \<Rightarrow> (\<lparr>drop_ItemID = de_ItemID e, Qty = q\<rparr>, rs3))))))"

fun roll_many :: "nat \<Rightarrow> LootTable \<Rightarrow> DropContext \<Rightarrow> draws \<Rightarrow> Drop list \<times> draws" where
  "roll_many 0 lt ctx rs = ([], rs)"
| "roll_many (Suc n) lt ctx rs = (case rollSingle lt ctx rs of (d, rs1) \<Rightarrow>
     (case roll_many n lt ctx rs1 of (ds, rs2) \<Rightarrow> (if drop_ItemID d \<noteq> 0 then d # ds else ds, rs2)))"

definition Roll :: "LootTable \<Rightarrow> DropContext \<Rightarrow> draws \<Rightarrow> Drop list \<times> draws" where
  "Roll lt ctx rs =
     (let (miss, rs1) = (if baseChance lt < 1000 then (case Intn 1000 rs of (v, rs') \<Rightarrow> (v \<ge> baseChance lt, rs')) else (False, rs))
      in if miss then ([], rs1)
         else let (n, rs2) = (if PartySize ctx > 0 then (case Intn (PartySize ctx) rs1 of (v, rs') \<Rightarrow> (1 + v, rs')) else (1, rs1));
                  numDrops = (if n > 3 then 3 else n)
              in roll_many (nat numDrops) lt ctx rs2)"

subsection \<open>Convenience tables\<close>

definition drop_entry :: "u64 \<Rightarrow> int \<Rightarrow> int \<Rightarrow> int \<Rightarrow> DropEntry" where
  "drop_entry i w lo hi = \<lparr>de_ItemID = i, Weight = w, MinQty = lo, MaxQty = hi, RequiredLevel = 0, Chance = 0\<rparr>"

definition NewCoinDrop :: "int \<Rightarrow> int \<Rightarrow> LootTable" where
  "NewCoinDrop lo hi = NewLootTable [drop_entry 1 100 lo hi] 900"

definition NewMonsterDrop :: "DropEntry list \<Rightarrow> DropEntry list \<Rightarrow> int \<Rightarrow> LootTable" where
  "NewMonsterDrop common uncommon chance = NewLootTable (([] @ common) @ uncommon) chance"

definition NewBossDrop :: "DropEntry list \<Rightarrow> DropEntry list \<Rightarrow> LootTable" where
  "NewBossDrop guaranteed rare = NewLootTable (([] @ guaranteed) @ rare) 1000"

definition GoldCoinID :: u64 where "GoldCoinID = 1"
definition SilverCoinID :: u64 where "SilverCoinID = 2"

definition NewCurrencyDrop :: "int \<Rightarrow> int \<Rightarrow> int \<Rightarrow> int \<Rightarrow> LootTable" where
  "NewCurrencyDrop gmin gmax smin smax =
     NewLootTable [drop_entry GoldCoinID 100 gmin gmax, drop_entry SilverCoinID 300 smin smax] 800"

subsection \<open>The monsters' tables\<close>

record LootDropItem =
  ItemTemplateID :: u64
  DropPerMille :: int

definition legacyDropToEntry :: "LootDropItem list \<Rightarrow> DropEntry list" where
  "legacyDropToEntry items = map (\<lambda>i. drop_entry (ItemTemplateID i)
     (let perMille = DropPerMille i in if perMille < 1 then 1 else perMille) 1 1) items"

definition MonsterLootTables :: "u64 \<rightharpoonup> LootTable" where
  "MonsterLootTables =
     [1 \<mapsto> NewLootTable (legacyDropToEntry [\<lparr>ItemTemplateID = 101, DropPerMille = 700\<rparr>]) 1000,
      2 \<mapsto> NewLootTable (legacyDropToEntry [\<lparr>ItemTemplateID = 101, DropPerMille = 400\<rparr>, \<lparr>ItemTemplateID = 202, DropPerMille = 200\<rparr>]) 1000]"

definition RollLoot :: "u64 \<Rightarrow> draws \<Rightarrow> u64 list \<times> draws" where
  "RollLoot monster rs = (case MonsterLootTables monster of
     None \<Rightarrow> ([], rs)
   | Some table \<Rightarrow>
       let ctx = \<lparr>KillerLevel = 1, KillerClass = 0, PartySize = 0, IsBoss = False, WorldLevel = 0\<rparr>
       in (case Roll table ctx rs of (drops, rs') \<Rightarrow> (if length drops = 0 then [] else map drop_ItemID drops, rs')))"

subsection \<open>Weights are chances\<close>

lemma foldl_weight: "foldl (\<lambda>w e. w + Weight e) a es = a + sum_list (map Weight es)"
  by (induction es arbitrary: a) simp_all

lemma pick_some: "pick roll c es = Some e \<Longrightarrow> e \<in> set es"
  by (induction es arbitrary: c) (auto simp: Let_def split: if_splits)

lemma pick_total: "roll < c + sum_list (map Weight es) \<Longrightarrow> es \<noteq> [] \<Longrightarrow> pick roll c es \<noteq> None"
proof (induction es arbitrary: c)
  case (Cons e es)
  show ?case
  proof (cases "es = []")
    case False
    with Cons.IH [of "c + Weight e"] Cons.prems show ?thesis by (simp add: Let_def algebra_simps)
  qed (use Cons.prems in simp)
qed simp

text \<open>The rolls that select the entry at position \<open>i\<close>: an interval as long as its weight.\<close>

lemma pick_interval:
  assumes "\<forall>e \<in> set es. 0 < Weight e" and "distinct es" and "i < length es" and "c \<le> roll"
  shows "pick roll c es = Some (es ! i) \<longleftrightarrow>
    c + sum_list (map Weight (take i es)) \<le> roll \<and> roll < c + sum_list (map Weight (take (Suc i) es))"
  using assms
proof (induction es arbitrary: c i)
  case (Cons e es)
  show ?case
  proof (cases i)
    case 0
    then show ?thesis using Cons.prems pick_some [of roll "c + Weight e" es e] by (auto simp: Let_def)
  next
    case (Suc j)
    then have j: "j < length es" using Cons.prems(3) by simp
    then have ne: "es ! j \<noteq> e" using Cons.prems(2) by auto
    have w: "0 \<le> sum_list (map Weight (take j es))"
      using Cons.prems(1) by (intro sum_list_nonneg) (auto dest!: in_set_takeD intro: less_imp_le)
    show ?thesis
    proof (cases "roll < c + Weight e")
      case True
      then show ?thesis using Suc ne w by (auto simp: Let_def)
    next
      case False
      with Cons.IH [of j "c + Weight e"] Cons.prems j Suc show ?thesis by (simp add: Let_def algebra_simps)
    qed
  qed
qed simp

lemma eligible_subset: "eligible lt ctx es rs = (xs, rs') \<Longrightarrow> set xs \<subseteq> set es"
  by (induction es arbitrary: rs xs) (fastforce split: prod.splits if_splits)+

lemma eligible_level:
  "eligible lt ctx es rs = (xs, rs') \<Longrightarrow> e \<in> set xs \<Longrightarrow>
   \<not> (RequiredLevel e > 0 \<and> KillerLevel ctx < RequiredLevel e) \<and> (\<forall>c. customCond lt = Some c \<longrightarrow> c e ctx)"
proof (induction es arbitrary: rs xs rs')
  case (Cons x es)
  obtain b rs1 where b: "entry_passes lt ctx x rs = (b, rs1)" by force
  obtain ys rs2 where ys: "eligible lt ctx es rs1 = (ys, rs2)" by force
  from Cons.prems b ys have "e \<in> set ys \<or> e = x \<and> b" by (auto split: if_splits)
  moreover have "\<not> (RequiredLevel x > 0 \<and> KillerLevel ctx < RequiredLevel x) \<and> (\<forall>c. customCond lt = Some c \<longrightarrow> c x ctx)" if b
    using b that unfolding entry_passes_def by (auto split: if_splits)
  ultimately show ?case using Cons.IH [OF ys] by blast
qed simp

lemma quantity_bounds: "quantity e rs = (q, rs') \<Longrightarrow> MinQty e \<le> q \<and> q \<le> max (MinQty e) (MaxQty e)"
  using Intn_bounds [of "MaxQty e - MinQty e + 1" rs] by (fastforce simp: quantity_def split: prod.splits if_splits)

definition drop_from :: "LootTable \<Rightarrow> DropContext \<Rightarrow> Drop \<Rightarrow> bool" where
  "drop_from lt ctx d \<longleftrightarrow> (\<exists>e \<in> set (lt_entries lt). drop_ItemID d = de_ItemID e \<and>
     \<not> (RequiredLevel e > 0 \<and> KillerLevel ctx < RequiredLevel e) \<and> (\<forall>c. customCond lt = Some c \<longrightarrow> c e ctx) \<and>
     MinQty e \<le> Qty d \<and> Qty d \<le> max (MinQty e) (MaxQty e))"

lemma rollSingle_sound:
  assumes "rollSingle lt ctx rs = (d, rs')" and "drop_ItemID d \<noteq> 0"
  shows "drop_from lt ctx d"
proof -
  obtain es rs1 where es: "eligible lt ctx (lt_entries lt) rs = (es, rs1)" by force
  from assms es obtain roll rs2 e q where e: "pick roll 0 es = Some e" "quantity e rs2 = (q, rs')"
      and d: "d = \<lparr>drop_ItemID = de_ItemID e, Qty = q\<rparr>"
    by (auto simp: rollSingle_def no_drop_def Let_def split: if_splits prod.splits option.splits)
  have "e \<in> set es" using pick_some [OF e(1)] .
  with eligible_subset [OF es] eligible_level [OF es, of e] quantity_bounds [OF e(2)] show ?thesis
    by (auto simp: drop_from_def d)
qed

lemma roll_many_sound:
  "roll_many n lt ctx rs = (ds, rs') \<Longrightarrow> length ds \<le> n \<and> (\<forall>d \<in> set ds. drop_ItemID d \<noteq> 0 \<and> drop_from lt ctx d)"
proof (induction n arbitrary: rs ds rs')
  case (Suc n)
  obtain d rs1 where d: "rollSingle lt ctx rs = (d, rs1)" by force
  obtain es rs2 where es: "roll_many n lt ctx rs1 = (es, rs2)" by force
  from Suc.prems d es Suc.IH [OF es] rollSingle_sound [OF d] show ?case by (auto split: if_splits)
qed simp

lemma eligible_all:
  "customCond lt = None \<Longrightarrow> \<forall>e \<in> set es. RequiredLevel e \<le> 0 \<and> Chance e \<le> 0 \<Longrightarrow> eligible lt ctx es rs = (es, rs)"
  by (induction es) (simp_all add: entry_passes_def)

text \<open>In a table without conditions the first draw decides the item.\<close>

lemma rollSingle_plain:
  assumes "\<forall>e \<in> set es. 0 < Weight e \<and> RequiredLevel e \<le> 0 \<and> Chance e \<le> 0" and "es \<noteq> []"
    and "v < nat (sum_list (map Weight es))"
  shows "\<exists>e. pick (int v) 0 es = Some e \<and> drop_ItemID (fst (rollSingle (NewLootTable es chance) ctx (case_nat v rs))) = de_ItemID e"
proof -
  let ?w = "sum_list (map Weight es)"
  have w: "0 < ?w" using assms(3) by simp
  have "int v < ?w" using assms(3) by linarith
  then obtain e where e: "pick (int v) 0 es = Some e" using pick_total [of "int v" 0 es] assms(2) by auto
  have "eligible (NewLootTable es chance) ctx es (case_nat v rs) = (es, case_nat v rs)"
    using assms(1) by (intro eligible_all) (simp_all add: NewLootTable_def)
  then have "drop_ItemID (fst (rollSingle (NewLootTable es chance) ctx (case_nat v rs))) = de_ItemID e"
    using e w assms(2,3) by (simp add: rollSingle_def NewLootTable_def foldl_weight Intn_def Let_def split: prod.splits)
  with e show ?thesis by blast
qed

subsection \<open>Properties\<close>

text \<open>
  C36 The chance of an item is its share of the total weight: in a table of positive weights and different
  items without further conditions, exactly as many values of the draw select an item as its weight.
\<close>

theorem loot_weights:
  assumes "\<forall>e \<in> set es. 0 < Weight e \<and> RequiredLevel e \<le> 0 \<and> Chance e \<le> 0"
    and "distinct (map de_ItemID es)" and "i < length es"
  shows "card {v. v < nat (totalWeight (NewLootTable es chance)) \<and>
      drop_ItemID (fst (rollSingle (NewLootTable es chance) ctx (case_nat v rs))) = de_ItemID (es ! i)} = nat (Weight (es ! i))"
proof -
  let ?a = "\<lambda>k. nat (sum_list (map Weight (take k es)))"
  have pos: "0 \<le> sum_list (map Weight (take k es))" for k
    using assms(1) by (intro sum_list_nonneg) (auto dest!: in_set_takeD intro: less_imp_le)
  have dist: "distinct es" using assms(2) by (simp add: distinct_map)
  have tot: "totalWeight (NewLootTable es chance) = sum_list (map Weight es)" by (simp add: NewLootTable_def foldl_weight)
  have step: "sum_list (map Weight (take (Suc i) es)) = sum_list (map Weight (take i es)) + Weight (es ! i)"
    using assms(3) by (simp add: take_Suc_conv_app_nth)
  have split: "sum_list (map Weight es) = sum_list (map Weight (take (Suc i) es)) + sum_list (map Weight (drop (Suc i) es))"
    using append_take_drop_id [of "Suc i" es] by (metis map_append sum_list_append)
  have le: "sum_list (map Weight (take (Suc i) es)) \<le> sum_list (map Weight es)"
  proof -
    have "0 \<le> sum_list (map Weight (drop (Suc i) es))"
      using assms(1) by (intro sum_list_nonneg) (auto dest!: in_set_dropD intro: less_imp_le)
    with split show ?thesis by simp
  qed
  have "v < nat (sum_list (map Weight es)) \<and> drop_ItemID (fst (rollSingle (NewLootTable es chance) ctx (case_nat v rs))) = de_ItemID (es ! i)
      \<longleftrightarrow> ?a i \<le> v \<and> v < ?a (Suc i)" for v
  proof (cases "v < nat (sum_list (map Weight es))")
    case True
    have ne: "es \<noteq> []" using assms(3) by auto
    obtain e where e: "pick (int v) 0 es = Some e"
      and d: "drop_ItemID (fst (rollSingle (NewLootTable es chance) ctx (case_nat v rs))) = de_ItemID e"
      using rollSingle_plain [OF assms(1) ne True] by blast
    have "de_ItemID e = de_ItemID (es ! i) \<longleftrightarrow> e = es ! i"
      using assms(2,3) pick_some [OF e] by (auto simp: distinct_map dest: inj_onD)
    also have "\<dots> \<longleftrightarrow> pick (int v) 0 es = Some (es ! i)" using e by simp
    also have "\<dots> \<longleftrightarrow> sum_list (map Weight (take i es)) \<le> int v \<and> int v < sum_list (map Weight (take (Suc i) es))"
      using pick_interval [OF _ dist assms(3), of 0 "int v"] assms(1) by simp
    finally show ?thesis using True d pos [of i] by auto
  next
    case False
    with le show ?thesis by auto
  qed
  then have eq: "{v. v < nat (totalWeight (NewLootTable es chance)) \<and>
      drop_ItemID (fst (rollSingle (NewLootTable es chance) ctx (case_nat v rs))) = de_ItemID (es ! i)} = {?a i ..< ?a (Suc i)}"
    unfolding tot by (simp add: set_eq_iff)
  show ?thesis unfolding eq using step pos [of i] by (simp add: nat_diff_distrib')
qed

text \<open>In a table of two items with weights 400 and 200 the second has 200 of the 600 values.\<close>

theorem loot_weights_witness:
  "card {v. v < 600 \<and> drop_ItemID (fst (rollSingle (NewLootTable [drop_entry 101 400 1 1, drop_entry 202 200 1 1] 1000)
     \<lparr>KillerLevel = 1, KillerClass = 0, PartySize = 0, IsBoss = False, WorldLevel = 0\<rparr> (case_nat v (\<lambda>_. 0)))) = 202} = 200"
  using loot_weights [of "[drop_entry 101 400 1 1, drop_entry 202 200 1 1]" 1 1000
      "\<lparr>KillerLevel = 1, KillerClass = 0, PartySize = 0, IsBoss = False, WorldLevel = 0\<rparr>" "\<lambda>_. 0"]
  by (simp add: drop_entry_def NewLootTable_def)

text \<open>
  A roll drops at most three items, each from an entry of the table whose level and custom condition the
  context meets, in a quantity of the entry's range.
\<close>

theorem Roll_sound:
  assumes "Roll lt ctx rs = (ds, rs')"
  shows "length ds \<le> 3 \<and> (\<forall>d \<in> set ds. drop_ItemID d \<noteq> 0 \<and> (\<exists>e \<in> set (lt_entries lt). drop_ItemID d = de_ItemID e \<and>
     \<not> (RequiredLevel e > 0 \<and> KillerLevel ctx < RequiredLevel e) \<and> (\<forall>c. customCond lt = Some c \<longrightarrow> c e ctx) \<and>
     MinQty e \<le> Qty d \<and> Qty d \<le> max (MinQty e) (MaxQty e)))"
proof -
  have "\<exists>n rs1. n \<le> 3 \<and> (ds = [] \<or> roll_many n lt ctx rs1 = (ds, rs'))"
  proof -
    obtain miss rs1 where m: "(if baseChance lt < 1000 then (case Intn 1000 rs of (v, rs') \<Rightarrow> (v \<ge> baseChance lt, rs')) else (False, rs)) = (miss, rs1)"
      by force
    obtain n rs2 where n: "(if PartySize ctx > 0 then (case Intn (PartySize ctx) rs1 of (v, rs') \<Rightarrow> (1 + v, rs')) else (1, rs1)) = (n, rs2)"
      by force
    have "ds = [] \<or> roll_many (nat (if n > 3 then 3 else n)) lt ctx rs2 = (ds, rs')"
      using assms unfolding Roll_def m n by (auto simp: Let_def m n split: if_splits)
    moreover have "nat (if n > 3 then 3 else n) \<le> 3" by (auto simp: nat_le_iff)
    ultimately show ?thesis by blast
  qed
  then obtain n rs1 where n: "n \<le> 3" "ds = [] \<or> roll_many n lt ctx rs1 = (ds, rs')" by blast
  show ?thesis
  proof (cases "ds = []")
    case False
    with n have "roll_many n lt ctx rs1 = (ds, rs')" by simp
    from roll_many_sound [OF this] n(1) show ?thesis unfolding drop_from_def by fastforce
  qed simp
qed

theorem Roll_sound_witness:
  "length (fst (Roll (NewBossDrop [drop_entry 5 1 2 2] []) \<lparr>KillerLevel = 1, KillerClass = 0, PartySize = 9, IsBoss = True, WorldLevel = 0\<rparr> (\<lambda>_. 7))) \<le> 3"
  using Roll_sound by (metis surjective_pairing)

text \<open>The entry documented as a 70 percent chance always drops: with one entry its weight is the whole.\<close>

lemma slime_always_drops: "fst (RollLoot 1 rs) = [101]"
proof -
  let ?es = "[drop_entry 101 700 1 1]"
  let ?ctx = "\<lparr>KillerLevel = 1, KillerClass = 0, PartySize = 0, IsBoss = False, WorldLevel = 0\<rparr>"
  have "int (rs 0) mod 700 < 700" by simp
  then have "rollSingle (NewLootTable ?es 1000) ?ctx rs = (\<lparr>drop_ItemID = 101, Qty = 1\<rparr>, \<lambda>i. rs (Suc i))"
    by (simp add: rollSingle_def NewLootTable_def drop_entry_def entry_passes_def Intn_def quantity_def Let_def
        del: int_ops of_nat_mod)
  then show ?thesis
    by (simp add: RollLoot_def MonsterLootTables_def legacyDropToEntry_def drop_entry_def Roll_def NewLootTable_def Let_def)
qed

end
