(* ===== verification/Config.thy ===== *)
theory Config
  imports Prelude
begin

text \<open>
  \<open>server/peakgo/config/config.go\<close>: the tunable parameters and the manager that replaces them as a whole. The
  file system is a parameter (the contents of a path, if it can be read, with its modification time) and so is
  \<open>json.Unmarshal\<close>, which updates the given configuration and reports whether the text was well formed; it may
  have updated some fields when it reports an error. Durations are nanoseconds. The atomic pointer is the
  manager's current value.
\<close>

subsection \<open>Parameters\<close>

record GameConfig =
  Debug :: bool
  LogDir :: string
  LogMaxMB :: int
  MapBoundsMinX :: int
  MapBoundsMaxX :: int
  MapBoundsMinZ :: int
  MapBoundsMaxZ :: int
  MaxMoveDistance :: int
  ChunkSize :: int
  MeleeRange :: real
  CastRange :: real
  AggroRadius :: real
  LeashRadius :: int
  AttackCooldownMS :: int
  BroadcastAOIRadius :: real
  BFSMaxNodes :: int
  TickRateMS :: int
  TickRateDur :: int
  LogMetricsEvery :: int
  RateLimitMaxTokens :: int
  RateLimitRefillPerTick :: int
  DBSaveIntervalMS :: int
  RespawnDelayMS :: int
  GroundItemTTLMS :: int
  UnityExe :: string
  UnityProjectPath :: string
  UnityBuildOutput :: string
  UnityClientExe :: string

definition DefaultConfig :: GameConfig where
  "DefaultConfig = \<lparr>Debug = False, LogDir = ''logs'', LogMaxMB = 10,
     MapBoundsMinX = 0, MapBoundsMaxX = 1000, MapBoundsMinZ = 0, MapBoundsMaxZ = 1000,
     MaxMoveDistance = 2, ChunkSize = 10, MeleeRange = 5, CastRange = 6, AggroRadius = 12, LeashRadius = 20,
     AttackCooldownMS = 1000, BroadcastAOIRadius = 60, BFSMaxNodes = 400, TickRateMS = 250, TickRateDur = 0,
     LogMetricsEvery = 40, RateLimitMaxTokens = 60, RateLimitRefillPerTick = 2, DBSaveIntervalMS = 15000,
     RespawnDelayMS = 3000, GroundItemTTLMS = 60000, UnityExe = '''', UnityProjectPath = '''',
     UnityBuildOutput = '''', UnityClientExe = ''''\<rparr>"

subsection \<open>The manager\<close>

type_synonym files = "string \<Rightarrow> (string \<times> int) option"
type_synonym unmarshal = "string \<Rightarrow> GameConfig \<Rightarrow> bool \<times> GameConfig"

record ConfigManager =
  cm_config :: GameConfig
  cm_path :: string
  cm_modTime :: int

definition Millisecond :: int where "Millisecond = 1000000"

definition with_duration :: "GameConfig \<Rightarrow> GameConfig" where
  "with_duration cfg = cfg\<lparr>TickRateDur := TickRateMS cfg * Millisecond\<rparr>"

definition NewConfigManager :: "files \<Rightarrow> unmarshal \<Rightarrow> string \<Rightarrow> ConfigManager" where
  "NewConfigManager fs js path =
     (let cfg = (if path \<noteq> '''' then (case fs path of Some (text, t) \<Rightarrow> snd (js text DefaultConfig) | None \<Rightarrow> DefaultConfig)
                 else DefaultConfig)
      in \<lparr>cm_config = with_duration cfg, cm_path = path, cm_modTime = 0\<rparr>)"

definition cm_Get :: "ConfigManager \<Rightarrow> GameConfig" where "cm_Get cm = cm_config cm"

definition Reload :: "files \<Rightarrow> unmarshal \<Rightarrow> ConfigManager \<Rightarrow> bool \<times> ConfigManager" where
  "Reload fs js cm =
     (if cm_path cm = '''' then (True, cm)
      else case fs (cm_path cm) of
        None \<Rightarrow> (False, cm)
      | Some (text, t) \<Rightarrow> (case js text DefaultConfig of (ok, cfg) \<Rightarrow>
          if \<not> ok then (False, cm) else (True, cm\<lparr>cm_config := with_duration cfg\<rparr>)))"

text \<open>One tick of \<open>Watch\<close>.\<close>

definition watch_tick :: "files \<Rightarrow> unmarshal \<Rightarrow> ConfigManager \<Rightarrow> ConfigManager" where
  "watch_tick fs js cm =
     (if cm_path cm = '''' then cm
      else case fs (cm_path cm) of
        None \<Rightarrow> cm
      | Some (text, t) \<Rightarrow> if t > cm_modTime cm then snd (Reload fs js (cm\<lparr>cm_modTime := t\<rparr>)) else cm)"

definition config_C :: "ConfigManager option \<Rightarrow> GameConfig" where
  "config_C global = (case global of None \<Rightarrow> DefaultConfig | Some cm \<Rightarrow> cm_Get cm)"

definition InitConfig :: "files \<Rightarrow> unmarshal \<Rightarrow> string \<Rightarrow> ConfigManager option" where
  "InitConfig fs js path = Some (NewConfigManager fs js path)"

subsection \<open>What readers see\<close>

definition duration_ok :: "GameConfig \<Rightarrow> bool" where
  "duration_ok cfg \<longleftrightarrow> TickRateDur cfg = TickRateMS cfg * Millisecond"

lemma duration_ok_with [simp]: "duration_ok (with_duration cfg)"
  by (simp add: duration_ok_def with_duration_def)

lemma duration_ok_New: "duration_ok (cm_config (NewConfigManager fs js path))"
  by (simp add: NewConfigManager_def Let_def)

lemma Reload_ok: "duration_ok (cm_config cm) \<Longrightarrow> duration_ok (cm_config (snd (Reload fs js cm)))"
  by (auto simp: Reload_def split: option.splits prod.splits)

text \<open>A reload that fails keeps the configuration in force.\<close>

lemma Reload_failed: "Reload fs js cm = (False, cm') \<Longrightarrow> cm' = cm"
  by (auto simp: Reload_def split: option.splits prod.splits if_splits)

lemma watch_ok: "duration_ok (cm_config cm) \<Longrightarrow> duration_ok (cm_config (watch_tick fs js cm))"
  using Reload_ok [of "cm\<lparr>cm_modTime := t\<rparr>" fs js for t] by (auto simp: watch_tick_def split: option.splits)

lemma watch_path [simp]: "cm_path (watch_tick fs js cm) = cm_path cm"
  by (auto simp: watch_tick_def Reload_def split: option.splits prod.splits)

lemma watching_ok: "duration_ok (cm_config cm) \<Longrightarrow> duration_ok (cm_config (fold (\<lambda>fs cm. watch_tick fs js cm) fss cm))"
  by (induction fss arbitrary: cm) (simp_all add: watch_ok)

text \<open>Before \<open>InitConfig\<close> readers get the defaults, but without the computed duration.\<close>

lemma uninitialised_duration: "TickRateMS (config_C None) = 250" "TickRateDur (config_C None) = 0"
  by (simp_all add: config_C_def DefaultConfig_def)

end
