(* ===== verification/Float64.thy ===== *)
theory Float64
  imports Prelude
begin

text \<open>
  Go's \<open>float64\<close> quotient of two integers, as IEEE 754 defines it: the exact real is rounded to the nearest number with
  53 significant bits, ties to the even one. A quotient of two \<open>int64\<close> is 0 or between \<open>2^-64\<close> and \<open>2^64\<close> in
  magnitude, so subnormal numbers and infinities do not occur.
\<close>

subsection \<open>Rounding\<close>

definition round_even :: "real \<Rightarrow> int" where
  "round_even y =
     (let f = \<lfloor>y\<rfloor>
      in if y - real_of_int f < 1 / 2 then f else if y - real_of_int f > 1 / 2 then f + 1 else if even f then f else f + 1)"

definition binade :: "real \<Rightarrow> int" where
  "binade x = \<lfloor>log 2 x\<rfloor> - 52"

definition round_pos :: "real \<Rightarrow> real" where
  "round_pos x = real_of_int (round_even (x / 2 powr real_of_int (binade x))) * 2 powr real_of_int (binade x)"

definition fl64 :: "real \<Rightarrow> real" where
  "fl64 x = (if x = 0 then 0 else if x > 0 then round_pos x else - round_pos (- x))"

text \<open>\<open>float64(a) / float64(b)\<close>.\<close>

definition fl_quot :: "int \<Rightarrow> int \<Rightarrow> real" where
  "fl_quot a b = fl64 (fl64 (real_of_int a) / fl64 (real_of_int b))"

subsection \<open>Its laws\<close>

lemma round_even_near: "\<bar>real_of_int (round_even y) - y\<bar> \<le> 1 / 2"
  unfolding round_even_def Let_def by (simp; linarith)

lemma round_even_bounds: "\<lfloor>y\<rfloor> \<le> round_even y \<and> round_even y \<le> \<lfloor>y\<rfloor> + 1"
  by (simp add: round_even_def Let_def)

lemma round_even_mono:
  assumes "y \<le> z"
  shows "round_even y \<le> round_even z"
proof (cases "\<lfloor>y\<rfloor> = \<lfloor>z\<rfloor>")
  case True
  with assms show ?thesis by (simp add: round_even_def Let_def)
next
  case False
  with floor_mono [OF assms] have "\<lfloor>y\<rfloor> + 1 \<le> \<lfloor>z\<rfloor>" by simp
  with round_even_bounds [of y] round_even_bounds [of z] show ?thesis by linarith
qed

lemma round_even_int [simp]: "round_even (real_of_int n) = n"
  by (simp add: round_even_def Let_def)

lemma binade_range:
  assumes "0 < x"
  shows "2 ^ 52 \<le> x / 2 powr real_of_int (binade x)" and "x / 2 powr real_of_int (binade x) < 2 ^ 53"
proof -
  let ?l = "\<lfloor>log 2 x\<rfloor>"
  have p: "(2 :: real) powr ?l = 2 powr real_of_int (binade x) * 2 ^ 52"
    by (simp add: binade_def powr_diff powr_realpow [symmetric])
  have l: "real_of_int ?l \<le> log 2 x" "log 2 x < real_of_int ?l + 1" by linarith+
  have x: "2 powr (log 2 x) = x" using assms by simp
  have "2 powr real_of_int ?l \<le> x"
    using powr_mono [OF l(1), of 2] unfolding x by simp
  moreover have "x < 2 powr (real_of_int ?l + 1)"
    using powr_less_mono [OF l(2), of 2] unfolding x by simp
  ultimately have "2 powr real_of_int ?l \<le> x" and "x < 2 powr (real_of_int ?l + 1)" .
  with p show "2 ^ 52 \<le> x / 2 powr real_of_int (binade x)" and "x / 2 powr real_of_int (binade x) < 2 ^ 53"
    by (simp_all add: field_simps powr_add)
qed

lemma binade_mono: "0 < x \<Longrightarrow> x \<le> y \<Longrightarrow> binade x \<le> binade y"
  by (simp add: binade_def floor_mono)

lemma round_pos_bounds:
  assumes "0 < x"
  shows "2 powr real_of_int (binade x) * 2 ^ 52 \<le> round_pos x" and "round_pos x \<le> 2 powr real_of_int (binade x) * 2 ^ 53"
proof -
  let ?q = "x / 2 powr real_of_int (binade x)"
  have "round_even (real_of_int (2 ^ 52)) \<le> round_even ?q" "round_even ?q \<le> round_even (real_of_int (2 ^ 53))"
    using binade_range [OF assms] by (intro round_even_mono; simp)+
  then have "(2 :: real) ^ 52 \<le> real_of_int (round_even ?q)" "real_of_int (round_even ?q) \<le> 2 ^ 53"
    unfolding round_even_int by (metis of_int_le_iff of_int_numeral of_int_power)+
  then show "2 powr real_of_int (binade x) * 2 ^ 52 \<le> round_pos x" and "round_pos x \<le> 2 powr real_of_int (binade x) * 2 ^ 53"
    by (simp_all add: round_pos_def mult.commute)
qed

lemma round_pos_mono:
  assumes "0 < x" and "x \<le> y"
  shows "round_pos x \<le> round_pos y"
proof (cases "binade x = binade y")
  case True
  have "x / 2 powr real_of_int (binade y) \<le> y / 2 powr real_of_int (binade y)" using assms(2) by (simp add: divide_right_mono)
  then show ?thesis using round_even_mono by (simp add: round_pos_def True)
next
  case False
  with binade_mono [OF assms] have "real_of_int (binade x) + 1 \<le> real_of_int (binade y)" by linarith
  then have "(2 :: real) powr (real_of_int (binade x) + 1) \<le> 2 powr real_of_int (binade y)" by simp
  then have "2 powr real_of_int (binade x) * 2 ^ 53 \<le> 2 powr real_of_int (binade y) * (2 :: real) ^ 52" by (simp add: powr_add)
  with round_pos_bounds(2) [OF assms(1)] round_pos_bounds(1) [of y] assms show ?thesis by linarith
qed

lemma round_pos_error:
  assumes "0 < x"
  shows "\<bar>round_pos x - x\<bar> \<le> x / 2 ^ 53"
proof -
  let ?u = "2 powr real_of_int (binade x)" and ?q = "x / 2 powr real_of_int (binade x)"
  have u: "0 < ?u" by simp
  have x: "x = ?q * ?u" using u by simp
  have "round_pos x - x = real_of_int (round_even ?q) * ?u - ?q * ?u"
    using x by (simp add: round_pos_def)
  then have "\<bar>round_pos x - x\<bar> = \<bar>real_of_int (round_even ?q) - ?q\<bar> * ?u"
    using u by (simp only: left_diff_distrib [symmetric] abs_mult abs_of_pos)
  also have "\<dots> \<le> 1 / 2 * ?u" using round_even_near by (intro mult_right_mono) auto
  also have "\<dots> \<le> x / 2 ^ 53" using binade_range(1) [OF assms] by (simp add: field_simps)
  finally show ?thesis .
qed

lemma round_pos_pos: "0 < x \<Longrightarrow> 0 < round_pos x"
  using round_pos_bounds(1) [of x] by (smt (verit) mult_pos_pos powr_gt_zero zero_less_power)

lemma fl64_zero [simp]: "fl64 0 = 0"
  by (simp add: fl64_def)

lemma fl64_minus: "fl64 (- x) = - fl64 x"
  by (simp add: fl64_def)

lemma fl64_mono:
  assumes "x \<le> y"
  shows "fl64 x \<le> fl64 y"
  using assms round_pos_mono [of x y] round_pos_mono [of "- y" "- x"] round_pos_pos [of y] round_pos_pos [of "- x"]
  by (auto simp: fl64_def)

lemma fl64_error: "\<bar>fl64 x - x\<bar> \<le> \<bar>x\<bar> / 2 ^ 53"
proof (cases "x < 0")
  case True
  then have "\<bar>- round_pos (- x) - x\<bar> = \<bar>round_pos (- x) - (- x)\<bar>" by simp
  also have "\<dots> \<le> - x / 2 ^ 53" using True by (intro round_pos_error) simp
  finally show ?thesis using True by (simp add: fl64_def)
qed (use round_pos_error [of x] in \<open>auto simp: fl64_def\<close>)

text \<open>Integers of at most 53 bits are represented exactly.\<close>

lemma fl64_int:
  assumes "\<bar>n\<bar> \<le> 2 ^ 53"
  shows "fl64 (real_of_int n) = real_of_int n"
proof -
  have pos: "round_pos (real_of_int m) = real_of_int m" if m: "0 < m" "m \<le> 2 ^ 53" for m
  proof (cases "binade (real_of_int m) \<le> 0")
    case True
    then obtain k where k: "binade (real_of_int m) = - int k" by (metis minus_minus nonneg_int_cases neg_0_le_iff_le)
    have "real_of_int m / 2 powr real_of_int (binade (real_of_int m)) = real_of_int (m * 2 ^ k)"
      by (simp add: k powr_minus powr_realpow field_simps)
    then show ?thesis by (simp only: round_pos_def round_even_int) (simp add: k powr_minus powr_realpow)
  next
    case False
    have "real_of_int m \<le> 2 ^ 53" using m(2) by (metis of_int_le_iff of_int_numeral of_int_power)
    moreover have "(2 :: real) powr 1 \<le> 2 powr real_of_int (binade (real_of_int m))" using False by (intro powr_mono) auto
    then have "2 ^ 53 \<le> 2 powr real_of_int (binade (real_of_int m)) * (2 :: real) ^ 52" by simp
    moreover have "2 powr real_of_int (binade (real_of_int m)) * 2 ^ 52 \<le> real_of_int m"
      using binade_range(1) [of "real_of_int m"] m(1) by (simp add: field_simps)
    ultimately have "real_of_int m = 2 ^ 53 \<and> 2 powr real_of_int (binade (real_of_int m)) = (2 :: real)" by (simp; linarith)
    then have e: "real_of_int m = 2 ^ 53" "2 powr real_of_int (binade (real_of_int m)) = (2 :: real)" by blast+
    show ?thesis unfolding round_pos_def e(2) using e(1) round_even_int [of "2 ^ 52"] by simp
  qed
  show ?thesis
    using pos [of n] pos [of "- n"] assms by (cases n "0 :: int" rule: linorder_cases) (auto simp: fl64_def)
qed

lemma fl64_one [simp]: "fl64 1 = 1"
  using fl64_int [of 1] by simp

lemma fl_quot_small:
  "\<bar>a\<bar> \<le> 2 ^ 53 \<Longrightarrow> \<bar>b\<bar> \<le> 2 ^ 53 \<Longrightarrow> fl_quot a b = fl64 (real_of_int a / real_of_int b)"
  by (simp add: fl_quot_def fl64_int)

text \<open>Two different fractions between 0 and 1 with denominators up to \<open>2^25\<close> stay apart.\<close>

lemma fl64_apart:
  fixes x y :: real
  assumes x: "x = real_of_int a / real_of_int b" "0 < b" "b \<le> 2 ^ 25"
    and y: "y = real_of_int c / real_of_int d" "0 < d" "d \<le> 2 ^ 25"
    and range: "0 \<le> x" "x < y" "y \<le> 1"
  shows "fl64 x < fl64 y"
proof -
  have "0 < c * b - a * d"
    using range(2) x(2) y(2) unfolding x(1) y(1) by (simp add: divide_less_eq less_divide_eq field_simps flip: of_int_mult)
  then have "1 \<le> c * b - a * d" by simp
  then have "1 \<le> real_of_int (c * b - a * d)" by (metis of_int_1_le_iff)
  moreover have "y - x = real_of_int (c * b - a * d) / (real_of_int b * real_of_int d)"
    unfolding x(1) y(1) using x(2) y(2) by (simp add: diff_frac_eq)
  ultimately have "1 / (real_of_int b * real_of_int d) \<le> y - x"
    using x(2) y(2) by (simp add: divide_right_mono)
  moreover have "real_of_int b * real_of_int d \<le> 2 ^ 25 * 2 ^ 25"
  proof (rule mult_mono)
    show "real_of_int b \<le> 2 ^ 25" "real_of_int d \<le> 2 ^ 25"
      using x(3) y(3) by (metis of_int_le_iff of_int_numeral of_int_power)+
  qed (use y(2) in auto)
  then have "1 / 2 ^ 50 \<le> 1 / (real_of_int b * real_of_int d)"
    using x(2) y(2) by (intro divide_left_mono) auto
  ultimately have gap: "1 / 2 ^ 50 \<le> y - x" by linarith
  have "\<bar>x\<bar> / 2 ^ 53 \<le> 1 / 2 ^ 53" "\<bar>y\<bar> / 2 ^ 53 \<le> 1 / 2 ^ 53" using range by (auto intro: divide_right_mono)
  with fl64_error [of x] fl64_error [of y] have "fl64 x \<le> x + 1 / 2 ^ 53" "y - 1 / 2 ^ 53 \<le> fl64 y"
    by arith+
  with gap show ?thesis by (simp add: field_simps)
qed

end
