(* ===== verification/Aabb.thy ===== *)
theory Aabb
  imports Float64
begin

text \<open>
  \<open>server/peakgo/aabb/aabb.go\<close>: boxes, circles and rays on the (X, Z) grid. Coordinates are Go \<open>int\<close>s far below
  \<open>2^31\<close>, so the products do not overflow; the quotients of the ray test are those of \<open>float64\<close>.
\<close>

subsection \<open>Boxes\<close>

record Box =
  bMinX :: int
  bMinZ :: int
  bMaxX :: int
  bMaxZ :: int

definition NewBox :: "int \<Rightarrow> int \<Rightarrow> int \<Rightarrow> int \<Rightarrow> Box" where
  "NewBox x1 z1 x2 z2 =
     (let (x1, x2) = (if x1 > x2 then (x2, x1) else (x1, x2));
          (z1, z2) = (if z1 > z2 then (z2, z1) else (z1, z2))
      in \<lparr>bMinX = x1, bMinZ = z1, bMaxX = x2, bMaxZ = z2\<rparr>)"

definition NewBoxFromCenter :: "int \<Rightarrow> int \<Rightarrow> int \<Rightarrow> int \<Rightarrow> Box" where
  "NewBoxFromCenter cx cz halfX halfZ = \<lparr>bMinX = cx - halfX, bMinZ = cz - halfZ, bMaxX = cx + halfX, bMaxZ = cz + halfZ\<rparr>"

definition Width :: "Box \<Rightarrow> int" where "Width b = bMaxX b - bMinX b"

definition Depth :: "Box \<Rightarrow> int" where "Depth b = bMaxZ b - bMinZ b"

definition box_Contains :: "Box \<Rightarrow> int \<Rightarrow> int \<Rightarrow> bool" where
  "box_Contains b x z \<longleftrightarrow> x \<ge> bMinX b \<and> x \<le> bMaxX b \<and> z \<ge> bMinZ b \<and> z \<le> bMaxZ b"

definition ContainsBox :: "Box \<Rightarrow> Box \<Rightarrow> bool" where
  "ContainsBox b c \<longleftrightarrow> bMinX b \<le> bMinX c \<and> bMaxX b \<ge> bMaxX c \<and> bMinZ b \<le> bMinZ c \<and> bMaxZ b \<ge> bMaxZ c"

definition Overlaps :: "Box \<Rightarrow> Box \<Rightarrow> bool" where
  "Overlaps b c \<longleftrightarrow> bMinX b \<le> bMaxX c \<and> bMaxX b \<ge> bMinX c \<and> bMinZ b \<le> bMaxZ c \<and> bMaxZ b \<ge> bMinZ c"

definition min_int :: "int \<Rightarrow> int \<Rightarrow> int" where "min_int a b = (if a < b then a else b)"

definition max_int :: "int \<Rightarrow> int \<Rightarrow> int" where "max_int a b = (if a > b then a else b)"

definition clamp_int :: "int \<Rightarrow> int \<Rightarrow> int \<Rightarrow> int" where
  "clamp_int v lo hi = (if v < lo then lo else if v > hi then hi else v)"

definition Intersect :: "Box \<Rightarrow> Box \<Rightarrow> Box" where
  "Intersect b c = \<lparr>bMinX = max_int (bMinX b) (bMinX c), bMinZ = max_int (bMinZ b) (bMinZ c),
     bMaxX = min_int (bMaxX b) (bMaxX c), bMaxZ = min_int (bMaxZ b) (bMaxZ c)\<rparr>"

definition box_Union :: "Box \<Rightarrow> Box \<Rightarrow> Box" where
  "box_Union b c = \<lparr>bMinX = min_int (bMinX b) (bMinX c), bMinZ = min_int (bMinZ b) (bMinZ c),
     bMaxX = max_int (bMaxX b) (bMaxX c), bMaxZ = max_int (bMaxZ b) (bMaxZ c)\<rparr>"

definition box_Center :: "Box \<Rightarrow> int \<times> int" where
  "box_Center b = (go_div (bMinX b + bMaxX b) 2, go_div (bMinZ b + bMaxZ b) 2)"

definition Area :: "Box \<Rightarrow> int" where "Area b = Width b * Depth b"

subsection \<open>Circles\<close>

record Circle =
  cX :: int
  cZ :: int
  cRadius :: int

definition NewCircle :: "int \<Rightarrow> int \<Rightarrow> int \<Rightarrow> Circle" where
  "NewCircle cx cz r = \<lparr>cX = cx, cZ = cz, cRadius = r\<rparr>"

definition circle_Contains :: "Circle \<Rightarrow> int \<Rightarrow> int \<Rightarrow> bool" where
  "circle_Contains c x z \<longleftrightarrow> (let dx = x - cX c; dz = z - cZ c in dx * dx + dz * dz \<le> cRadius c * cRadius c)"

definition OverlapsBox :: "Circle \<Rightarrow> Box \<Rightarrow> bool" where
  "OverlapsBox c b \<longleftrightarrow>
     (let nx = clamp_int (cX c) (bMinX b) (bMaxX b); nz = clamp_int (cZ c) (bMinZ b) (bMaxZ b);
          dx = cX c - nx; dz = cZ c - nz
      in dx * dx + dz * dz \<le> cRadius c * cRadius c)"

definition BoundingBox :: "Circle \<Rightarrow> Box" where
  "BoundingBox c = \<lparr>bMinX = cX c - cRadius c, bMinZ = cZ c - cRadius c, bMaxX = cX c + cRadius c, bMaxZ = cZ c + cRadius c\<rparr>"

subsection \<open>Rays\<close>

record Ray =
  X1 :: int
  Z1 :: int
  X2 :: int
  Z2 :: int

definition NewRay :: "int \<Rightarrow> int \<Rightarrow> int \<Rightarrow> int \<Rightarrow> Ray" where
  "NewRay x1 z1 x2 z2 = \<lparr>X1 = x1, Z1 = z1, X2 = x2, Z2 = z2\<rparr>"

text \<open>
  One slab, over the quotient \<open>q\<close> of two integers; \<open>None\<close> is the early return of a parallel ray outside of it. The
  code's quotient is \<open>fl_quot\<close>, and \<open>exact_quot\<close> is what it stands for.
\<close>

definition slab :: "(int \<Rightarrow> int \<Rightarrow> real) \<Rightarrow> int \<Rightarrow> int \<Rightarrow> int \<Rightarrow> int \<Rightarrow> real \<times> real \<Rightarrow> (real \<times> real) option" where
  "slab q p d lo hi t = (case t of (tMin, tMax) \<Rightarrow>
     (if d \<noteq> 0 then
        let t1 = q (lo - p) d; t2 = q (hi - p) d;
            (t1, t2) = (if t1 > t2 then (t2, t1) else (t1, t2))
        in Some (if t1 > tMin then t1 else tMin, if t2 < tMax then t2 else tMax)
      else if p < lo \<or> p > hi then None else Some (tMin, tMax)))"

definition slabs :: "(int \<Rightarrow> int \<Rightarrow> real) \<Rightarrow> Ray \<Rightarrow> Box \<Rightarrow> (real \<times> real) option" where
  "slabs q r b =
     (case slab q (X1 r) (X2 r - X1 r) (bMinX b) (bMaxX b) (- (10 ^ 9), 10 ^ 9) of None \<Rightarrow> None
      | Some t \<Rightarrow> slab q (Z1 r) (Z2 r - Z1 r) (bMinZ b) (bMaxZ b) t)"

definition IntersectsBox :: "Ray \<Rightarrow> Box \<Rightarrow> bool" where
  "IntersectsBox r b = (case slabs fl_quot r b of None \<Rightarrow> False
     | Some (tMin, tMax) \<Rightarrow> tMin \<le> tMax \<and> tMax \<ge> 0 \<and> tMin \<le> 1)"

definition exact_quot :: "int \<Rightarrow> int \<Rightarrow> real" where
  "exact_quot a b = real_of_int a / real_of_int b"

subsection \<open>What they mean\<close>

definition valid_box :: "Box \<Rightarrow> bool" where
  "valid_box b \<longleftrightarrow> bMinX b \<le> bMaxX b \<and> bMinZ b \<le> bMaxZ b"

lemma min_max_int [simp]: "min_int a b = min a b" "max_int a b = max a b"
  by (simp_all add: min_int_def max_int_def)

lemma NewBox_valid: "valid_box (NewBox x1 z1 x2 z2)"
  by (simp add: valid_box_def NewBox_def)

lemma NewBox_corners: "box_Contains (NewBox x1 z1 x2 z2) x1 z1 \<and> box_Contains (NewBox x1 z1 x2 z2) x2 z2"
  by (simp add: box_Contains_def NewBox_def)

lemma Intersect_Contains: "box_Contains (Intersect b c) x z \<longleftrightarrow> box_Contains b x z \<and> box_Contains c x z"
  by (auto simp: box_Contains_def Intersect_def)

lemma valid_box_point: "valid_box b \<longleftrightarrow> (\<exists>x z. box_Contains b x z)"
  by (auto simp: valid_box_def box_Contains_def intro: exI [of _ "bMinX b"] exI [of _ "bMinZ b"])

lemma Overlaps_valid: "valid_box b \<Longrightarrow> valid_box c \<Longrightarrow> Overlaps b c \<longleftrightarrow> valid_box (Intersect b c)"
  by (auto simp: valid_box_def Overlaps_def Intersect_def)

lemma Overlaps_common:
  "valid_box b \<Longrightarrow> valid_box c \<Longrightarrow> Overlaps b c \<longleftrightarrow> (\<exists>x z. box_Contains b x z \<and> box_Contains c x z)"
  by (simp add: Overlaps_valid valid_box_point [of "Intersect b c"] Intersect_Contains)

lemma Union_least: "ContainsBox (box_Union b c) b \<and> ContainsBox (box_Union b c) c \<and>
    (ContainsBox d b \<and> ContainsBox d c \<longrightarrow> ContainsBox d (box_Union b c))"
  by (simp add: ContainsBox_def box_Union_def)

text \<open>The clamped point is the closest of the box.\<close>

lemma clamp_closest: "lo \<le> x \<Longrightarrow> x \<le> hi \<Longrightarrow> (v - clamp_int v lo hi) * (v - clamp_int v lo hi) \<le> (v - x) * (v - x)"
proof -
  assume x: "lo \<le> x" "x \<le> hi"
  have "\<bar>v - clamp_int v lo hi\<bar> \<le> \<bar>v - x\<bar>" using x by (simp add: clamp_int_def)
  then show ?thesis by (metis abs_mult_self_eq abs_ge_zero mult_mono)
qed

lemma OverlapsBox_common:
  assumes "valid_box b"
  shows "OverlapsBox c b \<longleftrightarrow> (\<exists>x z. box_Contains b x z \<and> circle_Contains c x z)"
proof
  let ?x = "clamp_int (cX c) (bMinX b) (bMaxX b)" and ?z = "clamp_int (cZ c) (bMinZ b) (bMaxZ b)"
  assume "OverlapsBox c b"
  then have "circle_Contains c ?x ?z" by (simp add: OverlapsBox_def circle_Contains_def Let_def algebra_simps)
  moreover have "box_Contains b ?x ?z" using assms by (simp add: box_Contains_def valid_box_def clamp_int_def)
  ultimately show "\<exists>x z. box_Contains b x z \<and> circle_Contains c x z" by blast
next
  assume "\<exists>x z. box_Contains b x z \<and> circle_Contains c x z"
  then obtain x z where p: "box_Contains b x z" "circle_Contains c x z" by blast
  have "(cX c - x) * (cX c - x) + (cZ c - z) * (cZ c - z) \<le> cRadius c * cRadius c"
    using p(2) by (simp add: circle_Contains_def Let_def algebra_simps)
  with p(1) clamp_closest [of "bMinX b" x "bMaxX b" "cX c"] clamp_closest [of "bMinZ b" z "bMaxZ b" "cZ c"]
  show "OverlapsBox c b" by (auto simp: box_Contains_def OverlapsBox_def Let_def)
qed

text \<open>One slab cuts the parameter interval down to the times at which the coordinate is inside.\<close>

definition inside :: "int \<Rightarrow> int \<Rightarrow> int \<Rightarrow> int \<Rightarrow> real \<Rightarrow> bool" where
  "inside p d lo hi t \<longleftrightarrow> real_of_int lo \<le> real_of_int p + t * real_of_int d \<and> real_of_int p + t * real_of_int d \<le> real_of_int hi"

lemma slab_None: "slab q p d lo hi (a, b) = None \<Longrightarrow> \<not> inside p d lo hi t"
  by (auto simp: slab_def inside_def Let_def split: if_splits)

lemma inside_interval:
  assumes "d \<noteq> 0"
  shows "inside p d lo hi t \<longleftrightarrow>
    (if 0 < d then real_of_int (lo - p) / d \<le> t \<and> t \<le> real_of_int (hi - p) / d
     else real_of_int (hi - p) / d \<le> t \<and> t \<le> real_of_int (lo - p) / d)"
  using assms by (auto simp: inside_def field_simps)

lemma slab_Some:
  assumes "slab exact_quot p d lo hi (a, b) = Some (a', b')" and "lo \<le> hi"
  shows "a' \<le> t \<and> t \<le> b' \<longleftrightarrow> a \<le> t \<and> t \<le> b \<and> inside p d lo hi t"
proof (cases "d = 0")
  case True
  with assms show ?thesis by (auto simp: slab_def inside_def split: if_splits)
next
  case False
  have le: "real_of_int (lo - p) \<le> real_of_int (hi - p)" using assms(2) by simp
  have ord: "if 0 < d then real_of_int (lo - p) / d \<le> real_of_int (hi - p) / d
      else real_of_int (hi - p) / d \<le> real_of_int (lo - p) / d"
    using le False by (simp add: divide_right_mono divide_right_mono_neg)
  show ?thesis
    using assms(1) False ord unfolding inside_interval [OF False]
    by (auto simp: slab_def exact_quot_def Let_def split: if_splits)
qed

lemma interval_meets: "(e \<le> f \<and> 0 \<le> f \<and> e \<le> 1) \<longleftrightarrow> (\<exists>t :: real. 0 \<le> t \<and> t \<le> 1 \<and> e \<le> t \<and> t \<le> f)"
proof
  assume "e \<le> f \<and> 0 \<le> f \<and> e \<le> 1"
  then show "\<exists>t. 0 \<le> t \<and> t \<le> 1 \<and> e \<le> t \<and> t \<le> f" by (intro exI [of _ "max 0 e"]) auto
qed auto

text \<open>The slab method over exact quotients.\<close>

lemma slabs_exact:
  assumes "valid_box b"
  shows "(case slabs exact_quot r b of None \<Rightarrow> False | Some (e, f) \<Rightarrow> e \<le> f \<and> f \<ge> 0 \<and> e \<le> 1) \<longleftrightarrow>
    (\<exists>t. 0 \<le> t \<and> t \<le> 1 \<and> inside (X1 r) (X2 r - X1 r) (bMinX b) (bMaxX b) t \<and> inside (Z1 r) (Z2 r - Z1 r) (bMinZ b) (bMaxZ b) t)"
proof (cases "slab exact_quot (X1 r) (X2 r - X1 r) (bMinX b) (bMaxX b) (- (10 ^ 9), 10 ^ 9)")
  case None
  then show ?thesis using slab_None by (auto simp: slabs_def)
next
  case (Some ab)
  have v: "bMinX b \<le> bMaxX b" "bMinZ b \<le> bMaxZ b" using assms by (auto simp: valid_box_def)
  obtain a c where ab: "ab = (a, c)" by force
  note X = slab_Some [OF Some [unfolded ab] v(1)]
  show ?thesis
  proof (cases "slab exact_quot (Z1 r) (Z2 r - Z1 r) (bMinZ b) (bMaxZ b) (a, c)")
    case None
    then show ?thesis using slab_None Some ab by (auto simp: slabs_def)
  next
    case (Some ef)
    obtain e f where ef: "ef = (e, f)" by force
    note Z = slab_Some [OF Some [unfolded ef] v(2)]
    have "slabs exact_quot r b = Some (e, f)"
      using Some \<open>slab _ _ _ _ _ (- (10 ^ 9), 10 ^ 9) = Some ab\<close> ab ef by (simp add: slabs_def)
    moreover have "0 \<le> t \<and> t \<le> 1 \<Longrightarrow> - (10 ^ 9) \<le> t \<and> t \<le> (10 :: real) ^ 9" for t by simp
    ultimately show ?thesis using X Z interval_meets [of e f] by (simp, blast)
  qed
qed

subsection \<open>Rounding changes nothing on the board\<close>

text \<open>
  The code's slabs are the rounded exact ones, because rounding is monotone; the numbers compared are fractions with
  denominators up to \<open>2^25\<close>, and these stay apart.
\<close>

definition fraction :: "real \<Rightarrow> bool" where
  "fraction x \<longleftrightarrow> (\<exists>a b. x = real_of_int a / real_of_int b \<and> 0 < b \<and> b \<le> 2 ^ 25)"

lemma fraction_quot: "\<bar>d\<bar> \<le> 2 ^ 25 \<Longrightarrow> d \<noteq> 0 \<Longrightarrow> fraction (exact_quot a d)"
proof (cases "0 < d")
  case True
  assume "\<bar>d\<bar> \<le> 2 ^ 25"
  with True show ?thesis unfolding fraction_def exact_quot_def by (intro exI [of _ a] exI [of _ d]) simp
next
  case False
  assume "\<bar>d\<bar> \<le> 2 ^ 25" "d \<noteq> 0"
  with False show ?thesis unfolding fraction_def exact_quot_def by (intro exI [of _ "- a"] exI [of _ "- d"]) simp
qed

lemma fraction_int: "fraction (real_of_int n)"
  unfolding fraction_def by (intro exI [of _ n] exI [of _ 1]) simp

lemma slab_rounded:
  assumes "\<bar>p\<bar> \<le> 2 ^ 24" "\<bar>lo\<bar> \<le> 2 ^ 24" "\<bar>hi\<bar> \<le> 2 ^ 24" "\<bar>d\<bar> \<le> 2 ^ 25"
  shows "slab fl_quot p d lo hi (fl64 u, fl64 v) = map_option (map_prod fl64 fl64) (slab exact_quot p d lo hi (u, v))"
proof -
  have q: "fl_quot (lo - p) d = fl64 (exact_quot (lo - p) d)" "fl_quot (hi - p) d = fl64 (exact_quot (hi - p) d)"
    using assms by (simp_all add: fl_quot_small exact_quot_def)
  have mm: "(if x > y then x else y) = max y x" "(if x < y then x else y) = min x y" for x y :: real by auto
  have ends: "fl64 (max x y) = max (fl64 x) (fl64 y)" "fl64 (min x y) = min (fl64 x) (fl64 y)" for x y
    using fl64_mono [of x y] fl64_mono [of y x] by (auto simp: max_def min_def)
  have swap: "(if x > y then (y, x) else (x, y)) = (min x y, max x y)" for x y :: real by auto
  show ?thesis by (simp add: slab_def Let_def q mm swap ends)
qed

lemma slab_fractions:
  assumes "slab exact_quot p d lo hi (u, v) = Some (u', v')" and "fraction u" "fraction v" and "\<bar>d\<bar> \<le> 2 ^ 25"
  shows "fraction u'" and "fraction v'"
  using assms fraction_quot [OF assms(4)] by (auto simp: slab_def Let_def split: if_splits)

lemma rounded_below:
  assumes "fraction x" and "fraction y" and "0 \<le> y" and "x \<le> 1"
  shows "fl64 x \<le> fl64 y \<longleftrightarrow> x \<le> y"
proof
  assume le: "fl64 x \<le> fl64 y"
  show "x \<le> y"
  proof (rule ccontr)
    assume "\<not> x \<le> y"
    then have lt: "y < x" by simp
    from assms(1,2) obtain a b c d where "x = real_of_int a / real_of_int b" "0 < b" "b \<le> 2 ^ 25"
      "y = real_of_int c / real_of_int d" "0 < d" "d \<le> 2 ^ 25" unfolding fraction_def by blast
    from fl64_apart [OF this(4-6) this(1-3) assms(3) lt assms(4)] le show False by simp
  qed
qed (rule fl64_mono)

lemma rounded_ends: "fraction x \<Longrightarrow> fl64 x \<le> 1 \<longleftrightarrow> x \<le> 1" "fl64 x \<ge> 0 \<longleftrightarrow> x \<ge> 0"
proof -
  show "fl64 x \<ge> 0 \<longleftrightarrow> x \<ge> 0"
    using fl64_mono [of 0 x] round_pos_pos [of "- x"] by (auto simp: fl64_def)
  assume "fraction x"
  then obtain a b where x: "x = real_of_int a / real_of_int b" "0 < b" "b \<le> 2 ^ 25" unfolding fraction_def by blast
  show "fl64 x \<le> 1 \<longleftrightarrow> x \<le> 1"
  proof
    assume le: "fl64 x \<le> 1"
    show "x \<le> 1"
    proof (rule ccontr)
      assume "\<not> x \<le> 1"
      then have "b < a" using x by (simp add: field_simps)
      then have "real_of_int b + 1 \<le> real_of_int a" by linarith
      then have "1 + 1 / real_of_int b \<le> x" using x by (simp add: field_simps)
      moreover have "real_of_int b \<le> 2 ^ 25" using x(3) by (metis of_int_le_iff of_int_numeral of_int_power)
      then have "1 / 2 ^ 25 \<le> 1 / real_of_int b" using x(2) by (intro divide_left_mono) auto
      ultimately have big: "1 + 1 / 2 ^ 25 \<le> x" by linarith
      have "\<bar>x\<bar> = x" using big by simp
      then have "x - x / 2 ^ 53 \<le> fl64 x" using fl64_error [of x] by (simp only: abs_le_iff) linarith
      moreover have "(1 + 1 / 2 ^ 25) * (1 - 1 / 2 ^ 53) \<le> x * (1 - 1 / 2 ^ 53)" using big by (intro mult_right_mono) auto
      ultimately show False using le by (simp add: algebra_simps)
    qed
  qed (use fl64_mono [of x 1] in simp)
qed

definition on_board :: "int \<Rightarrow> bool" where
  "on_board c \<longleftrightarrow> \<bar>c\<bar> \<le> 2 ^ 24"

lemma IntersectsBox_exact:
  assumes "on_board (X1 r)" "on_board (Z1 r)" "on_board (X2 r)" "on_board (Z2 r)"
    and "on_board (bMinX b)" "on_board (bMinZ b)" "on_board (bMaxX b)" "on_board (bMaxZ b)"
  shows "IntersectsBox r b \<longleftrightarrow>
    (case slabs exact_quot r b of None \<Rightarrow> False | Some (e, f) \<Rightarrow> e \<le> f \<and> f \<ge> 0 \<and> e \<le> 1)"
proof -
  have d: "\<bar>X2 r - X1 r\<bar> \<le> 2 ^ 25" "\<bar>Z2 r - Z1 r\<bar> \<le> 2 ^ 25" using assms(1-4) by (auto simp: on_board_def)
  have start: "fl64 (- (10 ^ 9)) = - (10 ^ 9)" "fl64 (10 ^ 9) = 10 ^ 9"
    using fl64_int [of "10 ^ 9"] fl64_minus [of "10 ^ 9"] by simp_all
  have X: "slab fl_quot (X1 r) (X2 r - X1 r) (bMinX b) (bMaxX b) (- (10 ^ 9), 10 ^ 9) =
      map_option (map_prod fl64 fl64) (slab exact_quot (X1 r) (X2 r - X1 r) (bMinX b) (bMaxX b) (- (10 ^ 9), 10 ^ 9))"
    using slab_rounded [OF _ _ _ d(1), of "X1 r" "bMinX b" "bMaxX b" "- (10 ^ 9)" "10 ^ 9"] assms
    unfolding start on_board_def by blast
  have Z: "slab fl_quot (Z1 r) (Z2 r - Z1 r) (bMinZ b) (bMaxZ b) (fl64 u, fl64 v) =
      map_option (map_prod fl64 fl64) (slab exact_quot (Z1 r) (Z2 r - Z1 r) (bMinZ b) (bMaxZ b) (u, v))" for u v
    using slab_rounded [OF _ _ _ d(2), of "Z1 r" "bMinZ b" "bMaxZ b"] assms unfolding on_board_def by blast
  have rounded: "slabs fl_quot r b = map_option (map_prod fl64 fl64) (slabs exact_quot r b)"
    unfolding slabs_def X by (auto simp: Z split: option.split)
  have fr: "fraction e \<and> fraction f" if "slabs exact_quot r b = Some (e, f)" for e f
    using that slab_fractions [OF _ _ _ d(1), of "X1 r" "bMinX b" "bMaxX b" "- (10 ^ 9)" "10 ^ 9"]
      slab_fractions [OF _ _ _ d(2), of "Z1 r" "bMinZ b" "bMaxZ b"] fraction_int [of "10 ^ 9"] fraction_int [of "- (10 ^ 9)"]
    by (fastforce simp: slabs_def split: option.splits)
  show ?thesis
  proof (cases "slabs exact_quot r b")
    case (Some ef)
    obtain e f where ef: "ef = (e, f)" by force
    with fr Some have F: "fraction e" "fraction f" by auto
    have "fl64 e \<le> fl64 f \<and> fl64 f \<ge> 0 \<and> fl64 e \<le> 1 \<longleftrightarrow> e \<le> f \<and> f \<ge> 0 \<and> e \<le> 1"
      using rounded_ends(1) [OF F(1)] rounded_ends(2) [of f] rounded_below [OF F] by blast
    then show ?thesis by (simp add: IntersectsBox_def rounded Some ef)
  qed (simp add: IntersectsBox_def rounded)
qed

subsection \<open>Properties\<close>

text \<open>
  The box and circle tests decide whether the areas have a common grid point, and the intersection of two
  boxes contains exactly the common points.
\<close>

theorem areas_overlap:
  assumes "valid_box b" and "valid_box d"
  shows "(Overlaps b d \<longleftrightarrow> (\<exists>x z. box_Contains b x z \<and> box_Contains d x z)) \<and>
    (OverlapsBox c b \<longleftrightarrow> (\<exists>x z. box_Contains b x z \<and> circle_Contains c x z)) \<and>
    (\<forall>x z. box_Contains (Intersect b d) x z \<longleftrightarrow> box_Contains b x z \<and> box_Contains d x z)"
  using Overlaps_common [OF assms] OverlapsBox_common [OF assms(1)] Intersect_Contains by blast

theorem areas_overlap_witness:
  "\<not> (\<exists>x z. box_Contains (NewBox 0 0 2 2) x z \<and> circle_Contains (NewCircle 5 6 4) x z)"
proof -
  have "\<not> OverlapsBox (NewCircle 5 6 4) (NewBox 0 0 2 2)"
    by (simp add: OverlapsBox_def NewCircle_def NewBox_def clamp_int_def)
  with areas_overlap [OF NewBox_valid NewBox_valid, of 0 0 2 2 0 0 2 2 "NewCircle 5 6 4"] show ?thesis by blast
qed

text \<open>
  C39 The slab method is correct in the arithmetic of the machine: with coordinates up to \<open>2^24\<close> in magnitude (the boards
  have 1001 cells a side) a ray meets a box exactly if some point of the segment lies in it, although the
  quotients are rounded.
\<close>

theorem ray_meets_box:
  assumes "valid_box b"
    and "on_board (X1 r)" "on_board (Z1 r)" "on_board (X2 r)" "on_board (Z2 r)"
    and "on_board (bMinX b)" "on_board (bMinZ b)" "on_board (bMaxX b)" "on_board (bMaxZ b)"
  shows "IntersectsBox r b \<longleftrightarrow> (\<exists>t :: real. 0 \<le> t \<and> t \<le> 1 \<and>
    real_of_int (bMinX b) \<le> X1 r + t * (X2 r - X1 r) \<and> X1 r + t * (X2 r - X1 r) \<le> real_of_int (bMaxX b) \<and>
    real_of_int (bMinZ b) \<le> Z1 r + t * (Z2 r - Z1 r) \<and> Z1 r + t * (Z2 r - Z1 r) \<le> real_of_int (bMaxZ b))"
  using slabs_exact [OF assms(1), of r] IntersectsBox_exact [OF assms(2-9)] by (simp add: inside_def)

theorem ray_meets_box_witness:
  "IntersectsBox (NewRay 0 0 4 4) (NewBox 1 1 3 3)"
proof -
  have "\<exists>t \<ge> 0. t \<le> 1 \<and> 1 \<le> t * 4 \<and> t * 4 \<le> (3 :: real) \<and> 1 \<le> t * 4 \<and> t * 4 \<le> 3" by (intro exI [of _ "1 / 2"]) simp
  then show ?thesis
    using ray_meets_box [OF NewBox_valid, of "NewRay 0 0 4 4" 1 1 3 3]
    by (simp add: NewRay_def NewBox_def on_board_def)
qed

text \<open>
  Beyond the bound rounding decides: the segment from the origin to \<open>(2^27 - 1, 2^27 - 2)\<close> passes a corner of this
  box at a distance that the two quotients no longer show.
\<close>

lemma half_binade: "1 / 2 \<le> x \<Longrightarrow> x < 1 \<Longrightarrow> binade x = - 53"
proof -
  assume x: "1 / 2 \<le> x" "x < 1"
  have "log 2 (1 / 2) \<le> log 2 x" using x by simp
  moreover have "log 2 (1 / 2) = - 1" by (simp add: log_divide)
  moreover have "log 2 x < 0" using x by simp
  ultimately have "\<lfloor>log 2 x\<rfloor> = - 1" by (intro floor_unique) auto
  then show ?thesis by (simp add: binade_def)
qed

lemma fl64_half:
  assumes "1 / 2 \<le> x" and "x < 1"
  shows "fl64 x = real_of_int (round_even (x * 2 ^ 53)) / 2 ^ 53"
proof -
  have u: "2 powr real_of_int (binade x) = (1 :: real) / 2 ^ 53"
    unfolding half_binade [OF assms] by (simp only: of_int_minus of_int_numeral powr_neg_numeral zero_less_numeral)
  have "fl64 x = round_pos x" using assms by (simp add: fl64_def)
  moreover have "x / (1 / 2 ^ 53) = x * 2 ^ 53" by simp
  ultimately show ?thesis unfolding round_pos_def u by (simp only: times_divide_eq_right mult_1_right)
qed

lemma quotients_collide: "fl_quot 134217726 134217727 = fl_quot 134217725 134217726"
proof -
  have "\<lfloor>134217726 / 134217727 * (2 :: real) ^ 53\<rfloor> = 9007199187632127" "\<lfloor>134217725 / 134217726 * (2 :: real) ^ 53\<rfloor> = 9007199187632126"
    by (intro floor_unique; simp)+
  then have "round_even (134217726 / 134217727 * 2 ^ 53) = round_even (134217725 / 134217726 * 2 ^ 53)"
    by (simp add: round_even_def Let_def)
  moreover have "fl64 (134217726 / 134217727) = real_of_int (round_even (134217726 / 134217727 * 2 ^ 53)) / 2 ^ 53"
    "fl64 (134217725 / 134217726) = real_of_int (round_even (134217725 / 134217726 * 2 ^ 53)) / 2 ^ 53"
    by (intro fl64_half; simp)+
  ultimately show ?thesis by (simp add: fl_quot_small)
qed

lemma rounded_corner:
  "IntersectsBox (NewRay 0 0 134217727 134217726) \<lparr>bMinX = 134217726, bMinZ = 0, bMaxX = 134217727, bMaxZ = 134217725\<rparr> \<and>
   \<not> (\<exists>t :: real. 134217726 \<le> t * 134217727 \<and> t * 134217726 \<le> 134217725)"
proof -
  let ?q = "fl_quot 134217725 134217726"
  have one: "fl_quot 134217727 134217727 = 1" "fl_quot 0 134217726 = 0" by (simp_all add: fl_quot_small)
  have q: "0 \<le> ?q" "?q \<le> 1"
    using fl64_mono [of 0 "134217725 / 134217726"] fl64_mono [of "134217725 / 134217726" 1] by (simp_all add: fl_quot_small)
  have "slabs fl_quot (NewRay 0 0 134217727 134217726) \<lparr>bMinX = 134217726, bMinZ = 0, bMaxX = 134217727, bMaxZ = 134217725\<rparr> =
      Some (?q, ?q)"
    using q by (simp add: slabs_def slab_def NewRay_def Let_def one quotients_collide)
  then have "IntersectsBox (NewRay 0 0 134217727 134217726) \<lparr>bMinX = 134217726, bMinZ = 0, bMaxX = 134217727, bMaxZ = 134217725\<rparr>"
    using q by (simp add: IntersectsBox_def)
  moreover have "\<not> (134217726 \<le> t * 134217727 \<and> t * 134217726 \<le> 134217725)" for t :: real by linarith
  ultimately show ?thesis by blast
qed

text \<open>The midpoint is documented as rounded towards the minimum; with negative coordinates it is not.\<close>

lemma Center_rounds_up: "box_Center (NewBox (- 2) 0 (- 1) 0) = (- 1, 0)"
  using go_div_neg [of 3 2] by (simp add: box_Center_def NewBox_def)

end
