(* ===== verification/Nav.thy ===== *)
theory Nav
  imports Config Astar Aabb
begin

text \<open>
  \<open>server/peakgo/nav/nav.go\<close> and \<open>server/world/map_collision.go\<close>: rectangular zones and portals over the A*
  search, the blocked tiles of the maps, and the boxes of entities. The zones are a Go map keyed by identifier;
  here they are an association list whose order is that of one iteration. Coordinates fit into 32 bits, so the
  conversions between \<open>int\<close> and \<open>int32\<close> change nothing.
\<close>

subsection \<open>Zones and portals\<close>

datatype ZoneType = ZoneNormal | ZoneSafe | ZoneDungeon | ZoneRestricted

record Zone =
  zone_ID :: int
  zone_MapID :: int
  zone_MinX :: int
  zone_MinZ :: int
  zone_MaxX :: int
  zone_MaxZ :: int
  zone_Type :: ZoneType
  LinkedZones :: "int list"

record Portal =
  portal_ID :: int
  SrcMapID :: int
  SrcX :: int
  SrcZ :: int
  DstMapID :: int
  DstX :: int
  DstZ :: int
  MinLevel :: int

record NavMesh =
  nm_zones :: "(int \<times> Zone) list"
  nm_portals :: "Portal list"
  nm_cache :: PathCache

definition NewNavMesh :: NavMesh where
  "NewNavMesh = \<lparr>nm_zones = [], nm_portals = [], nm_cache = NewPathCache\<rparr>"

definition RegisterZone :: "Zone \<Rightarrow> NavMesh \<Rightarrow> NavMesh" where
  "RegisterZone z nm = nm\<lparr>nm_zones := (if zone_ID z \<in> fst ` set (nm_zones nm)
     then map (\<lambda>(k, y). if k = zone_ID z then (k, z) else (k, y)) (nm_zones nm)
     else nm_zones nm @ [(zone_ID z, z)])\<rparr>"

definition RegisterPortal :: "Portal \<Rightarrow> NavMesh \<Rightarrow> NavMesh" where
  "RegisterPortal p nm = nm\<lparr>nm_portals := nm_portals nm @ [p]\<rparr>"

definition in_zone :: "int \<Rightarrow> int \<Rightarrow> int \<Rightarrow> Zone \<Rightarrow> bool" where
  "in_zone m x z zn \<longleftrightarrow> zone_MapID zn = m \<and> x \<ge> zone_MinX zn \<and> x \<le> zone_MaxX zn \<and> z \<ge> zone_MinZ zn \<and> z \<le> zone_MaxZ zn"

definition GetZoneAt :: "NavMesh \<Rightarrow> int \<Rightarrow> int \<Rightarrow> int \<Rightarrow> Zone option" where
  "GetZoneAt nm m x z = find (in_zone m x z) (map snd (nm_zones nm))"

definition nav_IsWalkable :: "GameConfig \<Rightarrow> NavMesh \<Rightarrow> int \<Rightarrow> int \<Rightarrow> int \<Rightarrow> bool" where
  "nav_IsWalkable cfg nm m x z =
     (case find (in_zone m x z) (map snd (nm_zones nm)) of
        Some zn \<Rightarrow> if zone_Type zn = ZoneSafe \<or> zone_Type zn = ZoneNormal \<or> zone_Type zn = ZoneDungeon then True else False
      | None \<Rightarrow> x \<ge> MapBoundsMinX cfg \<and> x \<le> MapBoundsMaxX cfg \<and> z \<ge> MapBoundsMinZ cfg \<and> z \<le> MapBoundsMaxZ cfg)"

definition nav_FindPath :: "GameConfig \<Rightarrow> NavMesh \<Rightarrow> Node list \<Rightarrow> int \<Rightarrow> int \<Rightarrow> int \<Rightarrow> int \<Rightarrow> int \<Rightarrow> PathResult" where
  "nav_FindPath cfg nm nodes m sx sz ex ez = FindPath sx sz ex ez (\<lambda>x z. nav_IsWalkable cfg nm m x z) (BFSMaxNodes cfg) nodes"

definition nav_FindPathWithCache :: "GameConfig \<Rightarrow> int \<Rightarrow> int \<Rightarrow> int \<Rightarrow> int \<Rightarrow> int \<Rightarrow> NavMesh \<Rightarrow> PathResult \<times> NavMesh" where
  "nav_FindPathWithCache cfg m sx sz ex ez nm =
     (case FindPathWithCache (nm_cache nm) sx sz ex ez (\<lambda>x z. nav_IsWalkable cfg nm m x z) (BFSMaxNodes cfg) of
        (p, pc) \<Rightarrow> (p, nm\<lparr>nm_cache := pc\<rparr>))"

text \<open>The loops over the portals keep the first one with the smallest squared distance.\<close>

fun nearest :: "(Portal \<Rightarrow> bool) \<Rightarrow> (Portal \<Rightarrow> int) \<Rightarrow> Portal list \<Rightarrow> Portal option \<Rightarrow> Portal option" where
  "nearest ok sqd [] best = best"
| "nearest ok sqd (p # ps) best = nearest ok sqd ps
     (if \<not> ok p then best else case best of None \<Rightarrow> Some p | Some b \<Rightarrow> if sqd p < sqd b then Some p else best)"

definition findNearestPortal :: "NavMesh \<Rightarrow> int \<Rightarrow> int \<Rightarrow> int \<Rightarrow> Portal option" where
  "findNearestPortal nm m x z = nearest (\<lambda>p. SrcMapID p = m)
     (\<lambda>p. let dx = SrcX p - x; dz = SrcZ p - z in dx * dx + dz * dz) (nm_portals nm) None"

definition findNearestPortalTo :: "NavMesh \<Rightarrow> int \<Rightarrow> int \<Rightarrow> int \<Rightarrow> Portal option" where
  "findNearestPortalTo nm m x z = nearest (\<lambda>p. DstMapID p = m)
     (\<lambda>p. let dx = DstX p - x; dz = DstZ p - z in dx * dx + dz * dz) (nm_portals nm) None"

definition MultiFloorPath :: "GameConfig \<Rightarrow> NavMesh \<Rightarrow> Node list \<Rightarrow> int \<Rightarrow> int \<Rightarrow> int \<Rightarrow> int \<Rightarrow> int \<Rightarrow> int \<Rightarrow> PathResult list" where
  "MultiFloorPath cfg nm nodes sx sz srcMap ex ez dstMap =
     (if srcMap = dstMap then [nav_FindPath cfg nm nodes srcMap sx sz ex ez]
      else case findNearestPortal nm srcMap sx sz of
        None \<Rightarrow> []
      | Some a \<Rightarrow> (case findNearestPortalTo nm dstMap ex ez of
          None \<Rightarrow> []
        | Some b \<Rightarrow> [nav_FindPath cfg nm nodes srcMap sx sz (SrcX a) (SrcZ a),
                      nav_FindPath cfg nm nodes dstMap (DstX b) (DstZ b) ex ez]))"

definition ResetCache :: "NavMesh \<Rightarrow> NavMesh" where
  "ResetCache nm = nm\<lparr>nm_cache := PathCache_Reset (nm_cache nm)\<rparr>"

definition ZoneCount :: "NavMesh \<Rightarrow> nat" where "ZoneCount nm = length (nm_zones nm)"

definition PortalCount :: "NavMesh \<Rightarrow> nat" where "PortalCount nm = length (nm_portals nm)"

subsection \<open>Blocked tiles\<close>

definition MapWidth :: int where "MapWidth = 101"
definition MapHeight :: int where "MapHeight = 101"

type_synonym MapCollisionGrid = "int \<Rightarrow> int \<Rightarrow> bool"

definition townGrid :: MapCollisionGrid where
  "townGrid x z \<longleftrightarrow> (10 \<le> x \<and> x \<le> 20 \<and> z = 15) \<or> (x = 50 \<and> z = 50) \<or> (x = 7 \<and> z = 6)"

definition ServerCollisionData :: "int \<rightharpoonup> MapCollisionGrid" where
  "ServerCollisionData = [1 \<mapsto> townGrid]"

definition IsTileBlocked :: "int \<Rightarrow> int \<Rightarrow> int \<Rightarrow> bool" where
  "IsTileBlocked m x z = (case ServerCollisionData m of
     None \<Rightarrow> False
   | Some grid \<Rightarrow> if x < 0 \<or> x \<ge> MapWidth \<or> z < 0 \<or> z \<ge> MapHeight then True else grid x z)"

definition IsWalkableForMap :: "int \<Rightarrow> IsWalkable" where
  "IsWalkableForMap m = (\<lambda>x z. \<not> IsTileBlocked m x z)"

definition InitNavMesh :: NavMesh where
  "InitNavMesh = RegisterZone \<lparr>zone_ID = 1, zone_MapID = 1, zone_MinX = 0, zone_MinZ = 0,
     zone_MaxX = MapWidth - 1, zone_MaxZ = MapHeight - 1, zone_Type = ZoneNormal, LinkedZones = []\<rparr> NewNavMesh"

subsection \<open>Entity boxes\<close>

type_synonym EntityCollider = "u64 \<rightharpoonup> Box"

definition NewEntityCollider :: EntityCollider where "NewEntityCollider = Map.empty"

definition SetEntityHitbox :: "u64 \<Rightarrow> int \<Rightarrow> int \<Rightarrow> int \<Rightarrow> int \<Rightarrow> EntityCollider \<Rightarrow> EntityCollider" where
  "SetEntityHitbox e cx cz w d ec = ec(e \<mapsto> \<lparr>bMinX = cx - w, bMinZ = cz - d, bMaxX = cx + w, bMaxZ = cz + d\<rparr>)"

definition RemoveEntityHitbox :: "u64 \<Rightarrow> EntityCollider \<Rightarrow> EntityCollider" where
  "RemoveEntityHitbox e ec = ec(e := None)"

definition CheckEntityCollision :: "EntityCollider \<Rightarrow> u64 \<Rightarrow> u64 \<Rightarrow> bool" where
  "CheckEntityCollision ec a b = (case (ec a, ec b) of (Some p, Some q) \<Rightarrow> Overlaps p q | _ \<Rightarrow> False)"

definition QueryEntitiesAtPoint :: "u64 list \<Rightarrow> EntityCollider \<Rightarrow> int \<Rightarrow> int \<Rightarrow> u64 list" where
  "QueryEntitiesAtPoint order ec x z = filter (\<lambda>e. case ec e of None \<Rightarrow> False
     | Some b \<Rightarrow> x \<ge> bMinX b \<and> x \<le> bMaxX b \<and> z \<ge> bMinZ b \<and> z \<le> bMaxZ b) order"

subsection \<open>Lemmas\<close>

lemma CheckEntityCollision_sym: "CheckEntityCollision ec a b = CheckEntityCollision ec b a"
  by (auto simp: CheckEntityCollision_def Overlaps_def split: option.splits)

lemma nearest_spec:
  assumes "nearest ok sqd ps best = r"
  shows "(r = None \<longleftrightarrow> best = None \<and> (\<forall>p \<in> set ps. \<not> ok p)) \<and>
    (\<forall>q. r = Some q \<longrightarrow> (q \<in> set ps \<and> ok q \<or> best = Some q) \<and> (\<forall>p \<in> set ps. ok p \<longrightarrow> sqd q \<le> sqd p) \<and>
       (\<forall>b. best = Some b \<longrightarrow> sqd q \<le> sqd b))"
  using assms
proof (induction ps arbitrary: best)
  case (Cons p ps)
  let ?best = "if \<not> ok p then best else case best of None \<Rightarrow> Some p | Some b \<Rightarrow> if sqd p < sqd b then Some p else best"
  from Cons.prems have "nearest ok sqd ps ?best = r" by simp
  note IH = Cons.IH [OF this]
  show ?case
  proof (cases "ok p")
    case False
    with IH show ?thesis by auto
  next
    case True
    show ?thesis
    proof (cases best)
      case None
      with True IH show ?thesis by auto
    next
      case (Some b)
      with True IH show ?thesis by (cases "sqd p < sqd b") fastforce+
    qed
  qed
qed auto

lemma nav_path_sound:
  assumes "cache_ok (nm_cache nm)" and "nav_FindPathWithCache cfg m sx sz ex ez nm = (p, nm')"
  shows "sound_result (\<lambda>x z. nav_IsWalkable cfg nm m x z) (sx, sz) (ex, ez) p"
  using assms findPath_sound_result [OF cache_ok_reset [OF assms(1)]]
  by (auto simp: nav_FindPathWithCache_def FindPathWithCache_def split: prod.splits) (metis fst_conv)

lemma nav_cache_ok:
  assumes "cache_ok (nm_cache nm)" and "nav_FindPathWithCache cfg m sx sz ex ez nm = (p, nm')"
  shows "cache_ok (nm_cache nm')"
  using assms(2) findPath_cache_ok [OF cache_ok_reset [OF assms(1)]]
  by (auto simp: nav_FindPathWithCache_def FindPathWithCache_def split: prod.splits) (metis snd_conv)

text \<open>
  The mesh of \<open>InitNavMesh\<close> calls every tile of map 1 walkable, walls included, although its comment says that
  blocked tiles are handled by the walkability function.
\<close>

lemma walls_are_walkable:
  "\<forall>x z. IsTileBlocked 1 x z \<and> 0 \<le> x \<and> x \<le> 100 \<and> 0 \<le> z \<and> z \<le> 100 \<longrightarrow> nav_IsWalkable cfg InitNavMesh 1 x z"
  "IsTileBlocked 1 12 15"
  by (auto simp: nav_IsWalkable_def InitNavMesh_def RegisterZone_def NewNavMesh_def in_zone_def MapWidth_def MapHeight_def
      IsTileBlocked_def ServerCollisionData_def townGrid_def)

text \<open>
  The chain of portals is documented as connected. With a portal from map 1 to map 2 and one from map 3 to
  map 4, the path from map 1 to map 4 ends at the first and continues at the second.
\<close>

lemma portals_not_connected:
  assumes "srcMap \<noteq> dstMap" and "findNearestPortal nm srcMap sx sz = Some a" and "findNearestPortalTo nm dstMap ex ez = Some b"
  shows "length (MultiFloorPath cfg nm nodes sx sz srcMap ex ez dstMap) = 2"
  using assms by (simp add: MultiFloorPath_def)

lemma portals_not_connected_example:
  "let nm = RegisterPortal \<lparr>portal_ID = 2, SrcMapID = 3, SrcX = 5, SrcZ = 5, DstMapID = 4, DstX = 6, DstZ = 6, MinLevel = 0\<rparr>
      (RegisterPortal \<lparr>portal_ID = 1, SrcMapID = 1, SrcX = 1, SrcZ = 1, DstMapID = 2, DstX = 2, DstZ = 2, MinLevel = 0\<rparr> NewNavMesh)
   in length (MultiFloorPath cfg nm nodes 0 0 1 9 9 4) = 2 \<and> (\<forall>p \<in> set (nm_portals nm). SrcMapID p = 1 \<longrightarrow> DstMapID p \<noteq> 4)"
  unfolding Let_def
  by (intro conjI portals_not_connected)
    (simp_all add: findNearestPortal_def findNearestPortalTo_def RegisterPortal_def NewNavMesh_def)

end
