(* ===== verification/Spatial_Grid.thy ===== *)
theory Spatial_Grid
  imports Ecs_Position "HOL-Library.AList"
begin

text \<open>
  \<open>server/peakgo/spatial/grid.go\<close>: the spatial hash. A bucket is a Go map; it is kept as an association
  list whose order stands for the iteration order, which Go leaves open, so that the results below speak
  of the set of hits and of their distinctness. Both locks are held over every operation. A radius is
  a \<open>float64\<close> in the code and an exact real here; the radii in use are small whole numbers, for which the
  quotient, the ceiling and the square are exact. \<open>math.Floor(x / 20)\<close> is \<open>x div 20\<close>.
\<close>

subsection \<open>State\<close>

definition cellSize :: int where
  "cellSize = 20"

record ChunkKey =
  ck_MapID :: int
  ck_X :: int
  ck_Z :: int

type_synonym bucket = "(entity \<times> PositionComponent) list"

record SpatialGrid =
  chunks :: "ChunkKey \<rightharpoonup> bucket"
  entityIndex :: "entity \<rightharpoonup> ChunkKey"

definition NewGrid :: SpatialGrid where
  "NewGrid = \<lparr>chunks = Map.empty, entityIndex = Map.empty\<rparr>"

definition WorldToChunk :: "PositionComponent \<Rightarrow> ChunkKey" where
  "WorldToChunk p = \<lparr>ck_MapID = MapID p, ck_X = PosX p div cellSize, ck_Z = PosZ p div cellSize\<rparr>"

subsection \<open>Operations\<close>

text \<open>Delete the entity from the bucket of \<open>k\<close>, and the bucket when it is empty.\<close>

definition leave_chunk :: "entity \<Rightarrow> ChunkKey \<Rightarrow> (ChunkKey \<rightharpoonup> bucket) \<Rightarrow> ChunkKey \<rightharpoonup> bucket" where
  "leave_chunk e k cs =
     (let b = AList.delete e (case cs k of None \<Rightarrow> [] | Some b \<Rightarrow> b)
      in if length b = 0 then cs(k := None) else cs(k \<mapsto> b))"

definition enter_chunk :: "entity \<Rightarrow> PositionComponent \<Rightarrow> ChunkKey \<Rightarrow> (ChunkKey \<rightharpoonup> bucket) \<Rightarrow> ChunkKey \<rightharpoonup> bucket" where
  "enter_chunk e p k cs = cs(k \<mapsto> AList.update e p (case cs k of None \<Rightarrow> [] | Some b \<Rightarrow> b))"

definition UpdateEntityPosition :: "entity \<Rightarrow> PositionComponent \<Rightarrow> SpatialGrid \<Rightarrow> SpatialGrid" where
  "UpdateEntityPosition e pos g =
     (let newChunk = WorldToChunk pos
      in case entityIndex g e of
           Some oldChunk \<Rightarrow>
             if oldChunk = newChunk then g\<lparr>chunks := enter_chunk e pos newChunk (chunks g)\<rparr>
             else g\<lparr>chunks := enter_chunk e pos newChunk (leave_chunk e oldChunk (chunks g)),
                    entityIndex := (entityIndex g)(e \<mapsto> newChunk)\<rparr>
         | None \<Rightarrow> g\<lparr>chunks := enter_chunk e pos newChunk (chunks g),
                     entityIndex := (entityIndex g)(e \<mapsto> newChunk)\<rparr>)"

definition grid_RemoveEntity :: "entity \<Rightarrow> SpatialGrid \<Rightarrow> SpatialGrid" where
  "grid_RemoveEntity e g =
     (case entityIndex g e of
        None \<Rightarrow> g
      | Some k \<Rightarrow> g\<lparr>chunks := leave_chunk e k (chunks g), entityIndex := (entityIndex g)(e := None)\<rparr>)"

definition hits :: "PositionComponent \<Rightarrow> real \<Rightarrow> entity \<Rightarrow> bucket \<Rightarrow> bucket" where
  "hits origin radius excl b =
     filter (\<lambda>(e, p). e \<noteq> excl \<and>
        real_of_int ((PosX p - PosX origin) * (PosX p - PosX origin)
          + (PosZ p - PosZ origin) * (PosZ p - PosZ origin)) \<le> radius * radius) b"

definition QueryRadius :: "SpatialGrid \<Rightarrow> PositionComponent \<Rightarrow> real \<Rightarrow> entity \<Rightarrow> bucket" where
  "QueryRadius g origin radius excl =
     (let r = \<lceil>radius / real_of_int cellSize\<rceil>; o_key = WorldToChunk origin
      in concat (map (\<lambda>dz. concat (map (\<lambda>dx.
           (case chunks g \<lparr>ck_MapID = ck_MapID o_key, ck_X = ck_X o_key + dx, ck_Z = ck_Z o_key + dz\<rparr> of
              None \<Rightarrow> [] | Some b \<Rightarrow> hits origin radius excl b)) [- r..r])) [- r..r]))"

definition QueryChunkByKey :: "SpatialGrid \<Rightarrow> ChunkKey \<Rightarrow> entity \<Rightarrow> bucket" where
  "QueryChunkByKey g k excl = filter (\<lambda>(e, p). e \<noteq> excl) (case chunks g k of None \<Rightarrow> [] | Some b \<Rightarrow> b)"

definition QueryChunk :: "SpatialGrid \<Rightarrow> PositionComponent \<Rightarrow> entity \<Rightarrow> bucket" where
  "QueryChunk g pos excl =
     filter (\<lambda>(e, p). e \<noteq> excl) (case chunks g (WorldToChunk pos) of None \<Rightarrow> [] | Some b \<Rightarrow> b)"

definition GetEntityChunk :: "SpatialGrid \<Rightarrow> entity \<Rightarrow> ChunkKey option" where
  "GetEntityChunk g e = entityIndex g e"

subsection \<open>The contract: a map from entities to positions\<close>

definition bucket_at :: "SpatialGrid \<Rightarrow> ChunkKey \<Rightarrow> bucket" where
  "bucket_at g k = (case chunks g k of None \<Rightarrow> [] | Some b \<Rightarrow> b)"

definition grid_of :: "SpatialGrid \<Rightarrow> entity \<rightharpoonup> PositionComponent" where
  "grid_of g e = (case entityIndex g e of None \<Rightarrow> None | Some k \<Rightarrow> map_of (bucket_at g k) e)"

definition grid_ok :: "SpatialGrid \<Rightarrow> bool" where
  "grid_ok g \<longleftrightarrow>
     (\<forall>k. chunks g k \<noteq> Some [] \<and> distinct (map fst (bucket_at g k)) \<and>
        (\<forall>(e, p) \<in> set (bucket_at g k). WorldToChunk p = k \<and> entityIndex g e = Some k)) \<and>
     (\<forall>e k. entityIndex g e = Some k \<longrightarrow> e \<in> fst ` set (bucket_at g k))"

lemma grid_ok_New: "grid_ok NewGrid" "grid_of NewGrid = Map.empty"
  by (auto simp: grid_ok_def NewGrid_def bucket_at_def grid_of_def fun_eq_iff)

lemma bucket_upd:
  "bucket_at (g\<lparr>chunks := cs, entityIndex := ix\<rparr>) k = (case cs k of None \<Rightarrow> [] | Some b \<Rightarrow> b)"
  "bucket_at (g\<lparr>chunks := cs\<rparr>) k = (case cs k of None \<Rightarrow> [] | Some b \<Rightarrow> b)"
  by (simp_all add: bucket_at_def)

lemma leave_bucket:
  "(case leave_chunk e k cs j of None \<Rightarrow> [] | Some b \<Rightarrow> b) =
   (if j = k then AList.delete e (case cs k of None \<Rightarrow> [] | Some b \<Rightarrow> b) else (case cs j of None \<Rightarrow> [] | Some b \<Rightarrow> b))"
  by (auto simp: leave_chunk_def Let_def)

lemma leave_nonempty: "(\<And>j. cs j \<noteq> Some []) \<Longrightarrow> leave_chunk e k cs j \<noteq> Some []"
  by (auto simp: leave_chunk_def Let_def)

lemma enter_bucket:
  "(case enter_chunk e p k cs j of None \<Rightarrow> [] | Some b \<Rightarrow> b) =
   (if j = k then AList.update e p (case cs k of None \<Rightarrow> [] | Some b \<Rightarrow> b) else (case cs j of None \<Rightarrow> [] | Some b \<Rightarrow> b))"
  by (auto simp: enter_chunk_def)

lemma update_not_Nil [simp]: "AList.update e p b \<noteq> []"
  by (cases b) auto

lemma enter_nonempty: "(\<And>j. cs j \<noteq> Some []) \<Longrightarrow> enter_chunk e p k cs j \<noteq> Some []"
  by (auto simp: enter_chunk_def)

lemma set_update_alist:
  "distinct (map fst b) \<Longrightarrow> set (AList.update e p b) = insert (e, p) {x \<in> set b. fst x \<noteq> e}"
  by (induction b) force+

lemma set_delete_alist: "set (AList.delete e b) = {x \<in> set b. fst x \<noteq> e}"
  by (auto simp: AList.delete_eq)

text \<open>Removal, also the first half of a move between chunks.\<close>

lemma leave_ok:
  assumes ok: "grid_ok g" and k: "entityIndex g e = Some k"
  defines "g' \<equiv> g\<lparr>chunks := leave_chunk e k (chunks g), entityIndex := (entityIndex g)(e := None)\<rparr>"
  shows "grid_ok g' \<and> grid_of g' = (grid_of g)(e := None)"
proof
  have b': "bucket_at g' j = (if j = k then AList.delete e (bucket_at g k) else bucket_at g j)" for j
    by (simp add: g'_def bucket_upd leave_bucket) (simp add: bucket_at_def)
  have ix: "entityIndex g' = (entityIndex g)(e := None)" by (simp add: g'_def)
  have home: "entityIndex g x = Some j" if "(x, p) \<in> set (bucket_at g j)" for x p j
    using ok that by (auto simp: grid_ok_def)
  show "grid_ok g'"
    unfolding grid_ok_def
  proof (intro conjI allI impI)
    fix j
    show "chunks g' j \<noteq> Some []" using ok by (auto simp: g'_def grid_ok_def intro!: leave_nonempty)
    show "distinct (map fst (bucket_at g' j))"
      using ok by (auto simp: b' grid_ok_def distinct_delete)
    show "\<forall>(x, p) \<in> set (bucket_at g' j). WorldToChunk p = j \<and> entityIndex g' x = Some j"
    proof clarify
      fix x p assume "(x, p) \<in> set (bucket_at g' j)"
      then have x: "(x, p) \<in> set (bucket_at g j)" "j = k \<Longrightarrow> x \<noteq> e"
        by (auto simp: b' set_delete_alist split: if_splits)
      with home k have "x \<noteq> e" by fastforce
      with x(1) home ok show "WorldToChunk p = j \<and> entityIndex g' x = Some j"
        by (auto simp: ix grid_ok_def)
    qed
  next
    fix x j assume "entityIndex g' x = Some j"
    then have "x \<noteq> e" "entityIndex g x = Some j" by (auto simp: ix split: if_splits)
    moreover from this(2) ok have "x \<in> fst ` set (bucket_at g j)" by (auto simp: grid_ok_def)
    ultimately show "x \<in> fst ` set (bucket_at g' j)"
      by (auto simp: b' set_delete_alist)
  qed
  show "grid_of g' = (grid_of g)(e := None)"
  proof (rule ext)
    fix x
    show "grid_of g' x = ((grid_of g)(e := None)) x"
      unfolding grid_of_def b' ix by (auto simp: delete_conv' split: option.split)
  qed
qed

lemma enter_ok:
  assumes ok: "grid_ok g" and new: "entityIndex g e = None \<or> entityIndex g e = Some (WorldToChunk p)"
  defines "g' \<equiv> g\<lparr>chunks := enter_chunk e p (WorldToChunk p) (chunks g),
                   entityIndex := (entityIndex g)(e \<mapsto> WorldToChunk p)\<rparr>"
  shows "grid_ok g' \<and> grid_of g' = (grid_of g)(e \<mapsto> p)"
proof
  let ?k = "WorldToChunk p"
  have b': "bucket_at g' j = (if j = ?k then AList.update e p (bucket_at g ?k) else bucket_at g j)" for j
    by (simp add: g'_def bucket_upd enter_bucket) (simp add: bucket_at_def)
  have ix: "entityIndex g' = (entityIndex g)(e \<mapsto> ?k)" by (simp add: g'_def)
  have d: "distinct (map fst (bucket_at g j))" for j using ok by (auto simp: grid_ok_def)
  have home: "entityIndex g x = Some j \<and> WorldToChunk q = j" if "(x, q) \<in> set (bucket_at g j)" for x q j
    using ok that by (auto simp: grid_ok_def)
  show "grid_ok g'"
    unfolding grid_ok_def
  proof (intro conjI allI impI)
    fix j
    show "chunks g' j \<noteq> Some []" using ok by (auto simp: g'_def grid_ok_def intro!: enter_nonempty)
    show "distinct (map fst (bucket_at g' j))" using d by (auto simp: b' distinct_update)
    show "\<forall>(x, q) \<in> set (bucket_at g' j). WorldToChunk q = j \<and> entityIndex g' x = Some j"
    proof clarify
      fix x q assume x: "(x, q) \<in> set (bucket_at g' j)"
      show "WorldToChunk q = j \<and> entityIndex g' x = Some j"
      proof (cases "x = e")
        case True
        have "j = ?k"
        proof (rule ccontr)
          assume "j \<noteq> ?k"
          with x True have "(e, q) \<in> set (bucket_at g j)" by (simp add: b')
          with home new \<open>j \<noteq> ?k\<close> show False by fastforce
        qed
        with x True set_update_alist [OF d, of e p ?k] show ?thesis by (auto simp: b' ix)
      next
        case False
        with x set_update_alist [OF d, of e p ?k] have "(x, q) \<in> set (bucket_at g j)"
          by (auto simp: b' split: if_splits)
        with home False show ?thesis by (auto simp: ix)
      qed
    qed
  next
    fix x j assume a: "entityIndex g' x = Some j"
    show "x \<in> fst ` set (bucket_at g' j)"
    proof (cases "x = e")
      case True
      with a have "j = ?k" by (simp add: ix)
      with True set_update_alist [OF d, of e p ?k] show ?thesis by (auto simp: b' image_iff)
    next
      case False
      with a ok have "x \<in> fst ` set (bucket_at g j)" by (auto simp: ix grid_ok_def)
      with False set_update_alist [OF d, of e p j] show ?thesis by (auto simp: b' image_iff)
    qed
  qed
  show "grid_of g' = (grid_of g)(e \<mapsto> p)"
  proof (rule ext)
    fix x
    show "grid_of g' x = ((grid_of g)(e \<mapsto> p)) x"
      unfolding grid_of_def b' ix by (auto simp: update_conv' split: option.split)
  qed
qed

lemma UpdateEntityPosition_refines:
  assumes ok: "grid_ok g"
  shows "grid_ok (UpdateEntityPosition e p g)" and "grid_of (UpdateEntityPosition e p g) = (grid_of g)(e \<mapsto> p)"
proof -
  have "grid_ok (UpdateEntityPosition e p g) \<and> grid_of (UpdateEntityPosition e p g) = (grid_of g)(e \<mapsto> p)"
  proof (cases "entityIndex g e")
    case None
    with enter_ok [OF ok, of e p] show ?thesis by (simp add: UpdateEntityPosition_def Let_def)
  next
    case (Some k)
    show ?thesis
    proof (cases "k = WorldToChunk p")
      case True
      have "g\<lparr>chunks := enter_chunk e p k (chunks g)\<rparr> =
          g\<lparr>chunks := enter_chunk e p k (chunks g), entityIndex := (entityIndex g)(e \<mapsto> k)\<rparr>"
        using Some by (cases g) (auto simp: fun_upd_idem)
      with enter_ok [OF ok, of e p] True Some show ?thesis by (simp add: UpdateEntityPosition_def Let_def)
    next
      case False
      let ?g1 = "g\<lparr>chunks := leave_chunk e k (chunks g), entityIndex := (entityIndex g)(e := None)\<rparr>"
      from leave_ok [OF ok Some] have l: "grid_ok ?g1" "grid_of ?g1 = (grid_of g)(e := None)" by auto
      have "UpdateEntityPosition e p g =
          ?g1\<lparr>chunks := enter_chunk e p (WorldToChunk p) (chunks ?g1),
              entityIndex := (entityIndex ?g1)(e \<mapsto> WorldToChunk p)\<rparr>"
        using Some False by (simp add: UpdateEntityPosition_def Let_def)
      with enter_ok [OF l(1), of e p] l(2) show ?thesis by simp
    qed
  qed
  then show "grid_ok (UpdateEntityPosition e p g)"
    and "grid_of (UpdateEntityPosition e p g) = (grid_of g)(e \<mapsto> p)" by auto
qed

lemma grid_RemoveEntity_refines:
  assumes ok: "grid_ok g"
  shows "grid_ok (grid_RemoveEntity e g)" and "grid_of (grid_RemoveEntity e g) = (grid_of g)(e := None)"
  using leave_ok [OF ok] ok
  by (cases "entityIndex g e"; force simp: grid_RemoveEntity_def grid_of_def fun_eq_iff)+

subsection \<open>Queries\<close>

definition in_radius :: "PositionComponent \<Rightarrow> real \<Rightarrow> PositionComponent \<Rightarrow> bool" where
  "in_radius origin radius p \<longleftrightarrow> real_of_int (pos_dist p origin) \<le> radius * radius"

lemma set_hits: "(e, p) \<in> set (hits origin radius excl b) \<longleftrightarrow> (e, p) \<in> set b \<and> e \<noteq> excl \<and> in_radius origin radius p"
  by (simp add: hits_def in_radius_def pos_dist_def DistanceSq_def Let_def)

lemma bucket_member:
  assumes "grid_ok g"
  shows "(e, p) \<in> set (bucket_at g k) \<longleftrightarrow> grid_of g e = Some p \<and> WorldToChunk p = k"
proof
  assume m: "(e, p) \<in> set (bucket_at g k)"
  with assms have "entityIndex g e = Some k" "WorldToChunk p = k" "distinct (map fst (bucket_at g k))"
    by (auto simp: grid_ok_def)
  with m show "grid_of g e = Some p \<and> WorldToChunk p = k" by (simp add: grid_of_def)
next
  assume "grid_of g e = Some p \<and> WorldToChunk p = k"
  then obtain j where j: "(e, p) \<in> set (bucket_at g j)" "WorldToChunk p = k"
    by (auto simp: grid_of_def split: option.splits dest: map_of_SomeD)
  with assms show "(e, p) \<in> set (bucket_at g k)" by (auto simp: grid_ok_def)
qed

text \<open>The cells the two loops visit contain every cell within the radius.\<close>

lemma cell_reach:
  fixes a b :: int
  assumes "0 \<le> radius" and "real_of_int ((b - a) * (b - a)) \<le> radius * radius"
  shows "b div 20 - a div 20 \<in> {- \<lceil>radius / 20\<rceil> .. \<lceil>radius / 20\<rceil>}"
proof -
  let ?R = "\<lceil>radius / 20\<rceil>"
  have "\<bar>real_of_int (b - a)\<bar> \<le> radius"
  proof -
    have "(real_of_int (b - a))\<^sup>2 \<le> radius\<^sup>2"
      using assms(2) by (simp only: power2_eq_square of_int_mult)
    then have "\<bar>real_of_int (b - a)\<bar> \<le> \<bar>radius\<bar>" by (simp only: abs_le_square_iff)
    with assms(1) show ?thesis by simp
  qed
  moreover have "radius / 20 \<le> real_of_int ?R" by (rule le_of_int_ceiling)
  then have "radius \<le> 20 * real_of_int ?R" by linarith
  ultimately have "real_of_int \<bar>b - a\<bar> \<le> real_of_int (20 * ?R)" by simp
  then have d: "\<bar>b - a\<bar> \<le> 20 * ?R" by (simp only: of_int_le_iff)
  have "b div 20 \<le> (a + 20 * ?R) div 20" using d by (intro zdiv_mono1) auto
  moreover have "(a - 20 * ?R) div 20 \<le> b div 20" using d by (intro zdiv_mono1) auto
  moreover have "(a + 20 * ?R) div 20 = a div 20 + ?R" by simp
  moreover have "(a - 20 * ?R) div 20 = a div 20 - ?R"
    using div_mult_self1 [of 20 a "- ?R"] by simp
  ultimately show ?thesis by simp
qed

definition query_cells :: "PositionComponent \<Rightarrow> real \<Rightarrow> ChunkKey list" where
  "query_cells origin radius =
     (let r = \<lceil>radius / 20\<rceil>; k = WorldToChunk origin
      in concat (map (\<lambda>dz. map (\<lambda>dx. \<lparr>ck_MapID = ck_MapID k, ck_X = ck_X k + dx, ck_Z = ck_Z k + dz\<rparr>) [- r..r]) [- r..r]))"

lemma concat_map_concat: "concat (map f (concat (map h xs))) = concat (map (\<lambda>x. concat (map f (h x))) xs)"
  by (induction xs) auto

lemma hits_bucket:
  "hits origin radius excl (bucket_at g k) = (case chunks g k of None \<Rightarrow> [] | Some b \<Rightarrow> hits origin radius excl b)"
  by (simp add: bucket_at_def hits_def split: option.split)

lemma QueryRadius_cells:
  "QueryRadius g origin radius excl =
     concat (map (\<lambda>k. hits origin radius excl (bucket_at g k)) (query_cells origin radius))"
  unfolding query_cells_def Let_def concat_map_concat map_map comp_def
  by (simp add: QueryRadius_def Let_def cellSize_def hits_bucket)

lemma distinct_query_cells: "distinct (query_cells origin radius)"
  unfolding query_cells_def Let_def
  by (rule distinct_concat) (auto simp: distinct_map inj_on_def)

lemma grid_cell_mem:
  "dx \<in> set xs \<Longrightarrow> dz \<in> set zs \<Longrightarrow> f dx dz \<in> set (concat (map (\<lambda>dz. map (\<lambda>dx. f dx dz) xs) zs))"
  by auto

lemma query_cells_cover:
  assumes "0 \<le> radius" and "in_radius origin radius p" and "MapID p = MapID origin"
  shows "WorldToChunk p \<in> set (query_cells origin radius)"
proof -
  have "real_of_int ((PosX p - PosX origin) * (PosX p - PosX origin)) \<le> radius * radius"
    and "real_of_int ((PosZ p - PosZ origin) * (PosZ p - PosZ origin)) \<le> radius * radius"
    using assms(2) DistanceSq_axis(1) [of "PosX p" "PosX origin" "PosZ p" "PosZ origin"]
      DistanceSq_axis(2) [of "PosZ p" "PosZ origin" "PosX p" "PosX origin"]
    unfolding in_radius_def pos_dist_def by (meson of_int_le_iff order_trans)+
  from cell_reach [OF assms(1) this(1)] cell_reach [OF assms(1) this(2)] have
    dx: "PosX p div 20 - PosX origin div 20 \<in> set [- \<lceil>radius / 20\<rceil>..\<lceil>radius / 20\<rceil>]" and
    dz: "PosZ p div 20 - PosZ origin div 20 \<in> set [- \<lceil>radius / 20\<rceil>..\<lceil>radius / 20\<rceil>]" by simp_all
  have "WorldToChunk p = \<lparr>ck_MapID = ck_MapID (WorldToChunk origin),
      ck_X = ck_X (WorldToChunk origin) + (PosX p div 20 - PosX origin div 20),
      ck_Z = ck_Z (WorldToChunk origin) + (PosZ p div 20 - PosZ origin div 20)\<rparr>"
    using assms(3) by (simp add: WorldToChunk_def cellSize_def)
  then show ?thesis
    unfolding query_cells_def Let_def
    using grid_cell_mem [OF dx dz, of "\<lambda>dx dz. \<lparr>ck_MapID = ck_MapID (WorldToChunk origin),
        ck_X = ck_X (WorldToChunk origin) + dx, ck_Z = ck_Z (WorldToChunk origin) + dz\<rparr>"] by simp
qed

lemma query_cells_map: "k \<in> set (query_cells origin radius) \<Longrightarrow> ck_MapID k = MapID origin"
  by (auto simp: query_cells_def Let_def WorldToChunk_def)

lemma QueryRadius_set:
  assumes "grid_ok g" and "0 \<le> radius"
  shows "(e, p) \<in> set (QueryRadius g origin radius excl) \<longleftrightarrow>
     grid_of g e = Some p \<and> e \<noteq> excl \<and> MapID p = MapID origin \<and> in_radius origin radius p"
proof -
  have "(e, p) \<in> set (QueryRadius g origin radius excl) \<longleftrightarrow>
      (\<exists>k \<in> set (query_cells origin radius). grid_of g e = Some p \<and> WorldToChunk p = k \<and> e \<noteq> excl \<and> in_radius origin radius p)"
    unfolding QueryRadius_cells using bucket_member [OF assms(1)] by (auto simp: set_hits)
  also have "\<dots> \<longleftrightarrow> grid_of g e = Some p \<and> e \<noteq> excl \<and> MapID p = MapID origin \<and> in_radius origin radius p"
    using query_cells_cover [OF assms(2), of origin p] query_cells_map [of "WorldToChunk p" origin radius]
    by (auto simp: WorldToChunk_def)
  finally show ?thesis .
qed

lemma QueryRadius_distinct:
  assumes ok: "grid_ok g"
  shows "distinct (map fst (QueryRadius g origin radius excl))"
proof -
  have one: "distinct (map fst (hits origin radius excl (bucket_at g k)))" for k
    using ok by (simp add: grid_ok_def hits_def distinct_map_filter)
  have home: "entityIndex g x = Some i" if "(x, p) \<in> set (bucket_at g i)" for x p i
    using ok that by (auto simp: grid_ok_def)
  have apart: "i = j" if "(x, p) \<in> set (hits origin radius excl (bucket_at g i))"
      "(x, q) \<in> set (hits origin radius excl (bucket_at g j))" for x p q i j
    using that home [of x p i] home [of x q j] by (simp add: set_hits)
  have "distinct (map fst (concat (map (\<lambda>k. hits origin radius excl (bucket_at g k)) ks)))" if "distinct ks" for ks
    using that
  proof (induction ks)
    case (Cons k ks)
    have "fst ` set (hits origin radius excl (bucket_at g k)) \<inter>
        fst ` set (concat (map (\<lambda>k. hits origin radius excl (bucket_at g k)) ks)) = {}"
      using Cons.prems by (auto dest: apart)
    with Cons one show ?case by simp
  qed simp
  from this [OF distinct_query_cells] show ?thesis by (simp add: QueryRadius_cells)
qed

subsection \<open>The interface the command buffer uses\<close>

text \<open>
  \<open>SpatialGrid\<close> of \<open>server/ecs/commands.go\<close> is a Go interface with the two writing operations. Its contract
  is a map from entities to positions.
\<close>

locale spatial_index =
  fixes upd :: "entity \<Rightarrow> PositionComponent \<Rightarrow> 'g \<Rightarrow> 'g"
    and del :: "entity \<Rightarrow> 'g \<Rightarrow> 'g"
    and view :: "'g \<Rightarrow> entity \<rightharpoonup> PositionComponent"
    and ok :: "'g \<Rightarrow> bool"
  assumes upd_view: "ok g \<Longrightarrow> view (upd e p g) = (view g)(e \<mapsto> p)"
    and upd_ok: "ok g \<Longrightarrow> ok (upd e p g)"
    and del_view: "ok g \<Longrightarrow> view (del e g) = (view g)(e := None)"
    and del_ok: "ok g \<Longrightarrow> ok (del e g)"
begin

lemma fold_upd:
  "ok g \<Longrightarrow> ok (fold (\<lambda>(e, p). upd e p) xs g) \<and>
     view (fold (\<lambda>(e, p). upd e p) xs g) = fold (\<lambda>(e, p) m. m(e \<mapsto> p)) xs (view g)"
  by (induction xs arbitrary: g) (auto simp: upd_ok upd_view)

lemma fold_del:
  "ok g \<Longrightarrow> ok (fold del es g) \<and> view (fold del es g) = (view g) |` (- set es)"
proof (induction es arbitrary: g)
  case (Cons e es)
  then show ?case using del_ok [OF Cons.prems, of e] del_view [OF Cons.prems, of e]
    by (auto simp: restrict_map_def fun_eq_iff)
qed (simp add: restrict_map_def)

end

interpretation grid: spatial_index UpdateEntityPosition grid_RemoveEntity grid_of grid_ok
  by unfold_locales (simp_all add: UpdateEntityPosition_refines grid_RemoveEntity_refines)

subsection \<open>Properties\<close>

datatype grid_op = GUpdate entity PositionComponent | GRemove entity

fun run_grid :: "grid_op list \<Rightarrow> SpatialGrid \<Rightarrow> SpatialGrid" where
  "run_grid [] g = g"
| "run_grid (GUpdate e p # ops) g = run_grid ops (UpdateEntityPosition e p g)"
| "run_grid (GRemove e # ops) g = run_grid ops (grid_RemoveEntity e g)"

fun grid_spec :: "grid_op list \<Rightarrow> (entity \<rightharpoonup> PositionComponent) \<Rightarrow> (entity \<rightharpoonup> PositionComponent)" where
  "grid_spec [] m = m"
| "grid_spec (GUpdate e p # ops) m = grid_spec ops (m(e \<mapsto> p))"
| "grid_spec (GRemove e # ops) m = grid_spec ops (m(e := None))"

lemma run_grid_refines: "grid_ok g \<Longrightarrow> grid_ok (run_grid ops g) \<and> grid_of (run_grid ops g) = grid_spec ops (grid_of g)"
  by (induction ops g rule: run_grid.induct)
     (auto simp: UpdateEntityPosition_refines grid_RemoveEntity_refines)

text \<open>
  C20 After any sequence of position updates and removals on a new grid, \<open>QueryRadius\<close> returns, each
  once, exactly the entities whose last recorded position is on the origin's map and within the radius,
  except the excluded one; no cell the search skips can hold a hit.
\<close>

theorem QueryRadius_exact:
  assumes "0 \<le> radius"
  shows "distinct (map fst (QueryRadius (run_grid ops NewGrid) origin radius excl)) \<and>
    ((e, p) \<in> set (QueryRadius (run_grid ops NewGrid) origin radius excl) \<longleftrightarrow>
       grid_spec ops Map.empty e = Some p \<and> e \<noteq> excl \<and> MapID p = MapID origin \<and>
       real_of_int (DistanceSq (PosX p) (PosZ p) (PosX origin) (PosZ origin)) \<le> radius * radius)"
  using run_grid_refines [OF grid_ok_New(1), of ops] QueryRadius_distinct QueryRadius_set [OF _ assms]
  by (auto simp: grid_ok_New in_radius_def pos_dist_def)

theorem QueryRadius_exact_witness:
  "(5, \<lparr>MapID = 1, PosX = 39, PosZ = 21\<rparr>) \<in>
     set (QueryRadius (run_grid [GUpdate 5 \<lparr>MapID = 1, PosX = 0, PosZ = 0\<rparr>, GUpdate 5 \<lparr>MapID = 1, PosX = 39, PosZ = 21\<rparr>] NewGrid)
       \<lparr>MapID = 1, PosX = 19, PosZ = 19\<rparr> 21 0)"
  using QueryRadius_exact [of 21 "[GUpdate 5 \<lparr>MapID = 1, PosX = 0, PosZ = 0\<rparr>, GUpdate 5 \<lparr>MapID = 1, PosX = 39, PosZ = 21\<rparr>]"
      "\<lparr>MapID = 1, PosX = 19, PosZ = 19\<rparr>" 0 5 "\<lparr>MapID = 1, PosX = 39, PosZ = 21\<rparr>"]
  by (simp add: DistanceSq_def)

end
