(* ===== verification/Aoi.thy ===== *)
theory Aoi
  imports Spatial_Grid
begin

text \<open>
  \<open>server/peakgo/aoi/aoi.go\<close> and the bridge to the grid in \<open>server/world/worker.go\<close>: which neighbours each
  watcher knows of, and the enter and leave events by which it learns of changes. A watcher is reached through
  a pointer, so writing it is an update of the manager's map. The neighbour set is a Go map; \<open>order\<close> is one
  iteration over it. The pools of slices and the monitors are not state. \<open>sort.Slice\<close> may leave entries of equal
  distance in any order; the model keeps their order.
\<close>

subsection \<open>Watchers\<close>

datatype AOIEvent = EventEnter entity | EventLeave entity

definition MaxAOIWatchers :: nat where "MaxAOIWatchers = 50"

record Watcher =
  w_owner :: entity
  w_radius :: real
  w_neighbor :: "entity set"

type_synonym AOIManager = "entity \<rightharpoonup> Watcher"

type_synonym SpatialQueryFunc = "PositionComponent \<Rightarrow> real \<Rightarrow> entity \<Rightarrow> entity list option"

definition NewAOIManager :: AOIManager where "NewAOIManager = Map.empty"

definition RegisterWatcher :: "entity \<Rightarrow> real \<Rightarrow> AOIManager \<Rightarrow> AOIManager" where
  "RegisterWatcher e radius m = m(e \<mapsto> \<lparr>w_owner = e, w_radius = radius, w_neighbor = {}\<rparr>)"

definition UnregisterWatcher :: "entity \<Rightarrow> AOIManager \<Rightarrow> AOIManager" where
  "UnregisterWatcher e m = m(e := None)"

fun sliceContainsEntity :: "entity list \<Rightarrow> entity \<Rightarrow> bool" where
  "sliceContainsEntity [] t = False"
| "sliceContainsEntity (e # es) t = (if e = t then True else sliceContainsEntity es t)"

text \<open>The two loops of \<open>UpdateOne\<close>: events and the new neighbour set.\<close>

fun detect_leaves :: "entity list \<Rightarrow> entity list \<Rightarrow> AOIEvent list \<times> entity set \<Rightarrow> AOIEvent list \<times> entity set" where
  "detect_leaves entries [] s = s"
| "detect_leaves entries (old # os) (evs, nb) = detect_leaves entries os
     (if \<not> sliceContainsEntity entries old then (evs @ [EventLeave old], nb - {old}) else (evs, nb))"

fun detect_enters :: "entity list \<Rightarrow> AOIEvent list \<times> entity set \<Rightarrow> AOIEvent list \<times> entity set" where
  "detect_enters [] s = s"
| "detect_enters (new # ns) (evs, nb) = detect_enters ns
     (if new \<notin> nb then (evs @ [EventEnter new], insert new nb) else (evs, nb))"

definition UpdateOne :: "entity \<Rightarrow> PositionComponent \<Rightarrow> SpatialQueryFunc \<Rightarrow> entity list \<Rightarrow> AOIManager \<Rightarrow> AOIEvent list \<times> AOIManager" where
  "UpdateOne e pos query order m = (case m e of
     None \<Rightarrow> ([], m)
   | Some w \<Rightarrow> (case query pos (w_radius w) e of
       None \<Rightarrow> ([], m)
     | Some entries \<Rightarrow>
         (case detect_enters entries (detect_leaves entries order ([], w_neighbor w)) of
            (evs, nb) \<Rightarrow> (evs, m(e \<mapsto> w\<lparr>w_neighbor := nb\<rparr>)))))"

text \<open>The same with a callback, which may stop the update of a watcher.\<close>

type_synonym 'w on_event = "entity \<Rightarrow> AOIEvent \<Rightarrow> 'w \<Rightarrow> bool \<times> 'w"

fun leaves_cb :: "'w on_event \<Rightarrow> entity \<Rightarrow> entity list \<Rightarrow> entity list \<Rightarrow> entity set \<Rightarrow> 'w \<Rightarrow> bool \<times> entity set \<times> 'w" where
  "leaves_cb f e entries [] nb w = (True, nb, w)"
| "leaves_cb f e entries (old # os) nb w =
     (if \<not> sliceContainsEntity entries old
      then (case f e (EventLeave old) w of (go, w') \<Rightarrow>
        if go then leaves_cb f e entries os (nb - {old}) w' else (False, nb, w'))
      else leaves_cb f e entries os nb w)"

fun enters_cb :: "'w on_event \<Rightarrow> entity \<Rightarrow> entity list \<Rightarrow> entity set \<Rightarrow> 'w \<Rightarrow> bool \<times> entity set \<times> 'w" where
  "enters_cb f e [] nb w = (True, nb, w)"
| "enters_cb f e (new # ns) nb w =
     (if new \<notin> nb
      then (case f e (EventEnter new) w of (go, w') \<Rightarrow>
        if go then enters_cb f e ns (insert new nb) w' else (False, nb, w'))
      else enters_cb f e ns nb w)"

definition updateOne :: "entity \<Rightarrow> Watcher \<Rightarrow> PositionComponent \<Rightarrow> SpatialQueryFunc \<Rightarrow> 'w on_event \<Rightarrow> entity list \<Rightarrow>
    AOIManager \<times> 'w \<Rightarrow> AOIManager \<times> 'w" where
  "updateOne e wt pos query f order s = (case s of (m, w) \<Rightarrow>
     (case query pos (w_radius wt) e of
        None \<Rightarrow> (m, w)
      | Some entries \<Rightarrow> (case leaves_cb f e entries order (w_neighbor wt) w of
          (go, nb, w1) \<Rightarrow> if \<not> go then (m(e \<mapsto> wt\<lparr>w_neighbor := nb\<rparr>), w1)
            else (case enters_cb f e entries nb w1 of
              (_, nb', w2) \<Rightarrow> (m(e \<mapsto> wt\<lparr>w_neighbor := nb'\<rparr>), w2)))))"

definition UpdateAll :: "(entity \<Rightarrow> PositionComponent option) \<Rightarrow> SpatialQueryFunc \<Rightarrow> 'w on_event \<Rightarrow> entity list \<Rightarrow>
    (entity \<Rightarrow> entity list) \<Rightarrow> AOIManager \<times> 'w \<Rightarrow> AOIManager \<times> 'w" where
  "UpdateAll posGetter query f watchers orders s = fold (\<lambda>e s. case fst s e of
       None \<Rightarrow> s
     | Some wt \<Rightarrow> (case posGetter e of None \<Rightarrow> s | Some pos \<Rightarrow> updateOne e wt pos query f (orders e) s)) watchers s"

subsection \<open>The bridge to the grid\<close>

definition trimToMaxAOIWatchers :: "PositionComponent \<Rightarrow> bucket \<Rightarrow> bucket" where
  "trimToMaxAOIWatchers origin cands =
     (if length cands \<le> MaxAOIWatchers then cands
      else take MaxAOIWatchers (sort_key (\<lambda>(e, p). let dx = PosX p - PosX origin; dz = PosZ p - PosZ origin in dx * dx + dz * dz) cands))"

definition aoiSpatialQueryFromGrid :: "SpatialGrid \<Rightarrow> SpatialQueryFunc" where
  "aoiSpatialQueryFromGrid g origin radius excl =
     (let cands = QueryRadius g origin radius excl
      in if length cands = 0 then None else Some (map fst (trimToMaxAOIWatchers origin cands)))"

subsection \<open>Views\<close>

text \<open>What a client shows after some events.\<close>

fun apply_event :: "AOIEvent \<Rightarrow> entity set \<Rightarrow> entity set" where
  "apply_event (EventEnter e) V = insert e V"
| "apply_event (EventLeave e) V = V - {e}"

lemma contains_iff [simp]: "sliceContainsEntity es t \<longleftrightarrow> t \<in> set es"
  by (induction es) auto

lemma detect_leaves_spec:
  "detect_leaves entries os (evs, nb) = (evs @ map EventLeave (filter (\<lambda>x. x \<notin> set entries) os),
     nb - {x \<in> set os. x \<notin> set entries})"
  by (induction os arbitrary: evs nb) auto

lemma detect_enters_spec:
  assumes "detect_enters ns (evs, nb) = (evs', nb')"
  shows "\<exists>new. evs' = evs @ map EventEnter new \<and> distinct new \<and> set new = set ns - nb \<and> nb' = nb \<union> set ns"
  using assms
proof (induction ns arbitrary: evs nb)
  case (Cons n ns)
  show ?case
  proof (cases "n \<in> nb")
    case True
    with Cons show ?thesis by auto
  next
    case False
    with Cons.prems have "detect_enters ns (evs @ [EventEnter n], insert n nb) = (evs', nb')" by simp
    from Cons.IH [OF this] obtain new where
      "evs' = (evs @ [EventEnter n]) @ map EventEnter new" "distinct new" "set new = set ns - insert n nb"
      "nb' = insert n nb \<union> set ns" by blast
    with False show ?thesis by (intro exI [of _ "n # new"]) auto
  qed
qed simp

lemma fold_leaves: "fold apply_event (map EventLeave os) V = V - set os"
  by (induction os arbitrary: V) auto

lemma fold_enters: "fold apply_event (map EventEnter es) V = V \<union> set es"
  by (induction es arbitrary: V) auto

text \<open>With a callback that always goes on, both variants agree.\<close>

lemma leaves_cb_collect:
  "leaves_cb (\<lambda>_ ev evs. (True, evs @ [ev])) e entries os nb evs =
     (True, snd (detect_leaves entries os (evs, nb)), fst (detect_leaves entries os (evs, nb)))"
  by (induction os arbitrary: nb evs) auto

lemma enters_cb_collect:
  "enters_cb (\<lambda>_ ev evs. (True, evs @ [ev])) e ns nb evs = (True, snd (detect_enters ns (evs, nb)), fst (detect_enters ns (evs, nb)))"
  by (induction ns arbitrary: nb evs) auto

lemma updateOne_UpdateOne:
  assumes "m e = Some wt"
  shows "updateOne e wt pos query (\<lambda>_ ev evs. (True, evs @ [ev])) order (m, []) =
    (case UpdateOne e pos query order m of (evs, m') \<Rightarrow> (m', evs))"
  using assms
  by (simp add: updateOne_def UpdateOne_def leaves_cb_collect enters_cb_collect split: option.splits prod.splits)

lemma UpdateOne_events:
  assumes w: "m e = Some w" and q: "query pos (w_radius w) e = Some entries" and order: "set order = w_neighbor w" "distinct order"
    and upd: "UpdateOne e pos query order m = (evs, m')"
  shows "\<exists>gone new. evs = map EventLeave gone @ map EventEnter new \<and> distinct gone \<and> distinct new \<and>
    set gone = w_neighbor w - set entries \<and> set new = set entries - w_neighbor w \<and>
    m' = m(e \<mapsto> w\<lparr>w_neighbor := set entries\<rparr>)"
proof -
  let ?gone = "filter (\<lambda>x. x \<notin> set entries) order"
  obtain nb where nb: "detect_enters entries (map EventLeave ?gone, w_neighbor w - set ?gone) = (evs, nb)"
    and m': "m' = m(e \<mapsto> w\<lparr>w_neighbor := nb\<rparr>)"
    using upd w q by (auto simp: UpdateOne_def detect_leaves_spec split: prod.splits)
  from detect_enters_spec [OF nb] obtain new where
    new: "evs = map EventLeave ?gone @ map EventEnter new" "distinct new" "set new = set entries - (w_neighbor w - set ?gone)"
      "nb = (w_neighbor w - set ?gone) \<union> set entries" by blast
  have "nb = set entries" "set new = set entries - w_neighbor w" using new(3,4) order(1) by auto
  with new m' order show ?thesis by (intro exI [of _ ?gone] exI [of _ new]) auto
qed

lemma trim_subset: "set (trimToMaxAOIWatchers origin cands) \<subseteq> set cands"
  by (auto simp: trimToMaxAOIWatchers_def dest: in_set_takeD)

lemma trim_length: "length (trimToMaxAOIWatchers origin cands) \<le> MaxAOIWatchers"
  by (simp add: trimToMaxAOIWatchers_def)

lemma sorted_take_drop: "sorted xs \<Longrightarrow> x \<in> set (take n xs) \<Longrightarrow> y \<in> set (drop n xs) \<Longrightarrow> x \<le> y"
  by (metis append_take_drop_id sorted_append)

lemma trim_closest:
  assumes "c \<in> set (trimToMaxAOIWatchers origin cands)" and "d \<in> set cands" and "d \<notin> set (trimToMaxAOIWatchers origin cands)"
  shows "pos_dist (snd c) origin \<le> pos_dist (snd d) origin"
proof -
  define key where "key = (\<lambda>(e :: entity, p :: PositionComponent). let dx = PosX p - PosX origin; dz = PosZ p - PosZ origin in dx * dx + dz * dz)"
  have key: "key x = pos_dist (snd x) origin" for x
    by (cases x) (simp add: key_def pos_dist_def DistanceSq_def Let_def)
  let ?s = "sort_key key cands"
  from assms have c: "c \<in> set (take MaxAOIWatchers ?s)" and d: "d \<in> set ?s" "d \<notin> set (take MaxAOIWatchers ?s)"
    by (auto simp: trimToMaxAOIWatchers_def key_def split: if_splits)
  then have "d \<in> set (drop MaxAOIWatchers ?s)" by (metis append_take_drop_id Un_iff set_append)
  then have "key d \<in> set (drop MaxAOIWatchers (map key ?s))" by (simp add: drop_map)
  moreover have "key c \<in> set (take MaxAOIWatchers (map key ?s))" using c by (simp add: take_map)
  ultimately show ?thesis using sorted_take_drop [OF sorted_sort_key] key by metis
qed

subsection \<open>Over time\<close>

text \<open>
  One watcher that moves: each round has its position and the grid at that time. The client's view starts
  empty, as the neighbour set of a new watcher does, and follows the events.
\<close>

type_synonym round = "PositionComponent \<times> SpatialGrid"

definition set_order :: "entity set \<Rightarrow> entity list" where
  "set_order A = sorted_list_of_set A"

fun aoi_rounds :: "entity \<Rightarrow> round list \<Rightarrow> AOIManager \<Rightarrow> entity set \<Rightarrow> AOIManager \<times> entity set" where
  "aoi_rounds e [] m V = (m, V)"
| "aoi_rounds e ((pos, g) # rounds) m V =
     (case UpdateOne e pos (aoiSpatialQueryFromGrid g) (set_order (case m e of None \<Rightarrow> {} | Some w \<Rightarrow> w_neighbor w)) m of
        (evs, m') \<Rightarrow> aoi_rounds e rounds m' (fold apply_event evs V))"

definition seen_by :: "entity \<Rightarrow> real \<Rightarrow> round \<Rightarrow> entity set" where
  "seen_by e radius r = (case r of (pos, g) \<Rightarrow>
     fst ` set (trimToMaxAOIWatchers pos (QueryRadius g pos radius e)))"

text \<open>The last round in which somebody was near.\<close>

definition last_seen :: "entity \<Rightarrow> real \<Rightarrow> round list \<Rightarrow> entity set \<Rightarrow> entity set" where
  "last_seen e radius rounds V0 = foldl (\<lambda>V r. if seen_by e radius r = {} then V else seen_by e radius r) V0 rounds"

lemma trim_empty: "trimToMaxAOIWatchers pos cands = [] \<longleftrightarrow> cands = []"
proof (cases "length cands \<le> MaxAOIWatchers")
  case False
  then have "length (trimToMaxAOIWatchers pos cands) = MaxAOIWatchers" by (simp add: trimToMaxAOIWatchers_def)
  with False show ?thesis by (auto simp: MaxAOIWatchers_def)
qed (simp add: trimToMaxAOIWatchers_def)

lemma UpdateOne_view:
  assumes w: "m e = Some w" and fin: "finite (w_neighbor w)"
    and upd: "UpdateOne e pos (aoiSpatialQueryFromGrid g) (set_order (w_neighbor w)) m = (evs, m')"
  shows "(let V = if seen_by e (w_radius w) (pos, g) = {} then w_neighbor w else seen_by e (w_radius w) (pos, g)
    in fold apply_event evs (w_neighbor w) = V \<and> m' = m(e \<mapsto> w\<lparr>w_neighbor := V\<rparr>) \<and> finite V)"
proof (cases "QueryRadius g pos (w_radius w) e = []")
  case True
  with w upd fin show ?thesis
    by (auto simp: UpdateOne_def aoiSpatialQueryFromGrid_def seen_by_def trimToMaxAOIWatchers_def Let_def)
next
  case False
  let ?entries = "map fst (trimToMaxAOIWatchers pos (QueryRadius g pos (w_radius w) e))"
  have q: "aoiSpatialQueryFromGrid g pos (w_radius w) e = Some ?entries"
    using False by (simp add: aoiSpatialQueryFromGrid_def)
  have seen: "set ?entries = seen_by e (w_radius w) (pos, g)" by (simp add: seen_by_def)
  have ne: "seen_by e (w_radius w) (pos, g) \<noteq> {}" using False by (simp add: seen_by_def trim_empty)
  have order: "set (set_order (w_neighbor w)) = w_neighbor w" "distinct (set_order (w_neighbor w))"
    using fin by (simp_all add: set_order_def)
  from UpdateOne_events [OF w q order upd] obtain gone new where
    "evs = map EventLeave gone @ map EventEnter new" "set gone = w_neighbor w - set ?entries"
    "set new = set ?entries - w_neighbor w" "m' = m(e \<mapsto> w\<lparr>w_neighbor := set ?entries\<rparr>)" by blast
  then have "fold apply_event evs (w_neighbor w) = set ?entries" "m' = m(e \<mapsto> w\<lparr>w_neighbor := set ?entries\<rparr>)"
    by (auto simp: fold_leaves fold_enters)
  then show ?thesis using ne unfolding seen Let_def by (simp add: seen_by_def)
qed

lemma aoi_rounds_view:
  assumes "m e = Some w" and "finite (w_neighbor w)" and "aoi_rounds e rounds m (w_neighbor w) = (m', V)"
  shows "V = last_seen e (w_radius w) rounds (w_neighbor w) \<and> m' e = Some (w\<lparr>w_neighbor := V\<rparr>)"
  using assms
proof (induction rounds arbitrary: m w)
  case (Cons r rounds)
  obtain pos g where r: "r = (pos, g)" by force
  obtain evs m1 where upd: "UpdateOne e pos (aoiSpatialQueryFromGrid g) (set_order (w_neighbor w)) m = (evs, m1)" by force
  define V1 where "V1 = (if seen_by e (w_radius w) (pos, g) = {} then w_neighbor w else seen_by e (w_radius w) (pos, g))"
  from UpdateOne_view [OF Cons.prems(1,2) upd] have
    v1: "fold apply_event evs (w_neighbor w) = V1" "m1 = m(e \<mapsto> w\<lparr>w_neighbor := V1\<rparr>)" "finite V1"
    by (simp_all add: Let_def V1_def)
  have "aoi_rounds e rounds m1 V1 = (m', V)" using Cons.prems(1,3) upd v1(1) by (simp add: r)
  moreover have "m1 e = Some (w\<lparr>w_neighbor := V1\<rparr>)" by (simp add: v1(2))
  ultimately have "V = last_seen e (w_radius w) rounds V1 \<and> m' e = Some (w\<lparr>w_neighbor := V\<rparr>)"
    using Cons.IH [of m1 "w\<lparr>w_neighbor := V1\<rparr>"] v1(3) by simp
  moreover have "last_seen e (w_radius w) (r # rounds) (w_neighbor w) = last_seen e (w_radius w) rounds V1"
    by (simp add: last_seen_def r V1_def)
  ultimately show ?case by simp
qed (simp add: last_seen_def)

subsection \<open>Properties\<close>

text \<open>
  C22 The events keep the client's view exact as long as somebody is near: after any movements the view of a
  watcher registered with an empty view is the set of entities the last non-empty query returned, and the
  manager's neighbour set agrees with it. A round that finds nobody changes nothing, so neighbours that the
  watcher has left behind altogether stay in its view.
\<close>

theorem aoi_view:
  assumes "aoi_rounds e rounds (RegisterWatcher e radius m) {} = (m', V)"
  shows "V = last_seen e radius rounds {} \<and> map_option w_neighbor (m' e) = Some V"
  using aoi_rounds_view [of "RegisterWatcher e radius m" e "\<lparr>w_owner = e, w_radius = radius, w_neighbor = {}\<rparr>" rounds m' V] assms
  by (simp add: RegisterWatcher_def)

text \<open>Entity 2 is near entity 1 in the first round; in the second the watcher is at the other end of the map.\<close>

theorem aoi_view_witness:
  "let g = UpdateEntityPosition 2 \<lparr>MapID = 1, PosX = 0, PosZ = 0\<rparr> NewGrid;
       far = \<lparr>MapID = 1, PosX = 900, PosZ = 0\<rparr>
   in QueryRadius g far 1 1 = [] \<and>
      2 \<in> snd (aoi_rounds 1 [(\<lparr>MapID = 1, PosX = 0, PosZ = 0\<rparr>, g), (far, g)] (RegisterWatcher 1 1 NewAOIManager) {})"
proof -
  define g where "g = UpdateEntityPosition 2 \<lparr>MapID = 1, PosX = 0, PosZ = 0\<rparr> NewGrid"
  define near where "near = \<lparr>MapID = 1, PosX = 0, PosZ = 0\<rparr>"
  define far where "far = \<lparr>MapID = 1, PosX = 900, PosZ = 0\<rparr>"
  have ceil: "\<lceil>1 / 20 :: real\<rceil> = 1" by (simp add: ceiling_eq_iff)
  have q1: "QueryRadius g near 1 1 = [(2, near)]"
    by (simp add: QueryRadius_def ceil upto_rec1 g_def near_def UpdateEntityPosition_def NewGrid_def WorldToChunk_def cellSize_def
        enter_chunk_def hits_def pos_dist_def DistanceSq_def Let_def)
  have q2: "QueryRadius g far 1 1 = []"
    by (simp add: QueryRadius_def ceil upto_rec1 g_def far_def UpdateEntityPosition_def NewGrid_def WorldToChunk_def cellSize_def
        enter_chunk_def Let_def)
  obtain m' V where V: "aoi_rounds 1 [(near, g), (far, g)] (RegisterWatcher 1 1 NewAOIManager) {} = (m', V)" by force
  from aoi_view [OF V] have "V = {2}"
    by (simp add: last_seen_def seen_by_def q1 q2 trimToMaxAOIWatchers_def MaxAOIWatchers_def)
  with V q2 show ?thesis by (simp add: g_def near_def far_def Let_def)
qed

end
