(* ===== verification/Ecs_Commands.thy ===== *)
theory Ecs_Commands
  imports Ecs_Registry Spatial_Grid
begin

text \<open>
  \<open>server/ecs/commands.go\<close>: the command buffer of a map and its \<open>Flush\<close>. The buffer's slices are lists (the
  pools only recycle their memory). \<open>Flush\<close> takes the spatial grid through the Go interface
  \<open>SpatialGrid\<close>, so it is defined over two functions \<open>upd\<close> and \<open>del\<close>; the theorems instantiate them
  with the grid.
\<close>

subsection \<open>Commands\<close>

record MoveCommand =
  mv_EntityID :: entity
  mv_MapID :: int
  mv_X :: int
  mv_Z :: int

record DamageCommand =
  dm_Source :: entity
  dm_Target :: entity
  dm_Amount :: int

record SpawnCommand =
  sp_EntityID :: entity
  sp_Pos :: PositionComponent
  sp_Meta :: MetadataComponent
  sp_Stats :: StatsComponent

record CommandBuffer =
  cb_moves :: "MoveCommand list"
  cb_damages :: "DamageCommand list"
  cb_spawns :: "SpawnCommand list"
  cb_destroys :: "entity list"

definition NewCommandBuffer :: CommandBuffer where
  "NewCommandBuffer = \<lparr>cb_moves = [], cb_damages = [], cb_spawns = [], cb_destroys = []\<rparr>"

definition AddMove :: "entity \<Rightarrow> int \<Rightarrow> int \<Rightarrow> int \<Rightarrow> CommandBuffer \<Rightarrow> CommandBuffer" where
  "AddMove e m x z cb = cb\<lparr>cb_moves := cb_moves cb @ [\<lparr>mv_EntityID = e, mv_MapID = m, mv_X = x, mv_Z = z\<rparr>]\<rparr>"

definition AddDamage :: "entity \<Rightarrow> entity \<Rightarrow> int \<Rightarrow> CommandBuffer \<Rightarrow> CommandBuffer" where
  "AddDamage src tgt amount cb =
     cb\<lparr>cb_damages := cb_damages cb @ [\<lparr>dm_Source = src, dm_Target = tgt, dm_Amount = amount\<rparr>]\<rparr>"

definition AddSpawn :: "entity \<Rightarrow> PositionComponent \<Rightarrow> MetadataComponent \<Rightarrow> StatsComponent \<Rightarrow> CommandBuffer \<Rightarrow> CommandBuffer" where
  "AddSpawn e p m st cb =
     cb\<lparr>cb_spawns := cb_spawns cb @ [\<lparr>sp_EntityID = e, sp_Pos = p, sp_Meta = m, sp_Stats = st\<rparr>]\<rparr>"

definition AddDestroy :: "entity \<Rightarrow> CommandBuffer \<Rightarrow> CommandBuffer" where
  "AddDestroy e cb = cb\<lparr>cb_destroys := cb_destroys cb @ [e]\<rparr>"

definition CommandBuffer_Len :: "CommandBuffer \<Rightarrow> nat" where
  "CommandBuffer_Len cb = length (cb_moves cb) + length (cb_damages cb) + length (cb_spawns cb) + length (cb_destroys cb)"

subsection \<open>Flush\<close>

definition mv_pos :: "MoveCommand \<Rightarrow> PositionComponent" where
  "mv_pos c = \<lparr>MapID = mv_MapID c, PosX = mv_X c, PosZ = mv_Z c\<rparr>"

definition apply_move ::
  "(entity \<Rightarrow> PositionComponent \<Rightarrow> 'g \<Rightarrow> 'g) \<Rightarrow> MoveCommand \<Rightarrow> Registry \<times> 'g \<Rightarrow> Registry \<times> 'g" where
  "apply_move upd c s = (case s of (r, g) \<Rightarrow>
     (SetPosition (mv_EntityID c) (mv_pos c) r, upd (mv_EntityID c) (mv_pos c) g))"

definition hit_stats :: "int \<Rightarrow> StatsComponent \<Rightarrow> StatsComponent" where
  "hit_stats amount st = (let hp = st_HP st - amount in st\<lparr>st_HP := (if hp < 0 then 0 else hp)\<rparr>)"

definition apply_damage :: "DamageCommand \<Rightarrow> Registry \<Rightarrow> Registry" where
  "apply_damage c r = (case GetStats r (dm_Target c) of
     None \<Rightarrow> r | Some st \<Rightarrow> SetStats (dm_Target c) (hit_stats (dm_Amount c) st) r)"

definition apply_spawn ::
  "(entity \<Rightarrow> PositionComponent \<Rightarrow> 'g \<Rightarrow> 'g) \<Rightarrow> SpawnCommand \<Rightarrow> Registry \<times> 'g \<Rightarrow> Registry \<times> 'g" where
  "apply_spawn upd c s = (case s of (r, g) \<Rightarrow>
     (SetStats (sp_EntityID c) (sp_Stats c) (SetMetadata (sp_EntityID c) (sp_Meta c) (SetPosition (sp_EntityID c) (sp_Pos c) r)),
      upd (sp_EntityID c) (sp_Pos c) g))"

definition apply_destroy ::
  "(entity \<Rightarrow> 'g \<Rightarrow> 'g) \<Rightarrow> entity \<Rightarrow> (Registry \<times> entity list) \<times> 'g \<Rightarrow> (Registry \<times> entity list) \<times> 'g" where
  "apply_destroy del e s = (case s of ((r, fl), g) \<Rightarrow> (RemoveEntity e r fl, del e g))"

definition Flush ::
  "(entity \<Rightarrow> PositionComponent \<Rightarrow> 'g \<Rightarrow> 'g) \<Rightarrow> (entity \<Rightarrow> 'g \<Rightarrow> 'g) \<Rightarrow> CommandBuffer \<Rightarrow>
   Registry \<Rightarrow> entity list \<Rightarrow> 'g \<Rightarrow> CommandBuffer \<times> Registry \<times> entity list \<times> 'g" where
  "Flush upd del cb r fl g =
     (let (r1, g1) = fold (apply_move upd) (cb_moves cb) (r, g);
          r2 = fold apply_damage (cb_damages cb) r1;
          (r3, g3) = fold (apply_spawn upd) (cb_spawns cb) (r2, g1);
          ((r4, fl4), g4) = fold (apply_destroy del) (cb_destroys cb) ((r3, fl), g3)
      in (cb\<lparr>cb_moves := [], cb_damages := [], cb_spawns := [], cb_destroys := []\<rparr>, r4, fl4, g4))"

subsection \<open>The phases\<close>

definition mentioned :: "CommandBuffer \<Rightarrow> entity set" where
  "mentioned cb = set (map mv_EntityID (cb_moves cb)) \<union> set (map sp_EntityID (cb_spawns cb))"

text \<open>Positions, metadata and statistics after a phase, as maps.\<close>

definition move_map :: "MoveCommand list \<Rightarrow> (entity \<rightharpoonup> PositionComponent) \<Rightarrow> entity \<rightharpoonup> PositionComponent" where
  "move_map cs m = fold (\<lambda>c m. m(mv_EntityID c \<mapsto> mv_pos c)) cs m"

definition lose_hp :: "int \<Rightarrow> StatsComponent \<Rightarrow> StatsComponent" where
  "lose_hp n st = st\<lparr>st_HP := max 0 (st_HP st - n)\<rparr>"

lemma hit_stats_lose_hp: "hit_stats = lose_hp"
  by (simp add: fun_eq_iff hit_stats_def lose_hp_def Let_def max_def)

definition damage_map :: "DamageCommand list \<Rightarrow> (entity \<rightharpoonup> StatsComponent) \<Rightarrow> entity \<rightharpoonup> StatsComponent" where
  "damage_map cs m = fold (\<lambda>c m. m(dm_Target c := map_option (lose_hp (dm_Amount c)) (m (dm_Target c)))) cs m"

definition spawn_map :: "(SpawnCommand \<Rightarrow> 'a) \<Rightarrow> SpawnCommand list \<Rightarrow> (entity \<rightharpoonup> 'a) \<Rightarrow> entity \<rightharpoonup> 'a" where
  "spawn_map h cs m = fold (\<lambda>c m. m(sp_EntityID c \<mapsto> h c)) cs m"

lemma insert_inj: "inj_on f (A \<union> set (map h (c # cs))) \<Longrightarrow> inj_on f (insert (h c) A) \<and> inj_on f (insert (h c) A \<union> set (map h cs))"
  by (auto intro: inj_on_subset)

lemma damage_map_Cons:
  "damage_map (c # cs) m = damage_map cs (m(dm_Target c := map_option (lose_hp (dm_Amount c)) (m (dm_Target c))))"
  by (simp add: damage_map_def)

lemma move_map_Cons: "move_map (c # cs) m = move_map cs (m(mv_EntityID c \<mapsto> mv_pos c))"
  by (simp add: move_map_def)

lemma spawn_map_Cons: "spawn_map h (d # ds) m = spawn_map h ds (m(sp_EntityID d \<mapsto> h d))"
  by (simp add: spawn_map_def)

lemma insert_union_Cons: "insert (h c) A \<union> set (map h cs) = A \<union> set (map h (c # cs))"
  by auto

lemma apply_pairs:
  "apply_move upd c (r, g) = (SetPosition (mv_EntityID c) (mv_pos c) r, upd (mv_EntityID c) (mv_pos c) g)"
  "apply_spawn upd d (r, g) =
     (SetStats (sp_EntityID d) (sp_Stats d) (SetMetadata (sp_EntityID d) (sp_Meta d) (SetPosition (sp_EntityID d) (sp_Pos d) r)),
      upd (sp_EntityID d) (sp_Pos d) g)"
  "apply_destroy del e ((r, fl), g) = (RemoveEntity e r fl, del e g)"
  by (simp_all add: apply_move_def apply_spawn_def apply_destroy_def)

text \<open>Damage cannot create entities, and the other stores do not change.\<close>

lemma damage_step:
  assumes inv: "registry_inv r"
  shows "registry_inv (apply_damage c r) \<and> registered (apply_damage c r) = registered r \<and>
    GetStats (apply_damage c r) = (GetStats r)(dm_Target c := map_option (lose_hp (dm_Amount c)) (GetStats r (dm_Target c))) \<and>
    GetPosition (apply_damage c r) = GetPosition r \<and> GetMetadata (apply_damage c r) = GetMetadata r"
proof (cases "GetStats r (dm_Target c)")
  case None
  with inv show ?thesis by (simp add: apply_damage_def fun_upd_idem)
next
  case (Some st)
  then have "dm_Target c \<in> registered r" by (rule Get_registered [OF inv])
  note reg = this registered_insert [OF inv this]
  from SetStats_inv [OF inv reg(2)] reg(1) Some show ?thesis
    by (simp add: apply_damage_def insert_absorb hit_stats_lose_hp)
qed

lemma damage_phase:
  "registry_inv r \<Longrightarrow> registry_inv (fold apply_damage cs r) \<and> registered (fold apply_damage cs r) = registered r \<and>
    GetStats (fold apply_damage cs r) = damage_map cs (GetStats r) \<and>
    GetPosition (fold apply_damage cs r) = GetPosition r \<and> GetMetadata (fold apply_damage cs r) = GetMetadata r"
proof (induction cs arbitrary: r)
  case (Cons c cs)
  note st = damage_step [OF Cons.prems, of c]
  note ih = Cons.IH [OF conjunct1 [OF st]]
  from st ih show ?case
    by (simp only: fold_simps damage_map_Cons simp_thms)
qed (simp add: damage_map_def)

context spatial_index
begin

lemma move_phase:
  "registry_inv r \<Longrightarrow> ok g \<Longrightarrow> inj_on EntityIndex (registered r \<union> set (map mv_EntityID cs)) \<Longrightarrow>
   fold (apply_move upd) cs (r, g) = (r', g') \<Longrightarrow>
   registry_inv r' \<and> ok g' \<and> registered r' = registered r \<union> set (map mv_EntityID cs) \<and>
   GetPosition r' = move_map cs (GetPosition r) \<and> view g' = move_map cs (view g) \<and>
   GetStats r' = GetStats r \<and> GetMetadata r' = GetMetadata r"
proof (induction cs arbitrary: r g)
  case (Cons c cs)
  from insert_inj [OF Cons.prems(3)] have fresh: "inj_on EntityIndex (insert (mv_EntityID c) (registered r))"
    and rest: "inj_on EntityIndex (insert (mv_EntityID c) (registered r) \<union> set (map mv_EntityID cs))" by auto
  note st = SetPosition_inv [OF Cons.prems(1) fresh]
  have fold: "fold (apply_move upd) cs (SetPosition (mv_EntityID c) (mv_pos c) r, upd (mv_EntityID c) (mv_pos c) g) = (r', g')"
    using Cons.prems(4) by (simp add: apply_pairs)
  have "inj_on EntityIndex (registered (SetPosition (mv_EntityID c) (mv_pos c) r) \<union> set (map mv_EntityID cs))"
    using rest st(3) by simp
  from Cons.IH [OF st(1) upd_ok [OF Cons.prems(2)] this fold] show ?case
    by (simp only: move_map_Cons st(2,3) upd_view [OF Cons.prems(2)] insert_union_Cons set_frame simp_thms)
qed (simp add: move_map_def)

lemma spawn_phase:
  "registry_inv r \<Longrightarrow> ok g \<Longrightarrow> inj_on EntityIndex (registered r \<union> set (map sp_EntityID cs)) \<Longrightarrow>
   fold (apply_spawn upd) cs (r, g) = (r', g') \<Longrightarrow>
   registry_inv r' \<and> ok g' \<and> registered r' = registered r \<union> set (map sp_EntityID cs) \<and>
   GetPosition r' = spawn_map sp_Pos cs (GetPosition r) \<and> view g' = spawn_map sp_Pos cs (view g) \<and>
   GetStats r' = spawn_map sp_Stats cs (GetStats r) \<and> GetMetadata r' = spawn_map sp_Meta cs (GetMetadata r)"
proof (induction cs arbitrary: r g)
  case (Cons c cs)
  let ?e = "sp_EntityID c"
  from insert_inj [OF Cons.prems(3)] have fresh: "inj_on EntityIndex (insert ?e (registered r))"
    and rest: "inj_on EntityIndex (insert ?e (registered r) \<union> set (map sp_EntityID cs))" by auto
  let ?r1 = "SetPosition ?e (sp_Pos c) r"
  let ?r2 = "SetMetadata ?e (sp_Meta c) ?r1"
  let ?r3 = "SetStats ?e (sp_Stats c) ?r2"
  note s1 = SetPosition_inv [OF Cons.prems(1) fresh, of "sp_Pos c"]
  have f1: "inj_on EntityIndex (insert ?e (registered ?r1))" using fresh s1(3) by simp
  note s2 = SetMetadata_inv [OF s1(1) f1, of "sp_Meta c"]
  have f2: "inj_on EntityIndex (insert ?e (registered ?r2))" using f1 s2(3) by simp
  note s3 = SetStats_inv [OF s2(1) f2, of "sp_Stats c"]
  have fold: "fold (apply_spawn upd) cs (?r3, upd ?e (sp_Pos c) g) = (r', g')"
    using Cons.prems(4) by (simp add: apply_pairs)
  have reg: "registered ?r3 = insert ?e (registered r)" using s1(3) s2(3) s3(3) by simp
  have "inj_on EntityIndex (registered ?r3 \<union> set (map sp_EntityID cs))" using rest reg by simp
  from Cons.IH [OF s3(1) upd_ok [OF Cons.prems(2)] this fold] show ?case
    by (simp only: spawn_map_Cons s1(2) s2(2) s3(2) reg upd_view [OF Cons.prems(2)] insert_union_Cons set_frame simp_thms)
qed (simp add: spawn_map_def)

lemma destroy_phase:
  "registry_inv r \<Longrightarrow> ok g \<Longrightarrow> fold (apply_destroy del) es ((r, fl), g) = ((r', fl'), g') \<Longrightarrow>
   registry_inv r' \<and> ok g' \<and> fl' = fl @ es \<and> (\<forall>e \<in> set es. no_components e r') \<and>
   (\<forall>x. x \<notin> set es \<longrightarrow> same_components x r r') \<and> view g' = (view g) |` (- set es)"
proof (induction es arbitrary: r fl g)
  case Nil
  then show ?case by (auto simp: same_components_def restrict_map_def)
next
  case (Cons e es)
  obtain r1 fl1 where rm: "RemoveEntity e r fl = (r1, fl1)" by force
  have ok: "registry_ok r" using Cons.prems(1) by (simp add: registry_inv_def)
  from RemoveEntity_effect [OF ok rm] RemoveEntity_inv [OF Cons.prems(1) rm] have
    r1: "registry_inv r1" "no_components e r1" "\<And>x. x \<noteq> e \<Longrightarrow> same_components x r r1" "fl1 = fl @ [e]" by auto
  have fold: "fold (apply_destroy del) es ((r1, fl1), del e g) = ((r', fl'), g')"
    using Cons.prems(3) rm by (simp add: apply_pairs)
  from Cons.IH [OF r1(1) del_ok [OF Cons.prems(2)] fold] have
    ih: "registry_inv r'" "ok g'" "fl' = fl1 @ es" "\<forall>x \<in> set es. no_components x r'"
      "\<And>x. x \<notin> set es \<Longrightarrow> same_components x r1 r'" "view g' = (view (del e g)) |` (- set es)" by auto
  have "no_components e r'" 
    using r1(2) ih(4) ih(5) [of e] by (cases "e \<in> set es") (auto simp: no_components_def same_components_def)
  moreover have "same_components x r r'" if "x \<notin> set (e # es)" for x
    using r1(3) [of x] ih(5) [of x] that by (simp add: same_components_def)
  moreover have "view g' = (view g) |` (- set (e # es))"
    unfolding ih(6) del_view [OF Cons.prems(2)] by (auto simp: restrict_map_def fun_eq_iff)
  ultimately show ?case using ih r1(4) by auto
qed

end

subsection \<open>Properties\<close>

text \<open>A registry and a grid agree when the grid records exactly the position components.\<close>

definition coherent :: "Registry \<Rightarrow> SpatialGrid \<Rightarrow> bool" where
  "coherent r g \<longleftrightarrow> (\<forall>e. grid_of g e = GetPosition r e)"

lemma Flush_phases:
  assumes inv: "registry_inv r" and ok: "grid_ok g" and fresh: "inj_on EntityIndex (registered r \<union> mentioned cb)"
    and fl: "Flush UpdateEntityPosition grid_RemoveEntity cb r fl g = (cb', r', fl', g')"
  shows "CommandBuffer_Len cb' = 0 \<and> registry_inv r' \<and> grid_ok g' \<and> fl' = fl @ cb_destroys cb \<and>
    (\<forall>e \<in> set (cb_destroys cb). no_components e r') \<and>
    grid_of g' = spawn_map sp_Pos (cb_spawns cb) (move_map (cb_moves cb) (grid_of g)) |` (- set (cb_destroys cb)) \<and>
    (\<forall>e. e \<notin> set (cb_destroys cb) \<longrightarrow>
       GetPosition r' e = spawn_map sp_Pos (cb_spawns cb) (move_map (cb_moves cb) (GetPosition r)) e \<and>
       GetStats r' e = spawn_map sp_Stats (cb_spawns cb) (damage_map (cb_damages cb) (GetStats r)) e \<and>
       GetMetadata r' e = spawn_map sp_Meta (cb_spawns cb) (GetMetadata r) e)"
proof -
  obtain r1 g1 where m: "fold (apply_move UpdateEntityPosition) (cb_moves cb) (r, g) = (r1, g1)" by force
  define r2 where "r2 = fold apply_damage (cb_damages cb) r1"
  obtain r3 g3 where s: "fold (apply_spawn UpdateEntityPosition) (cb_spawns cb) (r2, g1) = (r3, g3)" by force
  obtain r4 fl4 g4 where d: "fold (apply_destroy grid_RemoveEntity) (cb_destroys cb) ((r3, fl), g3) = ((r4, fl4), g4)"
    by (metis surj_pair)
  have res: "cb' = cb\<lparr>cb_moves := [], cb_damages := [], cb_spawns := [], cb_destroys := []\<rparr>" "r' = r4" "fl' = fl4" "g' = g4"
    using fl m s d by (simp_all add: Flush_def r2_def)
  have "inj_on EntityIndex (registered r \<union> set (map mv_EntityID (cb_moves cb)))"
    using fresh by (rule inj_on_subset) (auto simp: mentioned_def)
  note P1 = grid.move_phase [OF inv ok this m]
  note P2 = damage_phase [OF conjunct1 [OF P1], of "cb_damages cb", folded r2_def]
  have "inj_on EntityIndex (registered r2 \<union> set (map sp_EntityID (cb_spawns cb)))"
    using fresh P1 P2 by (auto simp: mentioned_def intro: inj_on_subset)
  with P1 P2 s have P3: "registry_inv r3" "grid_ok g3"
    "GetPosition r3 = spawn_map sp_Pos (cb_spawns cb) (GetPosition r2)"
    "grid_of g3 = spawn_map sp_Pos (cb_spawns cb) (grid_of g1)"
    "GetStats r3 = spawn_map sp_Stats (cb_spawns cb) (GetStats r2)"
    "GetMetadata r3 = spawn_map sp_Meta (cb_spawns cb) (GetMetadata r2)"
    using grid.spawn_phase [OF _ _ _ s] by blast+
  note P4 = grid.destroy_phase [OF P3(1,2) d]
  have pos: "GetPosition r3 = spawn_map sp_Pos (cb_spawns cb) (move_map (cb_moves cb) (GetPosition r))"
    using P1 P2 P3(3) by metis
  have grd: "grid_of g3 = spawn_map sp_Pos (cb_spawns cb) (move_map (cb_moves cb) (grid_of g))"
    using P1 P3(4) by metis
  have sts: "GetStats r3 = spawn_map sp_Stats (cb_spawns cb) (damage_map (cb_damages cb) (GetStats r))"
    using P1 P2 P3(5) by metis
  have mts: "GetMetadata r3 = spawn_map sp_Meta (cb_spawns cb) (GetMetadata r)"
    using P1 P2 P3(6) by metis
  have same: "\<And>e. e \<notin> set (cb_destroys cb) \<Longrightarrow> same_components e r3 r4" using P4 by blast
  have "\<forall>e. e \<notin> set (cb_destroys cb) \<longrightarrow> GetPosition r4 e = GetPosition r3 e \<and> GetStats r4 e = GetStats r3 e \<and>
      GetMetadata r4 e = GetMetadata r3 e"
    using same by (simp add: same_components_def)
  with P4 show ?thesis
    unfolding res pos sts mts grd by (simp add: CommandBuffer_Len_def)
qed

text \<open>The name and kind of a concrete monster, for the example.\<close>

definition slime_meta :: MetadataComponent where
  "slime_meta = \<lparr>meta_Name = ''slime'', meta_Type = EntityMonster\<rparr>"

text \<open>
  C1 \<open>Flush\<close> applies the buffer in the documented order: destroyed entities have no component and are
  not in the grid; every other entity has the position of its last spawn, else of its last move, else its
  old one, and the statistics of its last spawn, else its old ones after all queued damage, each hit
  clamped at zero; the buffer is empty afterwards; and a grid that agreed with the position store agrees
  with it again.
\<close>

theorem Flush_effect:
  assumes "registry_inv r" and "grid_ok g" and "inj_on EntityIndex (registered r \<union> mentioned cb)"
    and "Flush UpdateEntityPosition grid_RemoveEntity cb r fl g = (cb', r', fl', g')"
  shows "CommandBuffer_Len cb' = 0 \<and> registry_inv r' \<and> grid_ok g' \<and> fl' = fl @ cb_destroys cb \<and>
    (\<forall>e \<in> set (cb_destroys cb). no_components e r' \<and> grid_of g' e = None) \<and>
    (\<forall>e. e \<notin> set (cb_destroys cb) \<longrightarrow>
       GetPosition r' e = spawn_map sp_Pos (cb_spawns cb) (move_map (cb_moves cb) (GetPosition r)) e \<and>
       GetStats r' e = spawn_map sp_Stats (cb_spawns cb) (damage_map (cb_damages cb) (GetStats r)) e \<and>
       GetMetadata r' e = spawn_map sp_Meta (cb_spawns cb) (GetMetadata r) e) \<and>
    (coherent r g \<longrightarrow> coherent r' g')"
proof -
  note F = Flush_phases [OF assms]
  have "coherent r' g'" if "coherent r g"
    unfolding coherent_def
  proof
    fix e
    from that have eq: "grid_of g = GetPosition r" by (simp add: coherent_def fun_eq_iff)
    show "grid_of g' e = GetPosition r' e"
      using F by (cases "e \<in> set (cb_destroys cb)") (auto simp: eq no_components_def restrict_map_def)
  qed
  moreover have "\<forall>e \<in> set (cb_destroys cb). grid_of g' e = None" using F by (simp add: restrict_map_def)
  ultimately show ?thesis using F by blast
qed

text \<open>Spawning and destroying the same entity in one tick leaves nothing.\<close>

theorem Flush_effect_witness:
  "let cb = AddDestroy 7 (AddMove 7 1 3 4 (AddSpawn 7 slime_pos slime_meta slime_stats NewCommandBuffer))
   in case Flush UpdateEntityPosition grid_RemoveEntity cb NewRegistry [] NewGrid of
        (cb', r', fl', g') \<Rightarrow> no_components 7 r' \<and> grid_of g' 7 = None \<and> fl' = [7]"
proof -
  let ?cb = "AddDestroy 7 (AddMove 7 1 3 4 (AddSpawn 7 slime_pos slime_meta slime_stats NewCommandBuffer))"
  obtain cb' r' fl' g' where f: "Flush UpdateEntityPosition grid_RemoveEntity ?cb NewRegistry [] NewGrid = (cb', r', fl', g')"
    by (metis surj_pair)
  have "inj_on EntityIndex (registered NewRegistry \<union> mentioned ?cb)"
    by (auto simp: registered_def NewRegistry_def empty_store_def mentioned_def AddDestroy_def AddMove_def AddSpawn_def
        NewCommandBuffer_def)
  from Flush_effect [OF registry_inv_NewRegistry grid_ok_New(1) this f] f show ?thesis
    by (simp add: AddDestroy_def AddMove_def AddSpawn_def NewCommandBuffer_def)
qed

end
