(* ===== verification/Combat_Accumulator.thy ===== *)
theory Combat_Accumulator
  imports Ecs_Store
begin

text \<open>
  \<open>server/ecs/combat_accumulator.go\<close>. The code hands out pointers into the backing array of its pool, and the
  pool keeps appending to the same array, so batches live in an explicit memory here: an address is either a
  batch of its own or a slot of a numbered backing array. Go's \<open>append\<close> writes in place while the capacity
  lasts and otherwise copies to a larger array; \<open>grow\<close> is the capacity it chooses. The iteration order of
  the map \<open>batches\<close>, which Go leaves open, is an argument of \<open>Flush\<close>. Damage and threat are unbounded; the
  conversion of the threat to \<open>int64\<close> is exact for the damage values the callers pass.
\<close>

subsection \<open>State\<close>

record DamageBatch =
  TotalDamage :: int
  TotalThreat :: int

definition zero_batch :: DamageBatch where
  "zero_batch = \<lparr>TotalDamage = 0, TotalThreat = 0\<rparr>"

datatype addr = Own nat | Slot nat nat

record CombatAccumulator =
  ca_batches :: "entity \<rightharpoonup> addr"
  ca_mem :: "addr \<Rightarrow> DamageBatch"
  ca_next :: nat
  pool_array :: nat
  pool_len :: nat
  pool_cap :: nat

definition NewCombatAccumulator :: CombatAccumulator where
  "NewCombatAccumulator = \<lparr>ca_batches = Map.empty, ca_mem = (\<lambda>_. zero_batch), ca_next = 0,
     pool_array = 0, pool_len = 0, pool_cap = 64\<rparr>"

subsection \<open>Operations\<close>

text \<open>The batch of a target that has none yet: the last slot of the pool, or a new one.\<close>

definition take_batch :: "CombatAccumulator \<Rightarrow> addr \<times> CombatAccumulator" where
  "take_batch ca =
     (if pool_len ca > 0 then
        let last = pool_len ca - 1; a = Slot (pool_array ca) last
        in (a, ca\<lparr>pool_len := last, ca_mem := (ca_mem ca)(a := zero_batch)\<rparr>)
      else let a = Own (ca_next ca) in (a, ca\<lparr>ca_next := ca_next ca + 1, ca_mem := (ca_mem ca)(a := zero_batch)\<rparr>))"

definition add_to :: "addr \<Rightarrow> int \<Rightarrow> int \<Rightarrow> CombatAccumulator \<Rightarrow> CombatAccumulator" where
  "add_to a amount threatVal ca =
     ca\<lparr>ca_mem := (ca_mem ca)(a := \<lparr>TotalDamage = TotalDamage (ca_mem ca a) + amount,
                                     TotalThreat = TotalThreat (ca_mem ca a) + threatVal\<rparr>)\<rparr>"

definition acc_AddDamage :: "entity \<Rightarrow> int \<Rightarrow> int \<Rightarrow> CombatAccumulator \<Rightarrow> CombatAccumulator" where
  "acc_AddDamage target amount threatVal ca =
     (case ca_batches ca target of
        Some a \<Rightarrow> add_to a amount threatVal ca
      | None \<Rightarrow> (case take_batch ca of (a, ca1) \<Rightarrow>
          add_to a amount threatVal (ca1\<lparr>ca_batches := (ca_batches ca1)(target \<mapsto> a)\<rparr>)))"

text \<open>\<open>append(ca.pool, b)\<close>.\<close>

definition pool_append :: "(nat \<Rightarrow> nat) \<Rightarrow> DamageBatch \<Rightarrow> CombatAccumulator \<Rightarrow> CombatAccumulator" where
  "pool_append grow b ca =
     (if pool_len ca < pool_cap ca then
        ca\<lparr>ca_mem := (ca_mem ca)(Slot (pool_array ca) (pool_len ca) := b), pool_len := pool_len ca + 1\<rparr>
      else
        let new = ca_next ca
        in ca\<lparr>ca_next := new + 1, pool_array := new, pool_cap := grow (pool_cap ca), pool_len := pool_len ca + 1,
              ca_mem := (\<lambda>a. case a of Slot k i \<Rightarrow>
                 if k = new then (if i < pool_len ca then ca_mem ca (Slot (pool_array ca) i)
                                  else if i = pool_len ca then b else zero_batch)
                 else ca_mem ca a | Own _ \<Rightarrow> ca_mem ca a)\<rparr>)"

definition recycleBatch :: "(nat \<Rightarrow> nat) \<Rightarrow> addr \<Rightarrow> CombatAccumulator \<Rightarrow> CombatAccumulator" where
  "recycleBatch grow a ca =
     (let ca1 = ca\<lparr>ca_mem := (ca_mem ca)(a := zero_batch)\<rparr> in pool_append grow (ca_mem ca1 a) ca1)"

text \<open>
  \<open>Flush\<close> over the entries in iteration order: what the callback is called with, and the accumulator
  afterwards. The callbacks of the code do not touch the accumulator.
\<close>

fun flush_loop :: "(nat \<Rightarrow> nat) \<Rightarrow> (entity \<times> addr) list \<Rightarrow> CombatAccumulator \<Rightarrow> (entity \<times> DamageBatch) list \<times> CombatAccumulator" where
  "flush_loop grow [] ca = ([], ca)"
| "flush_loop grow ((target, a) # rest) ca =
     (case flush_loop grow rest (recycleBatch grow a ca) of (out, ca') \<Rightarrow> ((target, ca_mem ca a) # out, ca'))"

definition acc_Flush :: "(nat \<Rightarrow> nat) \<Rightarrow> entity list \<Rightarrow> CombatAccumulator \<Rightarrow> (entity \<times> DamageBatch) list \<times> CombatAccumulator" where
  "acc_Flush grow order ca =
     (if dom (ca_batches ca) = {} then ([], ca)
      else (case flush_loop grow (map (\<lambda>t. (t, the (ca_batches ca t))) order) ca of
              (out, ca') \<Rightarrow> (out, ca'\<lparr>ca_batches := Map.empty\<rparr>)))"

definition acc_Len :: "CombatAccumulator \<Rightarrow> nat" where
  "acc_Len ca = card (dom (ca_batches ca))"

text \<open>An iteration order lists every buffered target once.\<close>

definition iteration_order :: "entity list \<Rightarrow> CombatAccumulator \<Rightarrow> bool" where
  "iteration_order order ca \<longleftrightarrow> distinct order \<and> set order = dom (ca_batches ca)"

subsection \<open>While the pool hands out nothing\<close>

text \<open>Before anything has been recycled every batch is its own object.\<close>

definition own_only :: "CombatAccumulator \<Rightarrow> bool" where
  "own_only ca \<longleftrightarrow> pool_len ca = 0 \<and> inj_on (ca_batches ca) (dom (ca_batches ca)) \<and>
     (\<forall>t a. ca_batches ca t = Some a \<longrightarrow> (\<exists>n < ca_next ca. a = Own n))"

text \<open>What the accumulator holds for each target.\<close>

definition acc_map :: "CombatAccumulator \<Rightarrow> entity \<rightharpoonup> DamageBatch" where
  "acc_map ca t = map_option (ca_mem ca) (ca_batches ca t)"

definition add_map :: "entity \<Rightarrow> int \<Rightarrow> int \<Rightarrow> (entity \<rightharpoonup> DamageBatch) \<Rightarrow> entity \<rightharpoonup> DamageBatch" where
  "add_map t amount threatVal m =
     (let b = (case m t of Some b \<Rightarrow> b | None \<Rightarrow> zero_batch)
      in m(t \<mapsto> \<lparr>TotalDamage = TotalDamage b + amount, TotalThreat = TotalThreat b + threatVal\<rparr>))"

lemma own_only_New: "own_only NewCombatAccumulator" "acc_map NewCombatAccumulator = Map.empty"
  by (auto simp: own_only_def NewCombatAccumulator_def acc_map_def)

lemma own_only_Add:
  assumes ok: "own_only ca"
  shows "own_only (acc_AddDamage t x y ca)" and "acc_map (acc_AddDamage t x y ca) = add_map t x y (acc_map ca)"
proof -
  have own: "\<And>s b. ca_batches ca s = Some b \<Longrightarrow> \<exists>n < ca_next ca. b = Own n" and len: "pool_len ca = 0"
    and inj: "\<And>s u b. ca_batches ca s = Some b \<Longrightarrow> ca_batches ca u = Some b \<Longrightarrow> s = u"
    using ok by (auto simp: own_only_def inj_on_def dom_def)
  have "own_only (acc_AddDamage t x y ca) \<and> acc_map (acc_AddDamage t x y ca) = add_map t x y (acc_map ca)"
  proof (cases "ca_batches ca t")
    case (Some a)
    have "acc_map (add_to a x y ca) s = add_map t x y (acc_map ca) s" for s
      using inj [of s a t] Some by (cases "ca_batches ca s") (auto simp: acc_map_def add_map_def add_to_def Let_def)
    with Some ok show ?thesis by (auto simp: acc_AddDamage_def own_only_def add_to_def fun_eq_iff)
  next
    case None
    let ?a = "Own (ca_next ca)"
    have e: "acc_AddDamage t x y ca = add_to ?a x y (ca\<lparr>ca_next := ca_next ca + 1,
        ca_mem := (ca_mem ca)(?a := zero_batch), ca_batches := (ca_batches ca)(t \<mapsto> ?a)\<rparr>)"
      using None len by (simp add: acc_AddDamage_def take_batch_def Let_def)
    have fresh: "ca_batches ca s \<noteq> Some ?a" for s using own [of s ?a] by auto
    have "acc_map (acc_AddDamage t x y ca) s = add_map t x y (acc_map ca) s" for s
      unfolding e using None fresh [of s]
      by (cases "ca_batches ca s") (auto simp: acc_map_def add_map_def add_to_def zero_batch_def Let_def)
    moreover have "own_only (acc_AddDamage t x y ca)"
      unfolding e own_only_def add_to_def
      using len own inj fresh by (auto simp: inj_on_def dom_def less_Suc_eq split: if_splits)
    ultimately show ?thesis by (auto simp: fun_eq_iff)
  qed
  then show "own_only (acc_AddDamage t x y ca)" and "acc_map (acc_AddDamage t x y ca) = add_map t x y (acc_map ca)"
    by auto
qed

text \<open>A sequence of hits.\<close>

type_synonym hit = "entity \<times> int \<times> int"

definition add_hits :: "hit list \<Rightarrow> CombatAccumulator \<Rightarrow> CombatAccumulator" where
  "add_hits hs ca = fold (\<lambda>(t, x, y). acc_AddDamage t x y) hs ca"

definition hit_sum :: "hit list \<Rightarrow> entity \<Rightarrow> DamageBatch" where
  "hit_sum hs t = \<lparr>TotalDamage = sum_list (map (\<lambda>(_, x, _). x) (filter (\<lambda>h. fst h = t) hs)),
     TotalThreat = sum_list (map (\<lambda>(_, _, y). y) (filter (\<lambda>h. fst h = t) hs))\<rparr>"

definition add_batch :: "DamageBatch \<Rightarrow> DamageBatch \<Rightarrow> DamageBatch" where
  "add_batch a b = \<lparr>TotalDamage = TotalDamage a + TotalDamage b, TotalThreat = TotalThreat a + TotalThreat b\<rparr>"

lemma no_hits: "t \<notin> fst ` set hs \<Longrightarrow> filter (\<lambda>h. fst h = t) hs = []"
  by (auto simp: filter_empty_conv)

lemma add_hits_map:
  "fold (\<lambda>(t, x, y). add_map t x y) hs m t =
     (if t \<in> fst ` set hs then Some (add_batch (case m t of Some b \<Rightarrow> b | None \<Rightarrow> zero_batch) (hit_sum hs t)) else m t)"
proof (induction hs arbitrary: m)
  case (Cons h hs)
  obtain s x y where h: "h = (s, x, y)" by (cases h) auto
  show ?case
    unfolding fold_simps h prod.case Cons.IH
    by (cases "s = t") (auto simp: add_map_def add_batch_def hit_sum_def zero_batch_def Let_def no_hits split: option.splits)
qed simp

lemma add_hits_own:
  "own_only ca \<Longrightarrow> own_only (add_hits hs ca) \<and> acc_map (add_hits hs ca) = fold (\<lambda>(t, x, y). add_map t x y) hs (acc_map ca)"
proof (induction hs arbitrary: ca)
  case (Cons h hs)
  obtain t x y where h: "h = (t, x, y)" by (cases h) auto
  from Cons.IH [OF own_only_Add(1) [OF Cons.prems, of t x y]] own_only_Add(2) [OF Cons.prems, of t x y]
  show ?case by (simp add: add_hits_def h)
qed (simp add: add_hits_def)

lemma recycle_own: "ca_mem (recycleBatch grow (Own n) ca) (Own k) = (if k = n then zero_batch else ca_mem ca (Own k))"
  by (auto simp: recycleBatch_def pool_append_def Let_def)

lemma flush_loop_own:
  "distinct (map snd es) \<Longrightarrow> \<forall>(t, a) \<in> set es. \<exists>n. a = Own n \<Longrightarrow>
   fst (flush_loop grow es ca) = map (\<lambda>(t, a). (t, ca_mem ca a)) es"
proof (induction grow es ca rule: flush_loop.induct)
  case (2 grow target a rest ca)
  then obtain n where a: "a = Own n" by auto
  have "ca_mem (recycleBatch grow a ca) b = ca_mem ca b" if "(t, b) \<in> set rest" for t b
  proof -
    from 2(3) that obtain k where "b = Own k" by auto
    moreover from 2(2) that have "b \<noteq> a" by force
    ultimately show ?thesis by (simp add: a recycle_own)
  qed
  then have "map (\<lambda>(t, b). (t, ca_mem (recycleBatch grow a ca) b)) rest = map (\<lambda>(t, b). (t, ca_mem ca b)) rest"
    by auto
  with 2 show ?case by (auto split: prod.split)
qed simp

lemma flush_own_only:
  assumes ok: "own_only ca" and ord: "iteration_order order ca"
  shows "fst (acc_Flush grow order ca) = map (\<lambda>t. (t, the (acc_map ca t))) order"
proof (cases "dom (ca_batches ca) = {}")
  case True
  with ord show ?thesis by (simp add: acc_Flush_def iteration_order_def)
next
  case False
  have dom: "\<exists>a. ca_batches ca t = Some a" if "t \<in> set order" for t
    using ord that by (auto simp: iteration_order_def)
  let ?es = "map (\<lambda>t. (t, the (ca_batches ca t))) order"
  have "distinct (map snd ?es)"
  proof -
    have "inj_on (\<lambda>t. the (ca_batches ca t)) (set order)"
    proof (rule inj_onI)
      fix s t assume st: "s \<in> set order" "t \<in> set order" "the (ca_batches ca s) = the (ca_batches ca t)"
      then have "ca_batches ca s = ca_batches ca t" using dom [OF st(1)] dom [OF st(2)] by auto
      with st ok ord show "s = t" by (auto simp: own_only_def iteration_order_def dest: inj_onD)
    qed
    with ord show ?thesis by (simp add: distinct_map comp_def iteration_order_def)
  qed
  moreover have "\<forall>(t, a) \<in> set ?es. \<exists>n. a = Own n"
    using dom ok by (fastforce simp: own_only_def)
  ultimately have "fst (flush_loop grow ?es ca) = map (\<lambda>(t, a). (t, ca_mem ca a)) ?es" by (rule flush_loop_own)
  moreover have "fst (acc_Flush grow order ca) = fst (flush_loop grow ?es ca)"
    using False by (simp add: acc_Flush_def split: prod.split)
  ultimately show ?thesis using dom by (fastforce simp: acc_map_def)
qed

text \<open>
  In the first tick the flush calls back once per target that was hit, in whatever order the map is iterated,
  with the exact sums of its hits.
\<close>

lemma first_flush:
  assumes "iteration_order order (add_hits hs NewCombatAccumulator)"
  shows "fst (acc_Flush grow order (add_hits hs NewCombatAccumulator)) = map (\<lambda>t. (t, hit_sum hs t)) order \<and>
    set order = fst ` set hs \<and> distinct order"
proof -
  note own = add_hits_own [OF own_only_New(1), of hs]
  have m: "acc_map (add_hits hs NewCombatAccumulator) t =
      (if t \<in> fst ` set hs then Some (add_batch zero_batch (hit_sum hs t)) else None)" for t
    using own by (simp add: own_only_New add_hits_map)
  have "dom (ca_batches (add_hits hs NewCombatAccumulator)) = dom (acc_map (add_hits hs NewCombatAccumulator))"
    by (auto simp: acc_map_def dom_def)
  also have "\<dots> = fst ` set hs" by (auto simp: m dom_def split: if_splits)
  finally have "set order = fst ` set hs" "distinct order" using assms by (auto simp: iteration_order_def)
  moreover have "add_batch zero_batch b = b" for b by (simp add: add_batch_def zero_batch_def)
  ultimately show ?thesis
    using flush_own_only [OF conjunct1 [OF own] assms, of grow] m by auto
qed

subsection \<open>When slots are shared\<close>

text \<open>
  Two ticks with two targets each: the first fills the pool with two slots, and the second hands both out, the
  last one first. Recycling the first batch of the second flush writes into slot 0, which is the batch of the
  other target.
\<close>

definition two_ticks :: "entity list \<Rightarrow> entity list \<Rightarrow> (entity \<times> DamageBatch) list" where
  "two_ticks order1 order2 =
     (let tick = add_hits [(1, 10, 0), (2, 20, 0)]
      in fst (acc_Flush (\<lambda>n. 2 * n) order2 (tick (snd (acc_Flush (\<lambda>n. 2 * n) order1 (tick NewCombatAccumulator))))))"

lemmas acc_eval = two_ticks_def add_hits_def acc_AddDamage_def take_batch_def add_to_def acc_Flush_def
  recycleBatch_def pool_append_def NewCombatAccumulator_def Let_def zero_batch_def

lemma two_ticks_lost: "two_ticks [1, 2] [1, 2] = [(1, \<lparr>TotalDamage = 10, TotalThreat = 0\<rparr>), (2, \<lparr>TotalDamage = 0, TotalThreat = 0\<rparr>)]"
  by (simp add: acc_eval)

lemma two_ticks_kept: "two_ticks [1, 2] [2, 1] = [(2, \<lparr>TotalDamage = 20, TotalThreat = 0\<rparr>), (1, \<lparr>TotalDamage = 10, TotalThreat = 0\<rparr>)]"
  by (simp add: acc_eval)

subsection \<open>Properties\<close>

text \<open>
  From the second tick on, damage can be lost: with two targets hit in two consecutive ticks, whether the
  damage of the second tick reaches both depends on the iteration order of a Go map, because the batch that
  is recycled first overwrites the slot of the other.
\<close>

theorem recycling_loses_damage:
  "TotalDamage (the (map_of (two_ticks [1, 2] [1, 2]) 2)) = 0 \<and>
   TotalDamage (the (map_of (two_ticks [1, 2] [2, 1]) 2)) = 20 \<and>
   TotalDamage (hit_sum [(1, 10, 0), (2, 20, 0)] 2) = 20"
  by (simp add: two_ticks_lost two_ticks_kept hit_sum_def)

end
