(* ===== verification/Map_Worker.thy ===== *)
theory Map_Worker
  imports Ecs_Commands Wire Combat_Accumulator Aoi
begin

text \<open>
  \<open>server/world/worker.go\<close>: the state of one map and its tick. The tick function is an argument, as in the
  code; the channel of ticks is the list of those waiting, at most eight. What is sent is a log of pairs of a receiver and a frame, in order; putting a frame into a
  receiver's queue is \<open>Send\<close> of the connection writer. The map of active regions holds only \<open>true\<close>, so it is
  a set.
\<close>

subsection \<open>State\<close>

type_synonym outbox = "(entity \<times> byte_seq) list"

record MapWorker =
  mw_ID :: int
  mw_tickChan :: "u64 list"
  mw_Registry :: Registry
  mw_SpatialGrid :: SpatialGrid
  mw_AOIManager :: AOIManager
  mw_CmdBuf :: CommandBuffer
  mw_CombatBuffer :: CombatAccumulator
  mw_activeRegions :: "ChunkKey set"
  mw_regionWakeBuffer :: "ChunkKey list"

definition NewMapWorker :: "int \<Rightarrow> MapWorker" where
  "NewMapWorker mapID = \<lparr>mw_ID = mapID, mw_tickChan = [], mw_Registry = NewRegistry, mw_SpatialGrid = NewGrid,
     mw_AOIManager = NewAOIManager, mw_CmdBuf = NewCommandBuffer,
     mw_CombatBuffer = NewCombatAccumulator, mw_activeRegions = {}, mw_regionWakeBuffer = []\<rparr>"

subsection \<open>Entities and regions\<close>

definition SpawnEntity :: "entity \<Rightarrow> PositionComponent \<Rightarrow> MetadataComponent \<Rightarrow> StatsComponent \<Rightarrow> MapWorker \<Rightarrow> MapWorker" where
  "SpawnEntity e pos meta st mw =
     mw\<lparr>mw_Registry := SetStats e st (SetMetadata e meta (SetPosition e pos (mw_Registry mw))),
        mw_SpatialGrid := UpdateEntityPosition e pos (mw_SpatialGrid mw)\<rparr>"

definition DespawnEntity :: "entity \<Rightarrow> MapWorker \<Rightarrow> entity list \<Rightarrow> MapWorker \<times> entity list" where
  "DespawnEntity e mw fl =
     (case RemoveEntity e (mw_Registry mw) fl of
        (r, fl') \<Rightarrow> (mw\<lparr>mw_SpatialGrid := grid_RemoveEntity e (mw_SpatialGrid mw), mw_Registry := r\<rparr>, fl'))"

definition ActivateRegion :: "ChunkKey \<Rightarrow> MapWorker \<Rightarrow> MapWorker" where
  "ActivateRegion k mw = mw\<lparr>mw_activeRegions := insert k (mw_activeRegions mw)\<rparr>"

definition DeactivateRegion :: "ChunkKey \<Rightarrow> MapWorker \<Rightarrow> MapWorker" where
  "DeactivateRegion k mw = mw\<lparr>mw_activeRegions := mw_activeRegions mw - {k}\<rparr>"

definition IsRegionActive :: "MapWorker \<Rightarrow> ChunkKey \<Rightarrow> bool" where
  "IsRegionActive mw k \<longleftrightarrow> k \<in> mw_activeRegions mw"

definition WakeRegionForEntity :: "PositionComponent \<Rightarrow> MapWorker \<Rightarrow> MapWorker" where
  "WakeRegionForEntity pos mw =
     (let key = WorldToChunk pos
      in if key \<notin> mw_activeRegions mw then mw\<lparr>mw_regionWakeBuffer := mw_regionWakeBuffer mw @ [key]\<rparr> else mw)"

definition FlushRegionWakeBuffer :: "MapWorker \<Rightarrow> MapWorker" where
  "FlushRegionWakeBuffer mw = (fold ActivateRegion (mw_regionWakeBuffer mw) mw)\<lparr>mw_regionWakeBuffer := []\<rparr>"

definition SweepRegions :: "MapWorker \<Rightarrow> MapWorker" where
  "SweepRegions mw = mw\<lparr>mw_activeRegions := mw_activeRegions mw \<inter> ran (entityIndex (mw_SpatialGrid mw))\<rparr>"

subsection \<open>The combat flush\<close>

definition buildStatsSyncFrame ::
  "u64 \<Rightarrow> u32 \<Rightarrow> u32 \<Rightarrow> u32 \<Rightarrow> u32 \<Rightarrow> u32 \<Rightarrow> u32 \<Rightarrow> u32 \<Rightarrow> u32 \<Rightarrow> u32 \<Rightarrow> u32 \<Rightarrow> u32 \<Rightarrow> u32 \<Rightarrow> byte_seq" where
  "buildStatsSyncFrame entityID hp maxHP mp maxMP dam level defense magicDefense magicAttack hitRate dodgeRate critRate =
     [0, 57, 0x13,
      ucast (drop_bit 56 entityID), ucast (drop_bit 48 entityID), ucast (drop_bit 40 entityID), ucast (drop_bit 32 entityID),
      ucast (drop_bit 24 entityID), ucast (drop_bit 16 entityID), ucast (drop_bit 8 entityID), ucast entityID,
      ucast (drop_bit 24 hp), ucast (drop_bit 16 hp), ucast (drop_bit 8 hp), ucast hp,
      ucast (drop_bit 24 maxHP), ucast (drop_bit 16 maxHP), ucast (drop_bit 8 maxHP), ucast maxHP,
      ucast (drop_bit 24 mp), ucast (drop_bit 16 mp), ucast (drop_bit 8 mp), ucast mp,
      ucast (drop_bit 24 maxMP), ucast (drop_bit 16 maxMP), ucast (drop_bit 8 maxMP), ucast maxMP,
      ucast (drop_bit 24 dam), ucast (drop_bit 16 dam), ucast (drop_bit 8 dam), ucast dam,
      ucast (drop_bit 24 level), ucast (drop_bit 16 level), ucast (drop_bit 8 level), ucast level,
      ucast (drop_bit 24 defense), ucast (drop_bit 16 defense), ucast (drop_bit 8 defense), ucast defense,
      ucast (drop_bit 24 magicDefense), ucast (drop_bit 16 magicDefense), ucast (drop_bit 8 magicDefense), ucast magicDefense,
      ucast (drop_bit 24 magicAttack), ucast (drop_bit 16 magicAttack), ucast (drop_bit 8 magicAttack), ucast magicAttack,
      ucast (drop_bit 24 hitRate), ucast (drop_bit 16 hitRate), ucast (drop_bit 8 hitRate), ucast hitRate,
      ucast (drop_bit 24 dodgeRate), ucast (drop_bit 16 dodgeRate), ucast (drop_bit 8 dodgeRate), ucast dodgeRate,
      ucast (drop_bit 24 critRate), ucast (drop_bit 16 critRate), ucast (drop_bit 8 critRate), ucast critRate]"

definition combatBufferAOIRadius :: real where
  "combatBufferAOIRadius = 60"

text \<open>Receivers of a frame: candidates with an open connection and a writer.\<close>

definition receivers :: "Registry \<Rightarrow> (entity \<times> PositionComponent) list \<Rightarrow> entity list" where
  "receivers r cands = filter (\<lambda>e. case GetConnection r e of None \<Rightarrow> False
     | Some c \<Rightarrow> has_conn c \<and> conn_writer c \<noteq> None) (map fst cands)"

definition flush_stats :: "DamageBatch \<Rightarrow> StatsComponent \<Rightarrow> StatsComponent" where
  "flush_stats b st = (let hp = st_HP st - TotalDamage b in st\<lparr>st_HP := (if hp < 0 then 0 else hp)\<rparr>)"

definition stats_frame :: "entity \<Rightarrow> StatsComponent \<Rightarrow> byte_seq" where
  "stats_frame e st = buildStatsSyncFrame e (of_int (st_HP st)) (of_int (st_MaxHP st)) (of_int (st_MP st))
     (of_int (st_MaxMP st)) (of_int (st_Dam st)) (of_int (st_Level st)) (of_int (st_Defense st))
     (of_int (st_MagicDefense st)) (of_int (st_MagicAttack st)) (of_int (st_HitRate st)) (of_int (st_DodgeRate st))
     (of_int (st_CritRate st))"

text \<open>
  The callback. Its last part looks up the killer of a target whose hit points reach zero and then does
  nothing with it (a TODO in the code), so that it has no effect on the state.
\<close>

definition flush_target :: "SpatialGrid \<Rightarrow> entity \<times> DamageBatch \<Rightarrow> Registry \<times> outbox \<Rightarrow> Registry \<times> outbox" where
  "flush_target g tb s = (case (tb, s) of ((target, batch), (r, out)) \<Rightarrow>
     (case GetStats r target of
        None \<Rightarrow> (r, out)
      | Some st0 \<Rightarrow>
          let st = flush_stats batch st0; r' = SetStats target st r
          in (case GetPosition r' target of
                None \<Rightarrow> (r', out)
              | Some pos \<Rightarrow> (r', out @ map (\<lambda>e. (e, stats_frame target st))
                  (receivers r' (QueryRadius g pos combatBufferAOIRadius target))))))"

definition flushCombatBuffer :: "(nat \<Rightarrow> nat) \<Rightarrow> entity list \<Rightarrow> MapWorker \<Rightarrow> outbox \<Rightarrow> MapWorker \<times> outbox" where
  "flushCombatBuffer grow order mw out =
     (case acc_Flush grow order (mw_CombatBuffer mw) of (calls, ca) \<Rightarrow>
        (case fold (flush_target (mw_SpatialGrid mw)) calls (mw_Registry mw, out) of
           (r, out') \<Rightarrow> (mw\<lparr>mw_CombatBuffer := ca, mw_Registry := r\<rparr>, out')))"

text \<open>One tick: the systems, the command buffer, the combat buffer, the regions.\<close>

definition worker_Tick ::
  "(MapWorker \<Rightarrow> MapWorker) \<Rightarrow> (nat \<Rightarrow> nat) \<Rightarrow> (CombatAccumulator \<Rightarrow> entity list) \<Rightarrow> MapWorker \<Rightarrow> entity list \<Rightarrow> outbox \<Rightarrow>
   MapWorker \<times> entity list \<times> outbox" where
  "worker_Tick tickFn grow order mw fl out =
     (let mw1 = tickFn mw;
          (cb, r, fl', g) = Flush UpdateEntityPosition grid_RemoveEntity (mw_CmdBuf mw1) (mw_Registry mw1) fl (mw_SpatialGrid mw1);
          mw2 = mw1\<lparr>mw_CmdBuf := cb, mw_Registry := r, mw_SpatialGrid := g\<rparr>;
          (mw3, out') = flushCombatBuffer grow (order (mw_CombatBuffer mw2)) mw2 out
      in (FlushRegionWakeBuffer mw3, fl', out'))"

subsection \<open>Lemmas\<close>

lemma be_bytes:
  "be 8 v = [ucast (drop_bit 56 v), ucast (drop_bit 48 v), ucast (drop_bit 40 v), ucast (drop_bit 32 v),
     ucast (drop_bit 24 v), ucast (drop_bit 16 v), ucast (drop_bit 8 v), ucast v]"
  by (simp add: eval_nat_numeral)

lemma u16_bytes: "u16_be v = [ucast (drop_bit 8 v), ucast v]"
proof -
  have "be 2 w = [ucast (drop_bit 8 w), ucast w]" for w by (simp add: numeral_2_eq_2)
  then show ?thesis unfolding u16_be_def by (auto intro!: bit_eqI simp: bit_simps)
qed

lemma u32_bytes: "u32_be v = [ucast (drop_bit 24 v), ucast (drop_bit 16 v), ucast (drop_bit 8 v), ucast v]"
proof -
  have "be 4 w = [ucast (drop_bit 24 w), ucast (drop_bit 16 w), ucast (drop_bit 8 w), ucast w]" for w
    by (simp add: eval_nat_numeral)
  then show ?thesis unfolding u32_be_def by (auto intro!: bit_eqI simp: bit_simps)
qed

text \<open>The hand-written frame is the packet of the broadcast package.\<close>

lemma buildStatsSyncFrame_eq:
  "buildStatsSyncFrame (ss_EntityID p) (ss_HP p) (ss_MaxHP p) (ss_MP p) (ss_MaxMP p) (ss_Dam p) (ss_Level p) (ss_Defense p)
     (ss_MagicDefense p) (ss_MagicAttack p) (ss_HitRate p) (ss_DodgeRate p) (ss_CritRate p) = BuildStatsSync p"
proof -
  have hdr: "u16_be 57 = [0, 57]" by (simp add: u16_bytes)
  show ?thesis
    unfolding StatsSync_spec frame_spec_def buildStatsSyncFrame_def OpcodeStatsSync_def
    by (simp only: length_append length_be length_field) (simp add: hdr be_bytes u32_bytes)
qed

lemma FlushRegionWakeBuffer_active:
  "mw_activeRegions (FlushRegionWakeBuffer mw) = mw_activeRegions mw \<union> set (mw_regionWakeBuffer mw)"
proof -
  have "mw_activeRegions (fold ActivateRegion ks mw) = mw_activeRegions mw \<union> set ks" for ks
    by (induction ks arbitrary: mw) (auto simp: ActivateRegion_def)
  then show ?thesis by (simp add: FlushRegionWakeBuffer_def)
qed

lemma grid_index_home:
  assumes "grid_ok g" and "entityIndex g e = Some k"
  shows "\<exists>p. grid_of g e = Some p \<and> WorldToChunk p = k"
proof -
  from assms have "e \<in> fst ` set (bucket_at g k)" unfolding grid_ok_def by blast
  then obtain p where p: "(e, p) \<in> set (bucket_at g k)" by auto
  with bucket_member [OF assms(1), of e p k] show ?thesis by blast
qed

lemma Sweep_populated:
  "grid_ok (mw_SpatialGrid mw) \<Longrightarrow> IsRegionActive (SweepRegions mw) k \<Longrightarrow> \<exists>e p. grid_of (mw_SpatialGrid mw) e = Some p \<and> WorldToChunk p = k"
  by (clarsimp simp: IsRegionActive_def SweepRegions_def ran_def) (use grid_index_home in blast)

text \<open>The callbacks change the hit points of their targets and nothing else.\<close>

definition same_but_stats :: "Registry \<Rightarrow> Registry \<Rightarrow> bool" where
  "same_but_stats r r' \<longleftrightarrow> registry_inv r' \<and> registered r' = registered r \<and> GetMetadata r' = GetMetadata r \<and>
     GetPosition r' = GetPosition r \<and> GetAI r' = GetAI r \<and> GetConnection r' = GetConnection r"

lemma flush_target_step:
  assumes inv: "registry_inv r" and f: "flush_target g (t, b) (r, out) = (r', out')"
  shows "same_but_stats r r' \<and> GetStats r' = (GetStats r)(t := map_option (flush_stats b) (GetStats r t))"
proof (cases "GetStats r t")
  case None
  with f inv show ?thesis by (auto simp: flush_target_def same_but_stats_def fun_upd_idem)
next
  case (Some st)
  with f have "r' = SetStats t (flush_stats b st) r"
    by (auto simp: flush_target_def Let_def split: option.splits)
  with Some inv Get_registered(4) [OF inv Some] show ?thesis by (simp add: same_but_stats_def)
qed

lemma flush_targets:
  "registry_inv r \<Longrightarrow> distinct (map fst calls) \<Longrightarrow> fold (flush_target g) calls (r, out) = (r', out') \<Longrightarrow>
   same_but_stats r r' \<and> (\<forall>e. GetStats r' e =
     (case map_of calls e of None \<Rightarrow> GetStats r e | Some b \<Rightarrow> map_option (flush_stats b) (GetStats r e)))"
proof (induction calls arbitrary: r out)
  case (Cons c calls)
  obtain t b where c: "c = (t, b)" by force
  obtain r1 out1 where one: "flush_target g (t, b) (r, out) = (r1, out1)" by force
  note st = flush_target_step [OF Cons.prems(1) one]
  then have inv: "registry_inv r1" by (simp add: same_but_stats_def)
  have ih: "same_but_stats r1 r' \<and> (\<forall>e. GetStats r' e =
     (case map_of calls e of None \<Rightarrow> GetStats r1 e | Some b \<Rightarrow> map_option (flush_stats b) (GetStats r1 e)))"
    using Cons.IH [OF inv _ , of out1] Cons.prems one c by simp
  have "t \<notin> fst ` set calls" using Cons.prems(2) c by simp
  then have "map_of calls t = None" by (simp add: map_of_eq_None_iff)
  with ih st show ?case unfolding c same_but_stats_def by (auto split: option.splits)
qed (simp add: same_but_stats_def)

lemma flush_stats_HP: "st_HP (flush_stats b st) = max 0 (st_HP st - TotalDamage b)" "0 \<le> st_HP (flush_stats b st)"
  by (auto simp: flush_stats_def Let_def)

subsection \<open>Properties\<close>

text \<open>
  The combat flush of the first tick of a map, with whatever hits its systems buffered and in whatever
  order the buffer is iterated, lowers every target's hit points once by the sum of its hits, to zero at
  least, and changes no other component of any entity: a target at zero stays in the world.
\<close>

theorem first_combat_flush:
  assumes "registry_inv (mw_Registry mw)" and "mw_CombatBuffer mw = add_hits hs NewCombatAccumulator"
    and "iteration_order order (mw_CombatBuffer mw)"
    and "flushCombatBuffer grow order mw out = (mw', out')"
  shows "(\<forall>e. map_option st_HP (GetStats (mw_Registry mw') e) =
       (if e \<in> fst ` set hs
        then map_option (\<lambda>st. max 0 (st_HP st - TotalDamage (hit_sum hs e))) (GetStats (mw_Registry mw) e)
        else map_option st_HP (GetStats (mw_Registry mw) e))) \<and>
    registered (mw_Registry mw') = registered (mw_Registry mw) \<and>
    GetMetadata (mw_Registry mw') = GetMetadata (mw_Registry mw) \<and> registry_inv (mw_Registry mw') \<and>
    mw_SpatialGrid mw' = mw_SpatialGrid mw"
proof -
  obtain calls ca where fl: "acc_Flush grow order (mw_CombatBuffer mw) = (calls, ca)" by force
  obtain r1 out1 where fo: "fold (flush_target (mw_SpatialGrid mw)) calls (mw_Registry mw, out) = (r1, out1)" by force
  from assms(4) fl fo have mw': "mw_Registry mw' = r1" "mw_SpatialGrid mw' = mw_SpatialGrid mw"
    by (auto simp: flushCombatBuffer_def)
  from first_flush [of order hs grow] assms(2,3) fl
  have calls: "calls = map (\<lambda>t. (t, hit_sum hs t)) order" "set order = fst ` set hs" "distinct order" by auto
  then have d: "distinct (map fst calls)" by (simp add: comp_def)
  have "map_of calls e = (if e \<in> fst ` set hs then Some (hit_sum hs e) else None)" for e
    unfolding calls(1) by (simp add: map_of_map_keys flip: calls(2)) (auto simp: map_of_eq_None_iff map_of_map_restrict restrict_map_def)
  with flush_targets [OF assms(1) d fo] show ?thesis
    unfolding mw' same_but_stats_def by (auto simp: option.map_comp comp_def flush_stats_HP split: option.splits)
qed

theorem first_combat_flush_witness:
  "let mw = (SpawnEntity 7 slime_pos slime_meta slime_stats (NewMapWorker 1))\<lparr>mw_CombatBuffer :=
              add_hits [(7, 5, 0), (7, 6, 0)] NewCombatAccumulator\<rparr>
   in map_option st_HP (GetStats (mw_Registry (fst (flushCombatBuffer (\<lambda>n. 2 * n) [7] mw []))) 7) = Some 0"
proof -
  let ?r = "SetStats 7 slime_stats (SetMetadata 7 slime_meta (SetPosition 7 slime_pos NewRegistry))"
  let ?mw = "(SpawnEntity 7 slime_pos slime_meta slime_stats (NewMapWorker 1))\<lparr>mw_CombatBuffer :=
              add_hits [(7, 5, 0), (7, 6, 0)] NewCombatAccumulator\<rparr>"
  have emp: "registered NewRegistry = {}" by (simp add: registered_def NewRegistry_def empty_store_def)
  have one: "inj_on EntityIndex (insert 7 (registered NewRegistry))" by (simp add: emp)
  note p = SetPosition_inv [OF registry_inv_NewRegistry one, of slime_pos]
  have mem: "7 \<in> registered (SetPosition 7 slime_pos NewRegistry)" using p(3) by simp
  have inv: "registry_inv (mw_Registry ?mw)" and reg: "mw_Registry ?mw = ?r"
    and st: "GetStats ?r 7 = Some slime_stats"
    using p(1) mem by (simp_all add: SpawnEntity_def NewMapWorker_def)
  have ord: "iteration_order [7] (mw_CombatBuffer ?mw)"
    by (auto simp: iteration_order_def acc_eval dom_def split: if_splits)
  obtain mw' out' where f: "flushCombatBuffer (\<lambda>n. 2 * n) [7] ?mw [] = (mw', out')" by force
  have cb: "mw_CombatBuffer ?mw = add_hits [(7, 5, 0), (7, 6, 0)] NewCombatAccumulator" by simp
  have "map_option st_HP (GetStats (mw_Registry mw') 7) = Some 0"
    using conjunct1 [OF first_combat_flush [OF inv cb ord f]] reg st by (simp add: hit_sum_def slime_stats_def)
  with f show ?thesis by (simp add: Let_def)
qed

end
