(* ===== verification/Monster_Fsm.thy ===== *)
theory Monster_Fsm
  imports Fsm Ecs_Components
begin

text \<open>
  \<open>server/game/ai_fsm.go\<close>: the state machine of the monsters and its instances, one per entity, which live
  beside the registry. Every change goes through \<open>MonsterFSMSend\<close>, which also sets the state of the AI
  component. Its log line is left out.
\<close>

subsection \<open>Events and instances\<close>

datatype MonsterEvent =
  MonsterEvTick | MonsterEvAggro | MonsterEvLostTarget | MonsterEvInRange | MonsterEvOutOfRange
| MonsterEvPathDone | MonsterEvAtSpawn | MonsterEvThreatSwitch

definition MonsterEvent_String :: "MonsterEvent \<Rightarrow> string" where
  "MonsterEvent_String e = (case e of
     MonsterEvTick \<Rightarrow> ''Tick'' | MonsterEvAggro \<Rightarrow> ''Aggro'' | MonsterEvLostTarget \<Rightarrow> ''LostTarget''
   | MonsterEvInRange \<Rightarrow> ''InRange'' | MonsterEvOutOfRange \<Rightarrow> ''OutOfRange'' | MonsterEvPathDone \<Rightarrow> ''PathDone''
   | MonsterEvAtSpawn \<Rightarrow> ''AtSpawn'' | MonsterEvThreatSwitch \<Rightarrow> ''ThreatSwitch'')"

type_synonym monster_fsm = "(AIState, MonsterEvent) FSM"
type_synonym monsterFSMStore = "entity \<rightharpoonup> monster_fsm"

definition rule :: "AIState \<Rightarrow> MonsterEvent \<Rightarrow> AIState \<Rightarrow> (AIState, MonsterEvent) TransitionRule" where
  "rule a e b = \<lparr>From = a, Event = e, To = b\<rparr>"

definition buildMonsterFSMDef :: "(AIState, MonsterEvent) FSMDef option" where
  "buildMonsterFSMDef = NewFSMDef AIStateIdle
     [rule AIStateIdle MonsterEvTick AIStateRoaming,
      rule AIStateIdle MonsterEvAggro AIStateChasing,
      rule AIStateRoaming MonsterEvAggro AIStateChasing,
      rule AIStateRoaming MonsterEvPathDone AIStateIdle,
      rule AIStateChasing MonsterEvInRange AIStateAttacking,
      rule AIStateChasing MonsterEvLostTarget AIStateReturning,
      rule AIStateChasing MonsterEvThreatSwitch AIStateChasing,
      rule AIStateAttacking MonsterEvOutOfRange AIStateChasing,
      rule AIStateAttacking MonsterEvLostTarget AIStateReturning,
      rule AIStateReturning MonsterEvAtSpawn AIStateIdle,
      rule AIStateReturning MonsterEvAggro AIStateChasing]"

definition GetOrCreateMonsterFSM :: "entity \<Rightarrow> monsterFSMStore \<Rightarrow> monster_fsm \<times> monsterFSMStore" where
  "GetOrCreateMonsterFSM e fs = (case fs e of
     Some inst \<Rightarrow> (inst, fs)
   | None \<Rightarrow> let inst = NewFSM AIStateIdle buildMonsterFSMDef in (inst, fs(e \<mapsto> inst)))"

definition RemoveMonsterFSM :: "entity \<Rightarrow> monsterFSMStore \<Rightarrow> monsterFSMStore" where
  "RemoveMonsterFSM e fs = fs(e := None)"

definition MonsterFSMSend :: "entity \<Rightarrow> MonsterEvent \<Rightarrow> AIComponent \<times> monsterFSMStore \<Rightarrow> bool \<times> AIComponent \<times> monsterFSMStore" where
  "MonsterFSMSend e ev s = (case s of (a, fs) \<Rightarrow>
     (case GetOrCreateMonsterFSM e fs of (inst, fs1) \<Rightarrow>
       (case fsm_Send inst ev of ((newState, ok), inst') \<Rightarrow>
         if \<not> ok then (False, a, fs1(e \<mapsto> inst'))
         else (True, a\<lparr>ai_State := newState\<rparr>, fs1(e \<mapsto> inst')))))"

subsection \<open>What an event does\<close>

definition fsm_target :: "AIState \<Rightarrow> MonsterEvent \<Rightarrow> AIState option" where
  "fsm_target s e = (case (s, e) of
     (AIStateIdle, MonsterEvTick) \<Rightarrow> Some AIStateRoaming
   | (AIStateIdle, MonsterEvAggro) \<Rightarrow> Some AIStateChasing
   | (AIStateRoaming, MonsterEvAggro) \<Rightarrow> Some AIStateChasing
   | (AIStateRoaming, MonsterEvPathDone) \<Rightarrow> Some AIStateIdle
   | (AIStateChasing, MonsterEvInRange) \<Rightarrow> Some AIStateAttacking
   | (AIStateChasing, MonsterEvLostTarget) \<Rightarrow> Some AIStateReturning
   | (AIStateChasing, MonsterEvThreatSwitch) \<Rightarrow> Some AIStateChasing
   | (AIStateAttacking, MonsterEvOutOfRange) \<Rightarrow> Some AIStateChasing
   | (AIStateAttacking, MonsterEvLostTarget) \<Rightarrow> Some AIStateReturning
   | (AIStateReturning, MonsterEvAtSpawn) \<Rightarrow> Some AIStateIdle
   | (AIStateReturning, MonsterEvAggro) \<Rightarrow> Some AIStateChasing
   | _ \<Rightarrow> None)"

lemma buildMonsterFSMDef_some: "\<exists>d. buildMonsterFSMDef = Some d"
proof (cases buildMonsterFSMDef)
  case None
  then show ?thesis by (simp add: buildMonsterFSMDef_def NewFSMDef_None rule_key_def rule_def)
qed blast

definition monsterFSMDef :: "(AIState, MonsterEvent) FSMDef" where
  "monsterFSMDef = the buildMonsterFSMDef"

lemma buildMonsterFSMDef: "buildMonsterFSMDef = Some monsterFSMDef"
  using buildMonsterFSMDef_some by (auto simp: monsterFSMDef_def)

lemma monsterFSMDef_next: "next_state monsterFSMDef s e = fsm_target s e"
  and monsterFSMDef_initial: "initial_state monsterFSMDef = AIStateIdle"
  and monsterFSMDef_hooks: "onEnter monsterFSMDef = (\<lambda>_. [])" "onExit monsterFSMDef = (\<lambda>_. [])"
  using NewFSMDef_Some [OF buildMonsterFSMDef [unfolded buildMonsterFSMDef_def], of s e]
  by (cases s; cases e; simp add: rule_key_def rule_def fsm_target_def)+

text \<open>The state an instance is in; an entity without one starts idle.\<close>

definition fsm_state :: "monsterFSMStore \<Rightarrow> entity \<Rightarrow> AIState" where
  "fsm_state fs e = (case fs e of None \<Rightarrow> AIStateIdle | Some inst \<Rightarrow> Current inst)"

definition fsms_ok :: "monsterFSMStore \<Rightarrow> bool" where
  "fsms_ok fs \<longleftrightarrow> (\<forall>e inst. fs e = Some inst \<longrightarrow> Def inst = Some monsterFSMDef)"

lemma fsms_ok_empty: "fsms_ok Map.empty"
  by (simp add: fsms_ok_def)

lemma monster_Send:
  assumes "Def inst = Some monsterFSMDef"
  shows "fsm_Send inst ev = (case fsm_target (Current inst) ev of
      None \<Rightarrow> ((Current inst, False), inst)
    | Some t \<Rightarrow> ((Current inst, True), inst\<lparr>Current := t, Ticker := timer_Reset (Ticker inst)\<rparr>))"
  using assms
  by (simp add: fsm_Send_cases monsterFSMDef_next guards_pass_def monsterFSMDef_hooks split: option.split)

text \<open>
  An accepted event moves the instance to its target but sets the component to the state the instance
  \<^emph>\<open>left\<close>, because \<open>Send\<close> returns that one: the component lags one transition behind.
\<close>

lemma MonsterFSMSend_spec:
  assumes ok: "fsms_ok fs" and send: "MonsterFSMSend e ev (a, fs) = (b, a', fs')"
  shows "fsms_ok fs'" and "\<And>x. x \<noteq> e \<Longrightarrow> fs' x = fs x"
    and "b \<longleftrightarrow> fsm_target (fsm_state fs e) ev \<noteq> None"
    and "fsm_state fs' e = (case fsm_target (fsm_state fs e) ev of None \<Rightarrow> fsm_state fs e | Some t \<Rightarrow> t)"
    and "a' = (if b then a\<lparr>ai_State := fsm_state fs e\<rparr> else a)"
proof -
  obtain inst fs1 where inst: "GetOrCreateMonsterFSM e fs = (inst, fs1)" by force
  have I: "Def inst = Some monsterFSMDef" "Current inst = fsm_state fs e" "fs1 = fs(e \<mapsto> inst)"
    using inst ok by (auto simp: GetOrCreateMonsterFSM_def NewFSM_def buildMonsterFSMDef monsterFSMDef_initial fsm_state_def
        fsms_ok_def Let_def fun_upd_idem split: option.splits)
  have "fsms_ok fs' \<and> (\<forall>x. x \<noteq> e \<longrightarrow> fs' x = fs x) \<and> (b \<longleftrightarrow> fsm_target (fsm_state fs e) ev \<noteq> None) \<and>
    fsm_state fs' e = (case fsm_target (fsm_state fs e) ev of None \<Rightarrow> fsm_state fs e | Some t \<Rightarrow> t) \<and>
    a' = (if b then a\<lparr>ai_State := fsm_state fs e\<rparr> else a)"
    using send inst I ok
    by (auto simp: MonsterFSMSend_def monster_Send fsms_ok_def fsm_state_def split: option.splits if_splits)
  then show "fsms_ok fs'" and "\<And>x. x \<noteq> e \<Longrightarrow> fs' x = fs x"
    and "b \<longleftrightarrow> fsm_target (fsm_state fs e) ev \<noteq> None"
    and "fsm_state fs' e = (case fsm_target (fsm_state fs e) ev of None \<Rightarrow> fsm_state fs e | Some t \<Rightarrow> t)"
    and "a' = (if b then a\<lparr>ai_State := fsm_state fs e\<rparr> else a)" by auto
qed

end
