(* ===== verification/Monsters.thy ===== *)
theory Monsters
  imports Ecs_Alloc
begin

text \<open>
  \<open>server/models/monster.go\<close>: the templates of the monsters and their instantiation. The store of templates is a
  Go map; here it is an association list in the order of one iteration, which matters when two templates have
  the same name. Reading and parsing the file is a parameter: the list of templates, if it could be parsed.
\<close>

subsection \<open>Templates\<close>

record MonsterTemplate =
  t_ID :: int
  t_Name :: string
  t_HP :: int
  t_Dam :: int
  t_MapID :: int
  t_SpawnX :: int
  t_SpawnZ :: int
  t_RoamRadius :: int
  t_AggroRadius :: real
  t_AttackCooldown :: int
  t_XPReward :: u64
  t_MeleeRange :: int

type_synonym templateStore = "(int \<times> MonsterTemplate) list"

fun store_template :: "int \<Rightarrow> MonsterTemplate \<Rightarrow> templateStore \<Rightarrow> templateStore" where
  "store_template k t [] = [(k, t)]"
| "store_template k t ((j, u) # ts) = (if j = k then (k, t) # ts else (j, u) # store_template k t ts)"

definition with_defaults :: "MonsterTemplate \<Rightarrow> MonsterTemplate" where
  "with_defaults t =
     (let t1 = (if t_MapID t = 0 then t\<lparr>t_MapID := 1\<rparr> else t)
      in if t_MeleeRange t1 = 0 then t1\<lparr>t_MeleeRange := 2\<rparr> else t1)"

definition LoadMonster :: "MonsterTemplate list option \<Rightarrow> templateStore \<Rightarrow> MonsterTemplate list option \<times> templateStore" where
  "LoadMonster parsed ts = (case parsed of
     None \<Rightarrow> (None, ts)
   | Some l \<Rightarrow> (Some (map with_defaults l), fold (\<lambda>t ts. store_template (t_ID t) t ts) (map with_defaults l) ts))"

definition GetTemplate :: "templateStore \<Rightarrow> int \<Rightarrow> MonsterTemplate option" where
  "GetTemplate ts k = map_of ts k"

definition GetTemplateByName :: "templateStore \<Rightarrow> string \<Rightarrow> MonsterTemplate option" where
  "GetTemplateByName ts name = find (\<lambda>t. t_Name t = name) (map snd ts)"

subsection \<open>Spawning\<close>

text \<open>Go's conversion of a float to \<open>int\<close> truncates.\<close>

definition go_int :: "real \<Rightarrow> int" where
  "go_int x = (if x < 0 then \<lceil>x\<rceil> else \<lfloor>x\<rfloor>)"

definition monster_stats :: "MonsterTemplate \<Rightarrow> StatsComponent" where
  "monster_stats t = \<lparr>st_Level = 0, st_XP = 0, st_HP = t_HP t, st_MaxHP = t_HP t, st_MP = 0, st_MaxMP = 0,
     st_Dam = t_Dam t, st_Attack = t_Dam t, st_MagicAttack = 0, st_Defense = 0, st_MagicDefense = 0,
     st_HitRate = 800, st_DodgeRate = 50, st_CritRate = 50, st_CritDamage = 1500\<rparr>"

definition monster_ai :: "MonsterTemplate \<Rightarrow> int \<Rightarrow> int \<Rightarrow> AIComponent" where
  "monster_ai t x z = \<lparr>ai_State = AIStateIdle, ai_TargetID = 0, ai_SpawnX = x, ai_SpawnZ = z, ai_SpawnRadius = t_RoamRadius t,
     ai_AggroRadius = t_AggroRadius t, ai_LeashRadius = go_int (t_AggroRadius t * 2), ai_MeleeRange = t_MeleeRange t,
     ai_AttackTimer = NewTickTimer (t_AttackCooldown t), ai_IdleTimer = NewTickTimer 8, ai_PathTimer = NewTickTimer 4,
     ai_RoamTargetX = 0, ai_RoamTargetZ = 0, ai_ThreatTable = None, ai_CurrentPath = zero_path, ai_PathFollowIdx = 0,
     ai_PathGoalX = 0, ai_PathGoalZ = 0, ai_PathMapID = 0\<rparr>"

definition SpawnMonsterFromTemplate ::
  "templateStore \<Rightarrow> int \<Rightarrow> int \<Rightarrow> int \<Rightarrow> int \<Rightarrow> Registry \<Rightarrow> entity list \<Rightarrow> entity option \<times> Registry \<times> entity list" where
  "SpawnMonsterFromTemplate ts tid mapID x z r fl = (case GetTemplate ts tid of
     None \<Rightarrow> (None, r, fl)
   | Some t \<Rightarrow> (case reg_NewEntity r fl of (e, r1, fl1) \<Rightarrow>
       let r2 = SetMetadata e \<lparr>meta_Name = t_Name t, meta_Type = EntityMonster\<rparr> r1;
           r3 = SetPosition e \<lparr>MapID = mapID, PosX = x, PosZ = z\<rparr> r2;
           r4 = SetStats e (monster_stats t) r3;
           r5 = SetAI e (monster_ai t x z) r4
       in (Some e, r5, fl1)))"

definition SpawnFromDefaultPosition :: "templateStore \<Rightarrow> int \<Rightarrow> Registry \<Rightarrow> entity list \<Rightarrow> entity option \<times> Registry \<times> entity list" where
  "SpawnFromDefaultPosition ts tid r fl = (case GetTemplate ts tid of
     None \<Rightarrow> (None, r, fl)
   | Some t \<Rightarrow> SpawnMonsterFromTemplate ts tid (t_MapID t) (t_SpawnX t) (t_SpawnZ t) r fl)"

subsection \<open>Lemmas\<close>

lemma map_of_store_template: "map_of (store_template k t ts) = (map_of ts)(k \<mapsto> t)"
  by (induction k t ts rule: store_template.induct) (auto simp: fun_eq_iff)

lemma map_of_load:
  "map_of (fold (\<lambda>t ts. store_template (t_ID t) t ts) l ts) k = (case find (\<lambda>t. t_ID t = k) (rev l) of None \<Rightarrow> map_of ts k | Some t \<Rightarrow> Some t)"
proof (induction l rule: rev_induct)
  case (snoc t l)
  then show ?case by (simp add: map_of_store_template)
qed simp

lemma find_in_set: "find P xs = Some x \<Longrightarrow> x \<in> set xs"
  by (induction xs) (auto split: if_splits)

text \<open>After loading, every template is one of the file with its defaults filled in, or an older one.\<close>

lemma LoadMonster_defaults:
  assumes "LoadMonster (Some l) ts = (res, ts')" and "\<And>k t. GetTemplate ts k = Some t \<Longrightarrow> t_MapID t \<noteq> 0 \<and> t_MeleeRange t \<noteq> 0"
    and "GetTemplate ts' k = Some t"
  shows "t_MapID t \<noteq> 0 \<and> t_MeleeRange t \<noteq> 0"
proof (cases "find (\<lambda>t. t_ID t = k) (rev (map with_defaults l))")
  case None
  with assms show ?thesis by (auto simp: LoadMonster_def GetTemplate_def map_of_load)
next
  case (Some u)
  with assms(1,3) have "t = u" by (auto simp: LoadMonster_def GetTemplate_def map_of_load)
  moreover have "u \<in> with_defaults ` set l" using find_in_set [OF Some] by simp
  moreover have "t_MapID (with_defaults v) \<noteq> 0 \<and> t_MeleeRange (with_defaults v) \<noteq> 0" for v
    by (cases "t_MapID v = 0") (simp_all add: with_defaults_def Let_def)
  ultimately show ?thesis by auto
qed

text \<open>A spawned monster is new, alive when its template is, and everything else stays as it was.\<close>

lemma SpawnMonster_ok:
  assumes ok: "alloc_ok r fl L I" and room: "alloc_room r fl"
    and spawn: "SpawnMonsterFromTemplate ts tid mapID x z r fl = (Some e, r', fl')"
  shows "alloc_ok r' fl' (insert e L) (insert e I)" and "e \<notin> I" and "e \<noteq> 0"
    and "\<exists>t. GetTemplate ts tid = Some t \<and>
      GetMetadata r' = (GetMetadata r)(e \<mapsto> \<lparr>meta_Name = t_Name t, meta_Type = EntityMonster\<rparr>) \<and>
      GetPosition r' = (GetPosition r)(e \<mapsto> \<lparr>MapID = mapID, PosX = x, PosZ = z\<rparr>) \<and>
      GetStats r' = (GetStats r)(e \<mapsto> monster_stats t) \<and> GetAI r' = (GetAI r)(e \<mapsto> monster_ai t x z)"
    and "GetInventory r' = GetInventory r" "GetConnection r' = GetConnection r"
proof -
  obtain t where t: "GetTemplate ts tid = Some t"
    using spawn by (auto simp: SpawnMonsterFromTemplate_def split: option.splits)
  obtain r1 where new: "reg_NewEntity r fl = (e, r1, fl')"
    and r': "r' = SetAI e (monster_ai t x z) (SetStats e (monster_stats t) (SetPosition e \<lparr>MapID = mapID, PosX = x, PosZ = z\<rparr>
        (SetMetadata e \<lparr>meta_Name = t_Name t, meta_Type = EntityMonster\<rparr> r1)))"
    using spawn t by (auto simp: SpawnMonsterFromTemplate_def Let_def split: prod.splits)
  note N = alloc_NewEntity [OF ok room new]
  note ok1 = Set_live(5) [OF N(1) insertI1] Set_live(6) [OF N(1) insertI1]
  note ok2 = Set_live(1) [OF ok1(1) insertI1] Set_live(2) [OF ok1(1) insertI1]
  note ok3 = Set_live(7) [OF ok2(1) insertI1] Set_live(8) [OF ok2(1) insertI1]
  note ok4 = Set_live(9) [OF ok3(1) insertI1] Set_live(10) [OF ok3(1) insertI1]
  have same: "GetMetadata r1 = GetMetadata r" "GetPosition r1 = GetPosition r" "GetStats r1 = GetStats r" "GetAI r1 = GetAI r"
    "GetInventory r1 = GetInventory r" "GetConnection r1 = GetConnection r"
    using N(5) by (auto simp: same_components_def fun_eq_iff)
  show "alloc_ok r' fl' (insert e L) (insert e I)" unfolding r' by (rule ok4)
  show "e \<notin> I" "e \<noteq> 0" by (rule N)+
  have "GetMetadata r' = (GetMetadata r)(e \<mapsto> \<lparr>meta_Name = t_Name t, meta_Type = EntityMonster\<rparr>)"
      "GetPosition r' = (GetPosition r)(e \<mapsto> \<lparr>MapID = mapID, PosX = x, PosZ = z\<rparr>)"
      "GetStats r' = (GetStats r)(e \<mapsto> monster_stats t)" "GetAI r' = (GetAI r)(e \<mapsto> monster_ai t x z)"
      and inv: "GetInventory r' = GetInventory r" "GetConnection r' = GetConnection r"
    unfolding r' by (simp_all add: ok1 ok2 ok3 ok4 set_frame same)
  with t show "\<exists>t. GetTemplate ts tid = Some t \<and>
      GetMetadata r' = (GetMetadata r)(e \<mapsto> \<lparr>meta_Name = t_Name t, meta_Type = EntityMonster\<rparr>) \<and>
      GetPosition r' = (GetPosition r)(e \<mapsto> \<lparr>MapID = mapID, PosX = x, PosZ = z\<rparr>) \<and>
      GetStats r' = (GetStats r)(e \<mapsto> monster_stats t) \<and> GetAI r' = (GetAI r)(e \<mapsto> monster_ai t x z)" by blast
  show "GetInventory r' = GetInventory r" "GetConnection r' = GetConnection r" by (rule inv)+
qed

end
