(* ===== verification/Spatial_Query.thy ===== *)
theory Spatial_Query
  imports Ecs_Registry Spatial_Grid
begin

text \<open>
  \<open>server/peakgo/spatial/spatial.go\<close> and \<open>proximity.go\<close>: questions about the neighbourhood of an entity, answered
  from its position in the registry and the grid. The slices a query returns are pooled, which is not state.
  A nil result of \<open>GetNearbyPlayers\<close> and \<open>GetNearbyMonsters\<close> is the empty list; callers only ask for the length.
\<close>

subsection \<open>Queries\<close>

record NearestResult =
  nr_ID :: entity
  nr_Pos :: PositionComponent

definition spatial_queryRadius :: "Registry \<Rightarrow> SpatialGrid \<Rightarrow> entity \<Rightarrow> real \<Rightarrow> (PositionComponent \<times> bucket) option" where
  "spatial_queryRadius r g origin radius =
     (case GetPosition r origin of
        None \<Rightarrow> None
      | Some pos \<Rightarrow> let cands = QueryRadius g pos radius origin
                   in if length cands = 0 then None else Some (pos, cands))"

definition has_type :: "Registry \<Rightarrow> EntityType \<Rightarrow> entity \<Rightarrow> bool" where
  "has_type r t e = (case GetMetadata r e of None \<Rightarrow> False | Some m \<Rightarrow> meta_Type m = t)"

text \<open>The loop of \<open>getNearestByType\<close>; \<open>None\<close> stands for the initial distance \<open>math.MaxInt\<close>.\<close>

fun nearest_loop :: "Registry \<Rightarrow> EntityType \<Rightarrow> PositionComponent \<Rightarrow> bucket \<Rightarrow> (NearestResult \<times> int) option \<Rightarrow> (NearestResult \<times> int) option" where
  "nearest_loop r t pos [] best = best"
| "nearest_loop r t pos ((e, p) # cs) best = nearest_loop r t pos cs
     (if \<not> has_type r t e then best
      else let dsq = DistanceSq (PosX pos) (PosZ pos) (PosX p) (PosZ p)
           in (case best of None \<Rightarrow> Some (\<lparr>nr_ID = e, nr_Pos = p\<rparr>, dsq)
               | Some (n, d) \<Rightarrow> if dsq < d then Some (\<lparr>nr_ID = e, nr_Pos = p\<rparr>, dsq) else Some (n, d)))"

definition getNearestByType :: "Registry \<Rightarrow> SpatialGrid \<Rightarrow> entity \<Rightarrow> real \<Rightarrow> EntityType \<Rightarrow> NearestResult option" where
  "getNearestByType r g origin radius t =
     (case spatial_queryRadius r g origin radius of
        None \<Rightarrow> None
      | Some (pos, cands) \<Rightarrow> map_option fst (nearest_loop r t pos cands None))"

definition GetNearestPlayer :: "Registry \<Rightarrow> SpatialGrid \<Rightarrow> entity \<Rightarrow> real \<Rightarrow> NearestResult option" where
  "GetNearestPlayer r g origin radius = getNearestByType r g origin radius EntityPlayer"

definition GetNearestMonster :: "Registry \<Rightarrow> SpatialGrid \<Rightarrow> entity \<Rightarrow> real \<Rightarrow> NearestResult option" where
  "GetNearestMonster r g origin radius = getNearestByType r g origin radius EntityMonster"

definition CountInRadius :: "Registry \<Rightarrow> SpatialGrid \<Rightarrow> entity \<Rightarrow> real \<Rightarrow> EntityType \<Rightarrow> nat" where
  "CountInRadius r g origin radius t =
     (case spatial_queryRadius r g origin radius of
        None \<Rightarrow> 0
      | Some (pos, cands) \<Rightarrow> if t = EntityAny then length cands
          else fold (\<lambda>(e, p) n. if has_type r t e then n + 1 else n) cands 0)"

fun any_loop :: "Registry \<Rightarrow> EntityType \<Rightarrow> bucket \<Rightarrow> bool" where
  "any_loop r t [] = False"
| "any_loop r t ((e, p) # cs) = (if has_type r t e then True else any_loop r t cs)"

definition IsAnyInRadius :: "Registry \<Rightarrow> SpatialGrid \<Rightarrow> entity \<Rightarrow> real \<Rightarrow> EntityType \<Rightarrow> bool" where
  "IsAnyInRadius r g origin radius t =
     (case spatial_queryRadius r g origin radius of
        None \<Rightarrow> False
      | Some (pos, cands) \<Rightarrow> if t = EntityAny then length cands > 0 else any_loop r t cands)"

fun filter_loop :: "Registry \<Rightarrow> EntityType \<Rightarrow> bucket \<Rightarrow> entity list \<Rightarrow> entity list" where
  "filter_loop r t [] dst = dst"
| "filter_loop r t ((e, p) # cs) dst = filter_loop r t cs
     (if t = EntityAny then dst @ [e] else if has_type r t e then dst @ [e] else dst)"

definition FilterInRadius :: "Registry \<Rightarrow> SpatialGrid \<Rightarrow> entity \<Rightarrow> real \<Rightarrow> EntityType \<Rightarrow> entity list \<Rightarrow> entity list" where
  "FilterInRadius r g origin radius t dst =
     (case spatial_queryRadius r g origin radius of
        None \<Rightarrow> dst
      | Some (pos, cands) \<Rightarrow> filter_loop r t cands dst)"

definition CountPlayersInRadius :: "Registry \<Rightarrow> SpatialGrid \<Rightarrow> entity \<Rightarrow> real \<Rightarrow> nat" where
  "CountPlayersInRadius r g origin radius = CountInRadius r g origin radius EntityPlayer"

definition CountMonstersInRadius :: "Registry \<Rightarrow> SpatialGrid \<Rightarrow> entity \<Rightarrow> real \<Rightarrow> nat" where
  "CountMonstersInRadius r g origin radius = CountInRadius r g origin radius EntityMonster"

definition HasPlayerInRadius :: "Registry \<Rightarrow> SpatialGrid \<Rightarrow> entity \<Rightarrow> real \<Rightarrow> bool" where
  "HasPlayerInRadius r g origin radius = IsAnyInRadius r g origin radius EntityPlayer"

definition HasMonsterInRadius :: "Registry \<Rightarrow> SpatialGrid \<Rightarrow> entity \<Rightarrow> real \<Rightarrow> bool" where
  "HasMonsterInRadius r g origin radius = IsAnyInRadius r g origin radius EntityMonster"

definition DistanceBetween :: "Registry \<Rightarrow> entity \<Rightarrow> entity \<Rightarrow> int option" where
  "DistanceBetween r a b =
     (case (GetPosition r a, GetPosition r b) of
        (Some p, Some q) \<Rightarrow> Some (DistanceSq (PosX p) (PosZ p) (PosX q) (PosZ q))
      | _ \<Rightarrow> None)"

definition IsInRadius :: "Registry \<Rightarrow> entity \<Rightarrow> entity \<Rightarrow> real \<Rightarrow> bool" where
  "IsInRadius r a b radius = (case DistanceBetween r a b of None \<Rightarrow> False | Some d \<Rightarrow> real_of_int d \<le> radius * radius)"

definition SameMap :: "Registry \<Rightarrow> entity \<Rightarrow> entity \<Rightarrow> bool" where
  "SameMap r a b = (case (GetPosition r a, GetPosition r b) of (Some p, Some q) \<Rightarrow> MapID p = MapID q | _ \<Rightarrow> False)"

subsection \<open>Proximity\<close>

record ProximityResult =
  pr_ID :: entity
  pr_Pos :: PositionComponent
  pr_Meta :: MetadataComponent
  pr_Stats :: StatsComponent

fun nearby_loop :: "Registry \<Rightarrow> EntityType \<Rightarrow> bucket \<Rightarrow> ProximityResult list" where
  "nearby_loop r t [] = []"
| "nearby_loop r t ((e, p) # cs) =
     (case GetMetadata r e of
        None \<Rightarrow> nearby_loop r t cs
      | Some m \<Rightarrow> if meta_Type m \<noteq> t then nearby_loop r t cs
          else (case GetStats r e of None \<Rightarrow> nearby_loop r t cs
                | Some s \<Rightarrow> \<lparr>pr_ID = e, pr_Pos = p, pr_Meta = m, pr_Stats = s\<rparr> # nearby_loop r t cs))"

definition GetNearbyPlayers :: "Registry \<Rightarrow> SpatialGrid \<Rightarrow> entity \<Rightarrow> real \<Rightarrow> ProximityResult list" where
  "GetNearbyPlayers r g origin radius =
     (case GetPosition r origin of None \<Rightarrow> [] | Some pos \<Rightarrow> nearby_loop r EntityPlayer (QueryRadius g pos radius origin))"

definition GetNearbyMonsters :: "Registry \<Rightarrow> SpatialGrid \<Rightarrow> entity \<Rightarrow> real \<Rightarrow> ProximityResult list" where
  "GetNearbyMonsters r g origin radius =
     (case GetPosition r origin of None \<Rightarrow> [] | Some pos \<Rightarrow> nearby_loop r EntityMonster (QueryRadius g pos radius origin))"

definition IsInRange :: "Registry \<Rightarrow> entity \<Rightarrow> entity \<Rightarrow> real \<Rightarrow> bool" where
  "IsInRange r a b radius =
     (case (GetPosition r a, GetPosition r b) of
        (Some p, Some q) \<Rightarrow> real_of_int (DistanceSq (PosX p) (PosZ p) (PosX q) (PosZ q)) \<le> radius * radius
      | _ \<Rightarrow> False)"

subsection \<open>What they answer\<close>

lemma IsInRange_sym: "IsInRange r a b radius = IsInRange r b a radius"
  by (auto simp: IsInRange_def DistanceSq_sym split: option.splits)

lemma IsInRange_IsInRadius: "IsInRange r a b radius = IsInRadius r a b radius"
  by (auto simp: IsInRange_def IsInRadius_def DistanceBetween_def split: option.splits)

text \<open>Two entities with the same coordinates are in range although they are on different maps.\<close>

lemma IsInRange_across_maps:
  assumes "GetPosition r a = Some \<lparr>MapID = 1, PosX = x, PosZ = z\<rparr>" and "GetPosition r b = Some \<lparr>MapID = 2, PosX = x, PosZ = z\<rparr>"
  shows "IsInRange r a b radius" and "\<not> SameMap r a b"
  using assms by (auto simp: IsInRange_def SameMap_def DistanceSq_def)

lemma filter_loop_spec:
  "filter_loop r t cs dst = dst @ map fst (filter (\<lambda>(e, p). t = EntityAny \<or> has_type r t e) cs)"
  by (induction r t cs dst rule: filter_loop.induct) auto

lemma any_loop_spec: "any_loop r t cs \<longleftrightarrow> (\<exists>(e, p) \<in> set cs. has_type r t e)"
  by (induction r t cs rule: any_loop.induct) auto

lemma count_loop_spec:
  "fold (\<lambda>(e, p) n. if has_type r t e then n + 1 else n) cs (n :: nat) = n + length (filter (\<lambda>(e, p). has_type r t e) cs)"
  by (induction cs arbitrary: n) auto

lemma Count_Filter: "CountInRadius r g origin radius t = length (FilterInRadius r g origin radius t [])"
  by (auto simp: CountInRadius_def FilterInRadius_def filter_loop_spec count_loop_spec split: option.splits)

lemma Any_Count: "IsAnyInRadius r g origin radius t \<longleftrightarrow> 0 < CountInRadius r g origin radius t"
proof (cases "spatial_queryRadius r g origin radius")
  case (Some pc)
  then show ?thesis
    by (cases pc) (force simp: IsAnyInRadius_def CountInRadius_def count_loop_spec any_loop_spec filter_empty_conv)
qed (simp add: IsAnyInRadius_def CountInRadius_def)

lemma nearest_loop_spec:
  assumes "nearest_loop r t pos cs best = res"
  shows "(res = None \<longleftrightarrow> best = None \<and> (\<forall>e p. (e, p) \<in> set cs \<longrightarrow> \<not> has_type r t e)) \<and>
    (\<forall>n d. res = Some (n, d) \<longrightarrow>
       ((nr_ID n, nr_Pos n) \<in> set cs \<and> has_type r t (nr_ID n) \<and> d = pos_dist pos (nr_Pos n) \<or> best = Some (n, d)) \<and>
       (\<forall>e p. (e, p) \<in> set cs \<and> has_type r t e \<longrightarrow> d \<le> pos_dist pos p) \<and> (\<forall>m c. best = Some (m, c) \<longrightarrow> d \<le> c))"
  using assms
proof (induction r t pos cs best rule: nearest_loop.induct)
  case (2 r t pos e p cs best)
  let ?new = "Some (\<lparr>nr_ID = e, nr_Pos = p\<rparr>, pos_dist pos p)"
  let ?best = "if \<not> has_type r t e then best
      else (case best of None \<Rightarrow> ?new | Some (n, d) \<Rightarrow> if pos_dist pos p < d then ?new else Some (n, d))"
  have step: "nearest_loop r t pos ((e, p) # cs) best = nearest_loop r t pos cs ?best"
    unfolding nearest_loop.simps Let_def pos_dist_def ..
  have "nearest_loop r t pos cs ?best = res" using 2(2) step by simp
  then have IH: "(res = None \<longleftrightarrow> ?best = None \<and> (\<forall>e p. (e, p) \<in> set cs \<longrightarrow> \<not> has_type r t e)) \<and>
    (\<forall>n d. res = Some (n, d) \<longrightarrow>
       ((nr_ID n, nr_Pos n) \<in> set cs \<and> has_type r t (nr_ID n) \<and> d = pos_dist pos (nr_Pos n) \<or> ?best = Some (n, d)) \<and>
       (\<forall>e p. (e, p) \<in> set cs \<and> has_type r t e \<longrightarrow> d \<le> pos_dist pos p) \<and> (\<forall>m c. ?best = Some (m, c) \<longrightarrow> d \<le> c))"
    using 2(1) unfolding Let_def pos_dist_def by simp
  show ?case
  proof (cases "has_type r t e")
    case False
    with IH show ?thesis by auto
  next
    case True
    show ?thesis
    proof (cases best)
      case None
      with True have b: "?best = ?new" by simp
      show ?thesis using IH True unfolding b None by auto
    next
      case (Some nd)
      obtain n0 d0 where nd: "best = Some (n0, d0)" using Some by (cases nd) simp
      show ?thesis
      proof (cases "pos_dist pos p < d0")
        case True
        with \<open>has_type r t e\<close> nd have b: "?best = ?new" by simp
        show ?thesis using IH True \<open>has_type r t e\<close> unfolding b nd by auto
      next
        case False
        with \<open>has_type r t e\<close> nd have b: "?best = Some (n0, d0)" by simp
        show ?thesis using IH False \<open>has_type r t e\<close> unfolding b nd by auto
      qed
    qed
  qed
qed auto

lemma getNearest_closest:
  assumes "grid_ok g" and "0 \<le> radius" and "GetPosition r origin = Some pos"
  shows "(getNearestByType r g origin radius t = None \<longleftrightarrow>
      \<not> (\<exists>e p. grid_of g e = Some p \<and> e \<noteq> origin \<and> MapID p = MapID pos \<and> in_radius pos radius p \<and> has_type r t e)) \<and>
    (\<forall>n. getNearestByType r g origin radius t = Some n \<longrightarrow>
      grid_of g (nr_ID n) = Some (nr_Pos n) \<and> nr_ID n \<noteq> origin \<and> has_type r t (nr_ID n) \<and> MapID (nr_Pos n) = MapID pos \<and>
      in_radius pos radius (nr_Pos n) \<and>
      (\<forall>e p. grid_of g e = Some p \<and> e \<noteq> origin \<and> MapID p = MapID pos \<and> in_radius pos radius p \<and> has_type r t e \<longrightarrow>
         pos_dist pos (nr_Pos n) \<le> pos_dist pos p))"
proof -
  let ?cs = "QueryRadius g pos radius origin"
  note mem = QueryRadius_set [OF assms(1,2), of _ _ pos origin]
  have eq: "getNearestByType r g origin radius t = map_option fst (nearest_loop r t pos ?cs None)"
    using assms(3) by (simp add: getNearestByType_def spatial_queryRadius_def Let_def)
  note S = nearest_loop_spec [OF HOL.refl, of r t pos ?cs None]
  show ?thesis
  proof (intro conjI allI impI)
    show "getNearestByType r g origin radius t = None \<longleftrightarrow>
      \<not> (\<exists>e p. grid_of g e = Some p \<and> e \<noteq> origin \<and> MapID p = MapID pos \<and> in_radius pos radius p \<and> has_type r t e)"
      using S mem by (simp add: eq) blast
  next
    fix n
    assume "getNearestByType r g origin radius t = Some n"
    then obtain d where "nearest_loop r t pos ?cs None = Some (n, d)" by (auto simp: eq)
    with S have n: "(nr_ID n, nr_Pos n) \<in> set ?cs" "has_type r t (nr_ID n)"
      and least: "\<And>e p. (e, p) \<in> set ?cs \<Longrightarrow> has_type r t e \<Longrightarrow> pos_dist pos (nr_Pos n) \<le> pos_dist pos p" by auto
    show "grid_of g (nr_ID n) = Some (nr_Pos n)" "nr_ID n \<noteq> origin" "has_type r t (nr_ID n)"
      "MapID (nr_Pos n) = MapID pos" "in_radius pos radius (nr_Pos n)"
      using n by (simp_all add: mem)
    show "pos_dist pos (nr_Pos n) \<le> pos_dist pos p"
      if "grid_of g e = Some p \<and> e \<noteq> origin \<and> MapID p = MapID pos \<and> in_radius pos radius p \<and> has_type r t e" for e p
      using that by (intro least [of e]) (simp_all add: mem)
  qed
qed

end
