(* ===== verification/Game_State.thy ===== *)
theory Game_State
  imports Map_Worker Monster_Fsm Monsters Party Nav Rng Spatial_Query
begin

text \<open>
  The state that the systems of \<open>server/game\<close> share: the default registry with its recycled identifiers, the global
  grid, the current tick (\<open>tick.go\<close>), the combat accumulator when one is installed, the queue of respawns, the
  templates, the navigation mesh, the instances of the monsters' state machine and the supply of random draws.
  What the systems send is listed in the order of sending, as the frames handed to the writers (what a writer
  does with them is the model of \<open>Connwriter\<close>), and so are the events they publish. The senders are those of
  \<open>server/protocol/broadcast.go\<close>, \<open>movement.go\<close> and \<open>chat.go\<close>. Performance counters and log lines are left out.
\<close>

subsection \<open>State\<close>

record RespawnEvent =
  re_TemplateID :: int
  re_MapID :: int
  re_SpawnX :: int
  re_SpawnZ :: int
  RespawnAt :: u64

datatype game_event =
  PlayerLevelUpEvent entity string int int
| PlayerDeathEvent entity entity string int
| MonsterDeathEvent entity entity string int int int u64 int

record Game =
  g_reg :: Registry
  g_free :: "entity list"
  g_grid :: SpatialGrid
  globalTick :: u64
  g_buffer :: "CombatAccumulator option"
  g_respawns :: "RespawnEvent list"
  g_templates :: templateStore
  g_mesh :: "NavMesh option"
  g_fsms :: monsterFSMStore
  g_config :: GameConfig
  g_draws :: draws
  g_out :: outbox
  g_events :: "game_event list"

definition GetCurrentTick :: "Game \<Rightarrow> u64" where "GetCurrentTick g = globalTick g"

definition SetCurrentTick :: "u64 \<Rightarrow> Game \<Rightarrow> Game" where "SetCurrentTick t g = g\<lparr>globalTick := t\<rparr>"

abbreviation set_reg :: "Registry \<Rightarrow> Game \<Rightarrow> Game" where "set_reg r g \<equiv> g\<lparr>g_reg := r\<rparr>"

text \<open>One draw of \<open>rng.Intn\<close>.\<close>

definition draw :: "int \<Rightarrow> Game \<Rightarrow> int \<times> Game" where
  "draw n g = (case Intn n (g_draws g) of (v, ds) \<Rightarrow> (v, g\<lparr>g_draws := ds\<rparr>))"

definition publish :: "game_event \<Rightarrow> Game \<Rightarrow> Game" where
  "publish ev g = g\<lparr>g_events := g_events g @ [ev]\<rparr>"

subsection \<open>Sending\<close>

text \<open>A Go string as the bytes sent; the texts of the game are ASCII.\<close>

definition bytes_of :: "string \<Rightarrow> byte_seq" where "bytes_of s = map of_char s"

definition has_writer :: "Registry \<Rightarrow> entity \<Rightarrow> bool" where
  "has_writer r e = (case GetConnection r e of None \<Rightarrow> False | Some c \<Rightarrow> conn_writer c \<noteq> None)"

definition SendNoticeBinary :: "entity \<Rightarrow> byte_seq \<Rightarrow> Game \<Rightarrow> Game" where
  "SendNoticeBinary e frame g = (if has_writer (g_reg g) e then g\<lparr>g_out := g_out g @ [(e, frame)]\<rparr> else g)"

definition SendNoticeSystem :: "entity \<Rightarrow> byte_seq \<Rightarrow> Game \<Rightarrow> Game" where
  "SendNoticeSystem e data g =
     (if has_writer (g_reg g) e then g\<lparr>g_out := g_out g @ [(e, BuildNotice data)]\<rparr> else g)"

definition broadcastAOIRadius :: real where "broadcastAOIRadius = 60"

definition BroadcastToNeighbors :: "PositionComponent \<Rightarrow> byte_seq \<Rightarrow> entity \<Rightarrow> Game \<Rightarrow> Game" where
  "BroadcastToNeighbors origin data excl g =
     g\<lparr>g_out := g_out g @ map (\<lambda>e. (e, data)) (receivers (g_reg g) (QueryRadius (g_grid g) origin broadcastAOIRadius excl))\<rparr>"

definition BroadcastToNeighborsMap :: "int \<Rightarrow> int \<Rightarrow> int \<Rightarrow> byte_seq \<Rightarrow> entity \<Rightarrow> Game \<Rightarrow> Game" where
  "BroadcastToNeighborsMap m x z data excl g = BroadcastToNeighbors \<lparr>MapID = m, PosX = x, PosZ = z\<rparr> data excl g"

definition BroadcastToChunk :: "PositionComponent \<Rightarrow> byte_seq \<Rightarrow> entity \<Rightarrow> Game \<Rightarrow> Game" where
  "BroadcastToChunk pos data excl g =
     g\<lparr>g_out := g_out g @ map (\<lambda>e. (e, data)) (receivers (g_reg g) (QueryChunk (g_grid g) pos excl))\<rparr>"

definition BroadcastToChunkWithRadius :: "PositionComponent \<Rightarrow> byte_seq \<Rightarrow> entity \<Rightarrow> Game \<Rightarrow> Game" where
  "BroadcastToChunkWithRadius pos data excl g =
     g\<lparr>g_out := g_out g @ map (\<lambda>e. (e, data)) (receivers (g_reg g) (QueryRadius (g_grid g) pos broadcastAOIRadius excl))\<rparr>"

definition BroadcastToMap :: "int \<Rightarrow> byte_seq \<Rightarrow> Game \<Rightarrow> Game" where
  "BroadcastToMap m data g = RangeConnections (\<lambda>e c g.
     if \<not> has_conn c then (True, g)
     else case GetPosition (g_reg g) e of
       None \<Rightarrow> (True, g)
     | Some p \<Rightarrow> if MapID p = m \<and> conn_writer c \<noteq> None then (True, g\<lparr>g_out := g_out g @ [(e, data)]\<rparr>) else (True, g)) (g_reg g) g"

definition BroadcastToWorld :: "byte_seq \<Rightarrow> Game \<Rightarrow> Game" where
  "BroadcastToWorld text g = RangeConnections (\<lambda>e c g. if conn_writer c \<noteq> None then (True, SendNoticeSystem e text g) else (True, g)) (g_reg g) g"

definition BroadcastToWorldBinary :: "byte_seq \<Rightarrow> Game \<Rightarrow> Game" where
  "BroadcastToWorldBinary frame g = RangeConnections (\<lambda>e c g.
     if conn_writer c \<noteq> None then (True, g\<lparr>g_out := g_out g @ [(e, frame)]\<rparr>) else (True, g)) (g_reg g) g"

definition BroadcastToPartyBinary :: "entity \<Rightarrow> byte_seq \<Rightarrow> Game \<Rightarrow> Game" where
  "BroadcastToPartyBinary pid frame g = (case GetParty (g_reg g) pid of
     None \<Rightarrow> g
   | Some p \<Rightarrow> fold (\<lambda>e g. if has_writer (g_reg g) e then g\<lparr>g_out := g_out g @ [(e, frame)]\<rparr> else g) (MemberIDs p) g)"

text \<open>What sending leaves alone: everything but the list of frames.\<close>

definition only_sends :: "Game \<Rightarrow> Game \<Rightarrow> bool" where
  "only_sends g g' \<longleftrightarrow> (\<exists>out. g' = g\<lparr>g_out := g_out g @ out\<rparr>)"

named_theorems send_intros "operations that only send"

lemma only_sends_refl [send_intros]: "only_sends g g"
  unfolding only_sends_def by (rule exI [of _ "[]"]) simp

lemma only_sends_append [send_intros]: "only_sends g (g\<lparr>g_out := g_out g @ out\<rparr>)"
  by (auto simp: only_sends_def)

lemma only_sends_trans: "only_sends g h \<Longrightarrow> only_sends h k \<Longrightarrow> only_sends g k"
  by (auto simp: only_sends_def)

lemma only_sendsD:
  assumes "only_sends g h"
  shows "g_reg h = g_reg g" "g_free h = g_free g" "g_grid h = g_grid g" "globalTick h = globalTick g" "g_buffer h = g_buffer g"
    "g_respawns h = g_respawns g" "g_templates h = g_templates g" "g_mesh h = g_mesh g" "g_fsms h = g_fsms g"
    "g_config h = g_config g" "g_draws h = g_draws g" "g_events h = g_events g"
  using assms by (auto simp: only_sends_def)

lemma only_sends_fold:
  "(\<And>x g. only_sends g (f x g)) \<Longrightarrow> only_sends g (fold f xs g)"
  by (induction xs arbitrary: g) (auto intro: send_intros only_sends_trans)

lemma notices_only_send [send_intros]:
  "only_sends g (SendNoticeBinary e frame g)" "only_sends g (SendNoticeSystem e data g)"
  "only_sends g (BroadcastToNeighbors p data e g)" "only_sends g (BroadcastToChunk p data e g)"
  "only_sends g (BroadcastToChunkWithRadius p data e g)" "only_sends g (BroadcastToNeighborsMap m x z data e g)"
  by (auto simp: SendNoticeBinary_def SendNoticeSystem_def BroadcastToNeighbors_def BroadcastToChunk_def
      BroadcastToChunkWithRadius_def BroadcastToNeighborsMap_def intro: send_intros)

lemma party_only_sends [send_intros]: "only_sends g (BroadcastToPartyBinary pid frame g)"
  by (auto simp: BroadcastToPartyBinary_def intro!: only_sends_fold intro: send_intros split: option.splits)

lemmas sent [simp] = notices_only_send [THEN only_sendsD(1)] notices_only_send [THEN only_sendsD(2)]
  notices_only_send [THEN only_sendsD(3)] notices_only_send [THEN only_sendsD(4)] notices_only_send [THEN only_sendsD(5)]
  notices_only_send [THEN only_sendsD(6)] notices_only_send [THEN only_sendsD(7)] notices_only_send [THEN only_sendsD(8)]
  notices_only_send [THEN only_sendsD(9)] notices_only_send [THEN only_sendsD(10)] notices_only_send [THEN only_sendsD(11)]
  notices_only_send [THEN only_sendsD(12)] party_only_sends [THEN only_sendsD(1)] party_only_sends [THEN only_sendsD(2)]
  party_only_sends [THEN only_sendsD(3)] party_only_sends [THEN only_sendsD(4)] party_only_sends [THEN only_sendsD(5)]
  party_only_sends [THEN only_sendsD(6)] party_only_sends [THEN only_sendsD(7)] party_only_sends [THEN only_sendsD(8)]
  party_only_sends [THEN only_sendsD(9)] party_only_sends [THEN only_sendsD(10)] party_only_sends [THEN only_sendsD(11)]
  party_only_sends [THEN only_sendsD(12)]

lemma set_receivers:
  "e \<in> set (receivers r cands) \<longleftrightarrow> (\<exists>p. (e, p) \<in> set cands) \<and> (\<exists>c. GetConnection r e = Some c \<and> has_conn c \<and> conn_writer c \<noteq> None)"
  by (force simp: receivers_def split: option.split)

lemma neighbor_hears:
  assumes "grid_ok (g_grid g)" and "g_out (BroadcastToNeighbors origin data excl g) = g_out g @ out"
  shows "(e, d) \<in> set out \<longleftrightarrow> d = data \<and> e \<noteq> excl \<and>
    (\<exists>p. grid_of (g_grid g) e = Some p \<and> MapID p = MapID origin \<and> in_radius origin 60 p) \<and>
    (\<exists>c. GetConnection (g_reg g) e = Some c \<and> has_conn c \<and> conn_writer c \<noteq> None)"
proof -
  have out: "out = map (\<lambda>e. (e, data)) (receivers (g_reg g) (QueryRadius (g_grid g) origin 60 excl))"
    using assms(2) by (simp add: BroadcastToNeighbors_def broadcastAOIRadius_def)
  then have "(e, d) \<in> set out \<longleftrightarrow> d = data \<and> e \<in> set (receivers (g_reg g) (QueryRadius (g_grid g) origin 60 excl))"
    by auto
  also have "\<dots> \<longleftrightarrow> d = data \<and> (\<exists>p. grid_of (g_grid g) e = Some p \<and> e \<noteq> excl \<and> MapID p = MapID origin \<and> in_radius origin 60 p) \<and>
      (\<exists>c. GetConnection (g_reg g) e = Some c \<and> has_conn c \<and> conn_writer c \<noteq> None)"
    unfolding set_receivers by (simp add: QueryRadius_set [OF assms(1)])
  finally show ?thesis by blast
qed

subsection \<open>Well-formed states\<close>

text \<open>
  The registry agrees with the identifiers issued, the grid is well formed, and an entity in the grid has there
  the position it has in the registry.
\<close>

definition game_ok :: "Game \<Rightarrow> entity set \<Rightarrow> entity set \<Rightarrow> bool" where
  "game_ok g L I \<longleftrightarrow> alloc_ok (g_reg g) (g_free g) L I \<and> grid_ok (g_grid g) \<and> grid_of (g_grid g) \<subseteq>\<^sub>m GetPosition (g_reg g)"

lemma game_okD:
  assumes "game_ok g L I"
  shows "alloc_ok (g_reg g) (g_free g) L I" "grid_ok (g_grid g)" "grid_of (g_grid g) \<subseteq>\<^sub>m GetPosition (g_reg g)"
  using assms by (auto simp: game_ok_def)

lemma game_ok_cong:
  "g_reg h = g_reg g \<Longrightarrow> g_free h = g_free g \<Longrightarrow> g_grid h = g_grid g \<Longrightarrow> game_ok h L I = game_ok g L I"
  by (simp add: game_ok_def)

lemma game_ok_sends: "only_sends g h \<Longrightarrow> game_ok h L I = game_ok g L I"
  by (rule game_ok_cong) (simp_all add: only_sendsD)

text \<open>Who has a component is live.\<close>

lemma live_of_component:
  assumes "game_ok g L I"
  shows "GetStats (g_reg g) e = Some v1 \<Longrightarrow> e \<in> L" and "GetPosition (g_reg g) e = Some v2 \<Longrightarrow> e \<in> L"
    and "GetAI (g_reg g) e = Some v3 \<Longrightarrow> e \<in> L" and "GetInventory (g_reg g) e = Some v4 \<Longrightarrow> e \<in> L"
    and "GetMetadata (g_reg g) e = Some v5 \<Longrightarrow> e \<in> L" and "GetEffects (g_reg g) e = Some v6 \<Longrightarrow> e \<in> L"
    and "GetEquipment (g_reg g) e = Some v7 \<Longrightarrow> e \<in> L" and "GetPartyMember (g_reg g) e = Some v8 \<Longrightarrow> e \<in> L"
  using alloc_okD(1,2) [OF game_okD(1) [OF assms]] unregistered_no_components [of "g_reg g" e]
  by (auto simp: no_components_def)

lemma set_stats_ok:
  assumes ok: "game_ok g L I" and e: "e \<in> L"
  shows "game_ok (set_reg (SetStats e st (g_reg g)) g) L I" and "GetStats (SetStats e st (g_reg g)) = (GetStats (g_reg g))(e \<mapsto> st)"
  using Set_live(7,8) [OF game_okD(1) [OF ok] e] ok by (simp_all add: game_ok_def)

lemma set_ai_ok:
  assumes ok: "game_ok g L I" and e: "e \<in> L"
  shows "game_ok (set_reg (SetAI e a (g_reg g)) g) L I" and "GetAI (SetAI e a (g_reg g)) = (GetAI (g_reg g))(e \<mapsto> a)"
  using Set_live(9,10) [OF game_okD(1) [OF ok] e] ok by (simp_all add: game_ok_def)

lemma set_inventory_ok:
  assumes ok: "game_ok g L I" and e: "e \<in> L"
  shows "game_ok (set_reg (SetInventory e i (g_reg g)) g) L I"
    and "GetInventory (SetInventory e i (g_reg g)) = (GetInventory (g_reg g))(e \<mapsto> i)"
  using Set_live(11,12) [OF game_okD(1) [OF ok] e] ok by (simp_all add: game_ok_def)

lemma set_equipment_ok:
  assumes ok: "game_ok g L I" and e: "e \<in> L"
  shows "game_ok (set_reg (SetEquipment e q (g_reg g)) g) L I"
    and "GetEquipment (SetEquipment e q (g_reg g)) = (GetEquipment (g_reg g))(e \<mapsto> q)"
  using Set_live(17,18) [OF game_okD(1) [OF ok] e] ok by (simp_all add: game_ok_def)

lemma set_effects_ok:
  assumes ok: "game_ok g L I" and e: "e \<in> L"
  shows "game_ok (set_reg (SetEffects e x (g_reg g)) g) L I"
    and "GetEffects (SetEffects e x (g_reg g)) = (GetEffects (g_reg g))(e \<mapsto> x)"
  using Set_live(23,24) [OF game_okD(1) [OF ok] e] ok by (simp_all add: game_ok_def)

text \<open>Moving an entity, in the registry and in the grid.\<close>

lemma move_ok:
  fixes p :: PositionComponent
  assumes ok: "game_ok g L I" and e: "e \<in> L"
  defines "h \<equiv> g\<lparr>g_reg := SetPosition e p (g_reg g), g_grid := UpdateEntityPosition e p (g_grid g)\<rparr>"
  shows "game_ok h L I" and "GetPosition (g_reg h) = (GetPosition (g_reg g))(e \<mapsto> p)" and "grid_of (g_grid h) = (grid_of (g_grid g))(e \<mapsto> p)"
proof -
  note S = Set_live(1,2) [OF game_okD(1) [OF ok] e] and U = UpdateEntityPosition_refines [OF game_okD(2) [OF ok]]
  show pos: "GetPosition (g_reg h) = (GetPosition (g_reg g))(e \<mapsto> p)" "grid_of (g_grid h) = (grid_of (g_grid g))(e \<mapsto> p)"
    by (simp_all add: h_def S U)
  have "grid_of (g_grid h) \<subseteq>\<^sub>m GetPosition (g_reg h)"
    using game_okD(3) [OF ok] by (simp only: pos) (auto simp: map_le_def)
  with S(1) U(1) show "game_ok h L I" by (simp add: game_ok_def h_def)
qed

text \<open>Removing an entity, from the grid first.\<close>

lemma remove_ok:
  assumes ok: "game_ok g L I" and e: "e \<in> L"
    and rem: "RemoveEntity e (g_reg g) (g_free g) = (r', fl')" and grid: "grid_of gr = (grid_of (g_grid g))(e := None)" "grid_ok gr"
  shows "game_ok (g\<lparr>g_reg := r', g_free := fl', g_grid := gr\<rparr>) (L - {e}) I" and "no_components e r'"
    and "\<And>x. x \<noteq> e \<Longrightarrow> same_components x (g_reg g) r'"
proof -
  note R = alloc_RemoveEntity [OF game_okD(1) [OF ok] e rem]
  show "no_components e r'" "\<And>x. x \<noteq> e \<Longrightarrow> same_components x (g_reg g) r'" by (rule R)+
  have "GetPosition r' x = GetPosition (g_reg g) x" if "x \<noteq> e" for x using R(3) [OF that] by (simp add: same_components_def)
  then have "grid_of gr \<subseteq>\<^sub>m GetPosition r'" using game_okD(3) [OF ok] by (auto simp: map_le_def grid dom_def)
  with R(1) grid(2) show "game_ok (g\<lparr>g_reg := r', g_free := fl', g_grid := gr\<rparr>) (L - {e}) I" by (simp add: game_ok_def)
qed

end
