(* ===== verification/Arena.thy ===== *)
theory Arena
  imports Game_State
begin

text \<open>
  A small game for the examples: a player with a sword, a potion and 100 hit points, and a slime one step away.
  Nobody is connected.
\<close>

definition hero :: entity where "hero = mk_entity 1 1"
definition foe :: entity where "foe = mk_entity 2 1"

definition hero_pos :: PositionComponent where "hero_pos = \<lparr>MapID = 1, PosX = 2, PosZ = 3\<rparr>"

definition hero_stats :: StatsComponent where
  "hero_stats = \<lparr>st_Level = 1, st_XP = 0, st_HP = 60, st_MaxHP = 100, st_MP = 50, st_MaxMP = 50, st_Dam = 15,
     st_Attack = 15, st_MagicAttack = 10, st_Defense = 0, st_MagicDefense = 0, st_HitRate = 1000, st_DodgeRate = 0,
     st_CritRate = 0, st_CritDamage = 1500\<rparr>"

definition hero_bag :: InventoryComponent where "hero_bag = \<lparr>Items = [101 \<mapsto> 1, 303 \<mapsto> 1]\<rparr>"

definition slime :: MonsterTemplate where
  "slime = \<lparr>t_ID = 1, t_Name = ''Slime'', t_HP = 9, t_Dam = 1, t_MapID = 1, t_SpawnX = 2, t_SpawnZ = 2, t_RoamRadius = 5,
     t_AggroRadius = 6, t_AttackCooldown = 4, t_XPReward = 120, t_MeleeRange = 2\<rparr>"

definition arena_reg :: Registry where
  "arena_reg = SetAI foe (monster_ai slime 2 2) (SetStats foe slime_stats (SetPosition foe slime_pos
     (SetMetadata foe \<lparr>meta_Name = ''Slime'', meta_Type = EntityMonster\<rparr>
     (SetInventory hero hero_bag (SetStats hero hero_stats (SetPosition hero hero_pos
     (SetMetadata hero \<lparr>meta_Name = ''Ann'', meta_Type = EntityPlayer\<rparr> (NewRegistry\<lparr>reg_nextID := 2\<rparr>))))))))"

definition arena :: Game where
  "arena = \<lparr>g_reg = arena_reg, g_free = [],
     g_grid = UpdateEntityPosition foe slime_pos (UpdateEntityPosition hero hero_pos NewGrid), globalTick = 7, g_buffer = None,
     g_respawns = [], g_templates = [(1, slime)], g_mesh = None, g_fsms = Map.empty, g_config = DefaultConfig,
     g_draws = (\<lambda>_. 0), g_out = [], g_events = []\<rparr>"

lemma hero_foe [simp]: "hero \<noteq> foe" "foe \<noteq> hero" "hero \<noteq> 0" "foe \<noteq> 0"
  by (simp_all add: hero_def foe_def mk_entity_def)

lemma two_ids: "alloc_ok (NewRegistry\<lparr>reg_nextID := 2\<rparr>) [] {hero, foe} {hero, foe}"
proof -
  have first: "reg_NewEntity NewRegistry [] = (hero, NewRegistry\<lparr>reg_nextID := 1\<rparr>, [])"
    using NewRegistry_first by (simp add: hero_def)
  have second: "reg_NewEntity (NewRegistry\<lparr>reg_nextID := 1\<rparr>) [] = (foe, NewRegistry\<lparr>reg_nextID := 2\<rparr>, [])"
    using NewEntity_fresh [of "\<lparr>nextID = 1, recycled = []\<rparr>"] by (simp add: reg_NewEntity_def foe_def)
  have room: "alloc_room (NewRegistry\<lparr>reg_nextID := 1\<rparr>) []" by (simp add: alloc_room_def ids_room_def)
  show ?thesis
    using alloc_NewEntity(1) [OF alloc_NewEntity(1) [OF alloc_ok_New new_room first] room second] by (simp add: insert_commute)
qed

lemma arena_reg:
  "alloc_ok arena_reg [] {hero, foe} {hero, foe}"
  "GetMetadata arena_reg = [hero \<mapsto> \<lparr>meta_Name = ''Ann'', meta_Type = EntityPlayer\<rparr>, foe \<mapsto> \<lparr>meta_Name = ''Slime'', meta_Type = EntityMonster\<rparr>]"
  "GetPosition arena_reg = [hero \<mapsto> hero_pos, foe \<mapsto> slime_pos]"
  "GetStats arena_reg = [hero \<mapsto> hero_stats, foe \<mapsto> slime_stats]"
  "GetInventory arena_reg = [hero \<mapsto> hero_bag]"
  "GetAI arena_reg = [foe \<mapsto> monster_ai slime 2 2]"
proof -
  define r0 where "r0 = NewRegistry\<lparr>reg_nextID := 2\<rparr>"
  have "registered r0 = {}" using New_empty(1) by (simp add: registered_def r0_def)
  then have none: "no_components x r0" for x
    using unregistered_no_components [of r0] alloc_okD(1) [OF two_ids] by (simp add: r0_def)
  then have empty: "GetMetadata r0 = Map.empty" "GetPosition r0 = Map.empty" "GetStats r0 = Map.empty"
    "GetInventory r0 = Map.empty" "GetAI r0 = Map.empty"
    by (auto simp: no_components_def fun_eq_iff)
  define r1 where "r1 = SetMetadata hero \<lparr>meta_Name = ''Ann'', meta_Type = EntityPlayer\<rparr> r0"
  note S1 = Set_live(5,6) [OF two_ids [folded r0_def], of hero "\<lparr>meta_Name = ''Ann'', meta_Type = EntityPlayer\<rparr>", folded r1_def, simplified]
  define r2 where "r2 = SetPosition hero hero_pos r1"
  note S2 = Set_live(1,2) [OF S1(1), of hero hero_pos, folded r2_def, simplified]
  define r3 where "r3 = SetStats hero hero_stats r2"
  note S3 = Set_live(7,8) [OF S2(1), of hero hero_stats, folded r3_def, simplified]
  define r4 where "r4 = SetInventory hero hero_bag r3"
  note S4 = Set_live(11,12) [OF S3(1), of hero hero_bag, folded r4_def, simplified]
  define r5 where "r5 = SetMetadata foe \<lparr>meta_Name = ''Slime'', meta_Type = EntityMonster\<rparr> r4"
  note S5 = Set_live(5,6) [OF S4(1), of foe "\<lparr>meta_Name = ''Slime'', meta_Type = EntityMonster\<rparr>", folded r5_def, simplified]
  define r6 where "r6 = SetPosition foe slime_pos r5"
  note S6 = Set_live(1,2) [OF S5(1), of foe slime_pos, folded r6_def, simplified]
  define r7 where "r7 = SetStats foe slime_stats r6"
  note S7 = Set_live(7,8) [OF S6(1), of foe slime_stats, folded r7_def, simplified]
  define r8 where "r8 = SetAI foe (monster_ai slime 2 2) r7"
  note S8 = Set_live(9,10) [OF S7(1), of foe "monster_ai slime 2 2", folded r8_def, simplified]
  have r: "arena_reg = r8" by (simp add: arena_reg_def r8_def r7_def r6_def r5_def r4_def r3_def r2_def r1_def r0_def)
  show "alloc_ok arena_reg [] {hero, foe} {hero, foe}" unfolding r by (rule S8)
  note frame = r8_def r7_def r6_def r5_def r4_def r3_def r2_def r1_def
  show "GetMetadata arena_reg = [hero \<mapsto> \<lparr>meta_Name = ''Ann'', meta_Type = EntityPlayer\<rparr>, foe \<mapsto> \<lparr>meta_Name = ''Slime'', meta_Type = EntityMonster\<rparr>]"
    using S1(2) S5(2) unfolding r by (simp add: frame empty)
  show "GetPosition arena_reg = [hero \<mapsto> hero_pos, foe \<mapsto> slime_pos]"
    using S2(2) S6(2) unfolding r by (simp add: frame empty)
  show "GetStats arena_reg = [hero \<mapsto> hero_stats, foe \<mapsto> slime_stats]"
    using S3(2) S7(2) unfolding r by (simp add: frame empty)
  show "GetInventory arena_reg = [hero \<mapsto> hero_bag]" using S4(2) unfolding r by (simp add: frame empty)
  show "GetAI arena_reg = [foe \<mapsto> monster_ai slime 2 2]" using S8(2) unfolding r by (simp add: frame empty)
qed

lemma arena [simp]:
  "g_reg arena = arena_reg" "g_free arena = []" "g_buffer arena = None" "g_templates arena = [(1, slime)]"
  "g_config arena = DefaultConfig" "globalTick arena = 7" "g_fsms arena = Map.empty" "g_out arena = []" "g_respawns arena = []"
  by (simp_all add: arena_def)

lemma arena_grid: "grid_of (g_grid arena) = [hero \<mapsto> hero_pos, foe \<mapsto> slime_pos]" "grid_ok (g_grid arena)"
  by (simp_all add: arena_def UpdateEntityPosition_refines grid_ok_New)

lemma arena_ok: "game_ok arena {hero, foe} {hero, foe}"
  using arena_reg(1) arena_grid by (simp add: game_ok_def arena_reg(3))

end
