(* ===== verification/Decimal.thy ===== *)
theory Decimal
  imports Prelude
begin

text \<open>
  The allocation-free number printers of \<open>server/game/combat.go\<close> and \<open>server/game/ai_fsm.go\<close>. They fill a
  fixed array from its end; an index below zero panics, which is \<open>None\<close> here. Go's \<open>int\<close> is an integer in
  \<open>[-2^63, 2^63)\<close>; negating the smallest one gives it back.
\<close>

subsection \<open>The printers\<close>

definition digits :: string where "digits = ''0123456789''"

text \<open>The loop: \<open>i\<close> free cells, the value, the cells written so far.\<close>

fun put_digits :: "nat \<Rightarrow> nat \<Rightarrow> string \<Rightarrow> (nat \<times> string) option" where
  "put_digits 0 v acc = (if v > 0 then None else Some (0, acc))"
| "put_digits (Suc i) v acc = (if v > 0 then put_digits i (v div 10) (digits ! (v mod 10) # acc) else Some (Suc i, acc))"

definition put_sign :: "bool \<Rightarrow> nat \<times> string \<Rightarrow> string option" where
  "put_sign neg s = (case s of (i, acc) \<Rightarrow> if neg then (if i = 0 then None else Some (CHR ''-'' # acc)) else Some acc)"

definition neg_int :: "int \<Rightarrow> int" where
  "neg_int v = (if v = - (2 ^ 63) then v else - v)"

definition appendInt :: "string \<Rightarrow> int \<Rightarrow> string option" where
  "appendInt buf v = (if v = 0 then Some (buf @ ''0'')
     else let neg = v < 0; v = (if v < 0 then neg_int v else v)
          in map_option (\<lambda>s. buf @ s) (Option.bind (put_digits 12 (nat v) []) (put_sign neg)))"

definition appendUint64 :: "string \<Rightarrow> u64 \<Rightarrow> string option" where
  "appendUint64 buf v = (if v = 0 then Some (buf @ ''0'')
     else map_option (\<lambda>(i, s). buf @ s) (put_digits 20 (unat v) []))"

definition itoa32 :: "int \<Rightarrow> string option" where
  "itoa32 v = (if v = 0 then Some ''0''
     else let neg = v < 0; v = (if v < 0 then neg_int v else v)
          in Option.bind (put_digits 12 (nat v) []) (put_sign neg))"

definition itoa64 :: "u64 \<Rightarrow> string option" where
  "itoa64 v = (if v = 0 then Some ''0'' else map_option snd (put_digits 20 (unat v) []))"

definition fsm_itoa :: "int \<Rightarrow> string option" where
  "fsm_itoa i = (if i = 0 then Some ''0'' else map_option snd (put_digits 12 (nat i) []))"

subsection \<open>Decimal notation\<close>

text \<open>The notation of \<open>fmt\<close>'s \<open>%d\<close>, and the number a sequence of digits denotes.\<close>

fun dec_nat :: "nat \<Rightarrow> string" where
  "dec_nat n = (if n < 10 then [digits ! n] else dec_nat (n div 10) @ [digits ! (n mod 10)])"

declare dec_nat.simps [simp del]

definition dec_int :: "int \<Rightarrow> string" where
  "dec_int v = (if v < 0 then CHR ''-'' # dec_nat (nat (- v)) else dec_nat (nat v))"

definition digit_value :: "char \<Rightarrow> nat" where
  "digit_value c = of_char c - 48"

definition value_of :: "string \<Rightarrow> nat" where
  "value_of s = foldl (\<lambda>n c. 10 * n + digit_value c) 0 s"

lemma digit_value_digits: "d < 10 \<Longrightarrow> digit_value (digits ! d) = d"
proof -
  assume "d < 10"
  then have "d \<in> {0, 1, 2, 3, 4, 5, 6, 7, 8, 9}" by auto
  then show ?thesis by (auto simp: digits_def digit_value_def)
qed

lemma value_of_dec: "value_of (dec_nat n) = n"
proof (induction n rule: dec_nat.induct)
  case (1 n)
  show ?case
  proof (cases "n < 10")
    case True
    then show ?thesis by (simp add: dec_nat.simps [of n] value_of_def digit_value_digits)
  next
    case False
    with 1 show ?thesis by (simp add: dec_nat.simps [of n] value_of_def digit_value_digits)
  qed
qed

lemma dec_nat_inj: "dec_nat m = dec_nat n \<longleftrightarrow> m = n"
  by (metis value_of_dec)

lemma put_digits_ok:
  "0 < v \<Longrightarrow> v < 10 ^ i \<Longrightarrow> \<exists>j. put_digits i v acc = Some (j, dec_nat v @ acc) \<and> (j = 0 \<longleftrightarrow> 10 ^ i \<le> 10 * v)"
proof (induction i arbitrary: v acc)
  case (Suc i)
  show ?case
  proof (cases "v < 10")
    case True
    have "j = 0 \<longleftrightarrow> 10 ^ Suc i \<le> 10 * v" if "j = i" for j
    proof (cases i)
      case (Suc k)
      have "(1 :: nat) \<le> 10 ^ k" by simp
      with True have "\<not> 10 * 10 ^ k \<le> v" by linarith
      with that Suc show ?thesis by simp
    qed (use Suc.prems that in simp)
    with True Suc.prems show ?thesis by (cases i) (auto simp: dec_nat.simps [of v])
  next
    case False
    then have v: "0 < v div 10" "v div 10 < 10 ^ i" using Suc.prems by auto
    from Suc.IH [OF this, of "digits ! (v mod 10) # acc"] obtain j where
      j: "put_digits i (v div 10) (digits ! (v mod 10) # acc) = Some (j, dec_nat (v div 10) @ digits ! (v mod 10) # acc)"
        "j = 0 \<longleftrightarrow> 10 ^ i \<le> 10 * (v div 10)" by blast
    obtain k where i: "i = Suc k" using v by (cases i) auto
    have "10 ^ i \<le> 10 * (v div 10) \<longleftrightarrow> 10 ^ k \<le> v div 10" by (simp add: i)
    also have "\<dots> \<longleftrightarrow> 10 ^ Suc i \<le> 10 * v" by (simp add: i less_eq_div_iff_mult_less_eq mult.commute)
    finally show ?thesis using j False Suc.prems by (simp add: dec_nat.simps [of v])
  qed
qed simp

lemma put_digits_panics: "10 ^ i \<le> v \<Longrightarrow> put_digits i v acc = None"
proof (induction i arbitrary: v acc)
  case (Suc i)
  then have "10 ^ i \<le> v div 10" by (simp add: less_eq_div_iff_mult_less_eq mult.commute)
  moreover have "0 < v" using Suc.prems by (metis le_zero_eq neq0_conv power_not_zero zero_neq_numeral)
  ultimately show ?case using Suc.IH by simp
qed simp

lemma itoa_append: "appendInt buf v = map_option (\<lambda>s. buf @ s) (itoa32 v)" "appendUint64 buf w = map_option (\<lambda>s. buf @ s) (itoa64 w)"
  by (auto simp: appendInt_def itoa32_def appendUint64_def itoa64_def Let_def option.map_comp comp_def case_prod_unfold)

lemma itoa64_dec: "itoa64 v = Some (dec_nat (unat v))"
proof (cases "v = 0")
  case True
  then show ?thesis by (simp add: itoa64_def dec_nat.simps [of 0] digits_def)
next
  case False
  then have "0 < unat v" by (simp add: unat_gt_0)
  moreover have "unat v < 10 ^ 20" using unsigned_less [of v, where 'a = nat] by simp
  ultimately show ?thesis using put_digits_ok [of "unat v" 20 "[]"] False by (auto simp: itoa64_def)
qed

lemma itoa32_dec:
  assumes "- (2 ^ 63) < v"
  shows "itoa32 v = (if - (10 ^ 11) < v \<and> v < 10 ^ 12 then Some (dec_int v) else None)"
proof -
  consider "v = 0" | "0 < v" "v < 10 ^ 12" | "10 ^ 12 \<le> v" | "v < 0" "- (10 ^ 12) < v" | "v \<le> - (10 ^ 12)" by linarith
  then show ?thesis
  proof cases
    case 1
    then show ?thesis by (simp add: itoa32_def dec_int_def dec_nat.simps [of 0] digits_def)
  next
    case 2
    then have "0 < nat v" "nat v < 10 ^ 12" by (simp_all add: nat_less_iff)
    from put_digits_ok [OF this, of "[]"] 2 show ?thesis by (auto simp: itoa32_def dec_int_def put_sign_def)
  next
    case 3
    then have "10 ^ 12 \<le> nat v" by (simp add: le_nat_iff)
    from put_digits_panics [OF this, of "[]"] 3 show ?thesis by (simp add: itoa32_def)
  next
    case 4
    then have "0 < nat (- v)" "nat (- v) < 10 ^ 12" by (simp_all add: nat_less_iff)
    from put_digits_ok [OF this, of "[]"] obtain j where
      j: "put_digits 12 (nat (- v)) [] = Some (j, dec_nat (nat (- v)))" "j = 0 \<longleftrightarrow> 10 ^ 12 \<le> 10 * nat (- v)" by auto
    have "10 ^ 12 \<le> 10 * nat (- v) \<longleftrightarrow> v \<le> - (10 ^ 11)" using 4(1) by (auto simp: nat_le_iff le_nat_iff)
    with j 4 assms show ?thesis by (auto simp: itoa32_def dec_int_def put_sign_def neg_int_def)
  next
    case 5
    then have "10 ^ 12 \<le> nat (- v)" by (simp add: le_nat_iff)
    from put_digits_panics [OF this, of "[]"] 5 assms show ?thesis by (simp add: itoa32_def neg_int_def)
  qed
qed

text \<open>The helper of the state machine prints no negative number.\<close>

lemma fsm_itoa_negative: "i < 0 \<Longrightarrow> fsm_itoa i = Some []"
  by (simp add: fsm_itoa_def numeral_eq_Suc)

subsection \<open>Properties\<close>

text \<open>
  C38 The printers are exact. \<open>appendUint64\<close> appends the decimal notation of every 64-bit value and never runs
  out of its 20 cells. \<open>appendInt\<close> appends that of every value of at most 12 digits, of 11 with a sign, and
  panics on every other one but the smallest integer, of which it prints the sign only.
\<close>

theorem printers_exact:
  shows "appendUint64 buf w = Some (buf @ dec_nat (unat w)) \<and> value_of (dec_nat (unat w)) = unat w \<and>
    (v = - (2 ^ 63) \<longrightarrow> appendInt buf v = Some (buf @ ''-'')) \<and>
    (- (2 ^ 63) < v \<longrightarrow> appendInt buf v = (if - (10 ^ 11) < v \<and> v < 10 ^ 12 then Some (buf @ dec_int v) else None))"
proof (intro conjI impI)
  show "appendInt buf v = Some (buf @ ''-'')" if "v = - (2 ^ 63)"
    using that by (simp add: appendInt_def neg_int_def put_sign_def numeral_eq_Suc)
qed (simp_all add: itoa_append itoa64_dec itoa32_dec value_of_dec)

theorem printers_exact_witness: "appendInt ''HP: '' (- 105) = Some ''HP: -105'' \<and> appendInt [] (10 ^ 12) = None"
  using printers_exact [of "''HP: ''" 0 "- 105"] printers_exact [of "[]" 0 "10 ^ 12"]
  by (simp add: dec_int_def dec_nat.simps digits_def)

end
