(* ===== verification/Progression.thy ===== *)
theory Progression
  imports Arena Decimal
begin

text \<open>
  \<open>server/game/progression.go\<close>: experience and levels. \<open>math.Pow\<close> is the real power, so the threshold is the exact
  floor. The rounding of \<open>float64\<close> is left out; it can move the floor by one, but only for levels in the tens of thousands. The
  accounting of experience does not depend on it. The threshold is below \<open>2^64\<close> for every level below three billion, where its conversion to \<open>uint64\<close> is exact. The
  loop has no other bound than its own condition.
\<close>

subsection \<open>Thresholds\<close>

definition CalculateXPThreshold :: "int \<Rightarrow> int" where
  "CalculateXPThreshold level = (if level \<le> 0 then 0 else \<lfloor>100 * (real_of_int level powr (18 / 10))\<rfloor>)"

text \<open>The power with its fractional exponent, by integers alone.\<close>

lemma threshold_le_iff:
  assumes "0 < level" and "0 \<le> t"
  shows "t \<le> CalculateXPThreshold level \<longleftrightarrow> t ^ 5 \<le> 100 ^ 5 * level ^ 9"
proof -
  let ?x = "100 * (real_of_int level powr (18 / 10))"
  have "(real_of_int level powr (18 / 10)) ^ 5 = (real_of_int level powr (18 / 10)) powr real 5"
    using powr_realpow [of "real_of_int level powr (18 / 10)" 5] assms(1) by simp
  also have "\<dots> = real_of_int level powr (18 / 10 * real 5)" by (rule powr_powr)
  also have "\<dots> = real_of_int level powr real 9" by simp
  also have "\<dots> = real_of_int level ^ 9" using powr_realpow [of "real_of_int level" 9] assms(1) by simp
  finally have x5: "?x ^ 5 = 100 ^ 5 * real_of_int level ^ 9" by (simp add: power_mult_distrib)
  have "t \<le> CalculateXPThreshold level \<longleftrightarrow> real_of_int t \<le> ?x" using assms(1) by (simp add: CalculateXPThreshold_def le_floor_iff)
  also have "\<dots> \<longleftrightarrow> real_of_int t ^ 5 \<le> ?x ^ 5" using assms by (intro power_mono_iff [symmetric]) simp_all
  also have "\<dots> \<longleftrightarrow> real_of_int (t ^ 5) \<le> real_of_int (100 ^ 5 * level ^ 9)" unfolding x5 by simp
  also have "\<dots> \<longleftrightarrow> t ^ 5 \<le> 100 ^ 5 * level ^ 9" by (rule of_int_le_iff)
  finally show ?thesis .
qed

lemma threshold_eqI:
  assumes "0 < level" and "0 \<le> t" and "t ^ 5 \<le> 100 ^ 5 * level ^ 9" and "100 ^ 5 * level ^ 9 < (t + 1) ^ 5"
  shows "CalculateXPThreshold level = t"
  using threshold_le_iff [OF assms(1), of t] threshold_le_iff [OF assms(1), of "t + 1"] assms by simp

lemma threshold_ge: "0 < level \<Longrightarrow> 100 \<le> CalculateXPThreshold level"
  using threshold_le_iff [of level 100] one_le_power [of level 9] by simp

lemma threshold_nonneg [simp]: "0 \<le> CalculateXPThreshold level"
  using threshold_ge [of level] by (cases "level \<le> 0") (simp_all add: CalculateXPThreshold_def)

lemma threshold_mono: "0 < a \<Longrightarrow> a \<le> b \<Longrightarrow> CalculateXPThreshold a \<le> CalculateXPThreshold b"
  by (auto simp: CalculateXPThreshold_def intro!: floor_mono powr_mono2)

subsection \<open>The cascade\<close>

definition level_up :: "StatsComponent \<Rightarrow> StatsComponent" where
  "level_up st = st\<lparr>st_XP := st_XP st - of_int (CalculateXPThreshold (st_Level st)), st_Level := st_Level st + 1,
     st_MaxHP := st_MaxHP st + 25, st_MaxMP := st_MaxMP st + 10, st_Dam := st_Dam st + 3\<rparr>"

lemma pay_threshold:
  assumes "CalculateXPThreshold l \<le> uint (x :: u64)"
  shows "uint (x - of_int (CalculateXPThreshold l)) = uint x - CalculateXPThreshold l"
proof -
  have "CalculateXPThreshold l < 2 ^ 64" using assms uint_bounded [of x] by simp
  then have "uint (of_int (CalculateXPThreshold l) :: u64) = CalculateXPThreshold l"
    by (simp add: uint_word_of_int_eq take_bit_int_eq_self)
  with assms show ?thesis by (simp add: uint_sub_if')
qed

function level_cascade :: "StatsComponent \<Rightarrow> bool \<Rightarrow> StatsComponent \<times> bool" where
  "level_cascade st did =
     (if uint (st_XP st) \<ge> CalculateXPThreshold (st_Level st) then level_cascade (level_up st) True else (st, did))"
  by pat_completeness auto
termination
proof (relation "measures [\<lambda>(st, did). nat (1 - st_Level st), \<lambda>(st, did). nat (uint (st_XP st))]", goal_cases)
  case (2 st did)
  then have "uint (st_XP (level_up st)) = uint (st_XP st) - CalculateXPThreshold (st_Level st)"
    by (simp add: level_up_def pay_threshold)
  moreover have "st_Level st \<ge> 1 \<Longrightarrow> 100 \<le> CalculateXPThreshold (st_Level st)" by (rule threshold_ge) simp
  ultimately show ?case using 2 by (cases "st_Level st \<ge> 1") (auto simp: level_up_def word_less_nat_alt [symmetric] word_less_def)
qed simp

declare level_cascade.simps [simp del]

text \<open>The price of the levels from \<open>a\<close> to \<open>b\<close>.\<close>

definition xp_between :: "int \<Rightarrow> int \<Rightarrow> int" where
  "xp_between a b = (\<Sum>l \<in> {a..<b}. CalculateXPThreshold l)"

lemma xp_between_step: "a < b \<Longrightarrow> xp_between a b = CalculateXPThreshold a + xp_between (a + 1) b"
proof -
  assume "a < b"
  then have "{a..<b} = insert a {a + 1..<b}" by auto
  then show ?thesis by (simp add: xp_between_def)
qed

lemma level_cascade_exact:
  assumes "level_cascade st did = (st', did')"
  shows "st_Level st \<le> st_Level st' \<and> uint (st_XP st') < CalculateXPThreshold (st_Level st') \<and>
    uint (st_XP st) = uint (st_XP st') + xp_between (st_Level st) (st_Level st') \<and>
    st' = st\<lparr>st_XP := st_XP st', st_Level := st_Level st', st_MaxHP := st_MaxHP st + 25 * (st_Level st' - st_Level st),
      st_MaxMP := st_MaxMP st + 10 * (st_Level st' - st_Level st), st_Dam := st_Dam st + 3 * (st_Level st' - st_Level st)\<rparr> \<and>
    (did' \<longleftrightarrow> did \<or> st_Level st < st_Level st')"
  using assms
proof (induction st did rule: level_cascade.induct)
  case (1 st did)
  show ?case
  proof (cases "uint (st_XP st) \<ge> CalculateXPThreshold (st_Level st)")
    case True
    with 1(2) have "level_cascade (level_up st) True = (st', did')" by (simp add: level_cascade.simps [of st])
    note IH = 1(1) [OF True this]
    have lv: "st_Level (level_up st) = st_Level st + 1" by (simp add: level_up_def)
    have xp: "uint (st_XP (level_up st)) = uint (st_XP st) - CalculateXPThreshold (st_Level st)"
      using True by (simp add: level_up_def pay_threshold)
    have le: "st_Level st + 1 \<le> st_Level st'" using IH lv by simp
    have "st' = st\<lparr>st_XP := st_XP st', st_Level := st_Level st', st_MaxHP := st_MaxHP st + 25 * (st_Level st' - st_Level st),
      st_MaxMP := st_MaxMP st + 10 * (st_Level st' - st_Level st), st_Dam := st_Dam st + 3 * (st_Level st' - st_Level st)\<rparr>"
      using IH by (cases st; cases st') (simp add: level_up_def algebra_simps)
    with IH le xp xp_between_step [of "st_Level st" "st_Level st'"] show ?thesis by (simp add: lv)
  next
    case False
    with 1(2) show ?thesis by (auto simp: level_cascade.simps [of st] xp_between_def)
  qed
qed

lemma xp_between_bound: "1 \<le> a \<Longrightarrow> a \<le> b \<Longrightarrow> 100 * (b - a) \<le> xp_between a b"
proof -
  assume "1 \<le> a" "a \<le> b"
  have "(\<Sum>l \<in> {a..<b}. 100) \<le> xp_between a b"
    unfolding xp_between_def using \<open>1 \<le> a\<close> by (intro sum_mono threshold_ge) simp
  with \<open>a \<le> b\<close> show ?thesis by simp
qed

subsection \<open>The system\<close>

definition crlf :: string where "crlf = [CHR 0x0D, CHR 0x0A]"

definition zero_pos :: PositionComponent where "zero_pos = \<lparr>MapID = 0, PosX = 0, PosZ = 0\<rparr>"

definition name_of :: "Registry \<Rightarrow> entity \<Rightarrow> string" where
  "name_of r e = (case GetMetadata r e of None \<Rightarrow> [] | Some m \<Rightarrow> meta_Name m)"

definition pos_of_entity :: "Registry \<Rightarrow> entity \<Rightarrow> PositionComponent" where
  "pos_of_entity r e = (case GetPosition r e of None \<Rightarrow> zero_pos | Some p \<Rightarrow> p)"

definition level_notice :: "string \<Rightarrow> StatsComponent \<Rightarrow> string" where
  "level_notice name st = ''[LEVEL UP] Player '' @ name @ '' ascended to Level '' @ dec_int (st_Level st) @ ''! MaxHP: ''
     @ dec_int (st_MaxHP st) @ '' | MaxMP: '' @ dec_int (st_MaxMP st) @ '' | Base Damage: '' @ dec_int (st_Dam st) @ crlf"

definition AddExperienceSystem :: "entity \<Rightarrow> u64 \<Rightarrow> Game \<Rightarrow> Game" where
  "AddExperienceSystem e xpGained g = (case GetStats (g_reg g) e of
     None \<Rightarrow> g
   | Some st0 \<Rightarrow>
       let name = name_of (g_reg g) e;
           (st1, didLevelUp) = level_cascade (st0\<lparr>st_XP := st_XP st0 + xpGained\<rparr>) False;
           (st2, g1) = (if didLevelUp
             then (let st2 = st1\<lparr>st_HP := st_MaxHP st1, st_MP := st_MaxMP st1\<rparr>; pos = pos_of_entity (g_reg g) e
                   in (st2, publish (PlayerLevelUpEvent e name (st_Level st2) (MapID pos))
                              (BroadcastToNeighbors pos (bytes_of (level_notice name st2)) e g)))
             else (st1, SendNoticeSystem e (bytes_of (''+'' @ dec_nat (unat xpGained) @ '' XP gained.'' @ crlf)) g))
       in g1\<lparr>g_reg := SetStats e st2 (g_reg g1)\<rparr>)"

definition new_stats :: "u64 \<Rightarrow> StatsComponent \<Rightarrow> StatsComponent" where
  "new_stats xp st0 = (case level_cascade (st0\<lparr>st_XP := st_XP st0 + xp\<rparr>) False of
     (st1, did) \<Rightarrow> if did then st1\<lparr>st_HP := st_MaxHP st1, st_MP := st_MaxMP st1\<rparr> else st1)"

lemma publish_simps [simp]:
  "g_reg (publish ev g) = g_reg g" "g_free (publish ev g) = g_free g" "g_grid (publish ev g) = g_grid g"
  "g_out (publish ev g) = g_out g" "g_buffer (publish ev g) = g_buffer g" "g_respawns (publish ev g) = g_respawns g"
  "g_templates (publish ev g) = g_templates g" "globalTick (publish ev g) = globalTick g" "g_mesh (publish ev g) = g_mesh g"
  "g_fsms (publish ev g) = g_fsms g" "g_config (publish ev g) = g_config g" "g_draws (publish ev g) = g_draws g"
  by (simp_all add: publish_def)

lemma AddExperience_reg:
  "g_reg (AddExperienceSystem e xp g) = (case GetStats (g_reg g) e of None \<Rightarrow> g_reg g | Some st \<Rightarrow> SetStats e (new_stats xp st) (g_reg g))"
  "g_free (AddExperienceSystem e xp g) = g_free g" "g_grid (AddExperienceSystem e xp g) = g_grid g"
  "g_buffer (AddExperienceSystem e xp g) = g_buffer g" "g_respawns (AddExperienceSystem e xp g) = g_respawns g"
  "g_templates (AddExperienceSystem e xp g) = g_templates g" "globalTick (AddExperienceSystem e xp g) = globalTick g"
  "g_mesh (AddExperienceSystem e xp g) = g_mesh g" "g_fsms (AddExperienceSystem e xp g) = g_fsms g"
  "g_draws (AddExperienceSystem e xp g) = g_draws g"
  by (auto simp: AddExperienceSystem_def new_stats_def Let_def split: option.splits prod.splits)

lemma AddExperience_ok:
  assumes ok: "game_ok g L I"
  shows "game_ok (AddExperienceSystem e xp g) L I"
    and "GetStats (g_reg (AddExperienceSystem e xp g)) = (GetStats (g_reg g))(e := map_option (new_stats xp) (GetStats (g_reg g) e))"
proof -
  have "game_ok (AddExperienceSystem e xp g) L I \<and>
    GetStats (g_reg (AddExperienceSystem e xp g)) = (GetStats (g_reg g))(e := map_option (new_stats xp) (GetStats (g_reg g) e))"
  proof (cases "GetStats (g_reg g) e")
    case None
    then show ?thesis using ok by (simp add: AddExperienceSystem_def fun_upd_idem)
  next
    case (Some st)
    note S = set_stats_ok [OF ok live_of_component(1) [OF ok Some]]
    have "game_ok (AddExperienceSystem e xp g) L I = game_ok (set_reg (SetStats e (new_stats xp st) (g_reg g)) g) L I"
      by (rule game_ok_cong) (simp_all add: AddExperience_reg Some)
    with S Some show ?thesis by (simp add: AddExperience_reg)
  qed
  then show "game_ok (AddExperienceSystem e xp g) L I"
    and "GetStats (g_reg (AddExperienceSystem e xp g)) = (GetStats (g_reg g))(e := map_option (new_stats xp) (GetStats (g_reg g) e))"
    by auto
qed

text \<open>
  Level-up raises \<open>Dam\<close>, but the combat formulas read \<open>Attack\<close> whenever it is set: the attack value stays.
\<close>

lemma level_up_keeps_attack: "st_Attack (new_stats xp st) = st_Attack st"
proof -
  obtain st1 did where c: "level_cascade (st\<lparr>st_XP := st_XP st + xp\<rparr>) False = (st1, did)" by force
  have "st1 = (st\<lparr>st_XP := st_XP st + xp\<rparr>)\<lparr>st_XP := st_XP st1, st_Level := st_Level st1,
      st_MaxHP := st_MaxHP (st\<lparr>st_XP := st_XP st + xp\<rparr>) + 25 * (st_Level st1 - st_Level (st\<lparr>st_XP := st_XP st + xp\<rparr>)),
      st_MaxMP := st_MaxMP (st\<lparr>st_XP := st_XP st + xp\<rparr>) + 10 * (st_Level st1 - st_Level (st\<lparr>st_XP := st_XP st + xp\<rparr>)),
      st_Dam := st_Dam (st\<lparr>st_XP := st_XP st + xp\<rparr>) + 3 * (st_Level st1 - st_Level (st\<lparr>st_XP := st_XP st + xp\<rparr>))\<rparr>"
    using level_cascade_exact [OF c] by simp
  then have "st_Attack st1 = st_Attack st" by (metis (no_types, lifting) StatsComponent.select_convs(8) StatsComponent.surjective StatsComponent.update_convs)
  then show ?thesis by (simp add: new_stats_def c)
qed

subsection \<open>Properties\<close>

text \<open>
  C37 Gaining experience always terminates, and exactly: the player ends at a level whose threshold exceeds the
  remaining experience, the experience spent is the sum of the thresholds passed, the maxima and the damage
  grow by their step per level, and from level 1 on there is at most one level per 100 points. A level-up
  heals; without one only the experience changes. Nobody else's stats change.
\<close>

theorem AddExperience_levels:
  assumes "game_ok g L I" and "GetStats (g_reg g) e = Some st"
  shows "\<exists>st'. GetStats (g_reg (AddExperienceSystem e xp g)) = (GetStats (g_reg g))(e \<mapsto> st') \<and>
    uint (st_XP st') < CalculateXPThreshold (st_Level st') \<and> st_Level st \<le> st_Level st' \<and>
    uint (st_XP st + xp) = uint (st_XP st') + (\<Sum>l \<in> {st_Level st..<st_Level st'}. CalculateXPThreshold l) \<and>
    st_MaxHP st' = st_MaxHP st + 25 * (st_Level st' - st_Level st) \<and> st_MaxMP st' = st_MaxMP st + 10 * (st_Level st' - st_Level st) \<and>
    st_Dam st' = st_Dam st + 3 * (st_Level st' - st_Level st) \<and>
    (1 \<le> st_Level st \<longrightarrow> 100 * (st_Level st' - st_Level st) \<le> uint (st_XP st + xp)) \<and>
    (if st_Level st < st_Level st' then st_HP st' = st_MaxHP st' \<and> st_MP st' = st_MaxMP st' else st' = st\<lparr>st_XP := st_XP st + xp\<rparr>)"
proof -
  obtain st1 did where c: "level_cascade (st\<lparr>st_XP := st_XP st + xp\<rparr>) False = (st1, did)" by force
  note C = level_cascade_exact [OF c, simplified]
  then have eq: "st1 = st\<lparr>st_XP := st_XP st1, st_Level := st_Level st1, st_MaxHP := st_MaxHP st + 25 * (st_Level st1 - st_Level st),
      st_MaxMP := st_MaxMP st + 10 * (st_Level st1 - st_Level st), st_Dam := st_Dam st + 3 * (st_Level st1 - st_Level st)\<rparr>" by simp
  from C have C': "st_Level st \<le> st_Level st1" "uint (st_XP st1) < CalculateXPThreshold (st_Level st1)"
    "uint (st_XP st + xp) = uint (st_XP st1) + xp_between (st_Level st) (st_Level st1)" "did \<longleftrightarrow> st_Level st < st_Level st1"
    by blast+
  have max: "st_MaxHP st1 = st_MaxHP st + 25 * (st_Level st1 - st_Level st)" "st_MaxMP st1 = st_MaxMP st + 10 * (st_Level st1 - st_Level st)"
    "st_Dam st1 = st_Dam st + 3 * (st_Level st1 - st_Level st)"
    using arg_cong [OF eq, of st_MaxHP] arg_cong [OF eq, of st_MaxMP] arg_cong [OF eq, of st_Dam] by simp_all
  have levels: "1 \<le> st_Level st \<longrightarrow> 100 * (st_Level st1 - st_Level st) \<le> uint (st_XP st + xp)"
    using C'(1,3) xp_between_bound [of "st_Level st" "st_Level st1"] uint_ge_0 [of "st_XP st1"] by linarith
  show ?thesis
  proof (cases did)
    case True
    let ?st' = "st1\<lparr>st_HP := st_MaxHP st1, st_MP := st_MaxMP st1\<rparr>"
    have "new_stats xp st = ?st'" using True by (simp add: new_stats_def c)
    with True C' max levels AddExperience_ok(2) [OF assms(1), of e xp] assms(2) show ?thesis
      unfolding xp_between_def by (intro exI [of _ ?st']) simp
  next
    case False
    have new: "new_stats xp st = st1" using False by (simp add: new_stats_def c)
    have "st1 = st\<lparr>st_XP := st_XP st + xp\<rparr>"
    proof (cases "uint (st_XP st + xp) \<ge> CalculateXPThreshold (st_Level st)")
      case True
      then have "level_cascade (level_up (st\<lparr>st_XP := st_XP st + xp\<rparr>)) True = (st1, did)"
        using c by (simp add: level_cascade.simps [of "st\<lparr>st_XP := st_XP st + xp\<rparr>"])
      from level_cascade_exact [OF this] False show ?thesis by blast
    next
      case False
      with c show ?thesis by (simp add: level_cascade.simps [of "st\<lparr>st_XP := st_XP st + xp\<rparr>"])
    qed
    then have same: "if st_Level st < st_Level st1 then st_HP st1 = st_MaxHP st1 \<and> st_MP st1 = st_MaxMP st1
        else st1 = st\<lparr>st_XP := st_XP st + xp\<rparr>"
      using False C'(4) by presburger
    from new same C'(1-3) max levels AddExperience_ok(2) [OF assms(1), of e xp] assms(2) show ?thesis
      unfolding xp_between_def by (intro exI [of _ st1]) simp
  qed
qed

text \<open>With 500 points the hero passes levels 1 (100) and 2 (348).\<close>

theorem AddExperience_levels_witness:
  "\<exists>st'. GetStats (g_reg (AddExperienceSystem hero 500 arena)) hero = Some st' \<and> st_Level st' = 3 \<and> uint (st_XP st') = 52 \<and> st_HP st' = 150"
proof -
  have t: "CalculateXPThreshold 1 = 100" "CalculateXPThreshold 2 = 348" "CalculateXPThreshold 3 = 722"
    by (rule threshold_eqI; simp)+
  have "GetStats (g_reg arena) hero = Some hero_stats" by (simp add: arena_reg)
  from AddExperience_levels [OF arena_ok this, of 500] obtain st' where
    st': "GetStats (g_reg (AddExperienceSystem hero 500 arena)) hero = Some st'"
      "uint (st_XP st') < CalculateXPThreshold (st_Level st')" "1 \<le> st_Level st'"
      "500 = uint (st_XP st') + (\<Sum>l \<in> {1..<st_Level st'}. CalculateXPThreshold l)"
      "st_MaxHP st' = 100 + 25 * (st_Level st' - 1)"
      "1 < st_Level st' \<longrightarrow> st_HP st' = st_MaxHP st'"
    by (auto simp: hero_stats_def split: if_splits)
  let ?s = "\<lambda>b. \<Sum>l \<in> {1..<b}. CalculateXPThreshold l"
  have s: "?s 2 = 100" "?s 3 = 448" "?s 4 = 1170"
    using xp_between_step [of 1 2] xp_between_step [of 1 3] xp_between_step [of 2 3] xp_between_step [of 1 4]
      xp_between_step [of 2 4] xp_between_step [of 3 4] t by (simp_all add: xp_between_def)
  have "st_Level st' < 4"
  proof (rule ccontr)
    assume "\<not> st_Level st' < 4"
    then have "?s 4 \<le> ?s (st_Level st')" by (intro sum_mono2) auto
    with s st'(4) uint_ge_0 [of "st_XP st'"] show False by simp
  qed
  with st'(3) consider "st_Level st' = 1" | "st_Level st' = 2" | "st_Level st' = 3" by linarith
  then show ?thesis
  proof cases
    case 3
    with st' s show ?thesis by auto
  qed (use st' s t in auto)
qed

end
