(* ===== verification/Registry_Locks.thy ===== *)
theory Registry_Locks
  imports Ecs_Registry
begin

text \<open>
  The locks of \<open>server/ecs/ecs.go\<close>. \<open>Range\<close> calls its callback with the read lock of the store it walks; \<open>Set\<close> and
  \<open>Delete\<close> take the write lock of theirs. A goroutine that asks for the write lock of a store while it holds the
  read lock of the same store waits for itself forever (\<open>sync.RWMutex\<close> is not reentrant). An operation inside
  a callback gets the set of stores whose read lock is held; \<open>None\<close> is the operation that never returns.
\<close>

datatype store_name =
  Positions | Conns | Metadata | StatsStore | AIStore | Inventories | Lifetimes | ItemTemplates | Equipments
| Parties | PartyMembers | EffectsStore

text \<open>\<open>RemoveEntity\<close> deletes the entity from every store, so it needs all the write locks.\<close>

definition RemoveEntity_in :: "store_name set \<Rightarrow> entity \<Rightarrow> Registry \<Rightarrow> entity list \<Rightarrow> (Registry \<times> entity list) option" where
  "RemoveEntity_in held e r fl = (if held = {} then Some (RemoveEntity e r fl) else None)"

definition SetEffects_in :: "store_name set \<Rightarrow> entity \<Rightarrow> EffectsComponent \<Rightarrow> Registry \<Rightarrow> Registry option" where
  "SetEffects_in held e v r = (if EffectsStore \<in> held then None else Some (SetEffects e v r))"

definition SetAI_in :: "store_name set \<Rightarrow> entity \<Rightarrow> AIComponent \<Rightarrow> Registry \<Rightarrow> Registry option" where
  "SetAI_in held e v r = (if AIStore \<in> held then None else Some (SetAI e v r))"

text \<open>A walk over the entries whose callback may block.\<close>

fun range_blocking :: "(entity \<Rightarrow> 'a \<Rightarrow> 'w \<Rightarrow> 'w option) \<Rightarrow> (entity \<times> 'a) list \<Rightarrow> 'w \<Rightarrow> 'w option" where
  "range_blocking f [] w = Some w"
| "range_blocking f ((e, v) # es) w = (case f e v w of None \<Rightarrow> None | Some w' \<Rightarrow> range_blocking f es w')"

lemma range_blocking_skip:
  "(\<And>e v. (e, v) \<in> set es \<Longrightarrow> f e v w = Some w) \<Longrightarrow> range_blocking f es w = Some w"
  by (induction es) auto

text \<open>A callback that blocks on an entry whatever the state, and keeps an invariant until then, blocks the walk.\<close>

lemma range_blocking_stuck:
  assumes "(e, v) \<in> set es" and "P w" and "\<And>x u w w'. P w \<Longrightarrow> f x u w = Some w' \<Longrightarrow> P w'" and "\<And>w. P w \<Longrightarrow> f e v w = None"
  shows "range_blocking f es w = None"
  using assms(1,2)
proof (induction es arbitrary: w)
  case (Cons xu es)
  obtain x u where xu: "xu = (x, u)" by force
  show ?case
  proof (cases "f x u w")
    case None
    then show ?thesis by (simp add: xu)
  next
    case (Some w')
    with assms(4) [OF Cons.prems(2)] have "(e, v) \<noteq> xu" by (auto simp: xu)
    with Cons.prems(1) have "(e, v) \<in> set es" by auto
    from Cons.IH [OF this assms(3) [OF Cons.prems(2) Some]] Some show ?thesis by (simp add: xu)
  qed
qed simp

end
