(* ===== verification/Items.thy ===== *)
theory Items
  imports Progression Trade Registry_Locks
begin

text \<open>
  Items in the game: the templates of \<open>server/game/item.go\<close>, consumption (\<open>item_usage.go\<close>), equipment
  (\<open>equipment.go\<close>, \<open>stat_engine.go\<close>), items on the ground and their decay (\<open>ground_item.go\<close>) and picking them up
  (\<open>pickup.go\<close>). Every handler returns its reply and whether it succeeded.
\<close>

subsection \<open>Templates\<close>

record ItemTemplate =
  it_ID :: u64
  it_Name :: string
  it_Description :: string
  HealValue :: int
  SlotType :: string
  BonusDam :: int
  BonusHP :: int

definition ItemRegistry :: "u64 \<rightharpoonup> ItemTemplate" where
  "ItemRegistry =
     [101 \<mapsto> \<lparr>it_ID = 101, it_Name = ''Red Potion'', it_Description = ''Restores 50 Vitality HP instantly.'',
              HealValue = 50, SlotType = ''consumable'', BonusDam = 0, BonusHP = 0\<rparr>,
      202 \<mapsto> \<lparr>it_ID = 202, it_Name = ''Boar Tusk'', it_Description = ''A sharp tusk used for crafting equipment.'',
              HealValue = 0, SlotType = ''consumable'', BonusDam = 0, BonusHP = 0\<rparr>,
      303 \<mapsto> \<lparr>it_ID = 303, it_Name = ''Iron Sword'', it_Description = ''A forged blade that increases strike force.'',
              HealValue = 0, SlotType = ''weapon'', BonusDam = 15, BonusHP = 0\<rparr>,
      404 \<mapsto> \<lparr>it_ID = 404, it_Name = ''Leather Armor'', it_Description = ''Simple leather armor that protects the body.'',
              HealValue = 0, SlotType = ''armor'', BonusDam = 0, BonusHP = 30\<rparr>]"

type_synonym reply = "string \<times> bool"

subsection \<open>Consumption\<close>

definition take_one :: "u64 \<Rightarrow> item_bag \<Rightarrow> item_bag" where
  "take_one k m = (let m' = m(k \<mapsto> bag_get m k - 1) in if bag_get m' k \<le> 0 then m'(k := None) else m')"

definition heal_stats :: "int \<Rightarrow> StatsComponent \<Rightarrow> StatsComponent" where
  "heal_stats n st = (let st' = st\<lparr>st_HP := st_HP st + n\<rparr> in if st_HP st' > st_MaxHP st' then st'\<lparr>st_HP := st_MaxHP st'\<rparr> else st')"

definition consume_text :: "string \<Rightarrow> string \<Rightarrow> int \<Rightarrow> StatsComponent \<Rightarrow> string" where
  "consume_text name item healed st = ''[CONSUME] Player '' @ name @ '' drank '' @ item @ ''! Restored +'' @ dec_int healed
     @ '' HP. (Vitals: '' @ dec_int (st_HP st) @ ''/'' @ dec_int (st_MaxHP st) @ '' HP)'' @ crlf"

definition HandleItemUsageSystem :: "entity \<Rightarrow> byte_seq \<Rightarrow> Game \<Rightarrow> reply \<times> Game" where
  "HandleItemUsageSystem e payload g =
     (if length payload \<noteq> 8 then ((''Error: Invalid item usage payload length. Expected 8 bytes.'' @ crlf, False), g)
      else let itemID = the (ReadUint64 payload)
      in case ItemRegistry itemID of
        None \<Rightarrow> ((''Error: This item template does not exist in the server data table.'' @ crlf, False), g)
      | Some t \<Rightarrow>
        if HealValue t \<le> 0 then ((''Error: '' @ it_Name t @ '' is a crafting material and cannot be consumed!'' @ crlf, False), g)
        else case GetInventory (g_reg g) e of
          None \<Rightarrow> ((''Error: You do not own any '' @ it_Name t @ ''!'' @ crlf, False), g)
        | Some bag \<Rightarrow>
          if bag_get (Items bag) itemID \<le> 0 then ((''Error: You do not own any '' @ it_Name t @ ''!'' @ crlf, False), g)
          else case GetStats (g_reg g) e of
            None \<Rightarrow> ((''Error: Your character stats profile was not found.'' @ crlf, False), g)
          | Some st \<Rightarrow>
            if st_HP st \<le> 0 then ((''You cannot use items while you are dead!'' @ crlf, False), g)
            else if st_HP st \<ge> st_MaxHP st
              then ((''You are already at full health! ('' @ dec_int (st_HP st) @ ''/'' @ dec_int (st_MaxHP st) @ '' HP)'' @ crlf, False), g)
            else let bag' = (Inventory_Clone bag)\<lparr>Items := take_one itemID (Items (Inventory_Clone bag))\<rparr>;
                     st' = heal_stats (HealValue t) st;
                     r1 = SetInventory e bag' (g_reg g);
                     r2 = SetStats e st' r1
                 in ((consume_text (name_of r2 e) (it_Name t) (st_HP st' - st_HP st) st', True), g\<lparr>g_reg := r2\<rparr>))"

subsection \<open>Equipment\<close>

definition base_MaxHP :: "int \<Rightarrow> int" where
  "base_MaxHP level = (if level > 1 then 100 + (level - 1) * 50 else 100)"

definition base_Dam :: "int \<Rightarrow> int" where
  "base_Dam level = (if level > 1 then 15 + (level - 1) * 10 else 15)"

definition fresh_stats :: StatsComponent where
  "fresh_stats = \<lparr>st_Level = 1, st_XP = 0, st_HP = 100, st_MaxHP = 100, st_MP = 0, st_MaxMP = 0, st_Dam = 15, st_Attack = 0,
     st_MagicAttack = 0, st_Defense = 0, st_MagicDefense = 0, st_HitRate = 0, st_DodgeRate = 0, st_CritRate = 0, st_CritDamage = 0\<rparr>"

definition weapon_bonus :: "EquipmentComponent option \<Rightarrow> int" where
  "weapon_bonus q = (case q of None \<Rightarrow> 0 | Some eq \<Rightarrow> (case ItemRegistry (WeaponID eq) of None \<Rightarrow> 0 | Some w \<Rightarrow> BonusDam w))"

definition armor_bonus :: "EquipmentComponent option \<Rightarrow> int" where
  "armor_bonus q = (case q of None \<Rightarrow> 0 | Some eq \<Rightarrow> (case ItemRegistry (ArmorID eq) of None \<Rightarrow> 0 | Some a \<Rightarrow> BonusHP a))"

definition recalculated :: "EquipmentComponent option \<Rightarrow> StatsComponent option \<Rightarrow> StatsComponent" where
  "recalculated q cur =
     (let maxHP = (case cur of None \<Rightarrow> 100 | Some st \<Rightarrow> base_MaxHP (st_Level st)) + armor_bonus q;
          dam = (case cur of None \<Rightarrow> 15 | Some st \<Rightarrow> base_Dam (st_Level st)) + weapon_bonus q;
          st = (case cur of None \<Rightarrow> fresh_stats | Some st \<Rightarrow> st);
          st' = st\<lparr>st_MaxHP := maxHP, st_Dam := dam, st_Attack := dam\<rparr>
      in if st_HP st' > st_MaxHP st' then st'\<lparr>st_HP := st_MaxHP st'\<rparr> else st')"

definition RecalculateActiveStats :: "entity \<Rightarrow> Registry \<Rightarrow> Registry" where
  "RecalculateActiveStats e r = SetStats e (recalculated (GetEquipment r e) (GetStats r e)) r"

definition equip_slot :: "string \<Rightarrow> u64 \<Rightarrow> EquipmentComponent \<Rightarrow> EquipmentComponent" where
  "equip_slot slot itemID eq = (if slot = ''weapon'' then eq\<lparr>WeaponID := itemID\<rparr>
     else if slot = ''armor'' then eq\<lparr>ArmorID := itemID\<rparr> else eq)"

definition no_equipment :: EquipmentComponent where "no_equipment = \<lparr>WeaponID = 0, ArmorID = 0\<rparr>"

definition HandleEquipmentSystem :: "entity \<Rightarrow> u64 \<Rightarrow> Game \<Rightarrow> reply \<times> Game" where
  "HandleEquipmentSystem e itemID g = (case ItemRegistry itemID of
     None \<Rightarrow> ((''Error: This item cannot be equipped!'' @ crlf, False), g)
   | Some t \<Rightarrow>
     if SlotType t \<noteq> ''weapon'' \<and> SlotType t \<noteq> ''armor'' then ((''Error: This item cannot be equipped!'' @ crlf, False), g)
     else case GetInventory (g_reg g) e of
       None \<Rightarrow> ((''Error: You do not own any '' @ it_Name t @ ''!'' @ crlf, False), g)
     | Some bag \<Rightarrow>
       if bag_get (Items bag) itemID \<le> 0 then ((''Error: You do not own any '' @ it_Name t @ ''!'' @ crlf, False), g)
       else let eq = (case GetEquipment (g_reg g) e of None \<Rightarrow> no_equipment | Some q \<Rightarrow> q);
                r1 = SetEquipment e (equip_slot (SlotType t) itemID eq) (g_reg g);
                r2 = RecalculateActiveStats e r1
            in ((''[GEAR]: Player '' @ name_of r2 e @ '' equipped '' @ it_Name t @ ''! Stats successfully calculated.'' @ crlf, True),
                g\<lparr>g_reg := r2\<rparr>))"

subsection \<open>Items on the ground\<close>

definition SpawnItemOnGround :: "u64 \<Rightarrow> int \<Rightarrow> int \<Rightarrow> int \<Rightarrow> Game \<Rightarrow> entity \<times> Game" where
  "SpawnItemOnGround tid m x z g = (case ItemRegistry tid of
     None \<Rightarrow> (0, g)
   | Some t \<Rightarrow> (case reg_NewEntity (g_reg g) (g_free g) of (e, r0, fl) \<Rightarrow>
       let pos = \<lparr>MapID = m, PosX = x, PosZ = z\<rparr>;
           r1 = SetPosition e pos r0;
           gr = UpdateEntityPosition e pos (g_grid g);
           r2 = SetMetadata e \<lparr>meta_Name = it_Name t, meta_Type = EntityGroundItem\<rparr> r1;
           r3 = SetItemTemplate e \<lparr>TemplateID = tid\<rparr> r2;
           r4 = SetLifetime e \<lparr>SpawnedTick = GetCurrentTick g, Duration = 240\<rparr> r3;
           notice = ''[DROP]: A '' @ it_Name t @ '' dropped on the ground at position ('' @ dec_int x @ '', '' @ dec_int z
             @ '') [ID: '' @ dec_nat (unat e) @ '']'' @ crlf
       in (e, BroadcastToNeighbors pos (bytes_of notice) e (g\<lparr>g_reg := r4, g_free := fl, g_grid := gr\<rparr>))))"

text \<open>The callback of the decay, called under the read lock of the metadata store.\<close>

definition expired :: "u64 \<Rightarrow> LifetimeComponent \<Rightarrow> bool" where
  "expired now l \<longleftrightarrow> now \<ge> SpawnedTick l + Duration l"

definition decay_callback :: "u64 \<Rightarrow> entity \<Rightarrow> MetadataComponent \<Rightarrow> Game \<Rightarrow> Game option" where
  "decay_callback now e snapMeta g =
     (if meta_Type snapMeta \<noteq> EntityGroundItem then Some g
      else case GetLifetime (g_reg g) e of
        None \<Rightarrow> Some g
      | Some l \<Rightarrow>
        if expired now l then
          (let g1 = (case (GetPosition (g_reg g) e, GetMetadata (g_reg g) e) of
                (Some pos, Some m) \<Rightarrow> BroadcastToNeighbors pos (bytes_of (''[DECAY]: The '' @ meta_Name m @ '' sitting at (''
                   @ dec_int (PosX pos) @ '', '' @ dec_int (PosZ pos) @ '') faded away into dust.'' @ crlf)) e g
              | _ \<Rightarrow> g);
               g2 = g1\<lparr>g_grid := grid_RemoveEntity e (g_grid g1)\<rparr>
           in (case RemoveEntity_in {Metadata} e (g_reg g2) (g_free g2) of
                 None \<Rightarrow> None
               | Some (r, fl) \<Rightarrow> Some (g2\<lparr>g_reg := r, g_free := fl\<rparr>)))
        else Some g)"

definition RunGroundItemDecaySystem :: "Game \<Rightarrow> Game option" where
  "RunGroundItemDecaySystem g = range_blocking (decay_callback (GetCurrentTick g)) (entries (metadata (g_reg g))) g"

subsection \<open>Picking up\<close>

definition pickupRange :: real where "pickupRange = 5"

definition give_one :: "u64 \<Rightarrow> InventoryComponent option \<Rightarrow> InventoryComponent" where
  "give_one k bag = (let b = (case bag of None \<Rightarrow> \<lparr>Items = Map.empty\<rparr> | Some c \<Rightarrow> Inventory_Clone c)
     in b\<lparr>Items := (Items b)(k \<mapsto> bag_get (Items b) k + 1)\<rparr>)"

text \<open>
  The handler checks the item first and then takes it; between the two, other handlers may run. \<open>Inl\<close> is a
  rejection; otherwise the checks give the name, the position and the template of the item.
\<close>

definition pickup_check :: "entity \<Rightarrow> entity \<Rightarrow> Registry \<Rightarrow> string + (string \<times> PositionComponent \<times> u64)" where
  "pickup_check e item r =
     (let vanished = Inl (''Error: That item is either not on the ground or has already vanished!'' @ crlf)
      in case GetMetadata r item of
        None \<Rightarrow> vanished
      | Some m \<Rightarrow>
        if meta_Type m \<noteq> EntityGroundItem then vanished
        else if \<not> IsInRange r e item pickupRange
          then Inl (''Pickup Denied: You are standing too far away from this item!'' @ crlf)
        else case GetPosition r item of
          None \<Rightarrow> Inl (''Error: Item state has already been modified by another player.'' @ crlf)
        | Some pos \<Rightarrow> Inr (meta_Name m, pos, case GetItemTemplate r item of None \<Rightarrow> 101 | Some t \<Rightarrow> TemplateID t))"

definition pickup_commit :: "entity \<Rightarrow> entity \<Rightarrow> string \<times> PositionComponent \<times> u64 \<Rightarrow> Game \<Rightarrow> reply \<times> Game" where
  "pickup_commit e item found g = (case found of (itemName, pos, tid) \<Rightarrow>
     let gr = grid_RemoveEntity item (g_grid g);
         (r1, fl) = RemoveEntity item (g_reg g) (g_free g);
         r2 = SetInventory e (give_one tid (GetInventory r1 e)) r1;
         notice = ''[LOOT]: Player '' @ name_of r2 e @ '' picked up a '' @ itemName @ '' from the floor.'' @ crlf
     in ((''You successfully stowed '' @ itemName @ '' in your backpack!'' @ crlf, True),
         BroadcastToNeighbors pos (bytes_of notice) e (g\<lparr>g_reg := r2, g_free := fl, g_grid := gr\<rparr>)))"

definition HandleItemPickupSystem :: "entity \<Rightarrow> entity \<Rightarrow> Game \<Rightarrow> reply \<times> Game" where
  "HandleItemPickupSystem e item g = (case pickup_check e item (g_reg g) of
     Inl msg \<Rightarrow> ((msg, False), g)
   | Inr found \<Rightarrow> pickup_commit e item found g)"

subsection \<open>Lemmas\<close>

lemma bag_get_take_one: "0 < bag_get m k \<Longrightarrow> bag_get (take_one k m) j = bag_get m j - (if j = k then 1 else 0)"
  by (auto simp: take_one_def bag_get_def Let_def split: option.splits)

lemma take_one_positive: "\<forall>j n. m j = Some n \<longrightarrow> 0 < n \<Longrightarrow> take_one k m j = Some n \<Longrightarrow> 0 < n"
  by (auto simp: take_one_def bag_get_def Let_def split: if_splits)

lemma heal_stats_eq: "0 \<le> n \<Longrightarrow> st_HP st \<le> st_MaxHP st \<Longrightarrow> heal_stats n st = st\<lparr>st_HP := min (st_MaxHP st) (st_HP st + n)\<rparr>"
  by (simp add: heal_stats_def Let_def min_def)

text \<open>The active attributes are a function of level and equipment: calculating them twice changes nothing.\<close>

lemma recalculated_idem: "recalculated q (Some (recalculated q (Some st))) = recalculated q (Some st)"
  by (cases st) (simp add: recalculated_def Let_def)

lemma Recalculate_ok:
  assumes "game_ok g L I" and "e \<in> L"
  shows "game_ok (set_reg (RecalculateActiveStats e (g_reg g)) g) L I"
  using set_stats_ok(1) [OF assms] by (simp add: RecalculateActiveStats_def)

text \<open>Equipping leaves the item in the bag, from where it can still be traded away.\<close>

lemma equip_keeps_item:
  assumes ok: "game_ok g L I" and run: "HandleEquipmentSystem e k g = ((msg, True), g')"
  shows "game_ok g' L I" and "GetInventory (g_reg g') = GetInventory (g_reg g)"
    and "GetStats (g_reg g') = (GetStats (g_reg g))(e \<mapsto> recalculated (GetEquipment (g_reg g') e) (GetStats (g_reg g) e))"
proof -
  obtain t bag where t: "ItemRegistry k = Some t" "GetInventory (g_reg g) e = Some bag"
    using run by (auto simp: HandleEquipmentSystem_def split: option.splits if_splits)
  define q where "q = equip_slot (SlotType t) k (case GetEquipment (g_reg g) e of None \<Rightarrow> no_equipment | Some q \<Rightarrow> q)"
  have g': "g' = set_reg (RecalculateActiveStats e (SetEquipment e q (g_reg g))) g"
    using run t by (auto simp: HandleEquipmentSystem_def q_def Let_def split: if_splits)
  have e: "e \<in> L" by (rule live_of_component(4) [OF ok t(2)])
  note Q = set_equipment_ok [OF ok e, of q]
  show "game_ok g' L I" using Recalculate_ok [OF Q(1) e] by (simp add: g')
  show "GetInventory (g_reg g') = GetInventory (g_reg g)" by (simp add: g' RecalculateActiveStats_def)
  show "GetStats (g_reg g') = (GetStats (g_reg g))(e \<mapsto> recalculated (GetEquipment (g_reg g') e) (GetStats (g_reg g) e))"
    using set_stats_ok(2) [OF Q(1) e] Q(2) by (simp add: g' RecalculateActiveStats_def)
qed

text \<open>A level-up grants 25 hit points and 3 damage; the next equipment change replaces that by other amounts.\<close>

lemma level_up_overwritten:
  assumes "1 \<le> st_Level st"
  shows "st_MaxHP (recalculated None (Some (level_up st))) = 100 + 50 * st_Level st"
    and "st_MaxHP st = 100 + 25 * (st_Level st - 1) \<Longrightarrow> st_MaxHP (level_up st) = 100 + 25 * st_Level st"
  using assms by (simp_all add: recalculated_def level_up_def base_MaxHP_def armor_bonus_def weapon_bonus_def Let_def)

lemma SpawnItem_ok:
  assumes ok: "game_ok g L I" and room: "alloc_room (g_reg g) (g_free g)" and t: "ItemRegistry tid = Some t"
    and run: "SpawnItemOnGround tid m x z g = (e, g')"
  shows "game_ok g' (insert e L) (insert e I)" and "e \<notin> I"
    and "GetPosition (g_reg g') = (GetPosition (g_reg g))(e \<mapsto> \<lparr>MapID = m, PosX = x, PosZ = z\<rparr>)"
    and "GetMetadata (g_reg g') = (GetMetadata (g_reg g))(e \<mapsto> \<lparr>meta_Name = it_Name t, meta_Type = EntityGroundItem\<rparr>)"
    and "GetItemTemplate (g_reg g') = (GetItemTemplate (g_reg g))(e \<mapsto> \<lparr>TemplateID = tid\<rparr>)"
    and "GetLifetime (g_reg g') = (GetLifetime (g_reg g))(e \<mapsto> \<lparr>SpawnedTick = globalTick g, Duration = 240\<rparr>)"
    and "GetStats (g_reg g') = GetStats (g_reg g)" and "GetInventory (g_reg g') = GetInventory (g_reg g)"
    and "GetAI (g_reg g') = GetAI (g_reg g)"
proof -
  let ?pos = "\<lparr>MapID = m, PosX = x, PosZ = z\<rparr>"
  obtain r0 fl where new: "reg_NewEntity (g_reg g) (g_free g) = (e, r0, fl)"
    using run t by (auto simp: SpawnItemOnGround_def Let_def split: prod.splits)
  note N = alloc_NewEntity [OF game_okD(1) [OF ok] room new]
  have same: "GetMetadata r0 = GetMetadata (g_reg g)" "GetPosition r0 = GetPosition (g_reg g)" "GetStats r0 = GetStats (g_reg g)"
    "GetItemTemplate r0 = GetItemTemplate (g_reg g)" "GetLifetime r0 = GetLifetime (g_reg g)"
    "GetInventory r0 = GetInventory (g_reg g)" "GetAI r0 = GetAI (g_reg g)"
    using N(5) by (auto simp: same_components_def fun_eq_iff)
  have ok0: "game_ok (g\<lparr>g_reg := r0, g_free := fl\<rparr>) (insert e L) (insert e I)"
    using N(1) game_okD [OF ok] by (simp add: game_ok_def same)
  note M = move_ok [OF ok0 insertI1, of ?pos, simplified]
  define r1 where "r1 = SetPosition e ?pos r0"
  define r2 where "r2 = SetMetadata e \<lparr>meta_Name = it_Name t, meta_Type = EntityGroundItem\<rparr> r1"
  define r3 where "r3 = SetItemTemplate e \<lparr>TemplateID = tid\<rparr> r2"
  define r4 where "r4 = SetLifetime e \<lparr>SpawnedTick = globalTick g, Duration = 240\<rparr> r3"
  have al1: "alloc_ok r1 fl (insert e L) (insert e I)" using M(1) by (simp add: game_ok_def r1_def)
  note S2 = Set_live(5,6) [OF al1 insertI1, of "\<lparr>meta_Name = it_Name t, meta_Type = EntityGroundItem\<rparr>", folded r2_def]
  note S3 = Set_live(15,16) [OF S2(1) insertI1, of "\<lparr>TemplateID = tid\<rparr>", folded r3_def]
  note S4 = Set_live(13,14) [OF S3(1) insertI1, of "\<lparr>SpawnedTick = globalTick g, Duration = 240\<rparr>", folded r4_def]
  have g': "g_reg g' = r4" "g_free g' = fl" "g_grid g' = UpdateEntityPosition e ?pos (g_grid g)"
    using run t new by (auto simp: SpawnItemOnGround_def GetCurrentTick_def Let_def r1_def r2_def r3_def r4_def)
  have pos: "GetPosition r4 = (GetPosition (g_reg g))(e \<mapsto> ?pos)"
    using M(2) by (simp add: r4_def r3_def r2_def r1_def same)
  have "grid_of (g_grid g') \<subseteq>\<^sub>m GetPosition r4"
    using M(3) game_okD(3) [OF ok] by (simp only: g' pos) (auto simp: map_le_def)
  moreover have "grid_ok (g_grid g')" using M(1) by (simp add: game_ok_def g')
  ultimately show "game_ok g' (insert e L) (insert e I)" using S4(1) by (simp add: game_ok_def g')
  show "e \<notin> I" by (rule N)
  show "GetPosition (g_reg g') = (GetPosition (g_reg g))(e \<mapsto> ?pos)" by (simp add: g' pos)
  show "GetMetadata (g_reg g') = (GetMetadata (g_reg g))(e \<mapsto> \<lparr>meta_Name = it_Name t, meta_Type = EntityGroundItem\<rparr>)"
    using S2(2) by (simp add: g' r4_def r3_def same) (simp add: r1_def same)
  show "GetItemTemplate (g_reg g') = (GetItemTemplate (g_reg g))(e \<mapsto> \<lparr>TemplateID = tid\<rparr>)"
    using S3(2) by (simp add: g' r4_def) (simp add: r2_def r1_def same)
  show "GetLifetime (g_reg g') = (GetLifetime (g_reg g))(e \<mapsto> \<lparr>SpawnedTick = globalTick g, Duration = 240\<rparr>)"
    using S4(2) by (simp add: g') (simp add: r3_def r2_def r1_def same)
  show "GetStats (g_reg g') = GetStats (g_reg g)" "GetInventory (g_reg g') = GetInventory (g_reg g)" "GetAI (g_reg g') = GetAI (g_reg g)"
    by (simp_all add: g' r4_def r3_def r2_def r1_def same)
qed

lemma name_of_item: "no_components e r \<Longrightarrow> name_of r e = []"
  by (simp add: name_of_def no_components_def)

lemma pickup_check_Inr:
  assumes "pickup_check e item r = Inr (name, pos, tid)"
  shows "GetMetadata r item = Some \<lparr>meta_Name = name, meta_Type = EntityGroundItem\<rparr>" and "IsInRange r e item 5"
    and "GetPosition r item = Some pos" and "tid = (case GetItemTemplate r item of None \<Rightarrow> 101 | Some t \<Rightarrow> TemplateID t)"
  using assms by (auto simp: pickup_check_def pickupRange_def Let_def split: option.splits if_splits)

lemma pickup_commit_ok:
  assumes ok: "game_ok g L I" and item: "item \<in> L" and e: "e \<in> L" "e \<noteq> item"
    and run: "pickup_commit e item (name, pos, tid) g = (rep, g')"
  shows "game_ok g' (L - {item}) I" and "no_components item (g_reg g')"
    and "grid_of (g_grid g') = (grid_of (g_grid g))(item := None)"
    and "GetInventory (g_reg g') = (GetInventory (g_reg g))(item := None, e \<mapsto> give_one tid (GetInventory (g_reg g) e))"
    and "\<And>x. x \<noteq> item \<Longrightarrow> x \<noteq> e \<Longrightarrow> same_components x (g_reg g) (g_reg g')"
proof -
  obtain r1 fl where rem: "RemoveEntity item (g_reg g) (g_free g) = (r1, fl)" by force
  note G = grid_RemoveEntity_refines [OF game_okD(2) [OF ok], of item]
  note R = remove_ok [OF ok item rem G(2,1)]
  have e': "e \<in> L - {item}" using e by simp
  note S = set_inventory_ok [OF R(1) e', of "give_one tid (GetInventory r1 e)", simplified]
  have same: "GetInventory r1 x = GetInventory (g_reg g) x" if "x \<noteq> item" for x
    using R(3) [OF that] by (simp add: same_components_def)
  have none: "GetInventory r1 item = None" using R(2) by (simp add: no_components_def)
  have g': "g_reg g' = SetInventory e (give_one tid (GetInventory r1 e)) r1" "g_free g' = fl" "g_grid g' = grid_RemoveEntity item (g_grid g)"
    using run rem by (auto simp: pickup_commit_def Let_def)
  show "game_ok g' (L - {item}) I"
    using S(1) by (rule iffD1 [OF game_ok_cong, rotated -1]) (simp_all add: g')
  show "grid_of (g_grid g') = (grid_of (g_grid g))(item := None)" by (simp add: g' G)
  show "no_components item (g_reg g')" using R(2) S(2) e(2) by (simp add: g' no_components_def)
  show "GetInventory (g_reg g') = (GetInventory (g_reg g))(item := None, e \<mapsto> give_one tid (GetInventory (g_reg g) e))"
    using S(2) same none e(2) by (auto simp: g' fun_eq_iff)
  show "same_components x (g_reg g) (g_reg g')" if "x \<noteq> item" "x \<noteq> e" for x
    using R(3) [OF that(1)] S(2) that(2) by (simp add: g' same_components_def)
qed

lemma bag_get_give_one:
  "bag_get (Items (give_one k bag)) j = (case bag of None \<Rightarrow> 0 | Some b \<Rightarrow> bag_get (Items b) j) + (if j = k then 1 else 0)"
  by (auto simp: give_one_def bag_get_def Let_def split: option.splits)

text \<open>
  The removal before the credit is documented as a lock against duplication. But the removal reports nothing:
  two players whose checks both ran before the first removal both get the item, and its identifier is queued
  for reuse twice.
\<close>

lemma pickup_race_duplicates:
  assumes ok: "game_ok g L I" and ids: "p \<noteq> q" "p \<noteq> item" "q \<noteq> item" "p \<in> L" "q \<in> L"
    and checked: "pickup_check p item (g_reg g) = Inr (name, pos, tid)" "pickup_check q item (g_reg g) = Inr (name, pos, tid)"
  defines "h \<equiv> snd (pickup_commit q item (name, pos, tid) (snd (pickup_commit p item (name, pos, tid) g)))"
  shows "GetInventory (g_reg h) p = Some (give_one tid (GetInventory (g_reg g) p))"
    and "GetInventory (g_reg h) q = Some (give_one tid (GetInventory (g_reg g) q))"
    and "g_free h = g_free g @ [item, item]"
proof -
  have item: "item \<in> L" by (rule live_of_component(5) [OF ok pickup_check_Inr(1) [OF checked(1)]])
  obtain rep g1 where c1: "pickup_commit p item (name, pos, tid) g = (rep, g1)" by (metis surj_pair)
  note P = pickup_commit_ok [OF ok item ids(4,2) c1]
  obtain r2 fl2 where rem: "RemoveEntity item (g_reg g1) (g_free g1) = (r2, fl2)" by force
  have inv: "registry_inv (g_reg g1)" using alloc_okD(1) [OF game_okD(1) [OF P(1)]] .
  have eff: "\<And>x. x \<noteq> item \<Longrightarrow> same_components x (g_reg g1) r2" "reg_nextID r2 = reg_nextID (g_reg g1)" "fl2 = g_free g1 @ [item]"
    using RemoveEntity_effect [OF _ rem] inv by (auto simp: registry_inv_def)
  have "alloc_ok r2 (g_free g1) (L - {item}) I"
    using game_okD(1) [OF P(1)] RemoveEntity_inv [OF inv rem] eff(2) by (auto simp: alloc_ok_def)
  from Set_live(12) [OF this, of q "give_one tid (GetInventory r2 q)"] ids
  have h: "GetInventory (g_reg h) = (GetInventory r2)(q \<mapsto> give_one tid (GetInventory r2 q))"
    using rem by (simp add: h_def c1) (simp add: pickup_commit_def Let_def)
  have r2: "GetInventory r2 x = GetInventory (g_reg g1) x" if "x \<noteq> item" for x
    using eff(1) [OF that] by (simp add: same_components_def)
  show "GetInventory (g_reg h) p = Some (give_one tid (GetInventory (g_reg g) p))"
    and "GetInventory (g_reg h) q = Some (give_one tid (GetInventory (g_reg g) q))"
    using ids by (simp_all add: h r2 P(4))
  obtain r1 fl1 where rem1: "RemoveEntity item (g_reg g) (g_free g) = (r1, fl1)" by force
  have "fl1 = g_free g @ [item]" using RemoveEntity_effect [OF _ rem1] alloc_okD(1) [OF game_okD(1) [OF ok]] by (simp add: registry_inv_def)
  then have "g_free g1 = g_free g @ [item]" using c1 rem1 by (auto simp: pickup_commit_def Let_def)
  with eff(3) show "g_free h = g_free g @ [item, item]"
    using rem by (simp add: h_def c1) (simp add: pickup_commit_def Let_def)
qed

subsection \<open>Properties\<close>

text \<open>
  C25 Picking up moves exactly one item from the ground into one bag. A rejected pickup changes nothing. A
  successful one was of a ground item within range; afterwards the item entity is gone from registry and grid,
  the bag of the player holds one more of its template and is otherwise unchanged, everybody else is as before,
  the state is well formed, and nobody can pick the item up again.
\<close>

theorem pickup_exact:
  assumes ok: "game_ok g L I" and ne: "e \<noteq> item" and run: "HandleItemPickupSystem e item g = ((msg, done'), g')"
  shows "if \<not> done' then g' = g
    else IsInRange (g_reg g) e item 5 \<and> map_option meta_Type (GetMetadata (g_reg g) item) = Some EntityGroundItem \<and>
      game_ok g' (L - {item}) I \<and> no_components item (g_reg g') \<and> grid_of (g_grid g') item = None \<and>
      (\<forall>k. bag_get (Items (the (GetInventory (g_reg g') e))) k =
         (case GetInventory (g_reg g) e of None \<Rightarrow> 0 | Some b \<Rightarrow> bag_get (Items b) k) +
         (if k = (case GetItemTemplate (g_reg g) item of None \<Rightarrow> 101 | Some t \<Rightarrow> TemplateID t) then 1 else 0)) \<and>
      (\<forall>x. x \<noteq> item \<and> x \<noteq> e \<longrightarrow> same_components x (g_reg g) (g_reg g')) \<and>
      (\<forall>p. \<not> snd (fst (HandleItemPickupSystem p item g')))"
proof (cases "pickup_check e item (g_reg g)")
  case (Inl m)
  with run show ?thesis by (simp add: HandleItemPickupSystem_def)
next
  case (Inr found)
  obtain name pos tid where f: "found = (name, pos, tid)" by (cases found)
  note C = pickup_check_Inr [OF Inr [unfolded f]]
  have commit: "pickup_commit e item (name, pos, tid) g = ((msg, done'), g')" using run Inr f by (simp add: HandleItemPickupSystem_def)
  then have d: done' by (auto simp: pickup_commit_def Let_def split: prod.splits)
  have item: "item \<in> L" by (rule live_of_component(5) [OF ok C(1)])
  obtain p where "GetPosition (g_reg g) e = Some p" using C(2) by (auto simp: IsInRange_def split: option.splits)
  then have e: "e \<in> L" by (rule live_of_component(2) [OF ok])
  note P = pickup_commit_ok [OF ok item e ne commit]
  have "GetMetadata (g_reg g') item = None" using P(2) by (simp add: no_components_def)
  then have "\<not> snd (fst (HandleItemPickupSystem q item g'))" for q
    by (simp add: HandleItemPickupSystem_def pickup_check_def Let_def)
  with d C P(1,2,3,5) show ?thesis by (simp add: P(4) bag_get_give_one)
qed

lemma arena_drop: "\<exists>item g. SpawnItemOnGround 202 1 4 4 arena = (item, g) \<and> item \<noteq> hero \<and> game_ok g {item, hero, foe} {item, hero, foe} \<and>
    GetPosition (g_reg g) = [hero \<mapsto> hero_pos, foe \<mapsto> slime_pos, item \<mapsto> \<lparr>MapID = 1, PosX = 4, PosZ = 4\<rparr>] \<and>
    map_option meta_Type (GetMetadata (g_reg g) item) = Some EntityGroundItem \<and>
    GetItemTemplate (g_reg g) item = Some \<lparr>TemplateID = 202\<rparr> \<and> GetInventory (g_reg g) = [hero \<mapsto> hero_bag] \<and>
    GetLifetime (g_reg g) item = Some \<lparr>SpawnedTick = 7, Duration = 240\<rparr>"
proof -
  obtain item g where run: "SpawnItemOnGround 202 1 4 4 arena = (item, g)" by force
  have room: "alloc_room (g_reg arena) (g_free arena)"
    by (simp add: alloc_room_def ids_room_def arena_reg_def)
  have t: "ItemRegistry 202 = Some (the (ItemRegistry 202))" by (simp add: ItemRegistry_def)
  note S = SpawnItem_ok [OF arena_ok room t run]
  have "item \<noteq> hero" using S(2) by auto
  with S run show ?thesis by (intro exI [of _ item] exI [of _ g]) (simp add: arena_reg)
qed

text \<open>The hero takes a tusk that lies beside him.\<close>

theorem pickup_exact_witness:
  "\<exists>item g g'. SpawnItemOnGround 202 1 4 4 arena = (item, g) \<and> snd (fst (HandleItemPickupSystem hero item g)) \<and>
     g' = snd (HandleItemPickupSystem hero item g) \<and> bag_get (Items (the (GetInventory (g_reg g') hero))) 202 = 1"
proof -
  from arena_drop obtain item g where
    D: "SpawnItemOnGround 202 1 4 4 arena = (item, g)" "item \<noteq> hero" "game_ok g {item, hero, foe} {item, hero, foe}"
      "GetPosition (g_reg g) = [hero \<mapsto> hero_pos, foe \<mapsto> slime_pos, item \<mapsto> \<lparr>MapID = 1, PosX = 4, PosZ = 4\<rparr>]"
      "map_option meta_Type (GetMetadata (g_reg g) item) = Some EntityGroundItem"
      "GetItemTemplate (g_reg g) item = Some \<lparr>TemplateID = 202\<rparr>" "GetInventory (g_reg g) = [hero \<mapsto> hero_bag]" by blast
  obtain msg d g' where run: "HandleItemPickupSystem hero item g = ((msg, d), g')" by (metis surj_pair)
  obtain m where m: "GetMetadata (g_reg g) item = Some m" "meta_Type m = EntityGroundItem" using D(5) by auto
  have d: d
  proof (rule ccontr)
    assume "\<not> d"
    with run m D(2,4) show False
      by (auto simp: HandleItemPickupSystem_def pickup_check_def pickup_commit_def IsInRange_def pickupRange_def hero_pos_def
          DistanceSq_def Let_def split: prod.splits)
  qed
  have "hero \<noteq> item" using D(2) by simp
  from pickup_exact [OF D(3) this run] d have "bag_get (Items (the (GetInventory (g_reg g') hero))) 202 = 1"
    by (simp add: D(6,7) hero_bag_def bag_get_def)
  with D(1) run d show ?thesis by (intro exI [of _ item] exI [of _ g] exI [of _ g']) simp
qed

text \<open>
  C26 A potion is used exactly when the player owns it, is alive and is hurt; then it costs one item and gives
  its points up to the maximum, at least one of them. Every rejection leaves the game as it was.
\<close>

theorem potion_exact:
  assumes ok: "game_ok g L I" and run: "HandleItemUsageSystem e payload g = ((msg, done'), g')"
  shows "(\<not> done' \<longrightarrow> g' = g) \<and>
    (done' \<longleftrightarrow> length payload = 8 \<and> (\<exists>t bag st. ItemRegistry (unbe payload) = Some t \<and> 0 < HealValue t \<and>
       GetInventory (g_reg g) e = Some bag \<and> 0 < bag_get (Items bag) (unbe payload) \<and>
       GetStats (g_reg g) e = Some st \<and> 0 < st_HP st \<and> st_HP st < st_MaxHP st)) \<and>
    (done' \<longrightarrow> game_ok g' L I \<and> (\<exists>t bag st. ItemRegistry (unbe payload) = Some t \<and> GetInventory (g_reg g) e = Some bag \<and>
       GetStats (g_reg g) e = Some st \<and>
       GetStats (g_reg g') = (GetStats (g_reg g))(e \<mapsto> st\<lparr>st_HP := min (st_MaxHP st) (st_HP st + HealValue t)\<rparr>) \<and>
       (\<forall>k. bag_get (Items (the (GetInventory (g_reg g') e))) k = bag_get (Items bag) k - (if k = unbe payload then 1 else 0)) \<and>
       (\<forall>x. x \<noteq> e \<longrightarrow> same_components x (g_reg g) (g_reg g'))))"
proof -
  let ?k = "unbe payload"
  have read: "length payload = 8 \<Longrightarrow> ReadUint64 payload = Some ?k" by (simp add: ReadUint64_def)
  note D = HandleItemUsageSystem_def Let_def
  consider (rejected) "\<not> done'" "g' = g" "\<not> (length payload = 8 \<and> (\<exists>t bag st. ItemRegistry ?k = Some t \<and> 0 < HealValue t \<and>
       GetInventory (g_reg g) e = Some bag \<and> 0 < bag_get (Items bag) ?k \<and> GetStats (g_reg g) e = Some st \<and> 0 < st_HP st \<and> st_HP st < st_MaxHP st))"
    | (used) t bag st where done' "length payload = 8" "ItemRegistry ?k = Some t" "0 < HealValue t" "GetInventory (g_reg g) e = Some bag"
       "0 < bag_get (Items bag) ?k" "GetStats (g_reg g) e = Some st" "0 < st_HP st" "st_HP st < st_MaxHP st"
       "g' = g\<lparr>g_reg := SetStats e (heal_stats (HealValue t) st) (SetInventory e (bag\<lparr>Items := take_one ?k (Items bag)\<rparr>) (g_reg g))\<rparr>"
  proof (cases "length payload = 8 \<and> ItemRegistry ?k \<noteq> None \<and> GetInventory (g_reg g) e \<noteq> None \<and> GetStats (g_reg g) e \<noteq> None")
    case False
    have "\<not> done' \<and> g' = g"
    proof (cases "length payload = 8")
      case len: True
      show ?thesis
      proof (cases "ItemRegistry ?k")
        case (Some t)
        with run len read False show ?thesis
          by (cases "GetInventory (g_reg g) e"; cases "GetStats (g_reg g) e") (simp_all add: D split: if_splits)
      qed (use run len read in \<open>simp add: D\<close>)
    qed (use run in \<open>simp add: D\<close>)
    with False show ?thesis by (intro rejected) auto
  next
    case True
    then obtain t bag st where S: "length payload = 8" "ItemRegistry ?k = Some t" "GetInventory (g_reg g) e = Some bag" "GetStats (g_reg g) e = Some st"
      by blast
    show ?thesis
    proof (cases "0 < HealValue t \<and> 0 < bag_get (Items bag) ?k \<and> 0 < st_HP st \<and> st_HP st < st_MaxHP st")
      case True
      with S read run show ?thesis by (intro used [of t bag st]) (simp_all add: D)
    next
      case False
      then have "\<not> done' \<and> g' = g" using S read run by (simp add: D split: if_splits)
      with S False show ?thesis by (intro rejected) auto
    qed
  qed
  then show ?thesis
  proof cases
    case rejected
    then show ?thesis by simp
  next
    case used
    have e: "e \<in> L" by (rule live_of_component(1) [OF ok used(7)])
    note B = set_inventory_ok [OF ok e, of "bag\<lparr>Items := take_one ?k (Items bag)\<rparr>"]
    note S = set_stats_ok [OF B(1) e, of "heal_stats (HealValue t) st", simplified]
    have st: "heal_stats (HealValue t) st = st\<lparr>st_HP := min (st_MaxHP st) (st_HP st + HealValue t)\<rparr>"
      using used by (intro heal_stats_eq) auto
    have "same_components x (g_reg g) (g_reg g')" if "x \<noteq> e" for x
      using S(2) B(2) that by (simp add: used(10) same_components_def)
    with used S B st show ?thesis by (auto simp: bag_get_take_one)
  qed
qed

theorem potion_exact_witness:
  "\<exists>msg g'. HandleItemUsageSystem hero [0, 0, 0, 0, 0, 0, 0, 101] arena = ((msg, True), g') \<and>
     map_option st_HP (GetStats (g_reg g') hero) = Some 100"
proof -
  obtain msg d g' where run: "HandleItemUsageSystem hero [0, 0, 0, 0, 0, 0, 0, 101] arena = ((msg, d), g')" by (metis surj_pair)
  have k: "unbe [0, 0, 0, 0, 0, 0, 0, 101] = 101" by (simp add: unbe_def)
  from potion_exact [OF arena_ok run] have d: d
    by (simp add: k ItemRegistry_def arena_reg hero_bag_def bag_get_def hero_stats_def)
  from potion_exact [OF arena_ok run] d show ?thesis
    using run by (auto simp: k ItemRegistry_def arena_reg hero_stats_def)
qed

text \<open>
  The decay never returns once an item has expired: its callback runs under the read lock of the metadata
  store and removing the item needs the write lock. While nothing has expired it returns and changes nothing.
\<close>

theorem decay_blocks:
  assumes "store_ok (metadata (g_reg g))"
  shows "RunGroundItemDecaySystem g =
    (if \<exists>e m l. GetMetadata (g_reg g) e = Some m \<and> meta_Type m = EntityGroundItem \<and> GetLifetime (g_reg g) e = Some l \<and>
        SpawnedTick l + Duration l \<le> globalTick g
     then None else Some g)"
proof -
  let ?f = "decay_callback (GetCurrentTick g)" and ?es = "entries (metadata (g_reg g))"
  have mem: "(e, m) \<in> set ?es \<longleftrightarrow> GetMetadata (g_reg g) e = Some m" for e m
    using set_entries [OF assms] by (simp add: GetMetadata_def)
  have step: "?f e m h = (if meta_Type m = EntityGroundItem \<and> (\<exists>l. GetLifetime (g_reg h) e = Some l \<and> expired (GetCurrentTick g) l)
      then None else Some h)" for e m h
    by (auto simp: decay_callback_def RemoveEntity_in_def Let_def split: option.splits)
  show ?thesis
  proof (cases "\<exists>e m l. GetMetadata (g_reg g) e = Some m \<and> meta_Type m = EntityGroundItem \<and> GetLifetime (g_reg g) e = Some l \<and>
      SpawnedTick l + Duration l \<le> globalTick g")
    case True
    then obtain e m l where "(e, m) \<in> set ?es" "meta_Type m = EntityGroundItem" "GetLifetime (g_reg g) e = Some l"
      "expired (GetCurrentTick g) l" by (auto simp: mem expired_def GetCurrentTick_def)
    then have em: "(e, m) \<in> set ?es" and stuck: "?f e m g = None" by (auto simp: step)
    have "range_blocking ?f ?es g = None"
    proof (rule range_blocking_stuck [where P = "\<lambda>h. h = g"])
      show "(e, m) \<in> set ?es" by (rule em)
    qed (use stuck step in \<open>auto split: if_splits\<close>)
    with True show ?thesis by (simp add: RunGroundItemDecaySystem_def)
  next
    case False
    then have "\<not> expired (GetCurrentTick g) l"
      if "GetMetadata (g_reg g) e = Some m" "meta_Type m = EntityGroundItem" "GetLifetime (g_reg g) e = Some l" for e m l
      using that by (auto simp: expired_def GetCurrentTick_def)
    then have "range_blocking ?f ?es g = Some g" by (intro range_blocking_skip) (auto simp: step mem)
    with False show ?thesis by (simp add: RunGroundItemDecaySystem_def)
  qed
qed

theorem decay_blocks_witness:
  "\<exists>item g. SpawnItemOnGround 202 1 4 4 arena = (item, g) \<and> RunGroundItemDecaySystem (SetCurrentTick 247 g) = None"
proof -
  from arena_drop obtain item g where
    D: "SpawnItemOnGround 202 1 4 4 arena = (item, g)" "game_ok g {item, hero, foe} {item, hero, foe}"
      "map_option meta_Type (GetMetadata (g_reg g) item) = Some EntityGroundItem"
      "GetLifetime (g_reg g) item = Some \<lparr>SpawnedTick = 7, Duration = 240\<rparr>" by blast
  have ok: "store_ok (metadata (g_reg (SetCurrentTick 247 g)))"
    using alloc_okD(1) [OF game_okD(1) [OF D(2)]] by (simp add: SetCurrentTick_def registry_inv_def registry_ok_def)
  obtain m where m: "GetMetadata (g_reg g) item = Some m" "meta_Type m = EntityGroundItem" using D(3) by auto
  have "\<exists>e m l. GetMetadata (g_reg g) e = Some m \<and> meta_Type m = EntityGroundItem \<and> GetLifetime (g_reg g) e = Some l \<and>
      SpawnedTick l + Duration l \<le> 247"
    using m D(4) by (intro exI [of _ item] exI [of _ m] exI [of _ "\<lparr>SpawnedTick = 7, Duration = 240\<rparr>"]) simp
  then have "RunGroundItemDecaySystem (SetCurrentTick 247 g) = None"
    using decay_blocks [OF ok] by (simp add: SetCurrentTick_def)
  with D(1) show ?thesis by blast
qed

end
