(* ===== verification/Attack.thy ===== *)
theory Attack
  imports Items Combat Loot
begin

text \<open>
  \<open>server/game/combat.go\<close> and \<open>server/game/respawn.go\<close>: the attack, damage and death systems, the messages they
  send and the queue of respawns. A rejected attack is \<open>Inl\<close> with its text. A death by a monster prints the
  damage into a 12-byte buffer, which panics for a number that is too long; a panic is \<open>None\<close>. Frame buffers
  come from pools, which are not state.
\<close>

subsection \<open>Respawns\<close>

definition ScheduleMonsterRespawn :: "int \<Rightarrow> int \<Rightarrow> int \<Rightarrow> int \<Rightarrow> u64 \<Rightarrow> Game \<Rightarrow> Game" where
  "ScheduleMonsterRespawn tid m x z delay g = g\<lparr>g_respawns := g_respawns g @
     [\<lparr>re_TemplateID = tid, re_MapID = m, re_SpawnX = x, re_SpawnZ = z, RespawnAt = GetCurrentTick g + delay\<rparr>]\<rparr>"

definition respawn_one :: "RespawnEvent \<Rightarrow> Game \<Rightarrow> bool \<times> Game" where
  "respawn_one ev g =
     (case SpawnMonsterFromTemplate (g_templates g) (re_TemplateID ev) (re_MapID ev) (re_SpawnX ev) (re_SpawnZ ev) (g_reg g) (g_free g) of
        (None, r, fl) \<Rightarrow> (True, g\<lparr>g_reg := r, g_free := fl\<rparr>)
      | (Some e, r, fl) \<Rightarrow> (False, g\<lparr>g_reg := r, g_free := fl,
          g_grid := (case GetPosition r e of None \<Rightarrow> g_grid g | Some p \<Rightarrow> UpdateEntityPosition e p (g_grid g))\<rparr>))"

text \<open>The loop: the events that stay queued, and the state.\<close>

fun respawn_loop :: "u64 \<Rightarrow> RespawnEvent list \<Rightarrow> Game \<Rightarrow> RespawnEvent list \<times> Game" where
  "respawn_loop now [] g = ([], g)"
| "respawn_loop now (ev # evs) g =
     (if now \<ge> RespawnAt ev
      then (case respawn_one ev g of (keep, g1) \<Rightarrow>
        (case respawn_loop now evs g1 of (rest, g2) \<Rightarrow> (if keep then ev # rest else rest, g2)))
      else (case respawn_loop now evs g of (rest, g2) \<Rightarrow> (ev # rest, g2)))"

definition RunRespawnSystem :: "Game \<Rightarrow> Game" where
  "RunRespawnSystem g = (if g_respawns g = [] then g
     else (case respawn_loop (GetCurrentTick g) (g_respawns g) g of (rest, g') \<Rightarrow> g'\<lparr>g_respawns := rest\<rparr>))"

definition monsterName :: "templateStore \<Rightarrow> int \<Rightarrow> string" where
  "monsterName ts tid = (case GetTemplate ts tid of Some t \<Rightarrow> t_Name t | None \<Rightarrow> ''unknown_template_'' @ dec_int tid)"

subsection \<open>Messages\<close>

record CombatResult =
  Hit :: bool
  Killed :: bool
  Damage :: int
  AttackerID :: entity
  TargetID :: entity
  AttackerName :: string
  TargetName :: string
  TargetHP :: int

definition stats_payload :: "entity \<Rightarrow> StatsComponent \<Rightarrow> StatsSyncPayload" where
  "stats_payload e st = \<lparr>ss_EntityID = e, ss_HP = of_int (st_HP st), ss_MaxHP = of_int (st_MaxHP st), ss_MP = of_int (st_MP st),
     ss_MaxMP = of_int (st_MaxMP st), ss_Dam = of_int (st_Dam st), ss_Level = of_int (st_Level st), ss_Defense = of_int (st_Defense st),
     ss_MagicDefense = of_int (st_MagicDefense st), ss_MagicAttack = of_int (st_MagicAttack st),
     ss_HitRate = of_int (st_HitRate st), ss_DodgeRate = of_int (st_DodgeRate st), ss_CritRate = of_int (st_CritRate st)\<rparr>"

definition broadcastStatsSync :: "entity \<Rightarrow> Game \<Rightarrow> Game" where
  "broadcastStatsSync e g = (case GetStats (g_reg g) e of
     None \<Rightarrow> g
   | Some st \<Rightarrow> (case GetPosition (g_reg g) e of
       None \<Rightarrow> g
     | Some p \<Rightarrow> BroadcastToNeighbors p (WriteStatsSync [] (stats_payload e st)) e g))"

definition broadcastHit :: "CombatResult \<Rightarrow> Game \<Rightarrow> Game" where
  "broadcastHit cr g =
     (let payload = \<lparr>ht_AttackerID = AttackerID cr, ht_TargetID = TargetID cr, ht_Damage = of_int (Damage cr),
            ht_TargetHP = of_int (TargetHP cr), ht_Killed = (if Killed cr then 1 else 0)\<rparr>;
          g1 = BroadcastToNeighbors (pos_of_entity (g_reg g) (AttackerID cr)) (WriteCombatHit [] payload) (AttackerID cr) g
      in broadcastStatsSync (TargetID cr) g1)"

text \<open>The text of a death, and its frame: the text is moved up by three bytes in place, from its end.\<close>

definition death_text :: "MetadataComponent \<Rightarrow> entity \<Rightarrow> MetadataComponent \<Rightarrow> int \<Rightarrow> string option" where
  "death_text targetMeta killer killerMeta damage =
     (if meta_Type killerMeta = EntityMonster then
        Option.bind (appendUint64 (''[DEATH] '' @ meta_Name killerMeta @ '' (#'') killer) (\<lambda>b.
        map_option (\<lambda>b. b @ '' damage and DEFEATED them!'' @ crlf)
          (appendInt (b @ '') struck Player '' @ meta_Name targetMeta @ '' for '') damage))
      else Some (''[COMBAT] '' @ meta_Name targetMeta @ '' was slain by '' @ meta_Name killerMeta @ ''!'' @ crlf))"

fun shift_loop :: "nat \<Rightarrow> byte_seq \<Rightarrow> byte_seq" where
  "shift_loop 0 b = b"
| "shift_loop (Suc i) b = shift_loop i (b[i + 3 := b ! i])"

definition notice_in_place :: "byte_seq \<Rightarrow> byte_seq \<Rightarrow> byte_seq" where
  "notice_in_place buf spare =
     (let payloadLen = length buf;
          needed = 3 + payloadLen;
          b = (if length spare \<ge> 3 then shift_loop payloadLen (buf @ take 3 spare) else replicate 3 0 @ buf);
          len = of_nat (1 + payloadLen) :: u16
      in b[0 := ucast (drop_bit 8 len), 1 := ucast len, 2 := OpcodeNotice])"

subsection \<open>Damage\<close>

definition statsToCombatStats :: "StatsComponent \<Rightarrow> Stats" where
  "statsToCombatStats s =
     (let atk = (if st_Attack s = 0 \<and> st_Dam s > 0 then st_Dam s else st_Attack s)
      in \<lparr>cs_Level = st_Level s, cs_MaxHP = st_MaxHP s, cs_CurrentHP = st_HP s, cs_MaxMP = st_MaxMP s, cs_CurrentMP = st_MP s,
          cs_Attack = atk, cs_MagicAttack = st_MagicAttack s, cs_Defense = st_Defense s, cs_MagicDefense = st_MagicDefense s,
          cs_HitRate = st_HitRate s, cs_DodgeRate = st_DodgeRate s, cs_CritRate = st_CritRate s, cs_CritDamage = st_CritDamage s\<rparr>)"

definition DamageSystem :: "entity \<Rightarrow> int \<Rightarrow> Game \<Rightarrow> int \<times> Game" where
  "DamageSystem target amount g = (case g_buffer g of
     Some ca \<Rightarrow> (case GetStats (g_reg g) target of Some st \<Rightarrow> st_HP st | None \<Rightarrow> 0, g\<lparr>g_buffer := Some (acc_AddDamage target amount 0 ca)\<rparr>)
   | None \<Rightarrow> (case GetStats (g_reg g) target of
       None \<Rightarrow> (0, g)
     | Some st \<Rightarrow> let st' = st\<lparr>st_HP := st_HP st - amount\<rparr> in (st_HP st', g\<lparr>g_reg := SetStats target st' (g_reg g)\<rparr>)))"

subsection \<open>Death\<close>

definition release_threat :: "entity \<Rightarrow> Game \<Rightarrow> Game" where
  "release_threat target g = (case GetAI (g_reg g) target of
     None \<Rightarrow> g
   | Some c \<Rightarrow> if ai_ThreatTable c \<noteq> None then g\<lparr>g_reg := SetAI target (c\<lparr>ai_ThreatTable := None\<rparr>) (g_reg g)\<rparr> else g)"

definition share_experience :: "entity \<Rightarrow> u64 \<Rightarrow> Game \<Rightarrow> Game" where
  "share_experience killer bounty g =
     (if bounty > 0 then
        let pid = GetPlayerPartyID (g_reg g) killer
        in if pid \<noteq> 0 then
             (case GetParty (g_reg g) pid of
                None \<Rightarrow> g
              | Some p \<Rightarrow> if length (MemberIDs p) > 0 then
                  let share = bounty div of_nat (length (MemberIDs p));
                      share = (if share = 0 then 1 else share)
                  in fold (\<lambda>m. AddExperienceSystem m share) (MemberIDs p) g
                else g)
           else AddExperienceSystem killer bounty g
      else g)"

definition monster_rewards ::
  "entity \<Rightarrow> entity \<Rightarrow> MetadataComponent \<Rightarrow> MetadataComponent \<Rightarrow> PositionComponent \<Rightarrow> MonsterTemplate \<Rightarrow> Game \<Rightarrow> Game" where
  "monster_rewards target killer targetMeta killerMeta pos t g =
     (let (x, z) = (case GetAI (g_reg g) target of None \<Rightarrow> (t_SpawnX t, t_SpawnZ t) | Some c \<Rightarrow> (ai_SpawnX c, ai_SpawnZ c));
          g1 = ScheduleMonsterRespawn (t_ID t) (MapID pos) x z 60 g
      in if meta_Type killerMeta = EntityPlayer then
           share_experience killer (t_XPReward t)
             (publish (MonsterDeathEvent target killer (meta_Name targetMeta) (MapID pos) x z (t_XPReward t) (t_ID t)) g1)
         else g1)"

definition announce_death :: "entity \<Rightarrow> PositionComponent \<Rightarrow> byte_seq \<Rightarrow> Game \<Rightarrow> Game" where
  "announce_death killer pos frame g =
     (let pid = GetPlayerPartyID (g_reg g) killer
      in if pid \<noteq> 0 then BroadcastToPartyBinary pid frame g else BroadcastToNeighbors pos frame killer g)"

definition DeathSystem :: "entity \<Rightarrow> entity \<Rightarrow> MetadataComponent \<Rightarrow> MetadataComponent \<Rightarrow> int \<Rightarrow> Game \<Rightarrow> Game option" where
  "DeathSystem target killer targetMeta killerMeta damage g = (case death_text targetMeta killer killerMeta damage of
     None \<Rightarrow> None
   | Some text \<Rightarrow>
       let pos = pos_of_entity (g_reg g) target;
           g1 = announce_death killer pos (notice_in_place (bytes_of text) []) g;
           g2 = g1\<lparr>g_grid := grid_RemoveEntity target (g_grid g1)\<rparr>;
           g3 = broadcastStatsSync target g2
       in if meta_Type targetMeta = EntityPlayer
          then Some (publish (PlayerDeathEvent target killer (meta_Name targetMeta) (MapID pos)) g3)
          else let g4 = release_threat target g3;
                   g5 = (case GetTemplateByName (g_templates g4) (meta_Name targetMeta) of
                           None \<Rightarrow> g4 | Some t \<Rightarrow> monster_rewards target killer targetMeta killerMeta pos t g4);
                   (r, fl) = RemoveEntity target (g_reg g5) (g_free g5)
               in Some (g5\<lparr>g_reg := r, g_free := fl\<rparr>))"

subsection \<open>Loot\<close>

fun drop_loop :: "u64 list \<Rightarrow> PositionComponent \<Rightarrow> Game \<Rightarrow> Game" where
  "drop_loop [] pos g = g"
| "drop_loop (itemID # ids) pos g =
     (case draw 3 g of (a, g1) \<Rightarrow> (case draw 3 g1 of (b, g2) \<Rightarrow>
        (case ClampPos (PosX pos + (a - 1)) (PosZ pos + (b - 1)) 0 100 of (x, z) \<Rightarrow>
           drop_loop ids pos (snd (SpawnItemOnGround itemID (MapID pos) x z g2)))))"

definition drop_loot :: "entity \<Rightarrow> MetadataComponent \<Rightarrow> MetadataComponent \<Rightarrow> Game \<Rightarrow> Game" where
  "drop_loot target targetMeta attackerMeta g =
     (if meta_Type targetMeta = EntityMonster \<and> meta_Type attackerMeta = EntityPlayer then
        (case GetTemplateByName (g_templates g) (meta_Name targetMeta) of
           None \<Rightarrow> g
         | Some t \<Rightarrow> (case RollLoot (of_int (t_ID t)) (g_draws g) of (droppedItems, ds) \<Rightarrow>
             let g1 = g\<lparr>g_draws := ds\<rparr>
             in if length droppedItems > 0 then
                  (case GetPosition (g_reg g1) target of None \<Rightarrow> g1 | Some pos \<Rightarrow> drop_loop droppedItems pos g1)
                else g1))
      else g)"

subsection \<open>The attack\<close>

definition meleeRange :: real where "meleeRange = 5"

definition errSelfTarget :: string where "errSelfTarget = ''You cannot attack yourself.'' @ crlf"
definition errNoAttacker :: string where "errNoAttacker = ''Error: attacker stats not found.'' @ crlf"
definition errNoAttackerMeta :: string where "errNoAttackerMeta = ''Error: attacker metadata not found.'' @ crlf"
definition errNoTarget :: string where "errNoTarget = ''Target entity not found.'' @ crlf"
definition errNoTargetMeta :: string where "errNoTargetMeta = ''Target entity has no metadata.'' @ crlf"
definition errTargetDead :: string where "errTargetDead = ''Target is already dead.'' @ crlf"
definition errTransferring :: string where "errTransferring = ''Target is currently invulnerable (transferring).'' @ crlf"
definition errOutOfRange :: string where "errOutOfRange = ''Target is out of melee range.'' @ crlf"

definition attack_checks ::
  "entity \<Rightarrow> entity \<Rightarrow> Registry \<Rightarrow> string + (StatsComponent \<times> MetadataComponent \<times> StatsComponent \<times> MetadataComponent)" where
  "attack_checks attacker target r =
     (if attacker = target then Inl errSelfTarget
      else case GetStats r attacker of None \<Rightarrow> Inl errNoAttacker | Some aStats \<Rightarrow>
      case GetMetadata r attacker of None \<Rightarrow> Inl errNoAttackerMeta | Some aMeta \<Rightarrow>
      case GetStats r target of None \<Rightarrow> Inl errNoTarget | Some tStats \<Rightarrow>
      case GetMetadata r target of None \<Rightarrow> Inl errNoTargetMeta | Some tMeta \<Rightarrow>
      if st_HP tStats \<le> 0 then Inl errTargetDead
      else if (case GetAI r target of None \<Rightarrow> False | Some c \<Rightarrow> ai_State c = AIStateTransferring) then Inl errTransferring
      else if \<not> IsInRange r attacker target meleeRange then Inl errOutOfRange
      else Inr (aStats, aMeta, tStats, tMeta))"

text \<open>The threat of a player's hit; \<open>threat_Add\<close> is total (lemma \<open>threat_Add_total\<close>).\<close>

definition record_threat :: "entity \<Rightarrow> MetadataComponent \<Rightarrow> entity \<Rightarrow> MetadataComponent \<Rightarrow> int \<Rightarrow> Game \<Rightarrow> Game" where
  "record_threat attacker aMeta target tMeta damage g =
     (if meta_Type aMeta = EntityPlayer \<and> meta_Type tMeta = EntityMonster then
        (case GetAI (g_reg g) target of
           None \<Rightarrow> g
         | Some c \<Rightarrow>
             let tt = (case ai_ThreatTable c of None \<Rightarrow> threat_SetDecayRate DefaultThreatDecay NewThreatTable | Some tt \<Rightarrow> tt)
             in g\<lparr>g_reg := SetAI target (c\<lparr>ai_ThreatTable := threat_Add attacker damage tt\<rparr>) (g_reg g)\<rparr>)
      else g)"

definition AttackSystem :: "entity \<Rightarrow> entity \<Rightarrow> Game \<Rightarrow> ((string + CombatResult) \<times> Game) option" where
  "AttackSystem attacker target g = (case attack_checks attacker target (g_reg g) of
     Inl err \<Rightarrow> Some (Inl err, g)
   | Inr (aStats, aMeta, tStats, tMeta) \<Rightarrow>
       (case ResolvePhysical False (statsToCombatStats aStats) (statsToCombatStats tStats) plain_attack (g_draws g) of (cr, ds) \<Rightarrow>
        let damage = cr_DamageDealt cr;
            g1 = record_threat attacker aMeta target tMeta damage (g\<lparr>g_draws := ds\<rparr>)
        in (case DamageSystem target damage g1 of (remaining, g2) \<Rightarrow>
          let result = \<lparr>Hit = True, Killed = False, Damage = damage, AttackerID = attacker, TargetID = target,
                AttackerName = meta_Name aMeta, TargetName = meta_Name tMeta, TargetHP = remaining\<rparr>
          in if remaining \<le> 0 then
               map_option (\<lambda>g3. (Inr (result\<lparr>Killed := True\<rparr>), drop_loot target tMeta aMeta g3))
                 (DeathSystem target attacker tMeta aMeta damage g2)
             else Some (Inr result, if g_buffer g2 = None then broadcastHit result g2 else g2))))"

subsection \<open>Sending and rewarding\<close>

lemma broadcasts_only_send [send_intros]:
  "only_sends g (broadcastStatsSync e g)" "only_sends g (broadcastHit cr g)" "only_sends g (announce_death k p frame g)"
proof -
  have s: "only_sends g (broadcastStatsSync e g)" for e g
    by (auto simp: broadcastStatsSync_def intro: send_intros split: option.split)
  then show "only_sends g (broadcastStatsSync e g)" .
  show "only_sends g (broadcastHit cr g)"
    unfolding broadcastHit_def Let_def by (rule only_sends_trans [OF _ s]) (rule notices_only_send)
  show "only_sends g (announce_death k p frame g)"
    by (auto simp: announce_death_def Let_def intro: send_intros)
qed

lemma shift_loop_spec:
  "i + 3 \<le> length b \<Longrightarrow> length (shift_loop i b) = length b \<and>
    (\<forall>j < i. shift_loop i b ! (j + 3) = b ! j) \<and> (\<forall>j. i \<le> j \<longrightarrow> shift_loop i b ! (j + 3) = b ! (j + 3))"
proof (induction i arbitrary: b)
  case (Suc i)
  from Suc.IH [of "b[i + 3 := b ! i]"] Suc.prems
  have "length (shift_loop i (b[i + 3 := b ! i])) = length b"
    "\<forall>j < i. shift_loop i (b[i + 3 := b ! i]) ! (j + 3) = b ! j"
    "\<forall>j. i \<le> j \<longrightarrow> shift_loop i (b[i + 3 := b ! i]) ! (j + 3) = b[i + 3 := b ! i] ! (j + 3)" by auto
  with Suc.prems show ?case by (auto simp: less_Suc_eq nth_list_update)
qed simp

lemma three_elements:
  assumes "length xs = 3"
  obtains a b c where "xs = [a, b, c]"
  using assms by (auto simp: numeral_3_eq_3 length_Suc_conv)

text \<open>The frame built in place is the frame of the wire format, whatever room the buffer has.\<close>

lemma notice_in_place_frame: "notice_in_place buf spare = BuildNotice buf"
proof -
  have shifted: "drop 3 (shift_loop (length buf) (buf @ take 3 spare)) = buf \<and> length (shift_loop (length buf) (buf @ take 3 spare)) = length buf + 3"
    if "length spare \<ge> 3"
  proof -
    have "length (buf @ take 3 spare) = length buf + 3" using that by simp
    with shift_loop_spec [of "length buf" "buf @ take 3 spare"] show ?thesis
      by (auto intro!: nth_equalityI simp: nth_append add.commute)
  qed
  obtain a b c where b3: "(if length spare \<ge> 3 then shift_loop (length buf) (buf @ take 3 spare) else replicate 3 0 @ buf) = a # b # c # buf"
  proof (cases "length spare \<ge> 3")
    case True
    let ?s = "shift_loop (length buf) (buf @ take 3 spare)"
    have "?s = take 3 ?s @ buf" using shifted [OF True] by (metis append_take_drop_id)
    moreover have "length (take 3 ?s) = 3" using shifted [OF True] by simp
    then obtain a b c where "take 3 ?s = [a, b, c]" by (rule three_elements)
    ultimately show ?thesis using True that [of a b c] by (metis append_Cons append_Nil)
  qed (auto simp: numeral_3_eq_3 intro: that)
  show ?thesis unfolding notice_in_place_def Let_def b3 by (simp add: Notice_spec frame_spec_def u16_bytes)
qed

text \<open>Who earns from a kill, and what an award of experience does to everybody's stats.\<close>

definition earners :: "Registry \<Rightarrow> entity \<Rightarrow> u64 \<Rightarrow> entity list \<times> u64" where
  "earners r killer bounty =
     (if bounty = 0 then ([], 0)
      else if GetPlayerPartyID r killer = 0 then ([killer], bounty)
      else case GetParty r (GetPlayerPartyID r killer) of
        None \<Rightarrow> ([], 0)
      | Some p \<Rightarrow> (MemberIDs p, max 1 (bounty div of_nat (length (MemberIDs p)))))"

definition award :: "entity list \<times> u64 \<Rightarrow> (entity \<rightharpoonup> StatsComponent) \<Rightarrow> entity \<rightharpoonup> StatsComponent" where
  "award ms S = fold (\<lambda>m S. S(m := map_option (new_stats (snd ms)) (S m))) (fst ms) S"

lemma award_other: "x \<noteq> t \<Longrightarrow> award ms (S(t := v)) x = award ms S x"
proof -
  have eq: "fold (\<lambda>m S. S(m := map_option f (S m))) l S x = fold (\<lambda>m S. S(m := map_option f (S m))) l S' x"
    if "S x = S' x" for l f S S' using that
  proof (induction l arbitrary: S S')
    case (Cons m l)
    have "(S(m := map_option f (S m))) x = (S'(m := map_option f (S' m))) x" using Cons.prems by auto
    from Cons.IH [of "S(m := map_option f (S m))" "S'(m := map_option f (S' m))", OF this] show ?case by simp
  qed simp
  assume "x \<noteq> t"
  then show ?thesis unfolding award_def by (intro eq) simp
qed

lemma award_upd: "(award ms (S(t := v)))(t := w) = (award ms S)(t := w)"
  by (rule ext) (simp add: award_other)

lemma award_nobody [simp]: "award ([], n) S = S"
  by (simp add: award_def)

lemma word_pos: "(0 :: u64) < b \<longleftrightarrow> b \<noteq> 0"
  by (simp add: word_neq_0_conv)

lemma share_experience_eq:
  "share_experience killer b g = (case earners (g_reg g) killer b of (ms, n) \<Rightarrow> fold (\<lambda>m. AddExperienceSystem m n) ms g)"
proof -
  have "max 1 n = (if n = 0 then 1 else n)" for n :: u64
    using word_pos [of n] by (auto simp: max_def word_less_nat_alt word_le_nat_alt unat_eq_0 [symmetric] simp del: unat_eq_0)
  then show ?thesis
    by (auto simp: share_experience_def earners_def Let_def word_pos split: option.split)
qed

subsection \<open>What leaves the roster of entities alone\<close>

text \<open>Operations that change at most hit points, monster minds, frames, events and queues.\<close>

definition steady :: "Game \<Rightarrow> Game \<Rightarrow> bool" where
  "steady g h \<longleftrightarrow> (\<forall>L I. game_ok g L I \<longrightarrow> game_ok h L I) \<and> g_free h = g_free g \<and> g_grid h = g_grid g \<and>
     g_templates h = g_templates g \<and> globalTick h = globalTick g \<and>
     GetMetadata (g_reg h) = GetMetadata (g_reg g) \<and> GetPosition (g_reg h) = GetPosition (g_reg g) \<and>
     GetInventory (g_reg h) = GetInventory (g_reg g) \<and> GetConnection (g_reg h) = GetConnection (g_reg g) \<and>
     GetParty (g_reg h) = GetParty (g_reg g) \<and> GetPartyMember (g_reg h) = GetPartyMember (g_reg g) \<and>
     GetEffects (g_reg h) = GetEffects (g_reg g) \<and> GetItemTemplate (g_reg h) = GetItemTemplate (g_reg g)"

lemma steadyD:
  assumes "steady g h"
  shows "game_ok g L I \<Longrightarrow> game_ok h L I" "g_free h = g_free g" "g_grid h = g_grid g" "g_templates h = g_templates g"
    "globalTick h = globalTick g" "GetMetadata (g_reg h) = GetMetadata (g_reg g)" "GetPosition (g_reg h) = GetPosition (g_reg g)"
    "GetInventory (g_reg h) = GetInventory (g_reg g)" "GetConnection (g_reg h) = GetConnection (g_reg g)"
    "GetParty (g_reg h) = GetParty (g_reg g)" "GetPartyMember (g_reg h) = GetPartyMember (g_reg g)"
    "GetEffects (g_reg h) = GetEffects (g_reg g)" "GetItemTemplate (g_reg h) = GetItemTemplate (g_reg g)"
  using assms unfolding steady_def by blast+

lemma steady_refl: "steady g g"
  by (simp add: steady_def)

lemma steady_trans: "steady g h \<Longrightarrow> steady h k \<Longrightarrow> steady g k"
  by (simp add: steady_def)

lemma steady_cong:
  "g_reg h = g_reg g \<Longrightarrow> g_free h = g_free g \<Longrightarrow> g_grid h = g_grid g \<Longrightarrow> g_templates h = g_templates g \<Longrightarrow>
    globalTick h = globalTick g \<Longrightarrow> steady g h"
  by (auto simp: steady_def game_ok_cong [of h g])

lemma steady_sends: "only_sends g h \<Longrightarrow> steady g h"
  by (rule steady_cong) (simp_all add: only_sendsD)

lemma steady_SetStats: "GetStats (g_reg g) e = Some v \<Longrightarrow> steady g (g\<lparr>g_reg := SetStats e st (g_reg g)\<rparr>)"
  unfolding steady_def using live_of_component(1) set_stats_ok(1) by (auto simp: set_frame)

lemma steady_SetAI: "GetAI (g_reg g) e = Some v \<Longrightarrow> steady g (g\<lparr>g_reg := SetAI e a (g_reg g)\<rparr>)"
  unfolding steady_def using live_of_component(3) set_ai_ok(1) by (auto simp: set_frame)

lemma steady_AddExperience: "steady g (AddExperienceSystem e xp g)"
proof (cases "GetStats (g_reg g) e")
  case None
  then show ?thesis by (simp add: AddExperienceSystem_def steady_refl)
next
  case (Some st)
  then show ?thesis
    unfolding steady_def using AddExperience_ok(1) by (auto simp: AddExperience_reg set_frame)
qed

lemma steady_fold: "(\<And>x g. steady g (f x g)) \<Longrightarrow> steady g (fold f xs g)"
  by (induction xs arbitrary: g) (auto intro: steady_refl steady_trans)

subsection \<open>Deaths\<close>

lemma fold_AddExperience:
  "game_ok g L I \<Longrightarrow> GetStats (g_reg (fold (\<lambda>m. AddExperienceSystem m n) ms g)) = award (ms, n) (GetStats (g_reg g))"
proof (induction ms arbitrary: g)
  case (Cons m ms)
  have "award (m # ms, n) S = award (ms, n) (S(m := map_option (new_stats n) (S m)))" for S
    by (simp add: award_def)
  with Cons.IH [OF AddExperience_ok(1) [OF Cons.prems]] show ?case
    by (simp only: fold_simps AddExperience_ok(2) [OF Cons.prems])
qed (simp add: award_def)

lemma steady_share: "steady g (share_experience k b g)"
  by (auto simp: share_experience_eq intro: steady_fold steady_AddExperience split: prod.split)

lemma fold_AddExperience_respawns [simp]: "g_respawns (fold (\<lambda>m. AddExperienceSystem m n) ms g) = g_respawns g"
  by (induction ms arbitrary: g) (simp_all add: AddExperience_reg)

lemma release_threat_steady: "steady g (release_threat t g)"
  by (auto simp: release_threat_def intro: steady_refl steady_SetAI split: option.split)

lemma release_threat_frame [simp]:
  "GetStats (g_reg (release_threat t g)) = GetStats (g_reg g)" "g_respawns (release_threat t g) = g_respawns g"
  by (auto simp: release_threat_def set_frame split: option.split)

text \<open>The experience a kill pays, and to whom.\<close>

definition bounty :: "Game \<Rightarrow> entity \<Rightarrow> MetadataComponent \<Rightarrow> MetadataComponent \<Rightarrow> entity list \<times> u64" where
  "bounty g killer targetMeta killerMeta =
     (if meta_Type killerMeta = EntityPlayer
      then (case GetTemplateByName (g_templates g) (meta_Name targetMeta) of
              None \<Rightarrow> ([], 0) | Some t \<Rightarrow> earners (g_reg g) killer (t_XPReward t))
      else ([], 0))"

lemma rewards_steady: "steady g (monster_rewards t k tm km pos tmpl g)"
proof -
  have q: "steady g (ScheduleMonsterRespawn a b c d n g)" for a b c d n
    by (rule steady_cong) (simp_all add: ScheduleMonsterRespawn_def)
  have p: "steady h (publish ev h)" for ev h by (rule steady_cong) simp_all
  show ?thesis
    unfolding monster_rewards_def Let_def
    by (auto intro: q steady_trans [OF q] steady_trans [OF p] steady_share split: prod.split option.split)
qed

lemma rewards_stats:
  assumes "game_ok g L I"
  shows "GetStats (g_reg (monster_rewards t k tm km pos tmpl g)) =
    award (if meta_Type km = EntityPlayer then earners (g_reg g) k (t_XPReward tmpl) else ([], 0)) (GetStats (g_reg g))"
proof -
  have ok: "game_ok (publish ev (ScheduleMonsterRespawn a b c d n g)) L I" for ev a b c d n
    using assms by (subst game_ok_cong [of _ g]) (simp_all add: ScheduleMonsterRespawn_def)
  show ?thesis
    by (auto simp: monster_rewards_def Let_def share_experience_eq ScheduleMonsterRespawn_def fold_AddExperience [OF ok [unfolded ScheduleMonsterRespawn_def]]
        split: prod.split option.split)
qed

lemma rewards_respawns: "\<exists>x z. g_respawns (monster_rewards t k tm km pos tmpl g) = g_respawns g @
    [\<lparr>re_TemplateID = t_ID tmpl, re_MapID = MapID pos, re_SpawnX = x, re_SpawnZ = z, RespawnAt = globalTick g + 60\<rparr>]"
  by (auto simp: monster_rewards_def Let_def share_experience_eq ScheduleMonsterRespawn_def GetCurrentTick_def
      split: prod.split option.split)

lemma grid_removal_ok:
  assumes "game_ok g L I"
  shows "game_ok (g\<lparr>g_grid := grid_RemoveEntity t (g_grid g)\<rparr>) L I"
proof -
  note R = grid_RemoveEntity_refines [OF game_okD(2) [OF assms], of t]
  have "grid_of (grid_RemoveEntity t (g_grid g)) \<subseteq>\<^sub>m GetPosition (g_reg g)"
    using game_okD(3) [OF assms] by (simp add: R map_le_def)
  with R game_okD(1) [OF assms] show ?thesis by (simp add: game_ok_def)
qed

text \<open>The state in which the rewards of a monster's death are handed out.\<close>

lemma death_prefix:
  fixes frame :: byte_seq and t killer :: entity and pos :: PositionComponent
  assumes ok: "game_ok g L I"
  defines "h \<equiv> (let g1 = announce_death killer pos frame g in broadcastStatsSync t (g1\<lparr>g_grid := grid_RemoveEntity t (g_grid g1)\<rparr>))"
  shows "game_ok h L I" "g_reg h = g_reg g" "g_templates h = g_templates g" "g_respawns h = g_respawns g" "globalTick h = globalTick g"
    "grid_of (g_grid h) = (grid_of (g_grid g))(t := None)" "g_free h = g_free g"
proof -
  let ?g1 = "announce_death killer pos frame g"
  have s1: "only_sends g ?g1" by (rule send_intros)
  have s2: "only_sends (?g1\<lparr>g_grid := grid_RemoveEntity t (g_grid ?g1)\<rparr>) h"
    unfolding h_def Let_def by (rule broadcasts_only_send)
  show "game_ok h L I"
    using grid_removal_ok [of ?g1 L I t] ok by (simp only: game_ok_sends [OF s2] game_ok_sends [OF s1])
  show "g_reg h = g_reg g" "g_templates h = g_templates g" "g_respawns h = g_respawns g" "globalTick h = globalTick g" "g_free h = g_free g"
    by (simp_all add: only_sendsD [OF s2] only_sendsD [OF s1])
  show "grid_of (g_grid h) = (grid_of (g_grid g))(t := None)"
    using grid_RemoveEntity_refines(2) [OF game_okD(2) [OF ok], of t] by (simp add: only_sendsD [OF s2] only_sendsD [OF s1])
qed

lemma Death_player:
  assumes ok: "game_ok g L I" and run: "DeathSystem t k tm km d g = Some g'" and player: "meta_Type tm = EntityPlayer"
  shows "game_ok g' L I" "g_reg g' = g_reg g" "grid_of (g_grid g') = (grid_of (g_grid g))(t := None)" "g_respawns g' = g_respawns g"
proof -
  obtain msg where g': "g' = publish (PlayerDeathEvent t k (meta_Name tm) (MapID (pos_of_entity (g_reg g) t)))
      (let g1 = announce_death k (pos_of_entity (g_reg g) t) (notice_in_place (bytes_of msg) []) g
       in broadcastStatsSync t (g1\<lparr>g_grid := grid_RemoveEntity t (g_grid g1)\<rparr>))"
    using run player by (auto simp: DeathSystem_def Let_def split: option.splits)
  note P = death_prefix [OF ok, where t = t and killer = k and pos = "pos_of_entity (g_reg g) t" and frame = "notice_in_place (bytes_of msg) []"]
  show "g_reg g' = g_reg g" "grid_of (g_grid g') = (grid_of (g_grid g))(t := None)" "g_respawns g' = g_respawns g"
    using P by (simp_all add: g')
  show "game_ok g' L I" unfolding g' using P(1) by (subst game_ok_cong) simp_all
qed

lemma Death_monster:
  assumes ok: "game_ok g L I" and t: "t \<in> L" and run: "DeathSystem t k tm km d g = Some g'" and monster: "meta_Type tm \<noteq> EntityPlayer"
  shows "game_ok g' (L - {t}) I" "no_components t (g_reg g')" "grid_of (g_grid g') = (grid_of (g_grid g))(t := None)"
    "GetMetadata (g_reg g') = (GetMetadata (g_reg g))(t := None)" "GetPosition (g_reg g') = (GetPosition (g_reg g))(t := None)"
    "GetInventory (g_reg g') = (GetInventory (g_reg g))(t := None)"
    "GetStats (g_reg g') = (award (bounty g k tm km) (GetStats (g_reg g)))(t := None)" (is ?stats)
    "\<exists>x z. g_respawns g' = g_respawns g @ (case GetTemplateByName (g_templates g) (meta_Name tm) of None \<Rightarrow> []
       | Some tmpl \<Rightarrow> [\<lparr>re_TemplateID = t_ID tmpl, re_MapID = MapID (pos_of_entity (g_reg g) t), re_SpawnX = x, re_SpawnZ = z,
           RespawnAt = globalTick g + 60\<rparr>])" (is ?respawn)
proof -
  obtain msg where msg: "death_text tm k km d = Some msg" using run by (auto simp: DeathSystem_def split: option.splits)
  define h where "h = (let g1 = announce_death k (pos_of_entity (g_reg g) t) (notice_in_place (bytes_of msg) []) g
       in broadcastStatsSync t (g1\<lparr>g_grid := grid_RemoveEntity t (g_grid g1)\<rparr>))"
  note P = death_prefix [OF ok, where t = t and killer = k and pos = "pos_of_entity (g_reg g) t" and frame = "notice_in_place (bytes_of msg) []", folded h_def]
  define g4 where "g4 = release_threat t h"
  define g5 where "g5 = (case GetTemplateByName (g_templates g4) (meta_Name tm) of
                           None \<Rightarrow> g4 | Some tmpl \<Rightarrow> monster_rewards t k tm km (pos_of_entity (g_reg g) t) tmpl g4)"
  obtain r fl where rem: "RemoveEntity t (g_reg g5) (g_free g5) = (r, fl)" by force
  have g': "g' = g5\<lparr>g_reg := r, g_free := fl\<rparr>"
    using run msg monster rem
    by (simp add: DeathSystem_def Let_def h_def [unfolded Let_def, symmetric] g4_def [symmetric] g5_def [symmetric] cong: option.case_cong)
  have s4: "steady h g4" unfolding g4_def by (rule release_threat_steady)
  have s5: "steady g4 g5" by (auto simp: g5_def intro: rewards_steady steady_refl split: option.split)
  note S = steadyD [OF steady_trans [OF s4 s5]] and S4 = steadyD [OF s4]
  have ok5: "game_ok g5 L I" by (rule S(1) [OF P(1)])
  have grid: "grid_of (g_grid g5) = (grid_of (g_grid g5))(t := None)" by (simp add: S P)
  note R = remove_ok [OF ok5 t rem grid game_okD(2) [OF ok5]]
  show "game_ok g' (L - {t}) I" using R(1) by (simp add: g')
  show none: "no_components t (g_reg g')" using R(2) by (simp add: g')
  show "grid_of (g_grid g') = (grid_of (g_grid g))(t := None)" by (simp add: g' S P)
  have same: "same_components x (g_reg g5) (g_reg g')" if "x \<noteq> t" for x using R(3) [OF that] by (simp add: g')
  have gone: "F (g_reg g') = (F (g_reg g))(t := None)"
    if "F (g_reg g') t = None" and "F (g_reg g5) = F (g_reg g)" and "\<And>x. x \<noteq> t \<Longrightarrow> F (g_reg g') x = F (g_reg g5) x"
    for F :: "Registry \<Rightarrow> entity \<Rightarrow> 'v option" using that by (auto simp: fun_eq_iff)
  show "GetMetadata (g_reg g') = (GetMetadata (g_reg g))(t := None)" "GetPosition (g_reg g') = (GetPosition (g_reg g))(t := None)"
    "GetInventory (g_reg g') = (GetInventory (g_reg g))(t := None)"
    using none same by (auto intro!: gone simp: S P no_components_def same_components_def)
  have b: "earners (g_reg g4) k n = earners (g_reg g) k n" for n
    by (simp add: earners_def GetPlayerPartyID_def S4 P)
  have "GetStats (g_reg g5) = award (bounty g k tm km) (GetStats (g_reg g))"
    using rewards_stats [OF S4(1) [OF P(1)]] by (auto simp: g5_def bounty_def S4 P b g4_def [symmetric] release_threat_frame [of t h, folded g4_def] split: option.split)
  moreover have "GetStats (g_reg g') x = GetStats (g_reg g5) x" if "x \<noteq> t" for x using same [OF that] by (simp add: same_components_def)
  moreover have "GetStats (g_reg g') t = None" using none by (simp add: no_components_def)
  ultimately show ?stats by (auto simp: fun_eq_iff)
  show ?respawn
  proof (cases "GetTemplateByName (g_templates g) (meta_Name tm)")
    case None
    then show ?thesis by (simp add: g' g5_def S4 P release_threat_frame [of t h, folded g4_def])
  next
    case (Some tmpl)
    with rewards_respawns [of t k tm km "pos_of_entity (g_reg g) t" tmpl g4] show ?thesis
      by (simp add: g' g5_def S4 P release_threat_frame [of t h, folded g4_def])
  qed
qed

subsection \<open>The attack\<close>

lemma threat_Add_total: "\<exists>tt'. threat_Add p n tt = Some tt'"
  by (auto simp: threat_Add_def threat_sort_def bump_def Let_def split: option.split)

lemma record_threat_steady: "steady g (record_threat a am t tm d g)"
  by (auto simp: record_threat_def Let_def intro: steady_refl steady_SetAI split: option.split)

lemma record_threat_frame [simp]:
  "GetStats (g_reg (record_threat a am t tm d g)) = GetStats (g_reg g)" "g_buffer (record_threat a am t tm d g) = g_buffer g"
  "g_respawns (record_threat a am t tm d g) = g_respawns g"
  by (auto simp: record_threat_def Let_def set_frame split: option.split)

lemma physical_damage_nonneg: "ResolvePhysical b a d mods r = (cr, r') \<Longrightarrow> 0 \<le> cr_DamageDealt cr"
proof -
  assume run: "ResolvePhysical b a d mods r = (cr, r')"
  obtain x r1 where x: "dodge_check b mods (cs_HitRate a - cs_DodgeRate d) r = (x, r1)" by force
  obtain c r2 where c: "crit_check b mods (cs_CritRate a) r1 = (c, r2)" by force
  from ResolvePhysical_damage [OF x c] run finish_damage_pos show ?thesis
    by (simp split: if_splits) (metis order_trans zero_le_one)
qed

lemma death_text_player: "meta_Type km \<noteq> EntityMonster \<Longrightarrow> \<exists>s. death_text tm k km d = Some s"
  by (simp add: death_text_def)

lemma DeathSystem_defined: "death_text tm k km d = Some msg \<Longrightarrow> \<exists>g'. DeathSystem t k tm km d g = Some g'"
  by (simp add: DeathSystem_def Let_def case_prod_beta)

lemma drop_loot_nothing: "GetPosition (g_reg g) t = None \<or> meta_Type tm \<noteq> EntityMonster \<Longrightarrow> \<exists>ds. drop_loot t tm am g = g\<lparr>g_draws := ds\<rparr>"
proof -
  have "\<exists>ds. g = g\<lparr>g_draws := ds\<rparr>" by (rule exI [of _ "g_draws g"]) simp
  moreover assume "GetPosition (g_reg g) t = None \<or> meta_Type tm \<noteq> EntityMonster"
  ultimately show ?thesis by (auto simp: drop_loot_def Let_def split: option.split prod.split)
qed

text \<open>The state after the damage of an accepted attack has been applied.\<close>

lemma attack_damage:
  fixes a :: entity and am tm :: MetadataComponent and d :: int and ds :: draws
  assumes ok: "game_ok g L I" and nobuf: "g_buffer g = None" and st: "GetStats (g_reg g) t = Some st"
  defines "h \<equiv> record_threat a am t tm d (g\<lparr>g_draws := ds\<rparr>)"
  shows "\<exists>g2. DamageSystem t d h = (st_HP st - d, g2) \<and> steady g g2 \<and> g_buffer g2 = None \<and> g_respawns g2 = g_respawns g \<and>
    GetStats (g_reg g2) = (GetStats (g_reg g))(t \<mapsto> st\<lparr>st_HP := st_HP st - d\<rparr>)"
proof -
  have s: "steady g h"
    unfolding h_def by (rule steady_trans [OF steady_cong record_threat_steady]) simp_all
  have h: "GetStats (g_reg h) t = Some st" "g_buffer h = None" by (simp_all add: h_def st nobuf)
  let ?g2 = "h\<lparr>g_reg := SetStats t (st\<lparr>st_HP := st_HP st - d\<rparr>) (g_reg h)\<rparr>"
  have "DamageSystem t d h = (st_HP st - d, ?g2)" by (simp add: DamageSystem_def h Let_def)
  moreover have "steady g ?g2" by (rule steady_trans [OF s steady_SetStats [OF h(1)]])
  moreover have "GetStats (g_reg ?g2) = (GetStats (g_reg g))(t \<mapsto> st\<lparr>st_HP := st_HP st - d\<rparr>)"
    using set_stats_ok(2) [OF steadyD(1) [OF s ok], of t] live_of_component(1) [OF ok st] by (simp add: h_def)
  moreover have "g_buffer ?g2 = None" "g_respawns ?g2 = g_respawns g" by (simp_all add: h) (simp add: h_def)
  ultimately show ?thesis by blast
qed

lemma bounty_cong:
  "g_templates h = g_templates g \<Longrightarrow> GetParty (g_reg h) = GetParty (g_reg g) \<Longrightarrow> GetPartyMember (g_reg h) = GetPartyMember (g_reg g) \<Longrightarrow>
    bounty h k tm km = bounty g k tm km"
  by (simp add: bounty_def earners_def GetPlayerPartyID_def split: option.split)

text \<open>What the checks of an attack guarantee.\<close>

lemma attack_checks_Inr:
  assumes "attack_checks a t r = Inr (sa, ma, st, mt)"
  shows "a \<noteq> t" "GetStats r a = Some sa" "GetMetadata r a = Some ma" "GetStats r t = Some st" "GetMetadata r t = Some mt"
    "0 < st_HP st" "IsInRange r a t 5" "\<forall>c. GetAI r t = Some c \<longrightarrow> ai_State c \<noteq> AIStateTransferring"
  using assms by (auto simp: attack_checks_def meleeRange_def split: if_splits option.splits)

definition attack_outcome :: "entity \<Rightarrow> entity \<Rightarrow> entity set \<Rightarrow> entity set \<Rightarrow> Game \<Rightarrow> CombatResult \<Rightarrow> Game \<Rightarrow> bool" where
  "attack_outcome a t L I g cr g' \<longleftrightarrow>
     (\<exists>st ma mt. GetStats (g_reg g) t = Some st \<and> GetMetadata (g_reg g) a = Some ma \<and> GetMetadata (g_reg g) t = Some mt \<and>
        0 < st_HP st \<and> 0 \<le> Damage cr \<and> TargetHP cr = st_HP st - Damage cr \<and> (Killed cr \<longleftrightarrow> TargetHP cr \<le> 0) \<and>
        (if \<not> Killed cr \<or> meta_Type mt = EntityPlayer
         then game_ok g' L I \<and> GetStats (g_reg g') = (GetStats (g_reg g))(t \<mapsto> st\<lparr>st_HP := TargetHP cr\<rparr>) \<and>
           GetMetadata (g_reg g') = GetMetadata (g_reg g) \<and> GetPosition (g_reg g') = GetPosition (g_reg g) \<and>
           grid_of (g_grid g') = (if Killed cr then (grid_of (g_grid g))(t := None) else grid_of (g_grid g))
         else game_ok g' (L - {t}) I \<and> no_components t (g_reg g') \<and>
           GetStats (g_reg g') = (award (bounty g a mt ma) (GetStats (g_reg g)))(t := None) \<and>
           GetMetadata (g_reg g') = (GetMetadata (g_reg g))(t := None) \<and> GetPosition (g_reg g') = (GetPosition (g_reg g))(t := None) \<and>
           grid_of (g_grid g') = (grid_of (g_grid g))(t := None) \<and>
           length (g_respawns g') = length (g_respawns g) + (if GetTemplateByName (g_templates g) (meta_Name mt) = None then 0 else 1)))"

text \<open>The two ways a hit ends, for every system that deals one.\<close>

lemma survivor_outcome:
  assumes ok: "game_ok g L I" and st: "GetStats (g_reg g) t = Some st" "GetMetadata (g_reg g) a = Some ma" "GetMetadata (g_reg g) t = Some mt"
    and hp: "0 < st_HP st" "0 \<le> Damage cr" "TargetHP cr = st_HP st - Damage cr" "\<not> Killed cr" "0 < TargetHP cr"
    and s: "steady g g2" and stats: "GetStats (g_reg g2) = (GetStats (g_reg g))(t \<mapsto> st\<lparr>st_HP := TargetHP cr\<rparr>)"
    and sent: "only_sends g2 g'"
  shows "attack_outcome a t L I g cr g'"
proof -
  note S = steadyD [OF steady_trans [OF s steady_sends [OF sent]]]
  from S(1) [OF ok] st hp stats show ?thesis by (simp add: attack_outcome_def steadyD [OF s] only_sendsD [OF sent])
qed

lemma victim_outcome:
  assumes ok: "game_ok g L I" and st: "GetStats (g_reg g) t = Some st" "GetMetadata (g_reg g) a = Some ma" "GetMetadata (g_reg g) t = Some mt"
    and hp: "0 < st_HP st" "0 \<le> Damage cr" "TargetHP cr = st_HP st - Damage cr" "Killed cr" "TargetHP cr \<le> 0"
    and s: "steady g g2" and stats: "GetStats (g_reg g2) = (GetStats (g_reg g))(t \<mapsto> st\<lparr>st_HP := TargetHP cr\<rparr>)"
    and resp: "g_respawns g2 = g_respawns g" and death: "DeathSystem t a mt ma d g2 = Some g3"
    and g': "g' = g3\<lparr>g_draws := ds\<rparr>"
  shows "attack_outcome a t L I g cr g'"
proof (cases "meta_Type mt = EntityPlayer")
  case player: True
  note S = steadyD [OF s] and D = Death_player [OF steadyD(1) [OF s ok] death player]
  have "game_ok g' L I" using D(1) by (subst game_ok_cong [of _ g3]) (simp_all add: g')
  with player st hp stats show ?thesis by (simp add: attack_outcome_def g' D S)
next
  case monster: False
  note S = steadyD [OF s] and D = Death_monster [OF steadyD(1) [OF s ok] live_of_component(1) [OF ok st(1)] death monster]
  have "game_ok g' (L - {t}) I" using D(1) by (subst game_ok_cong [of _ g3]) (simp_all add: g')
  moreover have "length (g_respawns g3) = length (g_respawns g2) + (if GetTemplateByName (g_templates g2) (meta_Name mt) = None then 0 else 1)"
    using D(8) by (auto split: option.splits)
  moreover have "bounty g2 a mt ma = bounty g a mt ma" by (rule bounty_cong) (simp_all add: S)
  ultimately show ?thesis using monster st hp
    by (simp add: attack_outcome_def g' D S stats award_upd resp)
qed

subsection \<open>Properties\<close>

text \<open>
  C7 A rejected attack changes nothing. An accepted one was in range on a living target and takes exactly the
  reported damage, which is never negative, from the target's hit points; it kills exactly when none are left. A
  surviving target, or a player who dies, keeps everything else, except that a dead player leaves the grid. A
  dead monster is removed from registry and grid, its respawn is queued once if its template is known, its
  bounty is paid to exactly the earners, and no entity appears: a kill drops no item, although the attack rolls
  the loot table of the monster.
\<close>

theorem attack_exact:
  assumes ok: "game_ok g L I" and nobuf: "g_buffer g = None" and run: "AttackSystem a t g = Some (res, g')"
  shows "case res of Inl err \<Rightarrow> g' = g | Inr cr \<Rightarrow> a \<noteq> t \<and> IsInRange (g_reg g) a t 5 \<and> attack_outcome a t L I g cr g'"
proof (cases "attack_checks a t (g_reg g)")
  case (Inl err)
  with run show ?thesis by (auto simp: AttackSystem_def)
next
  case (Inr found)
  obtain sa ma st mt where f: "found = (sa, ma, st, mt)" by (cases found)
  note C = attack_checks_Inr [OF Inr [unfolded f]]
  have t: "t \<in> L" by (rule live_of_component(1) [OF ok C(4)])
  obtain roll ds where roll: "ResolvePhysical False (statsToCombatStats sa) (statsToCombatStats st) plain_attack (g_draws g) = (roll, ds)" by force
  define d where "d = cr_DamageDealt roll"
  obtain g2 where g2: "DamageSystem t d (record_threat a ma t mt d (g\<lparr>g_draws := ds\<rparr>)) = (st_HP st - d, g2)"
      and s: "steady g g2" and nobuf2: "g_buffer g2 = None" and resp: "g_respawns g2 = g_respawns g"
      and stats: "GetStats (g_reg g2) = (GetStats (g_reg g))(t \<mapsto> st\<lparr>st_HP := st_HP st - d\<rparr>)"
    using attack_damage [OF ok nobuf C(4), where a = a and am = ma and tm = mt and d = d and ds = ds] by blast
  note S = steadyD [OF s]
  let ?cr = "\<lparr>Hit = True, Killed = False, Damage = d, AttackerID = a, TargetID = t, AttackerName = meta_Name ma,
      TargetName = meta_Name mt, TargetHP = st_HP st - d\<rparr>"
  have d: "0 \<le> d" unfolding d_def by (rule physical_damage_nonneg [OF roll])
  have step: "(if st_HP st - d \<le> 0 then
      map_option (\<lambda>g3. (Inr (?cr\<lparr>Killed := True\<rparr>), drop_loot t mt ma g3)) (DeathSystem t a mt ma d g2)
    else Some (Inr ?cr, broadcastHit ?cr g2)) = Some (res, g')"
    using run Inr f roll g2 nobuf2 d_def by (auto simp: AttackSystem_def Let_def split: if_splits)
  show ?thesis
  proof (cases "st_HP st - d \<le> 0")
    case False
    then have r: "res = Inr ?cr" "g' = broadcastHit ?cr g2" using step by simp_all
    have "attack_outcome a t L I g ?cr g'"
      by (rule survivor_outcome [OF ok C(4,3,5,6) _ _ _ _ s _ broadcasts_only_send(2) [of g2 ?cr, folded r(2)]])
        (use d False stats in simp_all)
    with C(1,7) show ?thesis by (simp add: r(1))
  next
    case True
    then obtain g3 where g3: "DeathSystem t a mt ma d g2 = Some g3" and r: "res = Inr (?cr\<lparr>Killed := True\<rparr>)" "g' = drop_loot t mt ma g3"
      using step by auto
    have "GetPosition (g_reg g3) t = None \<or> meta_Type mt \<noteq> EntityMonster"
    proof (cases "meta_Type mt = EntityPlayer")
      case False
      from Death_monster(2) [OF S(1) [OF ok] t g3 False] show ?thesis by (simp add: no_components_def)
    qed simp
    from drop_loot_nothing [OF this, of ma] obtain ds' where g': "g' = g3\<lparr>g_draws := ds'\<rparr>" using r(2) by auto
    have "attack_outcome a t L I g (?cr\<lparr>Killed := True\<rparr>) g'"
      by (rule victim_outcome [OF ok C(4,3,5,6) _ _ _ _ s _ resp g3 g']) (use d True stats in simp_all)
    with C(1,7) show ?thesis by (simp add: r(1))
  qed
qed

text \<open>The hero slays the slime with one blow of 15; the floor stays empty.\<close>

theorem attack_exact_witness:
  "\<exists>cr g'. AttackSystem hero foe arena = Some (Inr cr, g') \<and> Killed cr \<and> Damage cr = 15 \<and>
     GetMetadata (g_reg g') = [hero \<mapsto> \<lparr>meta_Name = ''Ann'', meta_Type = EntityPlayer\<rparr>]"
proof -
  let ?ann = "\<lparr>meta_Name = ''Ann'', meta_Type = EntityPlayer\<rparr>" and ?slime = "\<lparr>meta_Name = ''Slime'', meta_Type = EntityMonster\<rparr>"
  have checks: "attack_checks hero foe (g_reg arena) = Inr (hero_stats, ?ann, slime_stats, ?slime)"
    by (simp add: attack_checks_def arena_reg IsInRange_def meleeRange_def hero_pos_def slime_pos_def DistanceSq_def
        slime_stats_def monster_ai_def)
  obtain roll ds where roll: "ResolvePhysical False (statsToCombatStats hero_stats) (statsToCombatStats slime_stats) plain_attack (g_draws arena) = (roll, ds)"
      and d: "cr_DamageDealt roll = 15"
    by (simp add: ResolvePhysical_def statsToCombatStats_def hero_stats_def slime_stats_def plain_attack_def dodge_check_def
        crit_check_def Intn_def raw_damage_def finish_damage_def GetElementEffectiveness_def elementEffectiveness_def
        element_code_def go_div_def arena_def Let_def)
  obtain g2 where g2: "DamageSystem foe 15 (record_threat hero ?ann foe ?slime 15 (arena\<lparr>g_draws := ds\<rparr>)) = (st_HP slime_stats - 15, g2)"
    using attack_damage [OF arena_ok, where t = foe and st = slime_stats and a = hero and am = ?ann and tm = ?slime and d = 15 and ds = ds] by (auto simp: arena_reg)
  obtain msg where msg: "death_text ?slime hero ?ann 15 = Some msg" using death_text_player [where km = ?ann and tm = ?slime and k = hero and d = 15] by auto
  then obtain g3 where g3: "DeathSystem foe hero ?slime ?ann 15 g2 = Some g3"
    using DeathSystem_defined by blast
  obtain cr g' where run: "AttackSystem hero foe arena = Some (Inr cr, g')" and cr: "Damage cr = 15" "Killed cr"
    using checks roll d g2 g3 by (simp add: AttackSystem_def Let_def slime_stats_def)
  from attack_exact [OF arena_ok _ run] cr have "GetMetadata (g_reg g') = (GetMetadata (g_reg arena))(foe := None)"
    by (simp add: attack_outcome_def arena_reg)
  with run cr show ?thesis by (intro exI [of _ cr] exI [of _ g']) (simp add: arena_reg fun_upd_twist)
qed

end
