(* ===== verification/Skills.thy ===== *)
theory Skills
  imports Attack
begin

text \<open>
  Skills: the registry of \<open>server/models/skills.go\<close> and the pipeline of \<open>server/game/skill_pipeline.go\<close> behind
  \<open>skills.go\<close>. The context travels through the stages with the game; the stage that sets an error message ends
  the run. \<open>None\<close> is the panic of the death message (\<open>Attack\<close>). The unused position field and the debug lines are
  left out.
\<close>

subsection \<open>Skill definitions\<close>

record SkillDefinition =
  sk_ID :: u64
  sk_Name :: string
  ManaCost :: int
  HPCost :: int
  DamMult :: real
  CastRange :: real
  sk_DamageType :: DamageType
  sk_Element :: Element
  IsGuaranteed :: bool
  sk_HealValue :: int
  CooldownTicks :: int

definition SkillRegistry :: "u64 \<rightharpoonup> SkillDefinition" where
  "SkillRegistry =
     [1 \<mapsto> \<lparr>sk_ID = 1, sk_Name = ''Fireball'', ManaCost = 20, HPCost = 0, DamMult = 5 / 2, CastRange = 8,
            sk_DamageType = DamageMagical, sk_Element = ElementFire, IsGuaranteed = False, sk_HealValue = 0, CooldownTicks = 4\<rparr>,
      2 \<mapsto> \<lparr>sk_ID = 2, sk_Name = ''Thunderclap'', ManaCost = 35, HPCost = 0, DamMult = 4, CastRange = 6,
            sk_DamageType = DamageMagical, sk_Element = ElementWind, IsGuaranteed = False, sk_HealValue = 0, CooldownTicks = 8\<rparr>,
      3 \<mapsto> \<lparr>sk_ID = 3, sk_Name = ''Power Strike'', ManaCost = 10, HPCost = 0, DamMult = 3 / 2, CastRange = 5,
            sk_DamageType = DamagePhysical, sk_Element = ElementNone, IsGuaranteed = False, sk_HealValue = 0, CooldownTicks = 2\<rparr>]"

subsection \<open>The context\<close>

record CombatContext =
  cx_Attacker :: entity
  cx_Target :: entity
  cx_SkillID :: u64
  cx_Skill :: "SkillDefinition option"
  cx_IsPlayer :: bool
  cx_AttackerStats :: StatsComponent
  cx_TargetStats :: StatsComponent
  cx_AttackerMeta :: MetadataComponent
  cx_TargetMeta :: MetadataComponent
  cx_Damage :: int
  cx_RemainingHP :: int
  cx_Killed :: bool
  ErrorMessage :: string
  PersonalFeedback :: string

type_synonym pipe = "CombatContext \<times> Game"

text \<open>\<open>%.0f\<close> of a range, which rounds halves to even.\<close>

definition fmt_0f :: "real \<Rightarrow> string" where
  "fmt_0f x = (let n = \<lfloor>x\<rfloor>; f = x - of_int n in dec_int (if f < 1 / 2 \<or> f = 1 / 2 \<and> even n then n else n + 1))"

subsection \<open>The stages\<close>

definition select_target :: "entity \<Rightarrow> entity \<Rightarrow> u64 \<Rightarrow> Registry \<Rightarrow> string + CombatContext" where
  "select_target attacker target skillID r =
     (if attacker = target then Inl (''You cannot target yourself.'' @ crlf)
      else if skillID \<noteq> 0 \<and> SkillRegistry skillID = None
        then Inl (''Error: That skill does not exist in the server registry!'' @ crlf)
      else case GetStats r attacker of None \<Rightarrow> Inl (''Error: attacker stats not found.'' @ crlf) | Some aStats \<Rightarrow>
      case GetMetadata r attacker of None \<Rightarrow> Inl (''Error: attacker metadata not found.'' @ crlf) | Some aMeta \<Rightarrow>
      case GetStats r target of None \<Rightarrow> Inl (''Target entity '' @ dec_nat (unat target) @ '' not found.'' @ crlf) | Some tStats \<Rightarrow>
      case GetMetadata r target of None \<Rightarrow> Inl (''Target entity '' @ dec_nat (unat target) @ '' has no metadata.'' @ crlf) | Some tMeta \<Rightarrow>
      if st_HP tStats \<le> 0 then Inl (meta_Name tMeta @ '' is already dead.'' @ crlf)
      else Inr \<lparr>cx_Attacker = attacker, cx_Target = target, cx_SkillID = skillID,
        cx_Skill = (if skillID \<noteq> 0 then SkillRegistry skillID else None), cx_IsPlayer = (meta_Type aMeta = EntityPlayer),
        cx_AttackerStats = aStats, cx_TargetStats = tStats, cx_AttackerMeta = aMeta, cx_TargetMeta = tMeta,
        cx_Damage = 0, cx_RemainingHP = 0, cx_Killed = False, ErrorMessage = [], PersonalFeedback = []\<rparr>)"

definition stageRangeCheck :: "pipe \<Rightarrow> pipe" where
  "stageRangeCheck p = (case p of (ctx, g) \<Rightarrow>
     let meleeRange = 5;
         attackRange = (case cx_Skill ctx of None \<Rightarrow> meleeRange | Some s \<Rightarrow> CastRange s)
     in if \<not> IsInRange (g_reg g) (cx_Attacker ctx) (cx_Target ctx) meleeRange \<and>
           \<not> IsInRange (g_reg g) (cx_Attacker ctx) (cx_Target ctx) attackRange
        then (ctx\<lparr>ErrorMessage := (if cx_Skill ctx \<noteq> None then ''Target out of range (need '' @ fmt_0f attackRange @ '' units).'' @ crlf
               else ''Target is out of melee range ('' @ fmt_0f meleeRange @ '' units).'' @ crlf)\<rparr>, g)
        else (ctx, g))"

definition stageResourceCheck :: "pipe \<Rightarrow> pipe" where
  "stageResourceCheck p = (case p of (ctx, g) \<Rightarrow>
     (case cx_Skill ctx of
        None \<Rightarrow> (ctx, g)
      | Some s \<Rightarrow>
          if st_MP (cx_AttackerStats ctx) < ManaCost s then
            (ctx\<lparr>ErrorMessage := ''Mana Insufficient! Required: '' @ dec_int (ManaCost s) @ '' MP | You have: ''
               @ dec_int (st_MP (cx_AttackerStats ctx)) @ '' MP'' @ crlf\<rparr>, g)
          else if HPCost s > 0 \<and> st_HP (cx_AttackerStats ctx) \<le> HPCost s then
            (ctx\<lparr>ErrorMessage := ''HP Insufficient for this skill!'' @ crlf\<rparr>, g)
          else
            let stats = (cx_AttackerStats ctx)\<lparr>st_MP := st_MP (cx_AttackerStats ctx) - ManaCost s,
                  st_HP := st_HP (cx_AttackerStats ctx) - HPCost s\<rparr>
            in (ctx\<lparr>cx_AttackerStats := stats\<rparr>, g\<lparr>g_reg := SetStats (cx_Attacker ctx) stats (g_reg g)\<rparr>)))"

definition skill_modifiers :: "SkillDefinition option \<Rightarrow> DamageModifiers" where
  "skill_modifiers skill = (case skill of
     Some s \<Rightarrow> \<lparr>dm_IsCrit = False, dm_IsGuaranteed = IsGuaranteed s, dm_DamageType = sk_DamageType s, dm_Element = sk_Element s,
       dm_DefenderElement = ElementNone, dm_SkillMultiplier = go_int (DamMult s * 1000)\<rparr>
   | None \<Rightarrow> plain_attack)"

definition resolve :: "Stats \<Rightarrow> Stats \<Rightarrow> DamageModifiers \<Rightarrow> draws \<Rightarrow> CombatRoll \<times> draws" where
  "resolve a t mods ds = (case dm_DamageType mods of
     DamagePhysical \<Rightarrow> ResolvePhysical False a t mods ds
   | DamageMagical \<Rightarrow> ResolveMagical False a t mods ds
   | DamagePure \<Rightarrow> (ResolvePure a mods, ds))"

definition stageDamageCalculation :: "pipe \<Rightarrow> pipe" where
  "stageDamageCalculation p = (case p of (ctx, g) \<Rightarrow>
     (case resolve (statsToCombatStats (cx_AttackerStats ctx)) (statsToCombatStats (cx_TargetStats ctx))
             (skill_modifiers (cx_Skill ctx)) (g_draws g) of (cr, ds) \<Rightarrow>
        (ctx\<lparr>cx_Damage := cr_DamageDealt cr\<rparr>,
         record_threat (cx_Attacker ctx) (cx_AttackerMeta ctx) (cx_Target ctx) (cx_TargetMeta ctx) (cr_DamageDealt cr)
           (g\<lparr>g_draws := ds\<rparr>))))"

definition stageEffectApplication :: "pipe \<Rightarrow> pipe" where
  "stageEffectApplication p = (case p of (ctx, g) \<Rightarrow>
     (case DamageSystem (cx_Target ctx) (cx_Damage ctx) g of (remaining, g1) \<Rightarrow>
        let ctx1 = ctx\<lparr>cx_RemainingHP := remaining, cx_Killed := (if g_buffer g1 \<noteq> None then False else remaining \<le> 0)\<rparr>
        in (case cx_Skill ctx of
              None \<Rightarrow> (ctx1, g1)
            | Some s \<Rightarrow>
                if sk_HealValue s > 0 then
                  (case CalculateHealing (st_Level (cx_AttackerStats ctx)) (sk_HealValue s) 1000 False (g_draws g1) of (heal, ds) \<Rightarrow>
                   (case ApplyHealing (st_HP (cx_AttackerStats ctx)) (st_MaxHP (cx_AttackerStats ctx)) heal of (newHP, _) \<Rightarrow>
                      let stats = (cx_AttackerStats ctx)\<lparr>st_HP := newHP\<rparr>
                      in (ctx1\<lparr>cx_AttackerStats := stats\<rparr>,
                          g1\<lparr>g_draws := ds, g_reg := SetStats (cx_Attacker ctx) stats (g_reg g1)\<rparr>)))
                else (ctx1, g1))))"

definition skill_result :: "CombatContext \<Rightarrow> CombatResult" where
  "skill_result ctx = \<lparr>Hit = True, Killed = cx_Killed ctx, Damage = cx_Damage ctx, AttackerID = cx_Attacker ctx,
     TargetID = cx_Target ctx, AttackerName = meta_Name (cx_AttackerMeta ctx), TargetName = meta_Name (cx_TargetMeta ctx),
     TargetHP = cx_RemainingHP ctx\<rparr>"

definition kill_text :: "CombatContext \<Rightarrow> string" where
  "kill_text ctx = (case cx_Skill ctx of
     None \<Rightarrow> ''[COMBAT] '' @ meta_Name (cx_AttackerMeta ctx) @ '' has slain '' @ meta_Name (cx_TargetMeta ctx) @ ''!'' @ crlf
   | Some s \<Rightarrow> ''[SPELL] '' @ meta_Name (cx_AttackerMeta ctx) @ '' unleashed '' @ sk_Name s @ '' on '' @ meta_Name (cx_TargetMeta ctx)
       @ '' dealing '' @ dec_int (cx_Damage ctx) @ '' damage!'' @ crlf)"

definition stageBroadcast :: "pipe \<Rightarrow> CombatResult \<times> Game" where
  "stageBroadcast p = (case p of (ctx, g) \<Rightarrow>
     (skill_result ctx,
      if g_buffer g \<noteq> None then g
      else if \<not> cx_Killed ctx then broadcastHit (skill_result ctx) g
      else if cx_IsPlayer ctx \<and> meta_Type (cx_TargetMeta ctx) = EntityMonster
        then BroadcastToNeighbors (pos_of_entity (g_reg g) (cx_Attacker ctx)) (bytes_of (kill_text ctx)) (cx_Attacker ctx) g
      else g))"

definition stagePostProcess :: "pipe \<Rightarrow> pipe option" where
  "stagePostProcess p = (case p of (ctx, g) \<Rightarrow>
     if \<not> cx_Killed ctx then Some (ctx, g)
     else map_option (\<lambda>g1.
         (case cx_Skill ctx of
            None \<Rightarrow> ctx
          | Some s \<Rightarrow> if cx_IsPlayer ctx then ctx\<lparr>PersonalFeedback := ''Spent -'' @ dec_int (ManaCost s) @ '' MP. (Current: ''
              @ dec_int (st_MP (cx_AttackerStats ctx)) @ ''/'' @ dec_int (st_MaxMP (cx_AttackerStats ctx)) @ '' MP)'' @ crlf\<rparr> else ctx, g1))
       (case g_buffer g of
          None \<Rightarrow> DeathSystem (cx_Target ctx) (cx_Attacker ctx) (cx_TargetMeta ctx) (cx_AttackerMeta ctx) (cx_Damage ctx) g
        | Some ca \<Rightarrow> Some (g\<lparr>g_buffer := Some (acc_AddDamage (cx_Target ctx) (cx_Damage ctx) (cx_Damage ctx) ca)\<rparr>)))"

definition Execute :: "entity \<Rightarrow> entity \<Rightarrow> u64 \<Rightarrow> Game \<Rightarrow> ((string + CombatResult) \<times> Game) option" where
  "Execute attacker target skillID g = (case select_target attacker target skillID (g_reg g) of
     Inl err \<Rightarrow> Some (Inl err, g)
   | Inr ctx \<Rightarrow>
     (case stageRangeCheck (ctx, g) of (ctx1, g1) \<Rightarrow>
      if ErrorMessage ctx1 \<noteq> [] then Some (Inl (ErrorMessage ctx1), g1)
      else (case stageResourceCheck (ctx1, g1) of (ctx2, g2) \<Rightarrow>
      if ErrorMessage ctx2 \<noteq> [] then Some (Inl (ErrorMessage ctx2), g2)
      else (case stageDamageCalculation (ctx2, g2) of (ctx3, g3) \<Rightarrow>
      if ErrorMessage ctx3 \<noteq> [] then Some (Inl (ErrorMessage ctx3), g3)
      else (case stageEffectApplication (ctx3, g3) of (ctx4, g4) \<Rightarrow>
            (case stageBroadcast (ctx4, g4) of (result, g5) \<Rightarrow>
               map_option (\<lambda>(ctx6, g6). (Inr result, g6)) (stagePostProcess (ctx4, g5))))))))"

definition HandleSkillCastingSystem :: "entity \<Rightarrow> u64 \<Rightarrow> entity \<Rightarrow> Game \<Rightarrow> (reply \<times> Game) option" where
  "HandleSkillCastingSystem caster skillID target g = map_option
     (\<lambda>(res, g'). (case res of Inl err \<Rightarrow> (err, False) | Inr _ \<Rightarrow> ([], True), g')) (Execute caster target skillID g)"

subsection \<open>Lemmas\<close>

text \<open>The state after the caster has paid for the skill.\<close>

definition paid :: "entity \<Rightarrow> u64 \<Rightarrow> Game \<Rightarrow> Game" where
  "paid a k g = (case (SkillRegistry k, GetStats (g_reg g) a) of
     (Some s, Some st) \<Rightarrow> if k \<noteq> 0 then g\<lparr>g_reg := SetStats a (st\<lparr>st_MP := st_MP st - ManaCost s, st_HP := st_HP st - HPCost s\<rparr>) (g_reg g)\<rparr> else g
   | _ \<Rightarrow> g)"

lemma registry_no_heal: "SkillRegistry k = Some s \<Longrightarrow> sk_HealValue s = 0 \<and> HPCost s = 0 \<and> 0 < ManaCost s"
  by (auto simp: SkillRegistry_def split: if_splits)

lemma select_target_Inr:
  assumes "select_target a t k r = Inr ctx"
  shows "\<exists>sa ma st mt. a \<noteq> t \<and> GetStats r a = Some sa \<and> GetMetadata r a = Some ma \<and> GetStats r t = Some st \<and> GetMetadata r t = Some mt \<and>
    0 < st_HP st \<and> (k \<noteq> 0 \<longrightarrow> SkillRegistry k \<noteq> None) \<and>
    ctx = \<lparr>cx_Attacker = a, cx_Target = t, cx_SkillID = k,
        cx_Skill = (if k \<noteq> 0 then SkillRegistry k else None), cx_IsPlayer = (meta_Type ma = EntityPlayer),
        cx_AttackerStats = sa, cx_TargetStats = st, cx_AttackerMeta = ma, cx_TargetMeta = mt,
        cx_Damage = 0, cx_RemainingHP = 0, cx_Killed = False, ErrorMessage = [], PersonalFeedback = []\<rparr>"
  using assms by (auto simp: select_target_def split: if_splits option.splits)

lemma steady_paid: "steady g (paid a k g)"
  by (auto simp: paid_def intro: steady_refl steady_SetStats split: option.split)

lemma paid_simps [simp]: "g_buffer (paid a k g) = g_buffer g" "g_draws (paid a k g) = g_draws g" "g_respawns (paid a k g) = g_respawns g"
  by (simp_all add: paid_def split: option.split)

lemma paid_other:
  assumes "game_ok g L I" and "x \<noteq> a"
  shows "GetStats (g_reg (paid a k g)) x = GetStats (g_reg g) x"
  using assms by (auto simp: paid_def set_stats_ok(2) live_of_component(1) split: option.split)

lemma resolve_nonneg: "resolve a t m ds = (cr, ds') \<Longrightarrow> 0 \<le> cr_DamageDealt cr"
proof -
  assume r: "resolve a t m ds = (cr, ds')"
  show ?thesis
  proof (cases "dm_DamageType m")
    case DamagePhysical
    with r physical_damage_nonneg show ?thesis by (auto simp: resolve_def)
  next
    case DamageMagical
    obtain x r1 where x: "dodge_check False m (cs_HitRate a + 50 - go_div (cs_DodgeRate t) 2) ds = (x, r1)" by force
    obtain c r2 where c: "crit_check False m (go_div (cs_CritRate a) 2) r1 = (c, r2)" by force
    from ResolveMagical_damage [OF x c] r DamageMagical finish_damage_pos show ?thesis
      by (simp add: resolve_def split: if_splits) (metis order_trans zero_le_one)
  next
    case DamagePure
    with r show ?thesis by (auto simp: resolve_def ResolvePure_def Let_def)
  qed
qed

text \<open>A rejected cast changes nothing: the costs are paid only after every check.\<close>

lemma cast_rejected: "Execute a t k g = Some (Inl err, g') \<Longrightarrow> g' = g"
  by (auto simp: Execute_def stageRangeCheck_def stageResourceCheck_def stageDamageCalculation_def Let_def
      dest!: select_target_Inr split: sum.splits prod.splits option.splits if_splits)

lemma range_passed:
  assumes "stageRangeCheck (ctx, g) = (ctx1, g1)" and "ErrorMessage ctx1 = []" and "ErrorMessage ctx = []"
  shows "ctx1 = ctx \<and> g1 = g \<and> (IsInRange (g_reg g) (cx_Attacker ctx) (cx_Target ctx) 5 \<or>
    (\<exists>s. cx_Skill ctx = Some s \<and> IsInRange (g_reg g) (cx_Attacker ctx) (cx_Target ctx) (CastRange s)))"
  using assms by (auto simp: stageRangeCheck_def Let_def crlf_def split: if_splits option.splits)

lemma resources_passed:
  assumes "stageResourceCheck (ctx, g) = (ctx2, g2)" and "ErrorMessage ctx2 = []" and "ErrorMessage ctx = []"
  shows "case cx_Skill ctx of None \<Rightarrow> ctx2 = ctx \<and> g2 = g
    | Some s \<Rightarrow> ManaCost s \<le> st_MP (cx_AttackerStats ctx) \<and>
        (let st = (cx_AttackerStats ctx)\<lparr>st_MP := st_MP (cx_AttackerStats ctx) - ManaCost s, st_HP := st_HP (cx_AttackerStats ctx) - HPCost s\<rparr>
         in ctx2 = ctx\<lparr>cx_AttackerStats := st\<rparr> \<and> g2 = g\<lparr>g_reg := SetStats (cx_Attacker ctx) st (g_reg g)\<rparr>)"
  using assms by (auto simp: stageResourceCheck_def Let_def crlf_def split: if_splits option.splits)

text \<open>
  An accepted cast is a hit on the state in which the caster has paid: in range, with enough mana, and with the
  outcome of every hit (\<open>attack_outcome\<close>). The cooldown of a skill is never consulted.
\<close>

lemma cast_accepted:
  assumes ok: "game_ok g L I" and nobuf: "g_buffer g = None" and run: "Execute a t k g = Some (Inr cr, g')"
  shows "a \<noteq> t \<and> (k \<noteq> 0 \<longrightarrow> (\<exists>s sa. SkillRegistry k = Some s \<and> GetStats (g_reg g) a = Some sa \<and> ManaCost s \<le> st_MP sa)) \<and>
    (IsInRange (g_reg g) a t 5 \<or> (\<exists>s. SkillRegistry k = Some s \<and> IsInRange (g_reg g) a t (CastRange s))) \<and>
    attack_outcome a t L I (paid a k g) cr g'"
proof -
  obtain ctx where sel: "select_target a t k (g_reg g) = Inr ctx"
    using run by (auto simp: Execute_def split: sum.splits)
  obtain sa ma st mt where X: "a \<noteq> t" "GetStats (g_reg g) a = Some sa" "GetMetadata (g_reg g) a = Some ma"
      "GetStats (g_reg g) t = Some st" "GetMetadata (g_reg g) t = Some mt" "0 < st_HP st" "k \<noteq> 0 \<longrightarrow> SkillRegistry k \<noteq> None"
    and ctx: "ctx = \<lparr>cx_Attacker = a, cx_Target = t, cx_SkillID = k,
        cx_Skill = (if k \<noteq> 0 then SkillRegistry k else None), cx_IsPlayer = (meta_Type ma = EntityPlayer),
        cx_AttackerStats = sa, cx_TargetStats = st, cx_AttackerMeta = ma, cx_TargetMeta = mt,
        cx_Damage = 0, cx_RemainingHP = 0, cx_Killed = False, ErrorMessage = [], PersonalFeedback = []\<rparr>"
    using select_target_Inr [OF sel] by blast
  obtain c1 g1 where e1: "stageRangeCheck (ctx, g) = (c1, g1)" by force
  obtain c2 g2 where e2: "stageResourceCheck (c1, g1) = (c2, g2)" by force
  have m1: "ErrorMessage c1 = []" and m2: "ErrorMessage c2 = []"
    using run sel e1 e2 by (auto simp: Execute_def split: if_splits)
  have R: "c1 = ctx" "g1 = g" "IsInRange (g_reg g) a t 5 \<or> (\<exists>s. SkillRegistry k = Some s \<and> IsInRange (g_reg g) a t (CastRange s))"
    using range_passed [OF e1 m1] by (auto simp: ctx split: if_splits)
  have P: "g2 = paid a k g" "k \<noteq> 0 \<longrightarrow> (\<exists>s. SkillRegistry k = Some s \<and> ManaCost s \<le> st_MP sa)"
    and c2: "\<exists>st2. c2 = ctx\<lparr>cx_AttackerStats := st2\<rparr>"
    using resources_passed [OF e2 m2] R(1,2) X(2,7) by (auto simp: ctx paid_def Let_def split: option.splits if_splits)
  obtain st2 where c2: "c2 = ctx\<lparr>cx_AttackerStats := st2\<rparr>" using c2 by blast
  define h where "h = paid a k g"
  note H = steadyD [OF steady_paid [of g a k, folded h_def]]
  have hst: "GetStats (g_reg h) t = Some st" using paid_other [OF ok, of t a k] X(1,4) by (simp add: h_def)
  obtain roll ds where roll: "resolve (statsToCombatStats st2) (statsToCombatStats st) (skill_modifiers (cx_Skill ctx)) (g_draws h) = (roll, ds)"
    by force
  define d where "d = cr_DamageDealt roll"
  obtain g4 where g4: "DamageSystem t d (record_threat a ma t mt d (h\<lparr>g_draws := ds\<rparr>)) = (st_HP st - d, g4)"
      and s4: "steady h g4" and nobuf4: "g_buffer g4 = None" and resp: "g_respawns g4 = g_respawns h"
      and stats: "GetStats (g_reg g4) = (GetStats (g_reg h))(t \<mapsto> st\<lparr>st_HP := st_HP st - d\<rparr>)"
    using attack_damage [OF H(1) [OF ok] _ hst, where a = a and am = ma and tm = mt and d = d and ds = ds] nobuf by (auto simp: h_def)
  define c4 where "c4 = c2\<lparr>cx_Damage := d, cx_RemainingHP := st_HP st - d, cx_Killed := st_HP st - d \<le> 0\<rparr>"
  have e3: "stageDamageCalculation (c2, g2) = (c2\<lparr>cx_Damage := d\<rparr>, record_threat a ma t mt d (h\<lparr>g_draws := ds\<rparr>))"
    using roll by (simp add: stageDamageCalculation_def P(1) h_def c2 ctx d_def)
  have no_heal: "cx_Skill ctx = Some s \<Longrightarrow> sk_HealValue s = 0" for s
    using registry_no_heal [of k s] by (auto simp: ctx split: if_splits)
  have e4: "stageEffectApplication (c2\<lparr>cx_Damage := d\<rparr>, record_threat a ma t mt d (h\<lparr>g_draws := ds\<rparr>)) = (c4, g4)"
  proof -
    have f: "cx_Target ctx = t" by (simp add: ctx)
    show ?thesis
      using g4 nobuf4 no_heal by (cases "cx_Skill ctx") (simp_all add: stageEffectApplication_def c2 c4_def f Let_def)
  qed
  obtain cr' g5 where e5: "stageBroadcast (c4, g4) = (cr', g5)" by force
  have cr': "cr' = skill_result c4" and sent: "only_sends g4 g5"
    using e5 nobuf4 by (auto simp: stageBroadcast_def intro: send_intros split: if_splits)
  have post: "map_option (\<lambda>(c6, g6). (Inr cr', g6)) (stagePostProcess (c4, g5)) = Some (Inr cr, g')"
    using run sel e1 e2 e3 e4 e5 m1 m2 R(1,2) by (simp add: Execute_def c2 ctx)
  then have cr: "cr = skill_result c4" using cr' by auto
  have D: "0 \<le> Damage cr" "TargetHP cr = st_HP st - Damage cr" "Damage cr = d" "Killed cr \<longleftrightarrow> st_HP st - d \<le> 0"
    using resolve_nonneg [OF roll] by (simp_all add: cr skill_result_def c4_def d_def)
  have s5: "steady h g5" by (rule steady_trans [OF s4 steady_sends [OF sent]])
  have meta: "GetMetadata (g_reg h) a = Some ma" "GetMetadata (g_reg h) t = Some mt" by (simp_all add: H X)
  have "attack_outcome a t L I h cr g'"
  proof (cases "Killed cr")
    case False
    then have "g' = g5" using post D(4) by (simp add: stagePostProcess_def c4_def)
    with False D stats show ?thesis
      by (intro survivor_outcome [OF H(1) [OF ok] hst meta X(6) D(1,2) _ _ s4 _ sent [folded \<open>g' = g5\<close>]]) simp_all
  next
    case True
    have buf: "g_buffer g5 = None" by (simp add: only_sendsD [OF sent] nobuf4)
    have death: "DeathSystem t a mt ma d g5 = Some g'"
      using post True D(4) buf by (auto simp: stagePostProcess_def c4_def c2 ctx split: option.splits)
    have "g' = g'\<lparr>g_draws := g_draws g'\<rparr>" by simp
    from victim_outcome [OF H(1) [OF ok] hst meta X(6) D(1,2) True _ s5 _ _ death this] True D stats resp show ?thesis
      by (simp add: only_sendsD [OF sent])
  qed
  with X R(3) P(2) show ?thesis by (auto simp: h_def)
qed

text \<open>
  C27: A rejected cast changes nothing. An accepted one needs a registered skill (or none) whose mana the caster has
  and a target within five units or the range of the skill; the caster pays exactly the mana, and then the cast is an
  attack: the reported damage is taken, and a kill pays the bounty to exactly the earners and drops nothing.
\<close>

theorem cast_exact:
  assumes "game_ok g L I" and "g_buffer g = None" and "Execute a t k g = Some (res, g')"
  shows "case res of
      Inl err \<Rightarrow> g' = g
    | Inr cr \<Rightarrow> a \<noteq> t
        \<and> (k \<noteq> 0 \<longrightarrow> (\<exists>s sa. SkillRegistry k = Some s \<and> GetStats (g_reg g) a = Some sa \<and> ManaCost s \<le> st_MP sa))
        \<and> (IsInRange (g_reg g) a t 5 \<or> (\<exists>s. SkillRegistry k = Some s \<and> IsInRange (g_reg g) a t (CastRange s)))
        \<and> attack_outcome a t L I (paid a k g) cr g'"
  using cast_rejected cast_accepted [OF assms(1,2)] assms(3) by (cases res) auto

text \<open>The hero strikes the slime for 22 and pays ten mana.\<close>

theorem cast_exact_witness:
  "\<exists>cr g'. Execute hero foe 3 arena = Some (Inr cr, g') \<and> Killed cr \<and> Damage cr = 22 \<and>
     GetMetadata (g_reg g') = [hero \<mapsto> \<lparr>meta_Name = ''Ann'', meta_Type = EntityPlayer\<rparr>]"
proof -
  let ?ann = "\<lparr>meta_Name = ''Ann'', meta_Type = EntityPlayer\<rparr>" and ?slime = "\<lparr>meta_Name = ''Slime'', meta_Type = EntityMonster\<rparr>"
  obtain s where s: "SkillRegistry 3 = Some s" "ManaCost s = 10" "HPCost s = 0" "sk_HealValue s = 0" "DamMult s = 3 / 2"
      "sk_DamageType s = DamagePhysical" "sk_Element s = ElementNone" "IsGuaranteed s = False"
    by (simp add: SkillRegistry_def)
  define ctx where "ctx = \<lparr>cx_Attacker = hero, cx_Target = foe, cx_SkillID = 3, cx_Skill = Some s, cx_IsPlayer = True,
        cx_AttackerStats = hero_stats, cx_TargetStats = slime_stats, cx_AttackerMeta = ?ann, cx_TargetMeta = ?slime,
        cx_Damage = 0, cx_RemainingHP = 0, cx_Killed = False, ErrorMessage = [], PersonalFeedback = []\<rparr>"
  define st where "st = hero_stats\<lparr>st_MP := 40\<rparr>"
  define h where "h = arena\<lparr>g_reg := SetStats hero st arena_reg\<rparr>"
  have sel: "select_target hero foe 3 (g_reg arena) = Inr ctx"
    using s by (simp add: select_target_def arena_reg ctx_def slime_stats_def)
  have range: "stageRangeCheck (ctx, arena) = (ctx, arena)"
    by (simp add: stageRangeCheck_def arena_reg IsInRange_def hero_pos_def slime_pos_def DistanceSq_def ctx_def Let_def)
  have pay: "stageResourceCheck (ctx, arena) = (ctx\<lparr>cx_AttackerStats := st\<rparr>, h)"
    using s by (simp add: stageResourceCheck_def ctx_def st_def h_def hero_stats_def Let_def)
  obtain roll ds where roll: "resolve (statsToCombatStats st) (statsToCombatStats slime_stats) (skill_modifiers (Some s)) (g_draws h) = (roll, ds)"
      and d: "cr_DamageDealt roll = 22"
    using s by (simp add: resolve_def skill_modifiers_def ResolvePhysical_def statsToCombatStats_def st_def hero_stats_def slime_stats_def
        dodge_check_def crit_check_def Intn_def raw_damage_def finish_damage_def GetElementEffectiveness_def
        elementEffectiveness_def element_code_def go_div_def arena_def h_def Let_def go_int_def)
  have paid: "paid hero 3 arena = h"
    using s by (simp add: paid_def arena_reg h_def st_def hero_stats_def)
  note H = steadyD [OF steady_paid [of arena hero 3, unfolded paid]]
  have stats: "GetStats (g_reg h) foe = Some slime_stats"
    using paid_other [OF arena_ok, of foe hero 3] by (simp add: paid arena_reg)
  obtain g4 where g4: "DamageSystem foe 22 (record_threat hero ?ann foe ?slime 22 (h\<lparr>g_draws := ds\<rparr>)) = (st_HP slime_stats - 22, g4)"
      and nobuf: "g_buffer g4 = None"
    using attack_damage [OF H(1) [OF arena_ok] _ stats, where a = hero and am = ?ann and tm = ?slime and d = 22 and ds = ds]
    by (auto simp: h_def)
  define c4 where "c4 = ctx\<lparr>cx_AttackerStats := st, cx_Damage := 22, cx_RemainingHP := - 13, cx_Killed := True\<rparr>"
  have hit: "stageDamageCalculation (ctx\<lparr>cx_AttackerStats := st\<rparr>, h) =
      (ctx\<lparr>cx_AttackerStats := st, cx_Damage := 22\<rparr>, record_threat hero ?ann foe ?slime 22 (h\<lparr>g_draws := ds\<rparr>))"
    using roll d by (simp add: stageDamageCalculation_def ctx_def)
  have wound: "stageEffectApplication (ctx\<lparr>cx_AttackerStats := st, cx_Damage := 22\<rparr>, record_threat hero ?ann foe ?slime 22 (h\<lparr>g_draws := ds\<rparr>)) = (c4, g4)"
    using g4 nobuf s(4) by (simp add: stageEffectApplication_def ctx_def c4_def Let_def slime_stats_def)
  obtain cr g5 where cast: "stageBroadcast (c4, g4) = (cr, g5)" by force
  then have cr: "Killed cr" "Damage cr = 22" and buf: "g_buffer g5 = None"
    using nobuf by (auto simp: stageBroadcast_def skill_result_def c4_def ctx_def only_sendsD(1) [OF broadcasts_only_send(1)])
  obtain msg where "death_text ?slime hero ?ann 22 = Some msg"
    using death_text_player [where km = ?ann and tm = ?slime and k = hero and d = 22] by auto
  then obtain g6 where death: "DeathSystem foe hero ?slime ?ann 22 g5 = Some g6" using DeathSystem_defined by blast
  have run: "Execute hero foe 3 arena = Some (Inr cr, g6)"
    using sel range pay hit wound cast death buf
    by (simp add: Execute_def ctx_def c4_def stagePostProcess_def)
  from cast_exact [OF arena_ok _ run] cr have "GetMetadata (g_reg g6) = [hero \<mapsto> ?ann]"
    by (auto simp: attack_outcome_def paid H(2-) arena_reg)
  with run cr show ?thesis by blast
qed

end
