(* ===== verification/Chat.thy ===== *)
theory Chat
  imports Game_State Progression
begin

text \<open>
  \<open>server/game/chat.go\<close>: routing of chat messages. A Go string is its bytes; \<open>strings.TrimSpace\<close> strips the encodings
  of the Unicode spaces from both ends.
\<close>

subsection \<open>Definitions\<close>

definition spaces :: "byte_seq list" where
  "spaces = [[0x20], [0x09], [0x0A], [0x0B], [0x0C], [0x0D], [0xC2, 0x85], [0xC2, 0xA0], [0xE1, 0x9A, 0x80],
     [0xE2, 0x80, 0x80], [0xE2, 0x80, 0x81], [0xE2, 0x80, 0x82], [0xE2, 0x80, 0x83], [0xE2, 0x80, 0x84], [0xE2, 0x80, 0x85],
     [0xE2, 0x80, 0x86], [0xE2, 0x80, 0x87], [0xE2, 0x80, 0x88], [0xE2, 0x80, 0x89], [0xE2, 0x80, 0x8A],
     [0xE2, 0x80, 0xA8], [0xE2, 0x80, 0xA9], [0xE2, 0x80, 0xAF], [0xE2, 0x81, 0x9F], [0xE3, 0x80, 0x80]]"

definition starts_with :: "byte_seq \<Rightarrow> byte_seq \<Rightarrow> bool" where
  "starts_with s p \<longleftrightarrow> take (length p) s = p"

lemma space_length: "find P spaces = Some sp \<Longrightarrow> 0 < length sp"
  by (auto simp: spaces_def split: if_splits)

lemma shorter: "starts_with s sp \<Longrightarrow> 0 < length sp \<Longrightarrow> length (drop (length sp) s) < length s"
  by (cases s; cases sp) (auto simp: starts_with_def)

text \<open>Stripping from the left the sequences of \<open>f ` spaces\<close>; with \<open>rev\<close>, of a reversed string, from the right.\<close>

function strip :: "(byte_seq \<Rightarrow> byte_seq) \<Rightarrow> byte_seq \<Rightarrow> byte_seq" where
  "strip f s = (case find (\<lambda>sp. f sp \<noteq> [] \<and> starts_with s (f sp)) spaces of None \<Rightarrow> s | Some sp \<Rightarrow> strip f (drop (length (f sp)) s))"
  by pat_completeness auto
termination
proof (relation "measure (\<lambda>(f, s). length s)")
  fix f s sp
  assume "find (\<lambda>sp. f sp \<noteq> [] \<and> starts_with s (f sp)) spaces = Some sp"
  then have "f sp \<noteq> [] \<and> starts_with s (f sp)" by (metis (mono_tags, lifting) find_Some_iff)
  then show "((f, drop (length (f sp)) s), f, s) \<in> measure (\<lambda>(f, s). length s)" using shorter by auto
qed simp

declare strip.simps [simp del]

definition TrimSpace :: "byte_seq \<Rightarrow> byte_seq" where
  "TrimSpace s = rev (strip rev (rev (strip (\<lambda>sp. sp) s)))"

fun IndexByte :: "byte_seq \<Rightarrow> u8 \<Rightarrow> nat option" where
  "IndexByte [] c = None"
| "IndexByte (b # bs) c = (if b = c then Some 0 else map_option Suc (IndexByte bs c))"

definition stripChatPrefix :: "byte_seq \<Rightarrow> byte_seq" where
  "stripChatPrefix msg = (case IndexByte msg 0x20 of
     None \<Rightarrow> [] | Some i \<Rightarrow> if i + 1 < length msg then drop (i + 1) msg else [])"

definition chat_frame :: "u8 \<Rightarrow> string \<Rightarrow> byte_seq \<Rightarrow> byte_seq" where
  "chat_frame channel sender msg =
     BuildChatMessage \<lparr>ch_Channel = channel, ch_SenderName = bytes_of sender, ch_Message = msg\<rparr>"

definition noPartyNotice :: byte_seq where
  "noPartyNotice = BuildNotice (bytes_of ''Error: You are not currently inside an active party group!'')"

definition RouteChatMessage :: "entity \<Rightarrow> byte_seq \<Rightarrow> Game \<Rightarrow> Game" where
  "RouteChatMessage sender rawMessage g =
     (let trimmed = TrimSpace rawMessage
      in if length trimmed = 0 then g
         else case GetMetadata (g_reg g) sender of
           None \<Rightarrow> g
         | Some m \<Rightarrow>
             if starts_with trimmed (bytes_of ''/p '') \<or> starts_with trimmed (bytes_of ''/party '') then
               (case GetPartyMember (g_reg g) sender of
                  Some mem \<Rightarrow> BroadcastToPartyBinary (PartyID mem) (chat_frame 1 (meta_Name m) (stripChatPrefix trimmed)) g
                | None \<Rightarrow> SendNoticeSystem sender noPartyNotice g)
             else if starts_with trimmed (bytes_of ''/g '') \<or> starts_with trimmed (bytes_of ''/global '') then
               BroadcastToWorldBinary (chat_frame 2 (meta_Name m) (stripChatPrefix trimmed)) g
             else (case GetPosition (g_reg g) sender of
               None \<Rightarrow> g
             | Some pos \<Rightarrow> BroadcastToNeighbors pos (chat_frame 0 (meta_Name m) trimmed) sender g))"

subsection \<open>Lemmas\<close>

lemma world_out:
  "BroadcastToWorldBinary frame g =
     g\<lparr>g_out := g_out g @ map (\<lambda>(e, c). (e, frame)) (filter (\<lambda>(e, c). conn_writer c \<noteq> None) (entries (conns (g_reg g))))\<rparr>"
proof -
  have "range_loop (\<lambda>e c g. if conn_writer c \<noteq> None then (True, g\<lparr>g_out := g_out g @ [(e, frame)]\<rparr>) else (True, g)) es h =
      h\<lparr>g_out := g_out h @ map (\<lambda>(e, c). (e, frame)) (filter (\<lambda>(e, c). conn_writer c \<noteq> None) es)\<rparr>" for es h
    by (induction es arbitrary: h) auto
  then show ?thesis by (simp add: BroadcastToWorldBinary_def RangeConnections_def store_range_def entries_def)
qed

lemma world_only_sends [send_intros]: "only_sends g (BroadcastToWorldBinary frame g)"
  unfolding world_out by (rule only_sends_append)

text \<open>A chat message changes nothing but the frames sent.\<close>

lemma chat_only_sends: "only_sends g (RouteChatMessage e msg g)"
  by (auto simp: RouteChatMessage_def Let_def intro: send_intros split: option.split)

lemma party_frames:
  assumes "(e, d) \<in> set (g_out (BroadcastToPartyBinary pid frame g))" and "(e, d) \<notin> set (g_out g)"
  shows "d = frame \<and> has_writer (g_reg g) e \<and> (\<exists>p. GetParty (g_reg g) pid = Some p \<and> e \<in> set (MemberIDs p))"
proof -
  let ?f = "\<lambda>e g. if has_writer (g_reg g) e then g\<lparr>g_out := g_out g @ [(e, frame)]\<rparr> else g"
  have "(e, d) \<in> set (g_out (fold ?f ms h)) \<Longrightarrow> (e, d) \<notin> set (g_out h) \<Longrightarrow> d = frame \<and> has_writer (g_reg h) e \<and> e \<in> set ms" for ms h
  proof (induction ms arbitrary: h)
    case (Cons m ms)
    show ?case
    proof (cases "(e, d) \<in> set (g_out (?f m h))")
      case True
      with Cons.prems show ?thesis by (auto split: if_splits)
    next
      case False
      with Cons.prems(1) Cons.IH [of "?f m h"] show ?thesis by (auto split: if_splits)
    qed
  qed simp
  with assms show ?thesis by (auto simp: BroadcastToPartyBinary_def split: option.splits)
qed

text \<open>A global message reaches every connection with a writer, the sender's included, exactly once.\<close>

lemma global_reaches_all:
  assumes "store_ok (conns (g_reg g))"
  shows "set (drop (length (g_out g)) (g_out (BroadcastToWorldBinary frame g))) = {(e, frame) | e. has_writer (g_reg g) e}"
proof -
  have "(e, c) \<in> set (entries (conns (g_reg g))) \<longleftrightarrow> GetConnection (g_reg g) e = Some c" for e c
    using set_entries [OF assms] by (simp add: GetConnection_def)
  then show ?thesis by (force simp: world_out has_writer_def split: option.splits)
qed

text \<open>The sender without a party is sent a frame inside a frame: the notice is framed a second time.\<close>

lemma no_party_double_frame:
  assumes "has_writer (g_reg g) e" and "GetMetadata (g_reg g) e = Some m" and "GetPartyMember (g_reg g) e = None"
    and "starts_with (TrimSpace msg) (bytes_of ''/p '')"
  shows "g_out (RouteChatMessage e msg g) = g_out g @ [(e, BuildNotice (BuildNotice (bytes_of
    ''Error: You are not currently inside an active party group!'')))]"
proof -
  have "TrimSpace msg \<noteq> []" using assms(4) by (auto simp: starts_with_def bytes_of_def)
  with assms show ?thesis by (simp add: RouteChatMessage_def Let_def SendNoticeSystem_def noPartyNotice_def)
qed

text \<open>A trimmed message neither starts nor ends with a space.\<close>

lemma strip_done: "find (\<lambda>sp. f sp \<noteq> [] \<and> starts_with (strip f s) (f sp)) spaces = None"
  by (induction f s rule: strip.induct) (subst strip.simps, auto split: option.split)

lemma strip_suffix: "\<exists>p. s = p @ strip f s"
proof (induction f s rule: strip.induct)
  case (1 f s)
  show ?case
  proof (cases "find (\<lambda>sp. f sp \<noteq> [] \<and> starts_with s (f sp)) spaces")
    case None
    then show ?thesis by (simp add: strip.simps [of f s])
  next
    case (Some sp)
    from 1 [OF Some] obtain p where "drop (length (f sp)) s = p @ strip f (drop (length (f sp)) s)" ..
    then have "s = (take (length (f sp)) s @ p) @ strip f (drop (length (f sp)) s)" by (metis append.assoc append_take_drop_id)
    moreover have "strip f s = strip f (drop (length (f sp)) s)" by (simp add: strip.simps [of f s] Some)
    ultimately show ?thesis by metis
  qed
qed

lemma TrimSpace_infix: "\<exists>p q. s = p @ TrimSpace s @ q"
proof -
  obtain p where p: "s = p @ strip (\<lambda>sp. sp) s" using strip_suffix by blast
  obtain q where "rev (strip (\<lambda>sp. sp) s) = q @ strip rev (rev (strip (\<lambda>sp. sp) s))" using strip_suffix by blast
  then have "strip (\<lambda>sp. sp) s = TrimSpace s @ rev q" by (metis TrimSpace_def rev_append rev_rev_ident)
  with p show ?thesis by metis
qed

end
