(* ===== verification/Skilldata.thy ===== *)
theory Skilldata
  imports Prelude
begin

text \<open>
  The skill graph of \<open>server/peakgo/skilldata\<close> and its instance in \<open>server/models/skills.go\<close>. Identifiers and
  levels are 32-bit words read as signed. The map from identifiers to entries owns its entries, so a change of a
  parent's children is an update of the map. \<open>GetTree\<close> and \<open>GetSkillsByClass\<close> list a map in an order Go leaves
  open; \<open>Count\<close> is the size of the domain.
\<close>

subsection \<open>Data\<close>

type_synonym i32 = u32

datatype SkillClass = SkillInstant | SkillCast | SkillChannel | SkillPassive | SkillToggle

datatype SkillTarget = TargetNone | TargetSelf | TargetEnemy | TargetFriendly | TargetPoint | TargetArea

datatype skill_error = ErrDuplicateSkill | ErrSkillNotFound | ErrLevelTooLow | ErrMissingPrerequisite

record SkillEntry =
  se_ID :: i32
  se_Name :: string
  se_Class :: SkillClass
  se_Target :: SkillTarget
  CastTimeMS :: i32
  CooldownMS :: i32
  se_Range :: real
  se_ManaCost :: i32
  RequiredLevel :: i32
  MaxRank :: i32
  DamageMult :: real
  HealMult :: real
  Prerequisites :: "i32 list"
  Children :: "i32 list"

type_synonym SkillGraph = "i32 \<rightharpoonup> SkillEntry"

definition NewSkillGraph :: SkillGraph where "NewSkillGraph = Map.empty"

subsection \<open>Operations\<close>

definition link_parent :: "i32 \<Rightarrow> i32 \<Rightarrow> SkillGraph \<Rightarrow> SkillGraph" where
  "link_parent child prereqID sg = (case sg prereqID of
     None \<Rightarrow> sg
   | Some parent \<Rightarrow> sg(prereqID \<mapsto> parent\<lparr>Children := Children parent @ [child]\<rparr>))"

definition RegisterSkill :: "SkillEntry \<Rightarrow> SkillGraph \<Rightarrow> skill_error option \<times> SkillGraph" where
  "RegisterSkill s sg =
     (if sg (se_ID s) \<noteq> None then (Some ErrDuplicateSkill, sg)
      else (None, fold (link_parent (se_ID s)) (Prerequisites s) (sg(se_ID s \<mapsto> s))))"

definition GetSkill :: "SkillGraph \<Rightarrow> i32 \<Rightarrow> SkillEntry option" where "GetSkill sg k = sg k"

fun prereqs_met :: "i32 set \<Rightarrow> i32 list \<Rightarrow> bool" where
  "prereqs_met known [] = True"
| "prereqs_met known (p # ps) = (if p \<notin> known then False else prereqs_met known ps)"

definition CanLearn :: "SkillGraph \<Rightarrow> i32 \<Rightarrow> i32 list \<Rightarrow> i32 \<Rightarrow> skill_error + bool" where
  "CanLearn sg skillID knownSkills playerLevel = (case sg skillID of
     None \<Rightarrow> Inl ErrSkillNotFound
   | Some skill \<Rightarrow>
       if sint playerLevel < sint (RequiredLevel skill) then Inl ErrLevelTooLow
       else if \<not> prereqs_met (set knownSkills) (Prerequisites skill) then Inl ErrMissingPrerequisite
       else Inr True)"

text \<open>
  The depth-first walk with its visited set and the result so far; the loop over the prerequisites of a skill is
  \<open>collect_all\<close>.
\<close>

function collectPrereqs :: "SkillGraph \<Rightarrow> i32 \<Rightarrow> i32 set \<times> i32 list \<Rightarrow> i32 set \<times> i32 list"
  and collect_all :: "SkillGraph \<Rightarrow> i32 list \<Rightarrow> i32 set \<times> i32 list \<Rightarrow> i32 set \<times> i32 list" where
  "collectPrereqs sg k (visited, result) =
     (if k \<in> visited then (visited, result)
      else case sg k of
        None \<Rightarrow> (visited, result)
      | Some skill \<Rightarrow>
          (case collect_all sg (Prerequisites skill) (insert k visited, result) of
             (visited', result') \<Rightarrow> (visited', result' @ [k])))"
| "collect_all sg [] acc = acc"
| "collect_all sg (p # ps) acc = collect_all sg ps (collectPrereqs sg p acc)"
  by pat_completeness auto

text \<open>The visited set only grows, so fewer and fewer registered skills are left: the walk ends on every graph.\<close>

lemma collect_grows:
  "collectPrereqs_collect_all_dom (Inl (sg, k, acc)) \<Longrightarrow> fst acc \<subseteq> fst (collectPrereqs sg k acc)"
  "collectPrereqs_collect_all_dom (Inr (sg, ks, acc)) \<Longrightarrow> fst acc \<subseteq> fst (collect_all sg ks acc)"
proof (induction sg k acc and sg ks acc rule: collectPrereqs_collect_all.pinduct)
  case (1 sg k visited result)
  then show ?case
    by (auto simp: collectPrereqs.psimps split: option.splits prod.splits)
next
  case (2 sg acc)
  then show ?case by (simp add: collect_all.psimps)
next
  case (3 sg p ps acc)
  then show ?case by (auto simp: collect_all.psimps)
qed

definition unvisited :: "SkillGraph \<Rightarrow> i32 set \<Rightarrow> nat" where
  "unvisited sg visited = card (dom sg - visited)"

lemma unvisited_insert: "k \<notin> visited \<Longrightarrow> sg k = Some s \<Longrightarrow> unvisited sg (insert k visited) < unvisited sg visited"
  unfolding unvisited_def by (rule psubset_card_mono) (auto simp: dom_def)

lemma unvisited_mono: "v \<subseteq> v' \<Longrightarrow> unvisited sg v' \<le> unvisited sg v"
  unfolding unvisited_def by (rule card_mono) auto

termination collectPrereqs
proof (relation "inv_image (less_than <*lex*> less_than) (\<lambda>x. case x of
    Inl (sg, k, acc) \<Rightarrow> (unvisited sg (fst acc), 0 :: nat)
  | Inr (sg, ks, acc) \<Rightarrow> (unvisited sg (fst acc), Suc (length ks)))", goal_cases)
  case 1
  then show ?case by auto
next
  case (2 sg k visited result skill)
  then show ?case by (simp add: unvisited_insert)
next
  case (3 sg p ps acc)
  then show ?case by simp
next
  case (4 sg p ps acc)
  then have "unvisited sg (fst (collectPrereqs sg p acc)) \<le> unvisited sg (fst acc)"
    by (intro unvisited_mono collect_grows)
  then show ?case by auto
qed

declare collectPrereqs.simps [simp del]

definition GetPrerequisiteChain :: "SkillGraph \<Rightarrow> i32 \<Rightarrow> i32 list" where
  "GetPrerequisiteChain sg skillID = snd (collectPrereqs sg skillID ({}, []))"

definition GetTree :: "SkillGraph \<Rightarrow> i32 list \<Rightarrow> SkillEntry list" where
  "GetTree sg order = map (\<lambda>k. the (sg k)) order"

definition skill_Count :: "SkillGraph \<Rightarrow> nat" where "skill_Count sg = card (dom sg)"

definition GetSkillsByClass :: "SkillGraph \<Rightarrow> i32 list \<Rightarrow> SkillClass \<Rightarrow> i32 list" where
  "GetSkillsByClass sg order c = filter (\<lambda>k. se_Class (the (sg k)) = c) order"

subsection \<open>The graph of the server\<close>

definition blank_skill :: SkillEntry where
  "blank_skill = \<lparr>se_ID = 0, se_Name = [], se_Class = SkillInstant, se_Target = TargetNone, CastTimeMS = 0, CooldownMS = 0,
     se_Range = 0, se_ManaCost = 0, RequiredLevel = 0, MaxRank = 0, DamageMult = 0, HealMult = 0, Prerequisites = [], Children = []\<rparr>"

definition fireball_entry :: SkillEntry where
  "fireball_entry = blank_skill\<lparr>se_ID := 1, se_Name := ''Fireball'', se_Class := SkillCast, se_Target := TargetEnemy,
     se_ManaCost := 20, RequiredLevel := 3, se_Range := 8, DamageMult := 5 / 2, Prerequisites := [3]\<rparr>"

definition thunderclap_entry :: SkillEntry where
  "thunderclap_entry = blank_skill\<lparr>se_ID := 2, se_Name := ''Thunderclap'', se_Class := SkillCast, se_Target := TargetEnemy,
     se_ManaCost := 35, RequiredLevel := 6, se_Range := 6, DamageMult := 4, Prerequisites := [1]\<rparr>"

definition power_strike_entry :: SkillEntry where
  "power_strike_entry = blank_skill\<lparr>se_ID := 3, se_Name := ''Power Strike'', se_Class := SkillInstant, se_Target := TargetEnemy,
     se_ManaCost := 10, RequiredLevel := 1, se_Range := 5, DamageMult := 3 / 2\<rparr>"

definition GlobalSkillGraph :: SkillGraph where
  "GlobalSkillGraph = snd (RegisterSkill power_strike_entry (snd (RegisterSkill thunderclap_entry
     (snd (RegisterSkill fireball_entry NewSkillGraph)))))"

text \<open>The graph is nil until the registry is initialised.\<close>

definition SkillGraphGetPrereqs :: "SkillGraph option \<Rightarrow> u64 \<Rightarrow> i32 list" where
  "SkillGraphGetPrereqs global skillID = (case global of None \<Rightarrow> [] | Some sg \<Rightarrow> GetPrerequisiteChain sg (ucast skillID))"

definition SkillGraphCanLearn :: "SkillGraph option \<Rightarrow> u64 \<Rightarrow> i32 list \<Rightarrow> i32 \<Rightarrow> skill_error + bool" where
  "SkillGraphCanLearn global skillID knownSkills playerLevel = (case global of
     None \<Rightarrow> Inl ErrSkillNotFound | Some sg \<Rightarrow> CanLearn sg (ucast skillID) knownSkills playerLevel)"

subsection \<open>Registration\<close>

lemma link_parent_dom [simp]: "dom (link_parent c p sg) = dom sg"
  by (auto simp: link_parent_def split: option.splits)

lemma link_parents_dom [simp]: "dom (fold (link_parent c) ps sg) = dom sg"
  by (induction ps arbitrary: sg) simp_all

lemma link_parents_entry:
  "map_option Prerequisites (fold (link_parent c) ps sg k) = map_option Prerequisites (sg k)"
  by (induction ps arbitrary: sg) (auto simp: link_parent_def split: option.splits)

text \<open>A child is linked once for each time a parent that is already registered occurs among its prerequisites.\<close>

lemma link_parents_children:
  "map_option Children (fold (link_parent c) ps sg k) =
   map_option (\<lambda>s. Children s @ replicate (count_list ps k) c) (sg k)"
proof (induction ps arbitrary: sg)
  case Nil
  then show ?case by (simp add: option.map_id)
next
  case (Cons p ps)
  have "map_option (\<lambda>s. Children s @ replicate (count_list ps k) c) (link_parent c p sg k) =
    map_option (\<lambda>s. Children s @ replicate (count_list (p # ps) k) c) (sg k)"
    by (auto simp: link_parent_def replicate_append_same split: option.splits)
  with Cons show ?case by simp
qed

lemma global_chains:
  "GetPrerequisiteChain GlobalSkillGraph 2 = [3, 1, 2]"
  "map_option Children (GlobalSkillGraph 3) = Some []" "map_option Children (GlobalSkillGraph 1) = Some [2]"
  by (simp_all add: GetPrerequisiteChain_def GlobalSkillGraph_def RegisterSkill_def link_parent_def NewSkillGraph_def
      fireball_entry_def thunderclap_entry_def power_strike_entry_def blank_skill_def collectPrereqs.simps)

subsection \<open>The walk\<close>

definition requires :: "SkillGraph \<Rightarrow> (i32 \<times> i32) set" where
  "requires sg = {(x, y). \<exists>s. sg x = Some s \<and> y \<in> set (Prerequisites s) \<and> y \<in> dom sg}"

definition before :: "'a list \<Rightarrow> 'a \<Rightarrow> 'a \<Rightarrow> bool" where
  "before xs y x \<longleftrightarrow> (\<exists>us vs. xs = us @ x # vs \<and> y \<in> set us)"

lemma before_append: "before xs y x \<Longrightarrow> before (xs @ zs) y x" "before zs y x \<Longrightarrow> before (xs @ zs) y x"
proof -
  show "before xs y x \<Longrightarrow> before (xs @ zs) y x" unfolding before_def by force
  assume "before zs y x"
  then obtain us vs where "xs @ zs = (xs @ us) @ x # vs \<and> y \<in> set (xs @ us)" unfolding before_def by auto
  then show "before (xs @ zs) y x" unfolding before_def by blast
qed

lemma before_across: "y \<in> set xs \<Longrightarrow> x \<in> set zs \<Longrightarrow> before (xs @ zs) y x"
  unfolding before_def by (metis append.assoc in_set_conv_decomp_first Un_iff set_append)

text \<open>
  What a walk from some roots adds: new skills, each once, registered and reachable from a root, all their
  registered prerequisites visited afterwards, and each prerequisite visited before the walk, or listed earlier,
  or on a cycle with its skill.
\<close>

definition walked :: "SkillGraph \<Rightarrow> i32 set \<Rightarrow> i32 set \<times> i32 list \<Rightarrow> i32 set \<times> i32 list \<Rightarrow> bool" where
  "walked sg roots acc acc' \<longleftrightarrow> (\<exists>new. snd acc' = snd acc @ new \<and> distinct new \<and> fst acc' = fst acc \<union> set new
     \<and> fst acc \<inter> set new = {} \<and> roots \<inter> dom sg \<subseteq> fst acc'
     \<and> (\<forall>x \<in> set new. x \<in> dom sg \<and> (\<exists>k \<in> roots. (k, x) \<in> (requires sg)\<^sup>*))
     \<and> (\<forall>x \<in> set new. \<forall>y. (x, y) \<in> requires sg \<longrightarrow>
          y \<in> fst acc' \<and> (y \<in> fst acc \<or> before new y x \<or> (y, x) \<in> (requires sg)\<^sup>*)))"

lemma walked_nothing: "roots \<inter> dom sg \<subseteq> fst acc \<Longrightarrow> walked sg roots acc acc"
  unfolding walked_def by (rule exI [of _ "[]"]) simp

lemma walked_append:
  assumes "walked sg A acc acc1" and "walked sg B acc1 acc2"
  shows "walked sg (A \<union> B) acc acc2"
proof -
  from assms(1) obtain n1 where 1: "snd acc1 = snd acc @ n1" "distinct n1" "fst acc1 = fst acc \<union> set n1"
    "fst acc \<inter> set n1 = {}" "A \<inter> dom sg \<subseteq> fst acc1"
    "\<And>x. x \<in> set n1 \<Longrightarrow> x \<in> dom sg \<and> (\<exists>k \<in> A. (k, x) \<in> (requires sg)\<^sup>*)"
    "\<And>x y. x \<in> set n1 \<Longrightarrow> (x, y) \<in> requires sg \<Longrightarrow> y \<in> fst acc1 \<and> (y \<in> fst acc \<or> before n1 y x \<or> (y, x) \<in> (requires sg)\<^sup>*)"
    unfolding walked_def by blast
  from assms(2) obtain n2 where 2: "snd acc2 = snd acc1 @ n2" "distinct n2" "fst acc2 = fst acc1 \<union> set n2"
    "fst acc1 \<inter> set n2 = {}" "B \<inter> dom sg \<subseteq> fst acc2"
    "\<And>x. x \<in> set n2 \<Longrightarrow> x \<in> dom sg \<and> (\<exists>k \<in> B. (k, x) \<in> (requires sg)\<^sup>*)"
    "\<And>x y. x \<in> set n2 \<Longrightarrow> (x, y) \<in> requires sg \<Longrightarrow> y \<in> fst acc2 \<and> (y \<in> fst acc1 \<or> before n2 y x \<or> (y, x) \<in> (requires sg)\<^sup>*)"
    unfolding walked_def by blast
  have order: "y \<in> fst acc2 \<and> (y \<in> fst acc \<or> before (n1 @ n2) y x \<or> (y, x) \<in> (requires sg)\<^sup>*)"
    if x: "x \<in> set (n1 @ n2)" and e: "(x, y) \<in> requires sg" for x y
  proof (cases "x \<in> set n1")
    case True
    from 1(7) [OF True e] show ?thesis using 2(3) before_append(1) [of n1 y x n2] by auto
  next
    case False
    with x have x2: "x \<in> set n2" by simp
    show ?thesis using 2(7) [OF x2 e] 1(3) before_append(2) [of n2 y x n1] before_across [OF _ x2, of y n1] by auto
  qed
  show ?thesis
    unfolding walked_def
  proof (intro exI [of _ "n1 @ n2"] conjI ballI allI impI)
    show "distinct (n1 @ n2)" using 1(2,3) 2(2,4) by auto
    show "(A \<union> B) \<inter> dom sg \<subseteq> fst acc2" using 1(5) 2(3,5) by auto
    show "x \<in> dom sg" "\<exists>k \<in> A \<union> B. (k, x) \<in> (requires sg)\<^sup>*" if "x \<in> set (n1 @ n2)" for x
      using that 1(6) [of x] 2(6) [of x] by auto
    show "snd acc2 = snd acc @ n1 @ n2" "fst acc2 = fst acc \<union> set (n1 @ n2)" "fst acc \<inter> set (n1 @ n2) = {}"
      using 1(1,3,4) 2(1,3,4) by auto
  qed (use order in blast)+
qed

lemma walked_node:
  assumes "k \<notin> visited" and s: "sg k = Some skill"
    and "walked sg (set (Prerequisites skill)) (insert k visited, result) (visited', result')"
  shows "walked sg {k} (visited, result) (visited', result' @ [k])"
proof -
  from assms(3) obtain n where n: "result' = result @ n" "distinct n" "visited' = insert k visited \<union> set n"
    "insert k visited \<inter> set n = {}" "set (Prerequisites skill) \<inter> dom sg \<subseteq> visited'"
    "\<And>x. x \<in> set n \<Longrightarrow> x \<in> dom sg \<and> (\<exists>p \<in> set (Prerequisites skill). (p, x) \<in> (requires sg)\<^sup>*)"
    "\<And>x y. x \<in> set n \<Longrightarrow> (x, y) \<in> requires sg \<Longrightarrow> y \<in> visited' \<and> (y \<in> insert k visited \<or> before n y x \<or> (y, x) \<in> (requires sg)\<^sup>*)"
    unfolding walked_def by auto
  have reach: "(k, x) \<in> (requires sg)\<^sup>*" if x: "x \<in> set n" for x
  proof -
    from n(6) [OF x] obtain p where p: "p \<in> set (Prerequisites skill)" "(p, x) \<in> (requires sg)\<^sup>*" by blast
    from p(2) n(6) [OF x] have "p \<in> dom sg"
      by (cases rule: converse_rtranclE) (auto simp: requires_def)
    with s p(1) have "(k, p) \<in> requires sg" by (auto simp: requires_def)
    then show ?thesis using p(2) by (rule converse_rtrancl_into_rtrancl)
  qed
  have order: "y \<in> visited' \<and> (y \<in> visited \<or> before (n @ [k]) y x \<or> (y, x) \<in> (requires sg)\<^sup>*)"
    if x: "x \<in> set (n @ [k])" and e: "(x, y) \<in> requires sg" for x y
  proof (cases "x = k")
    case True
    with e s n(5) have "y \<in> visited'" by (auto simp: requires_def)
    with n(3) True before_across [of y n k "[k]"] show ?thesis by auto
  next
    case False
    with x have "x \<in> set n" by simp
    from n(7) [OF this e] show ?thesis using reach [OF \<open>x \<in> set n\<close>] before_append(1) [of n y x "[k]"] by auto
  qed
  show ?thesis
    unfolding walked_def
  proof (intro exI [of _ "n @ [k]"] conjI ballI allI impI)
    show "distinct (n @ [k])" using n(2,4) by auto
    show "x \<in> dom sg" "\<exists>k' \<in> {k}. (k', x) \<in> (requires sg)\<^sup>*" if "x \<in> set (n @ [k])" for x
      using that s n(6) [of x] reach [of x] by auto
  qed (use assms(1) s n(1,3,4) order in auto)
qed

lemma collect_walked:
  "walked sg {k} acc (collectPrereqs sg k acc)"
  "walked sg (set ks) acc (collect_all sg ks acc)"
proof (induction sg k acc and sg ks acc rule: collectPrereqs_collect_all.induct)
  case (1 sg k visited result)
  show ?case
  proof (cases "k \<in> visited \<or> sg k = None")
    case True
    then show ?thesis by (auto simp: collectPrereqs.simps dom_def intro: walked_nothing split: option.splits)
  next
    case False
    then obtain skill where s: "sg k = Some skill" and k: "k \<notin> visited" by auto
    obtain v' r' where w: "collect_all sg (Prerequisites skill) (insert k visited, result) = (v', r')" by fastforce
    have "walked sg {k} (visited, result) (v', r' @ [k])" using 1 [OF k s] w by (intro walked_node [where sg = sg and skill = skill] k s) simp
    with k s w show ?thesis by (simp add: collectPrereqs.simps)
  qed
next
  case (2 sg acc)
  then show ?case by (simp add: walked_nothing)
next
  case (3 sg p ps acc)
  then show ?case using walked_append [of sg "{p}"] by simp
qed

subsection \<open>The chain\<close>

lemma chain_walked: "walked sg {k} ({}, []) (collectPrereqs sg k ({}, []))" by (rule collect_walked)

lemma chain_closed:
  assumes w: "walked sg {k} ({}, []) (visited, res)" and k: "k \<in> dom sg" and r: "(k, x) \<in> (requires sg)\<^sup>*"
  shows "x \<in> set res"
  using r
proof (induction rule: rtrancl_induct)
  case base
  with w k show ?case unfolding walked_def by auto
next
  case (step x y)
  with w show ?case unfolding walked_def by auto
qed

text \<open>
  The chain of a registered skill lists it and everything it requires, directly or not, each once; without a cycle
  every skill comes after its prerequisites. An unregistered skill has the empty chain.
\<close>

lemma chain_spec:
  assumes "k \<in> dom sg"
  shows "distinct (GetPrerequisiteChain sg k)"
    and "set (GetPrerequisiteChain sg k) = {x. (k, x) \<in> (requires sg)\<^sup>*}"
    and "acyclic (requires sg) \<Longrightarrow> x \<in> set (GetPrerequisiteChain sg k) \<Longrightarrow> (x, y) \<in> requires sg \<Longrightarrow>
      before (GetPrerequisiteChain sg k) y x"
proof -
  obtain v res where w: "collectPrereqs sg k ({}, []) = (v, res)" by fastforce
  then have wk: "walked sg {k} ({}, []) (v, res)" and c: "GetPrerequisiteChain sg k = res"
    using chain_walked [of sg k] by (simp_all add: GetPrerequisiteChain_def)
  show "distinct (GetPrerequisiteChain sg k)" using wk c by (auto simp: walked_def)
  show "set (GetPrerequisiteChain sg k) = {x. (k, x) \<in> (requires sg)\<^sup>*}"
    using chain_closed [OF wk assms] wk c by (auto simp: walked_def)
  show "before (GetPrerequisiteChain sg k) y x"
    if "acyclic (requires sg)" "x \<in> set (GetPrerequisiteChain sg k)" "(x, y) \<in> requires sg"
  proof -
    have "(y, x) \<notin> (requires sg)\<^sup>*" using that(1,3) by (meson acyclic_def rtrancl_into_trancl2)
    with wk c that(2,3) show ?thesis by (auto simp: walked_def)
  qed
qed

lemma prereqs_met_iff: "prereqs_met known ps \<longleftrightarrow> set ps \<subseteq> known" by (induction ps) auto

text \<open>
  The chain is a learning order: in an acyclic graph whose prerequisites are all registered, a player of
  sufficient level who has learnt the skills of the chain before some skill may learn that one.
\<close>

lemma chain_is_learnable:
  assumes "acyclic (requires sg)" and "\<And>x s. sg x = Some s \<Longrightarrow> set (Prerequisites s) \<subseteq> dom sg"
    and "GetPrerequisiteChain sg k = learnt @ x # rest" and "sg x = Some s" and "sint (RequiredLevel s) \<le> sint level"
  shows "CanLearn sg x learnt level = Inr True \<and> distinct (GetPrerequisiteChain sg k) \<and>
    set (GetPrerequisiteChain sg k) = {y. (k, y) \<in> (requires sg)\<^sup>*}"
proof -
  let ?c = "GetPrerequisiteChain sg k"
  have k: "k \<in> dom sg"
  proof (rule ccontr)
    assume "k \<notin> dom sg"
    then have "?c = []" by (simp add: GetPrerequisiteChain_def collectPrereqs.simps domIff)
    with assms(3) show False by simp
  qed
  have "y \<in> set learnt" if "y \<in> set (Prerequisites s)" for y
  proof -
    have "(x, y) \<in> requires sg" using that assms(2) [OF assms(4)] assms(4) by (auto simp: requires_def)
    then have "before ?c y x" using chain_spec(3) [OF k assms(1), of x y] assms(3) by simp
    then obtain us vs where u: "?c = us @ x # vs" "y \<in> set us" unfolding before_def by blast
    have "distinct (learnt @ x # rest)" using chain_spec(1) [OF k] assms(3) by simp
    with u assms(3) have "us = learnt" by (metis append_Cons_eq_iff distinct.simps(2) distinct_append not_distinct_conv_prefix)
    with u(2) show ?thesis by simp
  qed
  then have "set (Prerequisites s) \<subseteq> set learnt" by blast
  with assms(4,5) chain_spec(1,2) [OF k] show ?thesis by (simp add: CanLearn_def prereqs_met_iff)
qed

lemma global_graph:
  "GlobalSkillGraph = [1 \<mapsto> fireball_entry\<lparr>Children := [2]\<rparr>, 2 \<mapsto> thunderclap_entry, 3 \<mapsto> power_strike_entry]"
  by (auto simp: GlobalSkillGraph_def RegisterSkill_def link_parent_def NewSkillGraph_def fireball_entry_def
      thunderclap_entry_def power_strike_entry_def blank_skill_def)

lemma global_requires: "requires GlobalSkillGraph = {(2, 1), (1, 3)}"
  by (auto simp: requires_def global_graph fireball_entry_def thunderclap_entry_def power_strike_entry_def blank_skill_def
      split: if_splits)

lemma global_acyclic: "acyclic (requires GlobalSkillGraph)"
  by (rule acyclicI_order [where f = "\<lambda>x. if x = 2 then 2 else if x = 1 then 1 else (0 :: nat)"])
     (auto simp: global_requires)

lemma chain_is_learnable_witness:
  "CanLearn GlobalSkillGraph 1 [3] 5 = Inr True \<and> distinct (GetPrerequisiteChain GlobalSkillGraph 2) \<and>
   set (GetPrerequisiteChain GlobalSkillGraph 2) = {y. (2, y) \<in> (requires GlobalSkillGraph)\<^sup>*}"
proof (rule chain_is_learnable [OF global_acyclic])
  show "GetPrerequisiteChain GlobalSkillGraph 2 = [3] @ 1 # [2]" by (simp add: global_chains)
  show "GlobalSkillGraph 1 = Some (fireball_entry\<lparr>Children := [2]\<rparr>)" by (simp add: global_graph)
qed (auto simp: global_graph fireball_entry_def thunderclap_entry_def power_strike_entry_def blank_skill_def split: if_splits)

end
