(* ===== verification/Circuitbreaker.thy ===== *)
theory Circuitbreaker
  imports Prelude
begin

text \<open>
  \<open>server/peakgo/circuitbreaker/circuitbreaker.go\<close>: the circuit breaker and its write-ahead log. An operation is a
  function of an abstract world, which is what the closure of the code can read and change; the clock and the
  sleep are functions of that world too. An error is a message, \<open>None\<close> its absence. Durations and times are
  nanoseconds, unbounded: the doubling of the backoff stays in 64 bits for the retry counts in use.
\<close>

subsection \<open>Data\<close>

datatype State = StateClosed | StateOpen | StateHalfOpen

record 'w Op =
  op_Label :: string
  Run :: "'w \<Rightarrow> string option \<times> 'w"

record CBConfig =
  FailureThreshold :: int
  SuccessThreshold :: int
  cb_Timeout :: int
  MaxRetries :: nat
  BaseBackoff :: int
  MaxBackoff :: int

definition DefaultCBConfig :: CBConfig where
  "DefaultCBConfig = \<lparr>FailureThreshold = 5, SuccessThreshold = 2, cb_Timeout = 30000000000, MaxRetries = 3,
     BaseBackoff = 100000000, MaxBackoff = 5000000000\<rparr>"

text \<open>The log: the buffered operations and the lines of the file, which may refuse writes.\<close>

record 'w WAL =
  wal_ops :: "'w Op list"
  wal_lines :: "string list"
  wal_broken :: bool

definition NewWAL :: "'w WAL" where
  "NewWAL = \<lparr>wal_ops = [], wal_lines = [], wal_broken = False\<rparr>"

definition wal_Append :: "'w Op \<Rightarrow> 'w WAL \<Rightarrow> string option \<times> 'w WAL" where
  "wal_Append q w =
     (let w1 = w\<lparr>wal_ops := wal_ops w @ [q]\<rparr>
      in if wal_broken w1 then (Some ''write error'', w1) else (None, w1\<lparr>wal_lines := wal_lines w1 @ [op_Label q]\<rparr>))"

text \<open>The loop of a replay, over any state that the replayed operations work on.\<close>

fun replay_loop :: "('w Op \<Rightarrow> 's \<Rightarrow> string option \<times> 's) \<Rightarrow> 'w Op list \<Rightarrow> 's \<Rightarrow> string option \<times> 's" where
  "replay_loop fn [] s = (None, s)"
| "replay_loop fn (q # qs) s = (case fn q s of (Some err, s1) \<Rightarrow> (Some err, s1) | (None, s1) \<Rightarrow> replay_loop fn qs s1)"

text \<open>The log is part of the state, because others may append to it while the operations run.\<close>

definition wal_Replay :: "('w Op \<Rightarrow> 'w WAL \<times> 's \<Rightarrow> string option \<times> 'w WAL \<times> 's) \<Rightarrow> 'w WAL \<times> 's \<Rightarrow> string option \<times> 'w WAL \<times> 's" where
  "wal_Replay fn ws = (case replay_loop fn (wal_ops (fst ws)) ws of
     (Some err, ws1) \<Rightarrow> (Some err, ws1)
   | (None, w1, s1) \<Rightarrow> (None, w1\<lparr>wal_ops := [], wal_lines := []\<rparr>, s1))"

record 'w CircuitBreaker =
  cb_state :: State
  failures :: int
  successes :: int
  lastFailureTime :: int
  cb_cfg :: CBConfig
  cb_wal :: "'w WAL option"

definition NewCircuitBreaker :: "CBConfig \<Rightarrow> bool \<Rightarrow> 'w CircuitBreaker" where
  "NewCircuitBreaker cfg walPath = \<lparr>cb_state = StateClosed, failures = 0, successes = 0, lastFailureTime = 0, cb_cfg = cfg,
     cb_wal = (if walPath then Some NewWAL else None)\<rparr>"

subsection \<open>Operations\<close>

definition cb_ready :: "int \<Rightarrow> 'w CircuitBreaker \<Rightarrow> bool \<times> 'w CircuitBreaker" where
  "cb_ready now cb = (case cb_state cb of
     StateClosed \<Rightarrow> (True, cb)
   | StateOpen \<Rightarrow> if now - lastFailureTime cb > cb_Timeout (cb_cfg cb) then (True, cb\<lparr>cb_state := StateHalfOpen\<rparr>) else (False, cb)
   | StateHalfOpen \<Rightarrow> (True, cb))"

definition recordFailure :: "int \<Rightarrow> 'w CircuitBreaker \<Rightarrow> 'w CircuitBreaker" where
  "recordFailure now cb =
     (let cb1 = cb\<lparr>failures := failures cb + 1, lastFailureTime := now\<rparr>
      in case cb_state cb1 of
           StateClosed \<Rightarrow> if failures cb1 \<ge> FailureThreshold (cb_cfg cb1) then cb1\<lparr>cb_state := StateOpen\<rparr> else cb1
         | StateHalfOpen \<Rightarrow> cb1\<lparr>cb_state := StateOpen, failures := 1\<rparr>
         | StateOpen \<Rightarrow> cb1)"

definition recordSuccess :: "'w CircuitBreaker \<Rightarrow> 'w CircuitBreaker" where
  "recordSuccess cb =
     (let cb1 = cb\<lparr>successes := successes cb + 1, failures := 0\<rparr>
      in case cb_state cb1 of
           StateHalfOpen \<Rightarrow> if successes cb1 \<ge> SuccessThreshold (cb_cfg cb1) then cb1\<lparr>cb_state := StateClosed, successes := 0\<rparr> else cb1
         | _ \<Rightarrow> cb1)"

definition cb_fallback :: "'w Op \<Rightarrow> 'w CircuitBreaker \<Rightarrow> string option \<times> 'w CircuitBreaker" where
  "cb_fallback q cb = (case cb_wal cb of
     None \<Rightarrow> (Some (''circuitbreaker: no WAL configured, dropping operation: '' @ op_Label q), cb)
   | Some w \<Rightarrow> (case wal_Append q w of (err, w1) \<Rightarrow> (err, cb\<lparr>cb_wal := Some w1\<rparr>)))"

definition backoff :: "CBConfig \<Rightarrow> nat \<Rightarrow> int" where
  "backoff cfg attempt = (let b = BaseBackoff cfg * 2 ^ (attempt - 2) in if b > MaxBackoff cfg then MaxBackoff cfg else b)"

text \<open>
  The retry loop from attempt \<open>n\<close> on, with \<open>k\<close> attempts left: \<open>None\<close> after a success, the last error otherwise.
\<close>

fun attempts :: "('w \<Rightarrow> int) \<Rightarrow> (int \<Rightarrow> 'w \<Rightarrow> 'w) \<Rightarrow> 'w Op \<Rightarrow> nat \<Rightarrow> nat \<Rightarrow> string option \<Rightarrow> 'w CircuitBreaker \<times> 'w \<Rightarrow>
    (bool \<times> string option) \<times> 'w CircuitBreaker \<times> 'w" where
  "attempts clock sleep q 0 n lastErr s = ((False, lastErr), s)"
| "attempts clock sleep q (Suc k) n lastErr (cb, w) =
     (let w1 = (if n > 1 then sleep (backoff (cb_cfg cb) n) w else w)
      in case Run q w1 of
           (Some err, w2) \<Rightarrow> attempts clock sleep q k (Suc n) (Some err) (recordFailure (clock w2) cb, w2)
         | (None, w2) \<Rightarrow> ((True, lastErr), recordSuccess cb, w2))"

definition cb_Execute :: "('w \<Rightarrow> int) \<Rightarrow> (int \<Rightarrow> 'w \<Rightarrow> 'w) \<Rightarrow> 'w Op \<Rightarrow> 'w CircuitBreaker \<times> 'w \<Rightarrow> string option \<times> 'w CircuitBreaker \<times> 'w" where
  "cb_Execute clock sleep q s = (case s of (cb, w) \<Rightarrow>
     (case cb_ready (clock w) cb of
        (False, cb1) \<Rightarrow> (case cb_fallback q cb1 of (err, cb2) \<Rightarrow> (err, cb2, w))
      | (True, cb1) \<Rightarrow> (case attempts clock sleep q (MaxRetries (cb_cfg cb1)) 1 None (cb1, w) of
          ((True, _), cb2, w2) \<Rightarrow> (None, cb2, w2)
        | ((False, lastErr), cb2, w2) \<Rightarrow> (case cb_fallback q cb2 of
            (Some _, cb3) \<Rightarrow> (Some (''circuitbreaker: operation failed and WAL fallback also failed: ''
                @ (case lastErr of None \<Rightarrow> ''%!w(<nil>)'' | Some e \<Rightarrow> e)), cb3, w2)
          | (None, cb3) \<Rightarrow> (lastErr, cb3, w2)))))"

definition ReplayWAL :: "'w CircuitBreaker \<times> 'w \<Rightarrow> string option \<times> 'w CircuitBreaker \<times> 'w" where
  "ReplayWAL s = (case s of (cb, w) \<Rightarrow>
     (case cb_wal cb of
        None \<Rightarrow> (None, cb, w)
      | Some l \<Rightarrow> (case wal_Replay (\<lambda>q (l, w). case Run q w of (err, w1) \<Rightarrow> (err, l, w1)) (l, w) of
          (err, l1, w1) \<Rightarrow> (err, cb\<lparr>cb_wal := Some l1\<rparr>, w1))))"

subsection \<open>The state machine\<close>

text \<open>What happens to the state of a breaker: its own steps in any order, at any times.\<close>

datatype cb_event = Ask int | Fail int | Succeed

definition cb_apply :: "cb_event \<Rightarrow> 'w CircuitBreaker \<Rightarrow> 'w CircuitBreaker" where
  "cb_apply ev cb = (case ev of Ask now \<Rightarrow> snd (cb_ready now cb) | Fail now \<Rightarrow> recordFailure now cb | Succeed \<Rightarrow> recordSuccess cb)"

inductive cb_reach :: "CBConfig \<Rightarrow> 'w CircuitBreaker \<Rightarrow> bool" for cfg :: CBConfig where
  new: "cb_reach cfg (NewCircuitBreaker cfg b)"
| step: "cb_reach cfg cb \<Longrightarrow> cb_reach cfg (cb_apply ev cb)"

text \<open>A closed circuit has fewer failures in a row than the threshold; the counters are never negative.\<close>

lemma cb_invariant:
  assumes "cb_reach cfg cb" and "0 < FailureThreshold cfg"
  shows "cb_cfg cb = cfg \<and> 0 \<le> failures cb \<and> 0 \<le> successes cb \<and> (cb_state cb = StateClosed \<longrightarrow> failures cb < FailureThreshold cfg)"
  using assms
proof (induction rule: cb_reach.induct)
  case (step cb ev)
  then show ?case
    by (cases ev; cases "cb_state cb") (auto simp: cb_apply_def cb_ready_def recordFailure_def recordSuccess_def Let_def)
qed (simp add: NewCircuitBreaker_def)

text \<open>The legal transitions, each with its cause.\<close>

lemma cb_transitions:
  "cb_state (cb_apply ev cb) \<noteq> cb_state cb \<Longrightarrow>
     (cb_state cb, cb_state (cb_apply ev cb)) \<in>
       {(StateClosed, StateOpen), (StateOpen, StateHalfOpen), (StateHalfOpen, StateOpen), (StateHalfOpen, StateClosed)} \<and>
     (cb_state cb = StateOpen \<longrightarrow> (\<exists>now. ev = Ask now \<and> lastFailureTime cb + cb_Timeout (cb_cfg cb) < now)) \<and>
     (cb_state (cb_apply ev cb) = StateOpen \<longrightarrow> (\<exists>now. ev = Fail now)) \<and>
     (cb_state (cb_apply ev cb) = StateClosed \<longrightarrow> ev = Succeed)"
  by (cases ev; cases "cb_state cb") (auto simp: cb_apply_def cb_ready_def recordFailure_def recordSuccess_def Let_def split: if_splits)

text \<open>
  Successes are counted from the start and only reset when the circuit closes, so earlier successes count
  towards the threshold: with a threshold of 2, a single success closes a half-open circuit.
\<close>

lemma one_success_closes:
  "cb_state (foldl (\<lambda>cb ev. cb_apply ev cb) (NewCircuitBreaker DefaultCBConfig False)
     [Succeed, Succeed, Fail 1, Fail 2, Fail 3, Fail 4, Fail 5, Ask 31000000000, Succeed]) = StateClosed"
  by (simp add: NewCircuitBreaker_def DefaultCBConfig_def cb_apply_def cb_ready_def recordFailure_def recordSuccess_def)

subsection \<open>Execution\<close>

text \<open>Attempts are bounded, and their number is what the configuration says when all fail.\<close>

lemma attempts_fail:
  assumes "\<And>w. \<exists>w'. Run q w = (Some e, w')"
  shows "\<exists>cb' w'. attempts clock sleep q k n lastErr (cb, w) = ((False, if k = 0 then lastErr else Some e), cb', w') \<and>
    cb_wal cb' = cb_wal cb"
proof (induction k arbitrary: n lastErr cb w)
  case (Suc k)
  let ?w1 = "if n > 1 then sleep (backoff (cb_cfg cb) n) w else w"
  obtain w' where r: "Run q ?w1 = (Some e, w')" using assms by blast
  have "cb_wal (recordFailure t cb) = cb_wal cb" for t
    by (auto simp: recordFailure_def Let_def split: State.split)
  with Suc [of "Suc n" "Some e" "recordFailure (clock w') cb" w'] r show ?case by (simp add: Let_def)
qed simp

text \<open>An operation that always fails ends in the log, and its last error is reported.\<close>

lemma failed_is_logged:
  assumes "\<And>w. \<exists>w'. Run q w = (Some e, w')" and "cb_wal cb = Some l" and "\<not> wal_broken l" and "0 < MaxRetries (cb_cfg cb)"
  shows "\<exists>err cb' w' l'. cb_Execute clock sleep q (cb, w) = (err, cb', w') \<and> cb_wal cb' = Some l' \<and> wal_ops l' = wal_ops l @ [q] \<and>
    (err = Some e \<or> err = None \<and> cb_state cb = StateOpen)"
proof (cases "cb_ready (clock w) cb")
  case (Pair b cb1)
  have cb1: "cb_wal cb1 = Some l" "cb_cfg cb1 = cb_cfg cb" "\<not> b \<longrightarrow> cb_state cb = StateOpen"
    using Pair assms(2) by (auto simp: cb_ready_def split: State.splits if_splits)
  show ?thesis
  proof (cases b)
    case True
    obtain cb2 w2 where "attempts clock sleep q (MaxRetries (cb_cfg cb)) 1 None (cb1, w) = ((False, Some e), cb2, w2)" "cb_wal cb2 = Some l"
      using attempts_fail [OF assms(1), where k = "MaxRetries (cb_cfg cb)" and n = 1 and lastErr = None and cb = cb1 and w = w and clock = clock and sleep = sleep]
        assms(4) cb1(1) by auto
    with True Pair assms(3) cb1 show ?thesis by (simp add: cb_Execute_def cb_fallback_def wal_Append_def Let_def)
  next
    case False
    with Pair assms(3) cb1 show ?thesis by (simp add: cb_Execute_def cb_fallback_def wal_Append_def Let_def)
  qed
qed

text \<open>
  A replay that fails part way keeps the whole log: the operations that had succeeded run again at the next
  replay.
\<close>

lemma replay_repeats:
  assumes "replay_loop (\<lambda>q (l, w). case Run q w of (err, w1) \<Rightarrow> (err, l, w1)) (wal_ops l) (l, w) = (Some err, l1, w1)"
    and "cb_wal cb = Some l"
  shows "\<exists>cb'. ReplayWAL (cb, w) = (Some err, cb', w1) \<and> cb_wal cb' = Some l"
proof -
  have "snd (replay_loop (\<lambda>q (l, w). case Run q w of (err, w1) \<Rightarrow> (err, l, w1)) qs (l, w)) = (l, snd (snd (replay_loop
      (\<lambda>q (l, w). case Run q w of (err, w1) \<Rightarrow> (err, l, w1)) qs (l, w))))" for qs w
    by (induction qs arbitrary: w) (auto split: prod.split option.split)
  then have "l1 = l" using assms(1) by (metis fst_conv snd_conv)
  with assms show ?thesis by (simp add: ReplayWAL_def wal_Replay_def)
qed

text \<open>An operation appended while a replay runs is lost: the log is cleared afterwards.\<close>

lemma replay_loses_appended:
  assumes "\<And>p l s. \<exists>s'. fn p (l, s) = (None, snd (wal_Append q l), s')"
  shows "\<exists>l' s'. wal_Replay fn (l, s) = (None, l', s') \<and> wal_ops l' = []"
proof -
  have "\<exists>l' s'. replay_loop fn qs (l, s) = (None, l', s')" for qs l s
  proof (induction qs arbitrary: l s)
    case (Cons p qs)
    obtain s' where "fn p (l, s) = (None, snd (wal_Append q l), s')" using assms by blast
    with Cons [of "snd (wal_Append q l)" s'] show ?case by simp
  qed simp
  then obtain l' s' where "replay_loop fn (wal_ops l) (l, s) = (None, l', s')" by blast
  then show ?thesis by (simp add: wal_Replay_def)
qed

end
