(* ===== verification/World_Maps.thy ===== *)
theory World_Maps
  imports Items
begin

text \<open>
  \<open>server/world\<close>: the workers of the maps, their areas of interest, the transfer of entities between maps
  (\<open>partition.go\<close>, \<open>worker.go\<close>, \<open>spatial_bridge.go\<close>, \<open>region.go\<close>) and the warp of a player (\<open>gateway.go\<close>). \<open>w_game\<close> holds
  the default registry, the global grid, the recycled identifiers and what was sent. A worker's tick makes the default
  registry an alias of the worker's own registry, which \<open>w_default\<close> records; \<open>game_view\<close> and \<open>set_game\<close> read and
  write through it. Channels are lists of bounded length; a send on the full transfer channel waits (\<open>None\<close>), a
  tick for a busy map is dropped. The loops of the worker goroutines and of the orchestrator take one element.
\<close>

subsection \<open>State\<close>

record TransferRequest =
  tr_EntityID :: entity
  tr_FromMap :: int
  tr_ToMap :: int

record World =
  w_workers :: "int \<rightharpoonup> MapWorker"
  w_nextID :: u64
  w_transferChan :: "TransferRequest list"
  w_default :: "int option"
  w_game :: Game

definition default_registry :: "World \<Rightarrow> Registry" where
  "default_registry w = (case w_default w of
     None \<Rightarrow> g_reg (w_game w)
   | Some m \<Rightarrow> (case w_workers w m of None \<Rightarrow> g_reg (w_game w) | Some mw \<Rightarrow> mw_Registry mw))"

definition game_view :: "World \<Rightarrow> Game" where
  "game_view w = (w_game w)\<lparr>g_reg := default_registry w\<rparr>"

definition put_worker :: "int \<Rightarrow> MapWorker \<Rightarrow> World \<Rightarrow> World" where
  "put_worker m mw w = w\<lparr>w_workers := (w_workers w)(m \<mapsto> mw)\<rparr>"

definition set_game :: "Game \<Rightarrow> World \<Rightarrow> World" where
  "set_game g w = (case w_default w of
     None \<Rightarrow> w\<lparr>w_game := g\<rparr>
   | Some m \<Rightarrow> (case w_workers w m of
       None \<Rightarrow> w\<lparr>w_game := g\<rparr>
     | Some mw \<Rightarrow> put_worker m (mw\<lparr>mw_Registry := g_reg g\<rparr>) (w\<lparr>w_game := g\<lparr>g_reg := g_reg (w_game w)\<rparr>\<rparr>)))"

definition InitWorld :: "Game \<Rightarrow> World" where
  "InitWorld g = \<lparr>w_workers = Map.empty, w_nextID = 0, w_transferChan = [], w_default = None, w_game = g\<rparr>"

subsection \<open>Identifiers and maps\<close>

definition World_AllocateEntityID :: "World \<Rightarrow> entity \<times> World" where
  "World_AllocateEntityID w = (case AllocateEntityID \<lparr>nextID = w_nextID w, recycled = g_free (w_game w)\<rparr> of
     (e, s) \<Rightarrow> (e, w\<lparr>w_nextID := nextID s, w_game := (w_game w)\<lparr>g_free := recycled s\<rparr>\<rparr>))"

definition StartMap :: "int \<Rightarrow> World \<Rightarrow> World" where
  "StartMap m w = (if w_workers w m \<noteq> None then w else put_worker m (NewMapWorker m) w)"

text \<open>A stopped worker loses its registry; when that is the default registry, it lives on under that name.\<close>

definition StopMap :: "int \<Rightarrow> World \<Rightarrow> World" where
  "StopMap m w = (if w_default w = Some m
     then w\<lparr>w_workers := (w_workers w)(m := None), w_default := None, w_game := game_view w\<rparr>
     else w\<lparr>w_workers := (w_workers w)(m := None)\<rparr>)"

definition GetWorker :: "World \<Rightarrow> int \<Rightarrow> MapWorker option" where "GetWorker w m = w_workers w m"

definition IsMapRunning :: "World \<Rightarrow> int \<Rightarrow> bool" where "IsMapRunning w m \<longleftrightarrow> w_workers w m \<noteq> None"

subsection \<open>Ticks\<close>

definition tick_capacity :: nat where "tick_capacity = 8"

definition offer_tick :: "u64 \<Rightarrow> MapWorker \<Rightarrow> bool \<times> MapWorker" where
  "offer_tick t mw = (if length (mw_tickChan mw) < tick_capacity then (True, mw\<lparr>mw_tickChan := mw_tickChan mw @ [t]\<rparr>) else (False, mw))"

definition TickAll :: "u64 \<Rightarrow> World \<Rightarrow> World" where
  "TickAll t w = w\<lparr>w_workers := (\<lambda>m. map_option (\<lambda>mw. snd (offer_tick t mw)) (w_workers w m))\<rparr>"

definition World_Tick :: "int \<Rightarrow> u64 \<Rightarrow> World \<Rightarrow> bool \<times> World" where
  "World_Tick m t w = (case GetWorker w m of
     None \<Rightarrow> (False, w)
   | Some mw \<Rightarrow> (case offer_tick t mw of (ok, mw') \<Rightarrow> (ok, put_worker m mw' w)))"

subsection \<open>Areas of interest\<close>

definition WatcherRadius :: real where "WatcherRadius = 60"

definition spawn_frame :: "entity \<Rightarrow> MetadataComponent \<Rightarrow> PositionComponent \<Rightarrow> byte_seq" where
  "spawn_frame e m p = BuildSpawnEntity \<lparr>spw_EntityID = e, spw_Type = WireType (meta_Type m), spw_MapID = of_int (MapID p),
     spw_X = of_int (PosX p), spw_Z = of_int (PosZ p), spw_Name = bytes_of (meta_Name m)\<rparr>"

text \<open>What is sent to the writer of \<open>to\<close> about \<open>target\<close>, looked up in a registry.\<close>

definition sendSpawnToFrom :: "entity \<Rightarrow> entity \<Rightarrow> Registry \<Rightarrow> Game \<Rightarrow> Game" where
  "sendSpawnToFrom to target r g = (case (GetMetadata r target, GetPosition r target) of
     (Some m, Some p) \<Rightarrow> g\<lparr>g_out := g_out g @ [(to, spawn_frame target m p)]\<rparr>
   | _ \<Rightarrow> g)"

definition sendSpawnTo :: "entity \<Rightarrow> entity \<Rightarrow> Game \<Rightarrow> Game" where
  "sendSpawnTo to target g = sendSpawnToFrom to target (g_reg g) g"

definition sendDespawnTo :: "entity \<Rightarrow> entity \<Rightarrow> Game \<Rightarrow> Game" where
  "sendDespawnTo to target g = g\<lparr>g_out := g_out g @ [(to, BuildDespawnEntity target)]\<rparr>"

definition worker_RegisterPlayerAOI :: "entity \<Rightarrow> MapWorker \<Rightarrow> Game \<Rightarrow> MapWorker \<times> Game" where
  "worker_RegisterPlayerAOI e mw g =
     (mw\<lparr>mw_AOIManager := RegisterWatcher e WatcherRadius (mw_AOIManager mw)\<rparr>,
      case GetPosition (g_reg g) e of
        None \<Rightarrow> g
      | Some pos \<Rightarrow>
          if \<not> has_writer (g_reg g) e then g
          else fold (\<lambda>(t, _). sendSpawnTo e t) (QueryRadius (g_grid g) pos WatcherRadius e) g)"

definition worker_ProcessAOIEvents :: "entity list \<Rightarrow> entity \<Rightarrow> PositionComponent \<Rightarrow> MapWorker \<Rightarrow> Game \<Rightarrow> MapWorker \<times> Game" where
  "worker_ProcessAOIEvents order e pos mw g =
     (case UpdateOne e pos (aoiSpatialQueryFromGrid (g_grid g)) order (mw_AOIManager mw) of
        (evs, m) \<Rightarrow>
          (mw\<lparr>mw_AOIManager := m\<rparr>,
           if length evs = 0 then g
           else if \<not> has_writer (mw_Registry mw) e then g
           else fold (\<lambda>ev g. case ev of
                  EventEnter t \<Rightarrow> sendSpawnToFrom e t (mw_Registry mw) g
                | EventLeave t \<Rightarrow> sendDespawnTo e t g) evs g))"

text \<open>The bridge looks up the worker of the map where the entity is.\<close>

definition ProcessAOIEvents :: "entity list \<Rightarrow> entity \<Rightarrow> PositionComponent \<Rightarrow> World \<Rightarrow> World" where
  "ProcessAOIEvents order e pos w = (case GetWorker w (MapID pos) of
     None \<Rightarrow> w
   | Some mw \<Rightarrow> (case worker_ProcessAOIEvents order e pos mw (game_view w) of
       (mw', g) \<Rightarrow> set_game g (put_worker (MapID pos) mw' w)))"

definition RegisterPlayerAOI :: "entity \<Rightarrow> World \<Rightarrow> World" where
  "RegisterPlayerAOI e w = (case GetPosition (default_registry w) e of
     None \<Rightarrow> w
   | Some pos \<Rightarrow> (case GetWorker w (MapID pos) of
       None \<Rightarrow> w
     | Some mw \<Rightarrow> (case worker_RegisterPlayerAOI e mw (game_view w) of
         (mw', g) \<Rightarrow> set_game g (put_worker (MapID pos) mw' w))))"

definition UnregisterPlayerAOI :: "entity \<Rightarrow> World \<Rightarrow> World" where
  "UnregisterPlayerAOI e w = (case GetPosition (default_registry w) e of
     None \<Rightarrow> w
   | Some pos \<Rightarrow> (case GetWorker w (MapID pos) of
       None \<Rightarrow> w
     | Some mw \<Rightarrow> put_worker (MapID pos) (mw\<lparr>mw_AOIManager := UnregisterWatcher e (mw_AOIManager mw)\<rparr>) w))"

definition BroadcastToNeighborsDelta :: "PositionComponent \<Rightarrow> byte_seq \<Rightarrow> entity \<Rightarrow> Game \<Rightarrow> Game" where
  "BroadcastToNeighborsDelta origin data excl g =
     g\<lparr>g_out := g_out g @ map (\<lambda>e. (e, data))
       (filter (has_writer (g_reg g)) (map fst (QueryRadius (g_grid g) origin WatcherRadius excl)))\<rparr>"

subsection \<open>Regions\<close>

definition RegionSweepInterval :: u64 where "RegionSweepInterval = 10"

definition RegionStreamingTick :: "u64 \<Rightarrow> MapWorker \<Rightarrow> MapWorker" where
  "RegionStreamingTick t mw = (if t mod RegionSweepInterval = 0 then SweepRegions mw else mw)"

definition ActiveRegionCount :: "MapWorker option \<Rightarrow> nat" where
  "ActiveRegionCount mw = (case mw of None \<Rightarrow> 0 | Some mw \<Rightarrow> card (mw_activeRegions mw))"

definition IsEntityInActiveRegion :: "MapWorker option \<Rightarrow> PositionComponent \<Rightarrow> bool" where
  "IsEntityInActiveRegion mw pos = (case mw of None \<Rightarrow> True | Some mw \<Rightarrow> IsRegionActive mw (WorldToChunk pos))"

definition WakeRegionFromPosition :: "MapWorker option \<Rightarrow> PositionComponent \<Rightarrow> MapWorker option" where
  "WakeRegionFromPosition mw pos = map_option (WakeRegionForEntity pos) mw"

subsection \<open>Transfer\<close>

definition transfer_capacity :: nat where "transfer_capacity = 256"

definition TransferEntity :: "entity \<Rightarrow> int \<Rightarrow> int \<Rightarrow> World \<Rightarrow> World option" where
  "TransferEntity e fromMap toMap w = (if length (w_transferChan w) < transfer_capacity
     then Some (w\<lparr>w_transferChan := w_transferChan w @ [\<lparr>tr_EntityID = e, tr_FromMap = fromMap, tr_ToMap = toMap\<rparr>]\<rparr>) else None)"

text \<open>The zero values of absent components.\<close>

definition no_stats :: StatsComponent where
  "no_stats = \<lparr>st_Level = 0, st_XP = 0, st_HP = 0, st_MaxHP = 0, st_MP = 0, st_MaxMP = 0, st_Dam = 0, st_Attack = 0,
     st_MagicAttack = 0, st_Defense = 0, st_MagicDefense = 0, st_HitRate = 0, st_DodgeRate = 0, st_CritRate = 0, st_CritDamage = 0\<rparr>"

definition no_connection :: ConnectionComponent where
  "no_connection = \<lparr>has_conn = False, conn_validator = None, conn_writer = None\<rparr>"

definition no_ai :: AIComponent where
  "no_ai = \<lparr>ai_State = AIStateIdle, ai_TargetID = 0, ai_SpawnX = 0, ai_SpawnZ = 0, ai_SpawnRadius = 0, ai_AggroRadius = 0,
     ai_LeashRadius = 0, ai_MeleeRange = 0, ai_AttackTimer = \<lparr>Cur = 0, Cooldown = 0\<rparr>, ai_IdleTimer = \<lparr>Cur = 0, Cooldown = 0\<rparr>,
     ai_PathTimer = \<lparr>Cur = 0, Cooldown = 0\<rparr>, ai_RoamTargetX = 0, ai_RoamTargetZ = 0, ai_ThreatTable = None,
     ai_CurrentPath = zero_path, ai_PathFollowIdx = 0, ai_PathGoalX = 0, ai_PathGoalZ = 0, ai_PathMapID = 0\<rparr>"

definition or_zero :: "'a \<Rightarrow> 'a option \<Rightarrow> 'a" where "or_zero z v = (case v of None \<Rightarrow> z | Some x \<Rightarrow> x)"

record WorldEntitySnapshot =
  sn_ID :: entity
  sn_Pos :: PositionComponent
  sn_Meta :: MetadataComponent
  sn_Stats :: StatsComponent
  sn_Conn :: ConnectionComponent
  sn_AI :: AIComponent

definition serializeEntity :: "entity \<Rightarrow> Registry \<Rightarrow> WorldEntitySnapshot option" where
  "serializeEntity e r = (case GetPosition r e of None \<Rightarrow> None | Some pos \<Rightarrow>
     (case GetMetadata r e of None \<Rightarrow> None | Some m \<Rightarrow>
        Some \<lparr>sn_ID = e, sn_Pos = pos, sn_Meta = m, sn_Stats = or_zero no_stats (GetStats r e),
          sn_Conn = or_zero no_connection (GetConnection r e), sn_AI = or_zero no_ai (GetAI r e)\<rparr>))"

definition deserializeEntity :: "WorldEntitySnapshot \<Rightarrow> Registry \<Rightarrow> SpatialGrid \<Rightarrow> Registry \<times> SpatialGrid" where
  "deserializeEntity sn r g =
     (let r1 = SetConnection (sn_ID sn) (sn_Conn sn) (SetStats (sn_ID sn) (sn_Stats sn)
            (SetMetadata (sn_ID sn) (sn_Meta sn) (SetPosition (sn_ID sn) (sn_Pos sn) r)))
      in (if ai_State (sn_AI sn) \<noteq> AIStateIdle \<or> ai_SpawnRadius (sn_AI sn) \<noteq> 0 then SetAI (sn_ID sn) (sn_AI sn) r1 else r1,
          UpdateEntityPosition (sn_ID sn) (sn_Pos sn) g))"

text \<open>
  The threat table is a pointer, shared by the copies of the component: removing the original closes it, which
  clears the copy.
\<close>

definition close_shared_threat :: "entity \<Rightarrow> MapWorker \<Rightarrow> MapWorker" where
  "close_shared_threat e mw = (case GetAI (mw_Registry mw) e of
     None \<Rightarrow> mw
   | Some c \<Rightarrow> (case ai_ThreatTable c of
       None \<Rightarrow> mw
     | Some t \<Rightarrow> mw\<lparr>mw_Registry := SetAI e (c\<lparr>ai_ThreatTable := Some (threat_Clear t)\<rparr>) (mw_Registry mw)\<rparr>))"

definition freeze :: "WorldEntitySnapshot \<Rightarrow> Registry \<Rightarrow> WorldEntitySnapshot \<times> Registry" where
  "freeze sn r = (if ai_State (sn_AI sn) \<noteq> AIStateIdle \<or> meta_Type (sn_Meta sn) = EntityMonster
     then let c = (sn_AI sn)\<lparr>ai_State := AIStateTransferring\<rparr> in (sn\<lparr>sn_AI := c\<rparr>, SetAI (sn_ID sn) c r)
     else (sn, r))"

definition transfer_commit :: "entity \<Rightarrow> int \<Rightarrow> int \<Rightarrow> World \<Rightarrow> World" where
  "transfer_commit e fromMap toMap w = (case GetWorker w fromMap of
     None \<Rightarrow> w
   | Some fw \<Rightarrow> (case RemoveEntity e (mw_Registry fw) (g_free (w_game w)) of (r, fl) \<Rightarrow>
       let w1 = put_worker fromMap (fw\<lparr>mw_Registry := r\<rparr>) (w\<lparr>w_game := (w_game w)\<lparr>g_free := fl\<rparr>\<rparr>)
       in (case GetWorker w1 toMap of None \<Rightarrow> w1 | Some tw \<Rightarrow> put_worker toMap (close_shared_threat e tw) w1)))"

definition processTransfer2PC :: "TransferRequest \<Rightarrow> World \<Rightarrow> World" where
  "processTransfer2PC req w =
     (let e = tr_EntityID req
      in case (GetWorker w (tr_FromMap req), GetWorker w (tr_ToMap req)) of
        (Some fw, Some _) \<Rightarrow>
          (case serializeEntity e (mw_Registry fw) of
             None \<Rightarrow> w
           | Some sn0 \<Rightarrow>
               (case freeze sn0 (mw_Registry fw) of (sn1, r1) \<Rightarrow>
                  let w1 = put_worker (tr_FromMap req) (fw\<lparr>mw_Registry := r1,
                             mw_SpatialGrid := grid_RemoveEntity e (mw_SpatialGrid fw)\<rparr>) w;
                      sn = sn1\<lparr>sn_Pos := (sn_Pos sn1)\<lparr>MapID := tr_ToMap req\<rparr>\<rparr>;
                      w2 = (case GetWorker w1 (tr_ToMap req) of None \<Rightarrow> w1 | Some tw \<Rightarrow>
                             (case deserializeEntity sn (mw_Registry tw) (mw_SpatialGrid tw) of (r, g) \<Rightarrow>
                                put_worker (tr_ToMap req) (tw\<lparr>mw_Registry := r, mw_SpatialGrid := g\<rparr>) w1));
                      w3 = (if meta_Type (sn_Meta sn) = EntityPlayer
                            then (case GetWorker w2 (tr_ToMap req) of None \<Rightarrow> w2 | Some tw \<Rightarrow>
                              (case worker_RegisterPlayerAOI e tw (game_view w2) of
                                 (tw', g) \<Rightarrow> set_game g (put_worker (tr_ToMap req) tw' w2)))
                            else w2)
                  in transfer_commit e (tr_FromMap req) (tr_ToMap req) w3))
      | _ \<Rightarrow> w)"

text \<open>One round of the orchestrator.\<close>

definition orchestrate :: "World \<Rightarrow> World" where
  "orchestrate w = (case w_transferChan w of [] \<Rightarrow> w | req # reqs \<Rightarrow> processTransfer2PC req (w\<lparr>w_transferChan := reqs\<rparr>))"

subsection \<open>The gateway\<close>

definition broadcastToMap :: "int \<Rightarrow> byte_seq \<Rightarrow> World \<Rightarrow> World" where
  "broadcastToMap m data w = (case GetWorker w m of
     None \<Rightarrow> w
   | Some mw \<Rightarrow> w\<lparr>w_game := RangeConnections (\<lambda>e c g.
       (True, if conn_writer c = None then g else g\<lparr>g_out := g_out g @ [(e, data)]\<rparr>)) (mw_Registry mw) (w_game w)\<rparr>)"

definition ExecuteMapTransfer :: "entity \<Rightarrow> int \<Rightarrow> int \<Rightarrow> int \<Rightarrow> World \<Rightarrow> (reply \<times> World) option" where
  "ExecuteMapTransfer e targetMap x z w =
     (if targetMap < 1 \<or> targetMap > 3
      then Some ((''Warp Error: Target map zone does not exist in server configuration!'' @ crlf, False), w)
      else if x < 0 \<or> x > 100 \<or> z < 0 \<or> z > 100
      then Some ((''Warp Denied: Landing coordinates out of world boundaries (0-100)!'' @ crlf, False), w)
      else case GetPosition (default_registry w) e of
        None \<Rightarrow> Some ((''Warp Error: Your spatial position record was not found.'' @ crlf, False), w)
      | Some oldPos \<Rightarrow>
          let name = (case GetMetadata (default_registry w) e of None \<Rightarrow> [] | Some m \<Rightarrow> meta_Name m);
              w1 = broadcastToMap (MapID oldPos) (bytes_of (''[PORTAL]: Player '' @ name @ '' vanished into a warping rift!'' @ crlf)) w;
              pos = oldPos\<lparr>MapID := targetMap, PosX := x, PosZ := z\<rparr>;
              g = game_view w1;
              w2 = set_game (g\<lparr>g_reg := SetPosition e pos (g_reg g), g_grid := UpdateEntityPosition e pos (g_grid g)\<rparr>) w1
          in map_option (\<lambda>w3.
               let w4 = broadcastToMap targetMap (bytes_of (''[PORTAL]: Player '' @ name @ '' materialized out of a warping rift at X:''
                     @ dec_int x @ '', Z:'' @ dec_int z @ ''!'' @ crlf)) w3
               in ((''[WARP]: Successfully zoned from Map #'' @ dec_int (MapID oldPos) @ '' to Map #'' @ dec_int targetMap
                     @ ''! Position: ('' @ dec_int x @ '', '' @ dec_int z @ '')'' @ crlf, True), w4))
             (TransferEntity e (MapID oldPos) targetMap w2))"

definition ReadInt32 :: "byte_seq \<Rightarrow> int option" where
  "ReadInt32 b = map_option sint (ReadUint32 b)"

definition HandleWarpSystem :: "entity \<Rightarrow> byte_seq \<Rightarrow> World \<Rightarrow> (reply \<times> World) option" where
  "HandleWarpSystem e payload w =
     (if length payload \<noteq> 12 then Some ((''Error: Invalid warp payload length. Expected 12 bytes.'' @ crlf, False), w)
      else ExecuteMapTransfer e (the (ReadInt32 (take 4 payload))) (the (ReadInt32 (take 4 (drop 4 payload))))
             (the (ReadInt32 (take 4 (drop 8 payload)))) w)"

subsection \<open>What a transfer does\<close>

lemma deserialize_exact:
  assumes inv: "registry_inv r" and fresh: "inj_on EntityIndex (insert (sn_ID sn) (registered r))"
    and run: "deserializeEntity sn r g = (r', g')"
  shows "registry_inv r'" and "registered r' = insert (sn_ID sn) (registered r)"
    and "GetPosition r' = (GetPosition r)(sn_ID sn \<mapsto> sn_Pos sn)" and "GetMetadata r' = (GetMetadata r)(sn_ID sn \<mapsto> sn_Meta sn)"
    and "GetStats r' = (GetStats r)(sn_ID sn \<mapsto> sn_Stats sn)" and "GetConnection r' = (GetConnection r)(sn_ID sn \<mapsto> sn_Conn sn)"
    and "GetAI r' = (if ai_State (sn_AI sn) \<noteq> AIStateIdle \<or> ai_SpawnRadius (sn_AI sn) \<noteq> 0
           then (GetAI r)(sn_ID sn \<mapsto> sn_AI sn) else GetAI r)"
    and "GetInventory r' = GetInventory r" and "GetEquipment r' = GetEquipment r" and "GetEffects r' = GetEffects r"
    and "GetPartyMember r' = GetPartyMember r" and "GetParty r' = GetParty r"
    and "g' = UpdateEntityPosition (sn_ID sn) (sn_Pos sn) g"
proof -
  let ?e = "sn_ID sn"
  define r1 where "r1 = SetPosition ?e (sn_Pos sn) r"
  note P = SetPosition_inv [OF inv fresh, of "sn_Pos sn", folded r1_def]
  have e: "?e \<in> registered r1" by (simp add: P(3))
  define r2 where "r2 = SetMetadata ?e (sn_Meta sn) r1"
  define r3 where "r3 = SetStats ?e (sn_Stats sn) r2"
  define r4 where "r4 = SetConnection ?e (sn_Conn sn) r3"
  have r': "r' = (if ai_State (sn_AI sn) \<noteq> AIStateIdle \<or> ai_SpawnRadius (sn_AI sn) \<noteq> 0 then SetAI ?e (sn_AI sn) r4 else r4)"
    and "g' = UpdateEntityPosition ?e (sn_Pos sn) g"
    using run by (auto simp: deserializeEntity_def r4_def r3_def r2_def r1_def Let_def)
  then show "g' = UpdateEntityPosition ?e (sn_Pos sn) g" by simp
  note S2 = Set_known(7-9) [OF P(1) e, of "sn_Meta sn", folded r2_def]
  have e2: "?e \<in> registered r2" using S2 e by simp
  note S3 = Set_known(10-12) [OF S2(1) e2, of "sn_Stats sn", folded r3_def]
  have e3: "?e \<in> registered r3" using S3 e2 by simp
  note S4 = Set_known(4-6) [OF S3(1) e3, of "sn_Conn sn", folded r4_def]
  have e4: "?e \<in> registered r4" using S4 e3 by simp
  note S5 = Set_known(13-15) [OF S4(1) e4, of "sn_AI sn"]
  note frame = r4_def r3_def r2_def r1_def
  show "registry_inv r'" using S4(1) S5(1) by (simp add: r')
  show "registered r' = insert ?e (registered r)" using S5(3) S4(3) S3(3) S2(3) P(3) by (simp add: r')
  show "GetPosition r' = (GetPosition r)(?e \<mapsto> sn_Pos sn)" using P(2) by (simp add: r' r4_def r3_def r2_def)
  show "GetMetadata r' = (GetMetadata r)(?e \<mapsto> sn_Meta sn)" using S2(2) by (simp add: r' r4_def r3_def r1_def)
  show "GetStats r' = (GetStats r)(?e \<mapsto> sn_Stats sn)" using S3(2) by (simp add: r' r4_def r2_def r1_def)
  show "GetConnection r' = (GetConnection r)(?e \<mapsto> sn_Conn sn)" using S4(2) by (simp add: r' r3_def r2_def r1_def)
  show "GetAI r' = (if ai_State (sn_AI sn) \<noteq> AIStateIdle \<or> ai_SpawnRadius (sn_AI sn) \<noteq> 0
      then (GetAI r)(?e \<mapsto> sn_AI sn) else GetAI r)" using S5(2) by (simp add: r' frame)
  show "GetInventory r' = GetInventory r" "GetEquipment r' = GetEquipment r" "GetEffects r' = GetEffects r"
    "GetPartyMember r' = GetPartyMember r" "GetParty r' = GetParty r"
    by (simp_all add: r' frame)
qed

lemma spawns_only_send [send_intros]: "only_sends g (sendSpawnToFrom a t r g)" "only_sends g (sendSpawnTo a t g)"
  "only_sends g (sendDespawnTo a t g)"
  by (auto simp: sendSpawnToFrom_def sendSpawnTo_def sendDespawnTo_def intro: send_intros split: option.split)

lemma RegisterPlayerAOI_sends:
  assumes "worker_RegisterPlayerAOI e mw g = (mw', g')"
  shows "only_sends g g'" and "mw' = mw\<lparr>mw_AOIManager := RegisterWatcher e WatcherRadius (mw_AOIManager mw)\<rparr>"
proof -
  have "only_sends g (fold (\<lambda>(t, _). sendSpawnTo e t) xs g)" for xs :: "(entity \<times> PositionComponent) list"
    by (rule only_sends_fold) (auto intro: send_intros split: prod.split)
  with assms show "only_sends g g'"
    by (auto simp: worker_RegisterPlayerAOI_def only_sends_refl split: option.splits)
  show "mw' = mw\<lparr>mw_AOIManager := RegisterWatcher e WatcherRadius (mw_AOIManager mw)\<rparr>"
    using assms by (simp add: worker_RegisterPlayerAOI_def)
qed

lemma workers_simps [simp]:
  "w_workers (put_worker m mw w) = (w_workers w)(m \<mapsto> mw)" "w_game (put_worker m mw w) = w_game w"
  "w_default (put_worker m mw w) = w_default w" "w_transferChan (put_worker m mw w) = w_transferChan w"
  "w_nextID (put_worker m mw w) = w_nextID w"
  by (simp_all add: put_worker_def)

lemma own_default [simp]:
  assumes "w_default w = None"
  shows "default_registry w = g_reg (w_game w)" and "game_view w = w_game w" and "set_game g w = w\<lparr>w_game := g\<rparr>"
  using assms by (simp_all add: default_registry_def game_view_def set_game_def)

text \<open>The component that arrives: frozen when it belongs to a monster, with the threat table closed at the source.\<close>

definition arrival_ai :: "MetadataComponent \<Rightarrow> AIComponent \<Rightarrow> AIComponent option" where
  "arrival_ai m a = (let c = (if ai_State a \<noteq> AIStateIdle \<or> meta_Type m = EntityMonster then a\<lparr>ai_State := AIStateTransferring\<rparr> else a)
     in if ai_State c \<noteq> AIStateIdle \<or> ai_SpawnRadius c \<noteq> 0
        then Some (c\<lparr>ai_ThreatTable := map_option threat_Clear (ai_ThreatTable c)\<rparr>) else None)"

lemma freeze_effect:
  assumes "registry_inv r" and "sn_ID sn \<in> registered r" and "freeze sn r = (sn', r')"
  shows "registry_inv r'" and "registered r' = registered r" and "x \<noteq> sn_ID sn \<Longrightarrow> same_components x r r'"
    and "sn_ID sn' = sn_ID sn" "sn_Pos sn' = sn_Pos sn" "sn_Meta sn' = sn_Meta sn" "sn_Stats sn' = sn_Stats sn" "sn_Conn sn' = sn_Conn sn"
    and "sn_AI sn' = (if ai_State (sn_AI sn) \<noteq> AIStateIdle \<or> meta_Type (sn_Meta sn) = EntityMonster
           then (sn_AI sn)\<lparr>ai_State := AIStateTransferring\<rparr> else sn_AI sn)"
  using assms by (auto simp: freeze_def Let_def same_components_def split: if_splits)

lemma close_shared_threat_effect:
  assumes "registry_inv (mw_Registry mw)"
  shows "GetAI (mw_Registry (close_shared_threat e mw)) e =
      map_option (\<lambda>c. c\<lparr>ai_ThreatTable := map_option threat_Clear (ai_ThreatTable c)\<rparr>) (GetAI (mw_Registry mw) e)"
    and "registry_inv (mw_Registry (close_shared_threat e mw))" and "registered (mw_Registry (close_shared_threat e mw)) = registered (mw_Registry mw)"
    and "GetPosition (mw_Registry (close_shared_threat e mw)) = GetPosition (mw_Registry mw)"
    and "GetMetadata (mw_Registry (close_shared_threat e mw)) = GetMetadata (mw_Registry mw)"
    and "GetStats (mw_Registry (close_shared_threat e mw)) = GetStats (mw_Registry mw)"
    and "GetConnection (mw_Registry (close_shared_threat e mw)) = GetConnection (mw_Registry mw)"
    and "GetInventory (mw_Registry (close_shared_threat e mw)) = GetInventory (mw_Registry mw)"
    and "GetEquipment (mw_Registry (close_shared_threat e mw)) = GetEquipment (mw_Registry mw)"
    and "GetEffects (mw_Registry (close_shared_threat e mw)) = GetEffects (mw_Registry mw)"
    and "GetPartyMember (mw_Registry (close_shared_threat e mw)) = GetPartyMember (mw_Registry mw)"
    and "mw_SpatialGrid (close_shared_threat e mw) = mw_SpatialGrid mw"
  using assms Get_registered(5) [OF assms] Set_known(13-15) [OF assms]
  by (auto simp: close_shared_threat_def split: option.split)

text \<open>
  C10: A transfer to another map removes the entity from its map and recreates exactly its position, metadata, stats
  and connection there; inventory, equipment, effects and party are lost. A monster arrives in the state that
  freezes it, with an empty threat table. The identifier, still in use on the new map, is queued for reuse: the next
  entity that is allocated gets the same slot.
\<close>

theorem transfer_exact:
  assumes maps: "w_workers w a = Some fw" "w_workers w b = Some tw" "a \<noteq> b" and dflt: "w_default w = None"
    and inv: "registry_inv (mw_Registry fw)" "registry_inv (mw_Registry tw)"
    and fresh: "inj_on EntityIndex (insert e (registered (mw_Registry tw)))" "e \<notin> registered (mw_Registry tw)"
    and grids: "grid_ok (mw_SpatialGrid fw)" "grid_ok (mw_SpatialGrid tw)"
    and found: "GetPosition (mw_Registry fw) e = Some p" "GetMetadata (mw_Registry fw) e = Some m"
    and small: "EntityIndex e \<noteq> 0"
  shows "\<exists>fw' tw'. w_workers (processTransfer2PC \<lparr>tr_EntityID = e, tr_FromMap = a, tr_ToMap = b\<rparr> w) =
      (w_workers w)(a \<mapsto> fw', b \<mapsto> tw') \<and>
    no_components e (mw_Registry fw') \<and> (\<forall>x. x \<noteq> e \<longrightarrow> same_components x (mw_Registry fw) (mw_Registry fw')) \<and>
    grid_of (mw_SpatialGrid fw') = (grid_of (mw_SpatialGrid fw))(e := None) \<and>
    registry_inv (mw_Registry fw') \<and> registry_inv (mw_Registry tw') \<and> registered (mw_Registry tw') = insert e (registered (mw_Registry tw)) \<and>
    GetPosition (mw_Registry tw') e = Some (p\<lparr>MapID := b\<rparr>) \<and> GetMetadata (mw_Registry tw') e = Some m \<and>
    GetStats (mw_Registry tw') e = Some (or_zero no_stats (GetStats (mw_Registry fw) e)) \<and>
    GetConnection (mw_Registry tw') e = Some (or_zero no_connection (GetConnection (mw_Registry fw) e)) \<and>
    GetAI (mw_Registry tw') e = arrival_ai m (or_zero no_ai (GetAI (mw_Registry fw) e)) \<and>
    GetInventory (mw_Registry tw') e = None \<and> GetEquipment (mw_Registry tw') e = None \<and>
    GetEffects (mw_Registry tw') e = None \<and> GetPartyMember (mw_Registry tw') e = None \<and>
    grid_of (mw_SpatialGrid tw') = (grid_of (mw_SpatialGrid tw))(e \<mapsto> p\<lparr>MapID := b\<rparr>) \<and>
    EntityIndex (fst (World_AllocateEntityID (processTransfer2PC \<lparr>tr_EntityID = e, tr_FromMap = a, tr_ToMap = b\<rparr> w))) = EntityIndex e"
proof -
  define sn0 where "sn0 = \<lparr>sn_ID = e, sn_Pos = p, sn_Meta = m, sn_Stats = or_zero no_stats (GetStats (mw_Registry fw) e),
    sn_Conn = or_zero no_connection (GetConnection (mw_Registry fw) e), sn_AI = or_zero no_ai (GetAI (mw_Registry fw) e)\<rparr>"
  have ser: "serializeEntity e (mw_Registry fw) = Some sn0" by (simp add: serializeEntity_def found sn0_def)
  obtain sn1 r1 where fr: "freeze sn0 (mw_Registry fw) = (sn1, r1)" by force
  have known: "sn_ID sn0 \<in> registered (mw_Registry fw)" using Get_registered(1) [OF inv(1) found(1)] by (simp add: sn0_def)
  note F = freeze_effect [OF inv(1) known fr]
  define sn where "sn = sn1\<lparr>sn_Pos := (sn_Pos sn1)\<lparr>MapID := b\<rparr>\<rparr>"
  obtain r2 g2 where de: "deserializeEntity sn (mw_Registry tw) (mw_SpatialGrid tw) = (r2, g2)" by force
  have id: "sn_ID sn = e" by (simp add: sn_def F(4)) (simp add: sn0_def)
  note D = deserialize_exact [OF inv(2) _ de, unfolded id, OF fresh(1)]
  define fw1 where "fw1 = fw\<lparr>mw_Registry := r1, mw_SpatialGrid := grid_RemoveEntity e (mw_SpatialGrid fw)\<rparr>"
  define tw2 where "tw2 = tw\<lparr>mw_Registry := r2, mw_SpatialGrid := g2\<rparr>"
  define w2 where "w2 = put_worker b tw2 (put_worker a fw1 w)"
  define w3 where "w3 = (if meta_Type (sn_Meta sn) = EntityPlayer
      then (case worker_RegisterPlayerAOI e tw2 (game_view w2) of (tw', g) \<Rightarrow> set_game g (put_worker b tw' w2)) else w2)"
  have run: "processTransfer2PC \<lparr>tr_EntityID = e, tr_FromMap = a, tr_ToMap = b\<rparr> w = transfer_commit e a b w3"
    using maps ser fr de
    by (simp add: processTransfer2PC_def GetWorker_def Let_def fw1_def tw2_def w2_def w3_def sn_def)
  obtain aoi where w3: "w_workers w3 = (w_workers w)(a \<mapsto> fw1, b \<mapsto> tw2\<lparr>mw_AOIManager := aoi\<rparr>)"
      "g_free (w_game w3) = g_free (w_game w)" "w_default w3 = None"
  proof (cases "meta_Type (sn_Meta sn) = EntityPlayer")
    case True
    obtain tw' g where reg: "worker_RegisterPlayerAOI e tw2 (game_view w2) = (tw', g)" by force
    have dw2: "w_default w2 = None" by (simp add: w2_def dflt)
    note R = RegisterPlayerAOI_sends [OF reg]
    have "w3 = (put_worker b tw' w2)\<lparr>w_game := g\<rparr>" using True reg dw2 by (simp add: w3_def)
    moreover have "g_free g = g_free (w_game w)" using only_sendsD(2) [OF R(1)] dw2 by (simp add: w2_def)
    ultimately show ?thesis
      using dw2 by (intro that [of "mw_AOIManager tw'"]) (simp_all add: R(2) w2_def)
  next
    case False
    then show ?thesis using dflt by (intro that [of "mw_AOIManager tw2"]) (simp_all add: w3_def w2_def)
  qed
  obtain r3 where rm: "RemoveEntity e r1 (g_free (w_game w)) = (r3, g_free (w_game w) @ [e])" by (simp add: RemoveEntity_def)
  note R = RemoveEntity_inv [OF F(1) rm] RemoveEntity_effect [OF _ rm]
  define tw3 where "tw3 = tw2\<lparr>mw_AOIManager := aoi\<rparr>"
  have twR: "mw_Registry tw3 = r2" "mw_SpatialGrid tw3 = g2" by (simp_all add: tw3_def tw2_def)
  define fw3 where "fw3 = fw1\<lparr>mw_Registry := r3\<rparr>"
  let ?w' = "transfer_commit e a b w3"
  have end_workers: "w_workers ?w' = (w_workers w)(a \<mapsto> fw3, b \<mapsto> close_shared_threat e tw3)"
    and end_free: "g_free (w_game ?w') = g_free (w_game w) @ [e]"
    using maps(3) rm w3 by (simp_all add: transfer_commit_def GetWorker_def fw3_def tw3_def fw1_def Let_def)
  have slot: "EntityIndex (fst (World_AllocateEntityID ?w')) = EntityIndex e"
    using Pop_snoc [of "\<lparr>nextID = w_nextID ?w', recycled = g_free (w_game ?w')\<rparr>" "g_free (w_game w)" e] small
    by (auto simp: World_AllocateEntityID_def AllocateEntityID_def end_free Let_def mk_entity_zero split: prod.splits)
  have gone: "no_components e r3" "\<forall>x. x \<noteq> e \<longrightarrow> same_components x (mw_Registry fw) r3"
    using R F(1,3) by (auto simp: registry_inv_def same_components_def sn0_def)
  have none: "no_components e (mw_Registry tw)" by (rule unregistered_no_components [OF inv(2) fresh(2)])
  note C = close_shared_threat_effect [of tw3 e, unfolded twR, OF D(1)]
  have sn: "sn_Pos sn = p\<lparr>MapID := b\<rparr>" "sn_Meta sn = m" "sn_Stats sn = or_zero no_stats (GetStats (mw_Registry fw) e)"
    "sn_Conn sn = or_zero no_connection (GetConnection (mw_Registry fw) e)" "sn_AI sn = sn_AI sn1"
    by (simp_all add: sn_def F) (simp_all add: sn0_def)
  have ai: "GetAI (mw_Registry (close_shared_threat e tw3)) e = arrival_ai m (or_zero no_ai (GetAI (mw_Registry fw) e))"
    using none unfolding C(1) D(7) sn(5) F(9)
    by (auto simp: sn0_def arrival_ai_def Let_def no_components_def)
  note G = grid_RemoveEntity_refines [OF grids(1), of e] UpdateEntityPosition_refines [OF grids(2), of e "p\<lparr>MapID := b\<rparr>"]
  show ?thesis
    unfolding run
    by (rule exI [of _ fw3], rule exI [of _ "close_shared_threat e tw3"])
      (use end_workers slot gone none R(1) ai C D sn G in \<open>simp add: fw3_def fw1_def no_components_def\<close>)
qed

text \<open>The slime of the arena moves to map 2: it stays frozen there, and its identifier is up for reuse.\<close>

definition two_maps :: World where
  "two_maps = (InitWorld arena)\<lparr>w_workers := [1 \<mapsto> (NewMapWorker 1)\<lparr>mw_Registry := arena_reg\<rparr>, 2 \<mapsto> NewMapWorker 2]\<rparr>"

theorem transfer_exact_witness:
  "let w' = processTransfer2PC \<lparr>tr_EntityID = foe, tr_FromMap = 1, tr_ToMap = 2\<rparr> two_maps in
   (\<exists>tw'. w_workers w' 2 = Some tw' \<and> foe \<in> registered (mw_Registry tw') \<and>
      map_option ai_State (GetAI (mw_Registry tw') foe) = Some AIStateTransferring) \<and>
   EntityIndex (fst (World_AllocateEntityID w')) = EntityIndex foe"
proof -
  have inv: "registry_inv arena_reg" using alloc_okD(1) [OF arena_reg(1)] .
  have emp: "registered NewRegistry = {}" using New_empty(1) by (simp add: registered_def)
  have idx: "EntityIndex foe \<noteq> 0" by (simp add: foe_def)
  have maps: "w_workers two_maps 1 = Some ((NewMapWorker 1)\<lparr>mw_Registry := arena_reg\<rparr>)" "w_workers two_maps 2 = Some (NewMapWorker 2)"
    "w_default two_maps = None"
    by (simp_all add: two_maps_def InitWorld_def)
  show ?thesis
    using transfer_exact [OF maps(1,2) _ maps(3), of foe slime_pos "\<lparr>meta_Name = ''Slime'', meta_Type = EntityMonster\<rparr>"] inv idx
    by (auto simp: Let_def NewMapWorker_def emp grid_ok_New arena_reg arrival_ai_def)
qed

text \<open>A transfer within one map destroys the entity: it is written over itself and then removed.\<close>

lemma transfer_to_same_map:
  assumes w: "w_workers w a = Some fw" "w_default w = None" and inv: "registry_inv (mw_Registry fw)"
    and found: "GetPosition (mw_Registry fw) e = Some p" "GetMetadata (mw_Registry fw) e = Some m"
  shows "\<exists>fw'. w_workers (processTransfer2PC \<lparr>tr_EntityID = e, tr_FromMap = a, tr_ToMap = a\<rparr> w) a = Some fw' \<and>
    no_components e (mw_Registry fw')"
proof -
  obtain sn0 where ser: "serializeEntity e (mw_Registry fw) = Some sn0" and id0: "sn_ID sn0 = e"
    by (simp add: serializeEntity_def found)
  obtain sn1 r1 where fr: "freeze sn0 (mw_Registry fw) = (sn1, r1)" by force
  have reg: "e \<in> registered (mw_Registry fw)" by (rule Get_registered(1) [OF inv found(1)])
  note F = freeze_effect [OF inv _ fr, unfolded id0, OF reg]
  define sn where "sn = sn1\<lparr>sn_Pos := (sn_Pos sn1)\<lparr>MapID := a\<rparr>\<rparr>"
  define fw1 where "fw1 = fw\<lparr>mw_Registry := r1, mw_SpatialGrid := grid_RemoveEntity e (mw_SpatialGrid fw)\<rparr>"
  obtain r2 g2 where de: "deserializeEntity sn r1 (mw_SpatialGrid fw1) = (r2, g2)" by force
  define tw2 where "tw2 = fw1\<lparr>mw_Registry := r2, mw_SpatialGrid := g2\<rparr>"
  have "inj_on EntityIndex (insert (sn_ID sn) (registered r1))"
    using F(1) reg by (simp add: sn_def F(2,4) insert_absorb registry_inv_def)
  note D = deserialize_exact(1) [OF F(1) this de]
  define w2 where "w2 = put_worker a tw2 (put_worker a fw1 w)"
  define w3 where "w3 = (if meta_Type (sn_Meta sn) = EntityPlayer
      then (case worker_RegisterPlayerAOI e tw2 (game_view w2) of (tw', g) \<Rightarrow> set_game g (put_worker a tw' w2)) else w2)"
  have run: "processTransfer2PC \<lparr>tr_EntityID = e, tr_FromMap = a, tr_ToMap = a\<rparr> w = transfer_commit e a a w3"
    using w(1) ser fr de by (simp add: processTransfer2PC_def GetWorker_def Let_def fw1_def tw2_def w2_def w3_def sn_def)
  have d2: "w_default w2 = None" by (simp add: w2_def w)
  obtain tw' g where aoi: "worker_RegisterPlayerAOI e tw2 (game_view w2) = (tw', g)" by force
  then have "mw_Registry tw' = r2" using RegisterPlayerAOI_sends(2) [OF aoi] by (simp add: tw2_def)
  moreover have "w3 = (if meta_Type (sn_Meta sn) = EntityPlayer then (put_worker a tw' w2)\<lparr>w_game := g\<rparr> else w2)"
    using aoi d2 by (simp add: w3_def)
  ultimately obtain tw3 where w3: "w_workers w3 a = Some tw3" "mw_Registry tw3 = r2"
    by (cases "meta_Type (sn_Meta sn) = EntityPlayer") (simp_all add: w2_def tw2_def)
  obtain r3 where rm: "RemoveEntity e r2 (g_free (w_game w3)) = (r3, g_free (w_game w3) @ [e])" by (simp add: RemoveEntity_def)
  have none: "no_components e r3" using RemoveEntity_effect [OF _ rm] D by (simp add: registry_inv_def)
  then have "close_shared_threat e (tw3\<lparr>mw_Registry := r3\<rparr>) = tw3\<lparr>mw_Registry := r3\<rparr>"
    by (simp add: close_shared_threat_def no_components_def)
  with none rm w3 show ?thesis unfolding run by (simp add: transfer_commit_def GetWorker_def Let_def)
qed

end
