(* ===== verification/Effects.thy ===== *)
theory Effects
  imports Attack
begin

text \<open>
  \<open>server/game/effects_system.go\<close>: the status effects. The system walks the store of effects, so its callback runs
  under the read lock of that store: committing the remaining effects needs the write lock, and so does the
  removal of a monster that a poison has killed. \<open>None\<close> is an operation that never returns or panics.
\<close>

subsection \<open>One entity\<close>

definition no_meta :: MetadataComponent where "no_meta = \<lparr>meta_Name = [], meta_Type = EntityAny\<rparr>"

definition meta_of :: "Registry \<Rightarrow> entity \<Rightarrow> MetadataComponent" where
  "meta_of r e = (case GetMetadata r e of None \<Rightarrow> no_meta | Some m \<Rightarrow> m)"

text \<open>The name of an entity with its number, as the texts have it.\<close>

definition tagged :: "MetadataComponent \<Rightarrow> entity \<Rightarrow> string" where
  "tagged m e = meta_Name m @ '' (#'' @ dec_nat (unat e) @ '')''"

definition tell :: "entity \<Rightarrow> PositionComponent option \<Rightarrow> string \<Rightarrow> Game \<Rightarrow> Game" where
  "tell e pos text g = (case pos of None \<Rightarrow> g | Some p \<Rightarrow> BroadcastToNeighbors p (bytes_of text) e g)"

text \<open>\<open>DeathSystem\<close> with locks held: only the death of a player removes nobody.\<close>

definition DeathSystem_in ::
  "store_name set \<Rightarrow> entity \<Rightarrow> entity \<Rightarrow> MetadataComponent \<Rightarrow> MetadataComponent \<Rightarrow> int \<Rightarrow> Game \<Rightarrow> Game option" where
  "DeathSystem_in held target killer tm km damage g =
     (if held \<noteq> {} \<and> meta_Type tm \<noteq> EntityPlayer then None else DeathSystem target killer tm km damage g)"

text \<open>
  The damage of one effect that is due: the state, and whether it killed (then the effect is not retained).
\<close>

definition dot_hit ::
  "store_name set \<Rightarrow> entity \<Rightarrow> MetadataComponent \<Rightarrow> PositionComponent option \<Rightarrow> ActiveEffect \<Rightarrow> Game \<Rightarrow> (bool \<times> Game) option" where
  "dot_hit held e m pos eff g = (case GetStats (g_reg g) e of
     None \<Rightarrow> Some (False, g)
   | Some st \<Rightarrow>
       if st_HP st > 0 then
         let hp = st_HP st - eff_Value eff;
             st' = st\<lparr>st_HP := (if hp < 0 then 0 else hp)\<rparr>;
             g1 = g\<lparr>g_reg := SetStats e st' (g_reg g)\<rparr>;
             g2 = tell e pos (''[STATUS] '' @ tagged m e @ '' suffered -'' @ dec_int (eff_Value eff) @ '' '' @ eff_Type eff
               @ '' damage! (HP: '' @ dec_int (st_HP st') @ ''/'' @ dec_int (st_MaxHP st') @ '')'' @ crlf) g1
         in if st_HP st' = 0 then
              let g3 = tell e pos (''[DEATH] '' @ tagged m e @ '' succumbed to '' @ eff_Type eff @ ''.'' @ crlf) g2
              in map_option (\<lambda>g4. (True, g4))
                   (DeathSystem_in held e 0 m \<lparr>meta_Name = eff_Type eff, meta_Type = EntityMonster\<rparr> (eff_Value eff) g3)
            else Some (False, g2)
       else Some (False, g))"

text \<open>One effect: what is retained of it, whether its end asks for new stats, and the state.\<close>

definition effect_tick ::
  "store_name set \<Rightarrow> entity \<Rightarrow> MetadataComponent \<Rightarrow> PositionComponent option \<Rightarrow> ActiveEffect \<Rightarrow> Game \<Rightarrow>
   (ActiveEffect list \<times> bool \<times> Game) option" where
  "effect_tick held e m pos eff0 g =
     (let eff = (if eff_DurationTicks eff0 > 0 then eff0\<lparr>eff_DurationTicks := eff_DurationTicks eff0 - 1\<rparr> else eff0)
      in if eff_DurationTicks eff \<le> 0 then
           Some ([], eff_Type eff = ''haste_buff'',
             tell e pos (''[STATUS] The '' @ eff_Type eff @ '' effect worn off from '' @ tagged m e @ ''.'' @ crlf) g)
         else if eff_Type eff = ''poison'' \<or> eff_Type eff = ''burn'' then
           let eff1 = eff\<lparr>eff_DoTTickAccum := eff_DoTTickAccum eff + 1\<rparr>
           in if eff_DoTTickAccum eff1 \<ge> 4 then
                let eff2 = eff1\<lparr>eff_DoTTickAccum := 0\<rparr>
                in map_option (\<lambda>(dead, g1). (if dead then [] else [eff2], False, g1)) (dot_hit held e m pos eff2 g)
              else Some ([eff1], False, g)
         else Some ([eff], False, g))"

fun effects_loop ::
  "store_name set \<Rightarrow> entity \<Rightarrow> MetadataComponent \<Rightarrow> PositionComponent option \<Rightarrow> ActiveEffect list \<Rightarrow> Game \<Rightarrow>
   (ActiveEffect list \<times> bool \<times> Game) option" where
  "effects_loop held e m pos [] g = Some ([], False, g)"
| "effects_loop held e m pos (eff # effs) g = (case effect_tick held e m pos eff g of
     None \<Rightarrow> None
   | Some (kept, recalc, g1) \<Rightarrow> (case effects_loop held e m pos effs g1 of
       None \<Rightarrow> None
     | Some (rest, recalcs, g2) \<Rightarrow> Some (kept @ rest, recalc \<or> recalcs, g2)))"

definition effects_callback :: "store_name set \<Rightarrow> entity \<Rightarrow> EffectsComponent \<Rightarrow> Game \<Rightarrow> Game option" where
  "effects_callback held e ec g =
     (if length (ActiveList ec) = 0 then Some g
      else let effComp = Effects_Clone ec;
               m = meta_of (g_reg g) e;
               pos = GetPosition (g_reg g) e
           in case effects_loop held e m pos (ActiveList effComp) g of
                None \<Rightarrow> None
              | Some (activeRemaining, forceStatRecalc, g1) \<Rightarrow>
                  (case SetEffects_in held e (effComp\<lparr>ActiveList := activeRemaining\<rparr>) (g_reg g1) of
                     None \<Rightarrow> None
                   | Some r \<Rightarrow>
                       Some (g1\<lparr>g_reg := (if forceStatRecalc \<and> meta_Type m = EntityPlayer then RecalculateActiveStats e r else r)\<rparr>)))"

definition RunStatusEffectsSystem :: "Game \<Rightarrow> Game option" where
  "RunStatusEffectsSystem g = range_blocking (effects_callback {EffectsStore}) (entries (effects (g_reg g))) g"

definition TicksFromSeconds :: "int \<Rightarrow> u64" where
  "TicksFromSeconds seconds = of_int seconds * 4"

definition AddEffectWithTicks :: "entity \<Rightarrow> string \<Rightarrow> int \<Rightarrow> int \<Rightarrow> Game \<Rightarrow> Game" where
  "AddEffectWithTicks e effectType val durationTicks g = (case GetEffects (g_reg g) e of
     None \<Rightarrow> g
   | Some ec \<Rightarrow>
       let effComp = Effects_Clone ec;
           effComp = effComp\<lparr>ActiveList := ActiveList effComp @ [\<lparr>eff_Type = effectType, eff_Value = val,
             eff_DurationTicks = durationTicks, eff_DoTTickAccum = 0\<rparr>]\<rparr>
       in g\<lparr>g_reg := SetEffects e effComp (g_reg g)\<rparr>)"

subsection \<open>The walk blocks\<close>

lemma effects_callback_held:
  "effects_callback {EffectsStore} e ec g = (if ActiveList ec = [] then Some g else None)"
  by (auto simp: effects_callback_def SetEffects_in_def Let_def split: option.split)

text \<open>The system returns exactly when nobody has an active effect, and then it has done nothing.\<close>

lemma effects_block:
  assumes "store_ok (effects (g_reg g))"
  shows "RunStatusEffectsSystem g = (if \<exists>e ec. GetEffects (g_reg g) e = Some ec \<and> ActiveList ec \<noteq> [] then None else Some g)"
proof -
  let ?f = "effects_callback {EffectsStore}" and ?es = "entries (effects (g_reg g))"
  have mem: "(e, c) \<in> set ?es \<longleftrightarrow> GetEffects (g_reg g) e = Some c" for e c
    using set_entries [OF assms] by (simp add: GetEffects_def)
  show ?thesis
  proof (cases "\<exists>e ec. GetEffects (g_reg g) e = Some ec \<and> ActiveList ec \<noteq> []")
    case True
    then obtain e c where ec: "(e, c) \<in> set ?es" "ActiveList c \<noteq> []" by (auto simp: mem)
    have "range_blocking ?f ?es g = None"
      by (rule range_blocking_stuck [where P = "\<lambda>h. True", OF ec(1)]) (simp_all add: effects_callback_held ec(2))
    with True show ?thesis by (simp add: RunStatusEffectsSystem_def)
  next
    case False
    then have "range_blocking ?f ?es g = Some g"
      by (intro range_blocking_skip) (auto simp: effects_callback_held mem)
    with False show ?thesis by (simp add: RunStatusEffectsSystem_def)
  qed
qed

text \<open>Without an effects component an effect cannot be added.\<close>

lemma AddEffect_needs_component: "GetEffects (g_reg g) e = None \<Longrightarrow> AddEffectWithTicks e t v n g = g"
  by (simp add: AddEffectWithTicks_def)

subsection \<open>What one entity's effects do\<close>

text \<open>
  The loop itself, were it not for the lock: durations count down, what stays has time left, and nobody's hit
  points change but the bearer's.
\<close>

lemma tell_steady: "only_sends g (tell e pos text g)"
  by (auto simp: tell_def intro: send_intros split: option.split)

lemma effect_tick_kept:
  "effect_tick held e m pos eff g = Some (kept, b, g') \<Longrightarrow> x \<in> set kept \<Longrightarrow>
     eff_Type x = eff_Type eff \<and> eff_Value x = eff_Value eff \<and> eff_DurationTicks x = eff_DurationTicks eff - 1 \<and>
     0 < eff_DurationTicks x \<and> (eff_DoTTickAccum eff < 4 \<longrightarrow> eff_DoTTickAccum x < 4)"
  by (auto simp: effect_tick_def Let_def split: if_splits option.splits prod.splits)

lemma effects_loop_kept:
  "effects_loop held e m pos effs g = Some (kept, b, g') \<Longrightarrow> x \<in> set kept \<Longrightarrow>
     \<exists>eff \<in> set effs. eff_Type x = eff_Type eff \<and> eff_Value x = eff_Value eff \<and> eff_DurationTicks x = eff_DurationTicks eff - 1 \<and>
       0 < eff_DurationTicks x"
proof (induction effs arbitrary: g kept b g')
  case (Cons eff effs)
  obtain k1 b1 g1 where t: "effect_tick held e m pos eff g = Some (k1, b1, g1)"
    using Cons.prems(1) by (auto split: option.splits)
  obtain k2 b2 g2 where l: "effects_loop held e m pos effs g1 = Some (k2, b2, g2)" and kept: "kept = k1 @ k2"
    using Cons.prems(1) t by (auto split: option.splits)
  from Cons.prems(2) kept consider "x \<in> set k1" | "x \<in> set k2" by auto
  then show ?case
  proof cases
    case 1
    from effect_tick_kept [OF t 1] show ?thesis by auto
  next
    case 2
    from Cons.IH [OF l 2] show ?thesis by auto
  qed
qed simp

end
