(* ===== verification/Movement.thy ===== *)
theory Movement
  imports Progression
begin

text \<open>
  \<open>MovementSystem\<close> of \<open>server/game/movement.go\<close>, which moves players and monsters alike: bounds, distance (by the
  anti-cheat validator of the connection, when there is one), blocked tiles, then the registry, the grid and
  the position packets. The validator is reached through the connection component. A direct write to a
  connection without a writer is listed among the frames sent.
\<close>

subsection \<open>Definitions\<close>

definition staticOutOfBoundsNotice :: byte_seq where
  "staticOutOfBoundsNotice = bytes_of (''Movement rejected! Out of bounds.'' @ crlf)"

definition staticCollisionNotice :: byte_seq where
  "staticCollisionNotice = bytes_of (''Collision Alert: Path is blocked by a solid obstacle!'' @ crlf)"

definition staticAntiCheatNotice :: byte_seq where
  "staticAntiCheatNotice = bytes_of (''Movement rejected! Teleport/Speed hack detected.'' @ crlf)"

definition position_frame :: "entity \<Rightarrow> PositionComponent \<Rightarrow> byte_seq" where
  "position_frame e p = WritePositionSync [] \<lparr>ps_EntityID = e, ps_X = of_int (PosX p), ps_Z = of_int (PosZ p)\<rparr>"

definition broadcastBinaryMovement :: "entity \<Rightarrow> PositionComponent \<Rightarrow> Game \<Rightarrow> Game" where
  "broadcastBinaryMovement e pos g =
     (let buf = position_frame e pos;
          g1 = (case GetConnection (g_reg g) e of
                  None \<Rightarrow> g
                | Some c \<Rightarrow> if conn_writer c \<noteq> None then g\<lparr>g_out := g_out g @ [(e, buf)]\<rparr>
                    else if has_conn c then g\<lparr>g_out := g_out g @ [(e, buf)]\<rparr> else g)
      in BroadcastToNeighbors pos buf e g1)"

text \<open>The distance check: whether the move may go on, and the state after it.\<close>

definition distance_check :: "entity \<Rightarrow> PositionComponent \<Rightarrow> int \<Rightarrow> int \<Rightarrow> Game \<Rightarrow> bool \<times> Game" where
  "distance_check e pos x z g =
     (let maxMoveDist = MaxMoveDistance (g_config g)
      in case GetConnection (g_reg g) e of
        Some c \<Rightarrow>
          (case conn_validator c of
             Some v \<Rightarrow>
               (case ValidateMovement pos \<lparr>MapID = MapID pos, PosX = x, PosZ = z\<rparr> maxMoveDist (GetCurrentTick g) v of
                  (ok, v') \<Rightarrow> let g1 = g\<lparr>g_reg := SetConnection e (c\<lparr>conn_validator := Some v'\<rparr>) (g_reg g)\<rparr>
                    in if \<not> ok then (False, SendNoticeSystem e staticAntiCheatNotice g1) else (True, g1))
           | None \<Rightarrow>
               if \<not> InRangeInt (PosX pos) (PosZ pos) x z maxMoveDist
               then (False, SendNoticeSystem e staticAntiCheatNotice g) else (True, g))
      | None \<Rightarrow> (InRangeInt (PosX pos) (PosZ pos) x z maxMoveDist, g))"

definition MovementSystem :: "entity \<Rightarrow> int \<Rightarrow> int \<Rightarrow> Game \<Rightarrow> bool \<times> Game" where
  "MovementSystem e x z g =
     (if \<not> InBounds x z 0 1000 then (False, SendNoticeSystem e staticOutOfBoundsNotice g)
      else case GetPosition (g_reg g) e of
        None \<Rightarrow> (False, g)
      | Some pos \<Rightarrow>
        (case distance_check e pos x z g of (ok, g1) \<Rightarrow>
           if \<not> ok then (False, g1)
           else if IsTileBlocked (MapID pos) x z then (False, SendNoticeSystem e staticCollisionNotice g1)
           else let pos' = pos\<lparr>PosX := x, PosZ := z\<rparr>;
                    g2 = g1\<lparr>g_reg := SetPosition e pos' (g_reg g1), g_grid := UpdateEntityPosition e pos' (g_grid g1)\<rparr>
                in (True, broadcastBinaryMovement e pos' g2)))"

subsection \<open>Lemmas\<close>

lemma broadcastBinaryMovement_sends [send_intros]: "only_sends g (broadcastBinaryMovement e p g)"
proof -
  let ?g1 = "case GetConnection (g_reg g) e of
                  None \<Rightarrow> g
                | Some c \<Rightarrow> if conn_writer c \<noteq> None then g\<lparr>g_out := g_out g @ [(e, position_frame e p)]\<rparr>
                    else if has_conn c then g\<lparr>g_out := g_out g @ [(e, position_frame e p)]\<rparr> else g"
  have "only_sends g ?g1" by (auto intro: send_intros split: option.split)
  from only_sends_trans [OF this notices_only_send(3)] show ?thesis
    by (simp add: broadcastBinaryMovement_def Let_def)
qed

lemmas moved_sent [simp] = broadcastBinaryMovement_sends [THEN only_sendsD(1)] broadcastBinaryMovement_sends [THEN only_sendsD(2)]
  broadcastBinaryMovement_sends [THEN only_sendsD(3)] broadcastBinaryMovement_sends [THEN only_sendsD(4)]
  broadcastBinaryMovement_sends [THEN only_sendsD(8)]
  broadcastBinaryMovement_sends [THEN only_sendsD(9)] broadcastBinaryMovement_sends [THEN only_sendsD(10)]
  broadcastBinaryMovement_sends [THEN only_sendsD(6)] broadcastBinaryMovement_sends [THEN only_sendsD(7)]

text \<open>The check is the distance alone, and touches only the validator.\<close>

lemma distance_check_spec:
  assumes ok: "game_ok g L I" and e: "e \<in> L" and run: "distance_check e pos x z g = (b, g1)"
  shows "b \<longleftrightarrow> InRangeInt (PosX pos) (PosZ pos) x z (MaxMoveDistance (g_config g))"
    and "game_ok g1 L I" and "g_grid g1 = g_grid g" and "g_config g1 = g_config g" and "g_fsms g1 = g_fsms g"
    and "GetPosition (g_reg g1) = GetPosition (g_reg g)" "GetStats (g_reg g1) = GetStats (g_reg g)"
    "GetAI (g_reg g1) = GetAI (g_reg g)" "GetMetadata (g_reg g1) = GetMetadata (g_reg g)"
    "GetInventory (g_reg g1) = GetInventory (g_reg g)" "GetEffects (g_reg g1) = GetEffects (g_reg g)"
    and "\<And>w. map_option (\<lambda>c. c\<lparr>conn_validator := w\<rparr>) \<circ> GetConnection (g_reg g1) = map_option (\<lambda>c. c\<lparr>conn_validator := w\<rparr>) \<circ> GetConnection (g_reg g)"
proof -
  have set_conn: "game_ok (set_reg (SetConnection e c (g_reg g)) g) L I" "GetConnection (SetConnection e c (g_reg g)) = (GetConnection (g_reg g))(e \<mapsto> c)" for c
    using Set_live(3,4) [OF game_okD(1) [OF ok] e] ok by (simp_all add: game_ok_def)
  have sent: "game_ok (SendNoticeSystem e d h) L I = game_ok h L I" for d h by (rule game_ok_sends) (rule send_intros)
  note D = distance_check_def Let_def
  have all: "(b \<longleftrightarrow> InRangeInt (PosX pos) (PosZ pos) x z (MaxMoveDistance (g_config g))) \<and> game_ok g1 L I \<and> g_grid g1 = g_grid g \<and>
    g_config g1 = g_config g \<and> g_fsms g1 = g_fsms g \<and>
    GetPosition (g_reg g1) = GetPosition (g_reg g) \<and> GetStats (g_reg g1) = GetStats (g_reg g) \<and> GetAI (g_reg g1) = GetAI (g_reg g) \<and>
    GetMetadata (g_reg g1) = GetMetadata (g_reg g) \<and> GetInventory (g_reg g1) = GetInventory (g_reg g) \<and> GetEffects (g_reg g1) = GetEffects (g_reg g) \<and>
    (\<forall>w. map_option (\<lambda>c. c\<lparr>conn_validator := w\<rparr>) \<circ> GetConnection (g_reg g1) = map_option (\<lambda>c. c\<lparr>conn_validator := w\<rparr>) \<circ> GetConnection (g_reg g))"
  proof (cases "GetConnection (g_reg g) e")
    case None
    with run ok show ?thesis by (auto simp: D)
  next
    case (Some c)
    show ?thesis
    proof (cases "conn_validator c")
      case None
      with Some run ok show ?thesis by (auto simp: D sent split: if_splits)
    next
      case v: (Some v)
      obtain b' v' where vm: "ValidateMovement pos \<lparr>MapID = MapID pos, PosX = x, PosZ = z\<rparr> (MaxMoveDistance (g_config g)) (GetCurrentTick g) v = (b', v')"
        by force
      let ?g1 = "set_reg (SetConnection e (c\<lparr>conn_validator := Some v'\<rparr>) (g_reg g)) g"
      have b: "b = b'" "g1 = (if b' then ?g1 else SendNoticeSystem e staticAntiCheatNotice ?g1)"
        using run Some v vm by (auto simp: D split: if_splits)
      have "map_option (\<lambda>c. c\<lparr>conn_validator := w\<rparr>) \<circ> GetConnection (SetConnection e (c\<lparr>conn_validator := Some v'\<rparr>) (g_reg g)) =
          map_option (\<lambda>c. c\<lparr>conn_validator := w\<rparr>) \<circ> GetConnection (g_reg g)" for w
        using Some by (auto simp: set_conn fun_eq_iff)
      with set_conn(1) show ?thesis
        using vm by (auto simp: b sent ValidateMovement_def split: if_splits)
    qed
  qed
  then show "b \<longleftrightarrow> InRangeInt (PosX pos) (PosZ pos) x z (MaxMoveDistance (g_config g))"
    and "game_ok g1 L I" and "g_grid g1 = g_grid g" and "g_config g1 = g_config g" and "g_fsms g1 = g_fsms g"
    and "GetPosition (g_reg g1) = GetPosition (g_reg g)" "GetStats (g_reg g1) = GetStats (g_reg g)"
    "GetAI (g_reg g1) = GetAI (g_reg g)" "GetMetadata (g_reg g1) = GetMetadata (g_reg g)"
    "GetInventory (g_reg g1) = GetInventory (g_reg g)" "GetEffects (g_reg g1) = GetEffects (g_reg g)"
    and "\<And>w. map_option (\<lambda>c. c\<lparr>conn_validator := w\<rparr>) \<circ> GetConnection (g_reg g1) = map_option (\<lambda>c. c\<lparr>conn_validator := w\<rparr>) \<circ> GetConnection (g_reg g)"
    by blast+
qed

text \<open>What a move needs, and what it does.\<close>

definition may_move :: "Game \<Rightarrow> entity \<Rightarrow> int \<Rightarrow> int \<Rightarrow> bool" where
  "may_move g e x z \<longleftrightarrow> 0 \<le> x \<and> x \<le> 1000 \<and> 0 \<le> z \<and> z \<le> 1000 \<and> (\<exists>p. GetPosition (g_reg g) e = Some p \<and>
     DistanceSq (PosX p) (PosZ p) x z \<le> MaxMoveDistance (g_config g) * MaxMoveDistance (g_config g) \<and> \<not> IsTileBlocked (MapID p) x z)"

lemma Movement_step:
  assumes ok: "game_ok g L I" and run: "MovementSystem e x z g = (b, g')"
  shows "b \<longleftrightarrow> may_move g e x z" and "game_ok g' L I"
    and "GetPosition (g_reg g') = (if b then (GetPosition (g_reg g))(e \<mapsto> (the (GetPosition (g_reg g) e))\<lparr>PosX := x, PosZ := z\<rparr>) else GetPosition (g_reg g))"
    and "grid_of (g_grid g') = (if b then (grid_of (g_grid g))(e \<mapsto> (the (GetPosition (g_reg g) e))\<lparr>PosX := x, PosZ := z\<rparr>) else grid_of (g_grid g))"
    and "GetStats (g_reg g') = GetStats (g_reg g)" "GetAI (g_reg g') = GetAI (g_reg g)" "GetMetadata (g_reg g') = GetMetadata (g_reg g)"
    "GetInventory (g_reg g') = GetInventory (g_reg g)" "GetEffects (g_reg g') = GetEffects (g_reg g)" "g_fsms g' = g_fsms g"
proof -
  have sent: "game_ok (SendNoticeSystem e d h) L I = game_ok h L I" for d h by (rule game_ok_sends) (rule send_intros)
  have moved: "game_ok (broadcastBinaryMovement e p h) L I = game_ok h L I" for p h by (rule game_ok_sends) (rule send_intros)
  note D = MovementSystem_def InBounds_def Let_def
  have "(b \<longleftrightarrow> may_move g e x z) \<and> game_ok g' L I \<and>
    GetPosition (g_reg g') = (if b then (GetPosition (g_reg g))(e \<mapsto> (the (GetPosition (g_reg g) e))\<lparr>PosX := x, PosZ := z\<rparr>) else GetPosition (g_reg g)) \<and>
    grid_of (g_grid g') = (if b then (grid_of (g_grid g))(e \<mapsto> (the (GetPosition (g_reg g) e))\<lparr>PosX := x, PosZ := z\<rparr>) else grid_of (g_grid g)) \<and>
    GetStats (g_reg g') = GetStats (g_reg g) \<and> GetAI (g_reg g') = GetAI (g_reg g) \<and> GetMetadata (g_reg g') = GetMetadata (g_reg g) \<and>
    GetInventory (g_reg g') = GetInventory (g_reg g) \<and> GetEffects (g_reg g') = GetEffects (g_reg g) \<and> g_fsms g' = g_fsms g"
  proof (cases "InBounds x z 0 1000 \<and> GetPosition (g_reg g) e \<noteq> None")
    case False
    then have "\<not> may_move g e x z" by (auto simp: may_move_def InBounds_def)
    with False run ok show ?thesis by (cases "GetPosition (g_reg g) e") (auto simp: D sent split: if_splits)
  next
    case True
    then obtain p where p: "GetPosition (g_reg g) e = Some p" and bnd: "InBounds x z 0 1000" by blast
    have e: "e \<in> L" by (rule live_of_component(2) [OF ok p])
    obtain d g1 where d: "distance_check e p x z g = (d, g1)" by force
    note C = distance_check_spec [OF ok e d]
    have may: "may_move g e x z \<longleftrightarrow> d \<and> \<not> IsTileBlocked (MapID p) x z"
      using bnd p C(1) by (auto simp: may_move_def InBounds_def InRangeInt_def)
    show ?thesis
    proof (cases "d \<and> \<not> IsTileBlocked (MapID p) x z")
      case False
      have "\<not> b \<and> only_sends g1 g'" using run d p bnd False by (auto simp: MovementSystem_def intro: send_intros split: if_splits)
      then show ?thesis using C may False
        by (simp add: only_sendsD [of g1 g'] game_ok_sends [of g1 g'])
    next
      case True
      let ?p' = "p\<lparr>PosX := x, PosZ := z\<rparr>"
      let ?g2 = "g1\<lparr>g_reg := SetPosition e ?p' (g_reg g1), g_grid := UpdateEntityPosition e ?p' (g_grid g1)\<rparr>"
      have g': "b" "g' = broadcastBinaryMovement e ?p' ?g2"
        using run d p bnd True by (auto simp: MovementSystem_def Let_def split: if_splits)
      note M = move_ok [OF C(2) e, of ?p']
      show ?thesis using M C may True p by (simp add: g' moved)
    qed
  qed
  then show "b \<longleftrightarrow> may_move g e x z" and "game_ok g' L I"
    and "GetPosition (g_reg g') = (if b then (GetPosition (g_reg g))(e \<mapsto> (the (GetPosition (g_reg g) e))\<lparr>PosX := x, PosZ := z\<rparr>) else GetPosition (g_reg g))"
    and "grid_of (g_grid g') = (if b then (grid_of (g_grid g))(e \<mapsto> (the (GetPosition (g_reg g) e))\<lparr>PosX := x, PosZ := z\<rparr>) else grid_of (g_grid g))"
    and "GetStats (g_reg g') = GetStats (g_reg g)" "GetAI (g_reg g') = GetAI (g_reg g)" "GetMetadata (g_reg g') = GetMetadata (g_reg g)"
    "GetInventory (g_reg g') = GetInventory (g_reg g)" "GetEffects (g_reg g') = GetEffects (g_reg g)" "g_fsms g' = g_fsms g"
    by blast+
qed

lemma Movement_config: "MovementSystem e x z g = (b, g') \<Longrightarrow> g_config g' = g_config g"
  by (auto simp: MovementSystem_def distance_check_def Let_def split: if_splits option.splits prod.splits)

subsection \<open>Requests over time\<close>

fun run_moves :: "(entity \<times> int \<times> int) list \<Rightarrow> Game \<Rightarrow> bool list \<times> Game" where
  "run_moves [] g = ([], g)"
| "run_moves ((e, x, z) # ms) g = (case MovementSystem e x z g of (b, g1) \<Rightarrow>
     (case run_moves ms g1 of (bs, g2) \<Rightarrow> (b # bs, g2)))"

text \<open>The contract: a map of positions.\<close>

definition allowed :: "int \<Rightarrow> PositionComponent \<Rightarrow> int \<Rightarrow> int \<Rightarrow> bool" where
  "allowed d p x z \<longleftrightarrow> 0 \<le> x \<and> x \<le> 1000 \<and> 0 \<le> z \<and> z \<le> 1000 \<and> (PosX p - x) ^ 2 + (PosZ p - z) ^ 2 \<le> d ^ 2 \<and>
     \<not> IsTileBlocked (MapID p) x z"

fun spec_moves :: "int \<Rightarrow> (entity \<times> int \<times> int) list \<Rightarrow> (entity \<rightharpoonup> PositionComponent) \<Rightarrow> bool list \<times> (entity \<rightharpoonup> PositionComponent)" where
  "spec_moves d [] m = ([], m)"
| "spec_moves d ((e, x, z) # ms) m =
     (let b = (case m e of None \<Rightarrow> False | Some p \<Rightarrow> allowed d p x z);
          m1 = (if b then m(e \<mapsto> (the (m e))\<lparr>PosX := x, PosZ := z\<rparr>) else m)
      in case spec_moves d ms m1 of (bs, m2) \<Rightarrow> (b # bs, m2))"

lemma may_move_allowed:
  "may_move g e x z \<longleftrightarrow> (case GetPosition (g_reg g) e of None \<Rightarrow> False | Some p \<Rightarrow> allowed (MaxMoveDistance (g_config g)) p x z)"
  by (auto simp: may_move_def allowed_def DistanceSq_def power2_eq_square Let_def split: option.split)

subsection \<open>Properties\<close>

text \<open>
  C9 Any sequence of movement requests refines a map of positions: a request is accepted exactly when its target
  is within the bounds, within the configured distance and not blocked, and then moves that entity there; a
  rejected one moves nobody. Registry and grid agree throughout, and stats, bags and effects are untouched.
\<close>

theorem movement_refines:
  assumes "game_ok g L I" and "run_moves ms g = (bs, g')"
  shows "spec_moves (MaxMoveDistance (g_config g)) ms (GetPosition (g_reg g)) = (bs, GetPosition (g_reg g')) \<and>
    game_ok g' L I \<and> grid_of (g_grid g') \<subseteq>\<^sub>m GetPosition (g_reg g') \<and>
    GetStats (g_reg g') = GetStats (g_reg g) \<and> GetInventory (g_reg g') = GetInventory (g_reg g) \<and> GetEffects (g_reg g') = GetEffects (g_reg g)"
  using assms
proof (induction ms arbitrary: g bs)
  case (Cons m ms)
  obtain e x z where m: "m = (e, x, z)" by (cases m)
  obtain b g1 where b: "MovementSystem e x z g = (b, g1)" by force
  obtain bs' where bs: "run_moves ms g1 = (bs', g')" "bs = b # bs'" using Cons.prems(2) b by (auto simp: m split: prod.splits)
  note M = Movement_step [OF Cons.prems(1) b] and cfg = Movement_config [OF b]
  from Cons.IH [OF M(2) bs(1)] M cfg bs(2) show ?case
    by (simp add: m may_move_allowed [symmetric] Let_def)
qed (use game_okD in auto)

text \<open>The hero may step beside the wall tile (7, 6) of the town but not onto it, and may not jump.\<close>

theorem movement_refines_witness:
  "\<exists>g'. run_moves [(hero, 4, 3), (hero, 9, 3), (hero, 6, 3), (hero, 7, 4), (hero, 7, 6), (hero, 6, 6)] arena =
     ([True, False, True, True, False, False], g')"
proof -
  obtain bs g' where run: "run_moves [(hero, 4, 3), (hero, 9, 3), (hero, 6, 3), (hero, 7, 4), (hero, 7, 6), (hero, 6, 6)] arena = (bs, g')"
    by force
  have "bs = [True, False, True, True, False, False]"
    using movement_refines [OF arena_ok run]
    by (simp add: arena_reg hero_pos_def allowed_def DefaultConfig_def IsTileBlocked_def ServerCollisionData_def townGrid_def
        MapWidth_def MapHeight_def Let_def)
  with run show ?thesis by blast
qed

end
