(* ===== verification/Monster_AI.thy ===== *)
theory Monster_AI
  imports Attack Movement
begin

text \<open>
  \<open>server/game/ai_roaming.go\<close>: the tick of a monster. A handler takes the copy of the AI component and the game and
  returns both; \<open>TickAI\<close> writes the copy back. The path is an array of 512 points; an index outside of it
  panics, and so does the death message of an attack (\<open>Attack\<close>), which is \<open>None\<close>. The threat table that the
  component points to is part of the copy: during a tick nobody else reads or writes it.
\<close>

subsection \<open>Events and paths\<close>

type_synonym mind = "AIComponent \<times> Game"

definition ai_send :: "entity \<Rightarrow> MonsterEvent \<Rightarrow> mind \<Rightarrow> mind" where
  "ai_send e ev m = (case m of (c, g) \<Rightarrow>
     (case MonsterFSMSend e ev (c, g_fsms g) of (_, c', fs) \<Rightarrow> (c', g\<lparr>g_fsms := fs\<rparr>)))"

definition requestPath :: "PositionComponent \<Rightarrow> int \<Rightarrow> int \<Rightarrow> mind \<Rightarrow> bool \<times> mind" where
  "requestPath pos goalX goalZ m = (case m of (c, g) \<Rightarrow>
     if path_Found (ai_CurrentPath c) \<and> ai_PathFollowIdx c \<ge> 0 \<and> ai_PathFollowIdx c < int (path_Len (ai_CurrentPath c)) \<and>
        ai_PathGoalX c = goalX \<and> ai_PathGoalZ c = goalZ \<and> ai_PathMapID c = MapID pos
     then (True, c, g)
     else case g_mesh g of
       None \<Rightarrow> (False, c\<lparr>ai_PathFollowIdx := -1\<rparr>, g)
     | Some nm \<Rightarrow> (case nav_FindPathWithCache (g_config g) (MapID pos) (PosX pos) (PosZ pos) goalX goalZ nm of (p, nm') \<Rightarrow>
         let c1 = c\<lparr>ai_CurrentPath := p\<rparr>; g1 = g\<lparr>g_mesh := Some nm'\<rparr>
         in if \<not> path_Found p then (False, c1\<lparr>ai_PathFollowIdx := -1\<rparr>, g1)
            else (True, c1\<lparr>ai_PathFollowIdx := 1, ai_PathGoalX := goalX, ai_PathGoalZ := goalZ, ai_PathMapID := MapID pos\<rparr>, g1)))"

text \<open>The next step: where to, whether the path is over, and the component.\<close>

definition advancePath :: "PositionComponent \<Rightarrow> AIComponent \<Rightarrow> ((int \<times> int \<times> bool) \<times> AIComponent) option" where
  "advancePath pos c =
     (let pts = path_Points (ai_CurrentPath c); stop = (PosX pos, PosZ pos, True)
      in if \<not> path_Found (ai_CurrentPath c) \<or> ai_PathFollowIdx c < 0 then Some (stop, c)
         else if ai_PathFollowIdx c \<ge> int (length pts) then None
         else let c1 = (if (PosX pos, PosZ pos) = pts ! nat (ai_PathFollowIdx c)
                        then c\<lparr>ai_PathFollowIdx := ai_PathFollowIdx c + 1\<rparr> else c)
              in if ai_PathFollowIdx c1 \<ge> int (path_Len (ai_CurrentPath c1)) then Some (stop, c1\<lparr>ai_PathFollowIdx := -1\<rparr>)
                 else if ai_PathFollowIdx c1 \<ge> int (length pts) then None
                 else case pts ! nat (ai_PathFollowIdx c1) of (nextX, nextZ) \<Rightarrow>
                   if IsTileBlocked (ai_PathMapID c1) nextX nextZ then Some (stop, c1\<lparr>ai_PathFollowIdx := -1\<rparr>)
                   else Some ((nextX, nextZ, False), c1))"

fun roam_loop :: "nat \<Rightarrow> PositionComponent \<Rightarrow> AIComponent \<Rightarrow> Game \<Rightarrow> (int \<times> int) option \<times> Game" where
  "roam_loop 0 pos c g = (None, g)"
| "roam_loop (Suc n) pos c g =
     (case draw 5 g of (a, g1) \<Rightarrow> (case draw 5 g1 of (b, g2) \<Rightarrow>
        let dx = a - 2; dz = b - 2; nx = PosX pos + dx; nz = PosZ pos + dz
        in if dx = 0 \<and> dz = 0 then roam_loop n pos c g2
           else if \<not> InRangeInt nx nz (ai_SpawnX c) (ai_SpawnZ c) (ai_SpawnRadius c) then roam_loop n pos c g2
           else if \<not> InBounds nx nz 0 100 then roam_loop n pos c g2
           else if IsTileBlocked (MapID pos) nx nz then roam_loop n pos c g2
           else (Some (nx, nz), g2)))"

definition pickRoamTarget :: "entity \<Rightarrow> AIComponent \<Rightarrow> Game \<Rightarrow> (int \<times> int) option \<times> Game" where
  "pickRoamTarget e c g = (case GetPosition (g_reg g) e of None \<Rightarrow> (None, g) | Some pos \<Rightarrow> roam_loop 8 pos c g)"

text \<open>The player of the highest threat, when it is in aggro range.\<close>

definition threat_aggro :: "entity \<Rightarrow> AIComponent \<Rightarrow> Registry \<Rightarrow> entity option" where
  "threat_aggro e c r = (case ai_ThreatTable c of
     None \<Rightarrow> None
   | Some tt \<Rightarrow> if threat_Len tt > 0 then
       (case threat_Top tt of (best, n) \<Rightarrow>
         if n > 0 then
           (case (GetPosition r best, GetPosition r e) of
              (Some q, Some p) \<Rightarrow> if InRangeInt (PosX p) (PosZ p) (PosX q) (PosZ q) (go_int (ai_AggroRadius c)) then Some best else None
            | _ \<Rightarrow> None)
         else None)
     else None)"

subsection \<open>The states\<close>

definition tickIdle :: "entity \<Rightarrow> mind \<Rightarrow> mind" where
  "tickIdle e m = (case m of (c, g) \<Rightarrow>
     (case threat_aggro e c (g_reg g) of
        Some p \<Rightarrow> ai_send e MonsterEvAggro (c\<lparr>ai_TargetID := p\<rparr>, g)
      | None \<Rightarrow> (case GetNearestPlayer (g_reg g) (g_grid g) e (ai_AggroRadius c) of
          Some n \<Rightarrow> ai_send e MonsterEvAggro (c\<lparr>ai_TargetID := nr_ID n\<rparr>, g)
        | None \<Rightarrow>
            if timer_Ready (ai_IdleTimer c) then
              let c1 = c\<lparr>ai_IdleTimer := timer_Reset (ai_IdleTimer c)\<rparr>
              in (case pickRoamTarget e c1 g of
                    (None, g1) \<Rightarrow> (c1, g1)
                  | (Some (x, z), g1) \<Rightarrow> ai_send e MonsterEvTick (c1\<lparr>ai_RoamTargetX := x, ai_RoamTargetZ := z\<rparr>, g1))
            else (c, g))))"

definition path_done :: "entity \<Rightarrow> mind \<Rightarrow> mind" where
  "path_done e m = (case ai_send e MonsterEvPathDone m of (c, g) \<Rightarrow> (c\<lparr>ai_IdleTimer := timer_Reset (ai_IdleTimer c)\<rparr>, g))"

definition roam_along :: "entity \<Rightarrow> PositionComponent \<Rightarrow> mind \<Rightarrow> mind option" where
  "roam_along e pos m = (case m of (c, g) \<Rightarrow>
     if ai_PathFollowIdx c \<ge> 0 then
       (case advancePath pos c of
          None \<Rightarrow> None
        | Some ((x, z, arrived), c1) \<Rightarrow> if arrived then Some (path_done e (c1, g)) else Some (c1, snd (MovementSystem e x z g)))
     else Some (path_done e (c, g)))"

definition tickRoaming :: "entity \<Rightarrow> mind \<Rightarrow> mind option" where
  "tickRoaming e m = (case m of (c, g) \<Rightarrow>
     (case GetNearestPlayer (g_reg g) (g_grid g) e (ai_AggroRadius c) of
        Some n \<Rightarrow> Some (ai_send e MonsterEvAggro (c\<lparr>ai_TargetID := nr_ID n\<rparr>, g))
      | None \<Rightarrow> (case GetPosition (g_reg g) e of
          None \<Rightarrow> Some (ai_send e MonsterEvPathDone (c, g))
        | Some pos \<Rightarrow>
            if PosX pos = ai_RoamTargetX c \<and> PosZ pos = ai_RoamTargetZ c then Some (path_done e (c, g))
            else if timer_Ready (ai_PathTimer c) then
              (case requestPath pos (ai_RoamTargetX c) (ai_RoamTargetZ c) (c\<lparr>ai_PathTimer := timer_Reset (ai_PathTimer c)\<rparr>, g) of
                 (False, m1) \<Rightarrow> Some (path_done e m1)
               | (True, m1) \<Rightarrow> roam_along e pos m1)
            else roam_along e pos (c, g))))"

text \<open>Following the path towards a target: both handlers that use it ignore whether it is over.\<close>

definition walk_towards :: "entity \<Rightarrow> PositionComponent \<Rightarrow> int \<Rightarrow> int \<Rightarrow> mind \<Rightarrow> mind option" where
  "walk_towards e pos goalX goalZ m = (case m of (c, g) \<Rightarrow>
     (let (c1, g1) = (if timer_Ready (ai_PathTimer c)
            then snd (requestPath pos goalX goalZ (c\<lparr>ai_PathTimer := timer_Reset (ai_PathTimer c)\<rparr>, g)) else (c, g))
      in if ai_PathFollowIdx c1 \<ge> 0 then
           (case advancePath pos c1 of None \<Rightarrow> None | Some ((x, z, _), c2) \<Rightarrow> Some (c2, snd (MovementSystem e x z g1)))
         else Some (c1, g1)))"

definition lose_target :: "entity \<Rightarrow> mind \<Rightarrow> mind" where
  "lose_target e m = (case m of (c, g) \<Rightarrow> ai_send e MonsterEvLostTarget (c\<lparr>ai_TargetID := 0\<rparr>, g))"

text \<open>The decay of the threat, which may rebuild the heap, and the switch to the top of the table.\<close>

definition decay_threat :: "AIComponent \<Rightarrow> AIComponent option" where
  "decay_threat c = (case ai_ThreatTable c of
     None \<Rightarrow> Some c
   | Some tt \<Rightarrow> map_option (\<lambda>tt. c\<lparr>ai_ThreatTable := Some tt\<rparr>) (threat_Decay tt))"

definition switch_target :: "Registry \<Rightarrow> AIComponent \<Rightarrow> AIComponent" where
  "switch_target r c = (case ai_ThreatTable c of
     None \<Rightarrow> c
   | Some tt \<Rightarrow> (case threat_Top tt of (best, n) \<Rightarrow>
       if n > 0 \<and> best \<noteq> ai_TargetID c \<and> GetPosition r best \<noteq> None then c\<lparr>ai_TargetID := best\<rparr> else c))"

definition tickChasing :: "entity \<Rightarrow> mind \<Rightarrow> mind option" where
  "tickChasing e m = (case m of (c0, g) \<Rightarrow>
     if ai_TargetID c0 = 0 then Some (ai_send e MonsterEvLostTarget (c0, g))
     else case decay_threat c0 of
       None \<Rightarrow> None
     | Some c1 \<Rightarrow>
       let c = switch_target (g_reg g) c1
       in (case GetPosition (g_reg g) (ai_TargetID c) of
             None \<Rightarrow> Some (lose_target e (c, g))
           | Some q \<Rightarrow> (case GetPosition (g_reg g) e of
               None \<Rightarrow> Some (c, g)
             | Some p \<Rightarrow>
                 if \<not> InRangeInt (PosX p) (PosZ p) (ai_SpawnX c) (ai_SpawnZ c) (ai_LeashRadius c) then Some (lose_target e (c, g))
                 else if InRangeInt (PosX p) (PosZ p) (PosX q) (PosZ q) (ai_MeleeRange c) then Some (ai_send e MonsterEvInRange (c, g))
                 else walk_towards e p (PosX q) (PosZ q) (c, g))))"

text \<open>The threat of the target is forgotten before the target itself.\<close>

definition forget_target :: "entity \<Rightarrow> mind \<Rightarrow> mind option" where
  "forget_target e m = (case m of (c, g) \<Rightarrow>
     (case ai_ThreatTable c of
        None \<Rightarrow> Some (lose_target e (c, g))
      | Some tt \<Rightarrow> map_option (\<lambda>tt. lose_target e (c\<lparr>ai_ThreatTable := Some tt\<rparr>, g)) (threat_Remove (ai_TargetID c) tt)))"

definition strike :: "entity \<Rightarrow> mind \<Rightarrow> mind option" where
  "strike e m = (case m of (c, g) \<Rightarrow>
     (case AttackSystem e (ai_TargetID c) g of
        None \<Rightarrow> None
      | Some (Inl err, g1) \<Rightarrow> forget_target e (c, g1)
      | Some (Inr result, g1) \<Rightarrow>
          let c1 = c\<lparr>ai_AttackTimer := timer_Reset (ai_AttackTimer c)\<rparr>
          in if Killed result then forget_target e (c1, g1) else Some (c1, g1)))"

definition tickAttacking :: "entity \<Rightarrow> mind \<Rightarrow> mind option" where
  "tickAttacking e m = (case m of (c, g) \<Rightarrow>
     if ai_TargetID c = 0 then Some (ai_send e MonsterEvLostTarget (c, g))
     else case (GetPosition (g_reg g) (ai_TargetID c), GetPosition (g_reg g) e) of
       (Some q, Some p) \<Rightarrow>
         if \<not> InRangeInt (PosX p) (PosZ p) (PosX q) (PosZ q) (ai_MeleeRange c) then Some (ai_send e MonsterEvOutOfRange (c, g))
         else if \<not> timer_Ready (ai_AttackTimer c) then Some (c, g)
         else Option.bind (decay_threat c) (\<lambda>c1. strike e (c1, g))
     | _ \<Rightarrow> Some (lose_target e (c, g)))"

definition tickReturning :: "entity \<Rightarrow> mind \<Rightarrow> mind option" where
  "tickReturning e m = (case m of (c, g) \<Rightarrow>
     (case GetPosition (g_reg g) e of
        None \<Rightarrow> Some (c, g)
      | Some pos \<Rightarrow> (case threat_aggro e c (g_reg g) of
          Some p \<Rightarrow> Some (ai_send e MonsterEvAggro (c\<lparr>ai_TargetID := p\<rparr>, g))
        | None \<Rightarrow> (case GetNearestPlayer (g_reg g) (g_grid g) e (ai_AggroRadius c) of
            Some n \<Rightarrow> Some (ai_send e MonsterEvAggro (c\<lparr>ai_TargetID := nr_ID n\<rparr>, g))
          | None \<Rightarrow>
              if InRangeInt (PosX pos) (PosZ pos) (ai_SpawnX c) (ai_SpawnZ c) 1 then
                (case ai_send e MonsterEvAtSpawn (c, g) of (c1, g1) \<Rightarrow> Some (c1\<lparr>ai_IdleTimer := timer_Reset (ai_IdleTimer c1)\<rparr>, g1))
              else walk_towards e pos (ai_SpawnX c) (ai_SpawnZ c) (c, g)))))"

definition advance_timers :: "AIComponent \<Rightarrow> AIComponent" where
  "advance_timers c = c\<lparr>ai_AttackTimer := timer_Advance (ai_AttackTimer c), ai_IdleTimer := timer_Advance (ai_IdleTimer c),
     ai_PathTimer := timer_Advance (ai_PathTimer c)\<rparr>"

definition TickAI :: "entity \<Rightarrow> Game \<Rightarrow> Game option" where
  "TickAI e g = (case GetAI (g_reg g) e of
     None \<Rightarrow> Some g
   | Some c0 \<Rightarrow>
       let c = advance_timers c0
       in map_option (\<lambda>(c', g'). g'\<lparr>g_reg := SetAI e c' (g_reg g')\<rparr>)
         (case ai_State c of
            AIStateIdle \<Rightarrow> Some (tickIdle e (c, g))
          | AIStateRoaming \<Rightarrow> tickRoaming e (c, g)
          | AIStateChasing \<Rightarrow> tickChasing e (c, g)
          | AIStateAttacking \<Rightarrow> tickAttacking e (c, g)
          | AIStateReturning \<Rightarrow> tickReturning e (c, g)
          | AIStateTransferring \<Rightarrow> Some (c, g)))"

subsection \<open>Which states occur\<close>

text \<open>
  The states of a component and of its machine that occur together, from a fresh monster on. The component gets
  the state the machine left, so it never becomes more than roaming, and the machine never leaves the chase.
\<close>

definition calm_pairs :: "(AIState \<times> AIState) set" where
  "calm_pairs = {(AIStateIdle, AIStateIdle), (AIStateIdle, AIStateRoaming), (AIStateIdle, AIStateChasing), (AIStateRoaming, AIStateChasing)}"

definition path_ok :: "AIComponent \<Rightarrow> bool" where
  "path_ok c \<longleftrightarrow> length (path_Points (ai_CurrentPath c)) = MaxPathNodes \<and> ai_PathFollowIdx c < int MaxPathNodes \<and>
     (path_Found (ai_CurrentPath c) \<longrightarrow> path_Len (ai_CurrentPath c) \<le> MaxPathNodes)"

definition mesh_ok :: "Game \<Rightarrow> bool" where
  "mesh_ok g \<longleftrightarrow> (\<forall>nm. g_mesh g = Some nm \<longrightarrow> cache_ok (nm_cache nm))"

definition calm_mind :: "entity set \<Rightarrow> entity set \<Rightarrow> entity \<Rightarrow> mind \<Rightarrow> bool" where
  "calm_mind L I e m \<longleftrightarrow> (case m of (c, g) \<Rightarrow> game_ok g L I \<and> fsms_ok (g_fsms g) \<and> mesh_ok g \<and> path_ok c \<and>
     (ai_State c, fsm_state (g_fsms g) e) \<in> calm_pairs)"

definition same_rest :: "entity \<Rightarrow> Game \<Rightarrow> Game \<Rightarrow> bool" where
  "same_rest e g g' \<longleftrightarrow> GetStats (g_reg g') = GetStats (g_reg g) \<and> GetAI (g_reg g') = GetAI (g_reg g) \<and>
     GetMetadata (g_reg g') = GetMetadata (g_reg g) \<and> GetInventory (g_reg g') = GetInventory (g_reg g) \<and>
     (\<forall>x. x \<noteq> e \<longrightarrow> GetPosition (g_reg g') x = GetPosition (g_reg g) x \<and> g_fsms g' x = g_fsms g x)"

lemma same_rest_refl [simp]: "same_rest e g g"
  by (simp add: same_rest_def)

lemma same_rest_trans: "same_rest e g h \<Longrightarrow> same_rest e h k \<Longrightarrow> same_rest e g k"
  by (simp add: same_rest_def)

lemma calm_mind_upd:
  assumes "calm_mind L I e (c, g)" and "path_ok c'" and "ai_State c' = ai_State c"
  shows "calm_mind L I e (c', g)"
  using assms by (simp add: calm_mind_def)

lemma path_ok_upd [simp]:
  "path_ok (c\<lparr>ai_TargetID := t\<rparr>) = path_ok c" "path_ok (c\<lparr>ai_IdleTimer := i\<rparr>) = path_ok c" "path_ok (c\<lparr>ai_PathTimer := i\<rparr>) = path_ok c"
  "path_ok (c\<lparr>ai_RoamTargetX := x, ai_RoamTargetZ := z\<rparr>) = path_ok c" "path_ok (c\<lparr>ai_State := s\<rparr>) = path_ok c"
  "path_ok (advance_timers c) = path_ok c"
  by (simp_all add: path_ok_def advance_timers_def)

text \<open>The events that a calm monster sends.\<close>

lemma ai_send_calm:
  assumes calm: "calm_mind L I e (c, g)"
    and ev: "ev \<in> {MonsterEvAggro, MonsterEvTick} \<or> ev = MonsterEvPathDone \<and> ai_State c = AIStateRoaming"
    and run: "ai_send e ev (c, g) = (c', g')"
  shows "calm_mind L I e (c', g') \<and> same_rest e g g'"
proof -
  obtain b fs where send: "MonsterFSMSend e ev (c, g_fsms g) = (b, c', fs)" and g': "g' = g\<lparr>g_fsms := fs\<rparr>"
    using run by (auto simp: ai_send_def split: prod.splits)
  have ok: "fsms_ok (g_fsms g)" and pair: "(ai_State c, fsm_state (g_fsms g) e) \<in> calm_pairs" and p: "path_ok c"
    and gok: "game_ok g L I" and mesh: "mesh_ok g"
    using calm by (auto simp: calm_mind_def)
  note M = MonsterFSMSend_spec [OF ok send]
  have "(ai_State c', fsm_state fs e) \<in> calm_pairs"
    using pair ev M(3,4) unfolding M(5) calm_pairs_def by (elim insertE) (auto simp: fsm_target_def)
  moreover have "path_ok c'" using p by (simp add: M(5))
  moreover have "game_ok g' L I" using gok by (subst game_ok_cong [of _ g]) (simp_all add: g')
  ultimately show ?thesis using M(1,2) mesh by (simp add: calm_mind_def g' mesh_ok_def same_rest_def)
qed

lemma path_done_calm:
  assumes "calm_mind L I e (c, g)" and "ai_State c = AIStateRoaming" and "path_done e (c, g) = (c', g')"
  shows "calm_mind L I e (c', g') \<and> same_rest e g g'"
proof -
  obtain c1 g1 where s: "ai_send e MonsterEvPathDone (c, g) = (c1, g1)" by force
  from ai_send_calm [OF assms(1) _ s] assms(2,3) s show ?thesis
    by (auto simp: path_done_def calm_mind_def)
qed

lemma requestPath_calm:
  assumes calm: "calm_mind L I e (c, g)" and run: "requestPath pos x z (c, g) = (b, c', g')"
  shows "calm_mind L I e (c', g') \<and> same_rest e g g' \<and> ai_State c' = ai_State c"
proof (cases "g_mesh g")
  case None
  with calm run show ?thesis by (auto simp: requestPath_def calm_mind_def path_ok_def MaxPathNodes_def split: if_splits)
next
  case (Some nm)
  have nm: "cache_ok (nm_cache nm)" using calm Some by (simp add: calm_mind_def mesh_ok_def)
  obtain p nm' where f: "nav_FindPathWithCache (g_config g) (MapID pos) (PosX pos) (PosZ pos) x z nm = (p, nm')" by force
  note N = nav_path_sound [OF nm f] nav_cache_ok [OF nm f]
  have "game_ok (g\<lparr>g_mesh := k\<rparr>) L I = game_ok g L I" for k by (rule game_ok_cong) simp_all
  with calm run Some f N show ?thesis
    by (auto simp: requestPath_def calm_mind_def path_ok_def sound_result_def mesh_ok_def same_rest_def Let_def MaxPathNodes_def split: if_splits)
qed

lemma advancePath_calm:
  assumes "path_ok c"
  shows "\<exists>x z b c'. advancePath pos c = Some ((x, z, b), c') \<and> path_ok c' \<and> ai_State c' = ai_State c"
proof -
  let ?i = "ai_PathFollowIdx c" and ?P = "ai_CurrentPath c"
  show ?thesis
  proof (cases "path_Found ?P \<and> 0 \<le> ?i")
    case True
    define c1 where "c1 = (if (PosX pos, PosZ pos) = path_Points ?P ! nat ?i then c\<lparr>ai_PathFollowIdx := ?i + 1\<rparr> else c)"
    have c1: "ai_CurrentPath c1 = ?P" "ai_State c1 = ai_State c" by (simp_all add: c1_def)
    obtain x z where pt: "path_Points ?P ! nat (ai_PathFollowIdx c1) = (x, z)" by force
    show ?thesis
      using assms True c1 pt by (auto simp: advancePath_def path_ok_def Let_def c1_def [symmetric] MaxPathNodes_def)
  qed (use assms in \<open>auto simp: advancePath_def Let_def\<close>)
qed

lemma Movement_mesh: "MovementSystem e x z g = (b, g') \<Longrightarrow> g_mesh g' = g_mesh g"
  by (auto simp: MovementSystem_def distance_check_def Let_def split: if_splits option.splits prod.splits)

lemma Movement_calm:
  assumes "calm_mind L I e (c, g)"
  shows "calm_mind L I e (c, snd (MovementSystem e x z g)) \<and> same_rest e g (snd (MovementSystem e x z g))"
proof -
  obtain b g' where run: "MovementSystem e x z g = (b, g')" by force
  have ok: "game_ok g L I" using assms by (simp add: calm_mind_def)
  note M = Movement_step [OF ok run] and mesh = Movement_mesh [OF run]
  from assms M(2,3,5-8,10) mesh show ?thesis by (simp add: run calm_mind_def mesh_ok_def same_rest_def)
qed

subsection \<open>A tick of a calm monster\<close>

lemma roam_loop_draws: "\<exists>ds. snd (roam_loop n pos c g) = g\<lparr>g_draws := ds\<rparr>"
proof (induction n arbitrary: g)
  case 0
  show ?case by (rule exI [of _ "g_draws g"]) simp
next
  case (Suc n)
  obtain a d1 where 1: "Intn 5 (g_draws g) = (a, d1)" by force
  obtain b d2 where 2: "Intn 5 d1 = (b, d2)" by force
  have d: "draw 5 g = (a, g\<lparr>g_draws := d1\<rparr>)" "draw 5 (g\<lparr>g_draws := d1\<rparr>) = (b, g\<lparr>g_draws := d2\<rparr>)"
    by (simp_all add: draw_def 1 2)
  show ?case using Suc [of "g\<lparr>g_draws := d2\<rparr>"] by (auto simp: d Let_def)
qed

lemma pickRoamTarget_calm:
  assumes "calm_mind L I e (c, g)" and "pickRoamTarget e c1 g = (t, g')"
  shows "calm_mind L I e (c, g') \<and> same_rest e g g'"
proof -
  have "\<exists>ds. g' = g\<lparr>g_draws := ds\<rparr>"
  proof (cases "GetPosition (g_reg g) e")
    case None
    with assms(2) show ?thesis by (intro exI [of _ "g_draws g"]) (simp add: pickRoamTarget_def)
  next
    case (Some pos)
    with assms(2) roam_loop_draws [of 8 pos c1 g] show ?thesis by (simp add: pickRoamTarget_def)
  qed
  then obtain ds where g': "g' = g\<lparr>g_draws := ds\<rparr>" ..
  have "game_ok g' L I = game_ok g L I" by (rule game_ok_cong) (simp_all add: g')
  with assms(1) show ?thesis by (simp add: calm_mind_def g' mesh_ok_def same_rest_def)
qed

lemma aggro_calm:
  assumes "calm_mind L I e (c, g)" and "ai_send e MonsterEvAggro (c\<lparr>ai_TargetID := t\<rparr>, g) = (c', g')"
  shows "calm_mind L I e (c', g') \<and> same_rest e g g'"
proof -
  have "calm_mind L I e (c\<lparr>ai_TargetID := t\<rparr>, g)" using assms(1) by (simp add: calm_mind_def)
  from ai_send_calm [OF this _ assms(2)] show ?thesis by simp
qed

lemma tickIdle_calm:
  assumes calm: "calm_mind L I e (c, g)" and run: "tickIdle e (c, g) = (c', g')"
  shows "calm_mind L I e (c', g') \<and> same_rest e g g'"
proof -
  have p: "path_ok c" using calm by (simp add: calm_mind_def)
  show ?thesis
  proof (cases "threat_aggro e c (g_reg g)")
    case (Some t)
    with run aggro_calm [OF calm] show ?thesis by (simp add: tickIdle_def)
  next
    case no_threat: None
    show ?thesis
    proof (cases "GetNearestPlayer (g_reg g) (g_grid g) e (ai_AggroRadius c)")
      case (Some n)
      with no_threat run aggro_calm [OF calm] show ?thesis by (simp add: tickIdle_def)
    next
      case None
      show ?thesis
      proof (cases "timer_Ready (ai_IdleTimer c)")
        case True
        let ?c1 = "c\<lparr>ai_IdleTimer := timer_Reset (ai_IdleTimer c)\<rparr>"
        obtain t g1 where t: "pickRoamTarget e ?c1 g = (t, g1)" by force
        have c1: "calm_mind L I e (?c1, g)" by (rule calm_mind_upd [OF calm]) (simp_all add: p)
        note P = pickRoamTarget_calm [OF c1 t]
        show ?thesis
        proof (cases t)
          case None
          with no_threat \<open>GetNearestPlayer _ _ _ _ = None\<close> True t run P show ?thesis by (simp add: tickIdle_def)
        next
          case (Some xz)
          let ?c2 = "?c1\<lparr>ai_RoamTargetX := fst xz, ai_RoamTargetZ := snd xz\<rparr>"
          have c2: "calm_mind L I e (?c2, g1)" by (rule calm_mind_upd [OF conjunct1 [OF P]]) (simp_all add: p)
          have "ai_send e MonsterEvTick (?c2, g1) = (c', g')"
            using no_threat None True t run Some \<open>GetNearestPlayer _ _ _ _ = None\<close> by (simp add: tickIdle_def split: prod.splits)
          from ai_send_calm [OF c2 _ this] P show ?thesis using same_rest_trans by blast
        qed
      next
        case False
        with no_threat None run calm show ?thesis by (simp add: tickIdle_def)
      qed
    qed
  qed
qed

lemma roam_along_calm:
  assumes calm: "calm_mind L I e (c, g)" and st: "ai_State c = AIStateRoaming"
  shows "\<exists>c' g'. roam_along e pos (c, g) = Some (c', g') \<and> calm_mind L I e (c', g') \<and> same_rest e g g'"
proof (cases "ai_PathFollowIdx c \<ge> 0")
  case True
  have "path_ok c" using calm by (simp add: calm_mind_def)
  with advancePath_calm obtain x z b c1 where a: "advancePath pos c = Some ((x, z, b), c1)" "path_ok c1" "ai_State c1 = ai_State c" by blast
  have c1: "calm_mind L I e (c1, g)" by (rule calm_mind_upd [OF calm a(2,3)])
  obtain c2 g2 where d: "path_done e (c1, g) = (c2, g2)" by force
  from path_done_calm [OF c1 _ d] Movement_calm [OF c1, of x z] st True a d show ?thesis
    by (cases b) (auto simp: roam_along_def)
next
  case False
  obtain c2 g2 where d: "path_done e (c, g) = (c2, g2)" by force
  from path_done_calm [OF calm st d] False d show ?thesis by (simp add: roam_along_def)
qed

lemma tickRoaming_calm:
  assumes calm: "calm_mind L I e (c, g)" and st: "ai_State c = AIStateRoaming"
  shows "\<exists>c' g'. tickRoaming e (c, g) = Some (c', g') \<and> calm_mind L I e (c', g') \<and> same_rest e g g'"
proof -
  have p: "path_ok c" using calm by (simp add: calm_mind_def)
  show ?thesis
  proof (cases "GetNearestPlayer (g_reg g) (g_grid g) e (ai_AggroRadius c)")
    case (Some n)
    obtain c2 g2 where s: "ai_send e MonsterEvAggro (c\<lparr>ai_TargetID := nr_ID n\<rparr>, g) = (c2, g2)" by force
    from aggro_calm [OF calm s] Some s show ?thesis by (simp add: tickRoaming_def)
  next
    case alone: None
    show ?thesis
    proof (cases "GetPosition (g_reg g) e")
      case None
      obtain c2 g2 where s: "ai_send e MonsterEvPathDone (c, g) = (c2, g2)" by force
      from ai_send_calm [OF calm _ s] st None alone s show ?thesis by (simp add: tickRoaming_def)
    next
      case (Some pos)
      obtain c2 g2 where d: "path_done e (c, g) = (c2, g2)" by force
      let ?c1 = "c\<lparr>ai_PathTimer := timer_Reset (ai_PathTimer c)\<rparr>"
      have c1: "calm_mind L I e (?c1, g)" by (rule calm_mind_upd [OF calm]) (simp_all add: p)
      obtain b c3 g3 where r: "requestPath pos (ai_RoamTargetX c) (ai_RoamTargetZ c) (?c1, g) = (b, c3, g3)" by (metis surj_pair)
      from requestPath_calm [OF c1 r] st have R: "calm_mind L I e (c3, g3)" "same_rest e g g3" "ai_State c3 = AIStateRoaming" by auto
      obtain c4 g4 where d3: "path_done e (c3, g3) = (c4, g4)" by force
      from path_done_calm [OF R(1,3) d3] roam_along_calm [OF R(1,3), of pos] R(2) same_rest_trans
      have after: "\<exists>c' g'. (if b then roam_along e pos (c3, g3) else Some (path_done e (c3, g3))) = Some (c', g') \<and>
          calm_mind L I e (c', g') \<and> same_rest e g g'" by (simp add: d3) blast
      from path_done_calm [OF calm st d] roam_along_calm [OF calm st, of pos] after alone Some d r show ?thesis
        by (cases b) (auto simp: tickRoaming_def)
    qed
  qed
qed

definition calm :: "Game \<Rightarrow> bool" where
  "calm g \<longleftrightarrow> fsms_ok (g_fsms g) \<and> mesh_ok g \<and>
     (\<forall>e c. GetAI (g_reg g) e = Some c \<longrightarrow> path_ok c \<and> (ai_State c, fsm_state (g_fsms g) e) \<in> calm_pairs)"

lemma TickAI_calm:
  assumes ok: "game_ok g L I" and calm: "calm g"
  shows "\<exists>g'. TickAI e g = Some g' \<and> game_ok g' L I \<and> calm g' \<and> GetStats (g_reg g') = GetStats (g_reg g) \<and>
    GetMetadata (g_reg g') = GetMetadata (g_reg g) \<and> GetInventory (g_reg g') = GetInventory (g_reg g) \<and>
    (\<forall>x. x \<noteq> e \<longrightarrow> GetPosition (g_reg g') x = GetPosition (g_reg g) x)"
proof (cases "GetAI (g_reg g) e")
  case None
  with ok calm show ?thesis by (simp add: TickAI_def)
next
  case (Some c0)
  let ?c = "advance_timers c0"
  have st: "ai_State ?c = ai_State c0" by (simp add: advance_timers_def)
  have m: "calm_mind L I e (?c, g)" using ok calm Some by (simp add: calm_def calm_mind_def st)
  have step: "\<exists>c' g'. (case ai_State ?c of
            AIStateIdle \<Rightarrow> Some (tickIdle e (?c, g))
          | AIStateRoaming \<Rightarrow> tickRoaming e (?c, g)
          | AIStateChasing \<Rightarrow> tickChasing e (?c, g)
          | AIStateAttacking \<Rightarrow> tickAttacking e (?c, g)
          | AIStateReturning \<Rightarrow> tickReturning e (?c, g)
          | AIStateTransferring \<Rightarrow> Some (?c, g)) = Some (c', g') \<and> calm_mind L I e (c', g') \<and> same_rest e g g'"
  proof (cases "ai_State ?c = AIStateIdle")
    case True
    obtain c' g' where t: "tickIdle e (?c, g) = (c', g')" by force
    from tickIdle_calm [OF m t] True t show ?thesis by simp
  next
    case False
    then have r: "ai_State ?c = AIStateRoaming" using m by (auto simp: calm_mind_def calm_pairs_def)
    from tickRoaming_calm [OF m r] show ?thesis by (simp add: r)
  qed
  then obtain c' g' where t: "TickAI e g = Some (g'\<lparr>g_reg := SetAI e c' (g_reg g')\<rparr>)"
      and m': "calm_mind L I e (c', g')" and same: "same_rest e g g'"
    using Some by (auto simp: TickAI_def Let_def)
  have ok': "game_ok g' L I" using m' by (simp add: calm_mind_def)
  note A = set_ai_ok [OF ok' live_of_component(3) [OF ok Some], of c']
  let ?h = "g'\<lparr>g_reg := SetAI e c' (g_reg g')\<rparr>"
  have "fsm_state (g_fsms g') x = fsm_state (g_fsms g) x" if "x \<noteq> e" for x
    using same that by (simp add: same_rest_def fsm_state_def)
  then have "calm ?h"
    using m' calm same A(2) by (auto simp: calm_def calm_mind_def mesh_ok_def same_rest_def)
  with t A(1) same show ?thesis by (intro exI [of _ ?h]) (simp add: same_rest_def set_frame)
qed

fun run_ai :: "entity list \<Rightarrow> Game \<Rightarrow> Game option" where
  "run_ai [] g = Some g"
| "run_ai (e # es) g = Option.bind (TickAI e g) (run_ai es)"

text \<open>Freshly spawned monsters are calm.\<close>

lemma monster_ai_calm: "path_ok (monster_ai t x z)" "ai_State (monster_ai t x z) = AIStateIdle"
  by (simp_all add: path_ok_def monster_ai_def zero_path_def MaxPathNodes_def)

lemma arena_calm: "calm arena"
  by (simp add: calm_def mesh_ok_def arena_reg monster_ai_calm fsms_ok_empty calm_pairs_def fsm_state_def) (simp add: arena_def)

subsection \<open>Properties\<close>

text \<open>
  C8 Monsters never hurt anybody. From a state in which every monster and its machine are in one of four pairs of
  states, as freshly spawned ones are, any sequence of ticks of any monsters runs without a panic, keeps the
  state well formed and every monster in such a pair, leaves the stats of everybody, their bags and the roster
  alone and moves nobody but the monsters that tick: no monster ever chases or attacks, whatever its threat and
  whoever stands beside it.
\<close>

theorem monsters_never_attack:
  assumes "game_ok g L I" and "calm g"
  shows "\<exists>g'. run_ai es g = Some g' \<and> game_ok g' L I \<and> calm g' \<and>
    (\<forall>e c. GetAI (g_reg g') e = Some c \<longrightarrow> ai_State c \<in> {AIStateIdle, AIStateRoaming}) \<and>
    GetStats (g_reg g') = GetStats (g_reg g) \<and> GetMetadata (g_reg g') = GetMetadata (g_reg g) \<and>
    GetInventory (g_reg g') = GetInventory (g_reg g) \<and> (\<forall>x. x \<notin> set es \<longrightarrow> GetPosition (g_reg g') x = GetPosition (g_reg g) x)"
  using assms
proof (induction es arbitrary: g)
  case Nil
  then show ?case by (auto simp: calm_def calm_pairs_def)
next
  case (Cons e es)
  obtain g1 where g1: "TickAI e g = Some g1" "game_ok g1 L I" "calm g1" "GetStats (g_reg g1) = GetStats (g_reg g)"
      "GetMetadata (g_reg g1) = GetMetadata (g_reg g)" "GetInventory (g_reg g1) = GetInventory (g_reg g)"
      "\<forall>x. x \<noteq> e \<longrightarrow> GetPosition (g_reg g1) x = GetPosition (g_reg g) x"
    using TickAI_calm [OF Cons.prems] by blast
  from Cons.IH [OF g1(2,3)] g1 show ?case by auto
qed

text \<open>The slime stands beside the hero for fifty ticks: the hero keeps his 60 hit points.\<close>

theorem monsters_never_attack_witness:
  "\<exists>g'. run_ai (replicate 50 foe) arena = Some g' \<and> map_option st_HP (GetStats (g_reg g') hero) = Some 60 \<and>
     InRangeInt (PosX hero_pos) (PosZ hero_pos) (PosX slime_pos) (PosZ slime_pos) (ai_MeleeRange (monster_ai slime 2 2))"
  using monsters_never_attack [OF arena_ok arena_calm, of "replicate 50 foe"]
  by (auto simp: arena_reg hero_stats_def InRangeInt_def DistanceSq_def hero_pos_def slime_pos_def monster_ai_def slime_def)

end
