(* ===== verification/Persistence.thy ===== *)
theory Persistence
  imports Circuitbreaker Decimal Ecs_Alloc
begin

text \<open>
  Persistence: the save queue and its worker (\<open>server/db/save_engine.go\<close>), the buffer on disk behind it
  (\<open>emergency_buffer.go\<close>) and the loading of a character (\<open>server/models/player.go\<close>). The SQL server is not part of the
  repository: a transaction and the three queries are parameters, and \<open>documented\<close> states what MySQL documents of
  the statements the code sends. A statement is a constructor with the arguments it is executed with. The channel
  is a list of at most a thousand snapshots; the directory of the buffer is an association list of file names,
  sorted as \<open>ReadDir\<close> lists them, with the snapshots each file decodes to. Log and trace lines are left out.
\<close>

subsection \<open>Snapshots\<close>

record SaveSnapshot =
  sav_EntityID :: entity
  sav_Name :: string
  sav_Pos :: PositionComponent
  sav_Stats :: StatsComponent
  sav_Inventory :: item_bag
  sav_Equipment :: EquipmentComponent

definition is_bot :: "string \<Rightarrow> bool" where
  "is_bot name \<longleftrightarrow> length name \<ge> 3 \<and> take 3 name = ''bot''"

definition blank_pos :: PositionComponent where "blank_pos = \<lparr>MapID = 0, PosX = 0, PosZ = 0\<rparr>"

definition blank_stats :: StatsComponent where
  "blank_stats = \<lparr>st_Level = 0, st_XP = 0, st_HP = 0, st_MaxHP = 0, st_MP = 0, st_MaxMP = 0, st_Dam = 0, st_Attack = 0,
     st_MagicAttack = 0, st_Defense = 0, st_MagicDefense = 0, st_HitRate = 0, st_DodgeRate = 0, st_CritRate = 0, st_CritDamage = 0\<rparr>"

definition bare_equipment :: EquipmentComponent where "bare_equipment = \<lparr>WeaponID = 0, ArmorID = 0\<rparr>"

text \<open>What \<open>QueuePlayerSave\<close> captures of an entity, when it captures anything.\<close>

definition capture :: "entity \<Rightarrow> Registry \<Rightarrow> SaveSnapshot option" where
  "capture e r = (case GetMetadata r e of
     None \<Rightarrow> None
   | Some m \<Rightarrow>
       if is_bot (meta_Name m) then None
       else Some \<lparr>sav_EntityID = e, sav_Name = meta_Name m,
         sav_Pos = (case GetPosition r e of None \<Rightarrow> blank_pos | Some p \<Rightarrow> p),
         sav_Stats = (case GetStats r e of None \<Rightarrow> blank_stats | Some s \<Rightarrow> s),
         sav_Inventory = (case GetInventory r e of None \<Rightarrow> Map.empty | Some i \<Rightarrow> Items i),
         sav_Equipment = (case GetEquipment r e of None \<Rightarrow> bare_equipment | Some q \<Rightarrow> q)\<rparr>)"

subsection \<open>The buffer on disk\<close>

definition bufferFilePrefix :: string where "bufferFilePrefix = ''save_buffer_''"

definition buffer_itoa :: "nat \<Rightarrow> string option" where
  "buffer_itoa i = (if i = 0 then Some ''0'' else map_option snd (put_digits 12 i []))"

definition makeBufferFilename :: "nat \<Rightarrow> string option" where
  "makeBufferFilename idx = map_option (\<lambda>s. bufferFilePrefix @ s @ ''.buf'') (buffer_itoa idx)"

definition is_digit :: "char \<Rightarrow> bool" where "is_digit c \<longleftrightarrow> c \<in> set digits"

text \<open>The first run of digits of a name, wherever it stands; the format is not looked at.\<close>

definition fmtSscanf :: "string \<Rightarrow> nat option" where
  "fmtSscanf str = (case dropWhile (\<lambda>c. \<not> is_digit c) str of [] \<Rightarrow> None | rest \<Rightarrow> Some (value_of (takeWhile is_digit rest)))"

definition findNextBufferFile :: "string list \<Rightarrow> nat" where
  "findNextBufferFile names = fold (\<lambda>name m. case fmtSscanf name of None \<Rightarrow> m | Some idx \<Rightarrow> max m (Suc idx)) names 0"

record SaveBuffer =
  sb_files :: "(string \<times> SaveSnapshot list) list"
  sb_file :: "string option"

definition NewSaveBuffer :: "(string \<times> SaveSnapshot list) list \<Rightarrow> SaveBuffer" where
  "NewSaveBuffer files = \<lparr>sb_files = files, sb_file = None\<rparr>"

text \<open>A file that is created is empty; it takes its place among the names.\<close>

definition create_file :: "string \<Rightarrow> (string \<times> SaveSnapshot list) list \<Rightarrow> (string \<times> SaveSnapshot list) list" where
  "create_file name files = filter (\<lambda>(n, _). n \<noteq> name) files @ [(name, [])]"

definition open_next :: "SaveBuffer \<Rightarrow> SaveBuffer option" where
  "open_next sb = map_option (\<lambda>name. sb\<lparr>sb_files := create_file name (sb_files sb), sb_file := Some name\<rparr>)
     (makeBufferFilename (findNextBufferFile (map fst (sb_files sb))))"

definition sb_Init :: "SaveBuffer \<Rightarrow> SaveBuffer option" where "sb_Init sb = open_next sb"

definition append_to :: "string \<Rightarrow> SaveSnapshot \<Rightarrow> (string \<times> SaveSnapshot list) list \<Rightarrow> (string \<times> SaveSnapshot list) list" where
  "append_to name snap files = map (\<lambda>(n, xs). if n = name then (n, xs @ [snap]) else (n, xs)) files"

definition sb_Append :: "SaveSnapshot \<Rightarrow> SaveBuffer \<Rightarrow> nat \<times> SaveBuffer" where
  "sb_Append snap sb = (case sb_file sb of None \<Rightarrow> (0, sb) | Some name \<Rightarrow> (1, sb\<lparr>sb_files := append_to name snap (sb_files sb)\<rparr>))"

definition is_buffer_file :: "string \<Rightarrow> bool" where
  "is_buffer_file name \<longleftrightarrow> length name \<ge> length bufferFilePrefix \<and> take (length bufferFilePrefix) name = bufferFilePrefix"

definition PendingCount :: "SaveBuffer \<Rightarrow> nat" where
  "PendingCount sb = length (filter (\<lambda>(n, _). is_buffer_file n) (sb_files sb))"

text \<open>
  The replay pushes every buffered snapshot into a channel with so much room left. When the channel is full it calls
  \<open>Append\<close>, which asks for the mutex the drain holds: \<open>None\<close>.
\<close>

definition drain_into :: "nat \<Rightarrow> SaveSnapshot list \<Rightarrow> (string \<times> SaveSnapshot list) list \<Rightarrow> SaveSnapshot list option" where
  "drain_into room chan files =
     (let snaps = concat (map snd (filter (\<lambda>(n, _). is_buffer_file n) files))
      in if length snaps \<le> room then Some (chan @ snaps) else None)"

definition DrainBuffer :: "nat \<Rightarrow> SaveSnapshot list \<Rightarrow> SaveBuffer \<Rightarrow> (SaveSnapshot list \<times> SaveBuffer) option" where
  "DrainBuffer room chan sb = (case sb_file sb of
     None \<Rightarrow> Some (chan, sb)
   | Some _ \<Rightarrow> (case drain_into room chan (sb_files sb) of
       None \<Rightarrow> None
     | Some chan' \<Rightarrow> map_option (Pair chan')
         (open_next (sb\<lparr>sb_files := filter (\<lambda>(n, _). \<not> is_buffer_file n) (sb_files sb), sb_file := None\<rparr>))))"

subsection \<open>The queue\<close>

definition queue_capacity :: nat where "queue_capacity = 1000"

record SaveEngine =
  SaveQueue :: "SaveSnapshot list"
  se_closed :: bool
  GlobalSaveBuffer :: SaveBuffer

text \<open>A send on the closed channel panics; the panic is recovered and the snapshot is gone.\<close>

definition TryWriteToQueue :: "SaveSnapshot \<Rightarrow> SaveEngine \<Rightarrow> bool \<times> SaveEngine" where
  "TryWriteToQueue snap se =
     (if se_closed se then (False, se)
      else if length (SaveQueue se) < queue_capacity then (True, se\<lparr>SaveQueue := SaveQueue se @ [snap]\<rparr>)
      else (False, se\<lparr>GlobalSaveBuffer := snd (sb_Append snap (GlobalSaveBuffer se))\<rparr>))"

definition QueuePlayerSave :: "entity \<Rightarrow> Registry \<Rightarrow> SaveEngine \<Rightarrow> SaveEngine" where
  "QueuePlayerSave e r se = (case capture e r of None \<Rightarrow> se | Some snap \<Rightarrow> snd (TryWriteToQueue snap se))"

definition FlushSaveQueue :: "SaveEngine \<Rightarrow> SaveEngine" where
  "FlushSaveQueue se = se\<lparr>se_closed := True\<rparr>"

text \<open>The periodic pass over the players.\<close>

definition periodic_saves :: "Registry \<Rightarrow> SaveEngine \<Rightarrow> SaveEngine" where
  "periodic_saves r se = fold (\<lambda>(e, m) se.
     if meta_Type m \<noteq> EntityPlayer \<or> GetPosition r e = None \<or> GetStats r e = None then se else QueuePlayerSave e r se)
     (entries (metadata r)) se"

subsection \<open>Statements\<close>

record state_row =
  row_map_id :: int
  row_x :: int
  row_z :: int
  row_hp :: int
  row_max_hp :: int
  row_damage :: int
  row_level :: int
  row_xp :: u64
  row_mp :: int
  row_max_mp :: int
  row_weapon_id :: u64
  row_armor_id :: u64

datatype sql_stmt =
  UpsertState u64 state_row
| UpsertItems "(u64 \<times> u64 \<times> int) list"
| DeleteItems "(u64 \<times> u64) list"
| InsertCharacter u64 string string
| InsertState u64 state_row

definition state_of_snapshot :: "SaveSnapshot \<Rightarrow> state_row" where
  "state_of_snapshot s = \<lparr>row_map_id = MapID (sav_Pos s), row_x = PosX (sav_Pos s), row_z = PosZ (sav_Pos s), row_hp = st_HP (sav_Stats s),
     row_max_hp = st_MaxHP (sav_Stats s), row_damage = st_Dam (sav_Stats s), row_level = st_Level (sav_Stats s), row_xp = st_XP (sav_Stats s),
     row_mp = st_MP (sav_Stats s), row_max_mp = st_MaxMP (sav_Stats s), row_weapon_id = WeaponID (sav_Equipment s),
     row_armor_id = ArmorID (sav_Equipment s)\<rparr>"

text \<open>The two builders walk the bag in some order; no statement is built for an empty list.\<close>

definition buildBatchInventoryUpsert :: "u64 list \<Rightarrow> entity \<Rightarrow> item_bag \<Rightarrow> sql_stmt list" where
  "buildBatchInventoryUpsert order e bag = (if bag = Map.empty then [] else [UpsertItems (map (\<lambda>k. (e, k, the (bag k))) order)])"

definition buildBatchInventoryDelete :: "u64 list \<Rightarrow> entity \<Rightarrow> item_bag \<Rightarrow> sql_stmt list" where
  "buildBatchInventoryDelete order e bag =
     (let pairs = map (\<lambda>k. (e, k)) (filter (\<lambda>k. the (bag k) \<le> 0) order)
      in if length pairs = 0 then [] else [DeleteItems pairs])"

definition save_stmts :: "u64 list \<Rightarrow> u64 list \<Rightarrow> SaveSnapshot \<Rightarrow> sql_stmt list" where
  "save_stmts order1 order2 s = UpsertState (sav_EntityID s) (state_of_snapshot s) #
     (if sav_Inventory s \<noteq> Map.empty
      then buildBatchInventoryUpsert order1 (sav_EntityID s) (sav_Inventory s) @ buildBatchInventoryDelete order2 (sav_EntityID s) (sav_Inventory s)
      else [])"

text \<open>One transaction: an error message, or a commit.\<close>

definition tryWrite :: "(sql_stmt list \<Rightarrow> 'db \<Rightarrow> string option \<times> 'db) \<Rightarrow> u64 list \<Rightarrow> u64 list \<Rightarrow> SaveSnapshot \<Rightarrow> 'db \<Rightarrow> string option \<times> 'db" where
  "tryWrite tx order1 order2 s db = tx (save_stmts order1 order2 s) db"

text \<open>The write of the worker, behind the circuit breaker; without a database nothing is written.\<close>

definition executeWriteToSQL ::
  "('db \<Rightarrow> int) \<Rightarrow> (int \<Rightarrow> 'db \<Rightarrow> 'db) \<Rightarrow> (sql_stmt list \<Rightarrow> 'db \<Rightarrow> string option \<times> 'db) \<Rightarrow> bool \<Rightarrow> u64 list \<Rightarrow> u64 list \<Rightarrow>
   SaveSnapshot \<Rightarrow> 'db CircuitBreaker \<times> 'db \<Rightarrow> 'db CircuitBreaker \<times> 'db" where
  "executeWriteToSQL clock sleep tx hasDB order1 order2 s cbdb =
     (if \<not> hasDB \<or> is_bot (sav_Name s) then cbdb
      else snd (cb_Execute clock sleep \<lparr>op_Label = ''save_player_'' @ sav_Name s, Run = tryWrite tx order1 order2 s\<rparr> cbdb))"

text \<open>Without a circuit breaker, when its log could not be opened: three attempts with growing pauses.\<close>

definition maxRetries :: nat where "maxRetries = 3"

fun legacy_attempts ::
  "(int \<Rightarrow> 'db \<Rightarrow> 'db) \<Rightarrow> ('db \<Rightarrow> string option \<times> 'db) \<Rightarrow> nat \<Rightarrow> nat \<Rightarrow> 'db \<Rightarrow> bool \<times> 'db" where
  "legacy_attempts sleep write1 attempt 0 db = (False, db)"
| "legacy_attempts sleep write1 attempt (Suc k) db = (case write1 db of
     (None, db') \<Rightarrow> (True, db')
   | (Some err, db') \<Rightarrow> legacy_attempts sleep write1 (attempt + 1) k (sleep (int (attempt + 1) * 200000000) db'))"

definition executeWriteLegacy ::
  "(int \<Rightarrow> 'db \<Rightarrow> 'db) \<Rightarrow> (sql_stmt list \<Rightarrow> 'db \<Rightarrow> string option \<times> 'db) \<Rightarrow> bool \<Rightarrow> u64 list \<Rightarrow> u64 list \<Rightarrow> SaveSnapshot \<Rightarrow> 'db \<Rightarrow> bool \<times> 'db" where
  "executeWriteLegacy sleep tx hasDB order1 order2 s db =
     (if \<not> hasDB \<or> is_bot (sav_Name s) then (False, db) else legacy_attempts sleep (tryWrite tx order1 order2 s) 0 maxRetries db)"

lemma legacy_gives_up:
  assumes "\<And>w. fst (write1 w) \<noteq> None" and "\<And>w. snd (write1 w) = w" and "\<And>d w. sleep d w = w"
  shows "legacy_attempts sleep write1 attempt n db = (False, db)"
proof (induction n arbitrary: attempt)
  case (Suc n)
  have "write1 db = (fst (write1 db), db)" using assms(2) by (simp add: prod_eq_iff)
  with Suc show ?case using assms(1) [of db] assms(3) by (auto split: option.split prod.split)
qed simp

subsection \<open>Loading\<close>

record savedPlayerData =
  sd_CharacterID :: u64
  sd_Pos :: PositionComponent
  sd_Stats :: StatsComponent
  sd_Equipment :: EquipmentComponent
  sd_Inventory :: item_bag
  sd_PasswordHash :: string

definition zero_row :: state_row where
  "zero_row = \<lparr>row_map_id = 0, row_x = 0, row_z = 0, row_hp = 0, row_max_hp = 0, row_damage = 0, row_level = 0, row_xp = 0, row_mp = 0,
     row_max_mp = 0, row_weapon_id = 0, row_armor_id = 0\<rparr>"

definition row_stats :: "state_row \<Rightarrow> StatsComponent" where
  "row_stats row = \<lparr>st_Level = row_level row, st_XP = row_xp row, st_HP = row_hp row, st_MaxHP = row_max_hp row, st_MP = row_mp row,
     st_MaxMP = row_max_mp row, st_Dam = row_damage row, st_Attack = row_damage row, st_MagicAttack = 0, st_Defense = 0,
     st_MagicDefense = 0, st_HitRate = 850, st_DodgeRate = 100, st_CritRate = 50, st_CritDamage = 1500\<rparr>"

text \<open>A missing row leaves the scanned variables at zero; the items are stored into a map one by one.\<close>

definition loadSavedPlayerState ::
  "(string \<Rightarrow> 'db \<Rightarrow> (u64 \<times> string) option) \<Rightarrow> (u64 \<Rightarrow> 'db \<Rightarrow> state_row option) \<Rightarrow> (u64 \<Rightarrow> 'db \<Rightarrow> (u64 \<times> int) list) \<Rightarrow>
   string \<Rightarrow> 'db \<Rightarrow> savedPlayerData option" where
  "loadSavedPlayerState sel_char sel_state sel_items name db = (case sel_char name db of
     None \<Rightarrow> None
   | Some (c, hash) \<Rightarrow>
       let row = (case sel_state c db of None \<Rightarrow> zero_row | Some row \<Rightarrow> row)
       in Some \<lparr>sd_CharacterID = c, sd_Pos = \<lparr>MapID = row_map_id row, PosX = row_x row, PosZ = row_z row\<rparr>, sd_Stats = row_stats row,
            sd_Equipment = \<lparr>WeaponID = row_weapon_id row, ArmorID = row_armor_id row\<rparr>,
            sd_Inventory = fold (\<lambda>(k, q) m. m(k \<mapsto> q)) (sel_items c db) Map.empty, sd_PasswordHash = hash\<rparr>)"

text \<open>
  The worker after the queue was closed: it writes what is queued, and then what a replay of the disk buffer puts into
  a temporary channel. The result is the order of the writes.
\<close>

definition worker_exit :: "SaveEngine \<Rightarrow> SaveSnapshot list option" where
  "worker_exit se =
     (if PendingCount (GlobalSaveBuffer se) > 0
      then map_option (\<lambda>(replayed, _). SaveQueue se @ replayed) (DrainBuffer queue_capacity [] (GlobalSaveBuffer se))
      else Some (SaveQueue se))"

subsection \<open>What MySQL documents\<close>

type_synonym db_view = "(u64 \<rightharpoonup> state_row) \<times> (u64 \<times> u64 \<rightharpoonup> int)"

fun stmt_effect :: "sql_stmt \<Rightarrow> db_view \<Rightarrow> db_view" where
  "stmt_effect (UpsertState c row) (st, it) = (st(c \<mapsto> row), it)"
| "stmt_effect (UpsertItems rows) (st, it) = (st, fold (\<lambda>(c, k, q) m. m((c, k) \<mapsto> q)) rows it)"
| "stmt_effect (DeleteItems pairs) (st, it) = (st, it |` (- set pairs))"
| "stmt_effect (InsertCharacter c name hash) v = v"
| "stmt_effect (InsertState c row) (st, it) = (st(c \<mapsto> row), it)"

definition row_view :: "(u64 \<Rightarrow> 'db \<Rightarrow> state_row option) \<Rightarrow> (u64 \<Rightarrow> 'db \<Rightarrow> (u64 \<times> int) list) \<Rightarrow> 'db \<Rightarrow> db_view" where
  "row_view sel_state sel_items db = (\<lambda>c. sel_state c db, \<lambda>(c, k). map_of (sel_items c db) k)"

text \<open>A committed transaction has the effect of its statements in order; the primary key makes the items of a query distinct.\<close>

definition documented ::
  "(sql_stmt list \<Rightarrow> 'db \<Rightarrow> string option \<times> 'db) \<Rightarrow> (u64 \<Rightarrow> 'db \<Rightarrow> state_row option) \<Rightarrow> (u64 \<Rightarrow> 'db \<Rightarrow> (u64 \<times> int) list) \<Rightarrow> bool" where
  "documented tx sel_state sel_items \<longleftrightarrow>
     (\<forall>stmts db db'. tx stmts db = (None, db') \<longrightarrow> row_view sel_state sel_items db' = fold stmt_effect stmts (row_view sel_state sel_items db)) \<and>
     (\<forall>c db. distinct (map fst (sel_items c db)))"

subsection \<open>Saving and loading\<close>

lemma upsert_items:
  "distinct order \<Longrightarrow> fold (\<lambda>(c, k, q) m. m((c, k) \<mapsto> q)) (map (\<lambda>k. (e, k, f k)) order) it (c, k) =
     (if c = e \<and> k \<in> set order then Some (f k) else it (c, k))"
  by (induction order arbitrary: it) (auto simp: case_prod_beta)

lemma fold_map_of: "distinct (map fst xs) \<Longrightarrow> fold (\<lambda>(k, q) m. m(k \<mapsto> q)) xs m0 k = (case map_of xs k of None \<Rightarrow> m0 k | Some q \<Rightarrow> Some q)"
proof (induction xs arbitrary: m0)
  case (Cons x xs)
  obtain j q where x: "x = (j, q)" by force
  with Cons.prems have "k = j \<Longrightarrow> map_of xs k = None" by (simp add: map_of_eq_None_iff)
  with Cons show ?case by (auto simp: x split: option.splits)
qed simp

lemma save_effect:
  assumes "distinct o1" "distinct o2" "set o1 = dom (sav_Inventory s)" "set o2 = dom (sav_Inventory s)"
  shows "fst (fold stmt_effect (save_stmts o1 o2 s) (st, it)) = st(sav_EntityID s \<mapsto> state_of_snapshot s)"
    and "snd (fold stmt_effect (save_stmts o1 o2 s) (st, it)) (sav_EntityID s, k) =
      (case sav_Inventory s k of Some q \<Rightarrow> if q \<le> 0 then None else Some q | None \<Rightarrow> it (sav_EntityID s, k))"
proof -
  let ?m = "sav_Inventory s" and ?e = "sav_EntityID s"
  show "fst (fold stmt_effect (save_stmts o1 o2 s) (st, it)) = st(?e \<mapsto> state_of_snapshot s)"
    by (simp add: save_stmts_def buildBatchInventoryUpsert_def buildBatchInventoryDelete_def Let_def)
  show "snd (fold stmt_effect (save_stmts o1 o2 s) (st, it)) (?e, k) =
      (case ?m k of Some q \<Rightarrow> if q \<le> 0 then None else Some q | None \<Rightarrow> it (?e, k))"
  proof (cases "?m = Map.empty")
    case True
    then show ?thesis by (simp add: save_stmts_def)
  next
    case False
    define it1 where "it1 = fold (\<lambda>(c, k, q) m. m((c, k) \<mapsto> q)) (map (\<lambda>k. (?e, k, the (?m k))) o1) it"
    have up: "it1 (?e, k) = (case ?m k of Some q \<Rightarrow> Some q | None \<Rightarrow> it (?e, k))" for k
      using upsert_items [OF assms(1), of ?e "\<lambda>k. the (?m k)" it ?e k] assms(3)
      by (auto simp: it1_def dom_def split: option.splits)
    let ?del = "map (\<lambda>k. (?e, k)) (filter (\<lambda>k. the (?m k) \<le> 0) o2)"
    have "snd (fold stmt_effect (save_stmts o1 o2 s) (st, it)) = (if length ?del = 0 then it1 else it1 |` (- set ?del))"
      using False by (auto simp: save_stmts_def buildBatchInventoryUpsert_def buildBatchInventoryDelete_def Let_def it1_def)
    also have "\<dots> = it1 |` (- set ?del)" by (cases "?del = []") (simp_all add: restrict_map_def)
    finally show ?thesis using assms(4) by (auto simp: restrict_map_def up image_iff split: option.splits)
  qed
qed

text \<open>
  C14: A committed save, loaded again, gives back position, equipment and seven of the fifteen stats: level, experience, health
  and mana with their maxima, and damage. The other eight are not saved: attack comes back as the damage value, magic attack
  and both defences as 0, hit, dodge and critical values as constants. Items: what the bag holds is loaded, but an item
  that is no longer in the bag (used up or traded away) comes back with the quantity the database had before.
\<close>

theorem save_reload:
  assumes doc: "documented tx sel_state sel_items" and save: "tryWrite tx o1 o2 s db = (None, db')"
    and orders: "distinct o1" "distinct o2" "set o1 = dom (sav_Inventory s)" "set o2 = dom (sav_Inventory s)"
    and char: "sel_char (sav_Name s) db' = Some (sav_EntityID s, hash)"
  shows "\<exists>sd. loadSavedPlayerState sel_char sel_state sel_items (sav_Name s) db' = Some sd \<and> sd_CharacterID sd = sav_EntityID s \<and>
    sd_Pos sd = sav_Pos s \<and> sd_Equipment sd = sav_Equipment s \<and>
    sd_Stats sd = (sav_Stats s)\<lparr>st_Attack := st_Dam (sav_Stats s), st_MagicAttack := 0, st_Defense := 0, st_MagicDefense := 0,
      st_HitRate := 850, st_DodgeRate := 100, st_CritRate := 50, st_CritDamage := 1500\<rparr> \<and>
    sd_Inventory sd = (\<lambda>k. case sav_Inventory s k of Some q \<Rightarrow> if q \<le> 0 then None else Some q
      | None \<Rightarrow> map_of (sel_items (sav_EntityID s) db) k)"
proof -
  let ?e = "sav_EntityID s"
  note E = save_effect [OF orders, of "\<lambda>c. sel_state c db" "\<lambda>(c, k). map_of (sel_items c db) k"]
  from doc save have v: "row_view sel_state sel_items db' = fold stmt_effect (save_stmts o1 o2 s) (row_view sel_state sel_items db)"
    by (auto simp: documented_def tryWrite_def)
  have "fst (row_view sel_state sel_items db') = (\<lambda>c. sel_state c db)(?e \<mapsto> state_of_snapshot s)"
    unfolding v by (simp add: row_view_def E(1))
  then have "(\<lambda>c. sel_state c db') ?e = Some (state_of_snapshot s)" unfolding row_view_def fst_conv by (rule ssubst) simp
  then have state: "sel_state ?e db' = Some (state_of_snapshot s)" by simp
  have items: "map_of (sel_items ?e db') k = (case sav_Inventory s k of Some q \<Rightarrow> if q \<le> 0 then None else Some q
      | None \<Rightarrow> map_of (sel_items ?e db) k)" for k
  proof -
    have "map_of (sel_items ?e db') k = snd (row_view sel_state sel_items db') (?e, k)" by (simp add: row_view_def)
    also have "\<dots> = (case sav_Inventory s k of Some q \<Rightarrow> if q \<le> 0 then None else Some q
        | None \<Rightarrow> map_of (sel_items ?e db) k)"
      by (simp only: v) (simp add: row_view_def E(2) cong: option.case_cong)
    finally show ?thesis .
  qed
  have inv: "fold (\<lambda>(k, q) m. m(k \<mapsto> q)) (sel_items ?e db') Map.empty = map_of (sel_items ?e db')"
    using doc by (auto simp: fold_map_of documented_def fun_eq_iff split: option.splits)
  show ?thesis
    by (simp add: loadSavedPlayerState_def char state Let_def row_stats_def state_of_snapshot_def inv items fun_eq_iff)
qed

text \<open>A reference database of two tables, which behaves as documented, and a player who has drunk its last potion.\<close>

type_synonym ref_db = "(u64 \<rightharpoonup> state_row) \<times> (u64 \<times> u64 \<rightharpoonup> int)"

definition ref_tx :: "sql_stmt list \<Rightarrow> ref_db \<Rightarrow> string option \<times> ref_db" where
  "ref_tx stmts db = (None, fold stmt_effect stmts db)"

definition ref_state :: "u64 \<Rightarrow> ref_db \<Rightarrow> state_row option" where "ref_state c db = fst db c"

definition ref_items :: "u64 \<Rightarrow> ref_db \<Rightarrow> (u64 \<times> int) list" where
  "ref_items c db = map (\<lambda>k. (k, the (snd db (c, k)))) (sorted_list_of_set {k. snd db (c, k) \<noteq> None})"

lemma ref_items_map: "map_of (ref_items c db) k = snd db (c, k)"
proof -
  have "finite {k. snd db (c, k) \<noteq> None}" by (rule finite_subset [OF subset_UNIV]) simp
  then show ?thesis by (cases "snd db (c, k)") (simp_all add: ref_items_def map_of_map_restrict restrict_map_def)
qed

lemma ref_documented: "documented ref_tx ref_state ref_items"
proof -
  have "row_view ref_state ref_items db = db" for db
    by (cases db) (simp add: row_view_def ref_state_def ref_items_map case_prod_beta)
  moreover have "distinct (map fst (ref_items c db))" for c db by (simp add: ref_items_def comp_def)
  ultimately show ?thesis by (simp add: documented_def ref_tx_def)
qed

definition sober :: SaveSnapshot where
  "sober = \<lparr>sav_EntityID = 7, sav_Name = ''Ann'', sav_Pos = \<lparr>MapID = 1, PosX = 2, PosZ = 3\<rparr>, sav_Stats = blank_stats,
     sav_Inventory = Map.empty, sav_Equipment = bare_equipment\<rparr>"

theorem save_reload_witness:
  "\<exists>sd. loadSavedPlayerState (\<lambda>_ _. Some (7, ''hash'')) ref_state ref_items ''Ann''
      (snd (tryWrite ref_tx [] [] sober (Map.empty, [(7, 303) \<mapsto> 2]))) = Some sd \<and> sd_Inventory sd 303 = Some 2"
proof -
  obtain db' where w: "tryWrite ref_tx [] [] sober (Map.empty, [(7, 303) \<mapsto> 2]) = (None, db')"
    by (simp add: tryWrite_def ref_tx_def)
  from save_reload [OF ref_documented this, of "\<lambda>_ _. Some (7, ''hash'')" "''hash''"] w show ?thesis
    by (auto simp: sober_def ref_items_map)
qed

subsection \<open>The queue and the disk\<close>

definition on_disk :: "SaveBuffer \<Rightarrow> SaveSnapshot list" where "on_disk sb = concat (map snd (sb_files sb))"

definition buffer_ok :: "SaveBuffer \<Rightarrow> bool" where
  "buffer_ok sb \<longleftrightarrow> distinct (map fst (sb_files sb)) \<and> (\<forall>name. sb_file sb = Some name \<longrightarrow> name \<in> fst ` set (sb_files sb))"

lemma append_to_disk:
  "distinct (map fst files) \<Longrightarrow> name \<in> fst ` set files \<Longrightarrow>
     mset (concat (map snd (append_to name snap files))) = add_mset snap (mset (concat (map snd files)))"
proof (induction files)
  case (Cons f files)
  obtain n xs where f: "f = (n, xs)" by force
  show ?case
  proof (cases "n = name")
    case True
    with Cons.prems(1) f have "\<forall>x \<in> set files. fst x \<noteq> name" by auto
    then have "append_to name snap files = files"
      unfolding append_to_def by (intro map_idI) auto
    with True f show ?thesis by (simp add: append_to_def)
  next
    case False
    with Cons f show ?thesis by (simp add: append_to_def)
  qed
qed simp

lemma append_to_names [simp]: "map fst (append_to name snap files) = map fst files"
  by (auto simp: append_to_def comp_def case_prod_beta intro!: map_cong)

text \<open>While the queue is open and the buffer initialised, no snapshot is lost: each is queued or on disk.\<close>

lemma queue_no_loss:
  assumes "\<not> se_closed se" and ok: "buffer_ok (GlobalSaveBuffer se)" and "sb_file (GlobalSaveBuffer se) = Some name"
    and "TryWriteToQueue snap se = (ok, se')"
  shows "mset (SaveQueue se') + mset (on_disk (GlobalSaveBuffer se')) = add_mset snap (mset (SaveQueue se) + mset (on_disk (GlobalSaveBuffer se)))"
    and "buffer_ok (GlobalSaveBuffer se')" and "sb_file (GlobalSaveBuffer se') = Some name" and "\<not> se_closed se'"
proof -
  let ?sb = "GlobalSaveBuffer se"
  have d: "distinct (map fst (sb_files ?sb))" "name \<in> fst ` set (sb_files ?sb)" using ok assms(3) by (auto simp: buffer_ok_def)
  have names: "fst ` set (append_to name snap (sb_files ?sb)) = fst ` set (sb_files ?sb)"
    by (metis append_to_names list.set_map)
  have se': "se' = (if length (SaveQueue se) < queue_capacity then se\<lparr>SaveQueue := SaveQueue se @ [snap]\<rparr>
      else se\<lparr>GlobalSaveBuffer := ?sb\<lparr>sb_files := append_to name snap (sb_files ?sb)\<rparr>\<rparr>)"
    using assms by (auto simp: TryWriteToQueue_def sb_Append_def split: if_splits)
  show "mset (SaveQueue se') + mset (on_disk (GlobalSaveBuffer se')) = add_mset snap (mset (SaveQueue se) + mset (on_disk ?sb))"
    using append_to_disk [OF d, of snap] by (simp add: se' on_disk_def)
  show "buffer_ok (GlobalSaveBuffer se')" "sb_file (GlobalSaveBuffer se') = Some name" "\<not> se_closed se'"
    using ok assms(1,3) names by (auto simp: se' buffer_ok_def)
qed

text \<open>After the queue was closed a snapshot is neither queued nor written to disk.\<close>

lemma closed_loses: "TryWriteToQueue snap (FlushSaveQueue se) = (False, FlushSaveQueue se)"
  by (simp add: TryWriteToQueue_def FlushSaveQueue_def)

text \<open>The replay at the exit of the worker blocks when the disk holds more snapshots than a channel has room for.\<close>

lemma exit_blocks:
  assumes "sb_file sb \<noteq> None" and "queue_capacity < length (concat (map snd (filter (\<lambda>(n, _). is_buffer_file n) (sb_files sb))))"
  shows "worker_exit \<lparr>SaveQueue = q, se_closed = True, GlobalSaveBuffer = sb\<rparr> = None"
proof -
  have "filter (\<lambda>(n, _). is_buffer_file n) (sb_files sb) \<noteq> []" using assms(2) by auto
  with assms show ?thesis by (auto simp: worker_exit_def DrainBuffer_def drain_into_def PendingCount_def Let_def split: option.splits)
qed

text \<open>What was diverted to disk is written last, after newer snapshots of the same player that found room in the queue.\<close>

lemma buffered_written_last:
  assumes "worker_exit se = Some writes" and "PendingCount (GlobalSaveBuffer se) > 0" and "sb_file (GlobalSaveBuffer se) \<noteq> None"
  shows "writes = SaveQueue se @ concat (map snd (filter (\<lambda>(n, _). is_buffer_file n) (sb_files (GlobalSaveBuffer se))))"
  using assms by (auto simp: worker_exit_def DrainBuffer_def drain_into_def Let_def split: option.splits if_splits)

text \<open>The index of a buffer file is read back from its name.\<close>

lemma makeBufferFilename_parses:
  assumes "makeBufferFilename idx = Some name"
  shows "fmtSscanf name = Some idx" and "is_buffer_file name"
proof -
  obtain s where s: "buffer_itoa idx = Some s" and name: "name = bufferFilePrefix @ s @ ''.buf''"
    using assms by (auto simp: makeBufferFilename_def)
  have dec: "s = dec_nat idx"
  proof (cases "idx = 0")
    case True
    with s show ?thesis by (simp add: buffer_itoa_def dec_nat.simps digits_def)
  next
    case False
    with s obtain j where p: "put_digits 12 idx [] = Some (j, s)" by (auto simp: buffer_itoa_def)
    then have "idx < 10 ^ 12" using put_digits_panics [of 12 idx "[]"] by (cases "10 ^ 12 \<le> idx") auto
    with put_digits_ok [of idx 12 "[]"] False p show ?thesis by auto
  qed
  have digit: "\<forall>c \<in> set (dec_nat n). is_digit c" for n
  proof (induction n rule: dec_nat.induct)
    case (1 n)
    have "d < 10 \<Longrightarrow> is_digit (digits ! d)" for d unfolding is_digit_def by (rule nth_mem) (simp add: digits_def)
    with 1 show ?case by (auto simp: dec_nat.simps [of n])
  qed
  have nonempty: "dec_nat idx \<noteq> []" by (simp add: dec_nat.simps [of idx])
  then obtain c cs where cs: "dec_nat idx = c # cs" by (cases "dec_nat idx") auto
  have pre: "dropWhile (\<lambda>c. \<not> is_digit c) (bufferFilePrefix @ t) = dropWhile (\<lambda>c. \<not> is_digit c) t" for t
    by (simp add: bufferFilePrefix_def is_digit_def digits_def)
  have "takeWhile is_digit (dec_nat idx @ ''.buf'') = dec_nat idx"
    using digit [of idx] by (simp add: takeWhile_append2 is_digit_def digits_def)
  then show "fmtSscanf name = Some idx"
    using digit [of idx] value_of_dec [of idx] by (simp add: fmtSscanf_def name pre dec cs)
  show "is_buffer_file name" by (simp add: is_buffer_file_def name)
qed

end
