(* ===== verification/Game_Loop.thy ===== *)
theory Game_Loop
  imports World_Maps Effects Monster_AI Persistence Ratelimit
begin

text \<open>
  \<open>server/systems/gameloop.go\<close>: the heartbeat of the server, the tick of a map and the round of a map's goroutine
  (\<open>runMapWorker\<close>, \<open>MapWorker.Tick\<close>). \<open>None\<close> is a heartbeat that never returns, because a system waits for a lock its
  own walk holds. The combat accumulator that a worker installs is a pointer to its own buffer: it is copied
  into \<open>g_buffer\<close> for the tick and back (\<open>sync_buffer\<close>). The debug line per monster and the tick monitors are left
  out; time enters as the number of the tick.
\<close>

subsection \<open>State\<close>

text \<open>
  The global variables of the server. A connection is named by its remote address: \<open>sv_active\<close> is \<open>ActivePlayers\<close>,
  \<open>sv_limits\<close> the global rate limiter, \<open>sv_direct\<close> what was written to connections without going through a writer
  and \<open>sv_closed\<close> the connections the server has closed.
\<close>

record Server =
  sv_world :: World
  sv_trades :: TradeSystemRegistry
  sv_invites :: InviteCache
  sv_saves :: SaveEngine
  sv_active :: "string \<rightharpoonup> entity"
  sv_limits :: "string RateLimiter"
  sv_direct :: "(string \<times> byte_seq) list"
  sv_closed :: "string list"

text \<open>The server when its loop starts: the default registry is that of \<open>g\<close>, map 1 has a worker.\<close>

definition StartGameLoop :: "Game \<Rightarrow> SaveEngine \<Rightarrow> Server" where
  "StartGameLoop g se = \<lparr>sv_world = StartMap 1 (InitWorld g), sv_trades = NewTradeRegistry, sv_invites = Map.empty, sv_saves = se,
     sv_active = Map.empty, sv_limits = Map.empty, sv_direct = [], sv_closed = []\<rparr>"

definition on_game :: "(Game \<Rightarrow> Game) \<Rightarrow> World \<Rightarrow> World" where
  "on_game f w = set_game (f (game_view w)) w"

subsection \<open>The tick of a map\<close>

definition AI_UPDATE_BUCKETS :: u64 where "AI_UPDATE_BUCKETS = 4"

text \<open>\<open>TickAI\<close> with locks held: it ends by writing the AI component.\<close>

definition TickAI_in :: "store_name set \<Rightarrow> entity \<Rightarrow> Game \<Rightarrow> Game option" where
  "TickAI_in held e g = (case GetAI (g_reg g) e of
     None \<Rightarrow> Some g | Some c \<Rightarrow> if AIStore \<in> held then None else TickAI e g)"

definition ai_callback :: "int \<Rightarrow> u64 \<Rightarrow> entity \<Rightarrow> AIComponent \<Rightarrow> Game \<Rightarrow> Game option" where
  "ai_callback mapID currentBucket e a g = (case GetPosition (g_reg g) e of None \<Rightarrow> Some g | Some pos \<Rightarrow>
     (case GetStats (g_reg g) e of None \<Rightarrow> Some g | Some st \<Rightarrow>
        if MapID pos \<noteq> mapID then Some g
        else if ai_State a = AIStateTransferring then Some g
        else if e mod AI_UPDATE_BUCKETS \<noteq> currentBucket then Some g
        else TickAI_in {AIStore} e g))"

definition perMapTick :: "int \<Rightarrow> u64 \<Rightarrow> World \<Rightarrow> World option" where
  "perMapTick mapID tick w0 =
     (let w = on_game (SetCurrentTick tick) w0
      in case GetWorker w mapID of
        None \<Rightarrow> Some w
      | Some mw \<Rightarrow>
          let w1 = w\<lparr>w_default := Some mapID\<rparr>
          in map_option (\<lambda>g. set_game g w1)
               (range_blocking (ai_callback mapID (tick mod AI_UPDATE_BUCKETS)) (entries (ai (mw_Registry mw))) (game_view w1)))"

subsection \<open>The round of a worker\<close>

text \<open>The accumulator that was installed last belongs to the worker whose registry is the default.\<close>

definition sync_buffer :: "World \<Rightarrow> World" where
  "sync_buffer w = (case (w_default w, g_buffer (w_game w)) of
     (Some m, Some ca) \<Rightarrow> (case GetWorker w m of None \<Rightarrow> w | Some mw \<Rightarrow> put_worker m (mw\<lparr>mw_CombatBuffer := ca\<rparr>) w)
   | _ \<Rightarrow> w)"

definition worker_round ::
  "(nat \<Rightarrow> nat) \<Rightarrow> (CombatAccumulator \<Rightarrow> entity list) \<Rightarrow> int \<Rightarrow> World \<Rightarrow> World option" where
  "worker_round grow order m w0 = (case GetWorker w0 m of None \<Rightarrow> Some w0 | Some mw0 \<Rightarrow>
     (case mw_tickChan mw0 of
        [] \<Rightarrow> Some w0
      | t # ts \<Rightarrow>
          let w1 = (put_worker m (mw0\<lparr>mw_tickChan := ts\<rparr>) (sync_buffer w0))\<lparr>w_default := Some m\<rparr>;
              w2 = w1\<lparr>w_game := (w_game w1)\<lparr>g_buffer := map_option mw_CombatBuffer (GetWorker w1 m)\<rparr>\<rparr>
          in (case perMapTick m t w2 of
                None \<Rightarrow> None
              | Some w3 \<Rightarrow>
                  let w4 = sync_buffer w3
                  in (case GetWorker w4 m of None \<Rightarrow> Some w4 | Some mw \<Rightarrow>
                       (case worker_Tick (\<lambda>mw. mw) grow order mw (g_free (w_game w4)) (g_out (w_game w4)) of
                          (mw', fl, out) \<Rightarrow> Some (put_worker m mw' (w4\<lparr>w_game := (w_game w4)\<lparr>g_free := fl, g_out := out,
                             g_buffer := Some (mw_CombatBuffer mw')\<rparr>\<rparr>)))))))"

subsection \<open>The heartbeat\<close>

definition has_players :: "Registry \<Rightarrow> bool" where
  "has_players r \<longleftrightarrow> list_ex (\<lambda>(e, m). meta_Type m = EntityPlayer) (entries (metadata r))"

definition tickWorld :: "u64 \<Rightarrow> Server \<Rightarrow> Server option" where
  "tickWorld tick s =
     (let w = on_game (SetCurrentTick tick) (sv_world s)
      in case GetWorker w 1 of
        None \<Rightarrow> Some (s\<lparr>sv_world := w\<rparr>)
      | Some mw \<Rightarrow>
          (case RunGroundItemDecaySystem (game_view w) of
             None \<Rightarrow> None
           | Some g1 \<Rightarrow>
               (case RunStatusEffectsSystem (RunRespawnSystem g1) of
                  None \<Rightarrow> None
                | Some g2 \<Rightarrow>
                    let w2 = set_game g2 w;
                        s2 = s\<lparr>sv_world := w2, sv_invites := PurgeExpired tick (sv_invites s)\<rparr>
                    in if \<not> has_players (mw_Registry mw) then Some s2
                       else Some (s2\<lparr>sv_world := TickAll tick w2\<rparr>))))"

text \<open>The loop of the heartbeat goroutine: tick after tick, as long as each returns.\<close>

fun heartbeats :: "nat \<Rightarrow> u64 \<Rightarrow> Server \<Rightarrow> Server option" where
  "heartbeats 0 t s = Some s"
| "heartbeats (Suc n) t s = (case tickWorld (t + 1) s of None \<Rightarrow> None | Some s' \<Rightarrow> heartbeats n (t + 1) s')"

definition UpdateWorldEntitiesSystem :: "World \<Rightarrow> World option" where
  "UpdateWorldEntitiesSystem w = (case GetWorker w 1 of
     None \<Rightarrow> Some w
   | Some _ \<Rightarrow> map_option (\<lambda>g. set_game g w) (RunGroundItemDecaySystem (game_view w)))"

subsection \<open>When the heartbeat returns\<close>

lemma respawn_one_others:
  assumes "respawn_one ev g = (b, g')"
  shows "GetEffects (g_reg g') = GetEffects (g_reg g)" "effects (g_reg g') = effects (g_reg g)" "globalTick g' = globalTick g"
    "g_buffer g' = g_buffer g" "g_out g' = g_out g"
  using assms
  by (auto simp: respawn_one_def SpawnMonsterFromTemplate_def reg_NewEntity_def Let_def GetEffects_def accessor_defs
      split: option.splits prod.splits)

lemma respawn_loop_others:
  "respawn_loop now evs g = (rest, g') \<Longrightarrow> effects (g_reg g') = effects (g_reg g) \<and> globalTick g' = globalTick g \<and>
     g_buffer g' = g_buffer g \<and> g_out g' = g_out g"
  by (induction now evs g arbitrary: rest g' rule: respawn_loop.induct)
    (fastforce simp: respawn_one_others split: if_splits prod.splits)+

lemma RunRespawn_others [simp]:
  "effects (g_reg (RunRespawnSystem g)) = effects (g_reg g)" "GetEffects (g_reg (RunRespawnSystem g)) = GetEffects (g_reg g)"
  "globalTick (RunRespawnSystem g) = globalTick g" "g_buffer (RunRespawnSystem g) = g_buffer g"
proof -
  obtain rest g' where "respawn_loop (GetCurrentTick g) (g_respawns g) g = (rest, g')" by force
  with respawn_loop_others [OF this]
  show "effects (g_reg (RunRespawnSystem g)) = effects (g_reg g)" "GetEffects (g_reg (RunRespawnSystem g)) = GetEffects (g_reg g)"
    "globalTick (RunRespawnSystem g) = globalTick g" "g_buffer (RunRespawnSystem g) = g_buffer g"
    by (auto simp: RunRespawnSystem_def GetEffects_def fun_eq_iff)
qed

text \<open>What stops the heartbeat: an expired item on the ground, or anybody with an active effect.\<close>

definition item_due :: "u64 \<Rightarrow> Registry \<Rightarrow> bool" where
  "item_due now r \<longleftrightarrow> (\<exists>e m l. GetMetadata r e = Some m \<and> meta_Type m = EntityGroundItem \<and> GetLifetime r e = Some l \<and>
     SpawnedTick l + Duration l \<le> now)"

definition effect_active :: "Registry \<Rightarrow> bool" where
  "effect_active r \<longleftrightarrow> (\<exists>e ec. GetEffects r e = Some ec \<and> ActiveList ec \<noteq> [])"

text \<open>
  C19: A heartbeat returns exactly when no ground item has expired and nobody has an active effect. Then it has run the
  respawns and purged the invitations, and the maps get the tick exactly when a player is registered with the
  worker of map 1.
\<close>

theorem heartbeat:
  assumes w: "w_default (sv_world s) = None" "w_workers (sv_world s) 1 = Some mw" and ok: "game_ok (w_game (sv_world s)) L I"
  shows "tickWorld t s =
    (if item_due t (g_reg (w_game (sv_world s))) \<or> effect_active (g_reg (w_game (sv_world s))) then None
     else let w' = (sv_world s)\<lparr>w_game := RunRespawnSystem (SetCurrentTick t (w_game (sv_world s)))\<rparr>
       in Some (s\<lparr>sv_world := (if has_players (mw_Registry mw) then TickAll t w' else w'),
            sv_invites := PurgeExpired t (sv_invites s)\<rparr>))"
proof -
  define w where "w = sv_world s"
  define g where "g = SetCurrentTick t (w_game w)"
  have view: "on_game (SetCurrentTick t) w = w\<lparr>w_game := g\<rparr>" using w(1) by (simp add: on_game_def w_def g_def)
  have reg: "g_reg g = g_reg (w_game w)" and now: "globalTick g = t" by (simp_all add: g_def SetCurrentTick_def)
  have stores: "store_ok (metadata (g_reg g))" "store_ok (effects (g_reg g))"
    using game_okD(1) [OF ok] alloc_okD(1) by (auto simp: reg w_def registry_inv_def registry_ok_def)
  have decay: "RunGroundItemDecaySystem g = (if item_due t (g_reg g) then None else Some g)"
    using decay_blocks [OF stores(1)] by (simp add: item_due_def now)
  have eff: "RunStatusEffectsSystem (RunRespawnSystem g) = (if effect_active (g_reg g) then None else Some (RunRespawnSystem g))"
    using effects_block [of "RunRespawnSystem g"] stores(2) by (simp add: effect_active_def)
  show ?thesis
    using w decay eff by (simp add: tickWorld_def view GetWorker_def Let_def flip: w_def g_def) (simp add: reg)
qed

theorem heartbeat_witness:
  "\<exists>item g. SpawnItemOnGround 202 1 4 4 arena = (item, g) \<and>
     tickWorld 247 (StartGameLoop g \<lparr>SaveQueue = [], se_closed = False, GlobalSaveBuffer = NewSaveBuffer []\<rparr>) = None"
proof -
  from arena_drop obtain item g where
    D: "SpawnItemOnGround 202 1 4 4 arena = (item, g)" "game_ok g {item, hero, foe} {item, hero, foe}"
      "map_option meta_Type (GetMetadata (g_reg g) item) = Some EntityGroundItem"
      "GetLifetime (g_reg g) item = Some \<lparr>SpawnedTick = 7, Duration = 240\<rparr>" by blast
  obtain m where m: "GetMetadata (g_reg g) item = Some m" "meta_Type m = EntityGroundItem" using D(3) by auto
  have due: "item_due 247 (g_reg g)"
    unfolding item_due_def using m D(4) by (intro exI [of _ item] exI [of _ m] exI [of _ "\<lparr>SpawnedTick = 7, Duration = 240\<rparr>"]) simp
  let ?s = "StartGameLoop g \<lparr>SaveQueue = [], se_closed = False, GlobalSaveBuffer = NewSaveBuffer []\<rparr>"
  have "w_default (sv_world ?s) = None" "w_workers (sv_world ?s) 1 = Some (NewMapWorker 1)" "w_game (sv_world ?s) = g"
    by (simp_all add: StartGameLoop_def StartMap_def InitWorld_def)
  then have "tickWorld 247 ?s = None" using heartbeat [of ?s "NewMapWorker 1" "{item, hero, foe}" "{item, hero, foe}" 247] D(2) due by simp
  with D(1) show ?thesis by blast
qed

subsection \<open>The tick of a map blocks on its first monster\<close>

lemma set_view [simp]: "set_game (game_view w) w = w"
  by (cases "w_default w"; cases "w_workers w (the (w_default w))")
    (auto simp: set_game_def game_view_def default_registry_def put_worker_def fun_upd_idem)

definition monster_due :: "int \<Rightarrow> u64 \<Rightarrow> Registry \<Rightarrow> bool" where
  "monster_due m t r \<longleftrightarrow> (\<exists>e a p st. GetAI r e = Some a \<and> GetPosition r e = Some p \<and> GetStats r e = Some st \<and> MapID p = m \<and>
     ai_State a \<noteq> AIStateTransferring \<and> e mod AI_UPDATE_BUCKETS = t mod AI_UPDATE_BUCKETS)"

lemma on_clock:
  "w_default (on_game (SetCurrentTick t) w) = w_default w" "w_transferChan (on_game (SetCurrentTick t) w) = w_transferChan w"
  "w_workers (on_game (SetCurrentTick t) w) = w_workers w" "g_reg (w_game (on_game (SetCurrentTick t) w)) = g_reg (w_game w)"
  by (cases "w_default w"; cases "w_workers w (the (w_default w))";
      auto simp: on_game_def set_game_def game_view_def default_registry_def SetCurrentTick_def put_worker_def fun_upd_idem)+

lemma map_tick_blocks:
  assumes mw: "GetWorker w m = Some mw" and ok: "store_ok (ai (mw_Registry mw))"
  shows "perMapTick m t w = (if monster_due m t (mw_Registry mw) then None
    else Some ((on_game (SetCurrentTick t) w)\<lparr>w_default := Some m\<rparr>))"
proof -
  let ?f = "ai_callback m (t mod AI_UPDATE_BUCKETS)" and ?es = "entries (ai (mw_Registry mw))"
  define w1 where "w1 = (on_game (SetCurrentTick t) w)\<lparr>w_default := Some m\<rparr>"
  have reg: "g_reg (game_view w1) = mw_Registry mw"
    using mw by (simp add: game_view_def default_registry_def w1_def on_clock GetWorker_def)
  have mem: "(e, a) \<in> set ?es \<longleftrightarrow> GetAI (mw_Registry mw) e = Some a" for e a
    using set_entries [OF ok] by (simp add: GetAI_def)
  have step: "?f e a g = (if (\<exists>p st. GetPosition (g_reg g) e = Some p \<and> GetStats (g_reg g) e = Some st \<and> MapID p = m) \<and>
        ai_State a \<noteq> AIStateTransferring \<and> e mod AI_UPDATE_BUCKETS = t mod AI_UPDATE_BUCKETS \<and> GetAI (g_reg g) e \<noteq> None
      then None else Some g)" for e a g
    by (auto simp: ai_callback_def TickAI_in_def split: option.splits)
  have run: "perMapTick m t w = map_option (\<lambda>g. set_game g w1) (range_blocking ?f ?es (game_view w1))"
    using mw by (simp add: perMapTick_def GetWorker_def on_clock w1_def Let_def)
  show ?thesis
  proof (cases "monster_due m t (mw_Registry mw)")
    case True
    then obtain e a p st where d: "GetAI (mw_Registry mw) e = Some a" "GetPosition (mw_Registry mw) e = Some p"
        "GetStats (mw_Registry mw) e = Some st" "MapID p = m" "ai_State a \<noteq> AIStateTransferring"
        "e mod AI_UPDATE_BUCKETS = t mod AI_UPDATE_BUCKETS" unfolding monster_due_def by blast
    have "range_blocking ?f ?es (game_view w1) = None"
    proof (rule range_blocking_stuck [where P = "\<lambda>h. h = game_view w1"])
      show "(e, a) \<in> set ?es" by (simp add: mem d)
      show "h' = game_view w1" if "h = game_view w1" "?f x u h = Some h'" for x u h h'
        using that unfolding step by (auto split: if_splits)
      show "?f e a h = None" if "h = game_view w1" for h using d unfolding step that reg by simp
    qed simp
    with True run show ?thesis by simp
  next
    case False
    have "range_blocking ?f ?es (game_view w1) = Some (game_view w1)"
      using False by (intro range_blocking_skip) (simp add: step reg mem monster_due_def, blast)
    with False run show ?thesis by (simp add: w1_def)
  qed
qed

end
