(* ===== verification/Systems.thy ===== *)
theory Systems
  imports Movement World_Maps
begin

text \<open>
  The senders of \<open>server/systems/systems.go\<close>, the listing of a bag (\<open>server/game/inventory_query.go\<close>) and the packet
  entry of a move (\<open>HandlePlayerMovementSystem\<close> in \<open>server/game/movement.go\<close>). The walk over a bag is in some order;
  texts outside ASCII are the bytes of their UTF-8 encoding.
\<close>

subsection \<open>Senders\<close>

definition BroadcastSystem :: "byte_seq \<Rightarrow> Game \<Rightarrow> Game" where
  "BroadcastSystem data g = RangeConnections (\<lambda>e c g.
     (True, if conn_writer c = None then g else g\<lparr>g_out := g_out g @ [(e, BuildNotice data)]\<rparr>)) (g_reg g) g"

definition BroadcastExcept :: "entity \<Rightarrow> byte_seq \<Rightarrow> Game \<Rightarrow> Game" where
  "BroadcastExcept exclude data g = RangeConnections (\<lambda>e c g.
     (True, if e = exclude \<or> conn_writer c = None then g else g\<lparr>g_out := g_out g @ [(e, data)]\<rparr>)) (g_reg g) g"

definition GetInfoSystem :: "entity \<Rightarrow> Registry \<Rightarrow> string option" where
  "GetInfoSystem target r = (case (GetMetadata r target, GetStats r target) of
     (Some m, Some st) \<Rightarrow> Some (meta_Name m @ '' '' @ [CHR 0xE2, CHR 0x86, CHR 0x92] @ '' HP: '' @ dec_int (st_HP st)
       @ ''  ATK: '' @ dec_int (st_Dam st) @ crlf)
   | _ \<Rightarrow> None)"

subsection \<open>The bag\<close>

definition bar :: "nat \<Rightarrow> string" where "bar n = concat (replicate n [CHR 0xE2, CHR 0x95, CHR 0x90])"

definition bag_line :: "item_bag \<Rightarrow> u64 \<Rightarrow> string" where
  "bag_line bag k =
     (let count = bag_get bag k
      in if count \<le> 0 then []
         else case ItemRegistry k of
           Some it \<Rightarrow> '' '' @ [CHR 0xE2, CHR 0x80, CHR 0xA2] @ '' '' @ it_Name it @ '' x'' @ dec_int count @ '' ('' @ it_Description it @ '')'' @ crlf
         | None \<Rightarrow> '' '' @ [CHR 0xE2, CHR 0x80, CHR 0xA2] @ '' Unknown Item ID #'' @ dec_nat (unat k) @ '' x'' @ dec_int count @ crlf)"

definition RunInventoryQuerySystem :: "(item_bag \<Rightarrow> u64 list) \<Rightarrow> entity \<Rightarrow> Registry \<Rightarrow> string" where
  "RunInventoryQuerySystem order e r = (case GetInventory r e of
     None \<Rightarrow> ''[INVENTORY]: Your backpack is completely empty!'' @ crlf
   | Some bag \<Rightarrow>
       if Items bag = Map.empty then ''[INVENTORY]: Your backpack is completely empty!'' @ crlf
       else bar 3 @ '' YOUR BACKPACK BAG '' @ bar 3 @ crlf @ concat (map (bag_line (Items bag)) (order (Items bag))) @ bar 28 @ crlf)"

subsection \<open>Moves\<close>

text \<open>\<open>nbs\<close> is the order of the walk over the neighbours of a watcher.\<close>

definition HandlePlayerMovementSystem :: "(entity \<Rightarrow> World \<Rightarrow> entity list) \<Rightarrow> entity \<Rightarrow> byte_seq \<Rightarrow> World \<Rightarrow> reply \<times> World" where
  "HandlePlayerMovementSystem nbs e payload w = (case ReadMovePayload payload of
     None \<Rightarrow> ((''Error: Invalid movement payload length. Expected 8 bytes.'' @ crlf, False), w)
   | Some p \<Rightarrow> (case MovementSystem e (sint (mp_X p)) (sint (mp_Z p)) (game_view w) of (ok, g) \<Rightarrow>
       let w1 = set_game g w
       in if \<not> ok then ((''Error: Movement validation rejected.'' @ crlf, False), w1)
          else case GetPosition (default_registry w1) e of
            None \<Rightarrow> (([], True), w1)
          | Some pos \<Rightarrow> (([], True), ProcessAOIEvents (nbs e w1) e pos w1)))"

end
