(* ===== verification/Accounts.thy ===== *)
theory Accounts
  imports Game_Loop Attack Systems Chat Netio
begin

text \<open>
  Accounts and the login: \<open>server/models/player.go\<close>, \<open>server/auth/auth.go\<close> and the alignment of the identifiers at boot
  (\<open>server/server.go\<close>). The SQL server and bcrypt are not part of the repository: they are parameters, and
  \<open>documented\<close>, \<open>documented_names\<close> and \<open>bcrypt_ok\<close> state what they document. A Go string is a list of bytes; names
  are kept as \<open>string\<close>. The errors of a transaction (begin, statement, commit) are one error. The texts that are
  only logged, deadlines and pools are left out.
\<close>

subsection \<open>Names and passwords\<close>

definition string_of :: "byte_seq \<Rightarrow> string" where "string_of bs = map (\<lambda>b. char_of (unat b)) bs"

definition alnum :: "char \<Rightarrow> bool" where
  "alnum c = (let n = of_char c :: nat in (97 \<le> n \<and> n \<le> 122) \<or> (65 \<le> n \<and> n \<le> 90) \<or> (48 \<le> n \<and> n \<le> 57))"

definition ValidateUsername :: "string \<Rightarrow> bool" where
  "ValidateUsername name = (if length name < 3 \<or> length name > 16 then False else list_all alnum name)"

definition SanitizeUsername :: "byte_seq \<Rightarrow> byte_seq" where "SanitizeUsername name = TrimSpace name"

definition ValidatePassword :: "byte_seq \<Rightarrow> bool" where "ValidatePassword password \<longleftrightarrow> length password \<ge> 6"

subsection \<open>The packet\<close>

record packetAuth =
  au_username :: string
  au_password :: byte_seq

definition skip_hint :: "byte_seq \<Rightarrow> byte_seq" where
  "skip_hint payload =
     (if length payload \<ge> 6 \<and> (payload ! 0 > 16 \<or> payload ! 0 = 0) then drop 4 payload else payload)"

definition parseAuthPayload :: "byte_seq \<Rightarrow> packetAuth option" where
  "parseAuthPayload payload =
     (let a = skip_hint payload
      in if length a < 2 then None
         else let ul = unat (a ! 0)
           in if ul = 0 \<or> ul > length a - 1 then None
              else if 1 + ul \<ge> length a then None
              else let pl = unat (a ! (1 + ul))
                in if pl = 0 \<or> 2 + ul + pl > length a then None
                   else Some \<lparr>au_username = string_of (SanitizeUsername (take ul (drop 1 a))),
                          au_password = take pl (drop (2 + ul) a)\<rparr>)"

subsection \<open>The database\<close>

record 'db sql =
  sq_hasDB :: bool
  sq_tx :: "sql_stmt list \<Rightarrow> 'db \<Rightarrow> string option \<times> 'db"
  sq_char :: "string \<Rightarrow> 'db \<Rightarrow> (u64 \<times> string) option"
  sq_char_error :: "string \<Rightarrow> 'db \<Rightarrow> bool"
  sq_state :: "u64 \<Rightarrow> 'db \<Rightarrow> state_row option"
  sq_items :: "u64 \<Rightarrow> 'db \<Rightarrow> (u64 \<times> int) list"

text \<open>
  The column of names has the collation \<open>utf8mb4_unicode_ci\<close> (\<open>schema.sql\<close>): names are equal to the server if their sort keys
  are, and \<open>key\<close> is that key. A row is found under every spelling of its name.
\<close>

fun name_effect :: "(string \<Rightarrow> string) \<Rightarrow> sql_stmt \<Rightarrow> (string \<rightharpoonup> u64 \<times> string) \<Rightarrow> string \<rightharpoonup> u64 \<times> string" where
  "name_effect key (InsertCharacter c name hash) m = (\<lambda>n. if key n = key name then Some (c, hash) else m n)"
| "name_effect key stmt m = m"

definition documented_names :: "(string \<Rightarrow> string) \<Rightarrow> 'db sql \<Rightarrow> bool" where
  "documented_names key sq \<longleftrightarrow> (\<forall>stmts db db'. sq_tx sq stmts db = (None, db') \<longrightarrow>
     (\<lambda>n. sq_char sq n db') = fold (name_effect key) stmts (\<lambda>n. sq_char sq n db))"

text \<open>On the names that \<open>ValidateUsername\<close> lets through the collation ignores the case of letters, and nothing else.\<close>

definition ascii_key :: "string \<Rightarrow> string" where
  "ascii_key name = map (\<lambda>c. let n = of_char c :: nat in if 65 \<le> n \<and> n \<le> 90 then char_of (n + 32) else c) name"

definition default_row :: state_row where
  "default_row = \<lparr>row_map_id = 1, row_x = 0, row_z = 0, row_hp = 100, row_max_hp = 100, row_damage = 15, row_level = 1, row_xp = 0,
     row_mp = 100, row_max_mp = 100, row_weapon_id = 0, row_armor_id = 0\<rparr>"

definition loadSaved :: "'db sql \<Rightarrow> string \<Rightarrow> 'db \<Rightarrow> savedPlayerData option" where
  "loadSaved sq name db = (if \<not> sq_hasDB sq then None else loadSavedPlayerState (sq_char sq) (sq_state sq) (sq_items sq) name db)"

definition LookupCredentials :: "'db sql \<Rightarrow> string \<Rightarrow> 'db \<Rightarrow> (u64 \<times> string) option" where
  "LookupCredentials sq name db = (if \<not> sq_hasDB sq then None else sq_char sq name db)"

text \<open>\<open>RegisterNewAccount\<close>: the error, if any.\<close>

definition RegisterNewAccount :: "'db sql \<Rightarrow> string \<Rightarrow> string \<Rightarrow> Game \<times> 'db \<Rightarrow> string option \<times> Game \<times> 'db" where
  "RegisterNewAccount sq name hash gdb = (case gdb of (g, db) \<Rightarrow>
     if \<not> sq_hasDB sq then (Some ''database not initialized'', g, db)
     else if sq_char_error sq name db then (Some ''DB lookup failed'', g, db)
     else if sq_char sq name db \<noteq> None then (Some ''username already exists'', g, db)
     else (case reg_NewEntity (g_reg g) (g_free g) of (e, r, fl) \<Rightarrow>
       (case sq_tx sq [InsertCharacter e name hash, InsertState e default_row] db of
          (err, db') \<Rightarrow> (err, g\<lparr>g_reg := r, g_free := fl\<rparr>, db'))))"

subsection \<open>The entity of a player\<close>

definition fresh_player :: StatsComponent where
  "fresh_player = \<lparr>st_Level = 1, st_XP = 0, st_HP = 100, st_MaxHP = 100, st_MP = 100, st_MaxMP = 100, st_Dam = 15, st_Attack = 15,
     st_MagicAttack = 0, st_Defense = 0, st_MagicDefense = 0, st_HitRate = 850, st_DodgeRate = 100, st_CritRate = 50, st_CritDamage = 1500\<rparr>"

definition player_connection :: ConnectionComponent where
  "player_connection = \<lparr>has_conn = True, conn_validator = Some zero_validator, conn_writer = Some (NewWriter 256)\<rparr>"

definition restore_components :: "entity \<Rightarrow> savedPlayerData \<Rightarrow> Registry \<Rightarrow> Registry" where
  "restore_components e sd r =
     (let r1 = SetEquipment e (sd_Equipment sd) (SetStats e (sd_Stats sd) (SetPosition e (sd_Pos sd) r))
      in if sd_Inventory sd \<noteq> Map.empty then SetInventory e \<lparr>Items = sd_Inventory sd\<rparr> r1 else r1)"

definition new_components :: "bool \<Rightarrow> entity \<Rightarrow> Game \<Rightarrow> Game" where
  "new_components isBot e g =
     (case (if isBot then (case draw 891 g of (dx, g1) \<Rightarrow> (case draw 891 g1 of (dz, g2) \<Rightarrow> (10 + dx, 10 + dz, g2))) else (10, 10, g)) of
        (x, z, g') \<Rightarrow> g'\<lparr>g_reg := SetEquipment e no_equipment (SetStats e fresh_player
           (SetPosition e \<lparr>MapID = 1, PosX = x, PosZ = z\<rparr> (g_reg g')))\<rparr>)"

definition CreatePlayerEntity ::
  "'db sql \<Rightarrow> string \<Rightarrow> string \<Rightarrow> Game \<times> (string \<rightharpoonup> entity) \<times> 'db \<Rightarrow> (string + entity) \<times> Game \<times> (string \<rightharpoonup> entity) \<times> 'db" where
  "CreatePlayerEntity sq addr username st = (case st of (g, active, db) \<Rightarrow>
     let isBot = is_bot username;
         saved = (if isBot then None else loadSaved sq username db)
     in (case (case saved of Some sd \<Rightarrow> (sd_CharacterID sd, g_reg g, g_free g) | None \<Rightarrow> reg_NewEntity (g_reg g) (g_free g)) of
          (e, r, fl) \<Rightarrow>
            let g1 = g\<lparr>g_reg := r, g_free := fl\<rparr>
            in (case (if sq_hasDB sq \<and> saved = None \<and> \<not> isBot then sq_tx sq [InsertState e default_row] db else (None, db)) of
                 (Some err, db') \<Rightarrow> (Inl err, g1, active, db')
               | (None, db') \<Rightarrow>
                   let g2 = (case saved of Some sd \<Rightarrow> g1\<lparr>g_reg := restore_components e sd (g_reg g1)\<rparr> | None \<Rightarrow> new_components isBot e g1)
                   in (Inr e, g2\<lparr>g_reg := SetMetadata e \<lparr>meta_Name = username, meta_Type = EntityPlayer\<rparr>
                          (SetConnection e player_connection (g_reg g2))\<rparr>,
                       active(addr \<mapsto> e), db'))))"

subsection \<open>The login\<close>

definition OpcodeC2SLogin :: u8 where "OpcodeC2SLogin = 10"
definition OpcodeC2SRegister :: u8 where "OpcodeC2SRegister = 11"

definition ErrCodeServerFull :: u16 where "ErrCodeServerFull = 1"
definition ErrCodeDatabaseError :: u16 where "ErrCodeDatabaseError = 2"
definition ErrCodeInternalError :: u16 where "ErrCodeInternalError = 3"

definition write_conn :: "string \<Rightarrow> byte_seq \<Rightarrow> Server \<Rightarrow> Server" where
  "write_conn addr frame s = s\<lparr>sv_direct := sv_direct s @ [(addr, frame)]\<rparr>"

definition close_conn :: "string \<Rightarrow> Server \<Rightarrow> Server" where
  "close_conn addr s = s\<lparr>sv_closed := addr # sv_closed s\<rparr>"

definition refuse :: "string \<Rightarrow> u16 \<Rightarrow> string \<Rightarrow> Server \<Rightarrow> Server" where
  "refuse addr code msg s = close_conn addr (write_conn addr (BuildError code (bytes_of msg)) s)"

text \<open>A LOGIN packet that is let in, or the reason why not.\<close>

definition check_login :: "'db sql \<Rightarrow> (byte_seq \<Rightarrow> string \<Rightarrow> bool) \<Rightarrow> byte_seq \<Rightarrow> 'db \<Rightarrow> string + packetAuth" where
  "check_login sq CheckPasswordHash payload db = (case parseAuthPayload payload of
     None \<Rightarrow> Inl ''Invalid LOGIN packet payload.''
   | Some au \<Rightarrow>
       if \<not> ValidateUsername (au_username au) then Inl ''Username must be 3-16 alphanumeric characters.''
       else if \<not> ValidatePassword (au_password au) then Inl ''Password must be at least 6 characters.''
       else if \<not> sq_hasDB sq \<or> is_bot (au_username au) then Inr au
       else (case LookupCredentials sq (au_username au) db of
               None \<Rightarrow> Inl ''Account does not exist. Please register first.''
             | Some (_, storedHash) \<Rightarrow>
                 if \<not> CheckPasswordHash (au_password au) storedHash then Inl ''Invalid username or password.'' else Inr au))"

definition check_register :: "byte_seq \<Rightarrow> string + packetAuth" where
  "check_register payload = (case parseAuthPayload payload of
     None \<Rightarrow> Inl ''Invalid REGISTER packet payload.''
   | Some au \<Rightarrow>
       if \<not> ValidateUsername (au_username au) then Inl ''Username must be 3-16 alphanumeric characters.''
       else if \<not> ValidatePassword (au_password au) then Inl ''Password must be at least 6 characters.''
       else Inr au)"

text \<open>The packets a player gets when let in, the news to the others, and the watcher.\<close>

definition self_spawn :: "EntitySnapshot \<Rightarrow> byte_seq" where
  "self_spawn sn = spawn_frame (snap_ID sn) (snap_Meta sn) (case snap_Pos sn of None \<Rightarrow> blank_pos | Some p \<Rightarrow> p)"

definition self_stats :: "EntitySnapshot \<Rightarrow> byte_seq" where
  "self_stats sn = BuildStatsSync (stats_payload (snap_ID sn) (case snap_Stats sn of None \<Rightarrow> blank_stats | Some st \<Rightarrow> st))"

definition greet :: "EntitySnapshot \<Rightarrow> Game \<Rightarrow> Game" where
  "greet sn g =
     (let e = snap_ID sn;
          g1 = g\<lparr>g_out := g_out g @ [(e, BuildSuccessWithEntityID e (bytes_of ''Login successful.'')), (e, self_spawn sn), (e, self_stats sn)]\<rparr>
      in if is_bot (meta_Name (snap_Meta sn)) then g1
         else BroadcastSystem (bytes_of (''Player '' @ meta_Name (snap_Meta sn) @ '' has logged into the game!'' @ crlf)) g1)"

definition admit :: "'db sql \<Rightarrow> string \<Rightarrow> string \<Rightarrow> Server \<times> 'db \<Rightarrow> EntitySnapshot option \<times> Server \<times> 'db" where
  "admit sq addr name sdb = (case sdb of (s, db) \<Rightarrow>
     (case CreatePlayerEntity sq addr name (game_view (sv_world s), sv_active s, db) of
        (Inl _, g, active, db') \<Rightarrow>
          (None, refuse addr ErrCodeDatabaseError ''Failed to load character data. Please try again.''
             (s\<lparr>sv_world := set_game g (sv_world s), sv_active := active\<rparr>), db')
      | (Inr e, g, active, db') \<Rightarrow>
          let s1 = s\<lparr>sv_world := set_game g (sv_world s), sv_active := active\<rparr>
          in (case GetSnapshot (default_registry (sv_world s1)) e of
                None \<Rightarrow> (None, close_conn addr s1, db')
              | Some sn \<Rightarrow>
                  if \<not> has_writer (default_registry (sv_world s1)) e then (None, close_conn addr s1, db')
                  else (Some sn, s1\<lparr>sv_world := RegisterPlayerAOI e (on_game (greet sn) (sv_world s1))\<rparr>, db'))))"

text \<open>
  \<open>processLogin\<close>: the first packet of a connection. The result is the snapshot of the player who is let in with the
  bytes that follow, for the client loop.
\<close>

definition processLogin ::
  "'db sql \<Rightarrow> (byte_seq \<Rightarrow> string option) \<Rightarrow> (byte_seq \<Rightarrow> string \<Rightarrow> bool) \<Rightarrow> string \<Rightarrow> byte_seq \<Rightarrow> Server \<times> 'db \<Rightarrow>
   (EntitySnapshot \<times> byte_seq) option \<times> Server \<times> 'db" where
  "processLogin sq HashPassword CheckPasswordHash addr input sdb = (case sdb of (s, db) \<Rightarrow>
     let fail = (\<lambda>msg. (None, refuse addr ErrCodeInternalError msg s, db))
     in (case ReadHeader input of
        Inl _ \<Rightarrow> fail ''Failed to read auth packet length.''
      | Inr (len, rest) \<Rightarrow>
          if len = 0 \<or> len > 256 then fail ''Invalid auth packet length.''
          else (case ReadPayload rest len of
            Inl _ \<Rightarrow> fail ''Failed to read auth packet payload.''
          | Inr (packet, rest') \<Rightarrow>
              if hd packet = OpcodeC2SLogin then
                (case check_login sq CheckPasswordHash (tl packet) db of
                   Inl msg \<Rightarrow> fail msg
                 | Inr au \<Rightarrow> (case admit sq addr (au_username au) (s, db) of
                     (sn, s', db') \<Rightarrow> (map_option (\<lambda>sn. (sn, rest')) sn, s', db')))
              else if hd packet = OpcodeC2SRegister then
                (case check_register (tl packet) of
                   Inl msg \<Rightarrow> fail msg
                 | Inr au \<Rightarrow> (case HashPassword (au_password au) of
                     None \<Rightarrow> fail ''Server error. Please try again.''
                   | Some h \<Rightarrow> (case RegisterNewAccount sq (au_username au) h (game_view (sv_world s), db) of
                       (err, g, db') \<Rightarrow>
                         let s1 = s\<lparr>sv_world := set_game g (sv_world s)\<rparr>
                         in (None, if err \<noteq> None then refuse addr ErrCodeInternalError ''Username already exists.'' s1
                              else close_conn addr (write_conn addr (BuildSuccess (bytes_of ''Account registered successfully! Please log in.'')) s1),
                             db'))))
              else fail ''Expected LOGIN or REGISTER packet as first message.'')))"

subsection \<open>The packet, read back\<close>

lemma skip_hint_exact:
  assumes "u \<in> {1 .. 16}" and "hint = [] \<or> length hint = 4 \<and> (hint ! 0 > 16 \<or> hint ! 0 = 0)" and "2 \<le> length rest"
  shows "skip_hint (hint @ of_nat u # rest) = of_nat u # rest"
proof -
  have "\<not> 16 < (of_nat u :: u8)" "(of_nat u :: u8) \<noteq> 0"
    using assms(1) by (auto simp: word_less_nat_alt unat_of_nat word_unat_eq_iff)
  with assms(2,3) show ?thesis by (cases hint) (auto simp: skip_hint_def)
qed

text \<open>
  A LOGIN or REGISTER payload with a name of 1 to 16 bytes and a password of 1 to 255 bytes is read back, with or without
  a trace hint in front, provided the first byte of the hint cannot be the length of a name.
\<close>

theorem auth_roundtrip:
  assumes "length u \<in> {1 .. 16}" and "length p \<in> {1 .. 255}"
    and "hint = [] \<or> length hint = 4 \<and> (hint ! 0 > 16 \<or> hint ! 0 = 0)"
  shows "parseAuthPayload (hint @ of_nat (length u) # u @ of_nat (length p) # p) =
    Some \<lparr>au_username = string_of (SanitizeUsername u), au_password = p\<rparr>"
proof -
  have "unat (of_nat (length u) :: u8) = length u" "unat (of_nat (length p) :: u8) = length p"
    using assms(1,2) by (auto simp: unat_of_nat)
  moreover have "skip_hint (hint @ of_nat (length u) # u @ of_nat (length p) # p) = of_nat (length u) # u @ of_nat (length p) # p"
    using assms by (intro skip_hint_exact) auto
  moreover have "u \<noteq> []" "p \<noteq> []" using assms(1,2) by auto
  ultimately show ?thesis by (simp add: parseAuthPayload_def Let_def nth_append)
qed

lemma auth_roundtrip_witness:
  "parseAuthPayload ([0xFF, 0, 0, 1] @ [3, 65, 110, 110] @ [6, 1, 2, 3, 4, 5, 6]) =
     Some \<lparr>au_username = string_of (SanitizeUsername [65, 110, 110]), au_password = [1, 2, 3, 4, 5, 6]\<rparr>"
  using auth_roundtrip [of "[65, 110, 110]" "[1, 2, 3, 4, 5, 6]" "[0xFF, 0, 0, 1]"] by simp

text \<open>A hint whose first byte is 1 to 16 is read as the packet: the login of a client that sends one fails.\<close>

lemma hint_misread: "parseAuthPayload ([3, 0, 0, 1] @ [3, 65, 110, 110] @ [6, 1, 2, 3, 4, 5, 6]) =
  Some \<lparr>au_username = string_of (SanitizeUsername [0, 0, 1]), au_password = [65, 110, 110]\<rparr>"
  by (simp add: parseAuthPayload_def skip_hint_def)

subsection \<open>From registration to the game\<close>

lemma loaded_items:
  "distinct (map fst xs) \<Longrightarrow> fold (\<lambda>(k, q) m. m(k \<mapsto> q)) xs Map.empty = map_of xs"
  by (rule ext) (simp add: fold_map_of split: option.split)

lemma register_rows:
  assumes "documented (sq_tx sq) (sq_state sq) (sq_items sq)" and "documented_names key sq"
    and "sq_tx sq [InsertCharacter e name hash, InsertState e row] db = (None, db1)"
  shows "sq_char sq n db1 = (if key n = key name then Some (e, hash) else sq_char sq n db)"
    and "sq_state sq c db1 = (if c = e then Some row else sq_state sq c db)"
    and "map_of (sq_items sq c db1) = map_of (sq_items sq c db)"
proof -
  from assms(2,3) have "(\<lambda>n. sq_char sq n db1) = fold (name_effect key) [InsertCharacter e name hash, InsertState e row] (\<lambda>n. sq_char sq n db)"
    unfolding documented_names_def by blast
  then show "sq_char sq n db1 = (if key n = key name then Some (e, hash) else sq_char sq n db)" by (simp add: fun_eq_iff)
  from assms(1,3) have v: "row_view (sq_state sq) (sq_items sq) db1 =
      fold stmt_effect [InsertCharacter e name hash, InsertState e row] (row_view (sq_state sq) (sq_items sq) db)"
    unfolding documented_def by blast
  then have "(\<lambda>c. sq_state sq c db1) = (\<lambda>c. sq_state sq c db)(e \<mapsto> row)"
      and it: "(\<lambda>(c, k). map_of (sq_items sq c db1) k) = (\<lambda>(c, k). map_of (sq_items sq c db) k)"
    by (simp_all add: row_view_def)
  then show "sq_state sq c db1 = (if c = e then Some row else sq_state sq c db)" by (metis fun_upd_apply)
  show "map_of (sq_items sq c db1) = map_of (sq_items sq c db)" using fun_cong [OF it, of "(c, k)" for k] by (simp add: fun_eq_iff)
qed

lemma restore_exact:
  assumes "registry_inv r" and "inj_on EntityIndex (insert e (registered r))"
    and "r' = SetMetadata e m (SetConnection e c (restore_components e sd r))"
  shows "registry_inv r'" and "registered r' = insert e (registered r)"
    and "GetPosition r' = (GetPosition r)(e \<mapsto> sd_Pos sd)" and "GetStats r' = (GetStats r)(e \<mapsto> sd_Stats sd)"
    and "GetEquipment r' = (GetEquipment r)(e \<mapsto> sd_Equipment sd)" and "GetMetadata r' = (GetMetadata r)(e \<mapsto> m)"
    and "GetConnection r' = (GetConnection r)(e \<mapsto> c)"
    and "GetInventory r' = (if sd_Inventory sd = Map.empty then GetInventory r else (GetInventory r)(e \<mapsto> \<lparr>Items = sd_Inventory sd\<rparr>))"
proof -
  define r1 where "r1 = SetPosition e (sd_Pos sd) r"
  note P = SetPosition_inv [OF assms(1,2), of "sd_Pos sd", folded r1_def]
  have e: "e \<in> registered r1" by (simp add: P(3))
  have "GetStats r1 = GetStats r" "GetEquipment r1 = GetEquipment r" "GetMetadata r1 = GetMetadata r"
      "GetConnection r1 = GetConnection r" "GetInventory r1 = GetInventory r"
    by (simp_all add: r1_def)
  with P e show "registry_inv r'" "registered r' = insert e (registered r)"
    "GetPosition r' = (GetPosition r)(e \<mapsto> sd_Pos sd)" "GetStats r' = (GetStats r)(e \<mapsto> sd_Stats sd)"
    "GetEquipment r' = (GetEquipment r)(e \<mapsto> sd_Equipment sd)" "GetMetadata r' = (GetMetadata r)(e \<mapsto> m)"
    "GetConnection r' = (GetConnection r)(e \<mapsto> c)"
    "GetInventory r' = (if sd_Inventory sd = Map.empty then GetInventory r else (GetInventory r)(e \<mapsto> \<lparr>Items = sd_Inventory sd\<rparr>))"
    by (simp_all add: assms(3) restore_components_def Let_def flip: r1_def)
qed

text \<open>
  C16: After a registration that succeeds, the spellings the collation takes for the name, and no other names, have new
  credentials; and when the player logs in under any of these spellings, unless it is one of a bot, into any state of the game where the slot of its identifier is free or its own, it becomes that entity at the
  origin of map 1 with the starting stats, the name as it was spelled, no equipment and the items the database has for the identifier. It is not
  entered into the spatial grid.
\<close>

theorem register_login:
  assumes doc: "documented (sq_tx sq) (sq_state sq) (sq_items sq)" "documented_names key sq"
    and spelled: "key spelling = key name" "\<not> is_bot spelling"
    and reg: "RegisterNewAccount sq name hash (g, db) = (None, g1, db1)" and e: "e = fst (reg_NewEntity (g_reg g) (g_free g))"
    and slot: "registry_inv (g_reg g2)" "inj_on EntityIndex (insert e (registered (g_reg g2)))"
  shows "LookupCredentials sq n db1 = (if key n = key name then Some (e, hash) else LookupCredentials sq n db) \<and>
    (\<exists>g3. CreatePlayerEntity sq addr spelling (g2, active, db1) = (Inr e, g3, active(addr \<mapsto> e), db1) \<and>
      registry_inv (g_reg g3) \<and> registered (g_reg g3) = insert e (registered (g_reg g2)) \<and>
      GetPosition (g_reg g3) = (GetPosition (g_reg g2))(e \<mapsto> \<lparr>MapID = 1, PosX = 0, PosZ = 0\<rparr>) \<and>
      GetStats (g_reg g3) = (GetStats (g_reg g2))(e \<mapsto> fresh_player) \<and>
      GetEquipment (g_reg g3) = (GetEquipment (g_reg g2))(e \<mapsto> no_equipment) \<and>
      GetMetadata (g_reg g3) = (GetMetadata (g_reg g2))(e \<mapsto> \<lparr>meta_Name = spelling, meta_Type = EntityPlayer\<rparr>) \<and>
      GetConnection (g_reg g3) = (GetConnection (g_reg g2))(e \<mapsto> player_connection) \<and>
      GetInventory (g_reg g3) = (if map_of (sq_items sq e db) = Map.empty then GetInventory (g_reg g2)
        else (GetInventory (g_reg g2))(e \<mapsto> \<lparr>Items = map_of (sq_items sq e db)\<rparr>)) \<and>
      g_grid g3 = g_grid g2 \<and> g_free g3 = g_free g2)"
proof -
  have has: "sq_hasDB sq" using reg by (auto simp: RegisterNewAccount_def split: if_splits)
  have tx: "sq_tx sq [InsertCharacter e name hash, InsertState e default_row] db = (None, db1)"
    using reg by (auto simp: RegisterNewAccount_def e split: if_splits prod.splits)
  note R = register_rows [OF doc tx]
  have dist: "distinct (map fst (sq_items sq e db1))" using doc(1) by (simp add: documented_def)
  define sd where "sd = \<lparr>sd_CharacterID = e, sd_Pos = \<lparr>MapID = 1, PosX = 0, PosZ = 0\<rparr>, sd_Stats = fresh_player,
      sd_Equipment = no_equipment, sd_Inventory = map_of (sq_items sq e db), sd_PasswordHash = hash\<rparr>"
  have saved: "loadSaved sq spelling db1 = Some sd"
    by (simp add: loadSaved_def has loadSavedPlayerState_def R(1,2) spelled(1) loaded_items [OF dist] R(3) sd_def Let_def
        default_row_def row_stats_def fresh_player_def no_equipment_def)
  define r3 where "r3 = SetMetadata e \<lparr>meta_Name = spelling, meta_Type = EntityPlayer\<rparr>
      (SetConnection e player_connection (restore_components e sd (g_reg g2)))"
  have "CreatePlayerEntity sq addr spelling (g2, active, db1) = (Inr e, g2\<lparr>g_reg := r3\<rparr>, active(addr \<mapsto> e), db1)"
    by (simp add: CreatePlayerEntity_def spelled(2) saved Let_def r3_def) (simp add: sd_def)
  then show ?thesis
    using restore_exact [OF slot r3_def] by (simp add: sd_def LookupCredentials_def has R(1))
qed

text \<open>A reference database with the table of names under the collation of ASCII letters, and the first account of a new server.\<close>

definition ref_sql :: "((string \<rightharpoonup> u64 \<times> string) \<times> ref_db) sql" where
  "ref_sql = \<lparr>sq_hasDB = True, sq_tx = (\<lambda>stmts (m, v). (None, fold (name_effect ascii_key) stmts m, fold stmt_effect stmts v)),
     sq_char = (\<lambda>n (m, v). m n), sq_char_error = (\<lambda>_ _. False), sq_state = (\<lambda>c (m, v). ref_state c v), sq_items = (\<lambda>c (m, v). ref_items c v)\<rparr>"

lemma ref_sql_documented:
  "documented (sq_tx ref_sql) (sq_state ref_sql) (sq_items ref_sql)" "documented_names ascii_key ref_sql"
proof -
  have "row_view (sq_state ref_sql) (sq_items ref_sql) db = row_view ref_state ref_items (snd db)" for db
    by (simp add: row_view_def ref_sql_def case_prod_beta)
  moreover have "row_view ref_state ref_items v = v" for v
    by (cases v) (simp add: row_view_def ref_state_def ref_items_map case_prod_beta)
  moreover have "distinct (map fst (sq_items ref_sql c db))" for c db
    by (cases "snd db") (use ref_documented in \<open>simp add: documented_def ref_sql_def case_prod_beta\<close>)
  ultimately show "documented (sq_tx ref_sql) (sq_state ref_sql) (sq_items ref_sql)"
    by (auto simp: documented_def ref_sql_def)
  show "documented_names ascii_key ref_sql" by (auto simp: documented_names_def ref_sql_def)
qed

lemma ascii_key_Ann: "ascii_key ''ANN'' = ascii_key ''Ann''"
  by (simp add: ascii_key_def char_of_eq_iff take_bit_eq_mod)

theorem register_login_witness:
  "\<exists>e g1 db1 g3 active. RegisterNewAccount ref_sql ''Ann'' ''hash'' (arena, Map.empty, Map.empty, Map.empty) = (None, g1, db1) \<and>
     CreatePlayerEntity ref_sql ''host'' ''ANN'' (g1, Map.empty, db1) = (Inr e, g3, active, db1) \<and> e \<noteq> hero \<and>
     map_option meta_Name (GetMetadata (g_reg g3) e) = Some ''ANN'' \<and>
     GetStats (g_reg g3) e = Some fresh_player \<and> GetStats (g_reg g3) hero = Some hero_stats"
proof -
  obtain e r fl where new: "reg_NewEntity (g_reg arena) (g_free arena) = (e, r, fl)" by (metis prod_cases3)
  let ?g1 = "arena\<lparr>g_reg := r, g_free := fl\<rparr>"
  obtain db1 where reg: "RegisterNewAccount ref_sql ''Ann'' ''hash'' (arena, Map.empty, Map.empty, Map.empty) = (None, ?g1, db1)"
    using new by (auto simp: RegisterNewAccount_def ref_sql_def)
  have room: "alloc_room (g_reg arena) (g_free arena)" by (simp add: alloc_room_def ids_room_def arena_reg_def)
  note N = alloc_NewEntity [OF _ room new, of "{hero, foe}" "{hero, foe}"]
  have ok: "alloc_ok r fl {e, hero, foe} {e, hero, foe}" and ne: "e \<noteq> hero" using N(1,2) arena_reg(1) by auto
  have slot: "registry_inv r" "inj_on EntityIndex (insert e (registered r))"
    using alloc_okD(1) [OF ok] alloc_live_insert [OF ok] by auto
  have stats: "GetStats r = GetStats arena_reg" using N(5) arena_reg(1) by (auto simp: same_components_def fun_eq_iff)
  have "e = fst (reg_NewEntity (g_reg arena) (g_free arena))" using new by simp
  moreover have "ascii_key ''ANN'' = ascii_key ''Ann''" "\<not> is_bot ''ANN''" by (simp_all add: ascii_key_Ann is_bot_def)
  ultimately obtain g3 where
    "CreatePlayerEntity ref_sql ''host'' ''ANN'' (?g1, Map.empty, db1) = (Inr e, g3, [''host'' \<mapsto> e], db1)"
    "GetMetadata (g_reg g3) = (GetMetadata r)(e \<mapsto> \<lparr>meta_Name = ''ANN'', meta_Type = EntityPlayer\<rparr>)"
    "GetStats (g_reg g3) = (GetStats r)(e \<mapsto> fresh_player)"
    using register_login [OF ref_sql_documented _ _ reg, of "''ANN''" e ?g1 _ "''host''" Map.empty] slot by auto
  with reg ne show ?thesis by (auto simp: stats arena_reg(4))
qed

text \<open>
  Two spellings of one account are two names to the game: whoever registered \<open>Ann\<close> also logs in as \<open>ANN\<close>, and \<open>ANN\<close> cannot
  be registered any more.
\<close>

lemma alias_login:
  assumes "documented (sq_tx sq) (sq_state sq) (sq_items sq)" and "documented_names ascii_key sq"
    and "RegisterNewAccount sq ''Ann'' hash (g, db) = (None, g1, db1)" and "\<not> sq_char_error sq ''ANN'' db1"
  shows "map_option snd (LookupCredentials sq ''ANN'' db1) = Some hash"
    and "fst (RegisterNewAccount sq ''ANN'' hash' (g1, db1)) = Some ''username already exists''"
proof -
  have has: "sq_hasDB sq" using assms(3) by (auto simp: RegisterNewAccount_def split: if_splits)
  obtain e where "sq_tx sq [InsertCharacter e ''Ann'' hash, InsertState e default_row] db = (None, db1)"
    using assms(3) by (auto simp: RegisterNewAccount_def split: if_splits prod.splits)
  from register_rows(1) [OF assms(1,2) this, of "''ANN''"] have "sq_char sq ''ANN'' db1 = Some (e, hash)" by (simp add: ascii_key_Ann)
  with has assms(4) show "map_option snd (LookupCredentials sq ''ANN'' db1) = Some hash"
    "fst (RegisterNewAccount sq ''ANN'' hash' (g1, db1)) = Some ''username already exists''"
    by (simp_all add: LookupCredentials_def RegisterNewAccount_def)
qed

subsection \<open>Identifiers at boot\<close>

text \<open>The counter starts at the largest identifier in the table of characters, \<open>COALESCE(MAX(id), 0)\<close>.\<close>

definition align_ids :: "u64 list \<Rightarrow> Registry \<Rightarrow> Registry" where
  "align_ids ids r = SetNextID (fold max ids 0) r"

text \<open>
  A character whose slot was reused has a larger identifier than one in a later slot: with the characters of slot 4 in its
  first and slot 3 in its second generation, the first entity after the boot takes slot 4, which belongs to a
  character. The comment says the alignment avoids this.
\<close>

lemma boot_collision:
  "EntityIndex (fst (reg_NewEntity (align_ids [mk_entity 4 1, mk_entity 3 2] NewRegistry) [])) = EntityIndex (mk_entity 4 1)"
  by (simp add: align_ids_def SetNextID_def reg_NewEntity_def NewEntity_def Pop_empty mk_entity_def EntityIndex_def Let_def)

end
