(* ===== verification/Handlers.thy ===== *)
theory Handlers
  imports Accounts Trade Skills Progression
begin

text \<open>
  The packet handlers (\<open>server/network/handlers.go\<close>), their registry (\<open>handler_registry.go\<close>) and the life of a connection
  (\<open>router.go\<close>). A handler takes the address of the connection and the entity of the player; \<open>None\<close> is a handler
  that never returns. The texts of parties and trades, constructors in their theories, are written out here. What
  goes straight to the connection, not through its writer, is appended to \<open>sv_direct\<close>. Trace entries are left out.
\<close>

subsection \<open>The texts of parties and trades\<close>

definition show_name :: "shown_name \<Rightarrow> string" where
  "show_name n = (case n of Named s \<Rightarrow> s | EntityNo e \<Rightarrow> ''entity_'' @ dec_nat (unat e))"

definition party_text :: "party_reply \<Rightarrow> string" where
  "party_text m = (case m of
     InPartyAlready \<Rightarrow> ''Error: You are already in a party. Leave your current party first.''
   | PartyCreated name \<Rightarrow> ''Party '' @ [CHR 0x27] @ name @ [CHR 0x27] @ '' created! You are the leader.''
   | NotInParty \<Rightarrow> ''Error: You are not in a party.''
   | PartyNotFound \<Rightarrow> ''Error: Party not found.''
   | NotLeader \<Rightarrow> ''Error: Only the party leader can send invitations.''
   | PartyFull \<Rightarrow> ''Error: Party is full (max 4 members).''
   | TargetNotFound \<Rightarrow> ''Error: Target player not found.''
   | TargetInParty \<Rightarrow> ''Error: Target player is already in a party.''
   | InviteSent who \<Rightarrow> ''Invitation sent to '' @ show_name who @ ''.''
   | NoInvite \<Rightarrow> ''Error: No pending invitation found or invitation has expired.''
   | InviteMismatch \<Rightarrow> ''Error: Invitation does not match the specified party.''
   | PartyGone \<Rightarrow> ''Error: Party no longer exists.''
   | JoinerInParty \<Rightarrow> ''Error: You are already in a party.''
   | PartyNowFull \<Rightarrow> ''Error: Party is now full.''
   | Joined name \<Rightarrow> ''You have joined '' @ [CHR 0x27] @ name @ [CHR 0x27] @ ''!'') @ crlf"

definition party_notice_text :: "party_notice \<Rightarrow> string" where
  "party_notice_text n = ''[PARTY] '' @ (case n of
     InvitedBy who team \<Rightarrow> show_name who @ '' has invited you to join party '' @ [CHR 0x27] @ team @ [CHR 0x27] @ ''! Use JOIN command to accept.''
   | MemberJoined who team members \<Rightarrow> show_name who @ '' has joined '' @ [CHR 0x27] @ team @ [CHR 0x27] @ ''! Members: '' @ dec_nat members @ ''/'' @ dec_nat maxPartySize
   | MemberLeft who leader members \<Rightarrow> show_name who @ '' has left the party. '' @ show_name leader @ '' is now the leader. Members remaining: '' @ dec_nat members) @ crlf"

definition trade_text :: "string \<Rightarrow> u64 \<Rightarrow> int \<Rightarrow> trade_reply \<Rightarrow> string" where
  "trade_text target item qty m = (case m of
     TradeWithSelf \<Rightarrow> ''Error: You cannot trade with yourself.''
   | TradeNoTarget \<Rightarrow> ''Error: Target player does not exist.''
   | TradeBusySelf \<Rightarrow> ''Error: You are already in an active trade session.''
   | TradeBusyTarget \<Rightarrow> ''Error: Target player is already in an active trade session.''
   | TradeOpened \<Rightarrow> ''Trade session opened with '' @ target @ ''.''
   | TradeBadQuantity \<Rightarrow> ''Error: Invalid quantity.''
   | TradeNoSession \<Rightarrow> ''Error: You are not in an active trade session.''
   | TradeOfferLocked \<Rightarrow> ''Error: You cannot modify your offer after locking the trade window!''
   | TradeNoInventory \<Rightarrow> ''Error: Inventory not found.''
   | TradeInsufficient \<Rightarrow> ''Error: Insufficient inventory quantity!''
   | TradeOffered \<Rightarrow> ''Successfully offered Item ID #'' @ dec_nat (unat item) @ '' x'' @ dec_int qty @ '' to the trade window.''
   | TradeAlreadyLocked \<Rightarrow> ''Error: You have already locked your trade stage.''
   | TradeLocked \<Rightarrow> ''Offer window locked. Waiting for counterparty lock approval...''
   | TradeBadInventories \<Rightarrow> ''Error: One or both player inventories are invalid. Trade aborted.''
   | TradeAInsufficient \<Rightarrow> ''Error: Player A has insufficient items to trade. Trade aborted.''
   | TradeBInsufficient \<Rightarrow> ''Error: Player B has insufficient items to trade. Trade aborted.''
   | TradeCompleted \<Rightarrow> ''Trade completed successfully.''
   | TradeCancelled \<Rightarrow> ''Trade session cancelled successfully.''
   | TradeMissing \<Rightarrow> ''Error: Trade session does not exist.''
   | TradePanic \<Rightarrow> []) @ crlf"

definition trade_notice_text :: "Registry \<Rightarrow> trade_notice \<Rightarrow> string" where
  "trade_notice_text r n = ''[TRADE] '' @ (case n of
     NoticeOpened who \<Rightarrow> ''Player '' @ show_name (shown r who) @ '' has opened a trade session with you!''
   | NoticeOffered item qty \<Rightarrow> ''Counterparty offered Item #'' @ dec_nat (unat item) @ '' x'' @ dec_int qty @ ''.''
   | NoticeLocked \<Rightarrow> ''Counterparty has locked their offer window.''
   | NoticeCompleted \<Rightarrow> ''Trade complete! Items have been exchanged.''
   | NoticeCancelled \<Rightarrow> ''The trade session has been cancelled/disbanded.'') @ crlf"

subsection \<open>Handlers\<close>

type_synonym handler = "string \<Rightarrow> entity \<Rightarrow> byte_seq \<Rightarrow> Server \<Rightarrow> Server option"

definition with_game :: "(Game \<Rightarrow> Game) \<Rightarrow> Server \<Rightarrow> Server" where
  "with_game f s = s\<lparr>sv_world := on_game f (sv_world s)\<rparr>"

definition reg_of :: "Server \<Rightarrow> Registry" where "reg_of s = default_registry (sv_world s)"

definition notice :: "entity \<Rightarrow> string \<Rightarrow> Server \<Rightarrow> Server" where
  "notice e txt s = with_game (SendNoticeSystem e (bytes_of txt)) s"

definition bad_length :: "entity \<Rightarrow> string \<Rightarrow> nat \<Rightarrow> Server \<Rightarrow> Server option" where
  "bad_length e name n s = Some (notice e (''Error: Invalid '' @ name @ '' payload length. Expected '' @ dec_nat n @ '' bytes.'' @ crlf) s)"

definition read_id :: "byte_seq \<Rightarrow> u64" where "read_id b = the (ReadUint64 (take 8 b))"

definition handleMove :: "(entity \<Rightarrow> World \<Rightarrow> entity list) \<Rightarrow> handler" where
  "handleMove nbs conn e payload s = (case HandlePlayerMovementSystem nbs e payload (sv_world s) of
     ((errMsg, ok), w) \<Rightarrow> Some (if \<not> ok then notice e errMsg (s\<lparr>sv_world := w\<rparr>) else s\<lparr>sv_world := w\<rparr>))"

definition handleInventory :: "(item_bag \<Rightarrow> u64 list) \<Rightarrow> handler" where
  "handleInventory keys conn e payload s =
     (if length payload \<noteq> 0 then Some (notice e (''Error: INV packet payload must be empty.'' @ crlf) s)
      else let frame = BuildNotice (bytes_of (RunInventoryQuerySystem keys e (reg_of s)))
        in Some (if has_writer (reg_of s) e then with_game (SendNoticeBinary e frame) s else write_conn conn frame s))"

definition handleUseItem :: handler where
  "handleUseItem conn e payload s = (case HandleItemUsageSystem e payload (game_view (sv_world s)) of
     ((txt, ok), g) \<Rightarrow>
       let s1 = s\<lparr>sv_world := set_game g (sv_world s)\<rparr>
       in Some (if ok then with_game (BroadcastSystem (bytes_of txt)) s1 else notice e txt s1))"

definition handleWarp :: handler where
  "handleWarp conn e payload s = map_option (\<lambda>((txt, _), w). notice e txt (s\<lparr>sv_world := w\<rparr>)) (HandleWarpSystem e payload (sv_world s))"

text \<open>The reply of an attack is framed in a pooled buffer and written to the connection.\<close>

definition attack_reply :: "CombatResult \<Rightarrow> string" where
  "attack_reply cr =
     (if Killed cr then ''You killed '' @ TargetName cr @ ''!'' @ crlf
      else ''You hit '' @ TargetName cr @ '' for '' @ dec_int (Damage cr) @ '' damage. '' @ TargetName cr @ '' has '' @ dec_int (TargetHP cr)
        @ '' HP remaining.'' @ crlf)"

definition direct_notice :: "byte_seq \<Rightarrow> byte_seq" where
  "direct_notice txt = u16_be (of_nat (3 + length txt - 2)) @ OpcodeNotice # txt"

definition handleAttack :: handler where
  "handleAttack conn e payload s0 =
     (let s = s0\<lparr>sv_saves := QueuePlayerSave e (reg_of s0) (sv_saves s0)\<rparr>
      in case ReadAttackPayload payload of
        None \<Rightarrow> Some (notice e (''Error: Invalid ATTACK payload length. Expected 8 bytes.'' @ crlf) s)
      | Some target \<Rightarrow> map_option (\<lambda>(res, g).
          let s1 = s\<lparr>sv_world := set_game g (sv_world s)\<rparr>
          in case res of
            Inl errMsg \<Rightarrow> write_conn conn (direct_notice (bytes_of errMsg)) s1
          | Inr cr \<Rightarrow> write_conn conn (direct_notice (bytes_of (attack_reply cr))) s1)
          (AttackSystem e target (game_view (sv_world s))))"

definition handleInfo :: handler where
  "handleInfo conn e payload s =
     (if length payload \<noteq> 8 then bad_length e ''INFO'' 8 s
      else case GetInfoSystem (read_id payload) (reg_of s) of
        None \<Rightarrow> Some (notice e (''Entity not found.'' @ crlf) s)
      | Some txt \<Rightarrow> Some (notice e txt s))"

definition handleQuit :: handler where
  "handleQuit conn e payload s =
     (if length payload \<noteq> 0 then Some (notice e (''Error: QUIT packet payload must be empty.'' @ crlf) s) else Some (close_conn conn s))"

definition handlePickup :: handler where
  "handlePickup conn e payload s =
     (if length payload \<noteq> 8 then bad_length e ''PICKUP'' 8 s
      else case HandleItemPickupSystem e (read_id payload) (game_view (sv_world s)) of
        ((txt, _), g) \<Rightarrow> Some (notice e txt (s\<lparr>sv_world := set_game g (sv_world s)\<rparr>)))"

definition handleEquip :: handler where
  "handleEquip conn e payload s =
     (if length payload \<noteq> 8 then bad_length e ''EQUIP'' 8 s
      else case HandleEquipmentSystem e (read_id payload) (game_view (sv_world s)) of
        ((txt, ok), g) \<Rightarrow>
          let s1 = s\<lparr>sv_world := set_game g (sv_world s)\<rparr>;
              pos = (case GetPosition (reg_of s1) e of None \<Rightarrow> blank_pos | Some p \<Rightarrow> p)
          in Some (if ok then with_game (BroadcastToNeighbors pos (BuildNotice (bytes_of txt)) e) s1 else notice e txt s1))"

text \<open>Parties: the reply, and the notices to the members, sent before it.\<close>

definition tell_party :: "party_notices \<Rightarrow> Game \<Rightarrow> Game" where
  "tell_party ns g = fold (\<lambda>(to, n). SendNoticeSystem to (bytes_of (party_notice_text n))) ns g"

definition handlePartyCreate :: handler where
  "handlePartyCreate conn e payload s =
     (if length payload < 1 then Some (notice e (''Error: Invalid PARTY CREATE payload.'' @ crlf) s)
      else let n = unat (payload ! 0)
        in if n = 0 \<or> n > length payload - 1 then Some (notice e (''Error: Invalid team name length.'' @ crlf) s)
           else (case CreatePartySystem e (string_of (take n (drop 1 payload))) (reg_of s) (g_free (w_game (sv_world s))) of
             (reply, r, fl) \<Rightarrow> Some (notice e (party_text reply) (with_game (\<lambda>g. g\<lparr>g_reg := r, g_free := fl\<rparr>) s))))"

definition handlePartyInvite :: handler where
  "handlePartyInvite conn e payload s =
     (if length payload \<noteq> 8 then bad_length e ''PARTY INVITE'' 8 s
      else case SendPartyInviteSystem (GetCurrentTick (w_game (sv_world s))) e (read_id payload) (reg_of s) (sv_invites s) of
        ((reply, _), ic, ns) \<Rightarrow> Some (notice e (party_text reply) (with_game (tell_party ns) (s\<lparr>sv_invites := ic\<rparr>))))"

definition handlePartyJoin :: handler where
  "handlePartyJoin conn e payload s =
     (if length payload \<noteq> 8 then bad_length e ''PARTY JOIN'' 8 s
      else case AcceptPartyInviteSystem (GetCurrentTick (w_game (sv_world s))) e (read_id payload) (reg_of s) (sv_invites s) of
        ((reply, _), r, ic, ns) \<Rightarrow> Some (notice e (party_text reply)
          (with_game (\<lambda>g. tell_party ns (g\<lparr>g_reg := r\<rparr>)) (s\<lparr>sv_invites := ic\<rparr>))))"

text \<open>
  Trades. A session that is bound but missing is a nil pointer: the panic ends the process (\<open>None\<close>).
\<close>

definition tell_trade :: "notices \<Rightarrow> Game \<Rightarrow> Game" where
  "tell_trade ns g = fold (\<lambda>(to, n) g. SendNoticeSystem to (bytes_of (trade_notice_text (g_reg g) n)) g) ns g"

definition after_trade :: "entity \<Rightarrow> string \<Rightarrow> trade_reply \<Rightarrow> TradeSystemRegistry \<Rightarrow> (Game \<Rightarrow> Game) \<Rightarrow> notices \<Rightarrow> Server \<Rightarrow> Server option" where
  "after_trade e txt reply tr f ns s =
     (if reply = TradePanic then None else Some (notice e txt (with_game (\<lambda>g. tell_trade ns (f g)) (s\<lparr>sv_trades := tr\<rparr>))))"

definition handleTradeInit :: handler where
  "handleTradeInit conn e payload s =
     (if length payload \<noteq> 8 then bad_length e ''TRADE INIT'' 8 s
      else case InitializeTradeSession e (read_id payload) (sv_trades s) (reg_of s) (g_free (w_game (sv_world s))) of
        ((reply, _), tr, r, fl, ns) \<Rightarrow>
          after_trade e (trade_text (show_name (shown r (read_id payload))) 0 0 reply) reply tr (\<lambda>g. g\<lparr>g_reg := r, g_free := fl\<rparr>) ns s)"

definition handleTradeOffer :: handler where
  "handleTradeOffer conn e payload s =
     (if length payload \<noteq> 12 then bad_length e ''TRADE OFFER'' 12 s
      else let itemID = read_id payload; qty = the (ReadInt32 (take 4 (drop 8 payload)))
        in (case OfferItemToTrade e itemID qty (sv_trades s) (reg_of s) of
          ((reply, _), tr, ns) \<Rightarrow> after_trade e (trade_text [] itemID qty reply) reply tr (\<lambda>g. g) ns s))"

definition handleTradeConfirm :: handler where
  "handleTradeConfirm conn e payload s = (case LockTradeStage e (sv_trades s) (reg_of s) of
     ((reply, _), tr, r, ns) \<Rightarrow> after_trade e (trade_text [] 0 0 reply) reply tr (\<lambda>g. g\<lparr>g_reg := r\<rparr>) ns s)"

definition handleTradeCancel :: handler where
  "handleTradeCancel conn e payload s = (case CancelTradeSession e (sv_trades s) of
     ((reply, _), tr, ns) \<Rightarrow> after_trade e (trade_text [] 0 0 reply) reply tr (\<lambda>g. g) ns s)"

definition handleSkillCast :: handler where
  "handleSkillCast conn e payload s =
     (if length payload \<noteq> 16 then bad_length e ''SKILL CAST'' 16 s
      else map_option (\<lambda>((txt, _), g). notice e txt (s\<lparr>sv_world := set_game g (sv_world s)\<rparr>))
        (HandleSkillCastingSystem e (read_id payload) (read_id (drop 8 payload)) (game_view (sv_world s))))"

definition handleChat :: handler where
  "handleChat conn e payload s = Some (with_game (RouteChatMessage e payload) s)"

definition handleHeartbeat :: handler where
  "handleHeartbeat conn e payload s = Some (write_conn conn [0, 1, OpcodeHeartbeat] s)"

subsection \<open>The registry of handlers\<close>

definition packetHandlers :: "(entity \<Rightarrow> World \<Rightarrow> entity list) \<Rightarrow> (item_bag \<Rightarrow> u64 list) \<Rightarrow> u8 \<rightharpoonup> handler" where
  "packetHandlers nbs keys =
     [1 \<mapsto> handleMove nbs, 2 \<mapsto> handleInventory keys, 3 \<mapsto> handleUseItem, 4 \<mapsto> handleWarp, 5 \<mapsto> handleAttack, 6 \<mapsto> handleInfo,
      7 \<mapsto> handleQuit, 8 \<mapsto> handlePickup, 9 \<mapsto> handleEquip, 12 \<mapsto> handlePartyCreate, 13 \<mapsto> handlePartyInvite,
      14 \<mapsto> handlePartyJoin, 15 \<mapsto> handleTradeInit, 16 \<mapsto> handleTradeOffer, 17 \<mapsto> handleTradeConfirm,
      18 \<mapsto> handleTradeCancel, 19 \<mapsto> handleSkillCast, 20 \<mapsto> handleChat, 21 \<mapsto> handleHeartbeat]"

definition unknown_opcode :: "entity \<Rightarrow> u8 \<Rightarrow> Server \<Rightarrow> Server" where
  "unknown_opcode e opcode s = notice e (''Error: Unknown opcode '' @ dec_nat (unat opcode) @ crlf) s"

text \<open>\<open>HandleBinaryPacket\<close> over a server that may be stuck.\<close>

definition handle_packet ::
  "(entity \<Rightarrow> World \<Rightarrow> entity list) \<Rightarrow> (item_bag \<Rightarrow> u64 list) \<Rightarrow> string \<Rightarrow> entity \<Rightarrow> u8 \<Rightarrow> byte_seq \<Rightarrow> Server \<Rightarrow> Server option" where
  "handle_packet nbs keys conn e opcode payload s =
     HandleBinaryPacket (\<lambda>op. map_option (\<lambda>h p s. Option.bind s (h conn e p)) (packetHandlers nbs keys op))
       (\<lambda>op. map_option (unknown_opcode e op)) opcode payload (Some s)"

subsection \<open>The life of a connection\<close>

text \<open>\<open>now\<close> is the tick of the heartbeat when the packet is read; the rate limiter takes it.\<close>

definition client_start :: "string \<Rightarrow> entity \<Rightarrow> EntitySnapshot \<Rightarrow> Server \<Rightarrow> Server" where
  "client_start conn e sn s =
     (let s1 = s\<lparr>sv_limits := RegisterConnection (of_int (RateLimitMaxTokens (g_config (w_game (sv_world s))))) conn (sv_limits s)\<rparr>;
          pos = (case snap_Pos sn of None \<Rightarrow> blank_pos | Some p \<Rightarrow> p)
      in if is_bot (meta_Name (snap_Meta sn)) then s1
         else notice e (''Welcome to the Realm, '' @ meta_Name (snap_Meta sn) @ ''!'' @ crlf @ ''Your Spawn Position is X: ''
           @ dec_int (PosX pos) @ '', Z: '' @ dec_int (PosZ pos) @ crlf) s1)"

definition client_packet ::
  "(entity \<Rightarrow> World \<Rightarrow> entity list) \<Rightarrow> (item_bag \<Rightarrow> u64 list) \<Rightarrow> u64 \<Rightarrow> string \<Rightarrow> entity \<Rightarrow> byte_seq \<Rightarrow> Server \<Rightarrow> Server option" where
  "client_packet nbs keys now conn e packet s =
     (case Allow (of_int (RateLimitRefillPerTick (g_config (w_game (sv_world s))))) conn now (sv_limits s) of
        (ok, rl) \<Rightarrow>
          let s1 = s\<lparr>sv_limits := rl\<rparr>
          in if \<not> ok then Some s1 else handle_packet nbs keys conn e (hd packet) (tl packet) s1)"

text \<open>
  The loop, over the bytes that still arrive; \<open>clock n\<close> is the tick at which the \<open>n\<close>-th packet from now on is read. Reading
  from a connection the server has closed fails.
\<close>

function client_run ::
  "(entity \<Rightarrow> World \<Rightarrow> entity list) \<Rightarrow> (item_bag \<Rightarrow> u64 list) \<Rightarrow> (nat \<Rightarrow> u64) \<Rightarrow> string \<Rightarrow> entity \<Rightarrow> byte_seq \<Rightarrow> Server \<Rightarrow> Server option" where
  "client_run nbs keys clock conn e input s =
     (if conn \<in> set (sv_closed s) then Some s
      else case ReadHeader input of
        Inl _ \<Rightarrow> Some s
      | Inr (n, rest) \<Rightarrow>
          if n = 0 then client_run nbs keys clock conn e rest s
          else (case ReadPayload rest n of
            Inl _ \<Rightarrow> Some s
          | Inr (packet, rest') \<Rightarrow> (case client_packet nbs keys (clock 0) conn e packet s of
              None \<Rightarrow> None
            | Some s' \<Rightarrow> client_run nbs keys (\<lambda>n. clock (Suc n)) conn e rest' s')))"
  by pat_completeness auto
termination
  by (relation "measure (\<lambda>(_, _, _, _, _, input, _). length input)") (auto simp: ReadHeader_def ReadPayload_def split: if_splits)

declare client_run.simps [simp del]

text \<open>
  The deferred cleanup. A trade session that is missing is a panic. The cleanup waits in one place, for the queue of
  the writer: \<open>wr\<close> is the writer behind the component's pointer at that time, and a \<open>Close\<close> that never
  returns leaves the player where the steps before it have brought it.
\<close>

datatype cleanup = Panicked | Blocked Server | Cleaned Server

definition leave_grid :: "entity \<Rightarrow> World \<Rightarrow> World" where
  "leave_grid e w = on_game (\<lambda>g. g\<lparr>g_grid := grid_RemoveEntity e (g_grid g)\<rparr>) (UnregisterPlayerAOI e w)"

definition leave_registry :: "entity \<Rightarrow> World \<Rightarrow> World" where
  "leave_registry e w = on_game (\<lambda>g. case RemoveEntity e (g_reg g) (g_free g) of (r, fl) \<Rightarrow> g\<lparr>g_reg := r, g_free := fl\<rparr>) w"

definition cleanup_front :: "string \<Rightarrow> entity \<Rightarrow> Server \<Rightarrow> Server option" where
  "cleanup_front conn e s0 =
     (let s = s0\<lparr>sv_limits := UnregisterConnection conn (sv_limits s0)\<rparr>
      in case CancelTradeSession e (sv_trades s) of
        ((reply, _), tr, tns) \<Rightarrow>
          if reply = TradePanic then None
          else
            let s1 = with_game (tell_trade tns) (s\<lparr>sv_trades := tr\<rparr>)
            in (case RemovePlayerFromParty e (reg_of s1) of
              (r, pns) \<Rightarrow>
                let s2 = with_game (\<lambda>g. tell_party pns (g\<lparr>g_reg := r\<rparr>)) s1;
                    s3 = s2\<lparr>sv_saves := QueuePlayerSave e (reg_of s2) (sv_saves s2)\<rparr>
                in Some (s3\<lparr>sv_world := leave_grid e (sv_world s3)\<rparr>)))"

definition close_writer :: "Writer \<Rightarrow> string \<Rightarrow> entity \<Rightarrow> Server \<Rightarrow> cleanup" where
  "close_writer wr conn e s =
     (if \<not> has_writer (reg_of s) e then Cleaned s
      else let s1 = (if w_closed wr then s else close_conn conn s)
           in case Close wr of None \<Rightarrow> Blocked s1 | Some _ \<Rightarrow> Cleaned s1)"

definition cleanup_back :: "string \<Rightarrow> entity \<Rightarrow> string \<Rightarrow> bool \<Rightarrow> Server \<Rightarrow> Server" where
  "cleanup_back conn e name isBot s =
     (let s1 = s\<lparr>sv_world := leave_registry e (sv_world s), sv_active := (sv_active s)(conn := None)\<rparr>;
          s2 = (if isBot then s1
                else with_game (BroadcastSystem (bytes_of (''Player '' @ name @ '' has logged out the game!'' @ crlf))) s1)
      in close_conn conn s2)"

definition client_end :: "Writer \<Rightarrow> string \<Rightarrow> entity \<Rightarrow> EntitySnapshot \<Rightarrow> Server \<Rightarrow> cleanup" where
  "client_end wr conn e sn s =
     (let name = (case GetMetadata (reg_of s) e of Some m \<Rightarrow> meta_Name m | None \<Rightarrow> meta_Name (snap_Meta sn))
      in case cleanup_front conn e s of
        None \<Rightarrow> Panicked
      | Some s1 \<Rightarrow> (case close_writer wr conn e s1 of
            Cleaned s2 \<Rightarrow> Cleaned (cleanup_back conn e name (is_bot (meta_Name (snap_Meta sn))) s2)
          | stopped \<Rightarrow> stopped))"

text \<open>The whole connection; \<open>None\<close> is a handler that never returns.\<close>

definition HandleClient ::
  "(entity \<Rightarrow> World \<Rightarrow> entity list) \<Rightarrow> (item_bag \<Rightarrow> u64 list) \<Rightarrow> (nat \<Rightarrow> u64) \<Rightarrow> Writer \<Rightarrow> string \<Rightarrow> EntitySnapshot \<Rightarrow> byte_seq \<Rightarrow> Server \<Rightarrow>
    cleanup option" where
  "HandleClient nbs keys clock wr conn sn input s =
     map_option (client_end wr conn (snap_ID sn) sn) (client_run nbs keys clock conn (snap_ID sn) input (client_start conn (snap_ID sn) sn s))"

end
