(* ===== verification/Sessions.thy ===== *)
theory Sessions
  imports Handlers
begin

text \<open>
  The life of a connection as a whole: what is left of a player after the disconnect, and the packets of a session as the
  frames the client sent.
\<close>

subsection \<open>Senders\<close>

lemma tells_only_send: "only_sends g (tell_party pns g)" "only_sends g (tell_trade tns g)"
  unfolding tell_party_def tell_trade_def by (rule only_sends_fold; auto intro: send_intros split: prod.split)+

lemma BroadcastSystem_only_sends: "only_sends g (BroadcastSystem data g)"
proof -
  have "only_sends h (range_loop (\<lambda>e c g. (True, if conn_writer c = None then g else g\<lparr>g_out := g_out g @ [(e, BuildNotice data)]\<rparr>)) es h)" for es h
  proof (induction es arbitrary: h)
    case (Cons x xs)
    then show ?case by (cases x) (auto intro: only_sends_trans [OF only_sends_append])
  qed (simp add: only_sends_refl)
  then show ?thesis by (simp add: BroadcastSystem_def RangeConnections_def store_range_def)
qed

lemmas told [simp] = tells_only_send(1) [THEN only_sendsD(1)] tells_only_send(1) [THEN only_sendsD(2)] tells_only_send(1) [THEN only_sendsD(3)]
  tells_only_send(2) [THEN only_sendsD(1)] tells_only_send(2) [THEN only_sendsD(2)] tells_only_send(2) [THEN only_sendsD(3)]
  BroadcastSystem_only_sends [THEN only_sendsD(1)] BroadcastSystem_only_sends [THEN only_sendsD(2)] BroadcastSystem_only_sends [THEN only_sendsD(3)]

lemma with_game_world [simp]:
  assumes "w_default (sv_world s) = None"
  shows "w_game (sv_world (with_game f s)) = f (w_game (sv_world s))" and "w_default (sv_world (with_game f s)) = None"
    and "reg_of s = g_reg (w_game (sv_world s))"
  using assms by (simp_all add: with_game_def on_game_def reg_of_def)

lemma with_game_rest [simp]:
  "sv_trades (with_game f s) = sv_trades s" "sv_invites (with_game f s) = sv_invites s" "sv_saves (with_game f s) = sv_saves s"
  "sv_active (with_game f s) = sv_active s" "sv_limits (with_game f s) = sv_limits s" "sv_direct (with_game f s) = sv_direct s"
  "sv_closed (with_game f s) = sv_closed s"
  by (simp_all add: with_game_def)

subsection \<open>The disconnect\<close>

lemma delete_party_others [simp]:
  "GetPosition (DeleteParty p r) = GetPosition r" "GetPosition (DeletePartyMember p r) = GetPosition r"
    "GetConnection (DeleteParty p r) = GetConnection r" "GetConnection (DeletePartyMember p r) = GetConnection r"
    "GetMetadata (DeleteParty p r) = GetMetadata r" "GetMetadata (DeletePartyMember p r) = GetMetadata r"
    "GetStats (DeleteParty p r) = GetStats r" "GetStats (DeletePartyMember p r) = GetStats r"
    "GetAI (DeleteParty p r) = GetAI r" "GetAI (DeletePartyMember p r) = GetAI r"
    "GetInventory (DeleteParty p r) = GetInventory r" "GetInventory (DeletePartyMember p r) = GetInventory r"
    "GetEquipment (DeleteParty p r) = GetEquipment r" "GetEquipment (DeletePartyMember p r) = GetEquipment r"
    "GetEffects (DeleteParty p r) = GetEffects r" "GetEffects (DeletePartyMember p r) = GetEffects r"
   by (simp_all add: fun_eq_iff DeleteParty_def DeletePartyMember_def GetPosition_def GetConnection_def GetMetadata_def GetStats_def GetAI_def GetInventory_def GetEquipment_def GetEffects_def)

lemma leave_party_others:
  assumes "RemovePlayerFromParty p r = (r', ns)"
  shows "GetPosition r' = GetPosition r" and "GetConnection r' = GetConnection r" and "GetMetadata r' = GetMetadata r"
    and "GetStats r' = GetStats r" and "GetAI r' = GetAI r" and "GetInventory r' = GetInventory r" and "GetEquipment r' = GetEquipment r"
    and "GetEffects r' = GetEffects r"
  using assms by (auto simp: RemovePlayerFromParty_def Let_def split: option.splits if_splits)

lemma capture_cong:
  "GetMetadata r' = GetMetadata r \<Longrightarrow> GetPosition r' = GetPosition r \<Longrightarrow> GetStats r' = GetStats r \<Longrightarrow> GetInventory r' = GetInventory r \<Longrightarrow>
   GetEquipment r' = GetEquipment r \<Longrightarrow> QueuePlayerSave e r' se = QueuePlayerSave e r se"
  by (simp add: QueuePlayerSave_def capture_def cong: option.case_cong if_cong)

lemma unregister_default [simp]:
  "w_default (UnregisterPlayerAOI e w) = w_default w" "w_game (UnregisterPlayerAOI e w) = w_game w"
  by (simp_all add: UnregisterPlayerAOI_def split: option.split)

lemma leave_grid_effect:
  assumes "w_default w = None"
  shows "w_default (leave_grid e w) = None"
    and "w_game (leave_grid e w) = (w_game w)\<lparr>g_grid := grid_RemoveEntity e (g_grid (w_game w))\<rparr>"
  using assms by (simp_all add: leave_grid_def on_game_def)


lemma cancelled_unbound:
  assumes "trade_inv tr" and "half_open tr" and "CancelTradeSession p tr = ((reply, b), tr', ns)"
  shows "bindings tr' p = None" and "trade_inv tr'" and "half_open tr'" and "reply \<noteq> TradePanic"
proof -
  from cancel_ok [OF assms(1,2)] assms(3) show "trade_inv tr'" "half_open tr'" "reply \<noteq> TradePanic" by (simp_all add: CancelTradeSession_def)
  show "bindings tr' p = None"
  proof (cases "bindings tr p")
    case None
    with assms(3) show ?thesis by (auto simp: CancelTradeSession_def cancelTradeSessionLocked_def)
  next
    case (Some sid)
    from trade_inv_binding [OF assms(1) Some] obtain s
      where s: "sessions tr sid = Some s" "p = to_PlayerID (OfferA s) \<or> p = to_PlayerID (OfferB s)" by blast
    with cancel_ends [OF assms(1) Some s(1)] assms(3) show ?thesis by (auto simp: CancelTradeSession_def end_session_def)
  qed
qed

text \<open>What the steps before the writer's \<open>Close\<close> do.\<close>

lemma front_effect:
  assumes w: "w_default (sv_world s) = None" and trades: "trade_inv (sv_trades s)" "half_open (sv_trades s)"
    and leave: "RemovePlayerFromParty e (g_reg (w_game (sv_world s))) = (r1, pns)"
  shows "\<exists>s1. cleanup_front conn e s = Some s1 \<and> w_default (sv_world s1) = None \<and> g_reg (w_game (sv_world s1)) = r1 \<and>
    g_free (w_game (sv_world s1)) = g_free (w_game (sv_world s)) \<and>
    g_grid (w_game (sv_world s1)) = grid_RemoveEntity e (g_grid (w_game (sv_world s))) \<and>
    bindings (sv_trades s1) e = None \<and> trade_inv (sv_trades s1) \<and>
    sv_saves s1 = QueuePlayerSave e (g_reg (w_game (sv_world s))) (sv_saves s) \<and> sv_active s1 = sv_active s \<and> sv_limits s1 conn = None"
proof -
  obtain reply b tr tns where cancel: "CancelTradeSession e (sv_trades s) = ((reply, b), tr, tns)" by (metis surj_pair)
  note T = cancelled_unbound [OF trades cancel]
  let ?g = "w_game (sv_world s)"
  have save: "QueuePlayerSave e r1 se = QueuePlayerSave e (g_reg ?g) se" for se
    by (rule capture_cong) (rule leave_party_others [OF leave])+
  define sA where "sA = with_game (tell_trade tns) (s\<lparr>sv_limits := UnregisterConnection conn (sv_limits s), sv_trades := tr\<rparr>)"
  define sB where "sB = with_game (\<lambda>g. tell_party pns (g\<lparr>g_reg := r1\<rparr>)) sA"
  define sC where "sC = sB\<lparr>sv_saves := QueuePlayerSave e (g_reg ?g) (sv_saves s)\<rparr>"
  define sD where "sD = sC\<lparr>sv_world := leave_grid e (sv_world sC)\<rparr>"
  have A: "w_default (sv_world sA) = None" "g_reg (w_game (sv_world sA)) = g_reg ?g" "g_free (w_game (sv_world sA)) = g_free ?g"
    "g_grid (w_game (sv_world sA)) = g_grid ?g" using w by (simp_all add: sA_def)
  have B: "w_default (sv_world sB) = None" "g_reg (w_game (sv_world sB)) = r1" "g_free (w_game (sv_world sB)) = g_free ?g"
    "g_grid (w_game (sv_world sB)) = g_grid ?g" "sv_saves sB = sv_saves s" using A by (simp_all add: sB_def) (simp add: sA_def)
  have D: "w_default (sv_world sD) = None" "g_reg (w_game (sv_world sD)) = r1" "g_free (w_game (sv_world sD)) = g_free ?g"
    "g_grid (w_game (sv_world sD)) = grid_RemoveEntity e (g_grid ?g)" "sv_trades sD = tr"
    "sv_saves sD = QueuePlayerSave e (g_reg ?g) (sv_saves s)" "sv_active sD = sv_active s" "sv_limits sD conn = None"
    using B by (simp_all add: sD_def sC_def leave_grid_effect) (simp_all add: sB_def sA_def UnregisterConnection_def)
  have "cleanup_front conn e s = Some sD"
    using A B T(4) w by (simp add: cleanup_front_def Let_def cancel leave save sD_def sC_def flip: sA_def sB_def)
  with D T show ?thesis by blast
qed






text \<open>
  With the writer of a client whose socket broke while frames were still sent to it, the cleanup never returns: the hero stays
  in the registry, and its identifier is not reused.
\<close>

lemma ghost_player:
  assumes "w_default (sv_world s) = None" and "GetConnection (g_reg (w_game (sv_world s))) e = Some player_connection"
    and "party_ok (g_reg (w_game (sv_world s))) (g_free (w_game (sv_world s))) L I"
    and "trade_inv (sv_trades s)" "half_open (sv_trades s)"
  shows "\<exists>s'. client_end broken_writer conn e sn s = Blocked s' \<and> GetStats (g_reg (w_game (sv_world s'))) e = GetStats (g_reg (w_game (sv_world s))) e \<and>
    g_free (w_game (sv_world s')) = g_free (w_game (sv_world s))"
proof -
  obtain r1 pns where leave: "RemovePlayerFromParty e (g_reg (w_game (sv_world s))) = (r1, pns)" by force
  note O = leave_party_others [OF leave]
  obtain s1 where F: "cleanup_front conn e s = Some s1" "w_default (sv_world s1) = None" "g_reg (w_game (sv_world s1)) = r1"
    "g_free (w_game (sv_world s1)) = g_free (w_game (sv_world s))"
    using front_effect [OF assms(1,4,5) leave] by blast
  have "has_writer (reg_of s1) e" using F(2,3) O(2) assms(2) by (simp add: has_writer_def player_connection_def)
  moreover have "Close broken_writer = None" "\<not> w_closed broken_writer"
    using Close_blocks [of broken_writer] by (simp_all add: broken_writer_def stuck_def NewWriter_def NewFrom_def pool_writer_def)
  ultimately have "client_end broken_writer conn e sn s = Blocked (close_conn conn s1)"
    by (simp add: client_end_def F(1) close_writer_def)
  then show ?thesis using F O by (simp add: close_conn_def)
qed

subsection \<open>The packets of a session\<close>

text \<open>The specification of a session: the packets handled one by one until the server closes the connection or gets stuck.\<close>

fun run_packets ::
  "(entity \<Rightarrow> World \<Rightarrow> entity list) \<Rightarrow> (item_bag \<Rightarrow> u64 list) \<Rightarrow> (nat \<Rightarrow> u64) \<Rightarrow> string \<Rightarrow> entity \<Rightarrow> (u8 \<times> byte_seq) list \<Rightarrow> Server \<Rightarrow> Server option" where
  "run_packets nbs keys clock conn e [] s = Some s"
| "run_packets nbs keys clock conn e ((op, payload) # ps) s =
     (if conn \<in> set (sv_closed s) then Some s
      else case client_packet nbs keys (clock 0) conn e (op # payload) s of
        None \<Rightarrow> None | Some s' \<Rightarrow> run_packets nbs keys (\<lambda>n. clock (Suc n)) conn e ps s')"

lemma client_run_end: "client_run nbs keys clock conn e [] s = Some s"
  by (subst client_run.simps) (simp add: ReadHeader_def)

lemma client_run_frame:
  assumes "length payload < 4096"
  shows "client_run nbs keys clock conn e (frame_spec op payload @ rest) s =
    (if conn \<in> set (sv_closed s) then Some s
     else case client_packet nbs keys (clock 0) conn e (op # payload) s of
        None \<Rightarrow> None | Some s' \<Rightarrow> client_run nbs keys (\<lambda>n. clock (Suc n)) conn e rest s')"
proof -
  from Read_frame [OF assms] obtain n where "n \<noteq> 0" "ReadHeader (frame_spec op payload @ rest) = Inr (n, op # payload @ rest)"
    "ReadPayload (op # payload @ rest) n = Inr (op # payload, rest)" by blast
  then show ?thesis by (subst client_run.simps) simp
qed

text \<open>
  C5: The loop of a client whose bytes are frames handles exactly the packets that were framed, each with its own payload and in
  order, up to the first that closes the connection: the bytes of a dropped packet are consumed, and a reply never
  disturbs the reading.
\<close>

theorem session_refines:
  assumes "\<forall>(dst, op, payload) \<in> set packets. length payload < 4096"
  shows "client_run nbs keys clock conn e (concat (map (\<lambda>(dst, op, payload). FrameInto dst op payload) packets)) s =
    run_packets nbs keys clock conn e (map snd packets) s"
  using assms
proof (induction packets arbitrary: s clock)
  case (Cons p packets)
  obtain dst op payload where p: "p = (dst, op, payload)" by (cases p)
  from Cons show ?case by (auto simp: p Frame_spec client_run_frame split: option.split)
qed (simp add: client_run_end)

theorem session_refines_witness:
  "\<forall>nbs keys clock se. client_run nbs keys clock ''host'' hero (FrameInto [] 7 [] @ FrameInto [] 21 []) (StartGameLoop arena se) =
     Some (close_conn ''host'' (StartGameLoop arena se))"
proof (intro allI)
  fix nbs keys clock se
  show "client_run nbs keys clock ''host'' hero (FrameInto [] 7 [] @ FrameInto [] 21 []) (StartGameLoop arena se) =
     Some (close_conn ''host'' (StartGameLoop arena se))"
    using session_refines [of "[([], 7, []), ([], 21, [])]" nbs keys clock "''host''" hero "StartGameLoop arena se"]
    by (simp add: client_packet_def Allow_def StartGameLoop_def handle_packet_def HandleBinaryPacket_def DispatchPacket_def
        packetHandlers_def split_trace_def handleQuit_def close_conn_def)
qed

end
