(* ===== verification/Transitions.thy ===== *)
theory Transitions
  imports Prelude
begin

text \<open>
  Runs of a step relation and what they keep. The state machines of the development are step relations of their own; a component
  interprets the contract below for its relation and its invariant, and has the invariant in every reachable state.
\<close>

locale kept =
  fixes step :: "'s \<Rightarrow> 's \<Rightarrow> bool" and run :: "'s \<Rightarrow> 's \<Rightarrow> bool" and inv :: "'s \<Rightarrow> bool"
  assumes run_steps: "run s t \<Longrightarrow> step\<^sup>*\<^sup>* s t"
    and keeps: "step s t \<Longrightarrow> inv s \<Longrightarrow> inv t"
begin

lemma reach: "run s t \<Longrightarrow> inv s \<Longrightarrow> inv t"
proof -
  have "step\<^sup>*\<^sup>* s t \<Longrightarrow> inv s \<Longrightarrow> inv t"
    by (induction rule: rtranclp_induct) (auto intro: keeps)
  then show "run s t \<Longrightarrow> inv s \<Longrightarrow> inv t" using run_steps by blast
qed

end

end
