(* ===== verification/Server_Run.thy ===== *)
theory Server_Run
  imports Sessions Transitions
begin

text \<open>
  The whole server as a transition system (\<open>server/server.go\<close>): logins, packets and disconnects of the clients, the
  heartbeat, the rounds of the map workers, the transfer orchestrator and the saves, in any order. The state is the
  \<open>Server\<close> with the database. What the steps of the components rely on from outside (SQL, bcrypt, the order of a map
  iteration, the growth of a slice) are arguments of the relation.
\<close>

subsection \<open>Steps\<close>

record 'db env =
  en_sql :: "'db sql"
  en_hash :: "byte_seq \<Rightarrow> string option"
  en_check :: "byte_seq \<Rightarrow> string \<Rightarrow> bool"
  en_nbs :: "entity \<Rightarrow> World \<Rightarrow> entity list"
  en_keys :: "item_bag \<Rightarrow> u64 list"

inductive server_step :: "'db env \<Rightarrow> Server \<times> 'db \<Rightarrow> Server \<times> 'db \<Rightarrow> bool" for en where
  login: "processLogin (en_sql en) (en_hash en) (en_check en) addr input (s, db) = (res, s', db') \<Longrightarrow> server_step en (s, db) (s', db')"
| start: "server_step en (s, db) (client_start conn e sn s, db)"
| packet: "client_packet (en_nbs en) (en_keys en) now conn e p s = Some s' \<Longrightarrow> server_step en (s, db) (s', db)"
| leave: "client_end wr conn e sn s = Cleaned s' \<or> client_end wr conn e sn s = Blocked s' \<Longrightarrow> server_step en (s, db) (s', db)"
| beat: "tickWorld t s = Some s' \<Longrightarrow> server_step en (s, db) (s', db)"
| worker: "worker_round grow order m (sv_world s) = Some w \<Longrightarrow> server_step en (s, db) (s\<lparr>sv_world := w\<rparr>, db)"
| transfer: "server_step en (s, db) (s\<lparr>sv_world := orchestrate (sv_world s)\<rparr>, db)"
| periodic: "server_step en (s, db) (s\<lparr>sv_saves := periodic_saves (reg_of s) (sv_saves s)\<rparr>, db)"
| db_write: "SaveQueue (sv_saves s) = snap # rest \<Longrightarrow>
    executeWriteToSQL clock sleep (sq_tx (en_sql en)) (sq_hasDB (en_sql en)) o1 o2 snap (cb, db) = (cb', db') \<Longrightarrow>
    server_step en (s, db) (s\<lparr>sv_saves := (sv_saves s)\<lparr>SaveQueue := rest\<rparr>\<rparr>, db')"
| shut: "server_step en (s, db) (s\<lparr>sv_saves := FlushSaveQueue (sv_saves s)\<rparr>, db)"

inductive server_steps :: "'db env \<Rightarrow> Server \<times> 'db \<Rightarrow> Server \<times> 'db \<Rightarrow> bool" for en where
  none: "server_steps en x x"
| more: "server_steps en x y \<Longrightarrow> server_step en y z \<Longrightarrow> server_steps en x z"

subsection \<open>The maps sleep\<close>

definition asleep :: "World \<Rightarrow> bool" where
  "asleep w \<longleftrightarrow> w_default w = None \<and> (\<forall>m mw. w_workers w m = Some mw \<longrightarrow> mw_Registry mw = NewRegistry \<and> mw_tickChan mw = [])"

lemma asleep_default: "asleep w \<Longrightarrow> w_default w = None"
  by (simp add: asleep_def)

lemma asleep_game [simp]: "asleep w \<Longrightarrow> asleep (set_game g w)" "asleep w \<Longrightarrow> asleep (on_game f w)"
  by (auto simp: asleep_def on_game_def)

lemma asleep_put [simp]:
  "asleep w \<Longrightarrow> mw_Registry mw = NewRegistry \<Longrightarrow> mw_tickChan mw = [] \<Longrightarrow> asleep (put_worker m mw w)"
  by (auto simp: asleep_def)

lemma asleep_worker: "asleep w \<Longrightarrow> GetWorker w m = Some mw \<Longrightarrow> mw_Registry mw = NewRegistry \<and> mw_tickChan mw = []"
  by (simp add: asleep_def GetWorker_def)

lemma asleep_aoi [simp]:
  assumes "asleep w"
  shows "asleep (RegisterPlayerAOI e w)" and "asleep (UnregisterPlayerAOI e w)" and "asleep (ProcessAOIEvents order e pos w)"
  using assms asleep_worker [OF assms]
  by (auto simp: RegisterPlayerAOI_def UnregisterPlayerAOI_def ProcessAOIEvents_def worker_RegisterPlayerAOI_def
      worker_ProcessAOIEvents_def split: option.split prod.split)

lemma asleep_map [simp]: "asleep w \<Longrightarrow> asleep (broadcastToMap m data w)"
  by (auto simp: broadcastToMap_def asleep_def split: option.split)

lemma asleep_transfer: "asleep w \<Longrightarrow> TransferEntity e a b w = Some w' \<Longrightarrow> asleep w'"
  by (auto simp: TransferEntity_def asleep_def split: if_splits)

lemma asleep_warp: "asleep w \<Longrightarrow> HandleWarpSystem e payload w = Some (r, w') \<Longrightarrow> asleep w'"
  by (auto simp: HandleWarpSystem_def ExecuteMapTransfer_def Let_def simp del: asleep_map asleep_game
      intro!: asleep_map asleep_game intro: asleep_transfer [rotated] split: if_splits option.splits)

lemma NewRegistry_nobody: "entries (metadata NewRegistry) = []" "entries (ai NewRegistry) = []"
  by (simp_all add: NewRegistry_def entries_def empty_store_def)

lemma transfer_nobody:
  assumes "\<And>fw. GetWorker w (tr_FromMap req) = Some fw \<Longrightarrow> GetPosition (mw_Registry fw) (tr_EntityID req) = None"
  shows "processTransfer2PC req w = w"
  using assms by (cases "GetWorker w (tr_FromMap req)"; cases "GetWorker w (tr_ToMap req)")
    (simp_all add: processTransfer2PC_def serializeEntity_def)

lemma asleep_orchestrate: "asleep w \<Longrightarrow> orchestrate w = w\<lparr>w_transferChan := tl (w_transferChan w)\<rparr>"
  using asleep_worker [of w] by (cases "w_transferChan w") (auto simp: orchestrate_def GetWorker_def intro!: transfer_nobody)

lemma asleep_round: "asleep w \<Longrightarrow> worker_round grow order m w = Some w"
  by (auto simp: worker_round_def asleep_worker split: option.split)

lemma asleep_beat:
  assumes "asleep (sv_world s)" and "tickWorld t s = Some s'"
  shows "asleep (sv_world s')"
proof -
  have "\<not> has_players (mw_Registry mw)" if "GetWorker (on_game f (sv_world s)) 1 = Some mw" for mw f
    using asleep_worker [OF asleep_game(2) [OF assms(1)] that] by (simp add: has_players_def NewRegistry_nobody)
  with assms show ?thesis by (auto simp: tickWorld_def Let_def split: option.splits)
qed

subsection \<open>No handler wakes a map\<close>

lemma asleep_with_game [simp]: "asleep (sv_world s) \<Longrightarrow> asleep (sv_world (with_game f s))" "asleep (sv_world s) \<Longrightarrow> asleep (sv_world (notice e txt s))"
  by (simp_all add: with_game_def notice_def)

lemma conn_world [simp]: "sv_world (write_conn conn frame s) = sv_world s" "sv_world (close_conn conn s) = sv_world s"
  by (simp_all add: write_conn_def close_conn_def)

lemmas handler_defs = handleMove_def handleInventory_def handleUseItem_def handleWarp_def handleInfo_def handleQuit_def
  handlePickup_def handleEquip_def handlePartyCreate_def handlePartyInvite_def handlePartyJoin_def handleTradeInit_def
  handleTradeOffer_def handleTradeConfirm_def handleTradeCancel_def handleSkillCast_def handleChat_def handleHeartbeat_def

lemma asleep_move: "asleep w \<Longrightarrow> HandlePlayerMovementSystem nbs e payload w = (r, w') \<Longrightarrow> asleep w'"
  by (auto simp: HandlePlayerMovementSystem_def Let_def split: option.splits prod.splits if_splits)

lemma asleep_attack: "asleep (sv_world s) \<Longrightarrow> handleAttack conn e payload s = Some s' \<Longrightarrow> asleep (sv_world s')"
  by (auto simp: handleAttack_def Let_def split: option.splits) (auto split: sum.splits)

lemma asleep_handler:
  assumes "asleep (sv_world s)" and "packetHandlers nbs keys op = Some h" and "h conn e payload s = Some s'"
  shows "asleep (sv_world s')"
proof -
  have "h \<in> {handleMove nbs, handleInventory keys, handleUseItem, handleWarp, handleAttack, handleInfo, handleQuit, handlePickup, handleEquip,
      handlePartyCreate, handlePartyInvite, handlePartyJoin, handleTradeInit, handleTradeOffer, handleTradeConfirm, handleTradeCancel,
      handleSkillCast, handleChat, handleHeartbeat}"
    using assms(2) by (auto simp: packetHandlers_def split: if_splits)
  then show ?thesis
    using assms(1,3) asleep_move [OF assms(1)] asleep_warp [OF assms(1)] asleep_attack [OF assms(1)]
    by (elim insertE emptyE) (auto simp: handler_defs bad_length_def after_trade_def Let_def split: if_splits option.splits prod.splits sum.splits)
qed

lemma asleep_packet:
  assumes "asleep (sv_world s)" and "client_packet nbs keys now conn e p s = Some s'"
  shows "asleep (sv_world s')"
proof -
  have run: "asleep (sv_world s')" if "asleep (sv_world s1)" "handle_packet nbs keys conn e op payload s1 = Some s'" for s1 op payload
    using that asleep_handler [of s1 nbs keys op _ conn e _ s']
    by (auto simp: handle_packet_def HandleBinaryPacket_def DispatchPacket_def unknown_opcode_def split: option.splits)
  obtain ok rl where "Allow (of_int (RateLimitRefillPerTick (g_config (w_game (sv_world s))))) conn now (sv_limits s) = (ok, rl)" by force
  then show ?thesis
    using assms run [of "s\<lparr>sv_limits := rl\<rparr>" "hd p" "tl p"] by (cases ok) (auto simp: client_packet_def)
qed

lemma asleep_start: "asleep (sv_world s) \<Longrightarrow> asleep (sv_world (client_start conn e sn s))"
  by (simp add: client_start_def Let_def)

lemma asleep_leave [simp]: "asleep w \<Longrightarrow> asleep (leave_grid e w)" "asleep w \<Longrightarrow> asleep (leave_registry e w)"
  by (simp_all add: leave_grid_def leave_registry_def)

lemma asleep_front: "asleep (sv_world s) \<Longrightarrow> cleanup_front conn e s = Some s' \<Longrightarrow> asleep (sv_world s')"
  by (auto simp: cleanup_front_def Let_def split: prod.splits if_splits)

lemma asleep_back: "asleep (sv_world s) \<Longrightarrow> asleep (sv_world (cleanup_back conn e name isBot s))"
  by (simp add: cleanup_back_def Let_def)

lemma asleep_close: "asleep (sv_world s) \<Longrightarrow> close_writer wr conn e s = Cleaned s' \<or> close_writer wr conn e s = Blocked s' \<Longrightarrow> asleep (sv_world s')"
  by (auto simp: close_writer_def Let_def split: if_splits option.splits)

lemma asleep_end:
  assumes "asleep (sv_world s)" and "client_end wr conn e sn s = Cleaned s' \<or> client_end wr conn e sn s = Blocked s'"
  shows "asleep (sv_world s')"
proof -
  obtain s1 where s1: "cleanup_front conn e s = Some s1" using assms(2) by (auto simp: client_end_def split: option.splits)
  with assms show ?thesis
    using asleep_front [OF assms(1) s1] asleep_close [of s1 wr conn e]
    by (auto simp: client_end_def asleep_back split: cleanup.splits)
qed

lemma asleep_admit: "asleep (sv_world s) \<Longrightarrow> admit sq addr name (s, db) = (res, s', db') \<Longrightarrow> asleep (sv_world s')"
  by (auto simp: admit_def refuse_def Let_def split: prod.splits sum.splits option.splits if_splits)

lemma asleep_login:
  "asleep (sv_world s) \<Longrightarrow> processLogin sq hp ck addr input (s, db) = (res, s', db') \<Longrightarrow> asleep (sv_world s')"
  by (auto simp: processLogin_def refuse_def Let_def dest: asleep_admit split: prod.splits sum.splits option.splits if_splits)

lemma asleep_step: "server_step en (s, db) (s', db') \<Longrightarrow> asleep (sv_world s) \<Longrightarrow> asleep (sv_world s')"
proof (induction "(s, db)" "(s', db')" arbitrary: s db s' db' rule: server_step.induct)
  case (transfer s db)
  then show ?case by (simp add: asleep_orchestrate) (simp add: asleep_def)
qed (auto simp: asleep_start asleep_round intro: asleep_login asleep_packet asleep_end asleep_beat)

lemma server_steps_star: "server_steps en x y \<Longrightarrow> (server_step en)\<^sup>*\<^sup>* x y"
  by (induction rule: server_steps.induct) auto

interpretation sleeping: kept "server_step en" "server_steps en" "\<lambda>x. asleep (sv_world (fst x))" for en
proof
  show "server_step en x y \<Longrightarrow> asleep (sv_world (fst x)) \<Longrightarrow> asleep (sv_world (fst y))" for x y
    using asleep_step [of en "fst x" "snd x" "fst y" "snd y"] by simp
qed (rule server_steps_star)

lemma asleep_boot: "asleep (sv_world (StartGameLoop g se))"
  by (simp add: StartGameLoop_def InitWorld_def StartMap_def NewMapWorker_def asleep_def)

text \<open>
  C18: Whatever the clients, the heartbeat, the orchestrator and the save worker do, the maps sleep: no worker ever has a
  tick to run or an entity in its registry, so the goroutine of a map does nothing, no transfer moves anything, and
  every system keeps working on the registry of the boot.
\<close>

theorem maps_sleep:
  assumes "server_steps en (StartGameLoop g se, db) (s, db')"
  shows "worker_round grow order m (sv_world s) = Some (sv_world s) \<and>
    orchestrate (sv_world s) = (sv_world s)\<lparr>w_transferChan := tl (w_transferChan (sv_world s))\<rparr> \<and>
    default_registry (sv_world s) = g_reg (w_game (sv_world s)) \<and>
    (case GetWorker (sv_world s) m of None \<Rightarrow> True | Some mw \<Rightarrow> registered (mw_Registry mw) = {} \<and> mw_tickChan mw = [])"
proof -
  have a: "asleep (sv_world s)" using sleeping.reach [OF assms] asleep_boot by simp
  then show ?thesis
    using asleep_worker [OF a, of m] by (auto simp: asleep_round asleep_orchestrate asleep_default split: option.split)
qed

text \<open>A client whose heartbeat is answered.\<close>

definition no_saves :: SaveEngine where "no_saves = \<lparr>SaveQueue = [], se_closed = False, GlobalSaveBuffer = NewSaveBuffer []\<rparr>"

definition ref_env :: "((string \<rightharpoonup> u64 \<times> string) \<times> ref_db) env" where
  "ref_env = \<lparr>en_sql = ref_sql, en_hash = (\<lambda>p. Some (string_of p)), en_check = (\<lambda>p h. string_of p = h), en_nbs = (\<lambda>_ _. []), en_keys = (\<lambda>_. [])\<rparr>"

lemma heartbeat_answered:
  "client_packet nbs keys now ''host'' hero [21] (StartGameLoop arena no_saves) =
     Some (write_conn ''host'' [0, 1, OpcodeHeartbeat] (StartGameLoop arena no_saves))"
  by (simp add: client_packet_def Allow_def StartGameLoop_def handle_packet_def HandleBinaryPacket_def DispatchPacket_def
      packetHandlers_def split_trace_def handleHeartbeat_def Let_def)

theorem maps_sleep_witness:
  "\<exists>s. server_steps ref_env (StartGameLoop arena no_saves, Map.empty, Map.empty, Map.empty) (s, Map.empty, Map.empty, Map.empty) \<and>
     sv_direct s = [(''host'', [0, 1, OpcodeHeartbeat])] \<and> worker_round (\<lambda>n. n) (\<lambda>_. []) 1 (sv_world s) = Some (sv_world s)"
proof -
  let ?s = "write_conn ''host'' [0, 1, OpcodeHeartbeat] (StartGameLoop arena no_saves)" and ?db = "(Map.empty, Map.empty, Map.empty)"
  have steps: "server_steps ref_env (StartGameLoop arena no_saves, ?db) (?s, ?db)"
    by (rule server_steps.more [OF server_steps.none]) (rule server_step.packet [OF heartbeat_answered])
  then show ?thesis
    using maps_sleep [OF steps, of "\<lambda>n. n" "\<lambda>_. []" 1] by (intro exI [of _ ?s]) (simp add: write_conn_def StartGameLoop_def)
qed

end
