(* ===== verification/World_Snapshot.thy ===== *)
theory World_Snapshot
  imports Persistence
begin

text \<open>
  \<open>server/world/world_snapshot.go\<close>: the snapshots of the world on disk and the recovery from them. The encoder (\<open>gob\<close>), the
  format of a time stamp and the clock are parameters. The directory is a list of files with their modification times, in the order
  of \<open>ReadDir\<close>: the names are time stamps, so a new file comes last. A file whose encoding failed has no content.
  Errors of the file system and log lines are left out; the goroutine that writes is a step of its own.
\<close>

subsection \<open>Snapshots\<close>

definition SnapshotVersion :: int where "SnapshotVersion = 1"

record SnapshotMeta =
  sm_Version :: int
  sm_Timestamp :: int
  sm_EntityCount :: nat
  sm_PlayerCount :: nat
  sm_MonsterCount :: nat
  sm_ServerUptime :: string
  sm_SnapshotType :: string

record EntitySnapshotData =
  es_ID :: entity
  es_Meta :: MetadataComponent
  es_Pos :: PositionComponent
  es_Stats :: StatsComponent
  es_Inventory :: "InventoryComponent option"
  es_Equipment :: "EquipmentComponent option"
  es_Effects :: "EffectsComponent option"
  es_AI :: "AIComponent option"
  es_Party :: "PartyComponent option"
  es_ItemTemp :: "ItemTemplateComponent option"
  es_HasPos :: bool
  es_HasStats :: bool

record WorldSnapshotData =
  ws_Meta :: SnapshotMeta
  ws_Entities :: "EntitySnapshotData list"

text \<open>What is captured of an entity; bots and entities without metadata are skipped.\<close>

definition capture_entity :: "Registry \<Rightarrow> entity \<Rightarrow> EntitySnapshotData option" where
  "capture_entity r e = (case GetMetadata r e of
     None \<Rightarrow> None
   | Some m \<Rightarrow>
       if meta_Type m = EntityPlayer \<and> is_bot (meta_Name m) then None
       else Some \<lparr>es_ID = e, es_Meta = m, es_Pos = (case GetPosition r e of None \<Rightarrow> blank_pos | Some p \<Rightarrow> p),
         es_Stats = (case GetStats r e of None \<Rightarrow> blank_stats | Some st \<Rightarrow> st),
         es_Inventory = map_option Inventory_Clone (GetInventory r e), es_Equipment = GetEquipment r e,
         es_Effects = map_option Effects_Clone (GetEffects r e), es_AI = GetAI r e, es_Party = map_option Party_Clone (GetParty r e),
         es_ItemTemp = GetItemTemplate r e, es_HasPos = (GetPosition r e \<noteq> None), es_HasStats = (GetStats r e \<noteq> None)\<rparr>)"

definition capture_all :: "Registry \<Rightarrow> EntitySnapshotData list" where
  "capture_all r = List.map_filter (capture_entity r) (GetAllEntities r)"

definition count_type :: "EntityType \<Rightarrow> EntitySnapshotData list \<Rightarrow> nat" where
  "count_type t es = length (filter (\<lambda>d. meta_Type (es_Meta d) = t) es)"

definition takeWorldSnapshot :: "string \<Rightarrow> int \<Rightarrow> Registry \<Rightarrow> WorldSnapshotData option" where
  "takeWorldSnapshot snapshotType start r =
     (if length (GetAllEntities r) = 0 then None
      else let es = capture_all r
        in Some \<lparr>ws_Meta = \<lparr>sm_Version = SnapshotVersion, sm_Timestamp = start, sm_EntityCount = length es,
             sm_PlayerCount = count_type EntityPlayer es, sm_MonsterCount = count_type EntityMonster es,
             sm_ServerUptime = ''0'', sm_SnapshotType = snapshotType\<rparr>, ws_Entities = es\<rparr>)"

definition TakeShutdownSnapshot :: "int \<Rightarrow> Registry \<Rightarrow> WorldSnapshotData option" where
  "TakeShutdownSnapshot start r = takeWorldSnapshot ''shutdown'' start r"

subsection \<open>The directory\<close>

definition snapshotFilePrefix :: string where "snapshotFilePrefix = ''world_snapshot_''"

definition maxSnapshots :: nat where "maxSnapshots = 3"

type_synonym 'f snap_file = "string \<times> int \<times> 'f option"

record 'f snap_dir =
  dk_files :: "'f snap_file list"
  dk_marker :: "string option"

definition snapshotFilename :: "string \<Rightarrow> string" where
  "snapshotFilename stamp = snapshotFilePrefix @ stamp @ ''.snap''"

definition is_snapshot :: "string \<Rightarrow> bool" where
  "is_snapshot name \<longleftrightarrow> length name \<ge> length snapshotFilePrefix \<and> take (length snapshotFilePrefix) name = snapshotFilePrefix"

definition store_file :: "string \<Rightarrow> int \<Rightarrow> 'f option \<Rightarrow> 'f snap_dir \<Rightarrow> 'f snap_dir" where
  "store_file name now content d = d\<lparr>dk_files := filter (\<lambda>(n, _). n \<noteq> name) (dk_files d) @ [(name, now, content)]\<rparr>"

definition writeLatestMarker :: "string \<Rightarrow> 'f snap_dir \<Rightarrow> 'f snap_dir" where
  "writeLatestMarker stamp d = d\<lparr>dk_marker := Some stamp\<rparr>"

definition readLatestMarker :: "'f snap_dir \<Rightarrow> string option" where "readLatestMarker d = dk_marker d"

definition writeSnapshotToDisk ::
  "(WorldSnapshotData \<Rightarrow> 'f option) \<Rightarrow> (int \<Rightarrow> string) \<Rightarrow> int \<Rightarrow> WorldSnapshotData \<Rightarrow> 'f snap_dir \<Rightarrow> bool \<times> 'f snap_dir" where
  "writeSnapshotToDisk encode fmt now snapshot d =
     (let stamp = fmt (sm_Timestamp (ws_Meta snapshot))
      in case encode snapshot of
        None \<Rightarrow> (False, store_file (snapshotFilename stamp) now None d)
      | Some f \<Rightarrow> (True, writeLatestMarker stamp (store_file (snapshotFilename stamp) now (Some f) d)))"

text \<open>The exchange sort by modification time: the inner loop carries the smallest so far.\<close>

fun swap_out :: "'f snap_file \<Rightarrow> 'f snap_file list \<Rightarrow> 'f snap_file \<times> 'f snap_file list" where
  "swap_out a [] = (a, [])"
| "swap_out a (b # bs) =
     (if fst (snd b) < fst (snd a) then (case swap_out b bs of (m, rest) \<Rightarrow> (m, a # rest))
      else (case swap_out a bs of (m, rest) \<Rightarrow> (m, b # rest)))"

lemma swap_out_length: "swap_out a bs = (m, rest) \<Longrightarrow> length rest = length bs"
  by (induction a bs arbitrary: m rest rule: swap_out.induct) (auto split: if_splits prod.splits)

function exchange_sort :: "'f snap_file list \<Rightarrow> 'f snap_file list" where
  "exchange_sort [] = []"
| "exchange_sort (a # bs) = (case swap_out a bs of (m, rest) \<Rightarrow> m # exchange_sort rest)"
  by pat_completeness auto
termination by (relation "measure length") (auto dest: swap_out_length [OF sym])

definition cleanupOldSnapshots :: "'f snap_dir \<Rightarrow> 'f snap_dir" where
  "cleanupOldSnapshots d =
     (let snapFiles = exchange_sort (filter (\<lambda>(n, _). is_snapshot n) (dk_files d))
      in if length snapFiles > maxSnapshots
         then let old = map fst (take (length snapFiles - maxSnapshots) snapFiles)
           in d\<lparr>dk_files := filter (\<lambda>(n, _). n \<notin> set old) (dk_files d)\<rparr>
         else d)"

text \<open>The goroutine of \<open>takeWorldSnapshot\<close>.\<close>

definition save_snapshot ::
  "(WorldSnapshotData \<Rightarrow> 'f option) \<Rightarrow> (int \<Rightarrow> string) \<Rightarrow> int \<Rightarrow> WorldSnapshotData \<Rightarrow> 'f snap_dir \<Rightarrow> 'f snap_dir" where
  "save_snapshot encode fmt now snapshot d = (case writeSnapshotToDisk encode fmt now snapshot d of
     (ok, d') \<Rightarrow> if ok then cleanupOldSnapshots d' else d')"

subsection \<open>Recovery\<close>

text \<open>The newest file; a file with the zero time is never chosen.\<close>

definition newest :: "'f snap_file list \<Rightarrow> 'f snap_file option" where
  "newest files = snd (fold (\<lambda>(n, t, c) (latestTime, best).
     if \<not> is_snapshot n then (latestTime, best)
     else if t > latestTime then (t, Some (n, t, c)) else (latestTime, best)) files (0, None))"

definition loadMostRecentSnapshot :: "('f \<Rightarrow> WorldSnapshotData option) \<Rightarrow> (int \<Rightarrow> string) \<Rightarrow> 'f snap_dir \<Rightarrow> WorldSnapshotData option \<times> 'f snap_dir" where
  "loadMostRecentSnapshot decode fmt d = (case newest (dk_files d) of
     None \<Rightarrow> (None, d)
   | Some (n, t, content) \<Rightarrow> (case Option.bind content decode of
       None \<Rightarrow> (None, d)
     | Some snapshot \<Rightarrow> (Some snapshot, writeLatestMarker (fmt (sm_Timestamp (ws_Meta snapshot))) d)))"

definition LoadLatestSnapshot :: "('f \<Rightarrow> WorldSnapshotData option) \<Rightarrow> (int \<Rightarrow> string) \<Rightarrow> 'f snap_dir \<Rightarrow> WorldSnapshotData option \<times> 'f snap_dir" where
  "LoadLatestSnapshot decode fmt d = (case readLatestMarker d of
     None \<Rightarrow> (None, d)
   | Some stamp \<Rightarrow> (case map_of (dk_files d) (snapshotFilename stamp) of
       None \<Rightarrow> loadMostRecentSnapshot decode fmt d
     | Some (t, content) \<Rightarrow> (Option.bind content decode, d)))"

definition set_opt :: "(entity \<Rightarrow> 'c \<Rightarrow> Registry \<Rightarrow> Registry) \<Rightarrow> entity \<Rightarrow> 'c option \<Rightarrow> Registry \<Rightarrow> Registry" where
  "set_opt f e v r = (case v of None \<Rightarrow> r | Some c \<Rightarrow> f e c r)"

definition restore_entity :: "EntitySnapshotData \<Rightarrow> Registry \<Rightarrow> Registry" where
  "restore_entity d r =
     (let e = es_ID d;
          r1 = SetMetadata e (es_Meta d) r;
          r2 = (if es_HasPos d then SetPosition e (es_Pos d) r1 else r1);
          r3 = (if es_HasStats d then SetStats e (es_Stats d) r2 else r2)
      in set_opt SetItemTemplate e (es_ItemTemp d) (set_opt SetParty e (es_Party d) (set_opt SetAI e (es_AI d)
           (set_opt SetEffects e (es_Effects d) (set_opt SetEquipment e (es_Equipment d) (set_opt SetInventory e (es_Inventory d) r3))))))"

definition RestoreWorldFromSnapshot :: "WorldSnapshotData option \<Rightarrow> Registry \<Rightarrow> nat \<times> Registry" where
  "RestoreWorldFromSnapshot snapshot r = (case snapshot of
     None \<Rightarrow> (0, r)
   | Some s \<Rightarrow> (length (ws_Entities s), fold restore_entity (ws_Entities s) r))"

record SnapshotMetrics =
  LastSnapshotTime :: string
  SnapshotCount :: nat
  PendingBuffer :: nat

definition GetSnapshotMetrics :: "'f snap_dir \<Rightarrow> SnapshotMetrics" where
  "GetSnapshotMetrics d = \<lparr>LastSnapshotTime = (case dk_marker d of Some (c # cs) \<Rightarrow> c # cs | _ \<Rightarrow> ''never''),
     SnapshotCount = length (filter (\<lambda>(n, _). is_snapshot n) (dk_files d)), PendingBuffer = 0\<rparr>"


subsection \<open>The directory keeps the three newest files, the file just written among them\<close>

lemma swap_out_mset: "swap_out a bs = (m, rest) \<Longrightarrow> mset (m # rest) = mset (a # bs)"
proof (induction a bs arbitrary: m rest rule: swap_out.induct)
  case (2 a b bs)
  then show ?case
    by (cases "fst (snd b) < fst (snd a)") (auto simp: add_mset_commute split: prod.splits)
qed simp

lemma swap_out_least:
  "swap_out a bs = (m, rest) \<Longrightarrow> fst (snd m) \<le> fst (snd a) \<and> (\<forall>x\<in>set rest. fst (snd m) \<le> fst (snd x))"
  by (induction a bs arbitrary: m rest rule: swap_out.induct) (fastforce split: if_splits prod.splits)+

lemma exchange_sort_mset: "mset (exchange_sort fs) = mset fs"
proof (induction fs rule: exchange_sort.induct)
  case (2 a bs)
  obtain m rest where ex: "swap_out a bs = (m, rest)" by (cases "swap_out a bs")
  with 2 swap_out_mset [OF ex] show ?case by simp
qed simp

lemma exchange_sort_set: "set (exchange_sort fs) = set fs"
  by (metis exchange_sort_mset set_mset_mset)

lemma exchange_sort_length [simp]: "length (exchange_sort fs) = length fs"
  by (metis exchange_sort_mset size_mset)

theorem exchange_sort_sorted: "sorted (map (fst \<circ> snd) (exchange_sort fs))"
proof (induction fs rule: exchange_sort.induct)
  case (2 a bs)
  obtain m rest where ex: "swap_out a bs = (m, rest)" by (cases "swap_out a bs")
  with 2 swap_out_least [OF ex] show ?case by (auto simp: exchange_sort_set)
qed simp

text \<open>A file that is at least as new as all the others and comes last stays last.\<close>

lemma swap_out_last:
  assumes "\<forall>x\<in>insert a (set bs). fst (snd x) \<le> fst (snd z)"
  shows "\<exists>m rest. swap_out a (bs @ [z]) = (m, rest @ [z]) \<and> set (m # rest) = set (a # bs)"
  using assms
proof (induction a bs rule: swap_out.induct)
  case (2 a b bs)
  show ?case
  proof (cases "fst (snd b) < fst (snd a)")
    case True
    with 2 obtain m rest where "swap_out b (bs @ [z]) = (m, rest @ [z])" "set (m # rest) = set (b # bs)" by auto
    with True show ?thesis by auto
  next
    case False
    with 2 obtain m rest where "swap_out a (bs @ [z]) = (m, rest @ [z])" "set (m # rest) = set (a # bs)" by auto
    with False show ?thesis by auto
  qed
qed simp

lemma exchange_sort_last:
  "\<forall>x\<in>set fs. fst (snd x) \<le> fst (snd z) \<Longrightarrow> \<exists>gs. exchange_sort (fs @ [z]) = gs @ [z] \<and> set gs = set fs"
proof (induction "length fs" arbitrary: fs)
  case (Suc n)
  then obtain a bs where fs: "fs = a # bs" by (cases fs) auto
  with swap_out_last [of a bs z] Suc.prems obtain m rest
    where ex: "swap_out a (bs @ [z]) = (m, rest @ [z])" "set (m # rest) = set (a # bs)" by auto
  have "length (rest @ [z]) = length (bs @ [z])" by (rule swap_out_length [OF ex(1)])
  then have "n = length rest" using Suc.hyps(2) fs by simp
  moreover have "\<forall>x\<in>set rest. fst (snd x) \<le> fst (snd z)" using Suc.prems ex(2) fs by auto
  ultimately obtain gs where "exchange_sort (rest @ [z]) = gs @ [z]" "set gs = set rest"
    using Suc.hyps(1) [of rest] by auto
  with ex fs show ?case by (intro exI [of _ "m # gs"]) simp
qed simp

lemma length_filter_old:
  assumes "distinct (map fst fs)" and "mset gs = mset fs"
  shows "length (filter (\<lambda>(n, _). n \<notin> set (map fst (take k gs))) fs) = length fs - k"
proof -
  have dist: "distinct (map fst gs)" using assms by (metis mset_map mset_eq_imp_distinct_iff)
  have "map fst gs = map fst (take k gs) @ map fst (drop k gs)" by (metis append_take_drop_id map_append)
  with dist have disj: "set (map fst (take k gs)) \<inter> set (map fst (drop k gs)) = {}" by (metis distinct_append)
  let ?keep = "\<lambda>(n, _). n \<notin> set (map fst (take k gs))"
  have "filter ?keep (take k gs) = []" by (force simp: filter_empty_conv)
  moreover have "filter ?keep (drop k gs) = drop k gs" using disj by (force simp: filter_id_conv)
  ultimately have "filter ?keep gs = drop k gs" by (metis append_Nil append_take_drop_id filter_append)
  moreover have "mset (filter (\<lambda>(n, _). n \<notin> set (map fst (take k gs))) fs) = mset (filter (\<lambda>(n, _). n \<notin> set (map fst (take k gs))) gs)"
    using assms(2) by (metis mset_filter)
  ultimately show ?thesis using assms(2) by (metis length_drop size_mset)
qed

definition snapshots_of :: "'f snap_dir \<Rightarrow> 'f snap_file list" where
  "snapshots_of d = filter (\<lambda>(n, _). is_snapshot n) (dk_files d)"

theorem cleanup_keeps_three:
  assumes "distinct (map fst (dk_files d))"
  shows "length (snapshots_of (cleanupOldSnapshots d)) = min maxSnapshots (length (snapshots_of d))"
    and "\<forall>x\<in>set (snapshots_of d) - set (snapshots_of (cleanupOldSnapshots d)). \<forall>y\<in>set (snapshots_of (cleanupOldSnapshots d)).
      fst (snd x) \<le> fst (snd y)"
    and "filter (\<lambda>(n, _). \<not> is_snapshot n) (dk_files (cleanupOldSnapshots d)) = filter (\<lambda>(n, _). \<not> is_snapshot n) (dk_files d)"
proof -
  let ?fs = "snapshots_of d" and ?gs = "exchange_sort (snapshots_of d)"
  let ?k = "length ?fs - maxSnapshots" and ?d = "cleanupOldSnapshots d"
  let ?keep = "\<lambda>(n, _). n \<notin> set (map fst (take ?k ?gs))"
  have dist: "distinct (map fst ?fs)" using assms by (simp add: snapshots_of_def distinct_map_filter)
  have files: "dk_files ?d = filter ?keep (dk_files d)"
    by (auto simp: cleanupOldSnapshots_def Let_def snapshots_of_def [symmetric])
  have fs: "snapshots_of ?d = filter ?keep ?fs"
    unfolding snapshots_of_def [of ?d] files by (auto simp: snapshots_of_def conj_commute intro: filter_cong)
  show "length (snapshots_of ?d) = min maxSnapshots (length ?fs)"
    unfolding fs using length_filter_old [OF dist exchange_sort_mset, of ?k] by simp
  have dropped: "x \<in> set (take ?k ?gs)" if "x \<in> set ?fs" "\<not> ?keep x" for x
  proof -
    from that(2) obtain y where y: "y \<in> set (take ?k ?gs)" "fst y = fst x" by (auto split: prod.splits)
    then have "y \<in> set ?fs" by (metis exchange_sort_set in_set_takeD)
    with that(1) y dist show ?thesis by (metis eq_key_imp_eq_value prod.collapse)
  qed
  have kept: "y \<in> set (drop ?k ?gs)" if "y \<in> set ?fs" "?keep y" for y
  proof -
    have "y \<in> set (take ?k ?gs) \<union> set (drop ?k ?gs)" using that(1) by (metis exchange_sort_set append_take_drop_id set_append)
    then show ?thesis using that(2) by (force split: prod.splits)
  qed
  have "sorted (map (fst \<circ> snd) (take ?k ?gs @ drop ?k ?gs))" using exchange_sort_sorted [of ?fs] by simp
  then have order: "x \<in> set (take ?k ?gs) \<Longrightarrow> y \<in> set (drop ?k ?gs) \<Longrightarrow> fst (snd x) \<le> fst (snd y)" for x y
    unfolding map_append sorted_append by simp
  show "\<forall>x\<in>set ?fs - set (snapshots_of ?d). \<forall>y\<in>set (snapshots_of ?d). fst (snd x) \<le> fst (snd y)"
    proof (intro ballI)
    fix x y assume "x \<in> set ?fs - set (snapshots_of ?d)" and y: "y \<in> set (snapshots_of ?d)"
    then have x: "x \<in> set ?fs" "\<not> ?keep x" unfolding fs by auto
    from y have "y \<in> set ?fs" "?keep y" unfolding fs by auto
    with order [OF dropped [OF x]] kept show "fst (snd x) \<le> fst (snd y)" by blast
  qed
  have snap: "is_snapshot n" if "n \<in> set (map fst (take ?k ?gs))" for n
    using that by (auto dest!: in_set_takeD simp: exchange_sort_set snapshots_of_def)
  show "filter (\<lambda>(n, _). \<not> is_snapshot n) (dk_files ?d) = filter (\<lambda>(n, _). \<not> is_snapshot n) (dk_files d)"
    unfolding files filter_filter by (rule filter_cong) (use snap in \<open>auto split: prod.splits\<close>)
qed

lemma snapshotFilename_is_snapshot [simp]: "is_snapshot (snapshotFilename stamp)"
  by (simp add: is_snapshot_def snapshotFilename_def)

lemma map_of_filter_key: "P k \<Longrightarrow> map_of (filter (\<lambda>(n, _). P n) xs) k = map_of xs k"
  by (induction xs) auto

lemma cleanup_map_of:
  "exchange_sort (snapshots_of d) = gs \<Longrightarrow> n \<notin> set (map fst (take (length gs - maxSnapshots) gs)) \<Longrightarrow>
    map_of (dk_files (cleanupOldSnapshots d)) n = map_of (dk_files d) n"
  by (auto simp: cleanupOldSnapshots_def Let_def snapshots_of_def [symmetric] map_of_filter_key)

lemma save_then_load:
  assumes time: "\<forall>(n, t, c)\<in>set (dk_files d). is_snapshot n \<longrightarrow> t \<le> now"
    and enc: "encode snapshot = Some f" and dec: "decode f = Some loaded"
  shows "LoadLatestSnapshot decode fmt (save_snapshot encode fmt now snapshot d)
    = (Some loaded, save_snapshot encode fmt now snapshot d)"
proof -
  let ?stamp = "fmt (sm_Timestamp (ws_Meta snapshot))"
  let ?n = "snapshotFilename ?stamp"
  let ?old = "filter (\<lambda>(n, _). n \<noteq> ?n) (dk_files d)"
  define d1 where "d1 = writeLatestMarker ?stamp (store_file ?n now (Some f) d)"
  have d1: "dk_files d1 = ?old @ [(?n, now, Some f)]" "dk_marker d1 = Some ?stamp"
    by (simp_all add: d1_def writeLatestMarker_def store_file_def)
  have d': "save_snapshot encode fmt now snapshot d = cleanupOldSnapshots d1"
    by (simp add: save_snapshot_def writeSnapshotToDisk_def enc d1_def Let_def)
  let ?snaps = "filter (\<lambda>(n, _). is_snapshot n) ?old" and ?new = "(?n, now, Some f)"
  have snaps: "snapshots_of d1 = ?snaps @ [?new]" by (simp only: snapshots_of_def d1(1) filter_append) simp
  have "\<forall>x\<in>set ?snaps. fst (snd x) \<le> fst (snd ?new)" using time by auto
  from exchange_sort_last [OF this] obtain gs where gs: "exchange_sort (snapshots_of d1) = gs @ [?new]" "set gs = set ?snaps"
    unfolding snaps by blast
  have "?n \<notin> set (map fst gs)" using gs(2) by auto
  moreover have "take (length (gs @ [?new]) - maxSnapshots) (gs @ [?new]) = take (length gs + 1 - maxSnapshots) gs"
    by (simp add: maxSnapshots_def)
  ultimately have "?n \<notin> set (map fst (take (length (gs @ [?new]) - maxSnapshots) (gs @ [?new])))"
    by (metis (no_types, lifting) in_set_takeD take_map)
  from cleanup_map_of [OF gs(1) this] have "map_of (dk_files (cleanupOldSnapshots d1)) ?n = map_of (dk_files d1) ?n" .
  moreover have "map_of (dk_files d1) ?n = Some (now, Some f)"
    unfolding d1(1) map_of_append by (subst map_add_dom_app_simps(3)) (auto dest!: map_of_SomeD)
  moreover have "dk_marker (cleanupOldSnapshots d1) = Some ?stamp" by (simp add: cleanupOldSnapshots_def Let_def d1(2))
  ultimately show ?thesis unfolding d' by (simp add: LoadLatestSnapshot_def readLatestMarker_def dec)
qed

subsection \<open>Recovery gives back what was captured\<close>

lemma case_option_const [simp]: "(case v of None \<Rightarrow> x | Some _ \<Rightarrow> x) = x"
  by (simp split: option.split)

lemma set_opt_apply:
  "registry_inv (set_opt f e v r) = (case v of None \<Rightarrow> registry_inv r | Some c \<Rightarrow> registry_inv (f e c r))"
  "registered (set_opt f e v r) = (case v of None \<Rightarrow> registered r | Some c \<Rightarrow> registered (f e c r))"
  "reg_nextID (set_opt f e v r) = (case v of None \<Rightarrow> reg_nextID r | Some c \<Rightarrow> reg_nextID (f e c r))"
  "GetPosition (set_opt f e v r) = (case v of None \<Rightarrow> GetPosition r | Some c \<Rightarrow> GetPosition (f e c r))"
  "GetConnection (set_opt f e v r) = (case v of None \<Rightarrow> GetConnection r | Some c \<Rightarrow> GetConnection (f e c r))"
  "GetMetadata (set_opt f e v r) = (case v of None \<Rightarrow> GetMetadata r | Some c \<Rightarrow> GetMetadata (f e c r))"
  "GetStats (set_opt f e v r) = (case v of None \<Rightarrow> GetStats r | Some c \<Rightarrow> GetStats (f e c r))"
  "GetAI (set_opt f e v r) = (case v of None \<Rightarrow> GetAI r | Some c \<Rightarrow> GetAI (f e c r))"
  "GetInventory (set_opt f e v r) = (case v of None \<Rightarrow> GetInventory r | Some c \<Rightarrow> GetInventory (f e c r))"
  "GetLifetime (set_opt f e v r) = (case v of None \<Rightarrow> GetLifetime r | Some c \<Rightarrow> GetLifetime (f e c r))"
  "GetItemTemplate (set_opt f e v r) = (case v of None \<Rightarrow> GetItemTemplate r | Some c \<Rightarrow> GetItemTemplate (f e c r))"
  "GetEquipment (set_opt f e v r) = (case v of None \<Rightarrow> GetEquipment r | Some c \<Rightarrow> GetEquipment (f e c r))"
  "GetParty (set_opt f e v r) = (case v of None \<Rightarrow> GetParty r | Some c \<Rightarrow> GetParty (f e c r))"
  "GetPartyMember (set_opt f e v r) = (case v of None \<Rightarrow> GetPartyMember r | Some c \<Rightarrow> GetPartyMember (f e c r))"
  "GetEffects (set_opt f e v r) = (case v of None \<Rightarrow> GetEffects r | Some c \<Rightarrow> GetEffects (f e c r))"
  by (simp_all add: set_opt_def split: option.split)

lemma reg_nextID_set:
  "reg_nextID (SetMetadata e v1 r) = reg_nextID r" "reg_nextID (SetPosition e v2 r) = reg_nextID r" "reg_nextID (SetStats e v3 r) = reg_nextID r"
  "reg_nextID (SetInventory e v4 r) = reg_nextID r" "reg_nextID (SetEquipment e v5 r) = reg_nextID r"
  "reg_nextID (SetEffects e v6 r) = reg_nextID r" "reg_nextID (SetAI e v7 r) = reg_nextID r" "reg_nextID (SetParty e v8 r) = reg_nextID r"
  "reg_nextID (SetItemTemplate e v9 r) = reg_nextID r"
  by (simp_all add: accessor_defs)

text \<open>What an entity has after its recovery: the nine captured components, and neither connection nor lifetime nor membership.\<close>

definition recovered :: "EntitySnapshotData \<Rightarrow> Registry \<Rightarrow> bool" where
  "recovered d r \<longleftrightarrow> (let e = es_ID d in GetMetadata r e = Some (es_Meta d) \<and>
     GetPosition r e = (if es_HasPos d then Some (es_Pos d) else None) \<and>
     GetStats r e = (if es_HasStats d then Some (es_Stats d) else None) \<and>
     GetInventory r e = es_Inventory d \<and> GetEquipment r e = es_Equipment d \<and> GetEffects r e = es_Effects d \<and>
     GetAI r e = es_AI d \<and> GetParty r e = es_Party d \<and> GetItemTemplate r e = es_ItemTemp d \<and>
     GetConnection r e = None \<and> GetLifetime r e = None \<and> GetPartyMember r e = None)"

lemma restore_entity_exact:
  assumes inv: "registry_inv r" and ids: "inj_on EntityIndex (insert (es_ID d) (registered r))" "es_ID d \<notin> registered r"
  shows "registry_inv (restore_entity d r)" and "registered (restore_entity d r) = insert (es_ID d) (registered r)"
    and "recovered d (restore_entity d r)" and "x \<noteq> es_ID d \<Longrightarrow> same_components x r (restore_entity d r)"
    and "reg_nextID (restore_entity d r) = reg_nextID r"
proof -
  let ?e = "es_ID d"
  define r1 where "r1 = SetMetadata ?e (es_Meta d) r"
  note M = SetMetadata_inv [OF inv ids(1), of "es_Meta d", folded r1_def]
  define r3 where "r3 = (if es_HasStats d then SetStats ?e (es_Stats d) else id) ((if es_HasPos d then SetPosition ?e (es_Pos d) else id) r1)"
  have run: "restore_entity d r = set_opt SetItemTemplate ?e (es_ItemTemp d) (set_opt SetParty ?e (es_Party d) (set_opt SetAI ?e (es_AI d)
      (set_opt SetEffects ?e (es_Effects d) (set_opt SetEquipment ?e (es_Equipment d) (set_opt SetInventory ?e (es_Inventory d) r3)))))"
    by (simp add: restore_entity_def Let_def r1_def r3_def)
  have e: "?e \<in> registered r1" by (simp add: M(3))
  have r3: "registry_inv r3" "registered r3 = registered r1"
    by (cases "es_HasPos d"; cases "es_HasStats d"; simp add: r3_def M(1) e)+
  note base = unregistered_no_components [OF inv ids(2), unfolded no_components_def]
  show "registry_inv (restore_entity d r)" unfolding run
    by (simp add: set_opt_apply r3 e split: option.split)
  show "registered (restore_entity d r) = insert (es_ID d) (registered r)" unfolding run
    by (simp add: set_opt_apply r3 e M(3) split: option.split)
  have nid: "reg_nextID r3 = reg_nextID r" by (simp add: r3_def r1_def reg_nextID_set)
  show "reg_nextID (restore_entity d r) = reg_nextID r" unfolding run
    by (simp add: set_opt_apply reg_nextID_set nid split: option.split)
  have g3: "GetMetadata r3 = (GetMetadata r)(?e \<mapsto> es_Meta d)"
      "GetPosition r3 = (if es_HasPos d then (GetPosition r)(?e \<mapsto> es_Pos d) else GetPosition r)"
      "GetStats r3 = (if es_HasStats d then (GetStats r)(?e \<mapsto> es_Stats d) else GetStats r)"
      "GetInventory r3 = GetInventory r" "GetEquipment r3 = GetEquipment r" "GetEffects r3 = GetEffects r" "GetAI r3 = GetAI r"
      "GetParty r3 = GetParty r" "GetItemTemplate r3 = GetItemTemplate r" "GetConnection r3 = GetConnection r"
      "GetLifetime r3 = GetLifetime r" "GetPartyMember r3 = GetPartyMember r"
    by (cases "es_HasPos d"; cases "es_HasStats d"; simp add: r3_def M(1,2) e; simp add: r1_def)+
  have get: "GetMetadata (restore_entity d r) = (GetMetadata r)(?e \<mapsto> es_Meta d)"
      "GetPosition (restore_entity d r) = (if es_HasPos d then (GetPosition r)(?e \<mapsto> es_Pos d) else GetPosition r)"
      "GetStats (restore_entity d r) = (if es_HasStats d then (GetStats r)(?e \<mapsto> es_Stats d) else GetStats r)"
      "GetConnection (restore_entity d r) = GetConnection r" "GetLifetime (restore_entity d r) = GetLifetime r"
      "GetPartyMember (restore_entity d r) = GetPartyMember r"
      "GetInventory (restore_entity d r) = (case es_Inventory d of None \<Rightarrow> GetInventory r | Some c \<Rightarrow> (GetInventory r)(?e \<mapsto> c))"
      "GetEquipment (restore_entity d r) = (case es_Equipment d of None \<Rightarrow> GetEquipment r | Some c \<Rightarrow> (GetEquipment r)(?e \<mapsto> c))"
      "GetEffects (restore_entity d r) = (case es_Effects d of None \<Rightarrow> GetEffects r | Some c \<Rightarrow> (GetEffects r)(?e \<mapsto> c))"
      "GetAI (restore_entity d r) = (case es_AI d of None \<Rightarrow> GetAI r | Some c \<Rightarrow> (GetAI r)(?e \<mapsto> c))"
      "GetParty (restore_entity d r) = (case es_Party d of None \<Rightarrow> GetParty r | Some c \<Rightarrow> (GetParty r)(?e \<mapsto> c))"
      "GetItemTemplate (restore_entity d r) = (case es_ItemTemp d of None \<Rightarrow> GetItemTemplate r | Some c \<Rightarrow> (GetItemTemplate r)(?e \<mapsto> c))"
    unfolding run by (simp_all add: set_opt_apply r3 e g3 split: option.split)
  show "recovered d (restore_entity d r)" by (simp add: recovered_def Let_def get base split: option.split)
  show "same_components x r (restore_entity d r)" if "x \<noteq> ?e"
    using that by (simp add: same_components_def get split: option.split)
qed

lemma restore_all:
  assumes "registry_inv r" and "distinct (map es_ID ds)" and "inj_on EntityIndex (registered r \<union> es_ID ` set ds)"
    and "registered r \<inter> es_ID ` set ds = {}"
  shows "registry_inv (fold restore_entity ds r) \<and> registered (fold restore_entity ds r) = registered r \<union> es_ID ` set ds \<and>
    reg_nextID (fold restore_entity ds r) = reg_nextID r \<and> (\<forall>d\<in>set ds. recovered d (fold restore_entity ds r)) \<and>
    (\<forall>x. x \<notin> es_ID ` set ds \<longrightarrow> same_components x r (fold restore_entity ds r))"
  using assms
proof (induction ds arbitrary: r)
  case Nil
  then show ?case by (simp add: same_components_def)
next
  case (Cons d ds)
  let ?r = "restore_entity d r" and ?r' = "fold restore_entity ds (restore_entity d r)"
  have ids: "inj_on EntityIndex (insert (es_ID d) (registered r))" "es_ID d \<notin> registered r" "es_ID d \<notin> es_ID ` set ds"
    using Cons.prems by (auto intro: inj_on_subset)
  note E = restore_entity_exact [OF Cons.prems(1) ids(1,2)]
  have "registered ?r \<inter> es_ID ` set ds = {}" using Cons.prems(4) ids(3) by (auto simp: E(2))
  moreover have "inj_on EntityIndex (registered ?r \<union> es_ID ` set ds)" using Cons.prems(3) by (simp add: E(2))
  ultimately have IH: "registry_inv ?r' \<and> registered ?r' = registered ?r \<union> es_ID ` set ds \<and> reg_nextID ?r' = reg_nextID ?r \<and>
    (\<forall>d\<in>set ds. recovered d ?r') \<and> (\<forall>x. x \<notin> es_ID ` set ds \<longrightarrow> same_components x ?r ?r')"
    using Cons.IH [OF E(1)] Cons.prems(2) by simp
  then have "same_components (es_ID d) ?r ?r'" using ids(3) by blast
  then have "recovered d ?r'" using E(3) by (simp add: recovered_def same_components_def Let_def)
  moreover have "same_components x r ?r'" if "x \<noteq> es_ID d" "x \<notin> es_ID ` set ds" for x
    using IH E(4) [OF that(1)] that(2) by (simp add: same_components_def)
  ultimately show ?case using IH by (simp add: E(2,5))
qed

text \<open>The entities a snapshot holds.\<close>

definition captured :: "Registry \<Rightarrow> entity \<Rightarrow> bool" where
  "captured r e = (case GetMetadata r e of None \<Rightarrow> False | Some m \<Rightarrow> \<not> (meta_Type m = EntityPlayer \<and> is_bot (meta_Name m)))"

lemma map_option_clones:
  "map_option Inventory_Clone v1 = v1" "map_option Effects_Clone v2 = v2" "map_option Party_Clone v3 = v3"
  by (cases v1; cases v2; cases v3; simp)+

lemma capture_entity_Some:
  assumes "capture_entity r e = Some d"
  shows "captured r e \<and> es_ID d = e \<and> GetMetadata r e = Some (es_Meta d) \<and>
     es_HasPos d = (GetPosition r e \<noteq> None) \<and> es_Pos d = (case GetPosition r e of None \<Rightarrow> blank_pos | Some p \<Rightarrow> p) \<and>
     es_HasStats d = (GetStats r e \<noteq> None) \<and> es_Stats d = (case GetStats r e of None \<Rightarrow> blank_stats | Some st \<Rightarrow> st) \<and>
     es_Inventory d = GetInventory r e \<and> es_Equipment d = GetEquipment r e \<and> es_Effects d = GetEffects r e \<and> es_AI d = GetAI r e \<and>
     es_Party d = GetParty r e \<and> es_ItemTemp d = GetItemTemplate r e"
  using assms by (auto simp: capture_entity_def captured_def map_option_clones split: option.splits if_splits)

lemma GetAllEntities_dense:
  assumes "registry_inv r"
  shows "distinct (GetAllEntities r)" and "set (GetAllEntities r) = dom (GetMetadata r)"
proof -
  have ok: "store_ok (metadata r)" using assms by (simp add: registry_inv_def registry_ok_def)
  have "range_loop (\<lambda>e _ acc. (True, acc @ [e])) es acc = acc @ map fst es" for es :: "(entity \<times> MetadataComponent) list" and acc
    by (induction es arbitrary: acc) auto
  then have all: "GetAllEntities r = map fst (entries (metadata r))"
    by (simp add: GetAllEntities_def RangeMetadata_def store_range_def entries_def)
  show "distinct (GetAllEntities r)" unfolding all by (rule distinct_entries [OF ok])
  show "set (GetAllEntities r) = dom (GetMetadata r)"
    unfolding all by (force simp: set_entries [OF ok] accessor_defs dom_def)
qed

lemma capture_all_ids:
  "map es_ID (capture_all r) = filter (captured r) (GetAllEntities r)"
proof -
  have "map es_ID (List.map_filter (capture_entity r) es) = filter (captured r) es" for es
    by (induction es) (auto simp: List.map_filter_simps captured_def capture_entity_def split: option.splits)
  then show ?thesis by (simp add: capture_all_def)
qed

text \<open>
  What \<open>gob\<close> makes of a snapshot. It sends the exported fields, which are all there are but for two types that encode themselves:
  \<open>ThreatTable.GobEncode\<close> writes nothing and \<open>GobDecode\<close> reads nothing, so a table that is there comes back as the zero
  struct, without entries and with a decay rate of 0. (\<open>PathCache\<close> does the same; the search resets its cache before it
  uses it, and the component of the model has none.) A slice of length 0 comes back as nil, which is the same list here; a map that is
  not nil is sent even when it is empty.
\<close>

definition gob_table :: ThreatTable where
  "gob_table = \<lparr>tt_entries = [], decayRate = 0, totalThreat = 0, heapSize = 0, tt_heap = replicate MaxPlayers 0\<rparr>"

definition forget_threat :: "AIComponent \<Rightarrow> AIComponent" where
  "forget_threat c = c\<lparr>ai_ThreatTable := map_option (\<lambda>_. gob_table) (ai_ThreatTable c)\<rparr>"

definition gob_entity :: "EntitySnapshotData \<Rightarrow> EntitySnapshotData" where
  "gob_entity d = d\<lparr>es_AI := map_option forget_threat (es_AI d)\<rparr>"

definition gob_image :: "WorldSnapshotData \<Rightarrow> WorldSnapshotData" where
  "gob_image s = s\<lparr>ws_Entities := map gob_entity (ws_Entities s)\<rparr>"

definition gob_codec :: "(WorldSnapshotData \<Rightarrow> 'f option) \<Rightarrow> ('f \<Rightarrow> WorldSnapshotData option) \<Rightarrow> bool" where
  "gob_codec encode decode \<longleftrightarrow> (\<forall>s f. encode s = Some f \<longrightarrow> decode f = Some (gob_image s))"

text \<open>The nine components that come back, the AI without its threat table, and the three that do not.\<close>

definition saved_components :: "entity \<Rightarrow> Registry \<Rightarrow> Registry \<Rightarrow> bool" where
  "saved_components e r r' \<longleftrightarrow>
     GetMetadata r' e = GetMetadata r e \<and> GetPosition r' e = GetPosition r e \<and> GetStats r' e = GetStats r e \<and>
     GetInventory r' e = GetInventory r e \<and> GetEquipment r' e = GetEquipment r e \<and> GetEffects r' e = GetEffects r e \<and>
     GetAI r' e = map_option forget_threat (GetAI r e) \<and> GetParty r' e = GetParty r e \<and> GetItemTemplate r' e = GetItemTemplate r e \<and>
     GetConnection r' e = None \<and> GetLifetime r' e = None \<and> GetPartyMember r' e = None"

lemma recovered_saved:
  assumes "capture_entity r e = Some d" and "recovered (gob_entity d) r'"
  shows "saved_components e r r'"
  using capture_entity_Some [OF assms(1)] assms(2) by (auto simp: recovered_def saved_components_def gob_entity_def Let_def)

lemma gob_ids [simp]: "es_ID (gob_entity d) = es_ID d" "map es_ID (map gob_entity ds) = map es_ID ds"
  by (simp_all add: gob_entity_def)

text \<open>
  C15: A snapshot that is written and loaded again gives every captured entity its nine components back in an empty registry, except
  that the threat table of a monster comes back empty, with a decay rate of 0.
\<close>

theorem snapshot_restores:
  assumes inv: "registry_inv r" and take: "takeWorldSnapshot kind start r = Some snapshot"
    and gob: "gob_codec encode decode" "encode snapshot = Some f"
    and time: "\<forall>(n, t, c)\<in>set (dk_files d). is_snapshot n \<longrightarrow> t \<le> now"
    and load: "LoadLatestSnapshot decode fmt (save_snapshot encode fmt now snapshot d) = (loaded, d')"
    and restore: "RestoreWorldFromSnapshot loaded NewRegistry = (n, r')"
  shows "registry_inv r' \<and> n = length (filter (captured r) (GetAllEntities r)) \<and> reg_nextID r' = reg_nextID NewRegistry \<and>
    (\<forall>e. if captured r e then
        saved_components e r r'
      else no_components e r')"
proof -
  let ?ds = "map gob_entity (capture_all r)"
  have "decode f = Some (gob_image snapshot)" using gob by (simp add: gob_codec_def)
  with save_then_load [of d now encode snapshot f decode "gob_image snapshot" fmt] time gob(2) load
  have loaded: "loaded = Some (gob_image snapshot)" by simp
  have es: "ws_Entities (gob_image snapshot) = ?ds" using take by (auto simp: takeWorldSnapshot_def gob_image_def Let_def split: if_splits)
  have n: "n = length (capture_all r)" and r': "r' = fold restore_entity ?ds NewRegistry"
    using restore by (simp_all add: RestoreWorldFromSnapshot_def loaded es del: fold_map)
  have emp: "registered NewRegistry = {}" by (simp add: registered_def NewRegistry_def empty_store_def)
  have ids: "es_ID ` set (capture_all r) = {e. captured r e}"
    using arg_cong [OF capture_all_ids [of r], of set]
    by (auto simp: GetAllEntities_dense(2) [OF inv] captured_def split: option.splits)
  have "{e. captured r e} \<subseteq> registered r"
    using registered_dom [of r] inv by (auto simp: captured_def no_components_def registry_inv_def split: option.splits)
  then have "inj_on EntityIndex {e. captured r e}" using inv by (auto simp: registry_inv_def intro: inj_on_subset)
  moreover have "distinct (map es_ID (capture_all r))" by (simp add: capture_all_ids GetAllEntities_dense(1) [OF inv])
  moreover have "es_ID ` set ?ds = es_ID ` set (capture_all r)" by (simp add: image_image)
  ultimately have R: "registry_inv r' \<and> reg_nextID r' = reg_nextID NewRegistry \<and> (\<forall>d\<in>set ?ds. recovered d r') \<and>
      (\<forall>x. \<not> captured r x \<longrightarrow> same_components x NewRegistry r')"
    using restore_all [OF registry_inv_NewRegistry, of ?ds] unfolding r' by (simp add: ids emp del: fold_map set_map map_map)
  have "n = length (filter (captured r) (GetAllEntities r))" by (metis n capture_all_ids length_map)
  moreover have "no_components e r'" if "\<not> captured r e" for e
    using R that unregistered_no_components [OF registry_inv_NewRegistry, of e] by (simp add: emp same_components_def no_components_def)
  moreover have "saved_components e r r'" if "captured r e" for e
  proof -
    from that have "e \<in> es_ID ` set (capture_all r)" by (simp add: ids)
    then obtain d where d: "d \<in> set (capture_all r)" "es_ID d = e" by (auto simp only: image_iff)
    then obtain x where "capture_entity r x = Some d" by (auto simp: capture_all_def List.map_filter_def)
    moreover have "recovered (gob_entity d) r'" using R d(1) by simp
    ultimately show ?thesis using d(2) recovered_saved capture_entity_Some by metis
  qed
  ultimately show ?thesis using R by simp
qed

definition fallen :: MetadataComponent where "fallen = \<lparr>meta_Name = ''Gold'', meta_Type = EntityGroundItem\<rparr>"

definition fallen_registry :: Registry where
  "fallen_registry = SetLifetime 7 \<lparr>SpawnedTick = 1, Duration = 9\<rparr> (SetMetadata 7 fallen NewRegistry)"

theorem snapshot_restores_witness:
  "\<exists>snapshot loaded d' n r'. takeWorldSnapshot ''periodic'' 5 fallen_registry = Some snapshot \<and>
     LoadLatestSnapshot (Some \<circ> gob_image) (\<lambda>t. ''now'') (save_snapshot Some (\<lambda>t. ''now'') 6 snapshot \<lparr>dk_files = [], dk_marker = None\<rparr>) = (loaded, d') \<and>
     RestoreWorldFromSnapshot loaded NewRegistry = (n, r') \<and> GetLifetime fallen_registry 7 \<noteq> None \<and>
     GetMetadata r' 7 = Some fallen \<and> GetLifetime r' 7 = None"
proof -
  have emp: "registered NewRegistry = {}" by (simp add: registered_def NewRegistry_def empty_store_def)
  have one: "inj_on EntityIndex (insert 7 (registered NewRegistry))" by (simp add: emp)
  note M = SetMetadata_inv [OF registry_inv_NewRegistry one, of fallen]
  have inv: "registry_inv fallen_registry" and life: "GetLifetime fallen_registry 7 \<noteq> None"
    and meta: "GetMetadata fallen_registry 7 = Some fallen" using M by (simp_all add: fallen_registry_def)
  have cap: "captured fallen_registry 7" by (simp add: captured_def meta fallen_def)
  have "7 \<in> set (GetAllEntities fallen_registry)" using GetAllEntities_dense(2) [OF inv] meta by auto
  then obtain snapshot where take: "takeWorldSnapshot ''periodic'' 5 fallen_registry = Some snapshot"
    by (cases "GetAllEntities fallen_registry") (auto simp: takeWorldSnapshot_def Let_def)
  let ?d = "save_snapshot Some (\<lambda>t. ''now'') 6 snapshot \<lparr>dk_files = [], dk_marker = None\<rparr>"
  obtain loaded d' where load: "LoadLatestSnapshot (Some \<circ> gob_image) (\<lambda>t. ''now'') ?d = (loaded, d')" by (cases "LoadLatestSnapshot (Some \<circ> gob_image) (\<lambda>t. ''now'') ?d")
  obtain n r' where restore: "RestoreWorldFromSnapshot loaded NewRegistry = (n, r')" by (cases "RestoreWorldFromSnapshot loaded NewRegistry")
  have gob: "gob_codec Some (Some \<circ> gob_image)" by (simp add: gob_codec_def)
  have "registry_inv r' \<and> n = length (filter (captured fallen_registry) (GetAllEntities fallen_registry)) \<and>
      reg_nextID r' = reg_nextID NewRegistry \<and> (\<forall>e. if captured fallen_registry e then saved_components e fallen_registry r' else no_components e r')"
    by (rule snapshot_restores [OF inv take gob HOL.refl _ load restore]) simp
  then have "saved_components 7 fallen_registry r'" using cap by metis
  with meta take load restore life show ?thesis by (auto simp: saved_components_def)
qed

text \<open>A monster that hated somebody forgets it, and its hatred no longer decays: the new table has a rate of 0.\<close>

lemma threat_forgotten:
  assumes "saved_components e r r'" and "GetAI r e = Some c" and "ai_ThreatTable c = Some tt"
  shows "\<exists>c'. GetAI r' e = Some c' \<and> ai_ThreatTable c' = Some gob_table \<and> threat_of gob_table = Map.empty \<and>
    (threat_Add p a gob_table = Some t \<longrightarrow> map_option (\<lambda>t'. threat_Get p t') (threat_Decay t) = Some (threat_Get p t))"
proof -
  have ok: "threat_ok gob_table" using NewFrom_ok(2) [of pool_table 0]
    by (simp add: gob_table_def NewThreatTableWithDecayFrom_def pool_table_def)
  have "map_option (\<lambda>t'. threat_Get p t') (threat_Decay t) = Some (threat_Get p t)" if add: "threat_Add p a gob_table = Some t"
  proof -
    obtain "threat_ok t" "decayRate t = 0"
      using add steps_ok [OF Add_steps [OF ok]]
      by (auto simp: threat_Add_def gob_table_def threat_sort_def MaxPlayers_def Let_def split: if_splits)
    then show ?thesis using Decay_steps [of t] unfolding steps_to_def
      by (auto simp: threat_Get_of decay_value_def go_div_def split: option.split)
  qed
  then show ?thesis using assms by (auto simp: saved_components_def forget_threat_def threat_of_def gob_table_def)
qed

text \<open>
  Neither the counter of identifiers nor the queue of recycled ones is part of a snapshot: after a recovery the first entity the boot
  creates takes the slot of a recovered one, whose components the registry then loses.
\<close>

lemma boot_reissues:
  "fst (reg_NewEntity (snd (RestoreWorldFromSnapshot (Some \<lparr>ws_Meta = m, ws_Entities =
     [\<lparr>es_ID = mk_entity 1 1, es_Meta = fallen, es_Pos = blank_pos, es_Stats = blank_stats, es_Inventory = None, es_Equipment = None,
       es_Effects = None, es_AI = None, es_Party = None, es_ItemTemp = None, es_HasPos = False, es_HasStats = False\<rparr>]\<rparr>) NewRegistry)) [])
   = mk_entity 1 1"
  by (simp add: RestoreWorldFromSnapshot_def restore_entity_def set_opt_def Let_def reg_NewEntity_def NewEntity_def Pop_empty
    reg_nextID_set NewRegistry_def mk_entity_def)

end
