(* ===== verification/Boot.thy ===== *)
theory Boot
  imports World_Snapshot Accounts Arena
begin

text \<open>
  The start of the server (\<open>main\<close> of \<open>server/server.go\<close>) up to the point where it listens: the counter of identifiers, the recovery of
  the last snapshot, the templates and the monsters spawned from them. Reading the snapshot and the file of templates is the
  matter of \<open>World_Snapshot\<close> and \<open>Monsters\<close>.
\<close>

definition boot_ids :: "u64 list option \<Rightarrow> Registry \<Rightarrow> Registry" where
  "boot_ids chars r = (case chars of None \<Rightarrow> r | Some ids \<Rightarrow> align_ids ids r)"

definition boot_recover :: "WorldSnapshotData option \<Rightarrow> Game \<Rightarrow> Game" where
  "boot_recover snapshot g = set_reg (snd (RestoreWorldFromSnapshot snapshot (g_reg g))) g"

fun boot_spawn :: "MonsterTemplate list \<Rightarrow> nat \<Rightarrow> Game \<Rightarrow> nat \<times> Game" where
  "boot_spawn [] spawned g = (spawned, g)"
| "boot_spawn (t # ts) spawned g =
     (case SpawnFromDefaultPosition (g_templates g) (t_ID t) (g_reg g) (g_free g) of
        (None, r, fl) \<Rightarrow> boot_spawn ts spawned (g\<lparr>g_reg := r, g_free := fl\<rparr>)
      | (Some e, r, fl) \<Rightarrow> boot_spawn ts (spawned + 1) (g\<lparr>g_reg := r, g_free := fl, g_grid :=
          (case GetPosition r e of None \<Rightarrow> g_grid g | Some pos \<Rightarrow> UpdateEntityPosition e pos (g_grid g))\<rparr>))"

definition boot :: "u64 list option \<Rightarrow> WorldSnapshotData option \<Rightarrow> MonsterTemplate list option \<Rightarrow> Game \<Rightarrow> (nat \<times> Game) option" where
  "boot chars snapshot parsed g =
     (let g1 = boot_recover snapshot (set_reg (boot_ids chars (g_reg g)) g)
      in case LoadMonster parsed (g_templates g1) of
        (None, ts) \<Rightarrow> None
      | (Some templates, ts) \<Rightarrow> Some (boot_spawn templates 0 (g1\<lparr>g_templates := ts\<rparr>)))"

definition fresh_game :: "Game \<Rightarrow> bool" where
  "fresh_game g \<longleftrightarrow> g_reg g = NewRegistry \<and> g_free g = [] \<and> g_grid g = NewGrid \<and> g_templates g = []"

subsection \<open>Every template is spawned\<close>

lemma GetTemplate_stored: "t \<in> set l \<Longrightarrow> GetTemplate (fold (\<lambda>t ts. store_template (t_ID t) t ts) l ts) (t_ID t) \<noteq> None"
proof -
  assume "t \<in> set l"
  then have "find (\<lambda>u. t_ID u = t_ID t) (rev l) \<noteq> None" by (auto simp: find_None_iff)
  then show ?thesis by (auto simp: GetTemplate_def map_of_load split: option.split)
qed

lemma SpawnDefault_some:
  assumes "GetTemplate ts k \<noteq> None"
  obtains e r' fl' t where "SpawnFromDefaultPosition ts k r fl = (Some e, r', fl')" "GetTemplate ts k = Some t"
    "SpawnMonsterFromTemplate ts k (t_MapID t) (t_SpawnX t) (t_SpawnZ t) r fl = (Some e, r', fl')"
  using assms by (cases "reg_NewEntity r fl") (auto simp: SpawnFromDefaultPosition_def SpawnMonsterFromTemplate_def Let_def)

lemma spawn_first:
  assumes "SpawnMonsterFromTemplate ts k m x z r [] = (Some e, r', fl')" and "reg_nextID r < 2 ^ 32 - 1"
  shows "e = mk_entity (ucast (reg_nextID r + 1)) 1" and "reg_nextID r' = reg_nextID r + 1" and "fl' = []"
  using assms NewEntity_fresh [of "\<lparr>nextID = reg_nextID r, recycled = []\<rparr>"]
  by (auto simp: SpawnMonsterFromTemplate_def reg_NewEntity_def Let_def split: option.splits)

definition boot_id :: "nat \<Rightarrow> entity" where "boot_id i = mk_entity (of_nat (Suc i)) 1"

definition spawned_as :: "Game \<Rightarrow> int \<Rightarrow> entity \<Rightarrow> bool" where
  "spawned_as g k e \<longleftrightarrow> (\<exists>t. GetTemplate (g_templates g) k = Some t \<and>
     GetMetadata (g_reg g) e = Some \<lparr>meta_Name = t_Name t, meta_Type = EntityMonster\<rparr> \<and>
     GetPosition (g_reg g) e = Some \<lparr>MapID = t_MapID t, PosX = t_SpawnX t, PosZ = t_SpawnZ t\<rparr> \<and>
     GetStats (g_reg g) e = Some (monster_stats t) \<and> GetAI (g_reg g) e = Some (monster_ai t (t_SpawnX t) (t_SpawnZ t)))"

text \<open>A game in which exactly the first \<open>k\<close> identifiers are in use, and the grid holds every position.\<close>

definition boot_state :: "nat \<Rightarrow> Game \<Rightarrow> bool" where
  "boot_state k g \<longleftrightarrow> game_ok g (boot_id ` {..<k}) (boot_id ` {..<k}) \<and> g_free g = [] \<and> reg_nextID (g_reg g) = of_nat k \<and>
     grid_of (g_grid g) = GetPosition (g_reg g)"

lemma boot_state_room: "boot_state k g \<Longrightarrow> k < 2 ^ 32 - 1 \<Longrightarrow> reg_nextID (g_reg g) < 2 ^ 32 - 1"
  by (auto simp: boot_state_def word_less_nat_alt unat_of_nat)

lemma boot_step:
  assumes st: "boot_state k g" and room: "k < 2 ^ 32 - 1" and known: "GetTemplate (g_templates g) tid \<noteq> None"
  obtains r fl pos h where "SpawnFromDefaultPosition (g_templates g) tid (g_reg g) (g_free g) = (Some (boot_id k), r, fl)"
    "GetPosition r (boot_id k) = Some pos"
    "h = g\<lparr>g_reg := r, g_free := fl, g_grid := UpdateEntityPosition (boot_id k) pos (g_grid g)\<rparr>"
    "boot_state (Suc k) h" "spawned_as h tid (boot_id k)" "g_templates h = g_templates g"
    "\<And>x j. j < k \<Longrightarrow> spawned_as g x (boot_id j) \<Longrightarrow> spawned_as h x (boot_id j)"
proof -
  note small = boot_state_room [OF st room]
  have ok: "game_ok g (boot_id ` {..<k}) (boot_id ` {..<k})" and fl0: "g_free g = []" and nid: "reg_nextID (g_reg g) = of_nat k"
    and grid: "grid_of (g_grid g) = GetPosition (g_reg g)" using st by (auto simp: boot_state_def)
  obtain e r fl t where sp: "SpawnFromDefaultPosition (g_templates g) tid (g_reg g) (g_free g) = (Some e, r, fl)"
    and t: "GetTemplate (g_templates g) tid = Some t"
    and mon: "SpawnMonsterFromTemplate (g_templates g) tid (t_MapID t) (t_SpawnX t) (t_SpawnZ t) (g_reg g) (g_free g) = (Some e, r, fl)"
    using known by (rule SpawnDefault_some)
  have aroom: "alloc_room (g_reg g) (g_free g)" using small by (simp add: alloc_room_def ids_room_def fl0)
  note F = spawn_first [OF mon [unfolded fl0] small]
  have "(of_nat k + 1 :: u64) = of_nat (Suc k)" by simp
  moreover have "ucast (of_nat (Suc k) :: u64) = (of_nat (Suc k) :: u32)"
    using room by (simp only: unsigned_of_nat) (simp add: take_bit_nat_eq_self)
  ultimately have e: "e = boot_id k" unfolding F(1) nid boot_id_def by (simp only:)
  note M = SpawnMonster_ok [OF game_okD(1) [OF ok] aroom mon]
  from M(4) t have get: "GetMetadata r = (GetMetadata (g_reg g))(e \<mapsto> \<lparr>meta_Name = t_Name t, meta_Type = EntityMonster\<rparr>)"
    "GetPosition r = (GetPosition (g_reg g))(e \<mapsto> \<lparr>MapID = t_MapID t, PosX = t_SpawnX t, PosZ = t_SpawnZ t\<rparr>)"
    "GetStats r = (GetStats (g_reg g))(e \<mapsto> monster_stats t)" "GetAI r = (GetAI (g_reg g))(e \<mapsto> monster_ai t (t_SpawnX t) (t_SpawnZ t))"
    by auto
  let ?pos = "\<lparr>MapID = t_MapID t, PosX = t_SpawnX t, PosZ = t_SpawnZ t\<rparr>"
  define h where "h = g\<lparr>g_reg := r, g_free := fl, g_grid := UpdateEntityPosition e ?pos (g_grid g)\<rparr>"
  have ins: "insert e (boot_id ` {..<k}) = boot_id ` {..<Suc k}" by (auto simp: e lessThan_Suc)
  note U = UpdateEntityPosition_refines [OF game_okD(2) [OF ok], of e ?pos]
  have "boot_state (Suc k) h"
    using M(1) U grid get(2) F(2,3) nid by (simp add: boot_state_def game_ok_def h_def ins)
  moreover have "spawned_as h tid e" using t get by (simp add: spawned_as_def h_def)
  moreover have "spawned_as h x (boot_id j)" if "j < k" "spawned_as g x (boot_id j)" for x j
  proof -
    have "boot_id j \<noteq> e" using M(2) that(1) by auto
    with that(2) show ?thesis by (simp add: spawned_as_def h_def get)
  qed
  ultimately show thesis using sp get(2) by (intro that [of r fl ?pos h]) (simp_all add: e [symmetric] h_def)
qed

lemma boot_spawn_all:
  assumes "boot_state k g" and "k + length ts < 2 ^ 32" and "\<forall>t\<in>set ts. GetTemplate (g_templates g) (t_ID t) \<noteq> None"
    and "boot_spawn ts n g = (n', g')"
  shows "n' = n + length ts \<and> boot_state (k + length ts) g' \<and> g_templates g' = g_templates g \<and>
    (\<forall>i<length ts. spawned_as g' (t_ID (ts ! i)) (boot_id (k + i))) \<and> (\<forall>j<k. \<forall>x. spawned_as g x (boot_id j) \<longrightarrow> spawned_as g' x (boot_id j))"
  using assms
proof (induction ts arbitrary: k g n)
  case (Cons t ts)
  then have room: "k < 2 ^ 32 - 1" and known: "GetTemplate (g_templates g) (t_ID t) \<noteq> None" by auto
  obtain r fl pos h where s: "SpawnFromDefaultPosition (g_templates g) (t_ID t) (g_reg g) (g_free g) = (Some (boot_id k), r, fl)"
    "GetPosition r (boot_id k) = Some pos"
    and h: "h = g\<lparr>g_reg := r, g_free := fl, g_grid := UpdateEntityPosition (boot_id k) pos (g_grid g)\<rparr>"
    "boot_state (Suc k) h" "spawned_as h (t_ID t) (boot_id k)" "g_templates h = g_templates g"
    "\<And>x j. j < k \<Longrightarrow> spawned_as g x (boot_id j) \<Longrightarrow> spawned_as h x (boot_id j)"
    by (rule boot_step [OF Cons.prems(1) room known]) blast
  have run: "boot_spawn ts (n + 1) h = (n', g')" using Cons.prems(4) s by (simp add: h(1))
  have all: "\<forall>t\<in>set ts. GetTemplate (g_templates h) (t_ID t) \<noteq> None" using Cons.prems(3) h(4) by simp
  have "Suc k + length ts < 2 ^ 32" using Cons.prems(2) by simp
  note IH = Cons.IH [OF h(2) this all run]
  have "spawned_as g' (t_ID ((t # ts) ! i)) (boot_id (k + i))" if "i < length (t # ts)" for i
    using IH h(3) that by (cases i) auto
  with IH h(4,5) show ?case by (auto simp del: nth_Cons)
qed simp

lemma NewRegistry_nextID: "reg_nextID NewRegistry = 0"
  by (simp add: NewRegistry_def)

subsection \<open>The state the server listens in\<close>

text \<open>C17: Without a database and without a snapshot the boot spawns one monster for each template, in the order of the file, and ends in a
  state in which the invariant of the game holds and the grid agrees with the positions.\<close>

theorem boot_ready:
  assumes fresh: "fresh_game g" and small: "length l < 2 ^ 32"
  shows "\<exists>g'. boot None None (Some l) g = Some (length l, g') \<and>
    game_ok g' (boot_id ` {..<length l}) (boot_id ` {..<length l}) \<and> grid_of (g_grid g') = GetPosition (g_reg g') \<and>
    (\<forall>i<length l. spawned_as g' (t_ID (l ! i)) (boot_id i))"
proof -
  let ?l = "map with_defaults l"
  have id: "t_ID (with_defaults t) = t_ID t" for t by (simp add: with_defaults_def Let_def)
  define ts where "ts = fold (\<lambda>t ts. store_template (t_ID t) t ts) ?l []"
  define g1 where "g1 = g\<lparr>g_templates := ts\<rparr>"
  have same: "set_reg NewRegistry g = g" using fresh by (cases g) (simp add: fresh_game_def)
  have run: "boot None None (Some l) g = Some (boot_spawn ?l 0 g1)"
    using fresh by (simp add: boot_def boot_ids_def boot_recover_def RestoreWorldFromSnapshot_def LoadMonster_def fresh_game_def g1_def ts_def same)
  have "GetPosition NewRegistry = Map.empty" using New_empty by (simp add: fun_eq_iff)
  then have "boot_state 0 g1"
    using fresh alloc_ok_New grid_ok_New by (simp add: boot_state_def game_ok_def g1_def fresh_game_def NewRegistry_nextID)
  moreover have "\<forall>t\<in>set ?l. GetTemplate (g_templates g1) (t_ID t) \<noteq> None"
    using GetTemplate_stored [of _ ?l "[]"] by (simp add: g1_def ts_def)
  moreover obtain n g' where res: "boot_spawn ?l 0 g1 = (n, g')" by (cases "boot_spawn ?l 0 g1")
  ultimately have B: "n = length l \<and> boot_state (length l) g' \<and> (\<forall>i<length l. spawned_as g' (t_ID (?l ! i)) (boot_id i))"
    using boot_spawn_all [of 0 g1 ?l 0 n g'] small by simp
  then have "\<forall>i<length l. spawned_as g' (t_ID (l ! i)) (boot_id i)" by (simp add: id)
  with B show ?thesis unfolding run res by (simp add: boot_state_def)
qed

theorem boot_ready_witness:
  "\<exists>g'. boot None None (Some [slime, slime\<lparr>t_ID := 2\<rparr>])
      (arena\<lparr>g_reg := NewRegistry, g_grid := NewGrid, g_templates := []\<rparr>) = Some (2, g') \<and>
    game_ok g' {mk_entity 1 1, mk_entity 2 1} {mk_entity 1 1, mk_entity 2 1} \<and> spawned_as g' 2 (mk_entity 2 1)"
proof -
  let ?g = "arena\<lparr>g_reg := NewRegistry, g_grid := NewGrid, g_templates := []\<rparr>"
  let ?l = "[slime, slime\<lparr>t_ID := 2\<rparr>]"
  have ids: "boot_id ` {..<length ?l} = {mk_entity 1 1, mk_entity 2 1}" by (auto simp: boot_id_def lessThan_Suc)
  have "fresh_game ?g" "length ?l < 2 ^ 32" by (simp_all add: fresh_game_def arena_def)
  from boot_ready [OF this] obtain g' where R: "boot None None (Some ?l) ?g = Some (length ?l, g')"
    "game_ok g' (boot_id ` {..<length ?l}) (boot_id ` {..<length ?l})" "\<forall>i<length ?l. spawned_as g' (t_ID (?l ! i)) (boot_id i)" by blast
  have "1 < length ?l" by simp
  with R(3) have "spawned_as g' (t_ID (?l ! 1)) (boot_id 1)" by blast
  with R(1,2) show ?thesis unfolding ids by (auto simp: boot_id_def)
qed

text \<open>What a snapshot restores is not entered into the grid.\<close>

lemma recovered_not_in_grid: "g_grid (boot_recover snapshot g) = g_grid g"
  by (simp add: boot_recover_def)

end
