(* ===== verification/Eventbus.thy ===== *)
theory Eventbus
  imports Transitions "HOL-Library.Multiset" "HOL-Library.Sublist"
begin

text \<open>
  The event bus (\<open>server/peakgo/eventbus/eventbus.go\<close>): topics with subscribers, each with a bounded channel and a goroutine that
  handles its events, publishers without a lock, and the shutdown. A step is one atomic action of a publisher, a
  worker or \<open>Drain\<close>, in any interleaving. The type of the events is a parameter, so the model is that of \<open>Bus\<close> and of
  \<open>TypedBus\<close>, whose code is the same. A handler is a step that begins and ends; what it does is its own matter.
\<close>

subsection \<open>State\<close>

definition defaultChannelSize :: nat where "defaultChannelSize = 64"

record 'e subscriber =
  su_ch :: "'e list"
  su_cap :: nat
  su_closed :: bool
  su_running :: "'e option"
  su_handled :: "'e list"
  su_exited :: bool

record 'e Bus =
  subscribersMap :: "(string \<times> nat list) list"
  bus_subs :: "'e subscriber list"
  bus_closed :: bool

definition NewBus :: "'e Bus" where "NewBus = \<lparr>subscribersMap = [], bus_subs = [], bus_closed = False\<rparr>"

definition loadSubscribers :: "'e Bus \<Rightarrow> string \<Rightarrow> nat list" where
  "loadSubscribers b t = (case map_of (subscribersMap b) t of None \<Rightarrow> [] | Some l \<Rightarrow> l)"

fun add_sub :: "string \<Rightarrow> nat \<Rightarrow> (string \<times> nat list) list \<Rightarrow> (string \<times> nat list) list" where
  "add_sub t i [] = [(t, [i])]"
| "add_sub t i ((k, l) # m) = (if k = t then (k, l @ [i]) # m else (k, l) # add_sub t i m)"

definition all_subs :: "'e Bus \<Rightarrow> nat list" where "all_subs b = concat (map snd (subscribersMap b))"

subsection \<open>Operations\<close>

definition Subscribe :: "string \<Rightarrow> int \<Rightarrow> 'e Bus \<Rightarrow> 'e Bus" where
  "Subscribe t channelSize b =
     (let size = (if channelSize \<le> 0 then defaultChannelSize else nat channelSize)
      in if bus_closed b then b
         else b\<lparr>bus_subs := bus_subs b @ [\<lparr>su_ch = [], su_cap = size, su_closed = False, su_running = None, su_handled = [], su_exited = False\<rparr>],
           subscribersMap := add_sub t (length (bus_subs b)) (subscribersMap b)\<rparr>)"

definition set_sub :: "nat \<Rightarrow> ('e subscriber \<Rightarrow> 'e subscriber) \<Rightarrow> 'e Bus \<Rightarrow> 'e Bus" where
  "set_sub i f b = b\<lparr>bus_subs := (bus_subs b)[i := f (bus_subs b ! i)]\<rparr>"

text \<open>The non-blocking send; on a closed channel it panics.\<close>

definition send_event :: "'e \<Rightarrow> 'e subscriber \<Rightarrow> 'e subscriber option" where
  "send_event e s = (if su_closed s then None else if length (su_ch s) < su_cap s then Some (s\<lparr>su_ch := su_ch s @ [e]\<rparr>) else Some s)"

text \<open>The handlers that a synchronous publication calls, in order.\<close>

definition PublishSync :: "string \<Rightarrow> 'e \<Rightarrow> 'e Bus \<Rightarrow> (nat \<times> 'e) list" where
  "PublishSync t e b = (if bus_closed b then [] else map (\<lambda>i. (i, e)) (loadSubscribers b t))"

definition TopicCount :: "'e Bus \<Rightarrow> nat" where "TopicCount b = length (subscribersMap b)"

definition SubscriberCount :: "'e Bus \<Rightarrow> nat" where "SubscriberCount b = sum_list (map (\<lambda>(t, l). length l) (subscribersMap b))"

text \<open>
  A publisher has read the flag, or has read the subscribers and has still to send to some of them. \<open>Drain\<close> closes the channels in
  any order, purges the map and waits for the workers.
\<close>

datatype 'e publisher = Checked string 'e | Sending 'e "nat list"

datatype drain_state = Serving | Closing "nat list" | Waiting | Drained

text \<open>
  The last three fields are history: the publications that found the bus open, the topic of each subscriber, and the events its
  channel has taken.
\<close>

record 'e bus_sys =
  bs_bus :: "'e Bus"
  bs_pubs :: "'e publisher list"
  bs_drain :: drain_state
  bs_published :: "(string \<times> 'e) list"
  bs_topic :: "nat \<Rightarrow> string"
  bs_taken :: "nat \<Rightarrow> 'e list"

definition bus_start :: "'e bus_sys" where
  "bus_start = \<lparr>bs_bus = NewBus, bs_pubs = [], bs_drain = Serving, bs_published = [], bs_topic = (\<lambda>_. ''''), bs_taken = (\<lambda>_. [])\<rparr>"

definition sub_take :: "'e subscriber \<Rightarrow> 'e subscriber option" where
  "sub_take s = (case (su_running s, su_ch s) of
     (None, e # es) \<Rightarrow> if su_exited s then None else Some (s\<lparr>su_ch := es, su_running := Some e\<rparr>)
   | _ \<Rightarrow> None)"

definition sub_handle :: "'e subscriber \<Rightarrow> 'e subscriber option" where
  "sub_handle s = (case su_running s of None \<Rightarrow> None | Some e \<Rightarrow> Some (s\<lparr>su_handled := su_handled s @ [e], su_running := None\<rparr>))"

definition sub_exit :: "'e subscriber \<Rightarrow> 'e subscriber option" where
  "sub_exit s = (if su_running s = None \<and> su_ch s = [] \<and> su_closed s \<and> \<not> su_exited s then Some (s\<lparr>su_exited := True\<rparr>) else None)"

inductive bus_step :: "nat \<Rightarrow> 'e bus_sys \<Rightarrow> 'e bus_sys \<Rightarrow> bool" for k where
  subscribe: "(\<forall>ids. bs_drain s \<noteq> Closing ids) \<Longrightarrow>
    bus_step k s (s\<lparr>bs_bus := Subscribe t n (bs_bus s),
      bs_topic := (if bus_closed (bs_bus s) then bs_topic s else (bs_topic s)(length (bus_subs (bs_bus s)) := t))\<rparr>)"
| publish: "\<not> bus_closed (bs_bus s) \<Longrightarrow> length (bs_pubs s) < k \<Longrightarrow>
    bus_step k s (s\<lparr>bs_pubs := bs_pubs s @ [Checked t e], bs_published := bs_published s @ [(t, e)]\<rparr>)"
| load: "bs_pubs s = ps @ Checked t e # qs \<Longrightarrow>
    bus_step k s (s\<lparr>bs_pubs := ps @ Sending e (loadSubscribers (bs_bus s) t) # qs\<rparr>)"
| send: "bs_pubs s = ps @ Sending e (i # ids) # qs \<Longrightarrow> send_event e (bus_subs (bs_bus s) ! i) = Some s' \<Longrightarrow>
    bus_step k s (s\<lparr>bs_pubs := ps @ Sending e ids # qs, bs_bus := set_sub i (\<lambda>_. s') (bs_bus s),
      bs_taken := (if su_ch s' = su_ch (bus_subs (bs_bus s) ! i) then bs_taken s else (bs_taken s)(i := bs_taken s i @ [e]))\<rparr>)"
| panic: "bs_pubs s = ps @ Sending e (i # ids) # qs \<Longrightarrow> send_event e (bus_subs (bs_bus s) ! i) = None \<Longrightarrow>
    bus_step k s (s\<lparr>bs_pubs := ps @ qs\<rparr>)"
| finish: "bs_pubs s = ps @ Sending e [] # qs \<Longrightarrow> bus_step k s (s\<lparr>bs_pubs := ps @ qs\<rparr>)"
| worker: "i < length (bus_subs (bs_bus s)) \<Longrightarrow> act \<in> {sub_take, sub_handle, sub_exit} \<Longrightarrow>
    act (bus_subs (bs_bus s) ! i) = Some s' \<Longrightarrow> bus_step k s (s\<lparr>bs_bus := set_sub i (\<lambda>_. s') (bs_bus s)\<rparr>)"
| drain: "\<not> bus_closed (bs_bus s) \<Longrightarrow> mset ids = mset (all_subs (bs_bus s)) \<Longrightarrow>
    bus_step k s (s\<lparr>bs_bus := (bs_bus s)\<lparr>bus_closed := True\<rparr>, bs_drain := Closing ids\<rparr>)"
| close: "bs_drain s = Closing (i # ids) \<Longrightarrow>
    bus_step k s (s\<lparr>bs_bus := set_sub i (\<lambda>u. u\<lparr>su_closed := True\<rparr>) (bs_bus s), bs_drain := Closing ids\<rparr>)"
| purge: "bs_drain s = Closing [] \<Longrightarrow> bus_step k s (s\<lparr>bs_bus := (bs_bus s)\<lparr>subscribersMap := []\<rparr>, bs_drain := Waiting\<rparr>)"
| wait: "bs_drain s = Waiting \<Longrightarrow> \<forall>u\<in>set (bus_subs (bs_bus s)). su_exited u \<Longrightarrow> bus_step k s (s\<lparr>bs_drain := Drained\<rparr>)"

inductive bus_steps :: "nat \<Rightarrow> 'e bus_sys \<Rightarrow> 'e bus_sys \<Rightarrow> bool" for k where
  bus_none: "bus_steps k s s"
| bus_more: "bus_steps k s t \<Longrightarrow> bus_step k t u \<Longrightarrow> bus_steps k s u"

inductive_cases bus_stepE: "bus_step k s s'"

subsection \<open>The channels\<close>

lemma set_sub_simps [simp]:
  "bus_closed (set_sub i f b) = bus_closed b" "subscribersMap (set_sub i f b) = subscribersMap b"
  "length (bus_subs (set_sub i f b)) = length (bus_subs b)" "loadSubscribers (set_sub i f b) = loadSubscribers b"
  "all_subs (set_sub i f b) = all_subs b"
  "j < length (bus_subs b) \<Longrightarrow> bus_subs (set_sub i f b) ! j = (if j = i then f (bus_subs b ! i) else bus_subs b ! j)"
  by (auto simp: set_sub_def loadSubscribers_def all_subs_def fun_eq_iff nth_list_update)

lemma Subscribe_simps [simp]:
  "bus_closed (Subscribe t n b) = bus_closed b"
  "length (bus_subs (Subscribe t n b)) = (if bus_closed b then length (bus_subs b) else Suc (length (bus_subs b)))"
  "j < length (bus_subs b) \<Longrightarrow> bus_subs (Subscribe t n b) ! j = bus_subs b ! j"
  "\<not> bus_closed b \<Longrightarrow> bus_subs (Subscribe t n b) ! length (bus_subs b) =
     \<lparr>su_ch = [], su_cap = (if n \<le> 0 then defaultChannelSize else nat n), su_closed = False, su_running = None, su_handled = [], su_exited = False\<rparr>"
  by (simp_all add: Subscribe_def Let_def nth_append)

lemma mset_add_sub: "mset (concat (map snd (add_sub t i m))) = add_mset i (mset (concat (map snd m)))"
  by (induction t i m rule: add_sub.induct) auto

lemma add_sub_entries: "(t', l) \<in> set (add_sub t i m) \<Longrightarrow> j \<in> set l \<Longrightarrow> (j = i \<and> t' = t) \<or> (\<exists>l'. (t', l') \<in> set m \<and> j \<in> set l')"
  by (induction t i m rule: add_sub.induct) (auto split: if_splits)

text \<open>The map names every subscriber once, under its topic.\<close>

definition map_inv :: "'e bus_sys \<Rightarrow> bool" where
  "map_inv s \<longleftrightarrow> (let b = bs_bus s in
     distinct (all_subs b) \<and> set (all_subs b) \<subseteq> {..<length (bus_subs b)} \<and>
     (\<forall>(t, l)\<in>set (subscribersMap b). \<forall>i\<in>set l. bs_topic s i = t) \<and>
     (bus_closed b \<longleftrightarrow> bs_drain s \<noteq> Serving) \<and>
     (bs_drain s = Serving \<longrightarrow> set (all_subs b) = {..<length (bus_subs b)}))"

lemma load_in_map: "i \<in> set (loadSubscribers b t) \<Longrightarrow> \<exists>l. (t, l) \<in> set (subscribersMap b) \<and> i \<in> set l"
  by (cases "map_of (subscribersMap b) t") (auto simp: loadSubscribers_def dest: map_of_SomeD)

lemma load_topic: "map_inv s \<Longrightarrow> i \<in> set (loadSubscribers (bs_bus s) t) \<Longrightarrow> bs_topic s i = t \<and> i < length (bus_subs (bs_bus s))"
  by (drule load_in_map) (fastforce simp: map_inv_def all_subs_def Let_def)

lemma distinct_concat_part: "distinct (concat ls) \<Longrightarrow> l \<in> set ls \<Longrightarrow> distinct l"
  by (induction ls) auto

lemma load_distinct: "map_inv s \<Longrightarrow> distinct (loadSubscribers (bs_bus s) t)"
  using distinct_concat_part [of "map snd (subscribersMap (bs_bus s))"]
  by (force simp: map_inv_def loadSubscribers_def all_subs_def Let_def dest!: map_of_SomeD split: option.split)

lemma map_inv_Subscribe:
  assumes inv: "map_inv s" and serving: "\<not> bus_closed (bs_bus s)"
  shows "map_inv (s\<lparr>bs_bus := Subscribe t n (bs_bus s), bs_topic := (bs_topic s)(length (bus_subs (bs_bus s)) := t)\<rparr>)"
proof -
  let ?b = "bs_bus s" and ?n = "length (bus_subs (bs_bus s))"
  let ?b' = "Subscribe t n ?b"
  have m: "mset (all_subs ?b') = add_mset ?n (mset (all_subs ?b))"
    using serving by (simp add: all_subs_def Subscribe_def mset_add_sub)
  have old: "?n \<notin> set (all_subs ?b)" using inv by (auto simp: map_inv_def Let_def)
  have dist: "distinct (all_subs ?b')"
    using m old inv by (metis (no_types, lifting) distinct.simps(2) map_inv_def mset.simps(2) mset_eq_imp_distinct_iff)
  have ids: "set (all_subs ?b') = insert ?n (set (all_subs ?b))" using arg_cong [OF m, of set_mset] by simp
  have topics: "\<forall>(t', l)\<in>set (subscribersMap ?b'). \<forall>i\<in>set l. ((bs_topic s)(?n := t)) i = t'"
  proof (intro ballI, clarify)
    fix t' l i assume "(t', l) \<in> set (subscribersMap ?b')" "i \<in> set l"
    then have "(i = ?n \<and> t' = t) \<or> (\<exists>l'. (t', l') \<in> set (subscribersMap ?b) \<and> i \<in> set l')"
      using serving by (auto simp: Subscribe_def dest: add_sub_entries)
    then show "((bs_topic s)(?n := t)) i = t'"
    proof
      assume "\<exists>l'. (t', l') \<in> set (subscribersMap ?b) \<and> i \<in> set l'"
      then obtain l' where l': "(t', l') \<in> set (subscribersMap ?b)" "i \<in> set l'" by blast
      then have "i \<in> set (all_subs ?b)" by (force simp: all_subs_def)
      with old have "i \<noteq> ?n" by blast
      with l' inv show ?thesis by (auto simp: map_inv_def Let_def)
    qed simp
  qed
  show ?thesis
    using inv serving dist topics unfolding map_inv_def Let_def by (auto simp add: ids lessThan_Suc simp del: fun_upd_apply)
qed

lemma map_inv_step: "bus_step k s s' \<Longrightarrow> map_inv s \<Longrightarrow> map_inv s'"
proof (induction rule: bus_step.induct)
  case (subscribe s t n)
  then show ?case
    using map_inv_Subscribe [of s t n] by (cases "bus_closed (bs_bus s)") (simp_all add: Subscribe_def)
next
  case (purge s)
  then show ?case by (simp add: map_inv_def all_subs_def Let_def)
qed (auto simp: map_inv_def Let_def all_subs_def)

text \<open>Publishers send to existing subscribers of one topic, to each at most once.\<close>

definition pubs_inv :: "'e bus_sys \<Rightarrow> bool" where
  "pubs_inv s \<longleftrightarrow> (\<forall>p\<in>set (bs_pubs s). case p of Checked t e \<Rightarrow> True
     | Sending e ids \<Rightarrow> distinct ids \<and> set ids \<subseteq> {..<length (bus_subs (bs_bus s))})"

lemma pubs_inv_step:
  assumes "bus_step k s s'" and "map_inv s" and "pubs_inv s"
  shows "pubs_inv s'"
  using assms
proof (induction rule: bus_step.induct)
  case (subscribe s t n)
  then show ?case by (fastforce simp: pubs_inv_def split: publisher.splits)
next
  case (load s ps t e qs)
  then show ?case using load_topic [OF load(2)] load_distinct [OF load(2)] by (auto simp: pubs_inv_def split: publisher.splits)
qed (auto simp: pubs_inv_def split: publisher.splits)

text \<open>A channel holds what it took and nobody handles yet, and never more than its capacity.\<close>

definition chan_ok :: "'e list \<Rightarrow> 'e subscriber \<Rightarrow> bool" where
  "chan_ok taken u \<longleftrightarrow> taken = su_handled u @ (case su_running u of None \<Rightarrow> [] | Some e \<Rightarrow> [e]) @ su_ch u \<and> length (su_ch u) \<le> su_cap u \<and>
     (su_exited u \<longrightarrow> su_closed u \<and> su_ch u = [] \<and> su_running u = None)"

definition chans_inv :: "'e bus_sys \<Rightarrow> bool" where
  "chans_inv s \<longleftrightarrow> (\<forall>i<length (bus_subs (bs_bus s)). chan_ok (bs_taken s i) (bus_subs (bs_bus s) ! i)) \<and>
     (\<forall>i\<ge>length (bus_subs (bs_bus s)). bs_taken s i = [])"

lemma chan_ok_acts:
  "send_event e u = Some u' \<Longrightarrow> chan_ok l u \<Longrightarrow> chan_ok (if su_ch u' = su_ch u then l else l @ [e]) u'"
  "sub_take u = Some u' \<Longrightarrow> chan_ok l u \<Longrightarrow> chan_ok l u'"
  "sub_handle u = Some u' \<Longrightarrow> chan_ok l u \<Longrightarrow> chan_ok l u'"
  "sub_exit u = Some u' \<Longrightarrow> chan_ok l u \<Longrightarrow> chan_ok l u'"
  by (auto simp: chan_ok_def send_event_def sub_take_def sub_handle_def sub_exit_def split: if_splits option.splits list.splits)

lemma chans_inv_step:
  assumes "bus_step k s s'" and "pubs_inv s" and "chans_inv s"
  shows "chans_inv s'"
  using assms
proof (induction rule: bus_step.induct)
  case (subscribe s t n)
  then show ?case by (auto simp: chans_inv_def less_Suc_eq chan_ok_def)
next
  case (send s ps e i ids qs u)
  then have i: "i < length (bus_subs (bs_bus s))" by (auto simp: pubs_inv_def)
  then have "chan_ok (bs_taken s i) (bus_subs (bs_bus s) ! i)" using send(4) by (simp add: chans_inv_def)
  from chan_ok_acts(1) [OF send(2) this] send(4) i show ?case by (auto simp: chans_inv_def)
next
  case (worker i s act u)
  then have "chan_ok (bs_taken s i) (bus_subs (bs_bus s) ! i)" by (simp add: chans_inv_def)
  with chan_ok_acts(2-4) worker(2,3) have "chan_ok (bs_taken s i) u" by blast
  with worker show ?case by (auto simp: chans_inv_def)
next
  case (close s i ids)
  then show ?case by (cases "i < length (bus_subs (bs_bus s))") (auto simp: chans_inv_def chan_ok_def set_sub_def nth_list_update)
qed (auto simp: chans_inv_def)

text \<open>Every publication reaches a channel at most once.\<close>

definition pending :: "(nat \<Rightarrow> string) \<Rightarrow> nat \<Rightarrow> 'e \<Rightarrow> 'e publisher \<Rightarrow> bool" where
  "pending topic i e p = (case p of Checked t e' \<Rightarrow> t = topic i \<and> e' = e | Sending e' ids \<Rightarrow> e' = e \<and> i \<in> set ids)"

definition once_inv :: "'e bus_sys \<Rightarrow> bool" where
  "once_inv s \<longleftrightarrow> (\<forall>i<length (bus_subs (bs_bus s)). \<forall>e.
       count_list (bs_taken s i) e + length (filter (pending (bs_topic s) i e) (bs_pubs s)) \<le> count_list (bs_published s) (bs_topic s i, e)) \<and>
     (\<forall>t e. length (filter (\<lambda>p. p = Checked t e) (bs_pubs s)) \<le> count_list (bs_published s) (t, e))"

lemma once_inv_pubs:
  assumes "once_inv s" and "\<And>i e. length (filter (pending (bs_topic s) i e) ps) \<le> length (filter (pending (bs_topic s) i e) (bs_pubs s))"
    and "\<And>t e. length (filter (\<lambda>p. p = Checked t e) ps) \<le> length (filter (\<lambda>p. p = Checked t e) (bs_pubs s))"
  shows "once_inv (s\<lparr>bs_pubs := ps\<rparr>)"
  using assms unfolding once_inv_def by simp (meson add_left_mono order_trans)

lemma once_inv_Subscribe:
  assumes "pubs_inv s" and "chans_inv s" and inv: "once_inv s" and serving: "\<not> bus_closed (bs_bus s)"
  shows "once_inv (s\<lparr>bs_bus := Subscribe t n (bs_bus s), bs_topic := (bs_topic s)(length (bus_subs (bs_bus s)) := t)\<rparr>)"
proof -
  let ?n = "length (bus_subs (bs_bus s))"
  define topic where "topic = (bs_topic s)(?n := t)"
  have new: "filter (pending topic ?n e) (bs_pubs s) = filter (\<lambda>p. p = Checked t e) (bs_pubs s)" for e
    using assms(1) by (intro filter_cong) (auto simp: topic_def pending_def pubs_inv_def split: publisher.splits)
  have old: "pending topic i e = pending (bs_topic s) i e" "topic i = bs_topic s i" if "i < ?n" for i e
    using that by (auto simp: topic_def pending_def fun_eq_iff split: publisher.split)
  have none: "bs_taken s ?n = []" and "topic ?n = t" using assms(2) by (simp_all add: chans_inv_def topic_def)
  have "count_list (bs_taken s i) e + length (filter (pending topic i e) (bs_pubs s)) \<le> count_list (bs_published s) (topic i, e)"
    if "i < Suc ?n" for i e
  proof (cases "i = ?n")
    case True
    then show ?thesis using inv by (simp add: none new \<open>topic ?n = t\<close> once_inv_def)
  next
    case False
    then show ?thesis using inv that by (simp add: old once_inv_def)
  qed
  then show ?thesis using inv serving unfolding topic_def [symmetric] by (simp add: once_inv_def)
qed

lemma once_inv_step:
  assumes "bus_step k s s'" and "map_inv s" and "pubs_inv s" and "chans_inv s" and "once_inv s"
  shows "once_inv s'"
  using assms
proof (induction rule: bus_step.induct)
  case (subscribe s t n)
  then show ?case
    using once_inv_Subscribe [OF subscribe(3-5), of t n] by (cases "bus_closed (bs_bus s)") (simp_all add: Subscribe_def)
next
  case (publish s t e)
  then show ?case by (auto simp: once_inv_def pending_def)
next
  case (load s ps t e qs)
  have "pending (bs_topic s) i e' (Sending e (loadSubscribers (bs_bus s) t)) \<Longrightarrow> pending (bs_topic s) i e' (Checked t e)" for i e'
    using load_topic [OF load(2)] by (auto simp: pending_def)
  then show ?case by (intro once_inv_pubs [OF load(5)]) (simp_all add: load(1))
next
  case (send s ps e i ids qs u)
  let ?s = "s\<lparr>bs_pubs := ps @ Sending e ids # qs\<rparr>"
  have "i \<notin> set ids" and i: "i < length (bus_subs (bs_bus s))" using send(1,4) by (auto simp: pubs_inv_def)
  then have no: "\<not> pending (bs_topic s) i e (Sending e ids)" "pending (bs_topic s) i e (Sending e (i # ids))" by (auto simp: pending_def)
  have mono: "pending (bs_topic s) j e' (Sending e ids) \<Longrightarrow> pending (bs_topic s) j e' (Sending e (i # ids))" for j e'
    by (auto simp: pending_def)
  have le: "length (filter (pending (bs_topic s) j e') (bs_pubs ?s)) + (if j = i \<and> e' = e then 1 else 0)
      \<le> length (filter (pending (bs_topic s) j e') (bs_pubs s))" for j e'
    using mono no by (cases "j = i \<and> e' = e") (auto simp: send(1))
  have "once_inv ?s" by (intro once_inv_pubs [OF send(6)]) (use mono in \<open>auto simp: send(1)\<close>)
  have more: "count_list (((bs_taken s)(i := bs_taken s i @ [e])) j) e' + length (filter (pending (bs_topic s) j e') (bs_pubs ?s))
      \<le> count_list (bs_published s) (bs_topic s j, e')" if "j < length (bus_subs (bs_bus s))" for j e'
  proof -
    have "count_list (bs_taken s j) e' + length (filter (pending (bs_topic s) j e') (bs_pubs s)) \<le> count_list (bs_published s) (bs_topic s j, e')"
      using send(6) that by (simp add: once_inv_def)
    with le [of j e'] show ?thesis by auto
  qed
  show ?case
  proof (cases "su_ch u = su_ch (bus_subs (bs_bus s) ! i)")
    case True
    then show ?thesis using \<open>once_inv ?s\<close> by (simp add: once_inv_def)
  next
    case False
    then show ?thesis using \<open>once_inv ?s\<close> more unfolding once_inv_def by (simp del: fun_upd_apply)
  qed
next
  case (panic s ps e i ids qs)
  show ?case by (intro once_inv_pubs [OF panic(6)]) (simp_all add: panic(1))
next
  case (finish s ps e qs)
  show ?case by (intro once_inv_pubs [OF finish(5)]) (simp_all add: finish(1))
qed (simp_all add: once_inv_def)

subsection \<open>The shutdown\<close>

definition drain_inv :: "'e bus_sys \<Rightarrow> bool" where
  "drain_inv s \<longleftrightarrow> (case bs_drain s of
     Serving \<Rightarrow> \<forall>i<length (bus_subs (bs_bus s)). \<not> su_closed (bus_subs (bs_bus s) ! i)
   | Closing ids \<Rightarrow> \<forall>i<length (bus_subs (bs_bus s)). su_closed (bus_subs (bs_bus s) ! i) \<or> i \<in> set ids
   | Waiting \<Rightarrow> \<forall>i<length (bus_subs (bs_bus s)). su_closed (bus_subs (bs_bus s) ! i)
   | Drained \<Rightarrow> \<forall>i<length (bus_subs (bs_bus s)). su_closed (bus_subs (bs_bus s) ! i) \<and> su_exited (bus_subs (bs_bus s) ! i))"

lemma act_closed:
  "send_event e u = Some u' \<Longrightarrow> su_closed u' = su_closed u \<and> su_exited u' = su_exited u"
  "act \<in> {sub_take, sub_handle, sub_exit} \<Longrightarrow> act u = Some u' \<Longrightarrow> su_closed u' = su_closed u \<and> (su_exited u \<longrightarrow> su_exited u')"
  by (auto simp: send_event_def sub_take_def sub_handle_def sub_exit_def split: if_splits option.splits list.splits)

lemma drain_inv_sub:
  assumes "drain_inv s" and "i < length (bus_subs (bs_bus s)) \<Longrightarrow>
    su_closed u' = su_closed (bus_subs (bs_bus s) ! i) \<and> (su_exited (bus_subs (bs_bus s) ! i) \<longrightarrow> su_exited u')"
  shows "drain_inv (s\<lparr>bs_pubs := ps, bs_bus := set_sub i (\<lambda>_. u') (bs_bus s), bs_taken := l\<rparr>)"
  using assms by (auto simp: drain_inv_def split: drain_state.splits)

lemma drain_inv_step:
  assumes "bus_step k s s'" and "map_inv s" and "drain_inv s"
  shows "drain_inv s'"
  using assms
proof (induction rule: bus_step.induct)
  case (subscribe s t n)
  then show ?case
    by (cases "bus_closed (bs_bus s)")
      (auto simp: drain_inv_def map_inv_def Let_def Subscribe_def nth_append less_Suc_eq split: drain_state.splits)
next
  case (send s ps e i ids qs u)
  from act_closed(1) [OF send(2)] show ?case by (intro drain_inv_sub [OF send(4)]) simp
next
  case (worker i s act u)
  from drain_inv_sub [OF worker(5), where i = i and u' = u and ps = "bs_pubs s" and l = "bs_taken s"] act_closed(2) [OF worker(2,3)]
  show ?case by simp
next
  case (drain s ids)
  then have "set ids = {..<length (bus_subs (bs_bus s))}"
    by (metis (no_types, lifting) map_inv_def set_mset_mset)
  then show ?case by (auto simp: drain_inv_def)
next
  case (close s i ids)
  then show ?case by (cases "i < length (bus_subs (bs_bus s))") (auto simp: drain_inv_def set_sub_def nth_list_update)
next
  case (wait s)
  then show ?case by (auto simp: drain_inv_def)
qed (auto simp: drain_inv_def split: drain_state.splits)

definition bus_inv :: "'e bus_sys \<Rightarrow> bool" where
  "bus_inv s \<longleftrightarrow> map_inv s \<and> pubs_inv s \<and> chans_inv s \<and> once_inv s \<and> drain_inv s"

lemma bus_inv_step: "bus_step k s s' \<Longrightarrow> bus_inv s \<Longrightarrow> bus_inv s'"
  unfolding bus_inv_def by (blast intro: map_inv_step pubs_inv_step chans_inv_step once_inv_step drain_inv_step)

lemma bus_inv_start: "bus_inv bus_start"
  by (simp add: bus_inv_def bus_start_def NewBus_def map_inv_def pubs_inv_def chans_inv_def once_inv_def drain_inv_def all_subs_def)

lemma bus_steps_star: "bus_steps k s t \<Longrightarrow> (bus_step k)\<^sup>*\<^sup>* s t"
  by (induction rule: bus_steps.induct) auto

interpretation bus: kept "bus_step k" "bus_steps k" bus_inv for k
  by unfold_locales (auto intro: bus_steps_star bus_inv_step)

lemma bus_reach_inv: "bus_steps k bus_start s \<Longrightarrow> bus_inv s"
  by (rule bus.reach [OF _ bus_inv_start])

subsection \<open>One publisher at a time: the order of publication\<close>

definition evs :: "string \<Rightarrow> (string \<times> 'e) list \<Rightarrow> 'e list" where "evs t p = map snd (filter (\<lambda>(t', e). t' = t) p)"

lemma evs_snoc: "evs t (p @ [(t', e)]) = evs t p @ (if t' = t then [e] else [])"
  by (simp add: evs_def)

lemma subseq_evs: "subseq l (evs t p) \<Longrightarrow> subseq l (evs t (p @ [x]))"
  by (cases x) (auto simp: evs_snoc intro: subseq_order.trans)

lemma count_evs: "count_list (evs t p) e = count_list p (t, e)"
  by (induction p) (auto simp: evs_def)

definition fifo_inv :: "'e bus_sys \<Rightarrow> bool" where
  "fifo_inv s \<longleftrightarrow> (let n = length (bus_subs (bs_bus s)); ok = (\<lambda>h i. subseq (bs_taken s i) (evs (bs_topic s i) h)) in
     (bs_pubs s = [] \<and> (\<forall>i<n. ok (bs_published s) i)) \<or>
     (\<exists>h t e. bs_pubs s = [Checked t e] \<and> bs_published s = h @ [(t, e)] \<and> (\<forall>i<n. ok h i)) \<or>
     (\<exists>h t e ids. bs_pubs s = [Sending e ids] \<and> bs_published s = h @ [(t, e)] \<and>
        (\<forall>i<n. (i \<in> set ids \<longrightarrow> bs_topic s i = t \<and> ok h i) \<and> ok (bs_published s) i)))"

lemma fifo_inv_all:
  "fifo_inv s \<Longrightarrow> i < length (bus_subs (bs_bus s)) \<Longrightarrow> subseq (bs_taken s i) (evs (bs_topic s i) (bs_published s))"
  by (auto simp: fifo_inv_def Let_def subseq_evs)

lemma fifo_inv_one: "fifo_inv s \<Longrightarrow> bs_pubs s = ps @ x # qs \<Longrightarrow> ps = [] \<and> qs = []"
  by (cases ps; cases qs) (auto simp: fifo_inv_def Let_def)

lemma fifo_inv_Subscribe:
  assumes inv: "fifo_inv s" "pubs_inv s" "chans_inv s" and serving: "\<not> bus_closed (bs_bus s)"
  shows "fifo_inv (s\<lparr>bs_bus := Subscribe t n (bs_bus s), bs_topic := (bs_topic s)(length (bus_subs (bs_bus s)) := t)\<rparr>)"
proof -
  let ?n = "length (bus_subs (bs_bus s))"
  have none: "bs_taken s ?n = []" using inv(3) by (simp add: chans_inv_def)
  have fresh: "bs_pubs s = [Sending e ids] \<Longrightarrow> ?n \<notin> set ids" for e ids using inv(2) by (auto simp: pubs_inv_def)
  show ?thesis using inv(1) serving none fresh unfolding fifo_inv_def Let_def
    by (elim disjE) (simp_all add: less_Suc_eq, blast+)
qed

lemma fifo_inv_step:
  assumes "bus_step (Suc 0) s s'" and "map_inv s" and "pubs_inv s" and "chans_inv s" and "fifo_inv s"
  shows "fifo_inv s'"
  using assms
proof (induction rule: bus_step.induct)
  case (subscribe s t n)
  then show ?case
    using fifo_inv_Subscribe [OF subscribe(5,3,4), of t n] by (cases "bus_closed (bs_bus s)") (simp_all add: Subscribe_def)
next
  case (publish s t e)
  then show ?case by (auto simp: fifo_inv_def Let_def)
next
  case (load s ps t e qs)
  have one: "ps = [] \<and> qs = []" by (rule fifo_inv_one [OF load(5,1)])
  with load(1,5) obtain h where h: "bs_published s = h @ [(t, e)]"
    "\<forall>i<length (bus_subs (bs_bus s)). subseq (bs_taken s i) (evs (bs_topic s i) h)" by (auto simp: fifo_inv_def Let_def)
  with one load_topic [OF load(2)] show ?case by (auto simp: fifo_inv_def Let_def subseq_evs)
next
  case (send s ps e i ids qs u)
  have one: "ps = [] \<and> qs = []" by (rule fifo_inv_one [OF send(6,1)])
  have i: "i < length (bus_subs (bs_bus s))" "i \<notin> set ids" using send(1,4) by (auto simp: pubs_inv_def)
  have "\<exists>h t. bs_published s = h @ [(t, e)] \<and>
    (\<forall>j<length (bus_subs (bs_bus s)). (j \<in> set (i # ids) \<longrightarrow> bs_topic s j = t \<and> subseq (bs_taken s j) (evs (bs_topic s j) h)) \<and>
          subseq (bs_taken s j) (evs (bs_topic s j) (bs_published s)))"
    using send(6) one unfolding fifo_inv_def Let_def send(1) by (simp del: set_simps)
  then obtain h t where h: "bs_published s = h @ [(t, e)]"
    "\<forall>j<length (bus_subs (bs_bus s)). (j \<in> set (i # ids) \<longrightarrow> bs_topic s j = t \<and> subseq (bs_taken s j) (evs (bs_topic s j) h)) \<and>
          subseq (bs_taken s j) (evs (bs_topic s j) (bs_published s))" by blast
  have mine: "bs_topic s i = t" "subseq (bs_taken s i) (evs t h)" using h(2) i by auto
  have "subseq (bs_taken s i @ [e]) (evs t (bs_published s))"
    using mine(2) by (auto simp: h(1) evs_snoc intro: list_emb_append_mono)
  with one h i mine show ?case by (auto simp: fifo_inv_def Let_def)
next
  case (panic s ps e i ids qs)
  have "ps = [] \<and> qs = []" by (rule fifo_inv_one [OF panic(6,1)])
  with fifo_inv_all [OF panic(6)] show ?case by (simp add: fifo_inv_def)
next
  case (finish s ps e qs)
  have "ps = [] \<and> qs = []" by (rule fifo_inv_one [OF finish(5,1)])
  with fifo_inv_all [OF finish(5)] show ?case by (simp add: fifo_inv_def)
qed (auto simp: fifo_inv_def Let_def)

lemma fifo_keeps: "bus_step (Suc 0) s t \<Longrightarrow> bus_inv s \<and> fifo_inv s \<Longrightarrow> bus_inv t \<and> fifo_inv t"
  using bus_inv_step fifo_inv_step by (auto simp: bus_inv_def)

interpretation one_publisher: kept "bus_step (Suc 0)" "bus_steps (Suc 0)" "\<lambda>s. bus_inv s \<and> fifo_inv s"
  by unfold_locales (auto intro: bus_steps_star dest: fifo_keeps)

lemma fifo_reach:
  assumes "bus_steps (Suc 0) bus_start s"
  shows "fifo_inv s"
proof -
  have "fifo_inv bus_start" by (simp add: fifo_inv_def bus_start_def NewBus_def)
  then show ?thesis using one_publisher.reach [OF assms] bus_inv_start by blast
qed

subsection \<open>A run\<close>

definition bus_one :: "nat bus_sys" where
  "bus_one = \<lparr>bs_bus = \<lparr>subscribersMap = [(''item.drop'', [0])], bus_subs = [\<lparr>su_ch = [7], su_cap = 64, su_closed = False,
     su_running = None, su_handled = [], su_exited = False\<rparr>], bus_closed = False\<rparr>, bs_pubs = [Sending 7 []], bs_drain = Serving,
     bs_published = [(''item.drop'', 7)], bs_topic = (\<lambda>_. '''')(0 := ''item.drop''), bs_taken = (\<lambda>_. [])(0 := [7])\<rparr>"

lemma bus_one_reach: "bus_steps (Suc 0) bus_start bus_one"
proof -
  note start = bus_start_def NewBus_def
  let ?u = "\<lparr>su_ch = [], su_cap = 64, su_closed = False, su_running = None, su_handled = [], su_exited = False\<rparr>"
  define s1 :: "nat bus_sys" where "s1 = bus_start\<lparr>bs_bus := \<lparr>subscribersMap = [(''item.drop'', [0])], bus_subs = [?u], bus_closed = False\<rparr>,
    bs_topic := (\<lambda>_. '''')(0 := ''item.drop'')\<rparr>"
  have a: "bus_step (Suc 0) bus_start s1"
    using subscribe [of bus_start "Suc 0" "''item.drop''" 0] by (simp add: s1_def start Subscribe_def defaultChannelSize_def)
  define s2 where "s2 = s1\<lparr>bs_pubs := [Checked ''item.drop'' 7], bs_published := [(''item.drop'', 7::nat)]\<rparr>"
  have b: "bus_step (Suc 0) s1 s2" using publish [of s1 "Suc 0" "''item.drop''" 7] by (simp add: s1_def s2_def start)
  define s3 where "s3 = s2\<lparr>bs_pubs := [Sending 7 [0]]\<rparr>"
  have c: "bus_step (Suc 0) s2 s3"
    using load [of s2 "[]" "''item.drop''" 7 "[]" "Suc 0"] by (simp add: s1_def s2_def s3_def start loadSubscribers_def)
  have d: "bus_step (Suc 0) s3 bus_one"
    using send [of s3 "[]" 7 0 "[]" "[]" "?u\<lparr>su_ch := [7]\<rparr>" "Suc 0"]
    by (simp add: s1_def s2_def s3_def start bus_one_def send_event_def set_sub_def)
  show ?thesis by (rule bus_more [OF bus_more [OF bus_more [OF bus_more [OF bus_none a] b] c] d])
qed

lemma bus_one_handled: "\<exists>s. bus_steps (Suc 0) bus_start s \<and> length (bus_subs (bs_bus s)) = 1 \<and> su_handled (bus_subs (bs_bus s) ! 0) = [7::nat]"
proof -
  define t where "t = bus_one\<lparr>bs_bus := set_sub 0 (\<lambda>u. u\<lparr>su_ch := [], su_running := Some 7\<rparr>) (bs_bus bus_one)\<rparr>"
  have a: "bus_step (Suc 0) bus_one t"
    using worker [of 0 bus_one sub_take "(bus_subs (bs_bus bus_one) ! 0)\<lparr>su_ch := [], su_running := Some 7\<rparr>" "Suc 0"]
    by (simp add: t_def bus_one_def sub_take_def set_sub_def)
  define u where "u = bus_one\<lparr>bs_bus := set_sub 0 (\<lambda>u. u\<lparr>su_ch := [], su_handled := [7]\<rparr>) (bs_bus bus_one)\<rparr>"
  have b: "bus_step (Suc 0) t u"
    using worker [of 0 t sub_handle "(bus_subs (bs_bus bus_one) ! 0)\<lparr>su_ch := [], su_handled := [7]\<rparr>" "Suc 0"]
    by (simp add: t_def u_def bus_one_def sub_handle_def set_sub_def)
  have "bus_steps (Suc 0) bus_start u" by (rule bus_more [OF bus_more [OF bus_one_reach a] b])
  then show ?thesis by (intro exI [of _ u]) (simp add: u_def bus_one_def set_sub_def)
qed

subsection \<open>Delivery\<close>

text \<open>
  C30: In every reachable state, with any number of publishers: what a subscriber has handled is a prefix of what its channel took, in
  that order; no channel holds more than its capacity; every publication on the topic is handled at most once, and nothing
  else is; with one publisher at a time the order is that of publication; and after \<open>Drain\<close> everything that was taken is handled.
\<close>

theorem bus_delivery:
  assumes reach: "bus_steps k bus_start s" and i: "i < length (bus_subs (bs_bus s))"
  shows "prefix (su_handled (bus_subs (bs_bus s) ! i)) (bs_taken s i) \<and>
    length (su_ch (bus_subs (bs_bus s) ! i)) \<le> su_cap (bus_subs (bs_bus s) ! i) \<and>
    (\<forall>e. count_list (su_handled (bus_subs (bs_bus s) ! i)) e \<le> count_list (bs_published s) (bs_topic s i, e)) \<and>
    (k = Suc 0 \<longrightarrow> subseq (su_handled (bus_subs (bs_bus s) ! i)) (evs (bs_topic s i) (bs_published s))) \<and>
    (bs_drain s = Drained \<longrightarrow> su_handled (bus_subs (bs_bus s) ! i) = bs_taken s i)"
proof -
  note inv = bus_reach_inv [OF reach, unfolded bus_inv_def]
  let ?u = "bus_subs (bs_bus s) ! i"
  have ok: "chan_ok (bs_taken s i) ?u" using inv i by (simp add: chans_inv_def)
  then have pre: "prefix (su_handled ?u) (bs_taken s i)" by (simp add: chan_ok_def)
  then obtain l where l: "bs_taken s i = su_handled ?u @ l" by (rule prefixE)
  have "count_list (su_handled ?u) e \<le> count_list (bs_published s) (bs_topic s i, e)" for e
  proof -
    have "count_list (bs_taken s i) e \<le> count_list (bs_published s) (bs_topic s i, e)"
      using inv i unfolding once_inv_def by (meson add_leD1)
    then show ?thesis by (simp add: l)
  qed
  moreover have "subseq (su_handled ?u) (evs (bs_topic s i) (bs_published s))" if "k = Suc 0"
    using fifo_inv_all [OF fifo_reach i] reach that pre prefix_imp_subseq subseq_order.trans by blast
  moreover have "su_handled ?u = bs_taken s i" if "bs_drain s = Drained"
    using inv i ok that by (simp add: drain_inv_def chan_ok_def)
  ultimately show ?thesis using pre ok by (simp add: chan_ok_def)
qed

theorem bus_delivery_witness:
  "\<exists>s :: nat bus_sys. su_handled (bus_subs (bs_bus s) ! 0) = [7] \<and> prefix [7] (bs_taken s 0) \<and> subseq [7] (evs (bs_topic s 0) (bs_published s))"
proof -
  from bus_one_handled obtain s :: "nat bus_sys" where s: "bus_steps (Suc 0) bus_start s" "length (bus_subs (bs_bus s)) = 1"
    "su_handled (bus_subs (bs_bus s) ! 0) = [7]" by blast
  have "0 < length (bus_subs (bs_bus s))" by (simp add: s(2))
  from bus_delivery [OF s(1) this] s(3)
  have "su_handled (bus_subs (bs_bus s) ! 0) = [7] \<and> prefix [7] (bs_taken s 0) \<and> subseq [7] (evs (bs_topic s 0) (bs_published s))" by simp
  then show ?thesis by blast
qed

subsection \<open>Drain ends\<close>

definition sub_work :: "'e subscriber \<Rightarrow> nat" where
  "sub_work u = 2 * length (su_ch u) + (if su_running u = None then 0 else 1) + (if su_exited u then 0 else 1)"

definition drain_work :: "'e bus_sys \<Rightarrow> nat" where
  "drain_work s = sum_list (map sub_work (bus_subs (bs_bus s))) +
     (case bs_drain s of Serving \<Rightarrow> 0 | Closing ids \<Rightarrow> length ids + 2 | Waiting \<Rightarrow> 1 | Drained \<Rightarrow> 0)"

lemma worker_acts:
  assumes "chan_ok l u" and "su_closed u" and "\<not> su_exited u"
  shows "\<exists>act\<in>{sub_take, sub_handle, sub_exit}. \<exists>u'. act u = Some u' \<and> sub_work u' < sub_work u"
proof (cases "su_running u")
  case (Some e)
  then show ?thesis by (intro bexI [of _ sub_handle]) (auto simp: sub_handle_def sub_work_def)
next
  case None
  show ?thesis
  proof (cases "su_ch u")
    case Nil
    with None assms show ?thesis by (intro bexI [of _ sub_exit]) (auto simp: sub_exit_def sub_work_def)
  next
    case (Cons e es)
    with None assms show ?thesis by (intro bexI [of _ sub_take]) (auto simp: sub_take_def sub_work_def)
  qed
qed

lemma sub_work_sum:
  assumes "i < length us" and "sub_work u' < sub_work (us ! i)"
  shows "sum_list (map sub_work (us[i := u'])) < sum_list (map sub_work us)"
proof -
  have "sub_work (us ! i) \<le> sum_list (map sub_work us)" using elem_le_sum_list [of i "map sub_work us"] assms(1) by simp
  then show ?thesis using assms by (simp add: map_update sum_list_update)
qed

lemma drain_progress:
  assumes inv: "bus_inv s" and dr: "bs_drain s \<noteq> Serving" "bs_drain s \<noteq> Drained"
  shows "\<exists>s'. bus_step k s s' \<and> bs_drain s' \<noteq> Serving \<and> drain_work s' < drain_work s \<and> bs_taken s' = bs_taken s \<and>
    length (bus_subs (bs_bus s')) = length (bus_subs (bs_bus s))"
proof (cases "bs_drain s")
  case (Closing ids)
  show ?thesis
  proof (cases ids)
    case Nil
    with Closing purge [of s k] show ?thesis
      by (intro exI [of _ "s\<lparr>bs_bus := (bs_bus s)\<lparr>subscribersMap := []\<rparr>, bs_drain := Waiting\<rparr>"]) (simp add: drain_work_def)
  next
    case (Cons i rest)
    let ?s' = "s\<lparr>bs_bus := set_sub i (\<lambda>u. u\<lparr>su_closed := True\<rparr>) (bs_bus s), bs_drain := Closing rest\<rparr>"
    have "map sub_work ((bus_subs (bs_bus s))[i := (bus_subs (bs_bus s) ! i)\<lparr>su_closed := True\<rparr>]) = map sub_work (bus_subs (bs_bus s))"
      by (cases "i < length (bus_subs (bs_bus s))") (simp_all add: map_update sub_work_def list_update_same_conv list_update_beyond)
    then have "drain_work ?s' < drain_work s" using Closing Cons by (simp add: drain_work_def set_sub_def)
    moreover have "bus_step k s ?s'" by (rule close) (simp add: Closing Cons)
    ultimately show ?thesis by (intro exI [of _ ?s']) simp
  qed
next
  case Waiting
  show ?thesis
  proof (cases "\<forall>u\<in>set (bus_subs (bs_bus s)). su_exited u")
    case True
    with Waiting wait [of s k] show ?thesis by (intro exI [of _ "s\<lparr>bs_drain := Drained\<rparr>"]) (simp add: drain_work_def)
  next
    case False
    then obtain i where i: "i < length (bus_subs (bs_bus s))" "\<not> su_exited (bus_subs (bs_bus s) ! i)" by (auto simp: in_set_conv_nth)
    have "chan_ok (bs_taken s i) (bus_subs (bs_bus s) ! i)" "su_closed (bus_subs (bs_bus s) ! i)"
      using inv i(1) Waiting by (simp_all add: bus_inv_def chans_inv_def drain_inv_def)
    from worker_acts [OF this i(2)] obtain act u' where act: "act \<in> {sub_take, sub_handle, sub_exit}"
      "act (bus_subs (bs_bus s) ! i) = Some u'" "sub_work u' < sub_work (bus_subs (bs_bus s) ! i)" by blast
    let ?s' = "s\<lparr>bs_bus := set_sub i (\<lambda>_. u') (bs_bus s)\<rparr>"
    have "drain_work ?s' < drain_work s" using sub_work_sum [OF i(1) act(3)] by (simp add: drain_work_def set_sub_def)
    moreover have "bus_step k s ?s'" by (rule worker [OF i(1) act(1,2)])
    ultimately show ?thesis using Waiting by (intro exI [of _ ?s']) simp
  qed
qed (use dr in simp_all)

lemma drain_ends:
  assumes "bus_inv s" and "bs_drain s \<noteq> Serving"
  shows "\<exists>s'. bus_steps k s s' \<and> bs_drain s' = Drained \<and> bus_inv s' \<and> bs_taken s' = bs_taken s \<and>
    length (bus_subs (bs_bus s')) = length (bus_subs (bs_bus s))"
  using assms
proof (induction "drain_work s" arbitrary: s rule: less_induct)
  case less
  show ?case
  proof (cases "bs_drain s = Drained")
    case True
    with less.prems(1) show ?thesis by (blast intro: bus_none)
  next
    case False
    from drain_progress [OF less.prems False, of k] obtain t where t: "bus_step k s t" "bs_drain t \<noteq> Serving" "drain_work t < drain_work s"
      "bs_taken t = bs_taken s" "length (bus_subs (bs_bus t)) = length (bus_subs (bs_bus s))" by blast
    from less.hyps [OF t(3) bus_inv_step [OF t(1) less.prems(1)] t(2)] obtain u where u: "bus_steps k t u" "bs_drain u = Drained"
      "bus_inv u" "bs_taken u = bs_taken t" "length (bus_subs (bs_bus u)) = length (bus_subs (bs_bus t))" by blast
    have "bus_steps k s u" using u(1) t(1) by (induction rule: bus_steps.induct) (blast intro: bus_steps.intros)+
    with u t show ?thesis by auto
  qed
qed

text \<open>
  C31: Once \<open>Drain\<close> has begun it can always end, whatever the publishers have left undone, as long as the handlers return; then every
  worker has exited and every event that a channel had taken when it began to drain is handled.
\<close>

theorem drain_flushes:
  assumes "bus_steps k bus_start s" and "bs_drain s \<noteq> Serving"
  shows "\<exists>s'. bus_steps k s s' \<and> bs_drain s' = Drained \<and>
    (\<forall>i<length (bus_subs (bs_bus s)). su_exited (bus_subs (bs_bus s') ! i) \<and> su_handled (bus_subs (bs_bus s') ! i) = bs_taken s i)"
proof -
  from drain_ends [OF bus_reach_inv [OF assms(1)] assms(2), of k] obtain s' where s': "bus_steps k s s'" "bs_drain s' = Drained"
    "bus_inv s'" "bs_taken s' = bs_taken s" "length (bus_subs (bs_bus s')) = length (bus_subs (bs_bus s))" by blast
  have "su_exited (bus_subs (bs_bus s') ! i) \<and> su_handled (bus_subs (bs_bus s') ! i) = bs_taken s i"
    if "i < length (bus_subs (bs_bus s))" for i
  proof -
    have "chan_ok (bs_taken s i) (bus_subs (bs_bus s') ! i)" "su_exited (bus_subs (bs_bus s') ! i)"
      using s'(2-5) that by (simp_all add: bus_inv_def chans_inv_def drain_inv_def)
    then show ?thesis by (simp add: chan_ok_def)
  qed
  with s' show ?thesis by blast
qed

theorem drain_flushes_witness:
  "\<exists>s s'. bus_step (Suc 0) bus_one s \<and> bus_steps (Suc 0) s s' \<and> bs_drain s' = Drained \<and> su_handled (bus_subs (bs_bus s') ! 0) = [7]"
proof -
  define s where "s = bus_one\<lparr>bs_bus := (bs_bus bus_one)\<lparr>bus_closed := True\<rparr>, bs_drain := Closing [0]\<rparr>"
  have step: "bus_step (Suc 0) bus_one s"
    using drain [of bus_one "[0]" "Suc 0"] by (simp add: s_def bus_one_def all_subs_def)
  have "bus_steps (Suc 0) bus_start s" by (rule bus_more [OF bus_one_reach step])
  moreover have "bs_drain s \<noteq> Serving" "length (bus_subs (bs_bus s)) = 1" "bs_taken s 0 = [7]" by (simp_all add: s_def bus_one_def)
  ultimately show ?thesis using drain_flushes [of "Suc 0" s] step by auto
qed

end
