(* ===== verification/Perf.thy ===== *)
theory Perf
  imports Prelude
begin

text \<open>
  The performance monitors (\<open>server/peakgo/perf/perf.go\<close> and \<open>monitor.go\<close>): the ring of tick durations with its statistics, the
  histogram, the packet counters, the sampling of the memory statistics and the alerts. Durations are nanoseconds;
  the counters of ticks, which a server does not run long enough to wrap, are natural numbers. Memory statistics are a
  parameter. The monitors have no effect on the game.
\<close>

subsection \<open>The tick monitor\<close>

definition RingBufferSize :: nat where "RingBufferSize = 1024"

record TickMonitor =
  tk_buffer :: "int list"
  tk_position :: nat
  tk_overflow :: nat
  tk_minDur :: int
  tk_maxDur :: int
  tk_totalDur :: int

definition zero_monitor :: TickMonitor where
  "zero_monitor = \<lparr>tk_buffer = replicate RingBufferSize 0, tk_position = 0, tk_overflow = 0, tk_minDur = 0, tk_maxDur = 0, tk_totalDur = 0\<rparr>"

definition RecordTick :: "int \<Rightarrow> TickMonitor \<Rightarrow> TickMonitor" where
  "RecordTick ns tm =
     (let pos = tk_position tm
      in \<lparr>tk_buffer = (tk_buffer tm)[pos mod RingBufferSize := ns], tk_position = pos + 1,
          tk_overflow = (if pos \<ge> RingBufferSize then tk_overflow tm + 1 else tk_overflow tm),
          tk_minDur = (if ns < tk_minDur tm \<or> tk_minDur tm = 0 then ns else tk_minDur tm),
          tk_maxDur = (if ns > tk_maxDur tm then ns else tk_maxDur tm), tk_totalDur = tk_totalDur tm + ns\<rparr>)"

definition tick_Avg :: "TickMonitor \<Rightarrow> int" where
  "tick_Avg tm = (if tk_position tm = 0 then 0 else go_div (tk_totalDur tm) (int (tk_position tm)))"

definition tick_Reset :: "TickMonitor \<Rightarrow> TickMonitor" where
  "tick_Reset tm = tm\<lparr>tk_minDur := 0, tk_maxDur := 0, tk_totalDur := 0, tk_position := 0, tk_overflow := 0\<rparr>"

text \<open>The values of the current window, oldest first.\<close>

definition ring_values :: "TickMonitor \<Rightarrow> int list" where
  "ring_values tm =
     (let pos = tk_position tm; n = (if pos > RingBufferSize then RingBufferSize else pos);
          start = (if pos > RingBufferSize then pos mod RingBufferSize else 0)
      in map (\<lambda>i. tk_buffer tm ! ((start + i) mod RingBufferSize)) [0..<n])"

text \<open>The insertion sort in place; the sorted front of the slice is held in reverse.\<close>

fun sift_left :: "int \<Rightarrow> int list \<Rightarrow> int list" where
  "sift_left v [] = [v]"
| "sift_left v (w # ws) = (if v < w then w # sift_left v ws else v # w # ws)"

definition insertion_sort :: "int list \<Rightarrow> int list" where
  "insertion_sort vals = rev (fold sift_left vals [])"

definition percentile :: "nat \<Rightarrow> TickMonitor \<Rightarrow> int" where
  "percentile p tm =
     (if tk_position tm = 0 then 0
      else let vals = filter (\<lambda>v. v > 0) (ring_values tm)
        in if vals = [] then 0
           else let sorted_vals = insertion_sort vals; idx = length vals * p div 1000
             in sorted_vals ! (if idx \<ge> length vals then length vals - 1 else idx))"

definition P99 :: "TickMonitor \<Rightarrow> int" where "P99 tm = percentile 99 tm"

definition P999 :: "TickMonitor \<Rightarrow> int" where "P999 tm = percentile 999 tm"

definition MaxInRing :: "TickMonitor \<Rightarrow> int" where
  "MaxInRing tm = fold (\<lambda>v m. if v > m then v else m) (ring_values tm) 0"

subsection \<open>The histogram\<close>

definition NanosecondBuckets :: nat where "NanosecondBuckets = 16"

record Histogram =
  hg_buckets :: "int list"
  hg_limits :: "int list"

definition NewHistogram :: Histogram where
  "NewHistogram = \<lparr>hg_buckets = replicate NanosecondBuckets 0,
     hg_limits = [10000, 50000, 100000, 500000, 1000000, 5000000, 10000000, 50000000, 100000000, 500000000, 1000000000,
       5000000000, 10000000000, 50000000000, 0, 0]\<rparr>"

definition bucket_of :: "int \<Rightarrow> Histogram \<Rightarrow> nat" where
  "bucket_of ns h = (case find (\<lambda>i. ns \<le> hg_limits h ! i) [0..<NanosecondBuckets] of Some i \<Rightarrow> i | None \<Rightarrow> NanosecondBuckets - 1)"

definition hist_Record :: "int \<Rightarrow> Histogram \<Rightarrow> Histogram" where
  "hist_Record ns h = h\<lparr>hg_buckets := (hg_buckets h)[bucket_of ns h := hg_buckets h ! bucket_of ns h + 1]\<rparr>"

definition hist_Reset :: "Histogram \<Rightarrow> Histogram" where
  "hist_Reset h = h\<lparr>hg_buckets := replicate NanosecondBuckets 0\<rparr>"

subsection \<open>Packets and memory\<close>

record PacketMonitor =
  packetsIn :: u64
  packetsOut :: u64
  bytesIn :: u64
  bytesOut :: u64
  aoiQueries :: u64
  pm_broadcasts :: u64
  aoiEnters :: u64
  aoiLeaves :: u64
  visibleEntitiesSum :: u64
  visibleEntitiesCnt :: u64
  visibleEntitiesMax :: u64

definition RecordIn :: "int \<Rightarrow> PacketMonitor \<Rightarrow> PacketMonitor" where
  "RecordIn bytes pm = pm\<lparr>packetsIn := packetsIn pm + 1, bytesIn := bytesIn pm + of_int bytes\<rparr>"

definition RecordOut :: "int \<Rightarrow> PacketMonitor \<Rightarrow> PacketMonitor" where
  "RecordOut bytes pm = pm\<lparr>packetsOut := packetsOut pm + 1, bytesOut := bytesOut pm + of_int bytes\<rparr>"

definition RecordAoiVisible :: "int \<Rightarrow> PacketMonitor \<Rightarrow> PacketMonitor" where
  "RecordAoiVisible cnt pm = pm\<lparr>visibleEntitiesSum := visibleEntitiesSum pm + of_int cnt,
     visibleEntitiesCnt := visibleEntitiesCnt pm + 1,
     visibleEntitiesMax := (if (of_int cnt :: u64) \<le> visibleEntitiesMax pm then visibleEntitiesMax pm else of_int cnt)\<rparr>"

record 'm MemMonitor =
  mm_last :: 'm
  sampleRate :: int
  mm_counter :: int

definition NewMemMonitor :: "'m \<Rightarrow> int \<Rightarrow> 'm MemMonitor" where
  "NewMemMonitor none rate = \<lparr>mm_last = none, sampleRate = (if rate < 1 then 1 else rate), mm_counter = 0\<rparr>"

definition Sample :: "'m \<Rightarrow> 'm MemMonitor \<Rightarrow> 'm option \<times> 'm MemMonitor" where
  "Sample stats mm =
     (let mm' = mm\<lparr>mm_counter := mm_counter mm + 1\<rparr>
      in if mm_counter mm' mod sampleRate mm' \<noteq> 0 then (None, mm') else (Some stats, mm'\<lparr>mm_last := stats\<rparr>))"

subsection \<open>Alerts\<close>

definition DefaultTickWarnThreshold :: int where "DefaultTickWarnThreshold = 50000000"

definition DefaultHeapWarnThreshold :: int where "DefaultHeapWarnThreshold = 2000000000"

record AlertMonitor =
  tickThreshold :: int
  tickBreached :: bool
  heapThreshold :: int
  heapBreached :: bool
  saveQueueCapacity :: int
  saveQueueBreached :: bool

datatype alert = Warn int | Recovered int

definition NewAlertMonitor :: AlertMonitor where
  "NewAlertMonitor = \<lparr>tickThreshold = DefaultTickWarnThreshold, tickBreached = False, heapThreshold = DefaultHeapWarnThreshold,
     heapBreached = False, saveQueueCapacity = 1000, saveQueueBreached = False\<rparr>"

definition SetTickThreshold :: "int \<Rightarrow> AlertMonitor \<Rightarrow> AlertMonitor" where
  "SetTickThreshold ns am = am\<lparr>tickThreshold := ns, tickBreached := False\<rparr>"

definition CheckTickDuration :: "int \<Rightarrow> AlertMonitor \<Rightarrow> alert option \<times> AlertMonitor" where
  "CheckTickDuration ns am =
     (if tickThreshold am = 0 then (None, am)
      else if ns > tickThreshold am then
        (if \<not> tickBreached am then (Some (Warn ns), am\<lparr>tickBreached := True\<rparr>) else (None, am))
      else if tickBreached am then (Some (Recovered ns), am\<lparr>tickBreached := False\<rparr>) else (None, am))"

definition CheckHeapSize :: "int \<Rightarrow> AlertMonitor \<Rightarrow> alert option \<times> AlertMonitor" where
  "CheckHeapSize bytes am =
     (if heapThreshold am = 0 then (None, am)
      else if bytes > heapThreshold am then
        (if \<not> heapBreached am then (Some (Warn bytes), am\<lparr>heapBreached := True\<rparr>) else (None, am))
      else if heapBreached am then (Some (Recovered bytes), am\<lparr>heapBreached := False\<rparr>) else (None, am))"

text \<open>The ratio is at least 0.80; with integers, five times the length is at least four times the capacity.\<close>

definition CheckSaveQueue :: "int \<Rightarrow> AlertMonitor \<Rightarrow> alert option \<times> AlertMonitor" where
  "CheckSaveQueue queueLen am =
     (if saveQueueCapacity am = 0 then (None, am)
      else if 5 * queueLen \<ge> 4 * saveQueueCapacity am then
        (if \<not> saveQueueBreached am then (Some (Warn queueLen), am\<lparr>saveQueueBreached := True\<rparr>) else (None, am))
      else if saveQueueBreached am then (Some (Recovered queueLen), am\<lparr>saveQueueBreached := False\<rparr>) else (None, am))"

subsection \<open>What the ring holds\<close>

text \<open>The ticks recorded after a reset of a monitor, whatever its buffer held.\<close>

definition record_ticks :: "TickMonitor \<Rightarrow> int list \<Rightarrow> TickMonitor" where
  "record_ticks tm ds = fold RecordTick ds (tick_Reset tm)"

definition last_values :: "nat \<Rightarrow> 'a list \<Rightarrow> 'a list" where "last_values n xs = drop (length xs - n) xs"

lemma record_ticks_snoc: "record_ticks tm (ds @ [d]) = RecordTick d (record_ticks tm ds)"
  by (simp add: record_ticks_def)

lemma record_ticks_Nil: "record_ticks tm [] = tick_Reset tm"
  by (simp add: record_ticks_def)

text \<open>The slot of a position holds the last value written to it.\<close>

lemma ring_slots:
  assumes "length (tk_buffer tm) = RingBufferSize"
  shows "tk_position (record_ticks tm ds) = length ds \<and> length (tk_buffer (record_ticks tm ds)) = RingBufferSize \<and>
     (\<forall>j<length ds. length ds \<le> j + RingBufferSize \<longrightarrow> tk_buffer (record_ticks tm ds) ! (j mod RingBufferSize) = ds ! j)"
proof (induction ds rule: rev_induct)
  case Nil
  then show ?case by (simp add: record_ticks_Nil tick_Reset_def assms)
next
  case (snoc d ds)
  let ?n = "length ds" and ?m = RingBufferSize
  have pos: "(0::nat) < ?m" by (simp add: RingBufferSize_def)
  have "tk_buffer (record_ticks tm (ds @ [d])) ! (j mod ?m) = (ds @ [d]) ! j" if j: "j < Suc ?n" "Suc ?n \<le> j + ?m" for j
  proof (cases "j = ?n")
    case True
    then show ?thesis using snoc pos by (simp add: record_ticks_snoc RecordTick_def Let_def)
  next
    case False
    then have "j < ?n" "?n < j + ?m" using j by auto
    have "j mod ?m \<noteq> ?n mod ?m"
    proof
      assume "j mod ?m = ?n mod ?m"
      then have "?m dvd (?n - j)" using \<open>j < ?n\<close> by (metis less_imp_le mod_eq_dvd_iff_nat)
      moreover have "0 < ?n - j" "?n - j < ?m" using \<open>j < ?n\<close> \<open>?n < j + ?m\<close> by auto
      ultimately show False by (meson nat_dvd_not_less)
    qed
    then show ?thesis using snoc \<open>j < ?n\<close> \<open>?n < j + ?m\<close> pos by (simp add: record_ticks_snoc RecordTick_def Let_def nth_append)
  qed
  with snoc show ?case by (simp add: record_ticks_snoc RecordTick_def Let_def)
qed

lemma ring_values_last:
  assumes "length (tk_buffer tm) = RingBufferSize"
  shows "ring_values (record_ticks tm ds) = last_values RingBufferSize ds"
proof (rule nth_equalityI)
  let ?m = RingBufferSize and ?n = "length ds"
  have pos: "(0::nat) < ?m" by (simp add: RingBufferSize_def)
  show len: "length (ring_values (record_ticks tm ds)) = length (last_values ?m ds)"
    using ring_slots [OF assms, of ds] by (simp add: ring_values_def last_values_def Let_def)
  fix i assume "i < length (ring_values (record_ticks tm ds))"
  then have i: "i < ?n - (?n - ?m)" using len by (simp add: last_values_def)
  let ?j = "?n - ?m + i"
  have "((if ?n > ?m then ?n mod ?m else 0) + i) mod ?m = ?j mod ?m"
  proof (cases "?n > ?m")
    case True
    then have "?n - ?m + i = (?n + i) - ?m" by simp
    then have "(?n - ?m + i) mod ?m = (?n + i) mod ?m" using True le_mod_geq [of ?m "?n + i"] by simp
    then show ?thesis using True by (simp add: mod_simps)
  qed simp
  moreover have "tk_buffer (record_ticks tm ds) ! (?j mod ?m) = ds ! ?j" using ring_slots [OF assms, of ds] i by simp
  moreover have "ring_values (record_ticks tm ds) ! i = tk_buffer (record_ticks tm ds) ! (((if ?n > ?m then ?n mod ?m else 0) + i) mod ?m)"
    using ring_slots [OF assms, of ds] i by (cases "?n > ?m") (simp_all add: ring_values_def Let_def)
  moreover have "last_values ?m ds ! i = ds ! ?j" using i by (simp add: last_values_def)
  ultimately show "ring_values (record_ticks tm ds) ! i = last_values ?m ds ! i" by simp
qed

lemma record_ticks_total: "tk_totalDur (record_ticks tm ds) = sum_list ds \<and> tk_position (record_ticks tm ds) = length ds"
  by (induction ds rule: rev_induct) (simp_all add: record_ticks_snoc record_ticks_Nil RecordTick_def tick_Reset_def Let_def)

lemma record_ticks_max: "tk_maxDur (record_ticks tm ds) = fold max ds 0"
  by (induction ds rule: rev_induct) (simp_all add: record_ticks_snoc record_ticks_Nil RecordTick_def tick_Reset_def Let_def max_def)

lemma sift_left_insort: "sorted (rev ws) \<Longrightarrow> sorted (rev (sift_left v ws)) \<and> mset (sift_left v ws) = add_mset v (mset ws)"
proof (induction ws)
  case (Cons w ws)
  then have "sorted (rev ws)" "\<forall>x\<in>set ws. x \<le> w" by (auto simp: sorted_append)
  moreover have "set (sift_left v ws) = insert v (set ws)"
    using Cons.IH [OF \<open>sorted (rev ws)\<close>] by (metis set_mset_add_mset_insert set_mset_mset)
  ultimately show ?case using Cons by (auto simp: sorted_append)
qed simp

lemma insertion_sort_sort: "insertion_sort xs = sort xs"
proof -
  have "sorted (rev ws) \<Longrightarrow> sorted (rev (fold sift_left xs ws)) \<and> mset (fold sift_left xs ws) = mset ws + mset xs" for ws
    by (induction xs arbitrary: ws) (auto simp: sift_left_insort)
  from this [of "[]"] show ?thesis by (intro properties_for_sort [symmetric]) (simp_all add: insertion_sort_def)
qed

lemma MaxInRing_max:
  "length (tk_buffer tm) = RingBufferSize \<Longrightarrow> MaxInRing (record_ticks tm ds) = fold max (last_values RingBufferSize ds) 0"
  unfolding MaxInRing_def by (simp add: ring_values_last, rule fold_cong) (auto simp: max_def fun_eq_iff)

text \<open>An element of a sorted list by its rank.\<close>

lemma rank_below:
  assumes "sorted w" and "k < length w"
  shows "length (filter (\<lambda>x. x < w ! k) w) \<le> k"
proof -
  have "filter (\<lambda>x. x < w ! k) (drop k w) = []"
    using assms by (auto simp: filter_empty_conv in_set_conv_nth not_less sorted_iff_nth_mono)
  then have "filter (\<lambda>x. x < w ! k) w = filter (\<lambda>x. x < w ! k) (take k w)"
    by (metis append_Nil2 append_take_drop_id filter_append)
  then show ?thesis by (metis assms(2) length_filter_le length_take min.absorb4)
qed

lemma rank_above:
  assumes "sorted w" and "k < length w"
  shows "k < length (filter (\<lambda>x. x \<le> w ! k) w)"
proof -
  have "filter (\<lambda>x. x \<le> w ! k) (take (Suc k) w) = take (Suc k) w"
    using assms by (auto simp: filter_id_conv in_set_conv_nth sorted_iff_nth_mono)
  then have "take (Suc k) w @ filter (\<lambda>x. x \<le> w ! k) (drop (Suc k) w) = filter (\<lambda>x. x \<le> w ! k) w"
    by (metis append_take_drop_id filter_append)
  then have "length (take (Suc k) w) \<le> length (filter (\<lambda>x. x \<le> w ! k) w)" by (metis le_add1 length_append)
  with assms(2) show ?thesis by simp
qed

lemma filter_sort_length: "length (filter P (sort xs)) = length (filter P xs)"
  by (metis filter_sort length_sort)

text \<open>
  C40: After any ticks since a reset, let \<open>w\<close> be the positive durations among the last 1024 of them. For a \<open>p\<close> below 1000 the
  percentile is 0 if there are none, and else a duration of \<open>w\<close> that is the \<open>p\<close>-th quantile in thousandths: the share of \<open>w\<close> below it
  is at most \<open>p\<close> per mille and the share up to it is more than \<open>p\<close> per mille. The worst tick in the ring is the largest
  duration of the last 1024 ticks, and 0 if there is none above 0. The average is over all ticks since the reset, not
  over the window.
\<close>

theorem percentile_window:
  assumes "length (tk_buffer tm) = RingBufferSize" and "p < 1000"
    and w: "w = filter (\<lambda>v. v > 0) (last_values 1024 ds)" and v: "v = percentile p (record_ticks tm ds)"
  shows "(if w = [] then v = 0
     else v \<in> set w \<and> 1000 * length (filter (\<lambda>x. x < v) w) \<le> p * length w \<and> p * length w < 1000 * length (filter (\<lambda>x. x \<le> v) w)) \<and>
   MaxInRing (record_ticks tm ds) = Max (insert 0 (set (last_values 1024 ds))) \<and>
   tick_Avg (record_ticks tm ds) = (if ds = [] then 0 else go_div (sum_list ds) (int (length ds)))"
proof -
  note ring = ring_values_last [OF assms(1), of ds, unfolded RingBufferSize_def]
  have none: "ds = [] \<Longrightarrow> w = []" by (simp add: w last_values_def)
  have "v \<in> set w \<and> 1000 * length (filter (\<lambda>x. x < v) w) \<le> p * length w \<and> p * length w < 1000 * length (filter (\<lambda>x. x \<le> v) w)" if ne: "w \<noteq> []"
  proof -
    let ?k = "length w * p div 1000"
    from ne have n: "0 < length w" by simp
    then have "length w * p < 1000 * length w" using assms(2) by simp
    then have "?k < length w" by (simp add: div_less_iff_less_mult mult.commute)
    then have k: "?k < length (sort w)" by simp
    then have vk: "v = sort w ! ?k"
      using ne none by (auto simp: v percentile_def record_ticks_total ring insertion_sort_sort Let_def simp flip: w)
    have "v \<in> set w" using nth_mem [OF k] by (simp add: vk)
    moreover have "length (filter (\<lambda>x. x < v) w) \<le> ?k" "?k < length (filter (\<lambda>x. x \<le> v) w)"
      using rank_below [OF sorted_sort k] rank_above [OF sorted_sort k] by (simp_all add: filter_sort_length flip: vk)
    then have "1000 * length (filter (\<lambda>x. x < v) w) \<le> p * length w \<and> p * length w < 1000 * length (filter (\<lambda>x. x \<le> v) w)"
      by (simp add: mult.commute) linarith
    ultimately show ?thesis by blast
  qed
  moreover have "w = [] \<Longrightarrow> v = 0" by (simp add: v percentile_def ring Let_def flip: w)
  moreover have "fold max xs a = Max (insert a (set xs))" for xs :: "int list" and a by (simp add: Max.set_eq_fold [of a xs, simplified])
  ultimately show ?thesis
    using MaxInRing_max [OF assms(1), of ds] by (simp add: RingBufferSize_def tick_Avg_def record_ticks_total)
qed

theorem percentile_window_witness:
  "\<exists>v. v = percentile 500 (record_ticks zero_monitor [7, 0, 3, 9]) \<and> v \<in> {7, 3, 9} \<and> length (filter (\<lambda>x. x < v) [7, 3, 9]) \<le> 1 \<and>
     MaxInRing (record_ticks zero_monitor [7, 0, 3, 9]) = 9 \<and> tick_Avg (record_ticks zero_monitor [7, 0, 3, 9]) = 4"
proof -
  have "length (tk_buffer zero_monitor) = RingBufferSize" by (simp add: zero_monitor_def)
  from percentile_window [OF this _ HOL.refl HOL.refl, of 500 "[7, 0, 3, 9]"] show ?thesis
    by (simp add: last_values_def go_div_def)
qed

text \<open>
  The scale of \<open>percentile\<close> is thousandths, so \<open>P99\<close>, which passes 99, is the 9.9th percentile: at most a tenth of the durations
  lie below the value it reports. Only \<open>P999\<close> has the right scale.
\<close>

lemma P99_is_low:
  assumes "length (tk_buffer tm) = RingBufferSize" and "w = filter (\<lambda>v. v > 0) (last_values 1024 ds)" and "w \<noteq> []"
  shows "10 * length (filter (\<lambda>x. x < P99 (record_ticks tm ds)) w) \<le> length w"
proof -
  note ring = ring_values_last [OF assms(1), of ds, unfolded RingBufferSize_def]
  let ?k = "length w * 99 div 1000"
  have k: "?k < length (sort w)" using assms(3) by (cases w) auto
  have "ds \<noteq> []" using assms(2,3) by (auto simp: last_values_def)
  then have "P99 (record_ticks tm ds) = sort w ! ?k"
    using k assms(3) by (auto simp: P99_def percentile_def record_ticks_total ring insertion_sort_sort Let_def simp flip: assms(2))
  then show ?thesis using rank_below [OF sorted_sort k] by (simp add: filter_sort_length)
qed

lemma reset_keeps_buffer: "tk_buffer (tick_Reset tm) = tk_buffer tm"
  by (simp add: tick_Reset_def)

text \<open>The limits of the last two buckets are missing, so a duration of more than 50 seconds skips the bucket before the last.\<close>

lemma bucket_14_stays_empty: "0 < ns \<Longrightarrow> bucket_of ns NewHistogram \<noteq> 14"
  by (auto simp: bucket_of_def NewHistogram_def NanosecondBuckets_def upt_rec [of _ 16] split: if_splits)

subsection \<open>Alerts come in pairs\<close>

fun check_ticks :: "int list \<Rightarrow> AlertMonitor \<Rightarrow> alert list \<times> AlertMonitor" where
  "check_ticks [] am = ([], am)"
| "check_ticks (d # ds) am =
     (case CheckTickDuration d am of (a, am1) \<Rightarrow> case check_ticks ds am1 of (as, am2) \<Rightarrow> ((case a of None \<Rightarrow> [] | Some x \<Rightarrow> [x]) @ as, am2))"

text \<open>The reference: one alert at each change between below and above the threshold.\<close>

fun crossings :: "int \<Rightarrow> bool \<Rightarrow> int list \<Rightarrow> alert list" where
  "crossings th br [] = []"
| "crossings th br (d # ds) =
     (if (d > th) = br then crossings th br ds
      else (if d > th then Warn d else Recovered d) # crossings th (d > th) ds)"

theorem alerts_are_crossings:
  assumes "tickThreshold am \<noteq> 0"
  shows "fst (check_ticks ds am) = crossings (tickThreshold am) (tickBreached am) ds"
  using assms
proof (induction ds arbitrary: am)
  case (Cons d ds)
  obtain a am1 where c: "CheckTickDuration d am = (a, am1)" by (cases "CheckTickDuration d am")
  then have "tickThreshold am1 = tickThreshold am" using Cons.prems by (auto simp: CheckTickDuration_def split: if_splits)
  then have "fst (check_ticks ds am1) = crossings (tickThreshold am) (tickBreached am1) ds" using Cons.IH [of am1] Cons.prems by simp
  then have "fst (check_ticks (d # ds) am) = (case a of None \<Rightarrow> [] | Some x \<Rightarrow> [x]) @ crossings (tickThreshold am) (tickBreached am1) ds"
    by (cases "check_ticks ds am1") (simp add: c)
  with c Cons.prems show ?case
    by (cases "d > tickThreshold am"; cases "tickBreached am") (auto simp: CheckTickDuration_def)
qed simp

end
