(* ===== verification/Wsconn.thy ===== *)
theory Wsconn
  imports Netio
begin

text \<open>
  The WebSocket adapter (\<open>server/transport/wsconn.go\<close>): a connection whose binary messages are read as one byte stream and whose
  text messages are intercepted. The WebSocket library is not part of the repository: the messages are a list, and what one
  \<open>Read\<close> of a message's reader returns is a parameter, a number of bytes and whether the end was reported with them;
  \<open>reader_ok\<close> states what \<open>io.Reader\<close> documents. \<open>io.ReadFull\<close>, through which the packet loop reads, is written out with
  the number of reads as fuel.
\<close>

subsection \<open>Reading\<close>

datatype ws_message = TextMessage string | BinaryMessage byte_seq

record WSConn =
  ws_messages :: "ws_message list"
  ws_reader :: "byte_seq option"
  ws_trace :: "string list"

definition snapshot_prefix :: string where "snapshot_prefix = ''[SNAPSHOT] ''"

definition handleTextMessage :: "string \<Rightarrow> WSConn \<Rightarrow> WSConn" where
  "handleTextMessage raw w =
     (if take (length snapshot_prefix) raw = snapshot_prefix then w\<lparr>ws_trace := ws_trace w @ [drop (length snapshot_prefix) raw]\<rparr> else w)"

function ws_Read :: "(nat \<Rightarrow> byte_seq \<Rightarrow> nat \<times> bool) \<Rightarrow> nat \<Rightarrow> WSConn \<Rightarrow> (net_error + byte_seq) \<times> WSConn" where
  "ws_Read chunk n w =
     (case ws_reader w of
        Some rest \<Rightarrow> (case chunk n rest of (k, eof) \<Rightarrow>
          if eof then (if k > 0 then (Inr (take k rest), w\<lparr>ws_reader := None\<rparr>) else ws_Read chunk n (w\<lparr>ws_reader := None\<rparr>))
          else (Inr (take k rest), w\<lparr>ws_reader := Some (drop k rest)\<rparr>))
      | None \<Rightarrow> (case ws_messages w of
          [] \<Rightarrow> (Inl ErrUnexpectedEOF, w)
        | TextMessage raw # ms \<Rightarrow> ws_Read chunk n (handleTextMessage raw (w\<lparr>ws_messages := ms\<rparr>))
        | BinaryMessage b # ms \<Rightarrow> ws_Read chunk n (w\<lparr>ws_messages := ms, ws_reader := Some b\<rparr>)))"
  by pat_completeness auto

termination ws_Read
  by (relation "measure (\<lambda>(_, _, w). 2 * length (ws_messages w) + (case ws_reader w of None \<Rightarrow> 0 | Some _ \<Rightarrow> 1))")
    (auto simp: handleTextMessage_def)

declare ws_Read.simps [simp del]

fun ws_ReadFull :: "(nat \<Rightarrow> byte_seq \<Rightarrow> nat \<times> bool) \<Rightarrow> nat \<Rightarrow> nat \<Rightarrow> WSConn \<Rightarrow> (net_error + byte_seq) \<times> WSConn" where
  "ws_ReadFull chunk fuel 0 w = (Inr [], w)"
| "ws_ReadFull chunk 0 (Suc n) w = (Inl ErrUnexpectedEOF, w)"
| "ws_ReadFull chunk (Suc fuel) (Suc n) w =
     (case ws_Read chunk (Suc n) w of
        (Inl err, w') \<Rightarrow> (Inl err, w')
      | (Inr got, w') \<Rightarrow> (case ws_ReadFull chunk fuel (Suc n - length got) w' of
          (Inl err, w'') \<Rightarrow> (Inl err, w'')
        | (Inr later, w'') \<Rightarrow> (Inr (got @ later), w'')))"

text \<open>\<open>Write\<close> sends one binary message.\<close>

definition ws_Write :: "byte_seq \<Rightarrow> ws_message list \<Rightarrow> ws_message list" where
  "ws_Write b out = out @ [BinaryMessage b]"

subsection \<open>The stream behind the messages\<close>

definition reader_ok :: "(nat \<Rightarrow> byte_seq \<Rightarrow> nat \<times> bool) \<Rightarrow> bool" where
  "reader_ok chunk \<longleftrightarrow> (\<forall>n rest k eof. chunk n rest = (k, eof) \<longrightarrow>
     k \<le> n \<and> k \<le> length rest \<and> (eof \<longrightarrow> k = length rest) \<and> (rest = [] \<longrightarrow> eof) \<and> (rest \<noteq> [] \<and> 0 < n \<longrightarrow> 0 < k))"

definition binary_bytes :: "ws_message list \<Rightarrow> byte_seq" where
  "binary_bytes ms = concat (map (\<lambda>m. case m of BinaryMessage b \<Rightarrow> b | TextMessage _ \<Rightarrow> []) ms)"

definition ws_bytes :: "WSConn \<Rightarrow> byte_seq" where
  "ws_bytes w = (case ws_reader w of None \<Rightarrow> [] | Some rest \<Rightarrow> rest) @ binary_bytes (ws_messages w)"

lemma ws_bytes_text [simp]: "ws_bytes (handleTextMessage raw w) = ws_bytes w"
  by (simp add: handleTextMessage_def ws_bytes_def)

lemma ws_Read_exact:
  assumes "reader_ok chunk" and "0 < n"
  shows "case ws_Read chunk n w of
      (Inl err, w') \<Rightarrow> err = ErrUnexpectedEOF \<and> ws_bytes w = []
    | (Inr got, w') \<Rightarrow> got \<noteq> [] \<and> length got \<le> n \<and> ws_bytes w = got @ ws_bytes w'"
  using assms
proof (induction chunk n w rule: ws_Read.induct)
  case (1 chunk n w)
  show ?case
  proof (cases "ws_reader w")
    case (Some rest)
    obtain k eof where c: "chunk n rest = (k, eof)" by (cases "chunk n rest")
    then have k: "k \<le> n" "k \<le> length rest" "eof \<Longrightarrow> k = length rest" "rest = [] \<Longrightarrow> eof" "rest \<noteq> [] \<Longrightarrow> 0 < k"
      using 1(4,5) unfolding reader_ok_def by blast+
    show ?thesis
    proof (cases "eof \<and> k = 0")
      case True
      then have "rest = []" using k(3) by simp
      then have "ws_bytes (w\<lparr>ws_reader := None\<rparr>) = ws_bytes w" using Some by (simp add: ws_bytes_def)
      moreover have "ws_Read chunk n w = ws_Read chunk n (w\<lparr>ws_reader := None\<rparr>)"
        using Some c True by (subst ws_Read.simps) simp
      ultimately show ?thesis using 1(3) [OF Some c [symmetric]] True 1(4,5) by (auto split: prod.splits sum.splits)
    next
      case False
      then have run: "ws_Read chunk n w = (Inr (take k rest), w\<lparr>ws_reader := (if eof then None else Some (drop k rest))\<rparr>)"
        using Some c by (subst ws_Read.simps) auto
      have "k > 0" using False k by (cases "rest = []") auto
      then show ?thesis using Some k False unfolding run by (cases eof) (auto simp: ws_bytes_def)
    qed
  next
    case None
    show ?thesis
    proof (cases "ws_messages w")
      case Nil
      then show ?thesis using None by (subst ws_Read.simps) (simp add: ws_bytes_def binary_bytes_def)
    next
      case (Cons m ms)
      show ?thesis
      proof (cases m)
        case (TextMessage raw)
        have "ws_Read chunk n w = ws_Read chunk n (handleTextMessage raw (w\<lparr>ws_messages := ms\<rparr>))"
          using None Cons TextMessage by (subst ws_Read.simps) simp
        moreover have "ws_bytes (handleTextMessage raw (w\<lparr>ws_messages := ms\<rparr>)) = ws_bytes w"
          unfolding ws_bytes_text using None Cons TextMessage by (simp add: ws_bytes_def binary_bytes_def)
        ultimately show ?thesis using 1(1) [OF None Cons TextMessage 1(4,5)] by (auto split: prod.splits sum.splits)
      next
        case (BinaryMessage b)
        have "ws_Read chunk n w = ws_Read chunk n (w\<lparr>ws_messages := ms, ws_reader := Some b\<rparr>)"
          using None Cons BinaryMessage by (subst ws_Read.simps) simp
        moreover have "ws_bytes (w\<lparr>ws_messages := ms, ws_reader := Some b\<rparr>) = ws_bytes w"
          using None Cons BinaryMessage by (simp add: ws_bytes_def binary_bytes_def)
        ultimately show ?thesis using 1(2) [OF None Cons BinaryMessage 1(4,5)] by (auto split: prod.splits sum.splits)
      qed
    qed
  qed
qed

text \<open>
  A WebSocket connection is read like a TCP stream: however the library cuts its reads and whatever text messages come between, a
  full read of \<open>n\<close> bytes gives the next \<open>n\<close> bytes of the binary messages, across their boundaries, and fails exactly when fewer
  are left.
\<close>

lemma ws_reads_stream:
  assumes ok: "reader_ok chunk" and fuel: "n \<le> fuel"
  shows "case ws_ReadFull chunk fuel n w of
      (Inl err, w') \<Rightarrow> err = ErrUnexpectedEOF \<and> length (ws_bytes w) < n
    | (Inr got, w') \<Rightarrow> n \<le> length (ws_bytes w) \<and> got = take n (ws_bytes w) \<and> ws_bytes w' = drop n (ws_bytes w)"
  using assms
proof (induction chunk fuel n w rule: ws_ReadFull.induct)
  case (3 chunk fuel n w)
  note R = ws_Read_exact [OF 3(2), of "Suc n" w]
  show ?case
  proof (cases "ws_Read chunk (Suc n) w")
    case (Pair res w')
    show ?thesis
    proof (cases res)
      case (Inl err)
      with R Pair show ?thesis by simp
    next
      case (Inr got)
      with R Pair have got: "got \<noteq> []" "length got \<le> Suc n" "ws_bytes w = got @ ws_bytes w'" by simp_all
      then have "0 < length got" by simp
      then have "Suc n - length got \<le> fuel" using 3(3) by linarith
      from 3(1) [OF Pair [symmetric] Inr 3(2) this] got \<open>0 < length got\<close> show ?thesis
        by (cases "ws_ReadFull chunk fuel (Suc n - length got) w'") (auto simp: Pair Inr split: sum.splits)
    qed
  qed
qed auto

subsection \<open>What the packet loop needs of a connection\<close>

text \<open>
  \<open>net.Conn\<close> as the packet loop uses it: a full read of \<open>n\<close> bytes gives the next \<open>n\<close> of the bytes still to come, and fails exactly
  when fewer are left. A TCP connection and a WebSocket keep this contract.
\<close>

definition tcp_full :: "nat \<Rightarrow> byte_seq \<Rightarrow> (net_error + byte_seq) \<times> byte_seq" where
  "tcp_full n conn = (if length conn < n then (Inl ErrUnexpectedEOF, []) else (Inr (take n conn), drop n conn))"

definition ws_full :: "(nat \<Rightarrow> byte_seq \<Rightarrow> nat \<times> bool) \<Rightarrow> nat \<Rightarrow> WSConn \<Rightarrow> (net_error + byte_seq) \<times> WSConn" where
  "ws_full chunk n w = ws_ReadFull chunk n n w"

text \<open>The loop of \<open>HandleClient\<close> over such a connection; the fuel bounds the number of packets.\<close>

fun packets_of :: "(nat \<Rightarrow> 'c \<Rightarrow> (net_error + byte_seq) \<times> 'c) \<Rightarrow> nat \<Rightarrow> 'c \<Rightarrow> (u8 \<times> byte_seq) list" where
  "packets_of full 0 c = []"
| "packets_of full (Suc fuel) c = (case full 2 c of
     (Inl _, _) \<Rightarrow> []
   | (Inr bs, c1) \<Rightarrow>
       let n = the (ReadUint16 bs)
       in if n = 0 then packets_of full fuel c1
          else if n > MaxPacketSize then []
          else (case full (unat n) c1 of
              (Inl _, _) \<Rightarrow> []
            | (Inr buf, c2) \<Rightarrow> (hd buf, tl buf) # packets_of full fuel c2))"

locale byte_stream =
  fixes full :: "nat \<Rightarrow> 'c \<Rightarrow> (net_error + byte_seq) \<times> 'c" and bytes :: "'c \<Rightarrow> byte_seq"
  assumes full_ok: "n \<le> length (bytes c) \<Longrightarrow> \<exists>c'. full n c = (Inr (take n (bytes c)), c') \<and> bytes c' = drop n (bytes c)"
    and full_fails: "length (bytes c) < n \<Longrightarrow> \<exists>err c'. full n c = (Inl err, c')"
begin

lemma packets_of_stream: "length (bytes c) < fuel \<Longrightarrow> packets_of full fuel c = client_loop [] (bytes c)"
proof (induction fuel arbitrary: c)
  case (Suc fuel)
  show ?case
  proof (cases "length (bytes c) < 2")
    case True
    with full_fails [of c 2] show ?thesis by (subst client_loop.simps) (auto simp: ReadHeader_def)
  next
    case False
    then obtain c1 where c1: "full 2 c = (Inr (take 2 (bytes c)), c1)" "bytes c1 = drop 2 (bytes c)" using full_ok [of 2 c] by auto
    let ?n = "the (ReadUint16 (take 2 (bytes c)))"
    have h: "ReadHeader (bytes c) = Inr (?n, bytes c1)" using False c1(2) by (simp add: ReadHeader_def)
    have IH1: "packets_of full fuel c1 = client_loop [] (bytes c1)" using Suc.IH [of c1] Suc.prems False c1(2) by simp
    consider "?n = 0" | "?n \<noteq> 0" "?n > MaxPacketSize" | "?n \<noteq> 0" "\<not> ?n > MaxPacketSize" "length (bytes c1) < unat ?n"
      | "?n \<noteq> 0" "\<not> ?n > MaxPacketSize" "unat ?n \<le> length (bytes c1)" by linarith
    then show ?thesis
    proof cases
      case 1
      then show ?thesis using IH1 by (subst client_loop.simps) (simp add: c1(1) h)
    next
      case 2
      then show ?thesis by (subst client_loop.simps) (simp add: c1(1) h ReadPayload_def)
    next
      case 3
      with full_fails [of c1 "unat ?n"] show ?thesis by (subst client_loop.simps) (auto simp: c1(1) h ReadPayload_def)
    next
      case 4
      then obtain c2 where c2: "full (unat ?n) c1 = (Inr (take (unat ?n) (bytes c1)), c2)" "bytes c2 = drop (unat ?n) (bytes c1)"
        using full_ok [of "unat ?n" c1] by auto
      have "packets_of full fuel c2 = client_loop [] (bytes c2)" using Suc.IH [of c2] Suc.prems False c1(2) c2(2) by simp
      with 4 show ?thesis by (subst client_loop.simps) (simp add: c1(1) c2 h ReadPayload_def)
    qed
  qed
qed simp

end

interpretation tcp: byte_stream tcp_full "\<lambda>conn. conn"
  by unfold_locales (auto simp: tcp_full_def)

lemma tcp_session: "length conn < fuel \<Longrightarrow> packets_of tcp_full fuel conn = client_loop [] conn"
  by (rule tcp.packets_of_stream)

lemma ws_stream:
  assumes "reader_ok chunk"
  shows "byte_stream (ws_full chunk) ws_bytes"
proof
  fix n c assume "n \<le> length (ws_bytes c)"
  with ws_reads_stream [OF assms, of n n c]
  show "\<exists>c'. ws_full chunk n c = (Inr (take n (ws_bytes c)), c') \<and> ws_bytes c' = drop n (ws_bytes c)"
    by (cases "ws_ReadFull chunk n n c") (auto simp: ws_full_def split: sum.splits)
next
  fix n c assume "length (ws_bytes c) < n"
  with ws_reads_stream [OF assms, of n n c] show "\<exists>err c'. ws_full chunk n c = (Inl err, c')"
    by (cases "ws_ReadFull chunk n n c") (auto simp: ws_full_def split: sum.splits)
qed

text \<open>
  C33: A client behind a WebSocket is served as one behind TCP: when the binary messages together are framed packets, the packet loop
  reads exactly these packets, wherever the messages are cut, whatever text messages come between and however the library
  splits its reads.
\<close>

theorem ws_session:
  assumes "reader_ok chunk" and "\<forall>(dst, op, payload)\<in>set packets. length payload < 4096"
    and "ws_bytes w = concat (map (\<lambda>(dst, op, payload). FrameInto dst op payload) packets)" and "length (ws_bytes w) < fuel"
  shows "packets_of (ws_full chunk) fuel w = map snd packets"
  using byte_stream.packets_of_stream [OF ws_stream [OF assms(1)] assms(4)] framed_stream [OF assms(2)] assms(3) by simp

theorem ws_session_witness:
  "packets_of (ws_full (\<lambda>n rest. (min n (min 2 (length rest)), rest = []))) 20
     \<lparr>ws_messages = [BinaryMessage (take 3 (FrameInto [] 5 [1, 2])), TextMessage ''hello'', BinaryMessage (drop 3 (FrameInto [] 5 [1, 2]) @ FrameInto [] 7 [])],
       ws_reader = None, ws_trace = []\<rparr> = [(5, [1, 2]), (7, [])]"
proof -
  let ?chunk = "\<lambda>n (rest :: byte_seq). (min n (min 2 (length rest)), rest = [])"
  let ?w = "\<lparr>ws_messages = [BinaryMessage (take 3 (FrameInto [] 5 [1, 2])), TextMessage ''hello'', BinaryMessage (drop 3 (FrameInto [] 5 [1, 2]) @ FrameInto [] 7 [])],
       ws_reader = None, ws_trace = []\<rparr>"
  have "reader_ok ?chunk" by (auto simp: reader_ok_def)
  moreover have w: "ws_bytes ?w = concat (map (\<lambda>(dst, op, payload). FrameInto dst op payload) [([], 5, [1, 2]), ([], 7, [])])"
    by (simp add: ws_bytes_def binary_bytes_def flip: append_assoc)
  moreover have "length (ws_bytes ?w) < 20" unfolding w by (simp add: Frame_spec frame_spec_def)
  ultimately show ?thesis using ws_session [of ?chunk "[([], 5, [1, 2]), ([], 7, [])]" ?w 20] by simp
qed

end
