(* ===== verification/Query_Cache.thy ===== *)
theory Query_Cache
  imports Ecs_Registry
begin

text \<open>
  The query cache (\<open>server/ecs/query_cache.go\<close>): which component store a query over several components should walk. The map behind the
  atomic pointer is a partial function; a lost update between two writers only drops a plan, which is computed again.
\<close>

subsection \<open>Masks and sizes\<close>

definition comp_bit :: "nat \<Rightarrow> u64" where "comp_bit i = push_bit i 1"

definition compPosition :: u64 where "compPosition = comp_bit 0"
definition compMetadata :: u64 where "compMetadata = comp_bit 2"
definition compStats :: u64 where "compStats = comp_bit 3"
definition compAI :: u64 where "compAI = comp_bit 4"

definition store_size :: "'a store \<Rightarrow> int" where "store_size s = int (length (dense s))"

text \<open>The stores in the order of their bits.\<close>

definition sizes :: "Registry \<Rightarrow> int list" where
  "sizes r = [store_size (positions r), store_size (conns r), store_size (metadata r), store_size (stats r), store_size (ai r),
     store_size (inventories r), store_size (lifetimes r), store_size (itemTemplates r), store_size (equipment r), store_size (parties r),
     store_size (partyMembers r), store_size (effects r)]"

definition StoreSize :: "Registry \<Rightarrow> u64 \<Rightarrow> int" where
  "StoreSize r compType = (case find (\<lambda>i. comp_bit i = compType) [0..<12] of Some i \<Rightarrow> sizes r ! i | None \<Rightarrow> 0)"

subsection \<open>Plans\<close>

record QueryPlan =
  IterStore :: u64
  IterStoreSize :: int
  NeededStores :: u64

type_synonym QueryCache = "u64 \<rightharpoonup> QueryPlan"

definition cache_Init :: QueryCache where "cache_Init = Map.empty"

fun plan_loop :: "u64 \<Rightarrow> Registry \<Rightarrow> nat list \<Rightarrow> int \<times> u64 \<Rightarrow> int \<times> u64" where
  "plan_loop msk r [] best = best"
| "plan_loop msk r (i # is) (smallestSize, smallestComp) =
     (if msk AND comp_bit i = 0 then plan_loop msk r is (smallestSize, smallestComp)
      else let n = StoreSize r (comp_bit i)
        in if smallestSize < 0 \<or> n < smallestSize then plan_loop msk r is (n, comp_bit i)
           else plan_loop msk r is (smallestSize, smallestComp))"

definition computePlan :: "u64 \<Rightarrow> Registry \<Rightarrow> QueryPlan" where
  "computePlan msk r = (case plan_loop msk r [0..<12] (-1, 0) of
     (n, smallest) \<Rightarrow> \<lparr>IterStore = smallest, IterStoreSize = n, NeededStores = msk\<rparr>)"

definition storeEntry :: "u64 \<Rightarrow> QueryPlan \<Rightarrow> QueryCache \<Rightarrow> QueryCache" where
  "storeEntry msk plan qc = (case qc msk of Some _ \<Rightarrow> qc | None \<Rightarrow> qc(msk \<mapsto> plan))"

definition FindOrPlan :: "u64 \<Rightarrow> Registry \<Rightarrow> QueryCache \<Rightarrow> QueryPlan \<times> QueryCache" where
  "FindOrPlan msk r qc = (case qc msk of
     Some plan \<Rightarrow> (plan, qc)
   | None \<Rightarrow> let plan = computePlan msk r in (plan, storeEntry msk plan qc))"

definition Invalidate :: "QueryCache \<Rightarrow> QueryCache" where "Invalidate qc = Map.empty"

definition MaskPositionStats :: u64 where "MaskPositionStats = compPosition OR compStats"
definition MaskPositionAI :: u64 where "MaskPositionAI = compAI OR compPosition OR compStats"
definition MaskPositionMetadata :: u64 where "MaskPositionMetadata = compMetadata OR compPosition"

subsection \<open>The plan is the smallest store\<close>

lemma sizes_nonneg: "i < 12 \<Longrightarrow> 0 \<le> sizes r ! i"
proof -
  have "\<forall>x\<in>set (sizes r). 0 \<le> x" by (simp add: sizes_def store_size_def)
  moreover have "length (sizes r) = 12" by (simp add: sizes_def)
  ultimately show "i < 12 \<Longrightarrow> 0 \<le> sizes r ! i" by (metis nth_mem)
qed

lemma comp_bit_eq:
  assumes "i < 12"
  shows "comp_bit i = comp_bit j \<longleftrightarrow> i = j"
proof
  have bits: "bit (comp_bit k) n \<longleftrightarrow> k < 64 \<and> n = k" for k n by (auto simp: comp_bit_def bit_simps)
  assume "comp_bit i = comp_bit j"
  then have "bit (comp_bit j) i" using assms bits [of i i] by simp
  then show "i = j" by (simp add: bits)
qed simp

lemma StoreSize_bit: "i < 12 \<Longrightarrow> StoreSize r (comp_bit i) = sizes r ! i"
proof -
  assume i: "i < 12"
  have "find (\<lambda>j. comp_bit j = comp_bit i) [0..<12] = Some i"
    using i by (auto simp: find_Some_iff comp_bit_eq intro!: exI [of _ i])
  then show ?thesis by (simp add: StoreSize_def)
qed

definition in_mask :: "u64 \<Rightarrow> nat \<Rightarrow> bool" where "in_mask msk i \<longleftrightarrow> msk AND comp_bit i \<noteq> 0"

lemma plan_loop_least:
  assumes "\<forall>i\<in>set is. i < 12" and "plan_loop msk r is (s, c) = (s', c')"
  shows "(if s < 0 \<and> (\<forall>i\<in>set is. \<not> in_mask msk i) then (s', c') = (s, c)
     else 0 \<le> s' \<and> (\<forall>i\<in>set is. in_mask msk i \<longrightarrow> s' \<le> sizes r ! i) \<and> (0 \<le> s \<longrightarrow> s' \<le> s) \<and>
       ((s', c') = (s, c) \<or> (\<exists>i\<in>set is. in_mask msk i \<and> c' = comp_bit i \<and> s' = sizes r ! i)))"
  using assms
proof (induction "is" arbitrary: s c)
  case (Cons i "is")
  have i: "i < 12" using Cons.prems(1) by simp
  note size = StoreSize_bit [OF i, of r] sizes_nonneg [OF i, of r]
  show ?case
  proof (cases "in_mask msk i \<and> (s < 0 \<or> sizes r ! i < s)")
    case True
    then have "plan_loop msk r is (sizes r ! i, comp_bit i) = (s', c')" using Cons.prems(2) size by (simp add: in_mask_def Let_def)
    from Cons.IH [OF _ this] Cons.prems(1) size True show ?thesis by (auto split: if_splits)
  next
    case False
    then have "plan_loop msk r is (s, c) = (s', c')" using Cons.prems(2) size by (auto simp: in_mask_def Let_def split: if_splits)
    from Cons.IH [OF _ this] Cons.prems(1) size False show ?thesis by (auto split: if_splits)
  qed
qed auto

text \<open>
  A new plan names a smallest store among those of the msk, and the cache answers with it from then on, whatever the msk; a msk
  without a known component has no store.
\<close>

theorem plan_is_smallest:
  assumes miss: "qc msk = None" and run: "FindOrPlan msk r qc = (plan, qc')"
  shows "NeededStores plan = msk \<and> FindOrPlan msk r' qc' = (plan, qc') \<and> (\<forall>m. m \<noteq> msk \<longrightarrow> qc' m = qc m) \<and>
    (if \<exists>i<12. in_mask msk i
     then \<exists>i<12. in_mask msk i \<and> IterStore plan = comp_bit i \<and> IterStoreSize plan = sizes r ! i \<and>
       (\<forall>j<12. in_mask msk j \<longrightarrow> sizes r ! i \<le> sizes r ! j)
     else IterStoreSize plan = -1)"
proof -
  obtain s c where loop: "plan_loop msk r [0..<12] (-1, 0) = (s, c)" by (cases "plan_loop msk r [0..<12] (-1, 0)")
  then have plan: "plan = \<lparr>IterStore = c, IterStoreSize = s, NeededStores = msk\<rparr>" and qc': "qc' = qc(msk \<mapsto> plan)"
    using run miss by (auto simp: FindOrPlan_def computePlan_def storeEntry_def Let_def)
  have "if (\<forall>i<12. \<not> in_mask msk i) then s = -1
    else \<exists>i<12. in_mask msk i \<and> c = comp_bit i \<and> s = sizes r ! i \<and> (\<forall>j<12. in_mask msk j \<longrightarrow> s \<le> sizes r ! j)"
    using plan_loop_least [OF _ loop] by (auto split: if_splits)
  then show ?thesis by (auto simp: plan qc' FindOrPlan_def split: if_splits)
qed

text \<open>A cached plan is not updated when the stores change: nothing in the program calls \<open>Invalidate\<close>, or the cache at all.\<close>

lemma plan_goes_stale: "qc msk = Some plan \<Longrightarrow> FindOrPlan msk r qc = (plan, qc)"
  by (simp add: FindOrPlan_def)

lemma plan_example:
  "\<exists>plan qc'. FindOrPlan MaskPositionStats NewRegistry cache_Init = (plan, qc') \<and> IterStoreSize plan = 0 \<and>
     FindOrPlan MaskPositionStats r qc' = (plan, qc')"
proof -
  obtain plan qc' where run: "FindOrPlan MaskPositionStats NewRegistry cache_Init = (plan, qc')"
    by (cases "FindOrPlan MaskPositionStats NewRegistry cache_Init")
  have empty: "sizes NewRegistry ! i = 0" if "i < 12" for i
  proof -
    have "\<forall>x\<in>set (sizes NewRegistry). x = 0" by (simp add: sizes_def store_size_def NewRegistry_def empty_store_def)
    moreover have "length (sizes NewRegistry) = 12" by (simp add: sizes_def)
    ultimately show ?thesis using that by (metis nth_mem)
  qed
  have "in_mask MaskPositionStats 0"
    by (simp add: in_mask_def MaskPositionStats_def compPosition_def compStats_def comp_bit_def)
  then have "\<exists>i<12. in_mask MaskPositionStats i" by (intro exI [of _ 0]) simp
  with plan_is_smallest [OF _ run, of r] empty run show ?thesis by (auto simp: cache_Init_def)
qed

end
