(* ===== verification/Path_Smoothing.thy ===== *)
theory Path_Smoothing
  imports Astar "HOL-Library.Monad_Syntax"
begin

text \<open>
  \<open>server/peakgo/astar/astar.go\<close>, the post-processing of a path: \<open>hasLineOfSight\<close> walks the cells of the
  straight line between two cells with an integer error term, and \<open>SmoothPath\<close> drops the waypoints that
  a line of sight makes superfluous. The walk is shown to return, and to visit exactly the cells the line
  equation gives (\<open>line_cells\<close>); a smoothed path leads from the same start to the same goal through
  waypoints of the path in their order, each seen from the one before. The walk ends because the sign of
  the step is the sign of the distance, which the code does not repeat in its loop condition, so the loop
  is a partial function and \<open>None\<close> would be a walk that misses its end.
\<close>

subsection \<open>Line of sight\<close>

text \<open>
  The loop along the longer axis: \<open>a\<close> is the coordinate on it and \<open>b\<close> the other one, \<open>da\<close> and \<open>db\<close> the
  absolute distances. The code has it twice, the second time with the roles of \<open>x\<close> and \<open>z\<close> exchanged.
\<close>

partial_function (option) los_loop :: "IsWalkable \<Rightarrow> int \<Rightarrow> int \<Rightarrow> int \<Rightarrow> int \<Rightarrow> int \<Rightarrow> int \<Rightarrow> int \<Rightarrow> int \<Rightarrow> bool option" where
  [code]: "los_loop walk sa sb a2 da db a b err =
     (if a = a2 then Some (walk a b)
      else if \<not> walk a b then Some False
      else let (b', err') = (if err \<ge> 0 then (b + sb, err - 2 * da) else (b, err))
           in los_loop walk sa sb a2 da db (a + sa) b' (err' + 2 * db))"

definition hasLineOfSight :: "int \<Rightarrow> int \<Rightarrow> int \<Rightarrow> int \<Rightarrow> IsWalkable \<Rightarrow> bool option" where
  "hasLineOfSight x1 z1 x2 z2 walk =
     (let dx = x2 - x1; dz = z2 - z1;
          absDx = (if dx < 0 then - dx else dx);
          absDz = (if dz < 0 then - dz else dz);
          sx = (if dx > 0 then 1 else if dx < 0 then -1 else 0);
          sz = (if dz > 0 then 1 else if dz < 0 then -1 else 0)
      in if absDx \<ge> absDz
         then los_loop walk sx sz x2 absDx absDz x1 z1 (2 * absDz - absDx)
         else los_loop (\<lambda>z x. walk x z) sz sx z2 absDz absDx z1 x1 (2 * absDx - absDz))"

subsection \<open>Smoothing\<close>

text \<open>\<open>smoothed.Len++; smoothed.Points[smoothed.Len-1] = p\<close>.\<close>

definition add_point :: "int \<times> int \<Rightarrow> PathResult \<Rightarrow> PathResult" where
  "add_point p r = r\<lparr>path_Len := path_Len r + 1, path_Points := (path_Points r)[path_Len r := p]\<rparr>"

definition sees :: "IsWalkable \<Rightarrow> int \<times> int \<Rightarrow> int \<times> int \<Rightarrow> bool option" where
  "sees walk p q = hasLineOfSight (fst p) (snd p) (fst q) (snd q) walk"

fun smooth_loop :: "IsWalkable \<Rightarrow> (int \<times> int) list \<Rightarrow> nat list \<Rightarrow> nat \<Rightarrow> PathResult \<Rightarrow> (nat \<times> PathResult) option" where
  "smooth_loop walk pts [] lastKey r = Some (lastKey, r)"
| "smooth_loop walk pts (i # is) lastKey r =
     do { seen \<leftarrow> sees walk (pts ! lastKey) (pts ! (i + 1));
          if seen then smooth_loop walk pts is lastKey r
          else smooth_loop walk pts is i (add_point (pts ! i) r) }"

definition SmoothPath :: "PathResult \<Rightarrow> IsWalkable \<Rightarrow> PathResult option" where
  "SmoothPath path walk =
     (if path_Len path \<le> 2 then Some path
      else let pts = path_Points path;
               r0 = zero_path\<lparr>path_Found := path_Found path, path_Len := 1,
                              path_Points := (path_Points zero_path)[0 := pts ! 0]\<rparr>
           in do { (lastKey, r) \<leftarrow> smooth_loop walk pts [1..<path_Len path - 1] 0 r0;
                   Some (if lastKey \<noteq> path_Len path - 1 then add_point (pts ! (path_Len path - 1)) r else r) })"

subsection \<open>The cells of a line\<close>

text \<open>
  The line equation: after \<open>k\<close> steps along the longer axis the line has moved by \<open>k * db / da\<close> on the
  other one, rounded to the nearest cell.
\<close>

definition drift :: "int \<Rightarrow> int \<Rightarrow> int \<Rightarrow> int" where
  "drift da db k = (2 * db * k + da) div (2 * da)"

definition line_cells :: "int \<Rightarrow> int \<Rightarrow> int \<Rightarrow> int \<Rightarrow> (int \<times> int) list" where
  "line_cells x1 z1 x2 z2 =
     (let adx = \<bar>x2 - x1\<bar>; adz = \<bar>z2 - z1\<bar>
      in if adx \<ge> adz
         then map (\<lambda>k. (x1 + sgn (x2 - x1) * k, z1 + sgn (z2 - z1) * drift adx adz k)) [0..adx]
         else map (\<lambda>k. (x1 + sgn (x2 - x1) * drift adz adx k, z1 + sgn (z2 - z1) * k)) [0..adz])"

lemma drift_0: "0 < da \<Longrightarrow> drift da db 0 = 0"
  by (simp add: drift_def)

lemma drift_end: "0 < da \<Longrightarrow> drift da db da = db"
proof -
  assume "0 < da"
  then have "(2 * db * da + da) div (2 * da) = ((2 * db + 1) * da) div (2 * da)" by (simp add: algebra_simps)
  also have "\<dots> = (2 * db + 1) div 2" using \<open>0 < da\<close> by simp
  finally show ?thesis by (simp add: drift_def)
qed

lemma drift_Suc:
  assumes "0 < da" "0 \<le> db" "db \<le> da"
  shows "drift da db (k + 1) =
    (if 2 * db * (k + 1) - da - 2 * da * drift da db k \<ge> 0 then drift da db k + 1 else drift da db k)"
proof -
  let ?m = "2 * db * k + da" and ?q = "drift da db k"
  have m: "?m = 2 * da * ?q + ?m mod (2 * da)" by (simp add: drift_def)
  have r: "0 \<le> ?m mod (2 * da)" "?m mod (2 * da) < 2 * da" using assms(1) by auto
  have e: "2 * db * (k + 1) + da = 2 * da * ?q + (?m mod (2 * da) + 2 * db)"
    using m by (simp add: algebra_simps)
  have "drift da db (k + 1) = (2 * da * ?q + (?m mod (2 * da) + 2 * db)) div (2 * da)"
    by (simp only: drift_def [of da db "k + 1"] e)
  then have d: "drift da db (k + 1) = ?q + (?m mod (2 * da) + 2 * db) div (2 * da)"
    using assms(1) by simp
  show ?thesis
  proof (cases "?m mod (2 * da) + 2 * db \<ge> 2 * da")
    case True
    have "w div (2 * da) = 1" if "2 * da \<le> w" "w < 4 * da" for w
      using that assms(1) by (simp add: div_pos_geq div_pos_pos_trivial)
    then have "(?m mod (2 * da) + 2 * db) div (2 * da) = 1" using True r assms(3) by auto
    then show ?thesis using True e d by (simp add: algebra_simps)
  next
    case False
    then have "(?m mod (2 * da) + 2 * db) div (2 * da) = 0" using r assms by (intro div_pos_pos_trivial) auto
    then show ?thesis using False e d by (simp add: algebra_simps)
  qed
qed

text \<open>The error term of the loop after \<open>k\<close> steps is the remainder of the line equation; the loop returns.\<close>

lemma los_loop_exact:
  assumes "0 < da" "0 \<le> db" "db \<le> da" "sa = 1 \<or> sa = -1" "0 \<le> k" "k \<le> da"
  shows "los_loop walk sa sb (a1 + sa * da) da db (a1 + sa * k) (b1 + sb * drift da db k)
           (2 * db * (k + 1) - da - 2 * da * drift da db k) =
         Some (\<forall>j \<in> set [k..da]. walk (a1 + sa * j) (b1 + sb * drift da db j))"
  using assms(5,6)
proof (induction "nat (da - k)" arbitrary: k)
  case 0
  then show ?case by (subst los_loop.simps) simp
next
  case (Suc n)
  then have k: "k < da" by simp
  then have ne: "sa * k \<noteq> sa * da" using assms(4) by auto
  have split: "[k..da] = k # [k + 1..da]" using k by (simp add: upto_rec1)
  have IH: "los_loop walk sa sb (a1 + sa * da) da db (a1 + sa * (k + 1)) (b1 + sb * drift da db (k + 1))
           (2 * db * (k + 1 + 1) - da - 2 * da * drift da db (k + 1)) =
         Some (\<forall>j \<in> set [k + 1..da]. walk (a1 + sa * j) (b1 + sb * drift da db j))"
    using Suc k by (intro Suc.hyps(1)) auto
  show ?case
    using IH k ne drift_Suc [OF assms(1-3), of k] by (subst los_loop.simps)
      (auto simp: split algebra_simps split: if_splits)
qed

theorem hasLineOfSight_exact:
  "hasLineOfSight x1 z1 x2 z2 walk = Some (\<forall>(x, z) \<in> set (line_cells x1 z1 x2 z2). walk x z)"
proof -
  have one: "sgn d = 1 \<or> sgn d = -1" if "d \<noteq> 0" for d :: int using that by (simp add: sgn_if)
  have dist: "c1 + sgn (c2 - c1) * \<bar>c2 - c1\<bar> = c2" for c1 c2 :: int by (simp add: sgn_if)
  have sg: "(if d > 0 then 1 else if d < 0 then -1 else 0) = sgn d" "(if d < 0 then - d else d) = \<bar>d\<bar>" for d :: int
    by (auto simp: sgn_if)
  let ?dx = "\<bar>x2 - x1\<bar>" and ?dz = "\<bar>z2 - z1\<bar>"
  consider (pt) "x2 = x1" "z2 = z1" | (major_x) "?dx \<ge> ?dz" "x2 \<noteq> x1" | (major_z) "?dz > ?dx" "z2 \<noteq> z1" by linarith
  then show ?thesis
  proof cases
    case pt
    then show ?thesis by (simp add: hasLineOfSight_def line_cells_def los_loop.simps)
  next
    case major_x
    have "los_loop walk (sgn (x2 - x1)) (sgn (z2 - z1)) x2 ?dx ?dz x1 z1 (2 * ?dz - ?dx) =
        Some (\<forall>k \<in> set [0..?dx]. walk (x1 + sgn (x2 - x1) * k) (z1 + sgn (z2 - z1) * drift ?dx ?dz k))"
      using los_loop_exact [of ?dx ?dz "sgn (x2 - x1)" 0 walk "sgn (z2 - z1)" x1 z1] major_x one [of "x2 - x1"]
      by (simp add: drift_0 dist)
    with major_x show ?thesis by (simp add: hasLineOfSight_def line_cells_def Let_def sg)
  next
    case major_z
    have "los_loop (\<lambda>z x. walk x z) (sgn (z2 - z1)) (sgn (x2 - x1)) z2 ?dz ?dx z1 x1 (2 * ?dx - ?dz) =
        Some (\<forall>k \<in> set [0..?dz]. walk (x1 + sgn (x2 - x1) * drift ?dz ?dx k) (z1 + sgn (z2 - z1) * k))"
      using los_loop_exact [of ?dz ?dx "sgn (z2 - z1)" 0 "\<lambda>z x. walk x z" "sgn (x2 - x1)" z1 x1] major_z one [of "z2 - z1"]
      by (simp add: drift_0 dist)
    with major_z show ?thesis by (simp add: hasLineOfSight_def line_cells_def Let_def sg)
  qed
qed

text \<open>The line starts and ends at the two cells, and a neighbour is seen exactly over walkable ends.\<close>

lemma line_cells_ends:
  "line_cells x1 z1 x2 z2 \<noteq> [] \<and> hd (line_cells x1 z1 x2 z2) = (x1, z1) \<and> last (line_cells x1 z1 x2 z2) = (x2, z2)"
proof -
  have ends: "[0..n] \<noteq> []" "hd [0..n] = 0" "last [0..n] = n" if "0 \<le> n" for n :: int
    using that by (simp, simp add: upto_rec1, simp only: upto_rec2 last_snoc)
  have dist: "sgn d * \<bar>d\<bar> = d" for d :: int by (simp add: sgn_if)
  consider "x2 = x1" "z2 = z1" | "\<bar>x2 - x1\<bar> \<ge> \<bar>z2 - z1\<bar>" "x2 \<noteq> x1" | "\<not> \<bar>x2 - x1\<bar> \<ge> \<bar>z2 - z1\<bar>" "z2 \<noteq> z1"
    by linarith
  then show ?thesis
    by cases (simp_all add: line_cells_def Let_def ends hd_map last_map drift_0 drift_end dist)
qed

lemma sees_neighbour:
  assumes "legal_step walk p q" "walk (fst p) (snd p)"
  shows "sees walk p q = Some True"
proof -
  have near: "drift 1 d 0 = 0" "drift 1 d 1 = d" for d by (simp_all add: drift_0 drift_end)
  have "\<bar>fst q - fst p\<bar> \<le> 1" "\<bar>snd q - snd p\<bar> \<le> 1" using assms(1) by (auto simp: legal_step_def)
  then have cs: "fst q - fst p \<in> {-1, 0, 1}" "snd q - snd p \<in> {-1, 0, 1}" by auto
  have "set (line_cells (fst p) (snd p) (fst q) (snd q)) \<subseteq> {p, q}"
  proof -
    obtain i j where "fst q = fst p + i" "snd q = snd p + j" "i \<in> {-1, 0, 1}" "j \<in> {-1, 0, 1}"
      using cs by (metis diff_add_cancel add.commute)
    then show ?thesis
      by (cases p; cases q) (auto simp: line_cells_def Let_def near upto_rec1)
  qed
  moreover have "walk (fst q) (snd q)" using assms(1) by (simp add: legal_step_def)
  ultimately show ?thesis using assms(2) by (auto simp: sees_def hasLineOfSight_exact)
qed

subsection \<open>What smoothing keeps\<close>

definition waypoints :: "PathResult \<Rightarrow> (int \<times> int) list" where
  "waypoints r = take (path_Len r) (path_Points r)"

lemma waypoints_add_point:
  "path_Len r < length (path_Points r) \<Longrightarrow> waypoints (add_point p r) = waypoints r @ [p]"
  by (simp add: waypoints_def add_point_def take_Suc_conv_app_nth)

lemma add_point_simps [simp]:
  "path_Found (add_point p r) = path_Found r" "path_Len (add_point p r) = path_Len r + 1"
  "length (path_Points (add_point p r)) = length (path_Points r)"
  by (simp_all add: add_point_def)

lemma ascending_last: "sorted_wrt (<) ks \<Longrightarrow> k \<in> set ks \<Longrightarrow> k \<le> last ks" for ks :: "nat list"
  by (induction ks rule: rev_induct) (auto simp: sorted_wrt_append dest: less_imp_le)

lemma ascending_length: "sorted_wrt (<) ks \<Longrightarrow> ks \<noteq> [] \<Longrightarrow> length ks \<le> last ks + 1" for ks :: "nat list"
proof (induction ks rule: rev_induct)
  case (snoc k ks)
  then show ?case
    by (cases "ks = []") (auto simp: sorted_wrt_append dest: bspec [of _ _ "last ks"])
qed simp

text \<open>\<open>r\<close> holds the points of the path at the ascending indices \<open>ks\<close>, each seen from the one before.\<close>

definition smoothed_to :: "IsWalkable \<Rightarrow> (int \<times> int) list \<Rightarrow> nat list \<Rightarrow> PathResult \<Rightarrow> bool" where
  "smoothed_to walk pts ks r \<longleftrightarrow> path_Found r \<and> length (path_Points r) = MaxPathNodes \<and> path_Len r = length ks \<and>
     waypoints r = map ((!) pts) ks \<and> ks \<noteq> [] \<and> hd ks = 0 \<and> sorted_wrt (<) ks \<and>
     successively (\<lambda>j k. sees walk (pts ! j) (pts ! k) = Some True) ks"

lemma smoothed_to_add:
  assumes "smoothed_to walk pts ks r" "last ks < i" "i < MaxPathNodes" "sees walk (pts ! last ks) (pts ! i) = Some True"
  shows "smoothed_to walk pts (ks @ [i]) (add_point (pts ! i) r)"
proof -
  have "length ks < MaxPathNodes" using assms ascending_length [of ks] by (simp add: smoothed_to_def)
  moreover have "k < i" if "k \<in> set ks" for k
    using assms(1,2) that ascending_last [of ks k] by (simp add: smoothed_to_def)
  ultimately show ?thesis
    using assms by (simp add: smoothed_to_def waypoints_add_point sorted_wrt_append successively_append_iff)
qed

lemma sees_total: "\<exists>v. sees walk p q = Some v"
  by (simp add: sees_def hasLineOfSight_exact)

lemma smooth_loop_ok:
  assumes "smoothed_to walk pts ks r" "last ks < i" "i \<le> n" "n < MaxPathNodes"
    and "sees walk (pts ! last ks) (pts ! i) = Some True"
    and "\<forall>j < n. sees walk (pts ! j) (pts ! (j + 1)) = Some True"
  shows "\<exists>ks' r'. smooth_loop walk pts [i..<n] (last ks) r = Some (last ks', r') \<and> smoothed_to walk pts ks' r' \<and>
           last ks' < n \<and> sees walk (pts ! last ks') (pts ! n) = Some True"
  using assms(1,2,3,5)
proof (induction "n - i" arbitrary: i ks r)
  case 0
  then show ?case by auto
next
  case (Suc m)
  then have lt: "i < n" by simp
  obtain v where v: "sees walk (pts ! last ks) (pts ! (i + 1)) = Some v" using sees_total by blast
  show ?case
  proof (cases v)
    case True
    have "\<exists>ks' r'. smooth_loop walk pts [i + 1..<n] (last ks) r = Some (last ks', r') \<and> smoothed_to walk pts ks' r' \<and>
           last ks' < n \<and> sees walk (pts ! last ks') (pts ! n) = Some True"
      using Suc.prems Suc.hyps(2) lt v True by (intro Suc.hyps(1)) auto
    then show ?thesis using lt v True by (simp add: upt_conv_Cons)
  next
    case False
    have "smoothed_to walk pts (ks @ [i]) (add_point (pts ! i) r)"
      using Suc.prems lt assms(4) by (intro smoothed_to_add) auto
    then have "\<exists>ks' r'. smooth_loop walk pts [i + 1..<n] (last (ks @ [i])) (add_point (pts ! i) r) = Some (last ks', r') \<and>
           smoothed_to walk pts ks' r' \<and> last ks' < n \<and> sees walk (pts ! last ks') (pts ! n) = Some True"
      using Suc.hyps(2) lt assms(6) by (intro Suc.hyps(1)) auto
    then show ?thesis using lt v False by (simp add: upt_conv_Cons)
  qed
qed

lemma take_first: "0 < length xs \<Longrightarrow> take (Suc 0) (xs[0 := p]) = [p]"
  by (cases xs) simp_all

lemma found_walkable:
  "path_Found (fst (FindPathWithCache pc sx sz ex ez walk m)) \<Longrightarrow>
     path_Len (fst (FindPathWithCache pc sx sz ex ez walk m)) = 1 \<or> walk sx sz"
  by (auto simp: FindPathWithCache_def findPath_def zero_path_def split: if_splits)

lemma smooth_long:
  assumes sound: "sound_result walk a b path" and found: "path_Found path"
    and start: "walk (fst a) (snd a)" and long: "path_Len path > 2"
  shows "\<exists>ks r. SmoothPath path walk = Some r \<and> smoothed_to walk (path_Points path) ks r \<and> last ks = path_Len path - 1"
proof -
  let ?pts = "path_Points path" and ?n = "path_Len path"
  let ?r0 = "zero_path\<lparr>path_Found := path_Found path, path_Len := 1, path_Points := (path_Points zero_path)[0 := ?pts ! 0]\<rparr>"
  have n: "?n \<le> MaxPathNodes" "length ?pts = MaxPathNodes" and legal: "legal_path walk a b (waypoints path)"
    using sound found by (auto simp: sound_result_def waypoints_def)
  have step: "legal_step walk (?pts ! j) (?pts ! (j + 1))" if "j + 1 < ?n" for j
    using legal that n by (auto simp: legal_path_def waypoints_def successively_conv_nth)
  have first: "?pts ! 0 = a"
    using legal n long by (auto simp: legal_path_def waypoints_def hd_conv_nth)
  have on: "walk (fst (?pts ! j)) (snd (?pts ! j))" if "j < ?n" for j
    using that first start step [of "j - 1"] by (cases j) (auto simp: legal_step_def)
  have next_seen: "sees walk (?pts ! j) (?pts ! (j + 1)) = Some True" if "j < ?n - 1" for j
    using that step [of j] on [of j] by (intro sees_neighbour) auto
  have "smoothed_to walk ?pts [0] ?r0"
    using found by (simp add: smoothed_to_def waypoints_def zero_path_def take_first)
  then have "\<exists>ks r. smooth_loop walk ?pts [1..<?n - 1] 0 ?r0 = Some (last ks, r) \<and> smoothed_to walk ?pts ks r \<and>
      last ks < ?n - 1 \<and> sees walk (?pts ! last ks) (?pts ! (?n - 1)) = Some True"
    using smooth_loop_ok [of walk ?pts "[0]" ?r0 1 "?n - 1"] next_seen next_seen [of 0] long n by simp
  then obtain ks r where loop: "smooth_loop walk ?pts [1..<?n - 1] 0 ?r0 = Some (last ks, r)"
    "smoothed_to walk ?pts ks r" "last ks < ?n - 1" "sees walk (?pts ! last ks) (?pts ! (?n - 1)) = Some True"
    by blast
  have "smoothed_to walk ?pts (ks @ [?n - 1]) (add_point (?pts ! (?n - 1)) r)"
    using loop n long by (intro smoothed_to_add) auto
  moreover have "SmoothPath path walk = Some (add_point (?pts ! (?n - 1)) r)"
    using loop(1,3) long by (simp add: SmoothPath_def Let_def)
  ultimately show ?thesis by (intro exI [of _ "ks @ [?n - 1]"]) auto
qed

text \<open>\<open>q\<close> is in sight of \<open>p\<close>: every cell of the line between them is walkable.\<close>

definition in_sight :: "IsWalkable \<Rightarrow> int \<times> int \<Rightarrow> int \<times> int \<Rightarrow> bool" where
  "in_sight walk p q \<longleftrightarrow> (\<forall>(x, z) \<in> set (line_cells (fst p) (snd p) (fst q) (snd q)). walk x z)"

lemma sees_in_sight: "sees walk p q = Some (in_sight walk p q)"
  by (simp add: sees_def in_sight_def hasLineOfSight_exact)

lemma smooth_short:
  assumes "legal_path walk a b (waypoints path)" "path_Len path = 1 \<or> walk (fst a) (snd a)" "path_Len path \<le> 2"
    "path_Len path \<le> length (path_Points path)"
  shows "successively (in_sight walk) (waypoints path)"
proof (cases "waypoints path" rule: remdups_adj.cases)
  case (3 p q ps)
  from assms(4) have len: "length (waypoints path) = path_Len path" by (simp add: waypoints_def)
  with 3 assms(3) have "ps = []" by (cases ps) simp_all
  with 3 have "waypoints path = [p, q]" by simp
  moreover from this have "legal_step walk p q" "p = a" using assms(1) by (auto simp: legal_path_def)
  moreover from this have "walk (fst p) (snd p)" using assms(2) 3 len by auto
  ultimately show ?thesis using sees_neighbour [of walk p q] by (simp add: sees_in_sight)
qed auto

text \<open>
  C34: Smoothing a path the search found always returns, and gives a path of no more waypoints that are points
  of the path in their order, from the same start to the same goal, each in sight of the one before.
\<close>

theorem smoothed_path_clear:
  assumes "cache_ok pc" and "FindPathWithCache pc sx sz ex ez walk m = (path, pc')" and "path_Found path"
  shows "\<exists>ks r. SmoothPath path walk = Some r \<and> path_Found r \<and> path_Len r \<le> path_Len path \<and>
    sorted_wrt (<) ks \<and> waypoints r = map ((!) (waypoints path)) ks \<and>
    hd (waypoints r) = (sx, sz) \<and> last (waypoints r) = (ex, ez) \<and> successively (in_sight walk) (waypoints r)"
proof -
  have sound: "sound_result walk (sx, sz) (ex, ez) path"
    using findPath_sound_result [OF cache_ok_reset [OF assms(1)], of walk sx sz ex ez m] assms(2)
    by (simp add: FindPathWithCache_def)
  then have n: "0 < path_Len path" "path_Len path \<le> length (path_Points path)"
    and legal: "legal_path walk (sx, sz) (ex, ez) (waypoints path)"
    using assms(3) by (auto simp: sound_result_def waypoints_def)
  have len: "length (waypoints path) = path_Len path" using n by (simp add: waypoints_def)
  have start: "path_Len path = 1 \<or> walk sx sz"
    using found_walkable [of pc sx sz ex ez walk m] assms(2,3) by auto
  show ?thesis
  proof (cases "path_Len path \<le> 2")
    case True
    have "successively (in_sight walk) (waypoints path)"
      using smooth_short [OF legal _ True n(2)] start by simp
    moreover have "map ((!) (waypoints path)) [0..<path_Len path] = waypoints path"
      using map_nth [of "waypoints path"] by (simp add: len)
    ultimately show ?thesis using True legal assms(3)
      by (intro exI [of _ "[0..<path_Len path]"] exI [of _ path]) (simp add: SmoothPath_def legal_path_def)
  next
    case False
    then obtain ks r where r: "SmoothPath path walk = Some r" "smoothed_to walk (path_Points path) ks r"
      "last ks = path_Len path - 1"
      using smooth_long [OF sound assms(3)] start by auto
    then have ends: "ks \<noteq> []" "hd ks = 0" by (simp_all add: smoothed_to_def)
    have below: "k < path_Len path" if "k \<in> set ks" for k
      using ascending_last [of ks k] that r(2,3) n(1) by (simp add: smoothed_to_def)
    then have ws: "waypoints r = map ((!) (waypoints path)) ks"
      using r(2) by (auto simp: smoothed_to_def waypoints_def)
    have "path_Len r \<le> path_Len path"
      using ascending_length [of ks] r(2,3) n(1) by (simp add: smoothed_to_def)
    moreover have "successively (in_sight walk) (waypoints r)"
      using r(2) by (simp add: smoothed_to_def successively_map sees_in_sight)
    moreover have "hd (waypoints r) = (sx, sz)" "last (waypoints r) = (ex, ez)"
      using ends(1) legal n(1) len
      by (auto simp: ws hd_map last_map ends r(3) legal_path_def hd_conv_nth [of "waypoints path"] last_conv_nth [of "waypoints path"])
    ultimately show ?thesis using r ws by (intro exI [of _ ks] exI [of _ r]) (simp add: smoothed_to_def)
  qed
qed

theorem smoothed_path_clear_witness:
  "\<exists>ks r. SmoothPath (fst (FindPathWithCache NewPathCache 0 0 2 0 walled 0)) walled = Some r \<and> path_Found r \<and>
     hd (waypoints r) = (0, 0) \<and> last (waypoints r) = (2, 0) \<and> successively (in_sight walled) (waypoints r)"
  using smoothed_path_clear [OF cache_ok_new prod.collapse [symmetric] walled_found] by blast

text \<open>
  The search never cuts a corner, but the line of sight does not ask about the two cells a diagonal step
  passes between. Behind an obstacle at (1, 0) the search goes round the corner, and smoothing takes the
  diagonal the search had refused.
\<close>

lemma smoothing_cuts_corner:
  "let path = fst (FindPathWithCache NewPathCache 0 0 1 1 walled 0)
   in path_Found path \<and> waypoints path = [(0, 0), (0, 1), (1, 1)] \<and>
      map_option waypoints (SmoothPath path walled) = Some [(0, 0), (1, 1)] \<and>
      \<not> legal_step walled (0, 0) (1, 1)"
proof -
  have "fst (FindPathWithCache NewPathCache 0 0 1 1 walled 0) =
      \<lparr>path_Found = True, path_Len = 3, path_Points = [(0, 0), (0, 1), (1, 1)] @ replicate (MaxPathNodes - 3) (0, 0)\<rparr>"
    by code_simp
  moreover have "sees walled (0, 0) (1, 1) = Some True" by code_simp
  ultimately show ?thesis
    by (simp add: SmoothPath_def waypoints_def add_point_def zero_path_def legal_step_def walled_def MaxPathNodes_def
        numeral_eq_Suc)
qed

end
