(* ===== verification/Diagnostics.thy ===== *)
theory Diagnostics
  imports Party Perf Decimal
begin

text \<open>
  \<open>server/ecs/diagnostics.go\<close>: the statistics of queries and component stores, and the leak detector, which
  walks every store and reports entities without position or stats, components without metadata and
  references to entities without metadata. The texts of a report are as in the code; the time of a scan is a
  parameter. A scan enters its own duration into the tick monitor of the game, as a step of it.
\<close>

subsection \<open>Query statistics\<close>

record QueryCount =
  qc_Name :: string
  qc_Count :: u64
  qc_TotalTime :: int
  qc_LastTime :: int
  qc_MinTime :: int
  qc_MaxTime :: int

record LeakEntry =
  le_EntityID :: entity
  le_Description :: string
  le_Detail :: string

record LeakReport =
  lr_OrphanCount :: nat
  lr_ForgottenCount :: nat
  lr_InvalidRefCount :: nat
  lr_TotalScanned :: nat
  lr_ScanTime :: string
  lr_Orphans :: "LeakEntry list"
  lr_Forgotten :: "LeakEntry list"
  lr_InvalidReferences :: "LeakEntry list"
  lr_Warnings :: "string list"

record ECSDiagnostics =
  dg_EntityCount :: nat
  dg_ComponentCounts :: "string \<rightharpoonup> nat"
  dg_QueryCounts :: "string \<rightharpoonup> QueryCount"
  dg_LastScanTime :: string
  dg_LeakReport :: "LeakReport option"

definition GlobalECSStats :: ECSDiagnostics where
  "GlobalECSStats = \<lparr>dg_EntityCount = 0, dg_ComponentCounts = Map.empty, dg_QueryCounts = Map.empty, dg_LastScanTime = [],
     dg_LeakReport = None\<rparr>"

definition RefreshDiagnostics :: "string \<Rightarrow> Registry \<Rightarrow> ECSDiagnostics \<Rightarrow> ECSDiagnostics" where
  "RefreshDiagnostics now r d = d\<lparr>dg_EntityCount := length (GetAllEntities r),
     dg_ComponentCounts := map_of
       [(''position'', length (dense (positions r))), (''connection'', length (dense (conns r))),
        (''metadata'', length (dense (metadata r))), (''stats'', length (dense (stats r))),
        (''ai'', length (dense (ai r))), (''inventory'', length (dense (inventories r))),
        (''lifetime'', length (dense (lifetimes r))), (''item_template'', length (dense (itemTemplates r))),
        (''equipment'', length (dense (equipment r))), (''party'', length (dense (parties r))),
        (''party_member'', length (dense (partyMembers r))), (''effects'', length (dense (effects r)))],
     dg_LastScanTime := now\<rparr>"

definition RecordQuery :: "string \<Rightarrow> int \<Rightarrow> ECSDiagnostics \<Rightarrow> ECSDiagnostics" where
  "RecordQuery name dur d =
     (let qc = (case dg_QueryCounts d name of Some qc \<Rightarrow> qc
        | None \<Rightarrow> \<lparr>qc_Name = name, qc_Count = 0, qc_TotalTime = 0, qc_LastTime = 0, qc_MinTime = dur, qc_MaxTime = dur\<rparr>);
          qc1 = qc\<lparr>qc_Count := qc_Count qc + 1, qc_LastTime := dur, qc_TotalTime := qc_TotalTime qc + dur\<rparr>;
          qc2 = (if dur < qc_MinTime qc1 then qc1\<lparr>qc_MinTime := dur\<rparr> else qc1);
          qc3 = (if dur > qc_MaxTime qc2 then qc2\<lparr>qc_MaxTime := dur\<rparr> else qc2)
      in d\<lparr>dg_QueryCounts := (dg_QueryCounts d)(name \<mapsto> qc3)\<rparr>)"

text \<open>\<open>GetDiagnostics\<close> copies field by field, the snapshot for the dashboard only the counters.\<close>

definition GetDiagnostics :: "ECSDiagnostics \<Rightarrow> ECSDiagnostics" where
  "GetDiagnostics d = \<lparr>dg_EntityCount = dg_EntityCount d, dg_ComponentCounts = (\<lambda>k. dg_ComponentCounts d k),
     dg_QueryCounts = (\<lambda>k. map_option (\<lambda>v. \<lparr>qc_Name = qc_Name v, qc_Count = qc_Count v, qc_TotalTime = qc_TotalTime v,
        qc_LastTime = qc_LastTime v, qc_MinTime = qc_MinTime v, qc_MaxTime = qc_MaxTime v\<rparr>) (dg_QueryCounts d k)),
     dg_LastScanTime = dg_LastScanTime d, dg_LeakReport = dg_LeakReport d\<rparr>"

record ECSSnapshotMetrics =
  sm_EntityCount :: nat
  sm_Components :: "string \<rightharpoonup> nat"
  sm_Queries :: "string \<rightharpoonup> u64"

definition diag_Snapshot :: "ECSDiagnostics \<Rightarrow> ECSSnapshotMetrics" where
  "diag_Snapshot d = \<lparr>sm_EntityCount = dg_EntityCount d, sm_Components = (\<lambda>k. dg_ComponentCounts d k),
     sm_Queries = (\<lambda>k. map_option qc_Count (dg_QueryCounts d k))\<rparr>"

subsection \<open>Numbers in reports\<close>

text \<open>
  The loop that fills a buffer from its end while \<open>n > 0\<close> or nothing is written yet. The buffers have 20
  and 12 bytes; \<open>id_string_fits\<close> shows that a 64-bit identifier needs no more than 20.
\<close>

function fill_digits :: "nat \<Rightarrow> string \<Rightarrow> string" where
  "fill_digits n acc = (if n > 0 \<or> acc = [] then fill_digits (n div 10) (digits ! (n mod 10) # acc) else acc)"
  by pat_completeness auto
termination by (relation "measure (\<lambda>(n, acc). n + (if acc = [] then 1 else 0))") auto

declare fill_digits.simps [simp del]

definition entityIDToString :: "entity \<Rightarrow> string" where
  "entityIDToString e = (if e = 0 then ''0'' else fill_digits (unat e) [])"

definition entityCountToString :: "nat \<Rightarrow> string" where
  "entityCountToString n = (if n = 0 then ''0'' else fill_digits n [])"

subsection \<open>The leak detector\<close>

definition add_orphan :: "entity \<Rightarrow> MetadataComponent \<Rightarrow> string \<Rightarrow> LeakReport \<Rightarrow> LeakReport" where
  "add_orphan e m what rep = rep\<lparr>
     lr_Orphans := lr_Orphans rep @ [\<lparr>le_EntityID = e, le_Description = what,
        le_Detail = ''Type='' @ EntityType_String (meta_Type m) @ '', Name='' @ meta_Name m\<rparr>],
     lr_OrphanCount := lr_OrphanCount rep + 1\<rparr>"

definition orphan_visit :: "Registry \<Rightarrow> entity \<Rightarrow> MetadataComponent \<Rightarrow> LeakReport \<Rightarrow> bool \<times> LeakReport" where
  "orphan_visit r e m rep =
     (let rep = rep\<lparr>lr_TotalScanned := lr_TotalScanned rep + 1\<rparr>;
          hasPos = GetPosition r e \<noteq> None; hasStats = GetStats r e \<noteq> None
      in (True,
          if \<not> hasPos \<and> \<not> hasStats then add_orphan e m ''Entity has Metadata but NO Position or Stats'' rep
          else if \<not> hasPos then add_orphan e m ''Entity has Metadata but NO Position component'' rep
          else if \<not> hasStats then add_orphan e m ''Entity has Metadata but NO Stats component'' rep
          else rep))"

type_synonym id_walk = "(entity \<Rightarrow> LeakEntry list \<Rightarrow> bool \<times> LeakEntry list) \<Rightarrow> LeakEntry list \<Rightarrow> LeakEntry list"

definition checkForgotten :: "Registry \<Rightarrow> string \<Rightarrow> id_walk \<Rightarrow> LeakReport \<Rightarrow> LeakReport" where
  "checkForgotten r storeName storeFunc rep =
     (let forgotten = storeFunc (\<lambda>e acc. (True,
            if GetMetadata r e = None
            then acc @ [\<lparr>le_EntityID = e, le_Description = ''Orphan '' @ storeName @ '' component (no parent Metadata)'',
                   le_Detail = ''Component exists but entity '' @ entityIDToString e @ '' has no Metadata''\<rparr>]
            else acc)) []
      in if length forgotten > 0
         then rep\<lparr>lr_Forgotten := lr_Forgotten rep @ forgotten, lr_ForgottenCount := lr_ForgottenCount rep + length forgotten\<rparr>
         else rep)"

definition add_invalid :: "entity \<Rightarrow> string \<Rightarrow> string \<Rightarrow> LeakReport \<Rightarrow> LeakReport" where
  "add_invalid e what detail rep = rep\<lparr>
     lr_InvalidReferences := lr_InvalidReferences rep @ [\<lparr>le_EntityID = e, le_Description = what, le_Detail = detail\<rparr>],
     lr_InvalidRefCount := lr_InvalidRefCount rep + 1\<rparr>"

definition party_member_visit :: "Registry \<Rightarrow> entity \<Rightarrow> entity \<Rightarrow> LeakReport \<Rightarrow> LeakReport" where
  "party_member_visit r e m rep =
     (if GetMetadata r m = None
      then add_invalid e ''Party member reference to non-existent entity''
             (''Party #'' @ entityIDToString e @ '' member=#'' @ entityIDToString m @ '' (missing)'') rep
      else rep)"

definition party_visit :: "Registry \<Rightarrow> entity \<Rightarrow> PartyComponent \<Rightarrow> LeakReport \<Rightarrow> bool \<times> LeakReport" where
  "party_visit r e p rep =
     (let rep1 = (if LeaderID p \<noteq> 0 \<and> LeaderID p \<noteq> e \<and> GetMetadata r (LeaderID p) = None
            then add_invalid e ''Party leader reference to non-existent entity''
                   (''Party #'' @ entityIDToString e @ '' leader=#'' @ entityIDToString (LeaderID p) @ '' (missing)'') rep
            else rep)
      in (True, fold (party_member_visit r e) (MemberIDs p) rep1))"

definition membership_visit :: "Registry \<Rightarrow> entity \<Rightarrow> PartyMemberComponent \<Rightarrow> LeakReport \<Rightarrow> bool \<times> LeakReport" where
  "membership_visit r e pm rep =
     (True, if GetMetadata r (PartyID pm) = None
            then add_invalid e ''PartyMember references non-existent party entity''
                   (''Member #'' @ entityIDToString e @ '' party=#'' @ entityIDToString (PartyID pm) @ '' (missing)'') rep
            else rep)"

definition target_visit :: "Registry \<Rightarrow> entity \<Rightarrow> AIComponent \<Rightarrow> LeakReport \<Rightarrow> bool \<times> LeakReport" where
  "target_visit r e a rep =
     (True, if ai_TargetID a \<noteq> 0 \<and> GetMetadata r (ai_TargetID a) = None
            then add_invalid e ''AI TargetID references non-existent entity''
                   (''Monster #'' @ entityIDToString e @ '' target=#'' @ entityIDToString (ai_TargetID a) @ '' (missing)'') rep
            else rep)"

definition compile_warnings :: "LeakReport \<Rightarrow> LeakReport" where
  "compile_warnings rep =
     (let w1 = (if lr_OrphanCount rep > 0 then lr_Warnings rep @ [entityCountToString (lr_OrphanCount rep) @
             '' orphan entities found (missing Position/Stats)''] else lr_Warnings rep);
          w2 = (if lr_ForgottenCount rep > 0 then w1 @ [entityCountToString (lr_ForgottenCount rep) @
             '' forgotten components found (no parent Metadata)''] else w1);
          w3 = (if lr_InvalidRefCount rep > 0 then w2 @ [entityCountToString (lr_InvalidRefCount rep) @
             '' invalid entity references found (dead pointers)''] else w2)
      in rep\<lparr>lr_Warnings := w3\<rparr>)"

definition empty_report :: "string \<Rightarrow> LeakReport" where
  "empty_report now = \<lparr>lr_OrphanCount = 0, lr_ForgottenCount = 0, lr_InvalidRefCount = 0, lr_TotalScanned = 0, lr_ScanTime = now,
     lr_Orphans = [], lr_Forgotten = [], lr_InvalidReferences = [], lr_Warnings = []\<rparr>"

text \<open>The three phases; a store is walked with the closure that drops its values.\<close>

definition scan_forgotten :: "Registry \<Rightarrow> LeakReport \<Rightarrow> LeakReport" where
  "scan_forgotten r rep =
     (let rep = checkForgotten r ''Position'' (\<lambda>f. store_range (\<lambda>e _. f e) (positions r)) rep;
          rep = checkForgotten r ''Stats'' (\<lambda>f. store_range (\<lambda>e _. f e) (stats r)) rep;
          rep = checkForgotten r ''AI'' (\<lambda>f. store_range (\<lambda>e _. f e) (ai r)) rep;
          rep = checkForgotten r ''Inventory'' (\<lambda>f. store_range (\<lambda>e _. f e) (inventories r)) rep;
          rep = checkForgotten r ''Equipment'' (\<lambda>f. store_range (\<lambda>e _. f e) (equipment r)) rep;
          rep = checkForgotten r ''Connection'' (\<lambda>f. store_range (\<lambda>e _. f e) (conns r)) rep;
          rep = checkForgotten r ''Effects'' (\<lambda>f. store_range (\<lambda>e _. f e) (effects r)) rep;
          rep = checkForgotten r ''Party'' (\<lambda>f. store_range (\<lambda>e _. f e) (parties r)) rep;
          rep = checkForgotten r ''PartyMember'' (\<lambda>f. store_range (\<lambda>e _. f e) (partyMembers r)) rep;
          rep = checkForgotten r ''Lifetime'' (\<lambda>f. store_range (\<lambda>e _. f e) (lifetimes r)) rep
      in checkForgotten r ''ItemTemplate'' (\<lambda>f. store_range (\<lambda>e _. f e) (itemTemplates r)) rep)"

definition scan_references :: "Registry \<Rightarrow> LeakReport \<Rightarrow> LeakReport" where
  "scan_references r rep =
     store_range (target_visit r) (ai r)
       (store_range (membership_visit r) (partyMembers r)
          (store_range (party_visit r) (parties r) rep))"

definition scan_report :: "string \<Rightarrow> Registry \<Rightarrow> LeakReport" where
  "scan_report now r = compile_warnings (scan_references r (scan_forgotten r
     (store_range (orphan_visit r) (metadata r) (empty_report now))))"

definition Scan :: "string \<Rightarrow> int \<Rightarrow> Registry \<Rightarrow> ECSDiagnostics \<times> TickMonitor \<Rightarrow> LeakReport \<times> ECSDiagnostics \<times> TickMonitor" where
  "Scan now elapsed r s =
     (let rep = scan_report now r
      in (rep, (fst s)\<lparr>dg_LeakReport := Some rep\<rparr>, RecordTick elapsed (snd s)))"

subsection \<open>The printed numbers\<close>

lemma fill_digits_dec: "fill_digits n acc = (if n = 0 \<and> acc \<noteq> [] then acc else dec_nat n @ acc)"
proof (induction n acc rule: fill_digits.induct)
  case (1 n acc)
  show ?case
  proof (cases "n > 0 \<or> acc = []")
    case True
    with 1 show ?thesis by (auto simp: fill_digits.simps [of n] dec_nat.simps [of n])
  next
    case False
    then show ?thesis by (subst fill_digits.simps) simp
  qed
qed

lemma entityIDToString_dec: "entityIDToString e = dec_nat (unat e)"
  by (simp add: entityIDToString_def fill_digits_dec dec_nat.simps [of 0] digits_def unat_eq_0)

lemma entityCountToString_dec: "entityCountToString n = dec_nat n"
  by (simp add: entityCountToString_def fill_digits_dec dec_nat.simps [of 0] digits_def)

lemma dec_nat_length: "n < 10 ^ Suc k \<Longrightarrow> length (dec_nat n) \<le> Suc k"
proof (induction k arbitrary: n)
  case (Suc k)
  then have "n div 10 < 10 ^ Suc k" by (simp add: less_mult_imp_div_less mult.commute)
  from Suc.IH [OF this] show ?case by (simp add: dec_nat.simps [of n])
qed (simp add: dec_nat.simps [of n for n])

lemma id_string_fits: "length (entityIDToString e) \<le> 20"
proof -
  have "unat e < 2 ^ 64" using unsigned_less [of e] by simp
  also have "(2::nat) ^ 64 < 10 ^ Suc 19" by simp
  finally show ?thesis using dec_nat_length [of "unat e" 19] by (simp add: entityIDToString_dec)
qed

subsection \<open>What a scan reports\<close>

definition dead :: "Registry \<Rightarrow> entity \<Rightarrow> bool" where
  "dead r e \<longleftrightarrow> GetMetadata r e = None"

definition incomplete :: "Registry \<Rightarrow> entity \<Rightarrow> bool" where
  "incomplete r e \<longleftrightarrow> GetPosition r e = None \<or> GetStats r e = None"

text \<open>The entities reported as owners of invalid references, in the order of the report.\<close>

definition party_refs :: "Registry \<Rightarrow> entity \<times> PartyComponent \<Rightarrow> entity list" where
  "party_refs r ep = (case ep of (e, p) \<Rightarrow>
     (if LeaderID p \<noteq> 0 \<and> LeaderID p \<noteq> e \<and> dead r (LeaderID p) then [e] else []) @
     map (\<lambda>_. e) (filter (dead r) (MemberIDs p)))"

definition bad_refs :: "Registry \<Rightarrow> entity list" where
  "bad_refs r = concat (map (party_refs r) (entries (parties r))) @
     map fst (filter (\<lambda>(e, pm). dead r (PartyID pm)) (entries (partyMembers r))) @
     map fst (filter (\<lambda>(e, a). ai_TargetID a \<noteq> 0 \<and> dead r (ai_TargetID a)) (entries (ai r)))"

definition component_owners :: "Registry \<Rightarrow> entity list" where
  "component_owners r = dense (positions r) @ dense (stats r) @ dense (ai r) @ dense (inventories r) @ dense (equipment r) @
     dense (conns r) @ dense (effects r) @ dense (parties r) @ dense (partyMembers r) @ dense (lifetimes r) @ dense (itemTemplates r)"

text \<open>The three lists and counters of a report, and its head, as one view.\<close>

type_synonym leak_view = "entity list \<times> entity list \<times> entity list \<times> nat \<times> nat \<times> nat \<times> nat \<times> string list"

definition view :: "LeakReport \<Rightarrow> leak_view" where
  "view rep = (map le_EntityID (lr_Orphans rep), map le_EntityID (lr_Forgotten rep), map le_EntityID (lr_InvalidReferences rep),
     lr_OrphanCount rep, lr_ForgottenCount rep, lr_InvalidRefCount rep, lr_TotalScanned rep, lr_Warnings rep)"

lemma orphan_visit_fold:
  "view (fold (\<lambda>(e, m) rep. snd (orphan_visit r e m rep)) es rep) =
     (case view rep of (os, fs, is, on, fn, n, t, ws) \<Rightarrow>
        (os @ filter (incomplete r) (map fst es), fs, is, on + length (filter (incomplete r) (map fst es)), fn, n, t + length es, ws))"
  by (induction es arbitrary: rep)
    (auto simp: view_def orphan_visit_def add_orphan_def incomplete_def Let_def)

lemma store_range_total:
  "(\<And>e v w. fst (f e v w)) \<Longrightarrow> store_range f s w = fold (\<lambda>(e, v) w. snd (f e v w)) (entries s) w"
  by (simp add: store_range_def entries_def range_loop_fold)

lemma fst_entries: "store_ok s \<Longrightarrow> map fst (entries s) = dense s"
  using store_okD(1) [of s] by (simp add: entries_def)

lemma length_entries: "store_ok s \<Longrightarrow> length (entries s) = length (dense s)"
  using store_okD(1) [of s] by (simp add: entries_def)

lemma fold_collect:
  "fold (\<lambda>(e, v) acc. if P e then acc @ [F e] else acc) es acc = acc @ map F (filter P (map fst es))"
  by (induction es arbitrary: acc) auto

lemma checkForgotten_view:
  assumes "store_ok s"
  shows "view (checkForgotten r n (\<lambda>f. store_range (\<lambda>e _. f e) s) rep) =
     (case view rep of (os, fs, is, on, fn, rn, t, ws) \<Rightarrow>
        (os, fs @ filter (dead r) (dense s), is, on, fn + length (filter (dead r) (dense s)), rn, t, ws))"
  by (simp add: checkForgotten_def store_range_total fold_collect fst_entries [OF assms] view_def dead_def [abs_def] Let_def
      map_idI comp_def)

lemma party_visit_fold:
  "view (fold (party_member_visit r e) ms rep) =
     (case view rep of (os, fs, is, on, fn, n, t, ws) \<Rightarrow>
        (os, fs, is @ map (\<lambda>_. e) (filter (dead r) ms), on, fn, n + length (filter (dead r) ms), t, ws))"
  by (induction ms arbitrary: rep) (auto simp: view_def party_member_visit_def add_invalid_def dead_def)

lemma parties_fold:
  "view (fold (\<lambda>(e, p) rep. snd (party_visit r e p rep)) es rep) =
     (case view rep of (os, fs, is, on, fn, n, t, ws) \<Rightarrow>
        (os, fs, is @ concat (map (party_refs r) es), on, fn, n + length (concat (map (party_refs r) es)), t, ws))"
proof (induction es arbitrary: rep)
  case (Cons ep es)
  obtain e p where ep: "ep = (e, p)" by force
  have "view (snd (party_visit r e p rep)) =
     (case view rep of (os, fs, is, on, fn, n, t, ws) \<Rightarrow>
        (os, fs, is @ party_refs r (e, p), on, fn, n + length (party_refs r (e, p)), t, ws))"
    by (simp add: party_visit_def party_visit_fold party_refs_def Let_def)
      (simp add: view_def add_invalid_def dead_def)
  then show ?case using Cons by (simp add: ep split: prod.splits)
qed (simp split: prod.split)

lemma memberships_fold:
  "view (fold (\<lambda>(e, pm) rep. snd (membership_visit r e pm rep)) es rep) =
     (case view rep of (os, fs, is, on, fn, n, t, ws) \<Rightarrow>
        let bad = map fst (filter (\<lambda>(e, pm). dead r (PartyID pm)) es) in (os, fs, is @ bad, on, fn, n + length bad, t, ws))"
  by (induction es arbitrary: rep) (auto simp: view_def membership_visit_def add_invalid_def dead_def Let_def)

lemma targets_fold:
  "view (fold (\<lambda>(e, a) rep. snd (target_visit r e a rep)) es rep) =
     (case view rep of (os, fs, is, on, fn, n, t, ws) \<Rightarrow>
        let bad = map fst (filter (\<lambda>(e, a). ai_TargetID a \<noteq> 0 \<and> dead r (ai_TargetID a)) es)
        in (os, fs, is @ bad, on, fn, n + length bad, t, ws))"
  by (induction es arbitrary: rep) (auto simp: view_def target_visit_def add_invalid_def dead_def Let_def)

text \<open>Before the warnings are written.\<close>

lemma scan_view:
  assumes "registry_ok r"
  shows "view (scan_references r (scan_forgotten r (store_range (orphan_visit r) (metadata r) (empty_report now)))) =
    (let os = filter (incomplete r) (dense (metadata r)); fs = filter (dead r) (component_owners r)
     in (os, fs, bad_refs r, length os, length fs, length (bad_refs r), length (dense (metadata r)), []))"
proof -
  have ok: "store_ok (positions r)" "store_ok (conns r)" "store_ok (metadata r)" "store_ok (stats r)" "store_ok (ai r)"
    "store_ok (inventories r)" "store_ok (lifetimes r)" "store_ok (itemTemplates r)" "store_ok (equipment r)"
    "store_ok (parties r)" "store_ok (partyMembers r)" "store_ok (effects r)"
    using assms by (simp_all add: registry_ok_def)
  have total: "fst (orphan_visit r e m rep)" "fst (party_visit r e p rep)" "fst (membership_visit r e pm rep)"
    "fst (target_visit r e a rep)" for e m p pm a rep
    by (simp_all add: orphan_visit_def party_visit_def membership_visit_def target_visit_def Let_def)
  have start: "view (store_range (orphan_visit r) (metadata r) (empty_report now)) =
      (filter (incomplete r) (dense (metadata r)), [], [], length (filter (incomplete r) (dense (metadata r))), 0, 0,
       length (dense (metadata r)), [])"
    by (simp add: length_entries ok store_range_total total orphan_visit_fold fst_entries ok) (simp add: view_def empty_report_def)
  have forgotten: "view (scan_forgotten r rep) = (case view rep of (os, fs, is, on, fn, rn, t, ws) \<Rightarrow>
        (os, fs @ filter (dead r) (component_owners r), is, on, fn + length (filter (dead r) (component_owners r)), rn, t, ws))" for rep
    by (simp add: scan_forgotten_def Let_def checkForgotten_view ok component_owners_def split: prod.split)
  let ?os = "filter (incomplete r) (dense (metadata r))" and ?fs = "filter (dead r) (component_owners r)"
  let ?ps = "concat (map (party_refs r) (entries (parties r)))"
    and ?ms = "map fst (filter (\<lambda>(e, pm). dead r (PartyID pm)) (entries (partyMembers r)))"
  let ?B = "scan_forgotten r (store_range (orphan_visit r) (metadata r) (empty_report now))"
  have B: "view ?B = (?os, ?fs, [], length ?os, length ?fs, 0, length (dense (metadata r)), [])"
    by (simp add: forgotten start)
  have C: "view (store_range (party_visit r) (parties r) ?B) =
      (?os, ?fs, ?ps, length ?os, length ?fs, length ?ps, length (dense (metadata r)), [])" (is "view ?C = _")
    using B by (simp add: store_range_total total parties_fold)
  have D: "view (store_range (membership_visit r) (partyMembers r) ?C) =
      (?os, ?fs, ?ps @ ?ms, length ?os, length ?fs, length (?ps @ ?ms), length (dense (metadata r)), [])" (is "view ?D = _")
    using C unfolding store_range_total [OF total(3)] memberships_fold by (simp add: Let_def)
  show ?thesis
    using D unfolding scan_references_def store_range_total [OF total(4)] targets_fold bad_refs_def
    by (simp add: Let_def)
qed

subsection \<open>Parties have no metadata\<close>

definition parties_bare :: "Registry \<Rightarrow> bool" where
  "parties_bare r \<longleftrightarrow> dom (GetParty r) \<inter> dom (GetMetadata r) = {}"

lemma parties_bareD: "parties_bare r \<Longrightarrow> GetParty r e = Some c \<Longrightarrow> GetMetadata r e = None"
  by (auto simp: parties_bare_def)

lemma RemovePlayer_metadata: "RemovePlayerFromParty p r = (r1, ns) \<Longrightarrow> GetMetadata r1 = GetMetadata r"
  by (auto simp: RemovePlayerFromParty_def Let_def accessor_defs fun_eq_iff split: option.splits if_splits)

lemma parties_bare_step:
  assumes step: "party_step w w'" and ok: "party_ok (pw_reg w) (pw_free w) L I" and bare: "parties_bare (pw_reg w)"
  shows "parties_bare (pw_reg w')"
proof -
  have al: "alloc_ok (pw_reg w) (pw_free w) L I" using ok by (simp add: party_ok_def)
  from step show ?thesis
  proof (cases rule: party_step.cases)
    case (enter e r fl m)
    note N = alloc_NewEntity [OF al enter(2,3)]
    have "GetParty r = GetParty (pw_reg w)" "GetMetadata r = GetMetadata (pw_reg w)"
      using N(5) by (auto simp: same_components_def fun_eq_iff)
    moreover have "GetParty r e = None" using N(4) by (simp add: no_components_def)
    ultimately show ?thesis using bare Set_live(6) [OF N(1), of e m] by (auto simp: enter(1) parties_bare_def)
  next
    case (create l n reply r fl)
    show ?thesis
    proof (cases "GetPartyMember (pw_reg w) l")
      case None
      obtain pid r1 fl1 where new: "reg_NewEntity (pw_reg w) (pw_free w) = (pid, r1, fl1)" by (metis surj_pair)
      note N = alloc_NewEntity [OF al create(2) new]
      have same: "GetParty r1 = GetParty (pw_reg w)" "GetMetadata r1 = GetMetadata (pw_reg w)"
        using N(5) by (auto simp: same_components_def fun_eq_iff)
      have eq: "r = SetPartyMember l \<lparr>PartyID = pid\<rparr> (SetParty pid \<lparr>LeaderID = l, TeamName = n, MemberIDs = [l]\<rparr> r1)"
        using create(4) None new by (auto simp: CreatePartySystem_def)
      show ?thesis
        using bare N(4) Set_live(20) [OF N(1), of pid] same by (auto simp: create(1) eq parties_bare_def no_components_def)
    qed (use create bare in \<open>auto simp: CreatePartySystem_def\<close>)
  next
    case (accept p now target reply r ic ns)
    have "r = pw_reg w \<or> (\<exists>b. TryAddMemberToParty target p (pw_reg w) = (b, r))"
      using accept(3) by (auto simp: AcceptPartyInviteSystem_def split: prod.splits option.splits if_splits bool.splits)
    then have "r = pw_reg w \<or> (\<exists>c c'. GetParty (pw_reg w) target = Some c \<and>
        r = SetPartyMember p \<lparr>PartyID = target\<rparr> (SetParty target c' (pw_reg w)))"
      by (auto simp: TryAddMemberToParty_def try_read_def try_write_def split: option.splits if_splits)
    then show ?thesis
    proof
      assume "\<exists>c c'. GetParty (pw_reg w) target = Some c \<and> r = SetPartyMember p \<lparr>PartyID = target\<rparr> (SetParty target c' (pw_reg w))"
      then obtain c c' where c: "GetParty (pw_reg w) target = Some c"
        and r: "r = SetPartyMember p \<lparr>PartyID = target\<rparr> (SetParty target c' (pw_reg w))" by blast
      show ?thesis
        using bare c parties_bareD [OF bare c] Set_live(20) [OF al party_ok_live(1) [OF ok c], of c']
        by (auto simp: accept(1) r parties_bare_def)
    qed (use bare in \<open>simp add: accept(1)\<close>)
  next
    case (leave p r1 ns r2 fl)
    have "p \<in> L" using leave(2) party_ok_live(3) [OF ok] by auto
    then have rm: "no_components p r2" "\<And>x. x \<noteq> p \<Longrightarrow> same_components x r1 r2"
      using alloc_RemoveEntity [of r1 "pw_free w" L I p r2 fl] Leave_ok [OF ok leave(4)] leave(5) by (auto simp: party_ok_def)
    have none: "GetParty r2 x = None \<or> GetMetadata r2 x = None" for x
      using rm Leave_dom [OF ok leave(4)] RemovePlayer_metadata [OF leave(4)] bare
      by (cases "x = p") (auto simp: no_components_def same_components_def parties_bare_def)
    have "dom (GetParty r2) \<inter> dom (GetMetadata r2) = {}" using none by (metis disjoint_iff domIff)
    then show ?thesis by (simp add: leave(1) parties_bare_def)
  qed (use bare in auto)
qed

lemma parties_bare_steps:
  "party_steps w w' \<Longrightarrow> pw_ok w \<Longrightarrow> parties_bare (pw_reg w) \<Longrightarrow> pw_ok w' \<and> parties_bare (pw_reg w')"
proof (induction rule: party_steps.induct)
  case (more w w' w'')
  then show ?case using parties_bare_step [OF more.hyps(2)] party_step_ok [OF more.hyps(2)] by (auto simp: pw_ok_def)
qed simp

subsection \<open>Properties\<close>

lemma compile_warnings_fields [simp]:
  "lr_Orphans (compile_warnings rep) = lr_Orphans rep" "lr_Forgotten (compile_warnings rep) = lr_Forgotten rep"
  "lr_InvalidReferences (compile_warnings rep) = lr_InvalidReferences rep"
  "lr_OrphanCount (compile_warnings rep) = lr_OrphanCount rep" "lr_ForgottenCount (compile_warnings rep) = lr_ForgottenCount rep"
  "lr_InvalidRefCount (compile_warnings rep) = lr_InvalidRefCount rep" "lr_TotalScanned (compile_warnings rep) = lr_TotalScanned rep"
  by (simp_all add: compile_warnings_def Let_def)

lemma compile_warnings_empty:
  "lr_Warnings rep = [] \<Longrightarrow>
     lr_Warnings (compile_warnings rep) = [] \<longleftrightarrow> lr_OrphanCount rep = 0 \<and> lr_ForgottenCount rep = 0 \<and> lr_InvalidRefCount rep = 0"
  by (simp add: compile_warnings_def Let_def)

text \<open>
  A report lists exactly the entities with metadata that lack a position or stats, one entry for each
  component whose entity has no metadata, and one for each reference to an entity without metadata; the
  counters are the lengths of the lists, and there is a warning exactly when one of them is not empty.
\<close>

theorem scan_exact:
  assumes "registry_ok r"
  shows "map le_EntityID (lr_Orphans (scan_report now r)) = filter (incomplete r) (dense (metadata r)) \<and>
    map le_EntityID (lr_Forgotten (scan_report now r)) = filter (dead r) (component_owners r) \<and>
    map le_EntityID (lr_InvalidReferences (scan_report now r)) = bad_refs r \<and>
    lr_OrphanCount (scan_report now r) = length (lr_Orphans (scan_report now r)) \<and>
    lr_ForgottenCount (scan_report now r) = length (lr_Forgotten (scan_report now r)) \<and>
    lr_InvalidRefCount (scan_report now r) = length (lr_InvalidReferences (scan_report now r)) \<and>
    lr_TotalScanned (scan_report now r) = length (dense (metadata r)) \<and>
    (lr_Warnings (scan_report now r) = [] \<longleftrightarrow>
       filter (incomplete r) (dense (metadata r)) = [] \<and> filter (dead r) (component_owners r) = [] \<and> bad_refs r = [])"
proof -
  let ?rep = "scan_references r (scan_forgotten r (store_range (orphan_visit r) (metadata r) (empty_report now)))"
  have v: "map le_EntityID (lr_Orphans ?rep) = filter (incomplete r) (dense (metadata r))"
    "map le_EntityID (lr_Forgotten ?rep) = filter (dead r) (component_owners r)"
    "map le_EntityID (lr_InvalidReferences ?rep) = bad_refs r"
    "lr_OrphanCount ?rep = length (filter (incomplete r) (dense (metadata r)))"
    "lr_ForgottenCount ?rep = length (filter (dead r) (component_owners r))" "lr_InvalidRefCount ?rep = length (bad_refs r)"
    "lr_TotalScanned ?rep = length (dense (metadata r))" "lr_Warnings ?rep = []"
    using scan_view [OF assms, of now] by (simp_all add: view_def Let_def)
  then have "length (lr_Orphans ?rep) = length (filter (incomplete r) (dense (metadata r)))"
    "length (lr_Forgotten ?rep) = length (filter (dead r) (component_owners r))"
    "length (lr_InvalidReferences ?rep) = length (bad_refs r)"
    by (metis length_map)+
  then show ?thesis by (simp add: scan_report_def v compile_warnings_empty)
qed

lemma bad_membership:
  assumes "registry_ok r" and "GetPartyMember r m = Some pm" and "dead r (PartyID pm)"
  shows "m \<in> set (bad_refs r)"
proof -
  have "(m, pm) \<in> set (entries (partyMembers r))"
    using assms(1,2) set_entries [of "partyMembers r"] by (simp add: registry_ok_def GetPartyMember_def)
  with assms(3) show ?thesis by (force simp: bad_refs_def)
qed

text \<open>
  Every party is reported as a leak: a party is an entity without metadata, so in every state that players
  can reach its component is called forgotten, and each of its members is called a reference to a party that
  does not exist. The warnings of the detector are never empty while there is a party.
\<close>

theorem parties_look_leaked:
  assumes "party_steps NewPartyWorld w" and "GetParty (pw_reg w) pid = Some c"
    and "Scan now elapsed (pw_reg w) s = (rep, s')"
  shows "pid \<in> set (map le_EntityID (lr_Forgotten rep)) \<and>
    (\<forall>m \<in> set (MemberIDs c). m \<in> set (map le_EntityID (lr_InvalidReferences rep))) \<and> lr_Warnings rep \<noteq> []"
proof -
  let ?r = "pw_reg w"
  have "pw_ok NewPartyWorld" "parties_bare (pw_reg NewPartyWorld)"
    using party_ok_New by (auto simp: pw_ok_def NewPartyWorld_def parties_bare_def)
  from parties_bare_steps [OF assms(1) this] obtain L I where ok: "party_ok ?r (pw_free w) L I" and bare: "parties_bare ?r"
    by (auto simp: pw_ok_def)
  have reg: "registry_ok ?r" using ok alloc_okD(1) by (auto simp: party_ok_def registry_inv_def)
  have dead: "dead ?r pid" using parties_bareD [OF bare assms(2)] by (simp add: dead_def)
  have "pid \<in> set (dense (parties ?r))"
    using assms(2) reg dom_store_get [of "parties ?r"] by (auto simp: registry_ok_def GetParty_def)
  with dead have fs: "pid \<in> set (filter (dead ?r) (component_owners ?r))" by (simp add: component_owners_def)
  have ms: "m \<in> set (bad_refs ?r)" if "m \<in> set (MemberIDs c)" for m
  proof -
    have "GetPartyMember ?r m = Some \<lparr>PartyID = pid\<rparr>"
      using ok that assms(2) roster_member [of "GetParty ?r" "GetPartyMember ?r" m pid] by (auto simp: party_ok_def party_inv_def)
    with dead show ?thesis by (intro bad_membership [OF reg]) auto
  qed
  have rep: "rep = scan_report now ?r" using assms(3) by (simp add: Scan_def Let_def)
  from scan_view [OF reg, of now] have
    "map le_EntityID (lr_Forgotten rep) = filter (dead ?r) (component_owners ?r)"
    "map le_EntityID (lr_InvalidReferences rep) = bad_refs ?r"
    "lr_Warnings rep \<noteq> [] \<longleftrightarrow> \<not> (filter (incomplete ?r) (dense (metadata ?r)) = [] \<and>
        filter (dead ?r) (component_owners ?r) = [] \<and> bad_refs ?r = [])"
    by (simp_all add: rep scan_report_def view_def Let_def compile_warnings_empty)
  moreover have "filter (dead ?r) (component_owners ?r) \<noteq> []" using fs by (metis empty_iff empty_set)
  ultimately show ?thesis using fs ms by metis
qed

theorem parties_look_leaked_witness:
  "\<exists>w pid rep. party_steps NewPartyWorld w \<and> rep = fst (Scan now elapsed (pw_reg w) (GlobalECSStats, zero_monitor)) \<and>
     pid \<in> set (map le_EntityID (lr_Forgotten rep)) \<and> lr_Warnings rep \<noteq> []"
proof -
  obtain w pid c where w: "party_steps NewPartyWorld w" "GetParty (pw_reg w) pid = Some c" using party_of_one by blast
  from parties_look_leaked [OF this prod.collapse [symmetric]] w(1) show ?thesis by blast
qed

lemma RecordQuery_again:
  assumes "dg_QueryCounts d name = Some qc"
  shows "\<exists>qc'. dg_QueryCounts (RecordQuery name x d) = (dg_QueryCounts d)(name \<mapsto> qc') \<and> qc_Count qc' = qc_Count qc + 1 \<and>
    qc_TotalTime qc' = qc_TotalTime qc + x \<and> qc_LastTime qc' = x \<and> qc_MinTime qc' = min x (qc_MinTime qc) \<and>
    qc_MaxTime qc' = max x (qc_MaxTime qc)"
proof -
  let ?qc = "qc\<lparr>qc_Count := qc_Count qc + 1, qc_TotalTime := qc_TotalTime qc + x, qc_LastTime := x,
     qc_MinTime := min x (qc_MinTime qc), qc_MaxTime := max x (qc_MaxTime qc)\<rparr>"
  have "dg_QueryCounts (RecordQuery name x d) = (dg_QueryCounts d)(name \<mapsto> ?qc)"
    using assms by (cases qc) (simp add: RecordQuery_def Let_def min_def max_def)
  then show ?thesis by (intro exI [of _ ?qc]) simp
qed

text \<open>The statistics of a query are those of the sequence of its recorded durations.\<close>

theorem query_statistics:
  assumes "ds \<noteq> []" and "dg_QueryCounts d name = None"
  shows "\<exists>qc. dg_QueryCounts (fold (RecordQuery name) ds d) = (dg_QueryCounts d)(name \<mapsto> qc) \<and>
    qc_Count qc = of_nat (length ds) \<and> qc_TotalTime qc = sum_list ds \<and> qc_LastTime qc = last ds \<and>
    qc_MinTime qc = Min (set ds) \<and> qc_MaxTime qc = Max (set ds)"
  using assms(1)
proof (induction ds rule: rev_nonempty_induct)
  case (single x)
  let ?qc = "\<lparr>qc_Name = name, qc_Count = 1, qc_TotalTime = x, qc_LastTime = x, qc_MinTime = x, qc_MaxTime = x\<rparr>"
  show ?case using assms(2) by (intro exI [of _ ?qc]) (simp add: RecordQuery_def Let_def)
next
  case (snoc x xs)
  then obtain qc where qc: "dg_QueryCounts (fold (RecordQuery name) xs d) = (dg_QueryCounts d)(name \<mapsto> qc)"
    "qc_Count qc = of_nat (length xs)" "qc_TotalTime qc = sum_list xs" "qc_MinTime qc = Min (set xs)" "qc_MaxTime qc = Max (set xs)"
    by blast
  from RecordQuery_again [of "fold (RecordQuery name) xs d" name qc x] qc(1) obtain qc' where qc':
    "dg_QueryCounts (RecordQuery name x (fold (RecordQuery name) xs d)) = (dg_QueryCounts d)(name \<mapsto> qc')"
    "qc_Count qc' = qc_Count qc + 1" "qc_TotalTime qc' = qc_TotalTime qc + x" "qc_LastTime qc' = x"
    "qc_MinTime qc' = min x (qc_MinTime qc)" "qc_MaxTime qc' = max x (qc_MaxTime qc)"
    by auto
  then show ?case using qc snoc.hyps by (intro exI [of _ qc']) simp
qed

theorem query_statistics_witness:
  "\<exists>qc. dg_QueryCounts (fold (RecordQuery ''aoi'') [5, 3, 9] GlobalECSStats) ''aoi'' = Some qc \<and>
     qc_TotalTime qc = 17 \<and> qc_MinTime qc = 3 \<and> qc_MaxTime qc = 9"
  using query_statistics [of "[5, 3, 9]" GlobalECSStats "''aoi''"] by (auto simp: GlobalECSStats_def)

end
