(* ===== verification/Threat_Pools.thy ===== *)
theory Threat_Pools
  imports Threat
begin

text \<open>
  The pools of \<open>server/peakgo/threat/threat.go\<close>. A constructor takes a struct and a pointer to a slice from two
  \<open>sync.Pool\<close>s, which give any element that was put, or a new one. \<open>Clear\<close> puts the address of the table's own
  field \<open>entries\<close> and then sets that field to nil, so the pointer in the pool follows whatever the table holds later. The
  memory is the tables by number; \<open>nil_entries\<close> says whose slice is nil. Contents are read when the constructor runs;
  that two tables with the same slice also share its later writes is not modelled.
\<close>

subsection \<open>Memory\<close>

datatype entries_ptr = Made | Field nat

record threat_mem =
  tables :: "nat \<Rightarrow> ThreatTable"
  nil_entries :: "nat \<Rightarrow> bool"
  tables_made :: nat
  entryPool :: "entries_ptr list"
  tablePool :: "nat list"

definition start_mem :: threat_mem where
  "start_mem = \<lparr>tables = (\<lambda>_. pool_table), nil_entries = (\<lambda>_. True), tables_made = 0, entryPool = [], tablePool = []\<rparr>"

definition deref :: "threat_mem \<Rightarrow> entries_ptr \<Rightarrow> ThreatEntry list" where
  "deref m p = (case p of Made \<Rightarrow> [] | Field a \<Rightarrow> tt_entries (tables m a))"

definition nil_ptr :: "threat_mem \<Rightarrow> entries_ptr \<Rightarrow> bool" where
  "nil_ptr m p = (case p of Made \<Rightarrow> False | Field a \<Rightarrow> nil_entries m a)"

text \<open>\<open>Get\<close> of the two pools: the element at an index, which leaves the pool, or what the factory makes.\<close>

definition get_table :: "nat option \<Rightarrow> threat_mem \<Rightarrow> nat \<times> threat_mem" where
  "get_table i m = (case i of
     None \<Rightarrow> (tables_made m, m\<lparr>tables_made := tables_made m + 1\<rparr>)
   | Some k \<Rightarrow> (tablePool m ! k, m\<lparr>tablePool := take k (tablePool m) @ drop (k + 1) (tablePool m)\<rparr>))"

definition get_entries :: "nat option \<Rightarrow> threat_mem \<Rightarrow> entries_ptr \<times> threat_mem" where
  "get_entries i m = (case i of
     None \<Rightarrow> (Made, m)
   | Some k \<Rightarrow> (entryPool m ! k, m\<lparr>entryPool := take k (entryPool m) @ drop (k + 1) (entryPool m)\<rparr>))"

definition mem_New :: "nat option \<Rightarrow> nat option \<Rightarrow> threat_mem \<Rightarrow> nat \<times> threat_mem" where
  "mem_New i j m = (case get_table i m of (a, m1) \<Rightarrow> (case get_entries j m1 of (p, m2) \<Rightarrow>
     (a, m2\<lparr>tables := (tables m2)(a := NewThreatTableFrom (tables m2 a) (deref m2 p)),
            nil_entries := (nil_entries m2)(a := nil_ptr m2 p)\<rparr>)))"

definition mem_Clear :: "nat \<Rightarrow> threat_mem \<Rightarrow> threat_mem" where
  "mem_Clear a m = m\<lparr>entryPool := (if nil_entries m a then entryPool m else Field a # entryPool m),
     tables := (tables m)(a := threat_Clear (tables m a)), nil_entries := (nil_entries m)(a := True)\<rparr>"

definition mem_Close :: "nat \<Rightarrow> threat_mem \<Rightarrow> threat_mem" where
  "mem_Close a m = (let m1 = mem_Clear a m in m1\<lparr>tablePool := a # tablePool m1\<rparr>)"

text \<open>\<open>Add\<close> appends to the slice, which is not nil afterwards.\<close>

definition mem_Add :: "nat \<Rightarrow> u64 \<Rightarrow> int \<Rightarrow> threat_mem \<Rightarrow> threat_mem option" where
  "mem_Add a p amount m =
     map_option (\<lambda>t. m\<lparr>tables := (tables m)(a := t), nil_entries := (nil_entries m)(a := False)\<rparr>) (threat_Add p amount (tables m a))"

lemmas mem_defs = start_mem_def deref_def nil_ptr_def get_table_def get_entries_def mem_New_def mem_Clear_def mem_Close_def mem_Add_def

subsection \<open>When a new table is sound\<close>

text \<open>A new table is well formed if the slice it was given is empty.\<close>

lemma mem_New_ok:
  assumes "mem_New i j m = (a, m')" and "\<And>b. length (tt_heap (tables m b)) = MaxPlayers"
    and "deref m (fst (get_entries j (snd (get_table i m)))) = []"
  shows "threat_ok (tables m' a)"
proof -
  have "tables (snd (get_entries j (snd (get_table i m)))) = tables m"
    by (simp add: get_table_def get_entries_def split: option.split)
  then show ?thesis
    using assms NewFrom_ok(1) [of "tables m a"] by (auto simp: mem_New_def deref_def split: prod.splits entries_ptr.splits)
qed

text \<open>
  A table that is wiped and used again: its slice is in the pool all the same, and the next table starts with the entries of the
  first and a total of 0.
\<close>

lemma wiped_table_aliased:
  "\<exists>m1 m2 m3. mem_New None None start_mem = (0, m1) \<and> mem_Add 0 1 10 m1 = Some m2 \<and> mem_Add 0 2 20 (mem_Clear 0 m2) = Some m3 \<and>
     (case mem_New None (Some 0) m3 of (b, m4) \<Rightarrow> b = 1 \<and> threat_of (tables m4 b) = [2 \<mapsto> 20] \<and> threat_Total (tables m4 b) = 0 \<and>
        \<not> threat_ok (tables m4 b))"
  by (simp add: mem_defs pool_table_def NewThreatTableFrom_def threat_Add_def threat_Clear_def threat_sort_def MaxPlayers_def Let_def
      threat_of_def threat_Total_def threat_ok_def bump_def)

text \<open>
  Two monsters die and two others are attacked; nothing is used after \<open>Close\<close>. If the pools give the struct of one and the slice
  of the other, as they may, the second new table holds the live entries of the first.
\<close>

lemma closed_tables_aliased:
  "\<exists>m1 m2 m3 m4. mem_New None None start_mem = (0, m1) \<and> mem_New None None m1 = (1, m2) \<and>
     mem_New (Some 0) (Some 1) (mem_Close 1 (mem_Close 0 m2)) = (1, m3) \<and> mem_Add 1 7 5 m3 = Some m4 \<and>
     (case mem_New (Some 0) (Some 0) m4 of (b, m5) \<Rightarrow> b = 0 \<and> threat_of (tables m5 0) = [7 \<mapsto> 5] \<and> threat_Total (tables m5 0) = 0 \<and>
        \<not> threat_ok (tables m5 0))"
  by (simp add: mem_defs pool_table_def NewThreatTableFrom_def threat_Add_def threat_Clear_def threat_sort_def MaxPlayers_def Let_def
      threat_of_def threat_Total_def threat_ok_def bump_def)

end
